(* ===== verification/Prelude.thy ===== *)
theory Prelude
  imports
    Complex_Main
    "HOL-Library.Word"
    "HOL-Library.Char_ord"
    "HOL-Library.List_Lexorder"
    "HOL-Library.Multiset"
    "HOL-Library.AList"
begin

text \<open>
  Shared vocabulary of the development: Go maps as association lists with distinct keys,
  Go sets (\<^verbatim>\<open>map[string]struct{}\<close>) as lists without repetition, first-seen
  deduplication, the "first failing check" loop, instants and durations in nanoseconds,
  and the lemma collections the component theories extend.
\<close>

named_theorems go_simps \<open>unfolding rules for the Go library model\<close>
named_theorems store_simps \<open>field and lookup rules of the storage model\<close>

text \<open>
  A Go \<^verbatim>\<open>string\<close> or \<^verbatim>\<open>[]byte\<close> is a sequence of bytes; HOL's \<^typ>\<open>char\<close> is an
  8-bit value, so both are \<^typ>\<open>string\<close>.  An instant is the number of nanoseconds since
  January 1 of year 1, UTC (Go's zero \<^verbatim>\<open>time.Time\<close> is 0), a duration a number of
  nanoseconds.
\<close>

type_synonym bytes = string
type_synonym instant = int
type_synonym duration = int

abbreviation millisecond :: duration where "millisecond \<equiv> 1000000"
abbreviation second :: duration where "second \<equiv> 1000000000"

text \<open>\<^verbatim>\<open>t.Sub(u)\<close> saturates at the bounds of an \<^verbatim>\<open>int64\<close> of nanoseconds.\<close>

definition time_sub :: "instant \<Rightarrow> instant \<Rightarrow> duration" where
  "time_sub t u = max (- (2 ^ 63)) (min (2 ^ 63 - 1) (t - u))"

lemma time_sub_ge_iff:
  "- (2 ^ 63) < d \<Longrightarrow> d \<le> 2 ^ 63 - 1 \<Longrightarrow> d \<le> time_sub t u \<longleftrightarrow> u + d \<le> t"
  by (auto simp: time_sub_def)

section \<open>Go maps and sets\<close>

text \<open>Reading a missing key of a Go map yields the zero value of its element type.\<close>

definition go_get :: "'v \<Rightarrow> ('k \<times> 'v) list \<Rightarrow> 'k \<Rightarrow> 'v" where
  "go_get zero m k = (case map_of m k of None \<Rightarrow> zero | Some v \<Rightarrow> v)"

lemma go_get_Nil [simp]: "go_get z [] k = z"
  by (simp add: go_get_def)

lemma go_get_update [simp]:
  "go_get z (AList.update k v m) k' = (if k' = k then v else go_get z m k')"
  by (simp add: go_get_def update_conv')

text \<open>Appending a value to the slice stored under a key, as \<^verbatim>\<open>m[k] = append(m[k], v)\<close>.\<close>

definition go_append :: "('k \<times> 'v list) list \<Rightarrow> 'k \<Rightarrow> 'v \<Rightarrow> ('k \<times> 'v list) list" where
  "go_append m k v = AList.update k (go_get [] m k @ [v]) m"

lemma go_get_append [simp]:
  "go_get [] (go_append m k v) k' = (if k' = k then go_get [] m k @ [v] else go_get [] m k')"
  by (simp add: go_append_def)

lemma keys_update [simp]: "fst ` set (AList.update k v m) = insert k (fst ` set m)"
  using dom_update [of k v m] by (simp add: image_image)

lemma set_update_subset: "set (AList.update k v m) \<subseteq> insert (k, v) (set m)"
  by (induction m) auto

lemma keys_go_append [simp]: "fst ` set (go_append m k v) = insert k (fst ` set m)"
  by (simp add: go_append_def)

lemma go_get_absent: "k \<notin> fst ` set m \<Longrightarrow> go_get z m k = z"
  by (simp add: go_get_def map_of_eq_None_iff [THEN iffD2])

definition sorted_keys :: "('k::linorder \<times> 'v) list \<Rightarrow> 'k list" where
  "sorted_keys m = sort (remdups (map fst m))"

lemma set_sorted_keys [simp]: "set (sorted_keys m) = fst ` set m"
  by (simp add: sorted_keys_def)

lemma distinct_sorted_keys [simp]: "distinct (sorted_keys m)"
  by (simp add: sorted_keys_def)

lemma sorted_sorted_keys [simp]: "sorted (sorted_keys m)"
  by (simp add: sorted_keys_def)

section \<open>First-seen deduplication\<close>

fun dedup_seen :: "'a list \<Rightarrow> 'a list \<Rightarrow> 'a list" where
  "dedup_seen seen [] = []"
| "dedup_seen seen (x # xs) =
     (if x \<in> set seen then dedup_seen seen xs else x # dedup_seen (x # seen) xs)"

definition dedup_first :: "'a list \<Rightarrow> 'a list" where
  "dedup_first xs = dedup_seen [] xs"

lemma set_dedup_seen: "set (dedup_seen seen xs) = set xs - set seen"
  by (induction seen xs rule: dedup_seen.induct) auto

lemma distinct_dedup_seen: "distinct (dedup_seen seen xs)"
  by (induction seen xs rule: dedup_seen.induct) (auto simp: set_dedup_seen)

lemma set_dedup_first [simp]: "set (dedup_first xs) = set xs"
  by (simp add: dedup_first_def set_dedup_seen)

lemma distinct_dedup_first [simp]: "distinct (dedup_first xs)"
  by (simp add: dedup_first_def distinct_dedup_seen)

lemma dedup_first_eq_Nil_iff [simp]: "dedup_first xs = [] \<longleftrightarrow> xs = []"
  by (metis set_dedup_first set_empty)

section \<open>Loops that stop at the first result\<close>

fun first_some :: "('a \<Rightarrow> 'b option) \<Rightarrow> 'a list \<Rightarrow> 'b option" where
  "first_some f [] = None"
| "first_some f (x # xs) = (case f x of Some y \<Rightarrow> Some y | None \<Rightarrow> first_some f xs)"

lemma first_some_None_iff: "first_some f xs = None \<longleftrightarrow> (\<forall>x \<in> set xs. f x = None)"
  by (induction xs) (auto split: option.splits)

lemma first_some_SomeD: "first_some f xs = Some y \<Longrightarrow> \<exists>x \<in> set xs. f x = Some y"
  by (induction xs) (auto split: option.splits)

lemma mset_sort_unique: "mset xs = mset ys \<Longrightarrow> sort xs = sort (ys :: 'a::linorder list)"
  by (metis properties_for_sort mset_sort sorted_sort)

end
