(* ===== verification/GoStrings.thy ===== *)
theory GoStrings
  imports Prelude
begin

text \<open>
  The functions of Go's \<^verbatim>\<open>strings\<close>, \<^verbatim>\<open>strconv\<close>, \<^verbatim>\<open>encoding/hex\<close> and
  \<^verbatim>\<open>fmt\<close> packages that the modelled code calls, on byte strings.  White space and letter
  case are those of ASCII; bytes from 128 on are ordinary characters, so the model differs from
  Go on inputs that contain non-ASCII white space or non-ASCII letters with a case.
\<close>

section \<open>White space and case\<close>

definition is_space :: "char \<Rightarrow> bool" where
  "is_space c \<longleftrightarrow> (let n = (of_char c :: nat) in n = 32 \<or> (9 \<le> n \<and> n \<le> 13))"

definition trim_left :: "string \<Rightarrow> string" where
  "trim_left s = dropWhile is_space s"

definition trim_space :: "string \<Rightarrow> string" where
  "trim_space s = rev (trim_left (rev (trim_left s)))"

definition lower_char :: "char \<Rightarrow> char" where
  "lower_char c = (if CHR ''A'' \<le> c \<and> c \<le> CHR ''Z'' then char_of ((of_char c :: nat) + 32) else c)"

definition upper_char :: "char \<Rightarrow> char" where
  "upper_char c = (if CHR ''a'' \<le> c \<and> c \<le> CHR ''z'' then char_of ((of_char c :: nat) - 32) else c)"

definition to_lower :: "string \<Rightarrow> string" where
  "to_lower s = map lower_char s"

definition to_upper :: "string \<Rightarrow> string" where
  "to_upper s = map upper_char s"

definition equal_fold :: "string \<Rightarrow> string \<Rightarrow> bool" where
  "equal_fold s t \<longleftrightarrow> to_lower s = to_lower t"

text \<open>The order of characters, read as numbers, and facts about the case maps.\<close>

lemma char_le_iff: "c \<le> d \<longleftrightarrow> (of_char c :: nat) \<le> of_char d"
  by (simp add: less_eq_char_def)

lemma of_char_less_256 [simp]: "(of_char c :: nat) < 256"
  using nat_of_char_less_256 .

lemma of_lower_char:
  "(of_char (lower_char c) :: nat) =
     (if 65 \<le> (of_char c :: nat) \<and> (of_char c :: nat) \<le> 90 then of_char c + 32 else of_char c)"
  by (auto simp: lower_char_def char_le_iff)

lemma of_upper_char:
  "(of_char (upper_char c) :: nat) =
     (if 97 \<le> (of_char c :: nat) \<and> (of_char c :: nat) \<le> 122 then of_char c - 32 else of_char c)"
  by (auto simp: upper_char_def char_le_iff)

lemma char_eq_iff_nat: "c = d \<longleftrightarrow> (of_char c :: nat) = of_char d"
  by (metis of_char_eq_iff)

lemma lower_char_idem [simp]: "lower_char (lower_char c) = lower_char c"
  by (auto simp: char_eq_iff_nat of_lower_char)

lemma upper_char_idem [simp]: "upper_char (upper_char c) = upper_char c"
  by (auto simp: char_eq_iff_nat of_upper_char)

lemma lower_upper_char [simp]: "lower_char (upper_char c) = lower_char c"
  by (auto simp: char_eq_iff_nat of_upper_char of_lower_char)

lemma is_space_lower_char [simp]: "is_space (lower_char c) = is_space c"
  by (auto simp: is_space_def Let_def of_lower_char)

lemma is_space_upper_char [simp]: "is_space (upper_char c) = is_space c"
  by (auto simp: is_space_def Let_def of_upper_char)

lemma length_to_lower [simp]: "length (to_lower s) = length s"
  by (simp add: to_lower_def)

lemma to_lower_idem [simp]: "to_lower (to_lower s) = to_lower s"
  by (simp add: to_lower_def)

lemma to_lower_Nil_iff [simp]: "to_lower s = [] \<longleftrightarrow> s = []"
  by (simp add: to_lower_def)

lemma to_upper_idem [simp]: "to_upper (to_upper s) = to_upper s"
  by (simp add: to_upper_def)

lemma to_upper_Nil_iff [simp]: "to_upper s = [] \<longleftrightarrow> s = []"
  by (simp add: to_upper_def)

lemma equal_fold_refl [simp]: "equal_fold s s"
  by (simp add: equal_fold_def)

lemma equal_fold_sym: "equal_fold s t \<Longrightarrow> equal_fold t s"
  by (simp add: equal_fold_def)

lemma equal_fold_to_lower [simp]: "equal_fold (to_lower s) t = equal_fold s t"
  by (simp add: equal_fold_def)

section \<open>Trimming\<close>

lemma trim_left_idem [simp]: "trim_left (trim_left s) = trim_left s"
  by (simp add: trim_left_def)

lemma trim_left_Nil [simp]: "trim_left [] = []"
  by (simp add: trim_left_def)

lemma trim_left_fixed_iff: "trim_left s = s \<longleftrightarrow> (s = [] \<or> \<not> is_space (hd s))"
proof (cases s)
  case (Cons c t)
  have "length (dropWhile is_space t) \<le> length t" by (rule length_dropWhile_le)
  then have "dropWhile is_space t \<noteq> c # t" by auto
  with Cons show ?thesis by (auto simp: trim_left_def)
qed simp

lemma last_trim_left: "trim_left s \<noteq> [] \<Longrightarrow> last (trim_left s) = last s"
proof -
  assume "trim_left s \<noteq> []"
  then have "last (takeWhile is_space s @ trim_left s) = last (trim_left s)" by simp
  then show ?thesis by (simp only: trim_left_def takeWhile_dropWhile_id)
qed

text \<open>A string with no white space at either end is what \<^const>\<open>trim_space\<close> leaves.\<close>

definition trimmed :: "string \<Rightarrow> bool" where
  "trimmed s \<longleftrightarrow> s = [] \<or> (\<not> is_space (hd s) \<and> \<not> is_space (last s))"

lemma trim_space_fixed: "trimmed s \<Longrightarrow> trim_space s = s"
proof (cases "s = []")
  case False
  assume "trimmed s"
  with False have "\<not> is_space (hd s)" "\<not> is_space (hd (rev s))"
    by (auto simp: trimmed_def hd_rev)
  then have "trim_left s = s" "trim_left (rev s) = rev s"
    by (simp_all add: trim_left_fixed_iff)
  then show ?thesis by (simp add: trim_space_def)
qed (simp add: trim_space_def)

lemma hd_trim_left: "trim_left s \<noteq> [] \<Longrightarrow> \<not> is_space (hd (trim_left s))"
  by (simp add: trim_left_def hd_dropWhile)

lemma trimmed_trim_space [simp]: "trimmed (trim_space s)"
proof (cases "trim_space s = []")
  case False
  let ?t = "trim_left (rev (trim_left s))"
  from False have ne: "?t \<noteq> []" by (simp add: trim_space_def)
  then have inner: "trim_left s \<noteq> []" by (metis trim_left_Nil rev.simps(1))
  have "\<not> is_space (last (trim_space s))"
    using hd_trim_left [OF ne] ne by (simp add: trim_space_def last_rev)
  moreover have "hd (trim_space s) = last ?t" by (simp add: trim_space_def hd_rev)
  moreover have "last ?t = hd (trim_left s)"
    using last_trim_left [OF ne] inner by (simp add: last_rev)
  ultimately show ?thesis
    using hd_trim_left [OF inner] by (simp add: trimmed_def)
qed (simp add: trimmed_def)

lemma trim_space_idem [simp]: "trim_space (trim_space s) = trim_space s"
  by (rule trim_space_fixed) simp

lemma set_trim_space: "set (trim_space s) \<subseteq> set s"
  by (auto simp: trim_space_def trim_left_def dest!: set_dropWhileD)

lemma trimmed_to_lower [simp]: "trimmed (to_lower s) = trimmed s"
  by (cases "s = []") (auto simp: trimmed_def to_lower_def hd_map last_map)

lemma trimmed_to_upper [simp]: "trimmed (to_upper s) = trimmed s"
  by (cases "s = []") (auto simp: trimmed_def to_upper_def hd_map last_map)

section \<open>Prefixes, suffixes and substrings\<close>

definition has_prefix :: "string \<Rightarrow> string \<Rightarrow> bool" where
  "has_prefix s p \<longleftrightarrow> take (length p) s = p"

definition has_suffix :: "string \<Rightarrow> string \<Rightarrow> bool" where
  "has_suffix s p \<longleftrightarrow> has_prefix (rev s) (rev p)"

definition trim_prefix :: "string \<Rightarrow> string \<Rightarrow> string" where
  "trim_prefix s p = (if has_prefix s p then drop (length p) s else s)"

definition trim_suffix :: "string \<Rightarrow> string \<Rightarrow> string" where
  "trim_suffix s p = (if has_suffix s p then take (length s - length p) s else s)"

fun contains :: "string \<Rightarrow> string \<Rightarrow> bool" where
  "contains [] p = (p = [])"
| "contains (c # s) p = (has_prefix (c # s) p \<or> contains s p)"

lemma has_prefix_append [simp]: "has_prefix (p @ s) p"
  by (simp add: has_prefix_def)

lemma trim_prefix_append [simp]: "trim_prefix (p @ s) p = s"
  by (simp add: trim_prefix_def)

lemma has_suffix_append [simp]: "has_suffix (s @ p) p"
  by (simp add: has_suffix_def)

lemma has_suffixE: "has_suffix s p \<Longrightarrow> \<exists>t. s = t @ p"
  by (metis append_take_drop_id has_prefix_def has_suffix_def rev_append rev_rev_ident)

section \<open>Splitting\<close>

text \<open>\<^verbatim>\<open>strings.Split(s, sep)\<close> for a one-byte separator.\<close>

fun split_on :: "char \<Rightarrow> string \<Rightarrow> string list" where
  "split_on sep [] = [[]]"
| "split_on sep (c # s) =
     (if c = sep then [] # split_on sep s
      else case split_on sep s of [] \<Rightarrow> [[c]] | t # ts \<Rightarrow> (c # t) # ts)"

text \<open>\<^verbatim>\<open>strings.SplitN(s, sep, n)\<close> for a one-byte separator and \<^verbatim>\<open>n > 0\<close>.\<close>

fun split_n :: "char \<Rightarrow> nat \<Rightarrow> string \<Rightarrow> string list" where
  "split_n sep 0 s = []"
| "split_n sep (Suc 0) s = [s]"
| "split_n sep (Suc (Suc n)) s =
     (if sep \<in> set s
      then takeWhile (\<lambda>c. c \<noteq> sep) s # split_n sep (Suc n) (tl (dropWhile (\<lambda>c. c \<noteq> sep) s))
      else [s])"

text \<open>\<^verbatim>\<open>strings.Fields\<close>: the maximal runs of non-space bytes.\<close>

function split_fields :: "string \<Rightarrow> string list" where
  "split_fields s =
     (case trim_left s of [] \<Rightarrow> []
      | c # t \<Rightarrow> takeWhile (\<lambda>c. \<not> is_space c) (c # t)
                 # split_fields (dropWhile (\<lambda>c. \<not> is_space c) (c # t)))"
  by pat_completeness auto

lemma trim_left_length: "length (trim_left s) \<le> length s"
  by (simp add: trim_left_def length_dropWhile_le)

termination split_fields
proof (relation "measure length", simp)
  fix s c t
  assume eq: "trim_left s = c # t"
  then have "\<not> is_space c" using hd_trim_left [of s] by simp
  then have "length (dropWhile (\<lambda>c. \<not> is_space c) (c # t)) \<le> length t"
    by (simp add: length_dropWhile_le)
  also have "\<dots> < length (trim_left s)" by (simp add: eq)
  also have "\<dots> \<le> length s" by (rule trim_left_length)
  finally show "(dropWhile (\<lambda>c. \<not> is_space c) (c # t), s) \<in> measure length" by simp
qed

declare split_fields.simps [simp del]

lemma split_on_nonempty [simp]: "split_on sep s \<noteq> []"
  by (induction s) (auto split: list.splits)

lemma split_on_absent: "sep \<notin> set s \<Longrightarrow> split_on sep s = [s]"
  by (induction s) auto

lemma split_on_append: "sep \<notin> set s \<Longrightarrow> split_on sep (s @ sep # t) = s # split_on sep t"
  by (induction s) auto

lemma split_on_parts: "p \<in> set (split_on sep s) \<Longrightarrow> sep \<notin> set p \<and> set p \<subseteq> set s"
proof (induction s arbitrary: p)
  case (Cons c s)
  show ?case
  proof (cases "split_on sep s")
    case (Cons t ts)
    then have "sep \<notin> set q \<and> set q \<subseteq> set s" if "q \<in> set (t # ts)" for q
      using Cons.IH that by simp
    then have "sep \<notin> set t \<and> set t \<subseteq> set s" and "\<forall>q \<in> set ts. sep \<notin> set q \<and> set q \<subseteq> set s"
      by auto
    with Cons Cons.prems show ?thesis by (fastforce split: if_splits)
  qed simp
qed simp

lemma takeWhile_neq_append [simp]:
  "sep \<notin> set s \<Longrightarrow> takeWhile (\<lambda>c. c \<noteq> sep) (s @ sep # t) = s"
  "sep \<notin> set s \<Longrightarrow> dropWhile (\<lambda>c. c \<noteq> sep) (s @ sep # t) = sep # t"
  by (induction s) auto

lemma split_n_append:
  "sep \<notin> set s \<Longrightarrow> split_n sep (Suc (Suc n)) (s @ sep # t) = s # split_n sep (Suc n) t"
  by simp

section \<open>Numbers and hexadecimal\<close>

definition digit_char :: "int \<Rightarrow> char" where
  "digit_char d = char_of (48 + d)"

definition hex_char :: "nat \<Rightarrow> char" where
  "hex_char d = (if d < 10 then char_of (48 + d) else char_of (87 + d))"

text \<open>\<^verbatim>\<open>%d\<close> of a non-negative number.\<close>

function dec_digits :: "int \<Rightarrow> string" where
  "dec_digits n = (if n < 10 then [digit_char n] else dec_digits (n div 10) @ [digit_char (n mod 10)])"
  by pat_completeness auto
termination
  by (relation "measure nat") auto

declare dec_digits.simps [simp del]

definition itoa :: "nat \<Rightarrow> string" where
  "itoa n = dec_digits (int n)"

definition itoz :: "int \<Rightarrow> string" where
  "itoz n = (if n < 0 then CHR ''-'' # dec_digits (- n) else dec_digits n)"

lemma dec_digits_nonempty [simp]: "dec_digits n \<noteq> []"
  by (subst dec_digits.simps) simp

lemma itoa_nonempty [simp]: "itoa n \<noteq> []"
  by (simp add: itoa_def)

text \<open>\<^verbatim>\<open>%x\<close> of a byte slice, i.e. \<^verbatim>\<open>hex.EncodeToString\<close>.\<close>

definition hex_encode :: "bytes \<Rightarrow> string" where
  "hex_encode bs =
     concat (map (\<lambda>b. let n = (of_char b :: nat) in [hex_char (n div 16), hex_char (n mod 16)]) bs)"

definition is_digit :: "char \<Rightarrow> bool" where
  "is_digit c \<longleftrightarrow> CHR ''0'' \<le> c \<and> c \<le> CHR ''9''"

definition is_hex_char :: "char \<Rightarrow> bool" where
  "is_hex_char c \<longleftrightarrow>
     (c \<ge> CHR ''0'' \<and> c \<le> CHR ''9'') \<or> (c \<ge> CHR ''a'' \<and> c \<le> CHR ''f'') \<or>
     (c \<ge> CHR ''A'' \<and> c \<le> CHR ''F'')"

definition hex_val :: "char \<Rightarrow> nat" where
  "hex_val c =
     (let n = (of_char c :: nat)
      in if n \<le> 57 then n - 48 else if n \<le> 70 then n - 55 else n - 87)"

lemma is_hex_char_nat:
  "is_hex_char c \<longleftrightarrow>
     (let n = (of_char c :: nat)
      in (48 \<le> n \<and> n \<le> 57) \<or> (97 \<le> n \<and> n \<le> 102) \<or> (65 \<le> n \<and> n \<le> 70))"
  by (simp add: is_hex_char_def char_le_iff Let_def)

lemma is_hex_char_lower [simp]: "is_hex_char (lower_char c) = is_hex_char c"
  by (auto simp: is_hex_char_nat of_lower_char Let_def)

lemma hex_val_lower [simp]: "is_hex_char c \<Longrightarrow> hex_val (lower_char c) = hex_val c"
  by (auto simp: is_hex_char_nat of_lower_char hex_val_def Let_def)

lemma is_hex_char_not_space: "is_hex_char c \<Longrightarrow> \<not> is_space c"
  by (auto simp: is_hex_char_nat is_space_def Let_def)

lemma is_hex_char_not_dash: "is_hex_char c \<Longrightarrow> c \<noteq> CHR ''-''"
  by (auto simp: is_hex_char_nat Let_def)

lemma hex_val_less [simp]: "is_hex_char c \<Longrightarrow> hex_val c < 16"
  by (auto simp: is_hex_char_nat hex_val_def Let_def)

lemma of_hex_char: "d < 16 \<Longrightarrow> (of_char (hex_char d) :: nat) = (if d < 10 then 48 + d else 87 + d)"
  by (simp add: hex_char_def of_char_mod_256 take_bit_eq_mod)

lemma lower_hex_char:
  assumes "is_hex_char c"
  shows "lower_char c = hex_char (hex_val c)"
proof -
  let ?n = "of_char c :: nat"
  from assms consider "48 \<le> ?n" "?n \<le> 57" | "97 \<le> ?n" "?n \<le> 102" | "65 \<le> ?n" "?n \<le> 70"
    by (auto simp: is_hex_char_nat Let_def)
  then have "(of_char (lower_char c) :: nat) = of_char (hex_char (hex_val c))"
    using hex_val_less [OF assms]
    by cases (auto simp: of_lower_char of_hex_char hex_val_def Let_def)
  then show ?thesis by (simp only: of_char_eq_iff)
qed

text \<open>\<^verbatim>\<open>strconv.Atoi\<close> on inputs within the range of \<^verbatim>\<open>int\<close>; an optional sign, then digits.\<close>

definition atoi :: "string \<Rightarrow> int option" where
  "atoi s =
     (let (neg, ds) = (case s of [] \<Rightarrow> (False, [])
                       | c # t \<Rightarrow> if c = CHR ''-'' then (True, t)
                                  else if c = CHR ''+'' then (False, t) else (False, c # t));
          v = foldl (\<lambda>acc c. 10 * acc + (int (of_char c) - 48)) 0 ds
      in if ds = [] \<or> \<not> list_all is_digit ds then None
         else let n = (if neg then - v else v)
              in if - (2 ^ 63) \<le> n \<and> n \<le> 2 ^ 63 - 1 then Some n else None)"

end
