(* ===== verification/GoJson.thy ===== *)
theory GoJson
  imports GoStrings
begin

text \<open>
  Go's \<^verbatim>\<open>encoding/json\<close> as far as the modelled code uses it: the grammar that
  \<^verbatim>\<open>json.Valid\<close> and \<^verbatim>\<open>json.Unmarshal\<close> accept (with the nesting limit of 10000), the
  values \<^verbatim>\<open>Unmarshal\<close> builds in an \<^verbatim>\<open>any\<close> (last duplicate key wins, numbers rounded
  to \<^verbatim>\<open>float64\<close>, invalid UTF-8 replaced), \<^verbatim>\<open>json.Marshal\<close> with its HTML escaping and
  its shortest-digits number format, and \<^verbatim>\<open>json.Compact\<close>.

  \<^verbatim>\<open>JNum\<close> holds the literal.  In a value built by \<^verbatim>\<open>json_unmarshal\<close> the literal is
  the one \<^verbatim>\<open>Marshal\<close> prints for the rounded number, and the members of an object are sorted
  by key without repetition, so equal Go values are equal HOL values.
\<close>

datatype jval =
    JNull
  | JBool bool
  | JNum string
  | JStr string
  | JArr "jval list"
  | JObj "(string \<times> jval) list"

section \<open>Characters of strings\<close>

text \<open>Length of the valid UTF-8 sequence at the head of a string, 0 when it is not valid.\<close>

definition cont_byte :: "char \<Rightarrow> bool" where
  "cont_byte c \<longleftrightarrow> (let n = (of_char c :: nat) in 128 \<le> n \<and> n \<le> 191)"

fun utf8_width :: "string \<Rightarrow> nat" where
  "utf8_width [] = 0"
| "utf8_width (c # s) =
     (let n = (of_char c :: nat);
          x = (case s of [] \<Rightarrow> 0 | y # _ \<Rightarrow> (of_char y :: nat))
      in if n < 128 then 1
         else if 194 \<le> n \<and> n \<le> 223 then
           (case s of y # _ \<Rightarrow> if cont_byte y then 2 else 0 | _ \<Rightarrow> 0)
         else if 224 \<le> n \<and> n \<le> 239 then
           (case s of y # z # _ \<Rightarrow>
              if cont_byte y \<and> cont_byte z \<and> (n = 224 \<longrightarrow> 160 \<le> x) \<and> (n = 237 \<longrightarrow> x \<le> 159)
              then 3 else 0 | _ \<Rightarrow> 0)
         else if 240 \<le> n \<and> n \<le> 244 then
           (case s of y # z # w # _ \<Rightarrow>
              if cont_byte y \<and> cont_byte z \<and> cont_byte w \<and> (n = 240 \<longrightarrow> 144 \<le> x) \<and>
                 (n = 244 \<longrightarrow> x \<le> 143)
              then 4 else 0 | _ \<Rightarrow> 0)
         else 0)"

definition utf8_encode :: "nat \<Rightarrow> string" where
  "utf8_encode r =
     (if r < 128 then [char_of r]
      else if r < 2048 then [char_of (192 + r div 64), char_of (128 + r mod 64)]
      else if r < 65536 then
        [char_of (224 + r div 4096), char_of (128 + r div 64 mod 64), char_of (128 + r mod 64)]
      else
        [char_of (240 + r div 262144), char_of (128 + r div 4096 mod 64),
         char_of (128 + r div 64 mod 64), char_of (128 + r mod 64)])"

definition replacement_char :: string where
  "replacement_char = utf8_encode 65533"

definition hex4 :: "char \<Rightarrow> char \<Rightarrow> char \<Rightarrow> char \<Rightarrow> nat option" where
  "hex4 a b c d =
     (if is_hex_char a \<and> is_hex_char b \<and> is_hex_char c \<and> is_hex_char d
      then Some (((hex_val a * 16 + hex_val b) * 16 + hex_val c) * 16 + hex_val d) else None)"

text \<open>The one-character escapes, by the character after the backslash.\<close>

definition simple_escape :: "char \<Rightarrow> nat option" where
  "simple_escape e =
     (if e = CHR 0x22 then Some 34 else if e = CHR 0x5C then Some 92
      else if e = CHR 0x2F then Some 47 else if e = CHR ''b'' then Some 8
      else if e = CHR ''f'' then Some 12 else if e = CHR ''n'' then Some 10
      else if e = CHR ''r'' then Some 13 else if e = CHR ''t'' then Some 9 else None)"

text \<open>
  The head of a string body: the bytes it stands for and the rest.  A surrogate pair of
  escapes is one character, a lone surrogate or an invalid byte is U+FFFD.
\<close>

fun str_unit :: "string \<Rightarrow> (string \<times> string) option" where
  "str_unit [] = None"
| "str_unit (c # s) =
     (if c = CHR 0x5C then
        (case s of
           e # a # b # c' # d # t \<Rightarrow>
             if e = CHR ''u'' then
               (case hex4 a b c' d of
                  None \<Rightarrow> None
                | Some r \<Rightarrow>
                    if 55296 \<le> r \<and> r \<le> 57343 then
                      (case t of
                         k # l # a2 # b2 # c2 # d2 # t2 \<Rightarrow>
                           (case (if k = CHR 0x5C \<and> l = CHR ''u'' then hex4 a2 b2 c2 d2 else None) of
                              Some r2 \<Rightarrow>
                                if r \<le> 56319 \<and> 56320 \<le> r2 \<and> r2 \<le> 57343
                                then Some (utf8_encode ((r - 55296) * 1024 + (r2 - 56320) + 65536), t2)
                                else Some (replacement_char, t)
                            | None \<Rightarrow> Some (replacement_char, t))
                       | _ \<Rightarrow> Some (replacement_char, t))
                    else Some (utf8_encode r, t))
             else map_option (\<lambda>n. ([char_of n], a # b # c' # d # t)) (simple_escape e)
         | e # t \<Rightarrow> map_option (\<lambda>n. ([char_of n], t)) (simple_escape e)
         | [] \<Rightarrow> None)
      else if (of_char c :: nat) < 32 then None
      else
        (let w = utf8_width (c # s)
         in if w = 0 then Some (replacement_char, s) else Some (take w (c # s), drop w (c # s))))"

declare str_unit.simps [simp del]

lemma utf8_width_le: "utf8_width s \<le> length s"
  by (cases s) (auto simp: Let_def split: list.splits)

lemma str_unit_shorter: "str_unit s = Some (u, t) \<Longrightarrow> length t < length s"
  by (cases s) (auto simp: str_unit.simps Let_def split: if_splits option.splits list.splits)

text \<open>A string literal after its opening quote: the decoded bytes and what follows.\<close>

function parse_str :: "string \<Rightarrow> (string \<times> string) option" where
  "parse_str s =
     (case s of [] \<Rightarrow> None
      | c # t \<Rightarrow>
          if c = CHR 0x22 then Some ([], t)
          else (case str_unit s of None \<Rightarrow> None
                | Some (u, r) \<Rightarrow>
                    (case parse_str r of None \<Rightarrow> None | Some (x, r') \<Rightarrow> Some (u @ x, r'))))"
  by pat_completeness auto
termination
  by (relation "measure length") (auto dest: str_unit_shorter)

declare parse_str.simps [simp del]

section \<open>Numbers\<close>

text \<open>The longest run of digits, and a number literal of the JSON grammar.\<close>

definition span_digits :: "string \<Rightarrow> string \<times> string" where
  "span_digits s = (takeWhile is_digit s, dropWhile is_digit s)"

definition scan_exp :: "string \<Rightarrow> (string \<times> string) option" where
  "scan_exp s =
     (case s of
        c # t \<Rightarrow>
          if c = CHR ''e'' \<or> c = CHR ''E'' then
            (let (sg, t1) = (case t of d # u \<Rightarrow> if d = CHR ''+'' \<or> d = CHR ''-'' then ([d], u) else ([], t)
                             | [] \<Rightarrow> ([], t));
                 (ds, r) = span_digits t1
             in if ds = [] then None else Some (c # sg @ ds, r))
          else Some ([], s)
      | [] \<Rightarrow> Some ([], s))"

definition scan_frac :: "string \<Rightarrow> (string \<times> string) option" where
  "scan_frac s =
     (case s of
        c # t \<Rightarrow>
          if c = CHR ''.'' then
            (let (ds, r) = span_digits t in if ds = [] then None else Some (c # ds, r))
          else Some ([], s)
      | [] \<Rightarrow> Some ([], s))"

definition scan_int :: "string \<Rightarrow> (string \<times> string) option" where
  "scan_int s =
     (case s of
        c # t \<Rightarrow>
          if c = CHR ''0'' then Some ([c], t)
          else if is_digit c then Some (span_digits s) else None
      | [] \<Rightarrow> None)"

definition scan_num :: "string \<Rightarrow> (string \<times> string) option" where
  "scan_num s =
     (let (sg, s1) = (case s of c # t \<Rightarrow> if c = CHR ''-'' then ([c], t) else ([], s) | [] \<Rightarrow> ([], s))
      in case scan_int s1 of None \<Rightarrow> None
         | Some (i, r1) \<Rightarrow>
             (case scan_frac r1 of None \<Rightarrow> None
              | Some (f, r2) \<Rightarrow>
                  (case scan_exp r2 of None \<Rightarrow> None
                   | Some (e, r3) \<Rightarrow> Some (sg @ i @ f @ e, r3))))"

definition digits_val :: "string \<Rightarrow> int" where
  "digits_val s = foldl (\<lambda>n c. 10 * n + (of_char c - 48)) 0 s"

text \<open>A literal as sign, digits and decimal exponent.\<close>

definition lit_parts :: "string \<Rightarrow> bool \<times> int \<times> int" where
  "lit_parts l =
     (let neg = (case l of c # _ \<Rightarrow> c = CHR ''-'' | [] \<Rightarrow> False);
          (i, r1) = span_digits (if neg then tl l else l);
          (f, r2) = (case r1 of c # t \<Rightarrow> if c = CHR ''.'' then span_digits t else ([], r1)
                     | [] \<Rightarrow> ([], r1));
          e = (case r2 of
                 _ # d # t \<Rightarrow> if d = CHR ''-'' then - digits_val t
                              else if d = CHR ''+'' then digits_val t
                              else digits_val (d # t)
               | _ \<Rightarrow> 0)
      in (neg, digits_val (i @ f), e - int (length f)))"

text \<open>Non-negative integers below: bit length, and division rounding half to even.\<close>

function bit_len :: "int \<Rightarrow> int" where
  "bit_len n = (if n \<le> 0 then 0 else 1 + bit_len (n div 2))"
  by pat_completeness auto
termination
  by (relation "measure nat") auto

declare bit_len.simps [simp del]

definition round_even :: "int \<Rightarrow> int \<Rightarrow> int" where
  "round_even a b =
     (let q = a div b; r = a mod b
      in if b < 2 * r \<or> (2 * r = b \<and> odd q) then q + 1 else q)"

text \<open>
  The \<^verbatim>\<open>float64\<close> nearest to \<open>num / den\<close>, as mantissa and binary exponent; \<^const>\<open>None\<close>
  when it is out of range.
\<close>

definition scaled :: "int \<Rightarrow> int \<Rightarrow> int \<Rightarrow> int \<times> int" where
  "scaled num den e = (if 0 \<le> e then (num, den * 2 ^ nat e) else (num * 2 ^ nat (- e), den))"

definition float_round :: "int \<Rightarrow> int \<Rightarrow> (int \<times> int) option" where
  "float_round num den =
     (let e1 = bit_len num - bit_len den - 53;
          (a1, b1) = scaled num den e1;
          e = max (- 1074) (if 2 ^ 53 * b1 \<le> a1 then e1 + 1 else e1);
          (a, b) = scaled num den e;
          m = round_even a b;
          (m', e') = (if m = 2 ^ 53 then (2 ^ 52, e + 1) else (m, e))
      in if 971 < e' then None else Some (m', if m' = 0 then 0 else e'))"

definition dec_ratio :: "int \<Rightarrow> int \<Rightarrow> int \<times> int" where
  "dec_ratio d k = (if 0 \<le> k then (d * 10 ^ nat k, 1) else (d, 10 ^ nat (- k)))"

definition dec_len :: "int \<Rightarrow> int" where
  "dec_len d = int (length (dec_digits d))"

definition float_of_dec :: "int \<Rightarrow> int \<Rightarrow> (int \<times> int) option" where
  "float_of_dec d k =
     (if d = 0 then Some (0, 0)
      else if 400 < dec_len d + k then None
      else if dec_len d + k < - 400 then Some (0, 0)
      else (let (p, q) = dec_ratio d k in float_round p q))"

text \<open>
  The decimal point position \<open>p\<close> of a positive ratio, \<open>10 ^ (p - 1) \<le> num / den < 10 ^ p\<close>;
  the loop scales small ratios up, at most 400 times.
\<close>

fun dec_point :: "nat \<Rightarrow> int \<Rightarrow> int \<Rightarrow> int" where
  "dec_point 0 num den = 0"
| "dec_point (Suc f) num den =
     (if den \<le> num then dec_len (num div den) else dec_point f (10 * num) den - 1)"

text \<open>The shortest digits that round to the float, the nearer of the two candidates first.\<close>

fun shortest_digits :: "nat \<Rightarrow> int \<Rightarrow> int \<times> int \<Rightarrow> int \<Rightarrow> int \<Rightarrow> int \<Rightarrow> int \<times> int" where
  "shortest_digits 0 n fl num den p = (0, 0)"
| "shortest_digits (Suc f) n fl num den p =
     (let k = p - n;
          (a, b) = (if 0 \<le> k then (num, den * 10 ^ nat k) else (num * 10 ^ nat (- k), den));
          lo = a div b; near = round_even a b;
          far = (if near = lo then lo + 1 else lo)
      in if float_of_dec near k = Some fl then (near, k)
         else if float_of_dec far k = Some fl then (far, k)
         else shortest_digits f (n + 1) fl num den p)"

definition strip_zeros :: "string \<Rightarrow> string" where
  "strip_zeros s = rev (dropWhile (\<lambda>c. c = CHR ''0'') (rev s))"

definition zeros :: "int \<Rightarrow> string" where
  "zeros n = replicate (nat n) (CHR ''0'')"

definition format_float :: "int \<times> int \<Rightarrow> string" where
  "format_float fl =
     (let (m, e) = fl
      in if m = 0 then ''0''
         else
           (let (num, den) = (if 0 \<le> e then (m * 2 ^ nat e, 1) else (m, 2 ^ nat (- e)));
                (d, k) = shortest_digits 17 1 fl num den (dec_point 400 num den);
                ds0 = dec_digits d; p = int (length ds0) + k; ds = strip_zeros ds0;
                n = int (length ds)
            in if p \<le> - 6 \<or> 22 \<le> p then
                 take 1 ds @ (if 1 < n then ''.'' @ drop 1 ds else []) @
                 (if p \<le> 0 then ''e-'' @ dec_digits (1 - p) else ''e+'' @ dec_digits (p - 1))
               else if p \<le> 0 then ''0.'' @ zeros (- p) @ ds
               else if n \<le> p then ds @ zeros (p - n)
               else take (nat p) ds @ ''.'' @ drop (nat p) ds))"

text \<open>The literal \<^verbatim>\<open>Marshal\<close> prints for the \<^verbatim>\<open>float64\<close> a literal stands for.\<close>

definition canon_num :: "string \<Rightarrow> string option" where
  "canon_num l =
     (let (neg, d, k) = lit_parts l
      in map_option (\<lambda>fl. (if neg then ''-'' else []) @ format_float fl) (float_of_dec d k))"

section \<open>Values\<close>

definition json_space :: "char \<Rightarrow> bool" where
  "json_space c \<longleftrightarrow> c = CHR '' '' \<or> c = CHR 0x09 \<or> c = CHR 0x0A \<or> c = CHR 0x0D"

definition skip_ws :: "string \<Rightarrow> string" where
  "skip_ws s = dropWhile json_space s"

text \<open>
  Value, members of an object, elements of an array.  The first argument is fuel; it exceeds
  the length of the text, which each call shortens.  The second is the nesting still allowed.
\<close>

fun parse_value :: "nat \<Rightarrow> int \<Rightarrow> string \<Rightarrow> (jval \<times> string) option"
  and parse_members :: "nat \<Rightarrow> int \<Rightarrow> string \<Rightarrow> ((string \<times> jval) list \<times> string) option"
  and parse_elements :: "nat \<Rightarrow> int \<Rightarrow> string \<Rightarrow> (jval list \<times> string) option"
where
  "parse_value 0 d s = None"
| "parse_value (Suc f) d s =
     (case skip_ws s of
        [] \<Rightarrow> None
      | c # t \<Rightarrow>
          if c = CHR 0x22 then map_option (\<lambda>(x, r). (JStr x, r)) (parse_str t)
          else if c = CHR ''{'' then
            (if d \<le> 0 then None
             else (case skip_ws t of
                     [] \<Rightarrow> None
                   | c2 # t2 \<Rightarrow>
                       if c2 = CHR ''}'' then Some (JObj [], t2)
                       else map_option (\<lambda>(ms, r). (JObj ms, r)) (parse_members f (d - 1) t)))
          else if c = CHR ''['' then
            (if d \<le> 0 then None
             else (case skip_ws t of
                     [] \<Rightarrow> None
                   | c2 # t2 \<Rightarrow>
                       if c2 = CHR '']'' then Some (JArr [], t2)
                       else map_option (\<lambda>(vs, r). (JArr vs, r)) (parse_elements f (d - 1) t)))
          else if has_prefix (c # t) ''null'' then Some (JNull, drop 4 (c # t))
          else if has_prefix (c # t) ''true'' then Some (JBool True, drop 4 (c # t))
          else if has_prefix (c # t) ''false'' then Some (JBool False, drop 5 (c # t))
          else map_option (\<lambda>(l, r). (JNum l, r)) (scan_num (c # t)))"
| "parse_members 0 d s = None"
| "parse_members (Suc f) d s =
     (case skip_ws s of
        [] \<Rightarrow> None
      | c # t \<Rightarrow>
          if c \<noteq> CHR 0x22 then None
          else (case parse_str t of
                  None \<Rightarrow> None
                | Some (k, r) \<Rightarrow>
                    (case skip_ws r of
                       [] \<Rightarrow> None
                     | c2 # r2 \<Rightarrow>
                         if c2 \<noteq> CHR '':'' then None
                         else (case parse_value f d r2 of
                                 None \<Rightarrow> None
                               | Some (v, r3) \<Rightarrow>
                                   (case skip_ws r3 of
                                      [] \<Rightarrow> None
                                    | c3 # r4 \<Rightarrow>
                                        if c3 = CHR '','' then
                                          map_option (\<lambda>(ms, r5). ((k, v) # ms, r5)) (parse_members f d r4)
                                        else if c3 = CHR ''}'' then Some ([(k, v)], r4)
                                        else None)))))"
| "parse_elements 0 d s = None"
| "parse_elements (Suc f) d s =
     (case parse_value f d s of
        None \<Rightarrow> None
      | Some (v, r) \<Rightarrow>
          (case skip_ws r of
             [] \<Rightarrow> None
           | c # r2 \<Rightarrow>
               if c = CHR '','' then map_option (\<lambda>(vs, r3). (v # vs, r3)) (parse_elements f d r2)
               else if c = CHR '']'' then Some ([v], r2)
               else None))"

definition max_nesting_depth :: int where
  "max_nesting_depth = 10000"

definition json_parse :: "string \<Rightarrow> jval option" where
  "json_parse s =
     (case parse_value (2 * length s + 2) max_nesting_depth s of
        None \<Rightarrow> None
      | Some (v, r) \<Rightarrow> if skip_ws r = [] then Some v else None)"

definition json_valid :: "string \<Rightarrow> bool" where
  "json_valid s \<longleftrightarrow> json_parse s \<noteq> None"

text \<open>
  The Go value of a parsed text: numbers as \<^verbatim>\<open>float64\<close> (an error when out of range),
  objects as maps.
\<close>

fun ins_key :: "string \<Rightarrow> 'v \<Rightarrow> (string \<times> 'v) list \<Rightarrow> (string \<times> 'v) list" where
  "ins_key k v [] = [(k, v)]"
| "ins_key k v ((k', v') # m) =
     (if k < k' then (k, v) # (k', v') # m
      else if k = k' then (k, v) # m else (k', v') # ins_key k v m)"

definition obj_of_list :: "(string \<times> 'v) list \<Rightarrow> (string \<times> 'v) list" where
  "obj_of_list ps = foldl (\<lambda>m (k, v). ins_key k v m) [] ps"

fun all_some :: "'a option list \<Rightarrow> 'a list option" where
  "all_some [] = Some []"
| "all_some (None # xs) = None"
| "all_some (Some x # xs) = map_option (Cons x) (all_some xs)"

fun canon :: "jval \<Rightarrow> jval option" where
  "canon (JNum l) = map_option JNum (canon_num l)"
| "canon (JArr vs) = map_option JArr (all_some (map canon vs))"
| "canon (JObj ms) =
     map_option (\<lambda>vs. JObj (obj_of_list (zip (map fst ms) vs))) (all_some (map (\<lambda>(k, v). canon v) ms))"
| "canon v = Some v"

text \<open>\<^verbatim>\<open>json.Unmarshal\<close> into a variable of type \<^verbatim>\<open>any\<close>; \<^const>\<open>None\<close> is an error.\<close>

definition json_unmarshal :: "string \<Rightarrow> jval option" where
  "json_unmarshal s = Option.bind (json_parse s) canon"

text \<open>
  \<^verbatim>\<open>json.Unmarshal\<close> into a \<^verbatim>\<open>map[string]any\<close>: an object, or \<^verbatim>\<open>null\<close>, which
  leaves the map nil.
\<close>

datatype go_obj = NilObj | Obj "(string \<times> jval) list"

definition unmarshal_obj :: "string \<Rightarrow> go_obj option" where
  "unmarshal_obj s =
     (case json_unmarshal s of
        Some (JObj m) \<Rightarrow> Some (Obj m)
      | Some JNull \<Rightarrow> Some NilObj
      | _ \<Rightarrow> None)"

fun members :: "go_obj \<Rightarrow> (string \<times> jval) list" where
  "members NilObj = []"
| "members (Obj m) = m"

section \<open>Printing\<close>

definition hex4_str :: "nat \<Rightarrow> string" where
  "hex4_str n =
     [hex_char (n div 4096 mod 16), hex_char (n div 256 mod 16),
      hex_char (n div 16 mod 16), hex_char (n mod 16)]"

text \<open>One byte of a string below 128, as \<^verbatim>\<open>Marshal\<close> writes it (HTML escaping on).\<close>

definition quote_ascii :: "char \<Rightarrow> string" where
  "quote_ascii c =
     (let n = (of_char c :: nat)
      in if n = 34 \<or> n = 92 then [CHR 0x5C, c]
         else if n = 8 then [CHR 0x5C, CHR ''b''] else if n = 12 then [CHR 0x5C, CHR ''f'']
         else if n = 10 then [CHR 0x5C, CHR ''n''] else if n = 13 then [CHR 0x5C, CHR ''r'']
         else if n = 9 then [CHR 0x5C, CHR ''t'']
         else if n < 32 \<or> n = 60 \<or> n = 62 \<or> n = 38 then CHR 0x5C # CHR ''u'' # hex4_str n
         else [c])"

function quote_body :: "string \<Rightarrow> string" where
  "quote_body s =
     (case s of [] \<Rightarrow> []
      | c # t \<Rightarrow>
          let w = utf8_width s
          in if w = 0 then CHR 0x5C # ''ufffd'' @ quote_body t
             else if w = 1 then quote_ascii c @ quote_body t
             else if take w s = utf8_encode 8232 then CHR 0x5C # ''u2028'' @ quote_body (drop w s)
             else if take w s = utf8_encode 8233 then CHR 0x5C # ''u2029'' @ quote_body (drop w s)
             else take w s @ quote_body (drop w s))"
  by pat_completeness auto
termination
  by (relation "measure length") auto

declare quote_body.simps [simp del]

definition json_quote :: "string \<Rightarrow> string" where
  "json_quote s = CHR 0x22 # quote_body s @ [CHR 0x22]"

fun join_with :: "string \<Rightarrow> string list \<Rightarrow> string" where
  "join_with sep [] = []"
| "join_with sep [x] = x"
| "join_with sep (x # y # xs) = x @ sep @ join_with sep (y # xs)"

fun json_marshal :: "jval \<Rightarrow> string" where
  "json_marshal JNull = ''null''"
| "json_marshal (JBool b) = (if b then ''true'' else ''false'')"
| "json_marshal (JNum l) = l"
| "json_marshal (JStr s) = json_quote s"
| "json_marshal (JArr vs) = ''['' @ join_with '','' (map json_marshal vs) @ '']''"
| "json_marshal (JObj ms) =
     ''{'' @ join_with '','' (map (\<lambda>(k, v). json_quote k @ '':'' @ json_marshal v) ms) @ ''}''"

fun marshal_obj :: "go_obj \<Rightarrow> string" where
  "marshal_obj NilObj = ''null''"
| "marshal_obj (Obj m) = json_marshal (JObj m)"

text \<open>
  \<^verbatim>\<open>json.Compact\<close> on valid input: white space outside of string literals goes.  The
  flags say whether the scan is inside a literal, and right after a backslash in one.
\<close>

fun compact_from :: "bool \<Rightarrow> bool \<Rightarrow> string \<Rightarrow> string" where
  "compact_from instr esc [] = []"
| "compact_from instr esc (c # s) =
     (if instr then
        c # (if esc then compact_from True False s
             else if c = CHR 0x5C then compact_from True True s
             else compact_from (c \<noteq> CHR 0x22) False s)
      else if json_space c then compact_from False False s
      else c # compact_from (c = CHR 0x22) False s)"

definition json_compact :: "string \<Rightarrow> string" where
  "json_compact s = compact_from False False s"

lemma compact_from_outside [simp]: "compact_from False True s = compact_from False False s"
  by (cases s) auto

lemma compact_from_idem [simp]:
  "compact_from instr esc (compact_from instr esc s) = compact_from instr esc s"
  by (induction instr esc s rule: compact_from.induct) auto

lemma json_compact_idem [simp]: "json_compact (json_compact s) = json_compact s"
  by (simp add: json_compact_def)

lemma set_compact_from: "set (compact_from instr esc s) \<subseteq> set s"
proof (induction instr esc s rule: compact_from.induct)
  case (2 instr esc c s)
  then show ?case
    by (cases instr; cases esc; cases "c = CHR 0x5C"; cases "json_space c") auto
qed simp

section \<open>Objects\<close>

lemma keys_ins_key [simp]: "fst ` set (ins_key k v m) = insert k (fst ` set m)"
  by (induction k v m rule: ins_key.induct) auto

lemma map_of_ins_key [simp]: "map_of (ins_key k v m) = (map_of m)(k \<mapsto> v)"
  by (induction k v m rule: ins_key.induct) (auto simp: fun_eq_iff)

lemma strict_sorted_ins_key:
  "sorted_wrt (<) (map fst m) \<Longrightarrow> sorted_wrt (<) (map fst (ins_key k v m))"
proof (induction k v m rule: ins_key.induct)
  case (2 k v k' v' m)
  have keys: "set (map fst (ins_key k v m)) = insert k (set (map fst m))"
    using keys_ins_key [of k v m] by (simp add: image_image)
  show ?case
    using 2 keys by (auto simp del: set_map)
qed simp

lemma foldl_ins_key_sorted:
  "sorted_wrt (<) (map fst m) \<Longrightarrow>
   sorted_wrt (<) (map fst (foldl (\<lambda>m (k, v). ins_key k v m) m ps))"
  by (induction ps arbitrary: m) (auto simp: strict_sorted_ins_key)

lemma obj_of_list_sorted [simp]: "sorted_wrt (<) (map fst (obj_of_list ps))"
  by (simp add: obj_of_list_def foldl_ins_key_sorted)

end
