(* ===== verification/BeruModel.thy ===== *)
theory BeruModel
  imports GoJson
begin

text \<open>
  \<^verbatim>\<open>pipeline/beru/internal/model/models.go\<close> and \<^verbatim>\<open>internal/roles\<close>: the reports, the
  verdicts and the JSON shapes they are stored in.  String-typed Go enums stay strings, as the
  code compares and stores them as strings.
\<close>

section \<open>Constants\<close>

type_synonym payload_direction = string

definition DirectionIngress :: payload_direction where "DirectionIngress = ''ingress''"
definition DirectionEgress :: payload_direction where "DirectionEgress = ''egress''"

definition StatusMatch :: string where "StatusMatch = ''MATCH''"
definition StatusMismatch :: string where "StatusMismatch = ''MISMATCH''"
definition StatusVoidedBaselineDivergence :: string where
  "StatusVoidedBaselineDivergence = ''VOIDED_BASELINE_DIVERGENCE''"
definition StatusWaitingForRoles :: string where "StatusWaitingForRoles = ''WAITING_FOR_ROLES''"

definition FlagMismatchPayload :: string where "FlagMismatchPayload = ''MISMATCH_PAYLOAD''"
definition FlagMismatchCount :: string where "FlagMismatchCount = ''MISMATCH_COUNT''"
definition FlagMismatchSignature :: string where "FlagMismatchSignature = ''MISMATCH_SIGNATURE''"

definition ReasonUnexpectedExtraEgress :: string where
  "ReasonUnexpectedExtraEgress = ''UNEXPECTED_EXTRA_EGRESS''"
definition ReasonMissingEgress :: string where "ReasonMissingEgress = ''MISSING_EGRESS''"
definition ReasonStatusCode :: string where "ReasonStatusCode = ''STATUS_CODE''"

lemmas status_defs = StatusMatch_def StatusMismatch_def StatusVoidedBaselineDivergence_def
  StatusWaitingForRoles_def

lemmas flag_defs = FlagMismatchPayload_def FlagMismatchCount_def FlagMismatchSignature_def

lemmas direction_defs = DirectionIngress_def DirectionEgress_def

lemma status_distinct [simp]:
  "StatusMatch \<noteq> StatusMismatch" "StatusMismatch \<noteq> StatusMatch"
  "StatusMatch \<noteq> StatusVoidedBaselineDivergence" "StatusVoidedBaselineDivergence \<noteq> StatusMatch"
  "StatusMatch \<noteq> StatusWaitingForRoles" "StatusWaitingForRoles \<noteq> StatusMatch"
  "StatusMismatch \<noteq> StatusVoidedBaselineDivergence" "StatusVoidedBaselineDivergence \<noteq> StatusMismatch"
  "StatusMismatch \<noteq> StatusWaitingForRoles" "StatusWaitingForRoles \<noteq> StatusMismatch"
  "StatusVoidedBaselineDivergence \<noteq> StatusWaitingForRoles"
  "StatusWaitingForRoles \<noteq> StatusVoidedBaselineDivergence"
  by (simp_all add: status_defs)

lemma flag_distinct [simp]:
  "FlagMismatchPayload \<noteq> FlagMismatchCount" "FlagMismatchCount \<noteq> FlagMismatchPayload"
  "FlagMismatchPayload \<noteq> FlagMismatchSignature" "FlagMismatchSignature \<noteq> FlagMismatchPayload"
  "FlagMismatchCount \<noteq> FlagMismatchSignature" "FlagMismatchSignature \<noteq> FlagMismatchCount"
  by (simp_all add: flag_defs)

lemma direction_distinct [simp]:
  "DirectionIngress \<noteq> DirectionEgress" "DirectionEgress \<noteq> DirectionIngress"
  "DirectionIngress \<noteq> []" "DirectionEgress \<noteq> []"
  by (simp_all add: direction_defs)

section \<open>Roles\<close>

definition ControlA :: string where "ControlA = ''control-a''"
definition ControlB :: string where "ControlB = ''control-b''"
definition Candidate :: string where "Candidate = ''candidate''"

definition all_roles :: "string list" where
  "all_roles = [ControlA, ControlB, Candidate]"

definition is_valid_role :: "string \<Rightarrow> bool" where
  "is_valid_role role \<longleftrightarrow> role = ControlA \<or> role = ControlB \<or> role = Candidate"

lemma role_distinct [simp]:
  "ControlA \<noteq> ControlB" "ControlB \<noteq> ControlA" "ControlA \<noteq> Candidate" "Candidate \<noteq> ControlA"
  "ControlB \<noteq> Candidate" "Candidate \<noteq> ControlB"
  by (simp_all add: ControlA_def ControlB_def Candidate_def)

lemma is_valid_role_iff: "is_valid_role r \<longleftrightarrow> r \<in> set all_roles"
  by (simp add: is_valid_role_def all_roles_def)

section \<open>Reports and verdicts\<close>

record raw_report =
  r_trace_id :: string
  r_shadow_role :: string
  r_shadow_test_name :: string
  r_protocol :: string
  r_direction :: payload_direction
  r_signature :: string
  r_status_code :: string
  r_payload :: bytes
  r_captured_at :: instant
  r_ingest_id :: "64 word"

record verdict_step =
  s_kind :: string
  s_reason :: string
  s_protocol :: string
  s_signature :: string
  s_index :: "int option"
  s_detail :: string
  s_noise_path :: string

record baseline_failure =
  b_reason :: string
  b_protocol :: string
  b_detail :: string
  b_control_a :: string
  b_control_b :: string

record verdict_details =
  d_flags :: "string list"
  d_steps :: "verdict_step list"
  d_baseline :: "baseline_failure option"
  d_missing :: "string list"

record verdict_state =
  v_status :: string
  v_has_count_regression :: bool
  v_flags :: "string list"
  v_summary_details :: string
  v_updated_at :: instant

record trace_group =
  g_trace_id :: string
  g_protocol :: string
  g_last_captured_at :: instant

record stale_trace =
  st_trace_id :: string
  st_first_seen :: instant

definition empty_details :: verdict_details where
  "empty_details = \<lparr>d_flags = [], d_steps = [], d_baseline = None, d_missing = []\<rparr>"

text \<open>
  \<^verbatim>\<open>json.Marshal\<close> of these structs: the fields in declaration order, those tagged
  \<^verbatim>\<open>omitempty\<close> left out when empty.
\<close>

definition omit_empty :: "string \<Rightarrow> string \<Rightarrow> (string \<times> jval) list" where
  "omit_empty key s = (if s = [] then [] else [(key, JStr s)])"

definition omit_empty_list :: "string \<Rightarrow> jval list \<Rightarrow> (string \<times> jval) list" where
  "omit_empty_list key vs = (if vs = [] then [] else [(key, JArr vs)])"

definition step_json :: "verdict_step \<Rightarrow> jval" where
  "step_json s = JObj
     ([(''kind'', JStr (s_kind s))] @ omit_empty ''reason'' (s_reason s) @
      omit_empty ''protocol'' (s_protocol s) @ omit_empty ''signature'' (s_signature s) @
      (case s_index s of None \<Rightarrow> [] | Some i \<Rightarrow> [(''index'', JNum (itoz i))]) @
      omit_empty ''detail'' (s_detail s) @ omit_empty ''noise_path'' (s_noise_path s))"

definition baseline_json :: "baseline_failure \<Rightarrow> jval" where
  "baseline_json b = JObj
     ([(''reason'', JStr (b_reason b))] @ omit_empty ''protocol'' (b_protocol b) @
      omit_empty ''detail'' (b_detail b) @ omit_empty ''control_a'' (b_control_a b) @
      omit_empty ''control_b'' (b_control_b b))"

definition details_json :: "verdict_details \<Rightarrow> jval" where
  "details_json d = JObj
     (omit_empty_list ''flags'' (map JStr (d_flags d)) @
      omit_empty_list ''steps'' (map step_json (d_steps d)) @
      (case d_baseline d of None \<Rightarrow> [] | Some b \<Rightarrow> [(''baseline'', baseline_json b)]) @
      omit_empty_list ''missing_roles'' (map JStr (d_missing d)))"

text \<open>\<^verbatim>\<open>mustJSON(details)\<close>: marshalling these structs never fails.\<close>

definition must_json :: "verdict_details \<Rightarrow> string" where
  "must_json d = json_marshal (details_json d)"

end
