(* ===== verification/BeruDiff.thy ===== *)
theory BeruDiff
  imports BeruModel
begin

text \<open>
  \<^verbatim>\<open>pipeline/beru/internal/diff\<close>: the diff-of-diffs verdict.  Go maps are association
  lists; where the code ranges over a map without sorting its keys the iteration order is a
  parameter (\<^verbatim>\<open>io\<close>), a function that permutes the key list.  The clock is a parameter.
  The \<^verbatim>\<open>expected\<close> and \<^verbatim>\<open>actual\<close> texts of a \<^verbatim>\<open>pathDiff\<close> are never read, so a
  difference is its path label.
\<close>

definition defaultTraceTimeout :: duration where
  "defaultTraceTimeout = 10 * second"

record eval_options =
  o_timeout :: duration
  o_now :: instant

type_synonym sig_buckets = "(string \<times> raw_report list) list"
type_synonym role_map = "(string \<times> sig_buckets) list"
type_synonym proto_map = "(string \<times> role_map) list"
type_synonym chron_map = "(string \<times> (string \<times> raw_report list) list) list"

section \<open>Comparing JSON payloads\<close>

definition json_equal :: "jval \<Rightarrow> jval \<Rightarrow> bool" where
  "json_equal a b \<longleftrightarrow> json_marshal a = json_marshal b"

definition join_path :: "string \<Rightarrow> string \<Rightarrow> string" where
  "join_path prefix key = (if prefix = [] then key else prefix @ ''.'' @ key)"

text \<open>The part of a path after its last dot.\<close>

definition field_label :: "string \<Rightarrow> string" where
  "field_label path =
     (if path = [] then ''(root)''
      else if CHR ''.'' \<in> set path then rev (takeWhile (\<lambda>c. c \<noteq> CHR ''.'') (rev path))
      else path)"

definition nth_or_null :: "jval list \<Rightarrow> nat \<Rightarrow> jval" where
  "nth_or_null vs i = (if i < length vs then vs ! i else JNull)"

lemma size_member: "(k, v) \<in> set ms \<Longrightarrow> size v < size (JObj ms)"
  by (induction ms) auto

lemma size_element: "v \<in> set vs \<Longrightarrow> size v < size (JArr vs)"
  by (induction vs) auto

lemma size_go_get: "size (go_get JNull ms k) < size (JObj ms)"
  by (auto simp: go_get_def split: option.splits dest!: map_of_SomeD size_member)

lemma size_nth_or_null: "size (nth_or_null vs i) < size (JArr vs)"
  using size_element [of "vs ! i" vs] by (simp add: nth_or_null_def)

function walk_compare :: "string \<Rightarrow> jval \<Rightarrow> jval \<Rightarrow> string list" where
  "walk_compare prefix a b =
     (if json_equal a b then []
      else case a of
        JObj av \<Rightarrow>
          (case b of
             JObj bv \<Rightarrow>
               concat (map (\<lambda>k. walk_compare (join_path prefix k) (go_get JNull av k) (go_get JNull bv k))
                 (sort (remdups (map fst av @ map fst bv))))
           | _ \<Rightarrow> [field_label prefix])
      | JArr av \<Rightarrow>
          (case b of
             JArr bv \<Rightarrow>
               concat (map (\<lambda>i. walk_compare (prefix @ ''['' @ itoa i @ '']'')
                                  (nth_or_null av i) (nth_or_null bv i))
                 [0..<max (length av) (length bv)])
           | _ \<Rightarrow> [field_label prefix])
      | _ \<Rightarrow> [field_label prefix])"
  by pat_completeness auto
termination
  by (relation "measure (\<lambda>(p, a, b). size a + size b)")
     (auto intro!: add_strict_mono size_go_get size_nth_or_null simp del: jval.size)

declare walk_compare.simps [simp del]

definition compare_json :: "bytes \<Rightarrow> bytes \<Rightarrow> string list option" where
  "compare_json a b =
     (case json_unmarshal a of
        None \<Rightarrow> None
      | Some va \<Rightarrow>
          (case json_unmarshal b of
             None \<Rightarrow> None
           | Some vb \<Rightarrow> Some (walk_compare [] va vb)))"

definition json_noise_paths :: "bytes \<Rightarrow> bytes \<Rightarrow> string list option" where
  "json_noise_paths a b =
     (if b = [] then Some [] else map_option remdups (compare_json a b))"

definition json_regressions :: "bytes \<Rightarrow> bytes \<Rightarrow> string list \<Rightarrow> string list option" where
  "json_regressions a c noise = map_option (filter (\<lambda>p. p \<notin> set noise)) (compare_json a c)"

definition merge_noise :: "string list \<Rightarrow> string list \<Rightarrow> string list" where
  "merge_noise abNoise userNoise = List.union abNoise userNoise"

definition payload_regressions ::
  "bytes \<Rightarrow> bytes \<Rightarrow> bytes \<Rightarrow> string list \<Rightarrow> string list \<times> bool" where
  "payload_regressions aP bP cP userNoise =
     (case json_noise_paths aP bP of
        None \<Rightarrow> if aP = bP \<and> aP \<noteq> cP then ([], True) else ([], False)
      | Some abNoise \<Rightarrow>
          (case json_regressions aP cP (merge_noise abNoise userNoise) of
             None \<Rightarrow> ([], aP \<noteq> cP)
           | Some regs \<Rightarrow> if regs = [] then ([], False) else (dedup_first regs, True)))"

section \<open>Mongo payloads\<close>

definition mongoMetadataFields :: "string list" where
  "mongoMetadataFields = [''_id'', ''lsid'', ''comment'', ''$db'']"

definition delete_keys :: "string list \<Rightarrow> go_obj \<Rightarrow> go_obj" where
  "delete_keys ks obj =
     (case obj of NilObj \<Rightarrow> NilObj | Obj m \<Rightarrow> Obj (filter (\<lambda>(k, v). k \<notin> set ks) m))"

definition strip_mongo_metadata_fields :: "bytes \<Rightarrow> bytes option" where
  "strip_mongo_metadata_fields payload =
     map_option (\<lambda>obj. marshal_obj (delete_keys mongoMetadataFields obj)) (unmarshal_obj payload)"

definition mongo_payloads_equal :: "bytes \<Rightarrow> bytes \<Rightarrow> bool" where
  "mongo_payloads_equal a b \<longleftrightarrow>
     (if a = b then True
      else case (strip_mongo_metadata_fields a, strip_mongo_metadata_fields b) of
             (Some na, Some nb) \<Rightarrow> na = nb
           | _ \<Rightarrow> False)"

definition payloads_equal :: "string \<Rightarrow> bytes \<Rightarrow> bytes \<Rightarrow> bool" where
  "payloads_equal protocol a b \<longleftrightarrow>
     (if equal_fold protocol ''mongodb'' then mongo_payloads_equal a b else a = b)"

section \<open>Grouping a trace history\<close>

definition roles_present :: "raw_report list \<Rightarrow> string list" where
  "roles_present history = foldl (\<lambda>have r. List.insert (r_shadow_role r) have) [] history"

definition missing_roles :: "string list \<Rightarrow> string list" where
  "missing_roles have = filter (\<lambda>role. role \<notin> set have) [ControlA, ControlB, Candidate]"

fun earliest_captured :: "raw_report list \<Rightarrow> instant" where
  "earliest_captured [] = 0"
| "earliest_captured (r # rs) =
     foldl (\<lambda>first x. if r_captured_at x < first then r_captured_at x else first)
       (r_captured_at r) rs"

definition group_add :: "proto_map \<Rightarrow> raw_report \<Rightarrow> proto_map" where
  "group_add grouped x =
     (let byRole = go_get [] grouped (r_protocol x);
          bySig = go_get [] byRole (r_shadow_role x)
      in AList.update (r_protocol x)
           (AList.update (r_shadow_role x) (go_append bySig (r_signature x) x) byRole) grouped)"

definition group_history :: "raw_report list \<Rightarrow> proto_map" where
  "group_history history = foldl group_add [] history"

definition chron_add :: "chron_map \<Rightarrow> raw_report \<Rightarrow> chron_map" where
  "chron_add out x =
     AList.update (r_protocol x) (go_append (go_get [] out (r_protocol x)) (r_shadow_role x) x) out"

definition chronological_by_role :: "raw_report list \<Rightarrow> chron_map" where
  "chronological_by_role history = foldl chron_add [] history"

definition effective_direction :: "raw_report \<Rightarrow> payload_direction" where
  "effective_direction r =
     (if r_direction r \<noteq> [] then r_direction r
      else if equal_fold (r_protocol r) ''http'' then DirectionIngress else DirectionEgress)"

definition filter_direction :: "raw_report list \<Rightarrow> payload_direction \<Rightarrow> raw_report list" where
  "filter_direction reports dir = filter (\<lambda>r. effective_direction r = dir) reports"

definition count_egress :: "raw_report list \<Rightarrow> nat" where
  "count_egress reports =
     foldl (\<lambda>n r. if effective_direction r = DirectionEgress then n + 1 else n) 0 reports"

definition union_signatures :: "sig_buckets \<Rightarrow> sig_buckets \<Rightarrow> string list" where
  "union_signatures a b = sort (remdups (map fst a @ map fst b))"

section \<open>Baseline verification\<close>

fun first_status_mismatch ::
  "string \<Rightarrow> nat \<Rightarrow> raw_report list \<Rightarrow> raw_report list \<Rightarrow> baseline_failure option" where
  "first_status_mismatch protocol i (a # as) (b # bs) =
     (if r_status_code a \<noteq> r_status_code b then
        Some \<lparr>b_reason = ''status_code_mismatch'', b_protocol = protocol,
              b_detail = ''ingress status control-a='' @ r_status_code a @ '' control-b='' @
                r_status_code b @ '' index='' @ itoa i,
              b_control_a = r_status_code a, b_control_b = r_status_code b\<rparr>
      else first_status_mismatch protocol (Suc i) as bs)"
| "first_status_mismatch protocol i _ _ = None"

definition baseline_ingress :: "chron_map \<Rightarrow> string \<Rightarrow> baseline_failure option" where
  "baseline_ingress chronological protocol =
     (if \<not> equal_fold protocol ''http'' then None
      else
        let byRole = go_get [] chronological protocol;
            aReports = filter_direction (go_get [] byRole ControlA) DirectionIngress;
            bReports = filter_direction (go_get [] byRole ControlB) DirectionIngress
        in case first_status_mismatch protocol 0 aReports bReports of
             Some f \<Rightarrow> Some f
           | None \<Rightarrow>
               if length aReports \<noteq> length bReports then
                 Some \<lparr>b_reason = ''ingress_count_mismatch'', b_protocol = protocol,
                       b_detail = ''ingress count control-a='' @ itoa (length aReports) @
                         '' control-b='' @ itoa (length bReports),
                       b_control_a = itoa (length aReports), b_control_b = itoa (length bReports)\<rparr>
               else None)"

definition baseline_egress :: "proto_map \<Rightarrow> string \<Rightarrow> baseline_failure option" where
  "baseline_egress grouped protocol =
     (let aBuckets = go_get [] (go_get [] grouped protocol) ControlA;
          bBuckets = go_get [] (go_get [] grouped protocol) ControlB
      in first_some (\<lambda>sig.
           let nA = count_egress (go_get [] aBuckets sig); nB = count_egress (go_get [] bBuckets sig)
           in if nA \<noteq> nB then
                Some \<lparr>b_reason = ''egress_count_mismatch'', b_protocol = protocol,
                      b_detail = ''signature='' @ sig @ '' egress count control-a='' @ itoa nA @
                        '' control-b='' @ itoa nB,
                      b_control_a = itoa nA, b_control_b = itoa nB\<rparr>
              else None)
           (union_signatures aBuckets bBuckets))"

definition verify_baseline ::
  "(string list \<Rightarrow> string list) \<Rightarrow> proto_map \<Rightarrow> chron_map \<Rightarrow> baseline_failure option" where
  "verify_baseline io grouped chronological =
     (case first_some (baseline_ingress chronological) (io (map fst chronological)) of
        Some f \<Rightarrow> Some f
      | None \<Rightarrow> first_some (baseline_egress grouped) (sorted_keys grouped))"

section \<open>Candidate evaluation\<close>

type_synonym step_acc = "verdict_step list \<times> string list"

fun ingress_status_steps ::
  "string \<Rightarrow> nat \<Rightarrow> raw_report list \<Rightarrow> raw_report list \<Rightarrow> string list \<Rightarrow> step_acc" where
  "ingress_status_steps protocol i (a # as) (c # cs) flagSet =
     (if r_status_code a = r_status_code c then ingress_status_steps protocol (Suc i) as cs flagSet
      else
        let (steps, flags) =
              ingress_status_steps protocol (Suc i) as cs (List.insert FlagMismatchPayload flagSet)
        in (\<lparr>s_kind = FlagMismatchPayload, s_reason = ReasonStatusCode, s_protocol = protocol,
             s_signature = r_signature a, s_index = Some (int i),
             s_detail = ''status control-a='' @ r_status_code a @ '' candidate='' @ r_status_code c,
             s_noise_path = []\<rparr> # steps, flags))"
| "ingress_status_steps protocol i _ _ flagSet = ([], flagSet)"

fun compare_ingress_status :: "chron_map \<Rightarrow> string list \<Rightarrow> string list \<Rightarrow> step_acc" where
  "compare_ingress_status chronological [] flagSet = ([], flagSet)"
| "compare_ingress_status chronological (protocol # ps) flagSet =
     (if \<not> equal_fold protocol ''http'' then compare_ingress_status chronological ps flagSet
      else
        let byRole = go_get [] chronological protocol;
            aReports = filter_direction (go_get [] byRole ControlA) DirectionIngress;
            cReports = filter_direction (go_get [] byRole Candidate) DirectionIngress;
            (steps, flags) = ingress_status_steps protocol 0 aReports cReports flagSet;
            (steps', flags') = compare_ingress_status chronological ps flags
        in (steps @ steps', flags'))"

definition head_payload :: "raw_report list \<Rightarrow> bytes" where
  "head_payload bs = (case bs of [] \<Rightarrow> [] | b # _ \<Rightarrow> r_payload b)"

definition payload_steps :: "string \<Rightarrow> string \<Rightarrow> nat \<Rightarrow> string list \<Rightarrow> verdict_step list" where
  "payload_steps protocol signature i labels =
     (if labels = [] then
        [\<lparr>s_kind = FlagMismatchPayload, s_reason = [], s_protocol = protocol,
          s_signature = signature, s_index = Some (int i),
          s_detail = ''payload mismatch index='' @ itoa i, s_noise_path = []\<rparr>]
      else
        map (\<lambda>label.
          \<lparr>s_kind = FlagMismatchPayload, s_reason = [], s_protocol = protocol,
           s_signature = signature, s_index = Some (int i),
           s_detail = ''payload mismatch index='' @ itoa i @ '' field='' @ label,
           s_noise_path = label\<rparr>) labels)"

text \<open>
  The loop over the pairs of a bucket.  The control-b payload at an index past its bucket is
  empty.
\<close>

fun compare_pairs ::
  "string \<Rightarrow> string \<Rightarrow> string list \<Rightarrow> nat \<Rightarrow> raw_report list \<Rightarrow> raw_report list \<Rightarrow> raw_report list
     \<Rightarrow> string list \<Rightarrow> step_acc" where
  "compare_pairs protocol signature userNoise i (a # as) bs (c # cs) flagSet =
     (if payloads_equal protocol (r_payload a) (r_payload c)
      then compare_pairs protocol signature userNoise (Suc i) as (tl bs) cs flagSet
      else
        let (labels, regressed) =
              payload_regressions (r_payload a) (head_payload bs) (r_payload c) userNoise
        in if \<not> regressed
           then compare_pairs protocol signature userNoise (Suc i) as (tl bs) cs flagSet
           else
             let (steps, flags) =
                   compare_pairs protocol signature userNoise (Suc i) as (tl bs) cs
                     (List.insert FlagMismatchPayload flagSet)
             in (payload_steps protocol signature i labels @ steps, flags))"
| "compare_pairs protocol signature userNoise i _ _ _ flagSet = ([], flagSet)"

definition count_step :: "string \<Rightarrow> string \<Rightarrow> string \<Rightarrow> string \<Rightarrow> string \<Rightarrow> verdict_step" where
  "count_step kind reason protocol signature detail =
     \<lparr>s_kind = kind, s_reason = reason, s_protocol = protocol, s_signature = signature,
      s_index = None, s_detail = detail, s_noise_path = []\<rparr>"

definition compare_signature ::
  "string \<Rightarrow> string \<Rightarrow> raw_report list \<Rightarrow> raw_report list \<Rightarrow> raw_report list \<Rightarrow> string list
     \<Rightarrow> string list \<Rightarrow> step_acc" where
  "compare_signature protocol signature aSlice bSlice cSlice flagSet userNoise =
     (let nA = length aSlice; nC = length cSlice
      in if nA = 0 \<and> 0 < nC then
           ([count_step FlagMismatchSignature ReasonUnexpectedExtraEgress protocol signature
               (''unexpected signature candidate='' @ itoa nC)],
            List.insert FlagMismatchSignature flagSet)
         else
           let (steps, flags) =
                 (if nA < nC then
                    ([count_step FlagMismatchCount ReasonUnexpectedExtraEgress protocol signature
                        (''candidate='' @ itoa nC @ '' control-a='' @ itoa nA)],
                     List.insert FlagMismatchCount flagSet)
                  else if nC < nA then
                    ([count_step FlagMismatchCount ReasonMissingEgress protocol signature
                        (''candidate='' @ itoa nC @ '' control-a='' @ itoa nA)],
                     List.insert FlagMismatchCount flagSet)
                  else ([], flagSet));
               (steps', flags') =
                 compare_pairs protocol signature userNoise 0 aSlice bSlice cSlice flags
           in (steps @ steps', flags'))"

fun compare_signatures ::
  "string \<Rightarrow> role_map \<Rightarrow> string list \<Rightarrow> string list \<Rightarrow> string list \<Rightarrow> step_acc" where
  "compare_signatures protocol rm userNoise [] flagSet = ([], flagSet)"
| "compare_signatures protocol rm userNoise (sig # sigs) flagSet =
     (let (steps, flags) =
            compare_signature protocol sig (go_get [] (go_get [] rm ControlA) sig)
              (go_get [] (go_get [] rm ControlB) sig) (go_get [] (go_get [] rm Candidate) sig)
              flagSet userNoise;
          (steps', flags') = compare_signatures protocol rm userNoise sigs flags
      in (steps @ steps', flags'))"

fun compare_protocols ::
  "proto_map \<Rightarrow> string list \<Rightarrow> string list \<Rightarrow> string list \<Rightarrow> step_acc" where
  "compare_protocols grouped userNoise [] flagSet = ([], flagSet)"
| "compare_protocols grouped userNoise (protocol # ps) flagSet =
     (let rm = go_get [] grouped protocol;
          (steps, flags) =
            compare_signatures protocol rm userNoise
              (union_signatures (go_get [] rm ControlA) (go_get [] rm Candidate)) flagSet;
          (steps', flags') = compare_protocols grouped userNoise ps flags
      in (steps @ steps', flags'))"

section \<open>The verdict\<close>

definition base_verdict :: "instant \<Rightarrow> verdict_state" where
  "base_verdict now =
     \<lparr>v_status = StatusMatch, v_has_count_regression = False, v_flags = [],
      v_summary_details = [], v_updated_at = now\<rparr>"

definition evaluate_complete ::
  "(string list \<Rightarrow> string list) \<Rightarrow> (string list \<Rightarrow> string list) \<Rightarrow> instant \<Rightarrow> raw_report list
     \<Rightarrow> string list \<Rightarrow> verdict_state" where
  "evaluate_complete io1 io2 now history userNoise =
     (let grouped = group_history history; chronological = chronological_by_role history
      in case verify_baseline io1 grouped chronological of
           Some fail \<Rightarrow>
             (base_verdict now)
               \<lparr>v_status := StatusVoidedBaselineDivergence,
                v_summary_details := must_json (empty_details\<lparr>d_baseline := Some fail\<rparr>)\<rparr>
         | None \<Rightarrow>
             let (steps1, flags1) =
                   compare_ingress_status chronological (io2 (map fst chronological)) [];
                 (steps2, flagSet) =
                   compare_protocols grouped userNoise (sorted_keys grouped) flags1;
                 steps = steps1 @ steps2
             in if steps \<noteq> [] then
                  let flags = sort flagSet
                  in (base_verdict now)
                       \<lparr>v_status := StatusMismatch, v_flags := flags,
                        v_has_count_regression :=
                          FlagMismatchCount \<in> set flagSet \<or> FlagMismatchSignature \<in> set flagSet,
                        v_summary_details :=
                          must_json (empty_details\<lparr>d_flags := flags, d_steps := steps\<rparr>)\<rparr>
                else base_verdict now)"

definition evaluate_trace_history ::
  "(string list \<Rightarrow> string list) \<Rightarrow> (string list \<Rightarrow> string list) \<Rightarrow> instant \<Rightarrow> raw_report list
     \<Rightarrow> string list \<Rightarrow> eval_options \<Rightarrow> verdict_state option" where
  "evaluate_trace_history io1 io2 clock history userNoise opts =
     (let now = (if o_now opts = 0 then clock else o_now opts);
          timeout = (if o_timeout opts \<le> 0 then defaultTraceTimeout else o_timeout opts)
      in if history = [] then Some (base_verdict now)
         else
           let missing = missing_roles (roles_present history)
           in if missing \<noteq> [] then
                (if timeout \<le> time_sub now (earliest_captured history) then
                   Some ((base_verdict now)
                     \<lparr>v_status := StatusWaitingForRoles,
                      v_summary_details := must_json (empty_details\<lparr>d_missing := missing\<rparr>)\<rparr>)
                 else None)
              else Some (evaluate_complete io1 io2 now history userNoise))"

end
