(* ===== verification/BeruDiffSpec.thy ===== *)
theory BeruDiffSpec
  imports BeruDiff
begin

text \<open>
  What a verdict means: the grouping of a history is characterised by filters of the history,
  the baseline check by agreement of the two controls, the candidate loops by conformance of
  the candidate to control-a, and the verdict by the two together.
\<close>

section \<open>Grouping as filtering\<close>

definition bucket_of :: "raw_report list \<Rightarrow> string \<Rightarrow> string \<Rightarrow> string \<Rightarrow> raw_report list" where
  "bucket_of h p role sig =
     filter (\<lambda>x. r_protocol x = p \<and> r_shadow_role x = role \<and> r_signature x = sig) h"

definition role_reports :: "raw_report list \<Rightarrow> string \<Rightarrow> string \<Rightarrow> raw_report list" where
  "role_reports h p role = filter (\<lambda>x. r_protocol x = p \<and> r_shadow_role x = role) h"

definition ingress_of :: "raw_report list \<Rightarrow> string \<Rightarrow> string \<Rightarrow> raw_report list" where
  "ingress_of h p role = filter_direction (role_reports h p role) DirectionIngress"

lemma foldl_group_add_lookup:
  "go_get [] (go_get [] (go_get [] (foldl group_add g h) p) role) sig
     = go_get [] (go_get [] (go_get [] g p) role) sig @ bucket_of h p role sig"
  by (induction h arbitrary: g) (simp_all add: group_add_def bucket_of_def Let_def)

lemma group_history_lookup [simp]:
  "go_get [] (go_get [] (go_get [] (group_history h) p) role) sig = bucket_of h p role sig"
  by (simp add: group_history_def foldl_group_add_lookup)

lemma foldl_group_add_protocols:
  "fst ` set (foldl group_add g h) = fst ` set g \<union> r_protocol ` set h"
  by (induction h arbitrary: g) (auto simp: group_add_def Let_def)

lemma group_history_protocols [simp]: "fst ` set (group_history h) = r_protocol ` set h"
  by (simp add: group_history_def foldl_group_add_protocols)

lemma foldl_group_add_signatures:
  "fst ` set (go_get [] (go_get [] (foldl group_add g h) p) role)
     = fst ` set (go_get [] (go_get [] g p) role) \<union> r_signature ` set (role_reports h p role)"
  by (induction h arbitrary: g) (auto simp: group_add_def role_reports_def Let_def)

lemma group_history_signatures [simp]:
  "fst ` set (go_get [] (go_get [] (group_history h) p) role) = r_signature ` set (role_reports h p role)"
  by (simp add: group_history_def foldl_group_add_signatures)

lemma foldl_chron_add_lookup:
  "go_get [] (go_get [] (foldl chron_add g h) p) role = go_get [] (go_get [] g p) role @ role_reports h p role"
  by (induction h arbitrary: g) (simp_all add: chron_add_def role_reports_def)

lemma chronological_lookup [simp]:
  "go_get [] (go_get [] (chronological_by_role h) p) role = role_reports h p role"
  by (simp add: chronological_by_role_def foldl_chron_add_lookup)

lemma foldl_chron_add_protocols:
  "fst ` set (foldl chron_add g h) = fst ` set g \<union> r_protocol ` set h"
  by (induction h arbitrary: g) (auto simp: chron_add_def)

lemma chronological_protocols [simp]: "fst ` set (chronological_by_role h) = r_protocol ` set h"
  by (simp add: chronological_by_role_def foldl_chron_add_protocols)

lemma set_union_signatures [simp]:
  "set (union_signatures a b) = fst ` set a \<union> fst ` set b"
  by (simp add: union_signatures_def)

lemma bucket_of_eq_filter: "bucket_of h p role sig = filter (\<lambda>x. r_signature x = sig) (role_reports h p role)"
  unfolding bucket_of_def role_reports_def filter_filter
  by (rule filter_cong) auto

lemma bucket_of_empty_iff:
  "bucket_of h p role sig = [] \<longleftrightarrow> sig \<notin> r_signature ` set (role_reports h p role)"
  by (auto simp: bucket_of_eq_filter filter_empty_conv)

lemma role_reports_empty: "p \<notin> r_protocol ` set h \<Longrightarrow> role_reports h p role = []"
  by (auto simp: role_reports_def filter_empty_conv)

lemma set_roles_present [simp]: "set (roles_present h) = r_shadow_role ` set h"
proof -
  have "set (foldl (\<lambda>have r. List.insert (r_shadow_role r) have) acc h)
      = set acc \<union> r_shadow_role ` set h" for acc
    by (induction h arbitrary: acc) auto
  then show ?thesis by (simp add: roles_present_def)
qed

lemma count_egress_eq: "count_egress rs = length (filter (\<lambda>r. effective_direction r = DirectionEgress) rs)"
proof -
  have "foldl (\<lambda>n r. if effective_direction r = DirectionEgress then n + 1 else n) n rs
      = n + length (filter (\<lambda>r. effective_direction r = DirectionEgress) rs)" for n
    by (induction rs arbitrary: n) auto
  then show ?thesis by (simp add: count_egress_def)
qed

lemma count_egress_Nil [simp]: "count_egress [] = 0"
  by (simp add: count_egress_def)

lemma foldl_earliest:
  "foldl (\<lambda>first x. if r_captured_at x < first then r_captured_at x else first) t rs
     = Min (insert t (r_captured_at ` set rs))"
proof (induction rs arbitrary: t)
  case (Cons a rs)
  have "Min (insert (if r_captured_at a < t then r_captured_at a else t) S) =
        Min (insert t (insert (r_captured_at a) S))" if "finite S" for S
    using that by (cases "S = {}") (auto simp: min_def)
  then show ?case by (simp add: Cons.IH)
qed simp

lemma earliest_captured_eq: "h \<noteq> [] \<Longrightarrow> earliest_captured h = Min (r_captured_at ` set h)"
  by (cases h) (simp_all add: foldl_earliest)

section \<open>The specification of a verdict\<close>

text \<open>The two controls agree: same ingress status codes in order, same egress counts.\<close>

definition baseline_agrees :: "raw_report list \<Rightarrow> bool" where
  "baseline_agrees h \<longleftrightarrow>
     (\<forall>p \<in> r_protocol ` set h.
        (equal_fold p ''http'' \<longrightarrow>
           map r_status_code (ingress_of h p ControlA) = map r_status_code (ingress_of h p ControlB)) \<and>
        (\<forall>sig \<in> r_signature ` set h.
           count_egress (bucket_of h p ControlA sig) = count_egress (bucket_of h p ControlB sig)))"

text \<open>A candidate payload is acceptable beside those of the two controls.\<close>

definition pair_ok :: "string \<Rightarrow> string list \<Rightarrow> bytes \<Rightarrow> bytes \<Rightarrow> bytes \<Rightarrow> bool" where
  "pair_ok protocol noise aP bP cP \<longleftrightarrow>
     payloads_equal protocol aP cP \<or> \<not> snd (payload_regressions aP bP cP noise)"

definition payload_at :: "raw_report list \<Rightarrow> nat \<Rightarrow> bytes" where
  "payload_at rs i = (if i < length rs then r_payload (rs ! i) else [])"

definition bucket_conforms :: "string list \<Rightarrow> raw_report list \<Rightarrow> string \<Rightarrow> string \<Rightarrow> bool" where
  "bucket_conforms noise h p sig \<longleftrightarrow>
     (let as = bucket_of h p ControlA sig; bs = bucket_of h p ControlB sig;
          cs = bucket_of h p Candidate sig
      in length as = length cs \<and>
         (\<forall>i < length as. pair_ok p noise (payload_at as i) (payload_at bs i) (payload_at cs i)))"

definition status_conforms :: "raw_report list \<Rightarrow> string \<Rightarrow> bool" where
  "status_conforms h p \<longleftrightarrow>
     (\<forall>(a, c) \<in> set (zip (ingress_of h p ControlA) (ingress_of h p Candidate)).
        r_status_code a = r_status_code c)"

definition candidate_conforms :: "string list \<Rightarrow> raw_report list \<Rightarrow> bool" where
  "candidate_conforms noise h \<longleftrightarrow>
     (\<forall>p \<in> r_protocol ` set h.
        (equal_fold p ''http'' \<longrightarrow> status_conforms h p) \<and>
        (\<forall>sig \<in> r_signature ` set h. bucket_conforms noise h p sig))"

definition complete :: "raw_report list \<Rightarrow> bool" where
  "complete h \<longleftrightarrow> (\<forall>role \<in> set all_roles. role \<in> r_shadow_role ` set h)"

definition permutes_keys :: "(string list \<Rightarrow> string list) \<Rightarrow> bool" where
  "permutes_keys io \<longleftrightarrow> (\<forall>ks. mset (io ks) = mset ks)"

lemma permutes_keys_set: "permutes_keys io \<Longrightarrow> set (io ks) = set ks"
  unfolding permutes_keys_def by (metis set_mset_mset)

lemma missing_roles_Nil_iff: "missing_roles (roles_present h) = [] \<longleftrightarrow> complete h"
  by (auto simp: missing_roles_def complete_def all_roles_def)

lemma complete_nonempty: "complete h \<Longrightarrow> h \<noteq> []"
  by (auto simp: complete_def all_roles_def)

section \<open>The baseline check\<close>

lemma first_status_mismatch_None_iff:
  "first_status_mismatch p i as bs = None \<longleftrightarrow>
     (\<forall>(a, b) \<in> set (zip as bs). r_status_code a = r_status_code b)"
  by (induction p i as bs rule: first_status_mismatch.induct) auto

lemma zip_all_eq_iff_map:
  "length as = length bs \<Longrightarrow>
     (\<forall>(a, b) \<in> set (zip as bs). f a = f b) \<longleftrightarrow> map f as = map f bs"
  by (induction as bs rule: list_induct2) auto

lemma baseline_ingress_None_iff:
  "baseline_ingress (chronological_by_role h) p = None \<longleftrightarrow>
     (equal_fold p ''http'' \<longrightarrow>
        map r_status_code (ingress_of h p ControlA) = map r_status_code (ingress_of h p ControlB))"
proof (cases "equal_fold p ''http''")
  case True
  let ?a = "ingress_of h p ControlA" and ?b = "ingress_of h p ControlB"
  have "baseline_ingress (chronological_by_role h) p = None \<longleftrightarrow>
     first_status_mismatch p 0 ?a ?b = None \<and> length ?a = length ?b"
    using True by (auto simp: baseline_ingress_def ingress_of_def Let_def split: option.splits)
  also have "\<dots> \<longleftrightarrow> map r_status_code ?a = map r_status_code ?b"
    unfolding first_status_mismatch_None_iff
    using zip_all_eq_iff_map [of ?a ?b r_status_code]
    by (metis length_map)
  finally show ?thesis using True by simp
qed (simp add: baseline_ingress_def)

lemma baseline_egress_None_iff:
  "baseline_egress (group_history h) p = None \<longleftrightarrow>
     (\<forall>sig. count_egress (bucket_of h p ControlA sig) = count_egress (bucket_of h p ControlB sig))"
proof -
  have "baseline_egress (group_history h) p = None \<longleftrightarrow>
     (\<forall>sig \<in> r_signature ` set (role_reports h p ControlA) \<union> r_signature ` set (role_reports h p ControlB).
        count_egress (bucket_of h p ControlA sig) = count_egress (bucket_of h p ControlB sig))"
    by (simp add: baseline_egress_def first_some_None_iff Let_def)
  also have "\<dots> \<longleftrightarrow> (\<forall>sig. count_egress (bucket_of h p ControlA sig) = count_egress (bucket_of h p ControlB sig))"
  proof (intro iffI allI)
    fix sig
    assume all: "\<forall>sig \<in> r_signature ` set (role_reports h p ControlA) \<union> r_signature ` set (role_reports h p ControlB).
        count_egress (bucket_of h p ControlA sig) = count_egress (bucket_of h p ControlB sig)"
    show "count_egress (bucket_of h p ControlA sig) = count_egress (bucket_of h p ControlB sig)"
    proof (cases "sig \<in> r_signature ` set (role_reports h p ControlA) \<union> r_signature ` set (role_reports h p ControlB)")
      case True with all show ?thesis by blast
    next
      case False
      then have "bucket_of h p ControlA sig = []" "bucket_of h p ControlB sig = []"
        by (simp_all add: bucket_of_empty_iff)
      then show ?thesis by simp
    qed
  qed blast
  finally show ?thesis .
qed

lemma bucket_of_outside: "sig \<notin> r_signature ` set h \<Longrightarrow> bucket_of h p role sig = []"
  by (auto simp: bucket_of_def filter_empty_conv)

lemma verify_baseline_None_iff:
  assumes "permutes_keys io"
  shows "verify_baseline io (group_history h) (chronological_by_role h) = None \<longleftrightarrow> baseline_agrees h"
proof -
  have keys: "set (io (map fst (chronological_by_role h))) = r_protocol ` set h"
    using permutes_keys_set [OF assms] by simp
  let ?ing = "first_some (baseline_ingress (chronological_by_role h)) (io (map fst (chronological_by_role h)))"
  let ?eg = "first_some (baseline_egress (group_history h)) (sorted_keys (group_history h))"
  have ing: "?ing = None \<longleftrightarrow> (\<forall>p \<in> r_protocol ` set h. equal_fold p ''http'' \<longrightarrow>
        map r_status_code (ingress_of h p ControlA) = map r_status_code (ingress_of h p ControlB))"
    unfolding first_some_None_iff keys baseline_ingress_None_iff by (rule refl)
  have eg: "?eg = None \<longleftrightarrow> (\<forall>p \<in> r_protocol ` set h. \<forall>sig \<in> r_signature ` set h.
        count_egress (bucket_of h p ControlA sig) = count_egress (bucket_of h p ControlB sig))"
    unfolding first_some_None_iff baseline_egress_None_iff set_sorted_keys group_history_protocols
    by (metis bucket_of_outside)
  have "verify_baseline io (group_history h) (chronological_by_role h) = None \<longleftrightarrow> ?ing = None \<and> ?eg = None"
    by (simp add: verify_baseline_def split: option.split)
  then show ?thesis
    unfolding ing eg baseline_agrees_def by blast
qed

section \<open>The candidate loops\<close>

text \<open>
  Every loop threads the flag set through; what it adds are the kinds of the steps it emits,
  and the steps do not depend on the flags collected before.
\<close>

definition flags_grow :: "step_acc \<Rightarrow> string list \<Rightarrow> bool" where
  "flags_grow acc flagSet \<longleftrightarrow> set (snd acc) = set flagSet \<union> s_kind ` set (fst acc)"

lemma flags_grow_nil [simp]: "flags_grow ([], fl) fl"
  by (simp add: flags_grow_def)

lemma ingress_status_steps_flags:
  "flags_grow (ingress_status_steps p i as cs fl) fl"
  by (induction p i as cs fl rule: ingress_status_steps.induct)
     (auto simp: flags_grow_def Let_def split: prod.splits)

lemma ingress_status_steps_Nil_iff:
  "fst (ingress_status_steps p i as cs fl) = [] \<longleftrightarrow>
     (\<forall>(a, c) \<in> set (zip as cs). r_status_code a = r_status_code c)"
  by (induction p i as cs fl rule: ingress_status_steps.induct)
     (auto simp: Let_def split: prod.splits)

lemma compare_ingress_status_flags:
  "flags_grow (compare_ingress_status chron ps fl) fl"
proof (induction chron ps fl rule: compare_ingress_status.induct)
  case (2 chron p ps fl)
  let ?byRole = "go_get [] chron p"
  let ?as = "filter_direction (go_get [] ?byRole ControlA) DirectionIngress"
  let ?cs = "filter_direction (go_get [] ?byRole Candidate) DirectionIngress"
  obtain s1 f1 where 1: "ingress_status_steps p 0 ?as ?cs fl = (s1, f1)" by fastforce
  obtain s2 f2 where 2: "compare_ingress_status chron ps f1 = (s2, f2)" by fastforce
  show ?case
    using "2.IH" ingress_status_steps_flags [of p 0 ?as ?cs fl] 1 2
    by (auto simp: flags_grow_def Let_def)
qed simp

lemma compare_ingress_status_Nil_iff:
  "fst (compare_ingress_status (chronological_by_role h) ps fl) = [] \<longleftrightarrow>
     (\<forall>p \<in> set ps. equal_fold p ''http'' \<longrightarrow> status_conforms h p)"
proof (induction ps arbitrary: fl)
  case (Cons p ps)
  let ?as = "ingress_of h p ControlA" and ?cs = "ingress_of h p Candidate"
  obtain s1 f1 where 1: "ingress_status_steps p 0 ?as ?cs fl = (s1, f1)" by fastforce
  obtain s2 f2 where 2: "compare_ingress_status (chronological_by_role h) ps f1 = (s2, f2)" by fastforce
  have "s1 = [] \<longleftrightarrow> status_conforms h p"
    using ingress_status_steps_Nil_iff [of p 0 ?as ?cs fl] 1 by (simp add: status_conforms_def)
  then show ?case
    using Cons.IH [of fl] Cons.IH [of f1] 1 2 by (simp add: Let_def ingress_of_def)
qed simp

lemma payload_at_tl: "payload_at (tl bs) i = payload_at bs (Suc i)"
  by (cases bs) (auto simp: payload_at_def)

lemma payload_at_0: "payload_at bs 0 = head_payload bs"
  by (cases bs) (auto simp: payload_at_def head_payload_def)

lemma payload_at_Cons [simp]: "payload_at (a # as) (Suc i) = payload_at as i"
  by (simp add: payload_at_def)

lemma payload_steps_kind: "x \<in> set (payload_steps p sig i ls) \<Longrightarrow> s_kind x = FlagMismatchPayload"
  by (auto simp: payload_steps_def split: if_splits)

lemma payload_steps_nonempty [simp]: "payload_steps p sig i ls \<noteq> []"
  by (simp add: payload_steps_def)

lemma payload_steps_kinds: "s_kind ` set (payload_steps p sig i ls) = {FlagMismatchPayload}"
  by (cases ls) (auto simp: payload_steps_def image_image)

lemma compare_pairs_flags: "flags_grow (compare_pairs p sig noise i as bs cs fl) fl"
  by (induction p sig noise i as bs cs fl rule: compare_pairs.induct)
     (auto simp: flags_grow_def Let_def payload_steps_kinds image_Un split: prod.splits)

lemma all_less_Suc_shift: "(\<forall>i < Suc n. P i) \<longleftrightarrow> P 0 \<and> (\<forall>i < n. P (Suc i))"
  using less_Suc_eq_0_disj by auto

lemma compare_pairs_Nil_iff:
  "fst (compare_pairs p sig noise i as bs cs fl) = [] \<longleftrightarrow>
     (\<forall>j < min (length as) (length cs).
        pair_ok p noise (payload_at as j) (payload_at bs j) (payload_at cs j))"
proof (induction p sig noise i as bs cs fl rule: compare_pairs.induct)
  case (1 p sig noise i a as bs c cs fl)
  obtain ls rg where reg: "payload_regressions (r_payload a) (head_payload bs) (r_payload c) noise = (ls, rg)"
    by fastforce
  have head: "pair_ok p noise (payload_at (a # as) 0) (payload_at bs 0) (payload_at (c # cs) 0) \<longleftrightarrow>
      payloads_equal p (r_payload a) (r_payload c) \<or> \<not> rg"
    using reg by (simp add: pair_ok_def payload_at_0 head_payload_def)
  have "min (length (a # as)) (length (c # cs)) = Suc (min (length as) (length cs))" by simp
  then show ?case
    using 1 reg head by (auto simp: all_less_Suc_shift payload_at_tl Let_def split: prod.splits)
qed auto

lemma compare_signature_flags: "flags_grow (compare_signature p sig as bs cs fl noise) fl"
proof -
  have pairs: "flags_grow (compare_pairs p sig noise 0 as bs cs fl') fl'" for fl'
    by (rule compare_pairs_flags)
  obtain s1 f1 where 1: "compare_pairs p sig noise 0 as bs cs fl = (s1, f1)" by fastforce
  obtain s2 f2 where 2: "compare_pairs p sig noise 0 as bs cs (List.insert FlagMismatchCount fl) = (s2, f2)"
    by fastforce
  show ?thesis
    using pairs [of fl] pairs [of "List.insert FlagMismatchCount fl"] 1 2
    by (auto simp: compare_signature_def count_step_def flags_grow_def Let_def)
qed

lemma compare_signature_Nil_iff:
  "fst (compare_signature p sig as bs cs fl noise) = [] \<longleftrightarrow>
     length as = length cs \<and>
     (\<forall>j < length as. pair_ok p noise (payload_at as j) (payload_at bs j) (payload_at cs j))"
  using compare_pairs_Nil_iff [of p sig noise 0 as bs cs fl]
  by (auto simp: compare_signature_def Let_def split: prod.splits)

lemma compare_signatures_flags: "flags_grow (compare_signatures p rm noise sigs fl) fl"
proof (induction p rm noise sigs fl rule: compare_signatures.induct)
  case (2 p rm noise sig sigs fl)
  let ?c = "compare_signature p sig (go_get [] (go_get [] rm ControlA) sig)
              (go_get [] (go_get [] rm ControlB) sig) (go_get [] (go_get [] rm Candidate) sig) fl noise"
  obtain s1 f1 where 1: "?c = (s1, f1)" by fastforce
  obtain s2 f2 where 2: "compare_signatures p rm noise sigs f1 = (s2, f2)" by fastforce
  have "flags_grow ?c fl" by (rule compare_signature_flags)
  then show ?case
    using "2.IH" [OF 1 [symmetric] refl] 1 2 by (auto simp: flags_grow_def)
qed simp

lemma compare_signatures_Nil_iff:
  "fst (compare_signatures p (go_get [] (group_history h) p) noise sigs fl) = [] \<longleftrightarrow>
     (\<forall>sig \<in> set sigs. bucket_conforms noise h p sig)"
proof (induction sigs arbitrary: fl)
  case (Cons sig sigs)
  let ?c = "compare_signature p sig (bucket_of h p ControlA sig) (bucket_of h p ControlB sig)
              (bucket_of h p Candidate sig) fl noise"
  obtain s1 f1 where 1: "?c = (s1, f1)" by fastforce
  obtain s2 f2 where 2: "compare_signatures p (go_get [] (group_history h) p) noise sigs f1 = (s2, f2)"
    by fastforce
  have "s1 = [] \<longleftrightarrow> bucket_conforms noise h p sig"
    using compare_signature_Nil_iff [of p sig "bucket_of h p ControlA sig" "bucket_of h p ControlB sig"
        "bucket_of h p Candidate sig" fl noise] 1
    by (simp add: bucket_conforms_def Let_def)
  then show ?case using Cons.IH [of f1] 1 2 by simp
qed simp

lemma compare_protocols_flags: "flags_grow (compare_protocols g noise ps fl) fl"
proof (induction g noise ps fl rule: compare_protocols.induct)
  case (2 g noise p ps fl)
  let ?rm = "go_get [] g p"
  let ?sigs = "union_signatures (go_get [] ?rm ControlA) (go_get [] ?rm Candidate)"
  obtain s1 f1 where 1: "compare_signatures p ?rm noise ?sigs fl = (s1, f1)" by fastforce
  obtain s2 f2 where 2: "compare_protocols g noise ps f1 = (s2, f2)" by fastforce
  have "flags_grow (compare_signatures p ?rm noise ?sigs fl) fl" by (rule compare_signatures_flags)
  then show ?case
    using "2.IH" [OF refl 1 [symmetric] refl] 1 2 by (auto simp: flags_grow_def Let_def)
qed simp

lemma bucket_conforms_outside:
  "sig \<notin> r_signature ` set (role_reports h p ControlA) \<union> r_signature ` set (role_reports h p Candidate)
     \<Longrightarrow> bucket_conforms noise h p sig"
  by (simp add: bucket_conforms_def bucket_of_empty_iff [THEN iffD2])

lemma compare_protocols_Nil_iff:
  "fst (compare_protocols (group_history h) noise ps fl) = [] \<longleftrightarrow>
     (\<forall>p \<in> set ps. \<forall>sig. bucket_conforms noise h p sig)"
proof (induction ps arbitrary: fl)
  case (Cons p ps)
  let ?rm = "go_get [] (group_history h) p"
  let ?sigs = "union_signatures (go_get [] ?rm ControlA) (go_get [] ?rm Candidate)"
  obtain s1 f1 where 1: "compare_signatures p ?rm noise ?sigs fl = (s1, f1)" by fastforce
  obtain s2 f2 where 2: "compare_protocols (group_history h) noise ps f1 = (s2, f2)" by fastforce
  have "s1 = [] \<longleftrightarrow> (\<forall>sig \<in> set ?sigs. bucket_conforms noise h p sig)"
    using compare_signatures_Nil_iff [of p h noise ?sigs fl] 1 by simp
  also have "\<dots> \<longleftrightarrow> (\<forall>sig. bucket_conforms noise h p sig)"
    using bucket_conforms_outside [of _ h p noise] by auto
  finally show ?case using Cons.IH [of f1] 1 2 by (simp add: Let_def)
qed simp

section \<open>The verdict on a complete history\<close>

lemma candidate_conforms_iff:
  "candidate_conforms noise h \<longleftrightarrow>
     (\<forall>p \<in> r_protocol ` set h. (equal_fold p ''http'' \<longrightarrow> status_conforms h p) \<and>
        (\<forall>sig. bucket_conforms noise h p sig))"
proof -
  have "bucket_conforms noise h p sig" if "sig \<notin> r_signature ` set h" for p sig
    using bucket_of_outside [OF that] by (simp add: bucket_conforms_def)
  then show ?thesis unfolding candidate_conforms_def by blast
qed

definition candidate_steps ::
  "(string list \<Rightarrow> string list) \<Rightarrow> string list \<Rightarrow> raw_report list \<Rightarrow> step_acc" where
  "candidate_steps io noise h =
     (let chron = chronological_by_role h;
          (steps1, flags1) = compare_ingress_status chron (io (map fst chron)) [];
          (steps2, flagSet) = compare_protocols (group_history h) noise (sorted_keys (group_history h)) flags1
      in (steps1 @ steps2, flagSet))"

lemma evaluate_complete_eq:
  "evaluate_complete io1 io2 now h noise =
     (case verify_baseline io1 (group_history h) (chronological_by_role h) of
        Some f \<Rightarrow>
          (base_verdict now)
            \<lparr>v_status := StatusVoidedBaselineDivergence,
             v_summary_details := must_json (empty_details\<lparr>d_baseline := Some f\<rparr>)\<rparr>
      | None \<Rightarrow>
          (case candidate_steps io2 noise h of (steps, flagSet) \<Rightarrow>
             if steps = [] then base_verdict now
             else (base_verdict now)
                    \<lparr>v_status := StatusMismatch, v_flags := sort flagSet,
                     v_has_count_regression :=
                       FlagMismatchCount \<in> set flagSet \<or> FlagMismatchSignature \<in> set flagSet,
                     v_summary_details :=
                       must_json (empty_details\<lparr>d_flags := sort flagSet, d_steps := steps\<rparr>)\<rparr>))"
  by (simp add: evaluate_complete_def candidate_steps_def Let_def split: option.split prod.split)

lemma candidate_steps_Nil_iff:
  assumes "permutes_keys io"
  shows "fst (candidate_steps io noise h) = [] \<longleftrightarrow> candidate_conforms noise h"
proof -
  let ?chron = "chronological_by_role h" and ?g = "group_history h"
  obtain s1 f1 where 1: "compare_ingress_status ?chron (io (map fst ?chron)) [] = (s1, f1)" by fastforce
  obtain s2 f2 where 2: "compare_protocols ?g noise (sorted_keys ?g) f1 = (s2, f2)" by fastforce
  have "s1 = [] \<longleftrightarrow> (\<forall>p \<in> r_protocol ` set h. equal_fold p ''http'' \<longrightarrow> status_conforms h p)"
    using compare_ingress_status_Nil_iff [of h "io (map fst ?chron)" "[]"] 1
    by (simp add: permutes_keys_set [OF assms])
  moreover have "s2 = [] \<longleftrightarrow> (\<forall>p \<in> r_protocol ` set h. \<forall>sig. bucket_conforms noise h p sig)"
    using compare_protocols_Nil_iff [of h noise "sorted_keys ?g" f1] 2 by simp
  ultimately show ?thesis
    unfolding candidate_conforms_iff using 1 2 by (auto simp: candidate_steps_def Let_def)
qed

lemma candidate_steps_flags:
  "set (snd (candidate_steps io noise h)) = s_kind ` set (fst (candidate_steps io noise h))"
proof -
  let ?chron = "chronological_by_role h" and ?g = "group_history h"
  obtain s1 f1 where 1: "compare_ingress_status ?chron (io (map fst ?chron)) [] = (s1, f1)" by fastforce
  obtain s2 f2 where 2: "compare_protocols ?g noise (sorted_keys ?g) f1 = (s2, f2)" by fastforce
  show ?thesis
    using compare_ingress_status_flags [of ?chron "io (map fst ?chron)" "[]"]
      compare_protocols_flags [of ?g noise "sorted_keys ?g" f1] 1 2
    by (auto simp: candidate_steps_def flags_grow_def Let_def)
qed

lemma evaluate_complete_status:
  assumes "permutes_keys io1" "permutes_keys io2"
  shows "v_status (evaluate_complete io1 io2 now h noise) =
     (if \<not> baseline_agrees h then StatusVoidedBaselineDivergence
      else if candidate_conforms noise h then StatusMatch else StatusMismatch)"
  using verify_baseline_None_iff [OF assms(1), of h] candidate_steps_Nil_iff [OF assms(2), of noise h]
  by (auto simp: evaluate_complete_eq base_verdict_def split: option.split prod.split)

lemma evaluate_complete_history:
  "complete h \<Longrightarrow> evaluate_trace_history io1 io2 clock h noise opts =
     Some (evaluate_complete io1 io2 (if o_now opts = 0 then clock else o_now opts) h noise)"
  using missing_roles_Nil_iff [of h] complete_nonempty [of h]
  by (simp add: evaluate_trace_history_def Let_def)

end
