(* ===== verification/BeruDiffProps.thy ===== *)
theory BeruDiffProps
  imports BeruDiffSpec
begin

text \<open>
  The properties of the diff engine: the verdict refines its specification, does not depend on
  Go's map iteration order, waits for roles exactly within the timeout, counts regressions
  exactly, raises no alarm on an identical candidate, and is monotone in the noise filters.
\<close>

section \<open>Steps do not depend on the flags collected before\<close>

lemma ingress_status_steps_indep:
  "fst (ingress_status_steps p i as cs fl) = fst (ingress_status_steps p i as cs fl')"
proof (induction p i as cs fl arbitrary: fl' rule: ingress_status_steps.induct)
  case (1 p i a as c cs fl)
  show ?case
  proof (cases "r_status_code a = r_status_code c")
    case True
    with "1.IH"(1) show ?thesis by simp
  next
    case False
    from "1.IH"(2) [OF False, of "List.insert FlagMismatchPayload fl'"] False
    show ?thesis by (simp add: Let_def case_prod_beta)
  qed
qed auto

text \<open>The loop over pairs, one iteration unfolded, and induction over both buckets.\<close>

lemma compare_pairs_Cons:
  "compare_pairs p sig noise i (a # as) bs (c # cs) fl =
     (let pr = payload_regressions (r_payload a) (head_payload bs) (r_payload c) noise;
          rest = compare_pairs p sig noise (Suc i) as (tl bs) cs
      in if payloads_equal p (r_payload a) (r_payload c) \<or> \<not> snd pr then rest fl
         else (payload_steps p sig i (fst pr) @ fst (rest (List.insert FlagMismatchPayload fl)),
               snd (rest (List.insert FlagMismatchPayload fl))))"
  by (simp add: Let_def case_prod_beta)

declare compare_pairs.simps(1) [simp del]

lemma compare_pairs_indep:
  "fst (compare_pairs p sig noise i as bs cs fl) = fst (compare_pairs p sig noise i as bs cs fl')"
proof (induction as arbitrary: i bs cs fl fl')
  case (Cons a as)
  show ?case
  proof (cases cs)
    case (Cons c cs')
    show ?thesis
      using Cons.IH [of "Suc i" "tl bs" cs' fl fl']
        Cons.IH [of "Suc i" "tl bs" cs' "List.insert FlagMismatchPayload fl" "List.insert FlagMismatchPayload fl'"]
      by (simp add: Cons compare_pairs_Cons Let_def)
  qed simp
qed simp

lemma compare_signature_indep:
  "fst (compare_signature p sig as bs cs fl noise) = fst (compare_signature p sig as bs cs fl' noise)"
  using compare_pairs_indep [of p sig noise 0 as bs cs]
  by (simp add: compare_signature_def Let_def case_prod_beta)

lemma compare_signatures_indep:
  "fst (compare_signatures p rm noise sigs fl) = fst (compare_signatures p rm noise sigs fl')"
proof (induction sigs arbitrary: fl fl')
  case (Cons sig sigs)
  show ?case
    using Cons.IH compare_signature_indep [of p sig]
    by (simp add: Let_def case_prod_beta) metis
qed simp

lemma compare_protocols_indep:
  "fst (compare_protocols g noise ps fl) = fst (compare_protocols g noise ps fl')"
proof (induction ps arbitrary: fl fl')
  case (Cons p ps)
  show ?case
    using Cons.IH compare_signatures_indep [of p]
    by (simp add: Let_def case_prod_beta) metis
qed simp

section \<open>The flag set has no repetition\<close>

lemma ingress_status_steps_distinct:
  "distinct fl \<Longrightarrow> distinct (snd (ingress_status_steps p i as cs fl))"
  by (induction p i as cs fl rule: ingress_status_steps.induct) (auto simp: Let_def case_prod_beta)

lemma compare_ingress_status_distinct:
  "distinct fl \<Longrightarrow> distinct (snd (compare_ingress_status chron ps fl))"
proof (induction ps arbitrary: fl)
  case (Cons p ps)
  then show ?case
    by (simp add: Let_def case_prod_beta ingress_status_steps_distinct)
qed simp

lemma compare_pairs_distinct:
  "distinct fl \<Longrightarrow> distinct (snd (compare_pairs p sig noise i as bs cs fl))"
proof (induction as arbitrary: i bs cs fl)
  case (Cons a as)
  then show ?case by (cases cs) (simp_all add: compare_pairs_Cons Let_def)
qed simp

lemma compare_signature_distinct:
  "distinct fl \<Longrightarrow> distinct (snd (compare_signature p sig as bs cs fl noise))"
  by (simp add: compare_signature_def Let_def case_prod_beta compare_pairs_distinct)

lemma compare_signatures_distinct:
  "distinct fl \<Longrightarrow> distinct (snd (compare_signatures p rm noise sigs fl))"
  by (induction sigs arbitrary: fl) (simp_all add: Let_def case_prod_beta compare_signature_distinct)

lemma compare_protocols_distinct:
  "distinct fl \<Longrightarrow> distinct (snd (compare_protocols g noise ps fl))"
  by (induction ps arbitrary: fl) (simp_all add: Let_def case_prod_beta compare_signatures_distinct)

lemma candidate_steps_distinct: "distinct (snd (candidate_steps io noise h))"
  by (simp add: candidate_steps_def Let_def case_prod_beta compare_protocols_distinct
      compare_ingress_status_distinct)

section \<open>Kinds of the steps\<close>

lemma ingress_status_steps_kinds:
  "x \<in> set (fst (ingress_status_steps p i as cs fl)) \<Longrightarrow> s_kind x = FlagMismatchPayload"
  by (induction p i as cs fl rule: ingress_status_steps.induct)
     (auto simp: Let_def case_prod_beta split: if_splits)

lemma compare_ingress_status_kinds:
  "x \<in> set (fst (compare_ingress_status chron ps fl)) \<Longrightarrow> s_kind x = FlagMismatchPayload"
  by (induction ps arbitrary: fl)
     (auto simp: Let_def case_prod_beta split: if_splits dest: ingress_status_steps_kinds)

lemma compare_pairs_kinds:
  "x \<in> set (fst (compare_pairs p sig noise i as bs cs fl)) \<Longrightarrow> s_kind x = FlagMismatchPayload"
proof (induction as arbitrary: i bs cs fl)
  case (Cons a as)
  then show ?case
    by (cases cs) (auto simp: compare_pairs_Cons Let_def payload_steps_kind split: if_splits)
qed simp

definition count_kind :: "verdict_step \<Rightarrow> bool" where
  "count_kind x \<longleftrightarrow> s_kind x = FlagMismatchCount \<or> s_kind x = FlagMismatchSignature"

lemma compare_signature_count_kind:
  "(\<exists>x \<in> set (fst (compare_signature p sig as bs cs fl noise)). count_kind x) \<longleftrightarrow> length as \<noteq> length cs"
  by (auto simp: compare_signature_def Let_def case_prod_beta count_kind_def count_step_def
      dest: compare_pairs_kinds)

lemma compare_signatures_count_kind:
  "(\<exists>x \<in> set (fst (compare_signatures p (go_get [] (group_history h) p) noise sigs fl)). count_kind x) \<longleftrightarrow>
     (\<exists>sig \<in> set sigs. length (bucket_of h p ControlA sig) \<noteq> length (bucket_of h p Candidate sig))"
proof (induction sigs arbitrary: fl)
  case (Cons sig sigs)
  then show ?case
    by (simp add: Let_def case_prod_beta bex_Un compare_signature_count_kind)
qed simp

lemma compare_protocols_count_kind:
  "(\<exists>x \<in> set (fst (compare_protocols (group_history h) noise ps fl)). count_kind x) \<longleftrightarrow>
     (\<exists>p \<in> set ps. \<exists>sig. length (bucket_of h p ControlA sig) \<noteq> length (bucket_of h p Candidate sig))"
proof (induction ps arbitrary: fl)
  case (Cons p ps)
  let ?sigs = "union_signatures (go_get [] (go_get [] (group_history h) p) ControlA)
                 (go_get [] (go_get [] (group_history h) p) Candidate)"
  have "(\<exists>sig \<in> set ?sigs. length (bucket_of h p ControlA sig) \<noteq> length (bucket_of h p Candidate sig)) \<longleftrightarrow>
        (\<exists>sig. length (bucket_of h p ControlA sig) \<noteq> length (bucket_of h p Candidate sig))"
    by (metis UnCI bucket_of_empty_iff group_history_signatures list.size(3) set_union_signatures)
  then show ?case
    using Cons.IH by (simp add: Let_def case_prod_beta bex_Un compare_signatures_count_kind)
qed simp

lemma count_kind_image:
  "(\<exists>x \<in> S. count_kind x) \<longleftrightarrow> FlagMismatchCount \<in> s_kind ` S \<or> FlagMismatchSignature \<in> s_kind ` S"
  unfolding count_kind_def image_iff by metis

text \<open>The kinds of all steps do not depend on the iteration order.\<close>

lemma candidate_steps_kinds:
  assumes "permutes_keys io"
  shows "s_kind ` set (fst (candidate_steps io noise h)) =
     (if \<exists>p \<in> r_protocol ` set h. equal_fold p ''http'' \<and> \<not> status_conforms h p
      then {FlagMismatchPayload} else {}) \<union>
     s_kind ` set (fst (compare_protocols (group_history h) noise (sorted_keys (group_history h)) []))"
proof -
  let ?chron = "chronological_by_role h" and ?g = "group_history h"
  let ?s1 = "fst (compare_ingress_status ?chron (io (map fst ?chron)) [])"
  have nil: "?s1 = [] \<longleftrightarrow> (\<forall>p \<in> r_protocol ` set h. equal_fold p ''http'' \<longrightarrow> status_conforms h p)"
    by (simp add: compare_ingress_status_Nil_iff permutes_keys_set [OF assms])
  have "s_kind ` set ?s1 = (if ?s1 = [] then {} else {FlagMismatchPayload})"
    using compare_ingress_status_kinds [of _ ?chron "io (map fst ?chron)" "[]"]
    by (cases ?s1) auto
  then have "s_kind ` set ?s1 =
      (if \<exists>p \<in> r_protocol ` set h. equal_fold p ''http'' \<and> \<not> status_conforms h p
       then {FlagMismatchPayload} else {})"
    using nil by auto
  moreover have "fst (candidate_steps io noise h) = ?s1 @
      fst (compare_protocols ?g noise (sorted_keys ?g) [])"
    using compare_protocols_indep [of ?g noise "sorted_keys ?g" _ "[]"]
    by (simp add: candidate_steps_def Let_def case_prod_beta)
  ultimately show ?thesis by (simp add: image_Un)
qed

lemma candidate_flags_order_free:
  assumes "permutes_keys io" "permutes_keys io'"
  shows "sort (snd (candidate_steps io noise h)) = sort (snd (candidate_steps io' noise h))"
proof -
  have "set (snd (candidate_steps io noise h)) = set (snd (candidate_steps io' noise h))"
    by (simp only: candidate_steps_flags candidate_steps_kinds [OF assms(1)] candidate_steps_kinds [OF assms(2)])
  then show ?thesis
    by (metis candidate_steps_distinct distinct_sort set_sort sorted_distinct_set_unique sorted_sort)
qed

section \<open>Noise\<close>

lemma pair_ok_mono:
  assumes "set noise \<subseteq> set noise'" "pair_ok p noise aP bP cP"
  shows "pair_ok p noise' aP bP cP"
proof -
  have "\<not> snd (payload_regressions aP bP cP noise')" if nr: "\<not> snd (payload_regressions aP bP cP noise)"
  proof (cases "json_noise_paths aP bP")
    case None
    with nr show ?thesis by (auto simp: payload_regressions_def split: if_splits)
  next
    case (Some ab)
    show ?thesis
    proof (cases "compare_json aP cP")
      case None
      with nr Some show ?thesis by (simp add: payload_regressions_def json_regressions_def)
    next
      case (Some ds)
      have "filter (\<lambda>p. p \<notin> set (merge_noise ab noise)) ds = []"
        using nr \<open>json_noise_paths aP bP = Some ab\<close> Some
        by (simp add: payload_regressions_def json_regressions_def split: if_splits)
      then have "filter (\<lambda>p. p \<notin> set (merge_noise ab noise')) ds = []"
        using assms(1) by (auto simp: merge_noise_def filter_empty_conv)
      then show ?thesis
        using \<open>json_noise_paths aP bP = Some ab\<close> Some
        by (simp add: payload_regressions_def json_regressions_def)
    qed
  qed
  with assms(2) show ?thesis by (auto simp: pair_ok_def)
qed

lemma bucket_conforms_mono:
  "set noise \<subseteq> set noise' \<Longrightarrow> bucket_conforms noise h p sig \<Longrightarrow> bucket_conforms noise' h p sig"
  unfolding bucket_conforms_def Let_def using pair_ok_mono by blast

lemma candidate_conforms_mono:
  "set noise \<subseteq> set noise' \<Longrightarrow> candidate_conforms noise h \<Longrightarrow> candidate_conforms noise' h"
  unfolding candidate_conforms_def using bucket_conforms_mono by blast

lemma payload_regressions_labels:
  assumes "payload_regressions aP bP cP noise = (ls, rg)"
  shows "set ls \<inter> set noise = {}" and "distinct ls"
  using assms
  by (auto simp: payload_regressions_def json_regressions_def merge_noise_def
      split: option.splits if_splits)

lemma payload_steps_noise_path:
  "x \<in> set (payload_steps p sig i ls) \<Longrightarrow> s_noise_path x \<in> set ls \<or> s_noise_path x = []"
  by (auto simp: payload_steps_def split: if_splits)

lemma compare_pairs_noise_path:
  "x \<in> set (fst (compare_pairs p sig noise i as bs cs fl)) \<Longrightarrow>
     s_noise_path x \<notin> set noise \<or> s_noise_path x = []"
proof (induction as arbitrary: i bs cs fl)
  case (Cons a as)
  show ?case
  proof (cases cs)
    case (Cons c cs')
    let ?pr = "payload_regressions (r_payload a) (head_payload bs) (r_payload c) noise"
    have "s_noise_path x \<notin> set noise \<or> s_noise_path x = []"
      if "x \<in> set (payload_steps p sig i (fst ?pr))"
      using payload_steps_noise_path [OF that]
        payload_regressions_labels(1) [of "r_payload a" "head_payload bs" "r_payload c" noise "fst ?pr" "snd ?pr"]
      by auto
    then show ?thesis
      using Cons.prems Cons.IH [of "Suc i" "tl bs" cs'] Cons
      by (auto simp: compare_pairs_Cons Let_def split: if_splits)
  qed (use Cons.prems in simp)
qed simp

lemma compare_signature_noise_path:
  "x \<in> set (fst (compare_signature p sig as bs cs fl noise)) \<Longrightarrow>
     s_noise_path x \<notin> set noise \<or> s_noise_path x = []"
  by (auto simp: compare_signature_def Let_def case_prod_beta count_step_def
      dest!: compare_pairs_noise_path split: if_splits)

lemma compare_signatures_noise_path:
  "x \<in> set (fst (compare_signatures p rm noise sigs fl)) \<Longrightarrow>
     s_noise_path x \<notin> set noise \<or> s_noise_path x = []"
  by (induction sigs arbitrary: fl)
     (auto simp: Let_def case_prod_beta dest!: compare_signature_noise_path)

section \<open>Mongo payloads\<close>

lemma mongo_payloads_equal_iff:
  "mongo_payloads_equal a b \<longleftrightarrow>
     a = b \<or> (\<exists>s. strip_mongo_metadata_fields a = Some s \<and> strip_mongo_metadata_fields b = Some s)"
  by (auto simp: mongo_payloads_equal_def split: option.splits)

lemma payloads_equal_refl [simp]: "payloads_equal p a a"
  by (simp add: payloads_equal_def mongo_payloads_equal_iff)

lemma identical_conforms:
  assumes "\<And>p sig. map r_payload (bucket_of h p Candidate sig) = map r_payload (bucket_of h p ControlA sig)"
    and "\<And>p. map r_status_code (ingress_of h p Candidate) = map r_status_code (ingress_of h p ControlA)"
  shows "candidate_conforms noise h"
proof -
  have "status_conforms h p" for p
  proof -
    have "length (ingress_of h p ControlA) = length (ingress_of h p Candidate)"
      using assms(2) [of p] by (metis length_map)
    then show ?thesis
      unfolding status_conforms_def using zip_all_eq_iff_map assms(2) by metis
  qed
  moreover have "bucket_conforms noise h p sig" for p sig
  proof -
    let ?a = "bucket_of h p ControlA sig" and ?c = "bucket_of h p Candidate sig"
    have len: "length ?a = length ?c" using assms(1) [of p sig] by (metis length_map)
    have "payload_at ?a i = payload_at ?c i" if "i < length ?a" for i
      using assms(1) [of p sig] that len by (metis nth_map payload_at_def)
    then show ?thesis using len by (simp add: bucket_conforms_def pair_ok_def)
  qed
  ultimately show ?thesis by (simp add: candidate_conforms_def)
qed

section \<open>Properties\<close>

text \<open>Example histories for the witnesses.\<close>

definition mk_report :: "string \<Rightarrow> string \<Rightarrow> string \<Rightarrow> string \<Rightarrow> string \<Rightarrow> bytes \<Rightarrow> int \<Rightarrow> raw_report" where
  "mk_report role protocol dir sig status payload t =
     \<lparr>r_trace_id = ''t1'', r_shadow_role = role, r_shadow_test_name = ''demo'',
      r_protocol = protocol, r_direction = dir, r_signature = sig, r_status_code = status,
      r_payload = payload, r_captured_at = t, r_ingest_id = of_int t\<rparr>"

definition ex_good :: "raw_report list" where
  "ex_good =
     [mk_report ControlA ''http'' DirectionIngress ''http:GET:/'' ''200'' ''x'' 1,
      mk_report ControlB ''http'' DirectionIngress ''http:GET:/'' ''200'' ''x'' 2,
      mk_report Candidate ''http'' DirectionIngress ''http:GET:/'' ''200'' ''x'' 3,
      mk_report ControlA ''redis'' DirectionEgress ''redis:get:k'' [] ''q'' 4,
      mk_report ControlB ''redis'' DirectionEgress ''redis:get:k'' [] ''q'' 5,
      mk_report Candidate ''redis'' DirectionEgress ''redis:get:k'' [] ''q'' 6]"

definition ex_partial :: "raw_report list" where
  "ex_partial = take 2 ex_good"

lemmas ex_simps = ex_good_def ex_partial_def mk_report_def

lemma permutes_keys_id [simp]: "permutes_keys (\<lambda>ks. ks)"
  by (simp add: permutes_keys_def)

lemma permutes_keys_rev [simp]: "permutes_keys rev"
  by (simp add: permutes_keys_def)

lemma complete_ex_good [simp]: "complete ex_good"
  by (simp add: complete_def all_roles_def ex_simps)

lemma baseline_agrees_ex_good: "baseline_agrees ex_good"
  by (simp add: baseline_agrees_def ex_simps ingress_of_def role_reports_def
      filter_direction_def effective_direction_def bucket_of_def count_egress_def
      ControlA_def ControlB_def Candidate_def DirectionIngress_def DirectionEgress_def)

lemma ex_good_identical:
  "map r_payload (bucket_of ex_good p Candidate sig) = map r_payload (bucket_of ex_good p ControlA sig)"
  "map r_status_code (ingress_of ex_good p Candidate) = map r_status_code (ingress_of ex_good p ControlA)"
  by (simp_all add: bucket_of_def ingress_of_def role_reports_def filter_direction_def ex_simps
      effective_direction_def ControlA_def ControlB_def Candidate_def DirectionIngress_def
      DirectionEgress_def)

text \<open>
  C1: On a complete history, \<^verbatim>\<open>EvaluateTraceHistory\<close> returns a verdict, and its status is
  voided exactly when the controls disagree, a match exactly when they agree and the candidate
  conforms to control-a up to noise, and a mismatch otherwise, whatever order Go's maps are
  iterated in.
\<close>

theorem verdict_refines_spec:
  assumes "complete h" and "permutes_keys io1" and "permutes_keys io2"
  shows "\<exists>v. evaluate_trace_history io1 io2 clock h noise opts = Some v \<and>
     v_status v =
       (if \<not> baseline_agrees h then StatusVoidedBaselineDivergence
        else if candidate_conforms noise h then StatusMatch else StatusMismatch)"
  using evaluate_complete_history [OF assms(1)] evaluate_complete_status [OF assms(2,3)] by simp

theorem verdict_refines_spec_witness:
  "complete ex_good \<and> permutes_keys rev \<and>
   (\<exists>v. evaluate_trace_history rev rev 0 ex_good [] \<lparr>o_timeout = 0, o_now = 7\<rparr> = Some v \<and>
     v_status v =
       (if \<not> baseline_agrees ex_good then StatusVoidedBaselineDivergence
        else if candidate_conforms [] ex_good then StatusMatch else StatusMismatch))"
  using verdict_refines_spec [of ex_good rev rev 0 "[]" "\<lparr>o_timeout = 0, o_now = 7\<rparr>"] by simp

text \<open>
  C2: Go's unspecified map iteration order decides neither whether there is a verdict nor its
  status, flags, regression bit or time stamp (it may pick which baseline failure or step is
  listed first).
\<close>

theorem verdict_order_free:
  assumes "permutes_keys io1" "permutes_keys io2" "permutes_keys io1'" "permutes_keys io2'"
  shows "map_option (\<lambda>v. (v_status v, v_flags v, v_has_count_regression v, v_updated_at v))
           (evaluate_trace_history io1 io2 clock h noise opts)
       = map_option (\<lambda>v. (v_status v, v_flags v, v_has_count_regression v, v_updated_at v))
           (evaluate_trace_history io1' io2' clock h noise opts)"
proof (cases "complete h")
  case True
  have base: "verify_baseline io1 (group_history h) (chronological_by_role h) = None \<longleftrightarrow>
      verify_baseline io1' (group_history h) (chronological_by_role h) = None"
    by (simp add: verify_baseline_None_iff assms)
  have nil: "fst (candidate_steps io2 noise h) = [] \<longleftrightarrow> fst (candidate_steps io2' noise h) = []"
    by (simp add: candidate_steps_Nil_iff assms)
  have flags: "sort (snd (candidate_steps io2 noise h)) = sort (snd (candidate_steps io2' noise h))"
    by (rule candidate_flags_order_free [OF assms(2,4)])
  then have "set (snd (candidate_steps io2 noise h)) = set (snd (candidate_steps io2' noise h))"
    by (metis set_sort)
  with base nil flags show ?thesis
    by (auto simp: evaluate_complete_history [OF True] evaluate_complete_eq base_verdict_def
        case_prod_beta split: option.split)
next
  case False
  then show ?thesis
    using missing_roles_Nil_iff [of h] by (simp add: evaluate_trace_history_def Let_def)
qed

theorem verdict_order_free_witness:
  "permutes_keys rev \<and> permutes_keys (\<lambda>ks. ks) \<and>
   map_option v_status (evaluate_trace_history rev rev 0 ex_good [] \<lparr>o_timeout = 0, o_now = 7\<rparr>)
     = map_option v_status
         (evaluate_trace_history (\<lambda>ks. ks) (\<lambda>ks. ks) 0 ex_good [] \<lparr>o_timeout = 0, o_now = 7\<rparr>)"
  using verdict_order_free [of rev rev "\<lambda>ks. ks" "\<lambda>ks. ks" 0 ex_good "[]" "\<lparr>o_timeout = 0, o_now = 7\<rparr>"]
  by (cases "evaluate_trace_history rev rev 0 ex_good [] \<lparr>o_timeout = 0, o_now = 7\<rparr>";
      cases "evaluate_trace_history (\<lambda>ks. ks) (\<lambda>ks. ks) 0 ex_good [] \<lparr>o_timeout = 0, o_now = 7\<rparr>") simp_all

text \<open>
  C3: A history that lacks a role yields no verdict as long as fewer than the timeout (10 s
  when unset) has passed since its earliest report, and the verdict WAITING_FOR_ROLES, naming
  exactly the missing roles, from then on; a complete history never waits.
\<close>

theorem verdict_waiting:
  fixes opts :: eval_options
  defines "now clock \<equiv> (if o_now opts = 0 then clock else o_now opts)"
  defines "timeout \<equiv> (if o_timeout opts \<le> 0 then 10 * second else o_timeout opts)"
  assumes "o_timeout opts < 2 ^ 63" and "h \<noteq> []"
  shows "(evaluate_trace_history io1 io2 clock h noise opts = None \<longleftrightarrow>
           \<not> complete h \<and> now clock < Min (r_captured_at ` set h) + timeout) \<and>
         ((\<exists>v. evaluate_trace_history io1 io2 clock h noise opts = Some v \<and>
            v_status v = StatusWaitingForRoles \<and>
            v_summary_details v = must_json (empty_details\<lparr>d_missing :=
              filter (\<lambda>role. role \<notin> r_shadow_role ` set h) all_roles\<rparr>)) \<longleftrightarrow>
           \<not> complete h \<and> Min (r_captured_at ` set h) + timeout \<le> now clock)"
proof -
  have "timeout \<le> time_sub (now clock) (earliest_captured h) \<longleftrightarrow>
      earliest_captured h + timeout \<le> now clock"
    using assms(3) by (intro time_sub_ge_iff) (auto simp: timeout_def)
  then have le: "timeout \<le> time_sub (now clock) (earliest_captured h) \<longleftrightarrow>
      Min (r_captured_at ` set h) + timeout \<le> now clock"
    using earliest_captured_eq [OF assms(4)] by simp
  have eval: "evaluate_trace_history io1 io2 clock h noise opts =
     (if complete h then Some (evaluate_complete io1 io2 (now clock) h noise)
      else if timeout \<le> time_sub (now clock) (earliest_captured h) then
        Some ((base_verdict (now clock))\<lparr>v_status := StatusWaitingForRoles,
          v_summary_details := must_json (empty_details\<lparr>d_missing := missing_roles (roles_present h)\<rparr>)\<rparr>)
      else None)"
    using missing_roles_Nil_iff [of h] assms(4)
    by (auto simp: evaluate_trace_history_def now_def timeout_def defaultTraceTimeout_def Let_def)
  have none: "evaluate_trace_history io1 io2 clock h noise opts = None \<longleftrightarrow>
           \<not> complete h \<and> now clock < Min (r_captured_at ` set h) + timeout"
    unfolding eval le by auto
  have waits: "v_status (evaluate_complete io1 io2 (now clock) h noise) \<noteq> StatusWaitingForRoles"
    by (auto simp: evaluate_complete_eq base_verdict_def split: option.split prod.split)
  have missing: "missing_roles (roles_present h) = filter (\<lambda>role. role \<notin> r_shadow_role ` set h) all_roles"
    by (simp add: missing_roles_def all_roles_def)
  show ?thesis
    using none waits unfolding eval missing le by auto
qed

theorem verdict_waiting_witness:
  "evaluate_trace_history rev rev 0 ex_partial [] \<lparr>o_timeout = 0, o_now = 7\<rparr> = None"
  using verdict_waiting [of "\<lparr>o_timeout = 0, o_now = 7\<rparr>" ex_partial rev rev 0 "[]"]
  by (simp add: ex_simps complete_def all_roles_def)

text \<open>
  The count-regression bit of a verdict on a complete history whose controls agree is set
  exactly when some signature bucket of the candidate differs in size from control-a's.
\<close>

theorem verdict_count_regression:
  assumes "complete h" and "permutes_keys io1" and "permutes_keys io2" and "baseline_agrees h"
  shows "\<exists>v. evaluate_trace_history io1 io2 clock h noise opts = Some v \<and>
     (v_has_count_regression v \<longleftrightarrow>
        (\<exists>p \<in> r_protocol ` set h. \<exists>sig.
           length (bucket_of h p ControlA sig) \<noteq> length (bucket_of h p Candidate sig)))"
proof -
  let ?cs = "candidate_steps io2 noise h"
  let ?prot = "compare_protocols (group_history h) noise (sorted_keys (group_history h)) []"
  have none: "verify_baseline io1 (group_history h) (chronological_by_role h) = None"
    using verify_baseline_None_iff [OF assms(2)] assms(4) by simp
  have "FlagMismatchCount \<in> set (snd ?cs) \<or> FlagMismatchSignature \<in> set (snd ?cs) \<longleftrightarrow>
      (\<exists>x \<in> set (fst ?prot). count_kind x)"
    unfolding candidate_steps_flags candidate_steps_kinds [OF assms(3)] count_kind_image by auto
  also have "\<dots> \<longleftrightarrow> (\<exists>p \<in> r_protocol ` set h. \<exists>sig.
           length (bucket_of h p ControlA sig) \<noteq> length (bucket_of h p Candidate sig))"
    by (simp add: compare_protocols_count_kind)
  finally have flags: "FlagMismatchCount \<in> set (snd ?cs) \<or> FlagMismatchSignature \<in> set (snd ?cs) \<longleftrightarrow>
      (\<exists>p \<in> r_protocol ` set h. \<exists>sig.
           length (bucket_of h p ControlA sig) \<noteq> length (bucket_of h p Candidate sig))" .
  have "set (snd ?cs) = {}" if "fst ?cs = []"
    using candidate_steps_flags [of io2 noise h] that by simp
  then show ?thesis
    using none flags
    by (auto simp: evaluate_complete_history [OF assms(1)] evaluate_complete_eq base_verdict_def
        case_prod_beta)
qed

definition ex_extra :: "raw_report list" where
  "ex_extra = ex_good @ [mk_report Candidate ''redis'' DirectionEgress ''redis:get:k'' [] ''q'' 7]"

lemma baseline_agrees_ex_extra: "baseline_agrees ex_extra"
  by (simp add: baseline_agrees_def ex_extra_def ex_simps ingress_of_def role_reports_def
      filter_direction_def effective_direction_def bucket_of_def count_egress_def
      ControlA_def ControlB_def Candidate_def DirectionIngress_def DirectionEgress_def)

theorem verdict_count_regression_witness:
  "complete ex_extra \<and> baseline_agrees ex_extra \<and>
   (\<exists>v. evaluate_trace_history rev rev 0 ex_extra [] \<lparr>o_timeout = 0, o_now = 9\<rparr> = Some v \<and>
     v_has_count_regression v)"
proof -
  have c: "complete ex_extra" by (simp add: complete_def all_roles_def ex_extra_def ex_simps)
  have "length (bucket_of ex_extra ''redis'' ControlA ''redis:get:k'')
      \<noteq> length (bucket_of ex_extra ''redis'' Candidate ''redis:get:k'')"
    by (simp add: bucket_of_def ex_extra_def ex_simps)
  moreover have "''redis'' \<in> r_protocol ` set ex_extra"
    by (simp add: ex_extra_def ex_simps)
  ultimately show ?thesis
    using verdict_count_regression [OF c permutes_keys_rev permutes_keys_rev baseline_agrees_ex_extra,
        of 0 "[]" "\<lparr>o_timeout = 0, o_now = 9\<rparr>"] c baseline_agrees_ex_extra by blast
qed

text \<open>
  No false alarm: on a complete history whose controls agree, a candidate that sent the same
  payloads as control-a in every signature bucket and answered with the same status codes gets
  MATCH, however the reports of the roles are interleaved.
\<close>

theorem identical_candidate_matches:
  assumes "complete h" and "permutes_keys io1" and "permutes_keys io2" and "baseline_agrees h"
    and "\<And>p sig. map r_payload (bucket_of h p Candidate sig) = map r_payload (bucket_of h p ControlA sig)"
    and "\<And>p. map r_status_code (ingress_of h p Candidate) = map r_status_code (ingress_of h p ControlA)"
  shows "\<exists>v. evaluate_trace_history io1 io2 clock h noise opts = Some v \<and> v_status v = StatusMatch"
  using evaluate_complete_history [OF assms(1)] evaluate_complete_status [OF assms(2,3)] assms(4)
    identical_conforms [OF assms(5,6)] by simp

theorem identical_candidate_matches_witness:
  "\<exists>v. evaluate_trace_history rev rev 0 ex_good [] \<lparr>o_timeout = 0, o_now = 7\<rparr> = Some v \<and>
       v_status v = StatusMatch"
  by (rule identical_candidate_matches [OF complete_ex_good permutes_keys_rev permutes_keys_rev
        baseline_agrees_ex_good ex_good_identical])

text \<open>
  Noise filters only ever remove alarms: a complete history that is a MATCH stays a MATCH
  when the user adds noise paths.
\<close>

theorem noise_filters_monotone:
  assumes "complete h" and "permutes_keys io1" and "permutes_keys io2" and "set noise \<subseteq> set noise'"
    and "evaluate_trace_history io1 io2 clock h noise opts = Some v" and "v_status v = StatusMatch"
  shows "\<exists>v'. evaluate_trace_history io1 io2 clock h noise' opts = Some v' \<and> v_status v' = StatusMatch"
proof -
  from assms(5,6) evaluate_complete_history [OF assms(1)] evaluate_complete_status [OF assms(2,3)]
  have "baseline_agrees h" "candidate_conforms noise h" by (auto split: if_splits)
  with candidate_conforms_mono [OF assms(4)] show ?thesis
    using evaluate_complete_history [OF assms(1)] evaluate_complete_status [OF assms(2,3)] by simp
qed

theorem noise_filters_monotone_witness:
  "\<exists>v. evaluate_trace_history rev rev 0 ex_good [''ts''] \<lparr>o_timeout = 0, o_now = 7\<rparr> = Some v \<and>
       v_status v = StatusMatch"
proof -
  have "candidate_conforms [] ex_good" by (rule identical_conforms) (rule ex_good_identical)+
  then have "v_status (evaluate_complete rev rev 7 ex_good []) = StatusMatch"
    by (simp add: evaluate_complete_status baseline_agrees_ex_good)
  then show ?thesis
    using noise_filters_monotone [OF complete_ex_good permutes_keys_rev permutes_keys_rev,
        of "[]" "[''ts'']" 0 "\<lparr>o_timeout = 0, o_now = 7\<rparr>" "evaluate_complete rev rev 7 ex_good []"]
      evaluate_complete_history [OF complete_ex_good, of rev rev 0 "[]" "\<lparr>o_timeout = 0, o_now = 7\<rparr>"]
    by simp
qed

text \<open>
  A step of a payload mismatch that offers a path for filtering never offers one that the
  user filters already.
\<close>

theorem step_noise_paths:
  assumes "x \<in> set (fst (compare_protocols grouped noise ps flagSet))" and "s_noise_path x \<noteq> []"
  shows "s_noise_path x \<notin> set noise"
  using assms
proof (induction ps arbitrary: flagSet)
  case (Cons p ps)
  then show ?case
    by (auto simp: Let_def case_prod_beta dest!: compare_signatures_noise_path)
qed simp

definition ex_json :: "raw_report list" where
  \<open>ex_json =
     [mk_report ControlA ''redis'' DirectionEgress ''redis:set:k'' [] ''{"a":"x"}'' 1,
      mk_report ControlB ''redis'' DirectionEgress ''redis:set:k'' [] ''{"a":"x"}'' 2,
      mk_report Candidate ''redis'' DirectionEgress ''redis:set:k'' [] ''{"a":"y"}'' 3]\<close>

definition ex_step :: verdict_step where
  "ex_step =
     \<lparr>s_kind = FlagMismatchPayload, s_reason = [], s_protocol = ''redis'',
      s_signature = ''redis:set:k'', s_index = Some 0,
      s_detail = ''payload mismatch index=0 field=a'', s_noise_path = ''a''\<rparr>"

lemma ex_json_steps:
  "fst (compare_protocols (group_history ex_json) [''ts''] [''redis''] []) = [ex_step]"
  by code_simp

theorem step_noise_paths_witness:
  "s_noise_path ex_step = ''a'' \<and> s_noise_path ex_step \<notin> set [''ts'']"
proof -
  have "ex_step \<in> set (fst (compare_protocols (group_history ex_json) [''ts''] [''redis''] []))"
    unfolding ex_json_steps by simp
  moreover have path: "s_noise_path ex_step = ''a''" by (simp add: ex_step_def)
  ultimately show ?thesis
    using step_noise_paths [of ex_step "group_history ex_json" "[''ts'']" "[''redis'']" "[]"] by simp
qed

text \<open>
  \<^verbatim>\<open>mongoPayloadsEqual\<close> is an equivalence relation on payloads, and two documents that
  differ only in \<^verbatim>\<open>_id\<close>, \<^verbatim>\<open>lsid\<close>, \<^verbatim>\<open>comment\<close> and \<^verbatim>\<open>$db\<close> are equal.
\<close>

theorem mongo_payloads_equivalence:
  "equivp mongo_payloads_equal \<and>
   (\<forall>a b m m'. unmarshal_obj a = Some (Obj m) \<and> unmarshal_obj b = Some (Obj m') \<and>
      filter (\<lambda>(k, v). k \<notin> set mongoMetadataFields) m = filter (\<lambda>(k, v). k \<notin> set mongoMetadataFields) m'
      \<longrightarrow> mongo_payloads_equal a b)"
proof (intro conjI)
  show "equivp mongo_payloads_equal"
    by (rule equivpI; unfold reflp_def symp_def transp_def mongo_payloads_equal_iff) auto
next
  show "\<forall>a b m m'. unmarshal_obj a = Some (Obj m) \<and> unmarshal_obj b = Some (Obj m') \<and>
      filter (\<lambda>(k, v). k \<notin> set mongoMetadataFields) m = filter (\<lambda>(k, v). k \<notin> set mongoMetadataFields) m'
      \<longrightarrow> mongo_payloads_equal a b"
    by (auto simp: mongo_payloads_equal_iff strip_mongo_metadata_fields_def delete_keys_def)
qed

lemma ex_mongo_objects:
  \<open>unmarshal_obj ''{"_id":"1","v":"x"}'' = Some (Obj [(''_id'', JStr ''1''), (''v'', JStr ''x'')])\<close>
  \<open>unmarshal_obj ''{"v":"x","_id":"2"}'' = Some (Obj [(''_id'', JStr ''2''), (''v'', JStr ''x'')])\<close>
  by code_simp+

theorem mongo_payloads_equivalence_witness:
  \<open>mongo_payloads_equal ''{"_id":"1","v":"x"}'' ''{"v":"x","_id":"2"}''\<close>
  by (rule mongo_payloads_equivalence [THEN conjunct2, rule_format])
     (intro conjI, rule ex_mongo_objects(1), rule ex_mongo_objects(2),
      simp add: mongoMetadataFields_def)

section \<open>Observations\<close>

text \<open>
  A difference is recorded under the last component of its path, so noise between the
  controls at one path hides a regression at every other path that ends in the same name.
\<close>

theorem noise_label_hides_other_paths:
  \<open>payload_regressions
     ''{"x":{"id":"p"},"y":{"id":"q"}}'' ''{"x":{"id":"r"},"y":{"id":"q"}}''
     ''{"x":{"id":"p"},"y":{"id":"z"}}'' [] = ([], False)\<close>
  by code_simp

text \<open>
  A member that is absent compares like one that is \<^verbatim>\<open>null\<close>: the payloads differ, yet no
  regression is reported.
\<close>

theorem null_member_invisible:
  \<open>payload_regressions ''{"a":"x","b":null}'' ''{"a":"x","b":null}'' ''{"a":"x"}'' [] = ([], False)\<close>
  by code_simp

end
