(* ===== verification/GoHash.thy ===== *)
theory GoHash
  imports Prelude
begin

text \<open>
  The hashes of Go's standard library that the modelled code uses: \<^verbatim>\<open>crypto/sha256\<close>
  and \<^verbatim>\<open>hash/fnv\<close> (FNV-1a, 32 and 64 bits), on machine words.
\<close>

unbundle bit_operations_syntax

type_synonym u32 = "32 word"
type_synonym u64 = "64 word"

definition byte_word :: "char \<Rightarrow> 'a::len word" where
  "byte_word c = of_nat (of_char c)"

section \<open>FNV-1a\<close>

definition fnv32a :: "bytes \<Rightarrow> u32" where
  "fnv32a bs = foldl (\<lambda>h b. (h XOR byte_word b) * 16777619) 2166136261 bs"

definition fnv64a :: "bytes \<Rightarrow> u64" where
  "fnv64a bs = foldl (\<lambda>h b. (h XOR byte_word b) * 1099511628211) 14695981039346656037 bs"

section \<open>SHA-256\<close>

definition sha_k :: "u32 list" where
  "sha_k =
     [1116352408, 1899447441, 3049323471, 3921009573, 961987163, 1508970993,
      2453635748, 2870763221, 3624381080, 310598401, 607225278, 1426881987,
      1925078388, 2162078206, 2614888103, 3248222580, 3835390401, 4022224774,
      264347078, 604807628, 770255983, 1249150122, 1555081692, 1996064986,
      2554220882, 2821834349, 2952996808, 3210313671, 3336571891, 3584528711,
      113926993, 338241895, 666307205, 773529912, 1294757372, 1396182291,
      1695183700, 1986661051, 2177026350, 2456956037, 2730485921, 2820302411,
      3259730800, 3345764771, 3516065817, 3600352804, 4094571909, 275423344,
      430227734, 506948616, 659060556, 883997877, 958139571, 1322822218,
      1537002063, 1747873779, 1955562222, 2024104815, 2227730452, 2361852424,
      2428436474, 2756734187, 3204031479, 3329325298]"

definition sha_init :: "u32 list" where
  "sha_init =
     [1779033703, 3144134277, 1013904242, 2773480762, 1359893119, 2600822924,
      528734635, 1541459225]"

definition be_word :: "bytes \<Rightarrow> u32" where
  "be_word bs = foldl (\<lambda>w b. push_bit 8 w OR byte_word b) 0 bs"

definition word_byte :: "nat \<Rightarrow> 'a::len word \<Rightarrow> char" where
  "word_byte i w = char_of (unat (drop_bit (8 * i) w AND 255))"

definition word_be :: "u32 \<Rightarrow> bytes" where
  "word_be w = [word_byte 3 w, word_byte 2 w, word_byte 1 w, word_byte 0 w]"

definition len_be :: "u64 \<Rightarrow> bytes" where
  "len_be w = map (\<lambda>i. word_byte i w) [7, 6, 5, 4, 3, 2, 1, 0]"

definition sha_pad :: "bytes \<Rightarrow> bytes" where
  "sha_pad m =
     m @ [CHR 0x80] @ replicate ((119 - length m mod 64) mod 64) (CHR 0x00) @
     len_be (of_nat (8 * length m))"

fun chunks :: "nat \<Rightarrow> nat \<Rightarrow> 'a list \<Rightarrow> 'a list list" where
  "chunks 0 n xs = []"
| "chunks (Suc f) n xs = (if xs = [] then [] else take n xs # chunks f n (drop n xs))"

text \<open>The message schedule, kept in reverse: the last sixteen words give the next one.\<close>

fun sha_extend :: "nat \<Rightarrow> u32 list \<Rightarrow> u32 list" where
  "sha_extend 0 ws = ws"
| "sha_extend (Suc n) ws =
     (let w15 = ws ! 14; w2 = ws ! 1;
          s0 = word_rotr 7 w15 XOR word_rotr 18 w15 XOR drop_bit 3 w15;
          s1 = word_rotr 17 w2 XOR word_rotr 19 w2 XOR drop_bit 10 w2
      in sha_extend n ((ws ! 15 + s0 + ws ! 6 + s1) # ws))"

definition sha_round :: "u32 list \<Rightarrow> u32 \<times> u32 \<Rightarrow> u32 list" where
  "sha_round st kw =
     (case st of
        [a, b, c, d, e, f, g, h] \<Rightarrow>
          let s1 = word_rotr 6 e XOR word_rotr 11 e XOR word_rotr 25 e;
              ch = (e AND f) XOR (NOT e AND g);
              t1 = h + s1 + ch + fst kw + snd kw;
              s0 = word_rotr 2 a XOR word_rotr 13 a XOR word_rotr 22 a;
              maj = (a AND b) XOR (a AND c) XOR (b AND c)
          in [t1 + s0 + maj, a, b, c, d + t1, e, f, g]
      | _ \<Rightarrow> st)"

definition sha_block :: "u32 list \<Rightarrow> bytes \<Rightarrow> u32 list" where
  "sha_block st blk =
     (let ws = rev (sha_extend 48 (rev (map be_word (chunks 16 4 blk))))
      in map2 (+) st (foldl sha_round st (zip sha_k ws)))"

definition sha256 :: "bytes \<Rightarrow> bytes" where
  "sha256 m =
     (let p = sha_pad m
      in concat (map word_be (foldl sha_block sha_init (chunks (length p) 64 p))))"

end
