(* ===== verification/Tracing.thy ===== *)
theory Tracing
  imports GoStrings GoHash
begin

text \<open>
  \<^verbatim>\<open>pipeline/pkg/trace\<close> and \<^verbatim>\<open>pipeline/pkg/sample\<close>: W3C traceparent values and the
  sampling gate shared by Kaisel and igris-rabbitmq.
\<close>

unbundle bit_operations_syntax

section \<open>pkg/trace: traceparent values\<close>

definition traceIDLen :: nat where "traceIDLen = 32"
definition spanIDLen :: nat where "spanIDLen = 16"
definition versionLen :: nat where "versionLen = 2"
definition flagsLen :: nat where "flagsLen = 2"

definition HeaderTraceparent :: string where "HeaderTraceparent = ''traceparent''"
definition HeaderRequestID :: string where "HeaderRequestID = ''x-request-id''"

fun is_hex :: "string \<Rightarrow> bool" where
  "is_hex [] = True"
| "is_hex (c # s) = (if is_hex_char c then is_hex s else False)"

definition format_traceparent :: "string \<Rightarrow> string \<Rightarrow> string" where
  "format_traceparent traceID spanID = ''00'' @ ''-'' @ traceID @ ''-'' @ spanID @ ''-'' @ ''01''"

definition parse_traceparent_context :: "string \<Rightarrow> (string \<times> string) option" where
  "parse_traceparent_context h =
     (case split_on CHR ''-'' (trim_space h) of
        [version, tid, sid, flags] \<Rightarrow>
          if length version \<noteq> versionLen \<or> length tid \<noteq> traceIDLen \<or> length sid \<noteq> spanIDLen \<or>
             length flags \<noteq> flagsLen then None
          else if \<not> is_hex version \<or> \<not> is_hex tid \<or> \<not> is_hex sid \<or> \<not> is_hex flags then None
          else Some (to_lower tid, to_lower sid)
      | _ \<Rightarrow> None)"

definition parse_traceparent :: "string \<Rightarrow> string option" where
  "parse_traceparent h = map_option fst (parse_traceparent_context h)"

text \<open>\<^verbatim>\<open>randomHex\<close> on the bytes \<^verbatim>\<open>rand.Read\<close> returned, \<^const>\<open>None\<close> when it failed.\<close>

definition random_hex :: "nat \<Rightarrow> bytes option \<Rightarrow> string option" where
  "random_hex n rnd = map_option (\<lambda>b. hex_encode (take n b)) rnd"

definition generate_trace_id :: "bytes option \<Rightarrow> string option" where
  "generate_trace_id rnd = random_hex (traceIDLen div 2) rnd"

definition generate_span_id :: "bytes option \<Rightarrow> string option" where
  "generate_span_id rnd = random_hex (spanIDLen div 2) rnd"

text \<open>\<^verbatim>\<open>TraceIDFromMap\<close>: the header lookup is a parameter of the code as well.\<close>

definition trace_id_from_map :: "'h \<Rightarrow> ('h \<Rightarrow> string \<Rightarrow> string) \<Rightarrow> string" where
  "trace_id_from_map headers headerValue =
     (let tp = trim_space (headerValue headers HeaderTraceparent)
      in case (if tp \<noteq> [] then parse_traceparent tp else None) of
           Some tid \<Rightarrow> tid
         | None \<Rightarrow> trim_space (headerValue headers HeaderRequestID))"

record resolved_context =
  rc_trace_id :: string
  rc_traceparent :: string

definition try_from_traceparent :: "string \<Rightarrow> resolved_context option" where
  "try_from_traceparent inbound =
     (let tp = trim_space inbound
      in if tp = [] then None
         else case parse_traceparent tp of
                None \<Rightarrow> None
              | Some tid \<Rightarrow> Some \<lparr>rc_trace_id = tid, rc_traceparent = tp\<rparr>)"

datatype trace_error = ErrMissingTraceparent

definition resolve_http :: "(string \<Rightarrow> string) \<Rightarrow> trace_error + resolved_context" where
  "resolve_http headerGet =
     (case try_from_traceparent (headerGet HeaderTraceparent) of
        None \<Rightarrow> Inl ErrMissingTraceparent
      | Some r \<Rightarrow> Inr r)"

text \<open>What a trace id handed on by the pipeline looks like.\<close>

definition lower_hex :: "nat \<Rightarrow> string \<Rightarrow> bool" where
  "lower_hex n s \<longleftrightarrow> length s = n \<and> is_hex s \<and> to_lower s = s"

lemma is_hex_iff: "is_hex s \<longleftrightarrow> (\<forall>c \<in> set s. is_hex_char c)"
  by (induction s) auto

lemma is_hex_to_lower [simp]: "is_hex (to_lower s) = is_hex s"
  by (simp add: is_hex_iff to_lower_def)

lemma is_hex_append [simp]: "is_hex (s @ t) \<longleftrightarrow> is_hex s \<and> is_hex t"
  by (auto simp: is_hex_iff)

lemma is_hex_no_dash: "is_hex s \<Longrightarrow> CHR ''-'' \<notin> set s"
  using is_hex_char_not_dash by (auto simp: is_hex_iff)

lemma is_hex_trimmed: "is_hex s \<Longrightarrow> trimmed s"
  by (auto simp: is_hex_iff trimmed_def is_hex_char_not_space)

lemma parse_traceparent_context_lower_hex:
  "parse_traceparent_context h = Some (tid, sid) \<Longrightarrow> lower_hex 32 tid \<and> lower_hex 16 sid"
  by (auto simp: parse_traceparent_context_def lower_hex_def traceIDLen_def spanIDLen_def
      split: list.splits if_splits)

lemma parse_traceparent_lower_hex: "parse_traceparent h = Some tid \<Longrightarrow> lower_hex 32 tid"
  by (auto simp: parse_traceparent_def dest: parse_traceparent_context_lower_hex)

lemma split_traceparent:
  assumes "is_hex v" "is_hex t" "is_hex s" "is_hex f"
  shows "split_on CHR ''-'' (v @ CHR ''-'' # t @ CHR ''-'' # s @ CHR ''-'' # f) = [v, t, s, f]"
  using assms by (simp add: split_on_append split_on_absent is_hex_no_dash)

lemma trimmed_traceparent:
  assumes "is_hex v" "is_hex f" "v \<noteq> []" "f \<noteq> []"
  shows "trimmed (v @ m @ f)"
  using assms is_hex_trimmed [of v] is_hex_trimmed [of f] by (simp add: trimmed_def)

lemma parse_traceparent_context_build:
  assumes "is_hex v" "length v = 2" "is_hex t" "length t = 32" "is_hex s" "length s = 16"
    and "is_hex f" "length f = 2"
  shows "parse_traceparent_context (v @ CHR ''-'' # t @ CHR ''-'' # s @ CHR ''-'' # f)
           = Some (to_lower t, to_lower s)"
proof -
  let ?h = "v @ (CHR ''-'' # t @ CHR ''-'' # s @ [CHR ''-'']) @ f"
  have "v \<noteq> []" "f \<noteq> []" using assms(2,8) by auto
  then have "trim_space ?h = ?h"
    using assms(1,7) by (intro trim_space_fixed trimmed_traceparent)
  then show ?thesis
    using assms split_traceparent [OF assms(1,3,5,7)]
    by (simp add: parse_traceparent_context_def versionLen_def traceIDLen_def spanIDLen_def flagsLen_def)
qed

section \<open>pkg/sample: the sampling gate\<close>

text \<open>\<^verbatim>\<open>hex.DecodeString\<close>.\<close>

fun hex_decode :: "string \<Rightarrow> bytes option" where
  "hex_decode [] = Some []"
| "hex_decode [c] = None"
| "hex_decode (a # b # s) =
     (if is_hex_char a \<and> is_hex_char b
      then map_option (Cons (char_of (hex_val a * 16 + hex_val b))) (hex_decode s) else None)"

definition bucket :: "string \<Rightarrow> (8 word) option" where
  "bucket traceID =
     (if length traceID \<noteq> 32 then None
      else case hex_decode (to_lower traceID) of
             None \<Rightarrow> None
           | Some raw \<Rightarrow>
               if length raw \<noteq> 16 then None else Some (ucast (fnv64a raw AND 0xff)))"

text \<open>\<^verbatim>\<open>uint64(v)*100 < uint64(n)*256\<close>, on 64-bit words.\<close>

definition sampled_in :: "string \<Rightarrow> int \<Rightarrow> bool" where
  "sampled_in traceID n =
     (if n \<le> 0 \<or> 100 \<le> n then True
      else case bucket traceID of
             None \<Rightarrow> False
           | Some v \<Rightarrow> (ucast v :: 64 word) * 100 < (word_of_int n :: 64 word) * 256)"

definition trace_id_from_traceparent :: "string \<Rightarrow> string option" where
  "trace_id_from_traceparent h =
     (case split_on CHR ''-'' (trim_space h) of
        [_, tid, _, _] \<Rightarrow>
          if length tid \<noteq> 32 then None else if is_hex tid then Some tid else None
      | _ \<Rightarrow> None)"

lemma hex_decode_to_lower [simp]: "hex_decode (to_lower s) = hex_decode s"
  by (induction s rule: hex_decode.induct) (auto simp: to_lower_def)

lemma hex_decode_Some_iff: "(\<exists>b. hex_decode s = Some b) \<longleftrightarrow> is_hex s \<and> even (length s)"
  by (induction s rule: hex_decode.induct) auto

lemma hex_decode_length: "hex_decode s = Some b \<Longrightarrow> length s = 2 * length b"
  by (induction s arbitrary: b rule: hex_decode.induct) (auto split: if_splits)

lemma bucket_to_lower [simp]: "bucket (to_lower t) = bucket t"
  by (simp add: bucket_def)

lemma bucket_defined_iff: "bucket t \<noteq> None \<longleftrightarrow> length t = 32 \<and> is_hex t"
proof (cases "length t = 32")
  case True
  show ?thesis
  proof (cases "hex_decode t")
    case None
    then show ?thesis using True hex_decode_Some_iff [of t] by (simp add: bucket_def)
  next
    case (Some b)
    then show ?thesis
      using True hex_decode_Some_iff [of t] hex_decode_length [OF Some] by (auto simp: bucket_def)
  qed
qed (simp add: bucket_def)

text \<open>No wrap-around: the comparison on words is the comparison of the numbers.\<close>

lemma sample_threshold:
  fixes v :: "8 word"
  assumes "0 < n" "n < 100"
  shows "((ucast v :: 64 word) * 100 < (word_of_int n :: 64 word) * 256) \<longleftrightarrow> unat v * 100 < nat n * 256"
proof -
  have v: "unat v < 256" using unsigned_less [of v] by simp
  have "unat ((ucast v :: 64 word) * 100) = unat v * 100"
  proof -
    have "unat (ucast v :: 64 word) = unat v"
      using v by (simp add: unsigned_ucast_eq take_bit_eq_mod)
    then show ?thesis using v by (simp add: unat_word_ariths)
  qed
  moreover have "unat (word_of_int n * 256 :: 64 word) = nat n * 256"
  proof -
    have "unat (word_of_int n :: 64 word) = nat n"
      using assms by (simp add: unat_eq_nat_uint uint_word_of_int take_bit_eq_mod)
    then show ?thesis using assms by (simp add: unat_word_ariths)
  qed
  ultimately show ?thesis by (simp add: word_less_nat_alt)
qed

section \<open>Properties\<close>

lemma split_on_join: "split_on sep s = ps \<Longrightarrow> s = concat (map (\<lambda>p. p @ [sep]) (butlast ps)) @ last ps"
proof (induction s arbitrary: ps)
  case (Cons c s)
  obtain q qs where q: "split_on sep s = q # qs"
    by (cases "split_on sep s") auto
  then show ?case
    using Cons by (auto split: if_splits)
qed auto

lemma split_on_4:
  "split_on sep s = [a, b, c, d] \<Longrightarrow> s = a @ sep # b @ sep # c @ sep # d"
  using split_on_join [of sep s "[a, b, c, d]"] by simp

text \<open>
  \<^verbatim>\<open>ParseTraceparentContext\<close> accepts exactly the headers that are, white space around
  them aside, four dash-separated runs of hexadecimal digits of lengths 2, 32, 16 and 2, and
  returns the trace id and the span id in lower case.
\<close>

theorem traceparent_accepts:
  "parse_traceparent_context h = Some (tid, sid) \<longleftrightarrow>
     (\<exists>v t s f. trim_space h = v @ CHR ''-'' # t @ CHR ''-'' # s @ CHR ''-'' # f \<and>
        is_hex v \<and> length v = 2 \<and> is_hex t \<and> length t = 32 \<and> is_hex s \<and> length s = 16 \<and>
        is_hex f \<and> length f = 2 \<and> tid = to_lower t \<and> sid = to_lower s)"
proof -
  have trim: "parse_traceparent_context (trim_space h) = parse_traceparent_context h"
    by (simp add: parse_traceparent_context_def)
  show ?thesis
  proof
    assume "parse_traceparent_context h = Some (tid, sid)"
    then obtain v t s f where split: "split_on CHR ''-'' (trim_space h) = [v, t, s, f]"
      and "is_hex v \<and> length v = 2 \<and> is_hex t \<and> length t = 32 \<and> is_hex s \<and> length s = 16 \<and>
        is_hex f \<and> length f = 2 \<and> tid = to_lower t \<and> sid = to_lower s"
      by (auto simp: parse_traceparent_context_def versionLen_def traceIDLen_def spanIDLen_def
          flagsLen_def split: list.splits if_splits)
    then show "\<exists>v t s f. trim_space h = v @ CHR ''-'' # t @ CHR ''-'' # s @ CHR ''-'' # f \<and>
        is_hex v \<and> length v = 2 \<and> is_hex t \<and> length t = 32 \<and> is_hex s \<and> length s = 16 \<and>
        is_hex f \<and> length f = 2 \<and> tid = to_lower t \<and> sid = to_lower s"
      using split_on_4 [OF split] by blast
  next
    assume "\<exists>v t s f. trim_space h = v @ CHR ''-'' # t @ CHR ''-'' # s @ CHR ''-'' # f \<and>
        is_hex v \<and> length v = 2 \<and> is_hex t \<and> length t = 32 \<and> is_hex s \<and> length s = 16 \<and>
        is_hex f \<and> length f = 2 \<and> tid = to_lower t \<and> sid = to_lower s"
    then show "parse_traceparent_context h = Some (tid, sid)"
      using parse_traceparent_context_build trim by metis
  qed
qed

lemma is_hex_hex_encode: "is_hex (hex_encode b)" "length (hex_encode b) = 2 * length b"
  "to_lower (hex_encode b) = hex_encode b"
proof -
  have digit: "is_hex_char (hex_char d) \<and> lower_char (hex_char d) = hex_char d" if "d < 16" for d
    using that by (simp add: is_hex_char_nat char_eq_iff_nat of_lower_char of_hex_char)
  show "is_hex (hex_encode b)" "length (hex_encode b) = 2 * length b"
    "to_lower (hex_encode b) = hex_encode b"
    by (induction b) (simp_all add: hex_encode_def Let_def digit to_lower_def less_mult_imp_div_less)
qed

text \<open>
  Identifiers the pipeline generates survive the wire: a traceparent formatted from a generated
  trace id and span id parses back to exactly these, and resolving it from an HTTP header keeps
  the header literally.
\<close>

theorem generated_ids_roundtrip:
  assumes "generate_trace_id (Some b) = Some tid" "length b = 16"
    and "generate_span_id (Some c) = Some sid" "length c = 8"
    and "get HeaderTraceparent = format_traceparent tid sid"
  shows "parse_traceparent_context (format_traceparent tid sid) = Some (tid, sid) \<and>
    resolve_http get = Inr \<lparr>rc_trace_id = tid, rc_traceparent = format_traceparent tid sid\<rparr>"
proof -
  have ids: "tid = hex_encode b" "sid = hex_encode c"
    using assms by (auto simp: generate_trace_id_def generate_span_id_def random_hex_def
        traceIDLen_def spanIDLen_def)
  have "format_traceparent tid sid = ''00'' @ CHR ''-'' # tid @ CHR ''-'' # sid @ CHR ''-'' # ''01''"
    by (simp add: format_traceparent_def)
  moreover have "is_hex ''00''" "is_hex ''01''"
    by (simp_all add: is_hex_char_nat)
  ultimately have parse: "parse_traceparent_context (format_traceparent tid sid) = Some (tid, sid)"
    using parse_traceparent_context_build [of "''00''" tid sid "''01''"] assms(2,4) is_hex_hex_encode
    by (simp add: ids)
  have "trim_space (format_traceparent tid sid) = format_traceparent tid sid"
    by (intro trim_space_fixed) (simp add: trimmed_def format_traceparent_def is_space_def)
  then show ?thesis
    using parse assms(5)
    by (simp add: resolve_http_def try_from_traceparent_def parse_traceparent_def Let_def format_traceparent_def)
qed

lemma sampled_in_iff:
  assumes "0 < n" "n < 100"
  shows "sampled_in t n \<longleftrightarrow> (\<exists>v. bucket t = Some v \<and> unat v * 100 < nat n * 256)"
  using assms sample_threshold [OF assms] by (auto simp: sampled_in_def split: option.splits)

lemma trace_id_from_parse:
  assumes "parse_traceparent h = Some tid" "trace_id_from_traceparent h = Some tid'"
  shows "tid = to_lower tid'"
  using assms by (auto simp: parse_traceparent_def parse_traceparent_context_def
      trace_id_from_traceparent_def split: list.splits if_splits)

text \<open>
  The sampling gate is consistent: raising the percentage never drops a trace that was kept,
  and the gates of Kaisel and igris (which take the id from the traceparent as written) and the
  rest of the pipeline (which lower-cases it) decide alike for one header.
\<close>

theorem sampling_consistent:
  assumes "0 < n" "n \<le> m" "parse_traceparent h = Some tid" "trace_id_from_traceparent h = Some tid'"
  shows "sampled_in tid n = sampled_in tid' n \<and> (sampled_in tid n \<longrightarrow> sampled_in tid m)"
proof -
  have "tid = to_lower tid'"
    using trace_id_from_parse assms(3,4) .
  then have "sampled_in tid n = sampled_in tid' n"
    by (simp add: sampled_in_def)
  moreover have "sampled_in tid m" if "sampled_in tid n"
  proof (cases "m < 100")
    case True
    then have n: "n < 100" and m: "0 < m"
      using assms(1,2) by simp_all
    from sampled_in_iff [OF assms(1) n, THEN iffD1, OF that]
    obtain v where v: "bucket tid = Some v" "unat v * 100 < nat n * 256"
      by (elim exE conjE)
    have "nat n * 256 \<le> nat m * 256"
      using assms(2) by simp
    with v(2) have "unat v * 100 < nat m * 256"
      by (rule order_less_le_trans)
    with v(1) show ?thesis
      by (intro sampled_in_iff [OF m True, THEN iffD2] exI conjI)
  next
    case False
    then show ?thesis
      unfolding sampled_in_def by simp
  qed
  ultimately show ?thesis
    by simp
qed

definition sample_header :: string where
  "sample_header = ''00-4BF92F3577B34DA6A3CE929D0E0E4736-00f067aa0ba902b7-01''"

theorem sampling_consistent_witness:
  "sampled_in ''4BF92F3577B34DA6A3CE929D0E0E4736'' 50 \<and> sampled_in ''4bf92f3577b34da6a3ce929d0e0e4736'' 60"
proof -
  have "parse_traceparent sample_header = Some ''4bf92f3577b34da6a3ce929d0e0e4736''"
    "trace_id_from_traceparent sample_header = Some ''4BF92F3577B34DA6A3CE929D0E0E4736''"
    "sampled_in ''4bf92f3577b34da6a3ce929d0e0e4736'' 50"
    by code_simp+
  then show ?thesis
    using sampling_consistent [of 50 60 sample_header] by simp
qed

theorem generated_ids_roundtrip_witness:
  "parse_traceparent_context (format_traceparent (hex_encode (replicate 16 (CHR 0xAB))) (hex_encode (replicate 8 (CHR 0x01))))
     = Some (hex_encode (replicate 16 (CHR 0xAB)), hex_encode (replicate 8 (CHR 0x01)))"
  using generated_ids_roundtrip [of "replicate 16 (CHR 0xAB)" _ "replicate 8 (CHR 0x01)" _ "\<lambda>_. format_traceparent
      (hex_encode (replicate 16 (CHR 0xAB))) (hex_encode (replicate 8 (CHR 0x01)))"]
  by (simp add: generate_trace_id_def generate_span_id_def random_hex_def traceIDLen_def spanIDLen_def)

end
