(* ===== verification/BeruReport.thy ===== *)
theory BeruReport
  imports BeruModel GoHash Tracing
begin

text \<open>
  \<^verbatim>\<open>pipeline/beru/internal/report\<close> and \<^verbatim>\<open>internal/payload\<close>: the reports built from
  egress payloads, ingress messages and wire envelopes, their signatures, and the payload codecs.
  \<^verbatim>\<open>time.Now()\<close> is the parameter \<^verbatim>\<open>clock\<close>; an error is \<^const>\<open>Inl\<close> of its message.
\<close>

section \<open>Signatures (signature.go)\<close>

record mongo_hints =
  mh_operation :: string
  mh_collection :: string

definition mongoCommandKeys :: "string list" where
  "mongoCommandKeys =
     [''insert'', ''find'', ''update'', ''delete'', ''aggregate'', ''count'', ''distinct'',
      ''findAndModify'', ''createIndexes'', ''drop'', ''listIndexes'', ''getMore'', ''bulkWrite'']"

definition fallback_signature :: "string \<Rightarrow> bytes \<Rightarrow> string" where
  "fallback_signature protocol payload =
     protocol @ '':unknown:'' @ hex_encode (take 4 (sha256 payload))"

definition obj_string :: "go_obj \<Rightarrow> string \<Rightarrow> string option" where
  "obj_string obj key = (case map_of (members obj) key of Some (JStr s) \<Rightarrow> Some s | _ \<Rightarrow> None)"

definition string_field :: "go_obj \<Rightarrow> string \<Rightarrow> string" where
  "string_field obj key = (case obj_string obj key of None \<Rightarrow> [] | Some s \<Rightarrow> trim_space s)"

definition http_signature :: "string \<Rightarrow> string \<Rightarrow> string" where
  "http_signature method path =
     (let m = to_upper (trim_space method); p = trim_space path
      in if m = [] \<and> p = [] then ''http:ingress:response''
         else
           let p' = (if p = [] then ''/'' else p); m' = (if m = [] then ''GET'' else m)
           in ''http:'' @ m' @ '':'' @ p')"

definition normalize_mongo_operation :: "string \<Rightarrow> string" where
  "normalize_mongo_operation op =
     (let op' = to_lower (trim_space op)
      in if op' = ''insertmany'' then ''insert''
         else if op' = ''updatemany'' then ''update''
         else if op' = ''deletemany'' then ''delete''
         else op')"

definition mongo_operation_from_payload :: "go_obj \<Rightarrow> string" where
  "mongo_operation_from_payload obj =
     (case obj_string obj ''query'' of
        None \<Rightarrow> []
      | Some q \<Rightarrow>
          if q = [] then []
          else (case split_fields (trim_space q) of
                  [] \<Rightarrow> []
                | w # _ \<Rightarrow> normalize_mongo_operation w))"

definition complete_mongo_hints :: "mongo_hints \<Rightarrow> bytes \<Rightarrow> mongo_hints" where
  "complete_mongo_hints hints payload =
     (if mh_operation hints = [] then
        (case unmarshal_obj payload of
           None \<Rightarrow> hints
         | Some obj \<Rightarrow> hints\<lparr>mh_operation := mongo_operation_from_payload obj\<rparr>)
      else hints)"

definition mongo_signature_from_hints :: "mongo_hints \<Rightarrow> string" where
  "mongo_signature_from_hints hints =
     (let op = normalize_mongo_operation (mh_operation hints); col = trim_space (mh_collection hints)
      in if op \<noteq> [] \<and> col \<noteq> [] then ''mongodb:'' @ op @ '':'' @ col else [])"

definition mongo_signature_from_query_text :: "string \<Rightarrow> string" where
  "mongo_signature_from_query_text q =
     (case split_fields (trim_space q) of
        w # x # _ \<Rightarrow>
          let cmd = normalize_mongo_operation w
          in if cmd \<in> set mongoCommandKeys then ''mongodb:'' @ cmd @ '':'' @ x else []
      | _ \<Rightarrow> [])"

definition mongo_command_signature :: "go_obj \<Rightarrow> string option" where
  "mongo_command_signature obj =
     first_some (\<lambda>cmd. case obj_string obj cmd of
         None \<Rightarrow> None
       | Some col \<Rightarrow> if col \<noteq> [] then Some (''mongodb:'' @ cmd @ '':'' @ col) else None)
       mongoCommandKeys"

definition mongo_signature :: "bytes \<Rightarrow> mongo_hints \<Rightarrow> string" where
  "mongo_signature payload hints0 =
     (let hints = complete_mongo_hints hints0 payload; byHints = mongo_signature_from_hints hints
      in case unmarshal_obj payload of
           None \<Rightarrow> if byHints \<noteq> [] then byHints else fallback_signature ''mongodb'' payload
         | Some obj \<Rightarrow>
             (case mongo_command_signature obj of
                Some sig \<Rightarrow> sig
              | None \<Rightarrow>
                  if byHints \<noteq> [] then byHints
                  else
                    let byText =
                          (case obj_string obj ''query'' of
                             None \<Rightarrow> []
                           | Some q \<Rightarrow>
                               if q \<noteq> [] \<and> length (members obj) = 1
                               then mongo_signature_from_query_text q else [])
                    in if byText \<noteq> [] then byText
                       else fallback_signature ''mongodb'' (marshal_obj obj)))"

definition no_hints :: mongo_hints where
  "no_hints = \<lparr>mh_operation = [], mh_collection = []\<rparr>"

definition database_signature :: "string \<Rightarrow> go_obj \<Rightarrow> string" where
  "database_signature protocol obj =
     (case first_some (\<lambda>k.
             if has_prefix k ''$'' then None
             else (case obj_string obj k of
                     None \<Rightarrow> None
                   | Some col \<Rightarrow> if col \<noteq> [] then Some (protocol @ '':'' @ k @ '':'' @ col) else None))
             (sorted_keys (members obj)) of
        Some sig \<Rightarrow> sig
      | None \<Rightarrow> fallback_signature protocol (marshal_obj obj))"

definition queue_signature :: "string \<Rightarrow> go_obj \<Rightarrow> string" where
  "queue_signature protocol obj =
     (let e1 = string_field obj ''exchange'';
          exchange = (if e1 = [] then string_field obj ''exchange_name'' else e1);
          r1 = string_field obj ''routing_key'';
          routingKey = (if r1 = [] then string_field obj ''routingKey'' else r1)
      in if exchange \<noteq> [] \<and> routingKey \<noteq> [] then
           protocol @ '':publish:'' @ exchange @ '':'' @ routingKey
         else if routingKey \<noteq> [] then protocol @ '':publish:'' @ routingKey
         else if exchange \<noteq> [] then protocol @ '':publish:'' @ exchange
         else fallback_signature protocol (marshal_obj obj))"

definition egress_signature :: "string \<Rightarrow> bytes \<Rightarrow> string" where
  "egress_signature protocol0 payload =
     (let protocol = to_lower (trim_space protocol0)
      in case unmarshal_obj payload of
           None \<Rightarrow>
             if protocol = ''mongodb'' then mongo_signature payload no_hints
             else fallback_signature protocol payload
         | Some obj \<Rightarrow>
             if protocol = ''mongodb'' then mongo_signature payload no_hints
             else if protocol = ''postgresql'' \<or> protocol = ''redis'' then database_signature protocol obj
             else if protocol = ''rabbitmq'' \<or> protocol = ''kafka'' then queue_signature protocol obj
             else if protocol = ''http'' then
               http_signature (string_field obj ''method'') (string_field obj ''path'')
             else fallback_signature protocol payload)"

section \<open>Payload codecs (codec.go)\<close>

definition json_codec_normalize :: "bytes \<Rightarrow> string + bytes" where
  "json_codec_normalize body =
     (if trim_space body = [] then Inr ''{}''
      else if \<not> json_valid body then Inl ''invalid JSON''
      else Inr (json_compact body))"

definition raw_codec_normalize :: "bytes \<Rightarrow> string + bytes" where
  "raw_codec_normalize body = Inr body"

definition looks_json :: "string \<Rightarrow> bytes \<Rightarrow> bool" where
  "looks_json contentType body \<longleftrightarrow>
     (if contains (to_lower contentType) ''json'' then True
      else case trim_space body of [] \<Rightarrow> False | c # _ \<Rightarrow> c = CHR ''{'' \<or> c = CHR ''['')"

datatype codec = JSONCodec | RawCodec

fun codec_name :: "codec \<Rightarrow> string" where
  "codec_name JSONCodec = ''json''"
| "codec_name RawCodec = ''raw''"

fun codec_normalize :: "codec \<Rightarrow> bytes \<Rightarrow> string + bytes" where
  "codec_normalize JSONCodec body = json_codec_normalize body"
| "codec_normalize RawCodec body = raw_codec_normalize body"

definition registry_codecs :: "codec list" where
  "registry_codecs = [JSONCodec]"

definition select_codec :: "string \<Rightarrow> bytes \<Rightarrow> codec" where
  "select_codec contentType body =
     (case first_some (\<lambda>c. if codec_name c = ''json'' \<and> looks_json contentType body then Some c else None)
             registry_codecs of
        Some c \<Rightarrow> c
      | None \<Rightarrow> RawCodec)"

definition registry_normalize :: "bytes \<Rightarrow> string \<Rightarrow> string + bytes \<times> string" where
  "registry_normalize body contentType =
     (let c = select_codec contentType body
      in case codec_normalize c body of
           Inl e \<Rightarrow> Inl e
         | Inr out \<Rightarrow> Inr (out, codec_name c))"

section \<open>Ingress and egress reports (ingress.go, egress.go)\<close>

record traffic_payload =
  tp_metadata :: "(string \<times> string) list"
  tp_body :: bytes
  tp_content_type :: string

record traffic_report =
  tr_trace_id :: string
  tr_role :: string
  tr_payload :: "traffic_payload option"

text \<open>The value under the first key that holds a non-empty string.\<close>

definition meta_or :: "(string \<times> string) list \<Rightarrow> string \<Rightarrow> string \<Rightarrow> string" where
  "meta_or meta k1 k2 = (if go_get [] meta k1 = [] then go_get [] meta k2 else go_get [] meta k1)"

definition ingress_name :: "(string \<times> string) list \<Rightarrow> string \<Rightarrow> string" where
  "ingress_name meta shadowTestName =
     (if go_get [] meta ''shadow_test_name'' \<noteq> [] then go_get [] meta ''shadow_test_name''
      else shadowTestName)"

definition from_traffic_report ::
  "instant \<Rightarrow> traffic_report option \<Rightarrow> string \<Rightarrow> string + raw_report" where
  "from_traffic_report clock report shadowTestName =
     (case report of
        None \<Rightarrow> Inl ''incomplete traffic report''
      | Some r \<Rightarrow>
          if tr_trace_id r = [] \<or> tr_role r = [] then Inl ''incomplete traffic report''
          else (case tr_payload r of
                  None \<Rightarrow> Inl ''empty payload''
                | Some p \<Rightarrow>
                    let meta = tp_metadata p
                    in case registry_normalize (tp_body p) (tp_content_type p) of
                         Inl e \<Rightarrow> Inl e
                       | Inr (body, _) \<Rightarrow>
                           Inr \<lparr>r_trace_id = tr_trace_id r, r_shadow_role = tr_role r,
                                r_shadow_test_name = ingress_name meta shadowTestName,
                                r_protocol = ''http'', r_direction = DirectionIngress,
                                r_signature =
                                  http_signature (meta_or meta '':method'' ''method'')
                                    (meta_or meta '':path'' ''path''),
                                r_status_code = meta_or meta '':status'' ''status'',
                                r_payload = body, r_captured_at = clock, r_ingest_id = 0\<rparr>))"

definition from_http_ingress ::
  "instant \<Rightarrow> string \<Rightarrow> string \<Rightarrow> string \<Rightarrow> string \<Rightarrow> string \<Rightarrow> (string \<times> string) list \<Rightarrow> bytes \<Rightarrow> string
     \<Rightarrow> string + raw_report" where
  "from_http_ingress clock traceID role shadowTestName method path meta body contentType =
     (if traceID = [] \<or> role = [] then Inl ''incomplete http ingress report''
      else case registry_normalize body contentType of
             Inl e \<Rightarrow> Inl e
           | Inr (normalized, _) \<Rightarrow>
               let method' = (if method = [] then go_get [] meta '':method'' else method);
                   path' = (if path = [] then go_get [] meta '':path'' else path)
               in Inr \<lparr>r_trace_id = traceID, r_shadow_role = role,
                       r_shadow_test_name = ingress_name meta shadowTestName,
                       r_protocol = ''http'', r_direction = DirectionIngress,
                       r_signature = http_signature method' path',
                       r_status_code = meta_or meta '':status'' ''status'',
                       r_payload = normalized, r_captured_at = clock, r_ingest_id = 0\<rparr>)"

definition from_egress_with_signature ::
  "instant \<Rightarrow> string \<Rightarrow> string \<Rightarrow> string \<Rightarrow> string \<Rightarrow> string \<Rightarrow> bytes \<Rightarrow> string + raw_report" where
  "from_egress_with_signature clock traceID role protocol shadowTestName signature payload =
     (if traceID = [] \<or> role = [] \<or> protocol = [] then Inl ''incomplete egress report''
      else if payload = [] then Inl ''empty egress payload''
      else
        let sig = (if signature = [] then egress_signature protocol payload else signature)
        in Inr \<lparr>r_trace_id = traceID, r_shadow_role = role, r_shadow_test_name = shadowTestName,
                r_protocol = protocol, r_direction = DirectionEgress, r_signature = sig,
                r_status_code = [], r_payload = payload, r_captured_at = clock, r_ingest_id = 0\<rparr>)"

definition from_egress ::
  "instant \<Rightarrow> string \<Rightarrow> string \<Rightarrow> string \<Rightarrow> string \<Rightarrow> bytes \<Rightarrow> string + raw_report" where
  "from_egress clock traceID role protocol shadowTestName payload =
     from_egress_with_signature clock traceID role protocol shadowTestName [] payload"

section \<open>Wire envelopes (wire_envelope.go)\<close>

record network_event_envelope =
  ne_trace_id :: string
  ne_pod_role :: string
  ne_shadow_test_name :: string
  ne_protocol :: string
  ne_direction :: string
  ne_timestamp :: instant
  ne_raw_request :: string
  ne_raw_response :: string
  ne_metadata :: string

text \<open>
  \<^verbatim>\<open>json.Unmarshal\<close> into a struct of string fields: members match fields without regard
  to case, the last one wins, \<^verbatim>\<open>null\<close> leaves a field alone, any other value is an error.
\<close>

definition decode_string_struct :: "string list \<Rightarrow> string \<Rightarrow> string list option" where
  "decode_string_struct names s =
     (case json_parse s of
        Some JNull \<Rightarrow> Some (map (\<lambda>_. []) names)
      | Some (JObj ms) \<Rightarrow>
          let matched = filter (\<lambda>(k, v). \<exists>n \<in> set names. equal_fold k n) ms
          in if list_all (\<lambda>(k, v). case v of JStr _ \<Rightarrow> True | JNull \<Rightarrow> True | _ \<Rightarrow> False) matched
             then Some (map (\<lambda>n. foldl (\<lambda>cur (k, v).
                    if equal_fold k n then (case v of JStr x \<Rightarrow> x | _ \<Rightarrow> cur) else cur) [] matched) names)
             else None
      | _ \<Rightarrow> None)"

definition wire_stored_payload :: "network_event_envelope \<Rightarrow> bytes" where
  "wire_stored_payload env =
     json_marshal (JObj
       ([(''request'', JStr (ne_raw_request env)), (''response'', JStr (ne_raw_response env))] @
        omit_empty ''metadata'' (ne_metadata env)))"

definition is_hex_trace_id :: "string \<Rightarrow> bool" where
  "is_hex_trace_id s = list_all is_hex_char s"

definition normalize_wire_trace_id :: "string \<Rightarrow> string + string" where
  "normalize_wire_trace_id raw0 =
     (let raw = trim_space raw0
      in if raw = [] then Inl ''trace_id is required''
         else case parse_traceparent raw of
                Some tid \<Rightarrow> Inr tid
              | None \<Rightarrow>
                  if length raw = 32 \<and> is_hex_trace_id raw then Inr (to_lower raw)
                  else Inl (''invalid trace_id '' @ raw))"

definition parse_http_wire_metadata :: "string \<Rightarrow> string \<Rightarrow> string \<times> string" where
  "parse_http_wire_metadata metadata0 rawRequest =
     (let metadata = trim_space metadata0;
          fromMeta = (if metadata \<noteq> [] then
                        (case decode_string_struct [''method'', ''path''] metadata of
                           Some [m, p] \<Rightarrow> if m \<noteq> [] \<or> p \<noteq> [] then Some (m, p) else None
                         | _ \<Rightarrow> None)
                      else None)
      in case fromMeta of
           Some mp \<Rightarrow> mp
         | None \<Rightarrow>
             (case split_fields (trim_space (takeWhile (\<lambda>c. c \<noteq> CHR 0x0A) rawRequest)) of
                m # p # _ \<Rightarrow> (m, p)
              | _ \<Rightarrow> ([], ''/'')))"

definition parse_mongo_wire_metadata :: "string \<Rightarrow> string \<Rightarrow> mongo_hints" where
  "parse_mongo_wire_metadata metadata0 rawRequest =
     (let metadata = trim_space metadata0;
          hints = (if metadata \<noteq> [] then
                     (case decode_string_struct [''command'', ''collection''] metadata of
                        Some [c, col] \<Rightarrow> \<lparr>mh_operation = c, mh_collection = col\<rparr>
                      | _ \<Rightarrow> no_hints)
                   else no_hints)
      in if mh_operation hints = [] \<and> mh_collection hints = [] \<and> trim_space rawRequest \<noteq> [] then
           (case unmarshal_obj rawRequest of
              None \<Rightarrow> hints
            | Some _ \<Rightarrow> complete_mongo_hints hints rawRequest)
         else hints)"

definition wire_signature :: "string \<Rightarrow> string \<Rightarrow> string \<Rightarrow> bytes \<Rightarrow> string" where
  "wire_signature protocol metadata rawRequest stored =
     (if protocol = ''http'' then
        (case parse_http_wire_metadata metadata rawRequest of (m, p) \<Rightarrow> http_signature m p)
      else if protocol = ''mongodb'' then
        mongo_signature (if rawRequest = [] then stored else rawRequest)
          (parse_mongo_wire_metadata metadata rawRequest)
      else egress_signature protocol stored)"

definition from_wire_envelope ::
  "instant \<Rightarrow> network_event_envelope option \<Rightarrow> string + raw_report" where
  "from_wire_envelope clock env0 =
     (case env0 of
        None \<Rightarrow> Inl ''nil envelope''
      | Some env \<Rightarrow>
          (case normalize_wire_trace_id (ne_trace_id env) of
             Inl e \<Rightarrow> Inl e
           | Inr traceID \<Rightarrow>
               let role = trim_space (ne_pod_role env);
                   protocol = to_lower (trim_space (ne_protocol env))
               in if \<not> is_valid_role role then Inl (''invalid pod_role '' @ ne_pod_role env)
                  else if protocol = [] then Inl ''protocol is required''
                  else
                    let direction = (if equal_fold (trim_space (ne_direction env)) DirectionIngress
                                     then DirectionIngress else DirectionEgress);
                        stored = wire_stored_payload env
                    in Inr \<lparr>r_trace_id = traceID, r_shadow_role = role,
                            r_shadow_test_name = trim_space (ne_shadow_test_name env),
                            r_protocol = protocol, r_direction = direction,
                            r_signature = wire_signature protocol (ne_metadata env)
                                            (ne_raw_request env) stored,
                            r_status_code = [], r_payload = stored,
                            r_captured_at = (if ne_timestamp env = 0 then clock else ne_timestamp env),
                            r_ingest_id = 0\<rparr>))"

end
