(* ===== verification/GoJsonTrip.thy ===== *)
theory GoJsonTrip
  imports GoJson
begin

text \<open>
  The JSON round trip: what \<^verbatim>\<open>json.Marshal\<close> prints is read back unchanged by the
  parser, for values whose strings are valid UTF-8 and whose numbers are JSON literals.
\<close>

section \<open>Strings\<close>

function utf8_ok :: "string \<Rightarrow> bool" where
  "utf8_ok s =
     (if s = [] then True
      else if utf8_width s = 0 then False else utf8_ok (drop (utf8_width s) s))"
  by pat_completeness auto
termination
  by (relation "measure length") (auto simp: utf8_width_le)

declare utf8_ok.simps [simp del]

lemma utf8_width_4: "utf8_width s \<le> 4"
  by (cases s) (auto simp: Let_def split: list.splits)

lemma utf8_width_append:
  assumes "utf8_width s \<noteq> 0"
  shows "utf8_width (take (utf8_width s) s @ r) = utf8_width s"
proof (cases s)
  case (Cons c t)
  then show ?thesis
    using assms by (auto simp: Let_def split: list.splits if_splits)
qed (use assms in simp)

lemma utf8_width_1_iff: "utf8_width (c # s) = 1 \<longleftrightarrow> (of_char c :: nat) < 128"
  by (auto simp: Let_def split: list.splits if_splits)

lemma utf8_width_ascii: "(of_char c :: nat) < 128 \<Longrightarrow> utf8_width (c # s) = 1"
  by (simp add: Let_def)

lemma utf8_ok_ascii: "\<forall>c \<in> set s. (of_char c :: nat) < 128 \<Longrightarrow> utf8_ok s"
proof (induction s)
  case (Cons c s)
  then show ?case
    by (subst utf8_ok.simps) (simp add: utf8_width_ascii del: utf8_width.simps)
qed (simp add: utf8_ok.simps)

lemma hex_val_hex_char: "d < 16 \<Longrightarrow> hex_val (hex_char d) = d"
  by (simp add: hex_val_def hex_char_def of_hex_char split: if_splits)

lemma is_hex_hex_char: "d < 16 \<Longrightarrow> is_hex_char (hex_char d)"
  by (simp add: is_hex_char_nat of_hex_char)

lemma str_unit_unicode:
  assumes "n < 128"
  shows "str_unit (CHR 0x5C # CHR ''u'' # hex4_str n @ r) = Some ([char_of n], r)"
  using assms
  by (simp add: str_unit.simps hex4_str_def hex4_def hex_val_hex_char is_hex_hex_char utf8_encode_def)

lemma str_unit_simple:
  "e \<noteq> CHR ''u'' \<Longrightarrow> str_unit (CHR 0x5C # e # r) = map_option (\<lambda>n. ([char_of n], r)) (simple_escape e)"
  by (simp add: str_unit.simps split: list.split)

lemma char_of_quote: "char_of (34 :: nat) = CHR 0x22" "char_of (92 :: nat) = CHR 0x5C"
  by code_simp+

lemma str_unit_ascii:
  assumes "(of_char c :: nat) < 128"
  shows "str_unit (quote_ascii c @ r) = Some ([c], r)"
proof -
  obtain n where c: "c = char_of (n :: nat)" and n: "n < 128"
    using assms by (metis char_of_char)
  have oc: "n mod 256 = n"
    using n by simp
  consider "n = 34 \<or> n = 92" | "n = 8" | "n = 12" | "n = 10" | "n = 13" | "n = 9"
    | "n \<notin> {34, 92, 8, 12, 10, 13, 9}" "n < 32 \<or> n = 60 \<or> n = 62 \<or> n = 38"
    | "n \<ge> 32" "n \<notin> {34, 92, 60, 62, 38}"
    by fastforce
  then show ?thesis
  proof cases
    case 7
    then show ?thesis
      using str_unit_unicode [OF n, of r] by (simp add: quote_ascii_def Let_def c oc)
  next
    case 8
    have "char_of n \<noteq> CHR 0x5C"
    proof
      assume "char_of n = CHR 0x5C"
      then have "(of_char (char_of n :: char) :: nat) = of_char (CHR 0x5C)"
        by simp
      then show False
        using 8 n by simp
    qed
    then show ?thesis
      using 8 n by (auto simp: quote_ascii_def Let_def str_unit.simps utf8_width_ascii c oc)
  qed (auto simp: quote_ascii_def Let_def str_unit_simple simple_escape_def char_of_quote c oc)
qed

lemma quote_ascii_hd:
  "(of_char c :: nat) < 128 \<Longrightarrow> \<exists>d t. quote_ascii c = d # t \<and> d \<noteq> CHR 0x22"
  by (auto simp: quote_ascii_def Let_def)

lemma utf8_multi_hd:
  assumes "utf8_width (c # s) \<noteq> 0" "utf8_width (c # s) \<noteq> 1"
  shows "128 \<le> (of_char c :: nat)"
  using assms utf8_width_ascii [of c s] by (meson not_le)

lemma str_unit_multi:
  assumes w: "utf8_width (c # s) = w" "w \<noteq> 0" "w \<noteq> 1"
  shows "str_unit (take w (c # s) @ r) = Some (take w (c # s), r)"
proof -
  have hd: "128 \<le> (of_char c :: nat)"
    using utf8_multi_hd w by blast
  have w': "utf8_width (take w (c # s) @ r) = w"
    using utf8_width_append [of "c # s" r] w by simp
  have len: "length (take w (c # s)) = w"
    using utf8_width_le [of "c # s"] w by simp
  obtain v where v: "w = Suc v"
    using w by (cases w) auto
  have "c \<noteq> CHR 0x5C"
    using hd by auto
  then show ?thesis
    using hd w' len unfolding v by (simp add: str_unit.simps Let_def del: utf8_width.simps)
qed

lemma str_unit_2028:
  "str_unit (CHR 0x5C # ''u2028'' @ r) = Some (utf8_encode 8232, r)"
  "str_unit (CHR 0x5C # ''u2029'' @ r) = Some (utf8_encode 8233, r)"
  by (simp_all add: str_unit.simps hex4_def hex_val_def is_hex_char_nat Let_def)

text \<open>Reading back the quoted body, up to the closing quote.\<close>

lemma parse_str_step:
  assumes "str_unit (q @ r) = Some (u, r)" "q = d # t" "d \<noteq> CHR 0x22"
  shows "parse_str (q @ r) = map_option (\<lambda>(x, r'). (u @ x, r')) (parse_str r)"
  using assms by (subst parse_str.simps) (auto split: option.splits)

lemma parse_str_quote_body:
  "utf8_ok s \<Longrightarrow> parse_str (quote_body s @ CHR 0x22 # r) = Some (s, r)"
proof (induction s rule: utf8_ok.induct)
  case (1 s)
  show ?case
  proof (cases s)
    case Nil
    then show ?thesis
      by (simp add: quote_body.simps parse_str.simps)
  next
    case (Cons c t)
    define w where "w = utf8_width s"
    have w0: "w \<noteq> 0" and ok: "utf8_ok (drop w s)"
      using "1.prems" Cons unfolding w_def by (subst (asm) utf8_ok.simps; simp split: if_splits)+
    have IH: "parse_str (quote_body (drop w s) @ CHR 0x22 # r) = Some (drop w s, r)"
      using "1.IH" Cons w0 ok by (simp add: w_def del: utf8_width.simps)
    have step: "parse_str (q @ quote_body (drop w s) @ CHR 0x22 # r) = Some (s, r)"
      if "str_unit (q @ quote_body (drop w s) @ CHR 0x22 # r)
            = Some (take w s, quote_body (drop w s) @ CHR 0x22 # r)"
        and "q = d # t'" "d \<noteq> CHR 0x22" for q d t'
      using parse_str_step [OF that] IH by simp
    consider "w = 1" | "w \<noteq> 1" "take w s = utf8_encode 8232" | "w \<noteq> 1" "take w s = utf8_encode 8233"
      | "w \<noteq> 1" "take w s \<noteq> utf8_encode 8232" "take w s \<noteq> utf8_encode 8233"
      by blast
    then show ?thesis
    proof cases
      case 1
      then have c: "(of_char c :: nat) < 128"
        using utf8_width_1_iff Cons w_def by metis
      obtain d t' where q: "quote_ascii c = d # t'" "d \<noteq> CHR 0x22"
        using quote_ascii_hd [OF c] by blast
      have "quote_body s = quote_ascii c @ quote_body (drop w s)"
        using 1 Cons w_def by (subst quote_body.simps) (simp add: Let_def del: utf8_width.simps)
      then show ?thesis
        using step [of "quote_ascii c" d t'] str_unit_ascii [OF c] q 1 Cons by simp
    next
      case 2
      have "quote_body s = (CHR 0x5C # ''u2028'') @ quote_body (drop w s)"
        using 2 w0 Cons w_def by (subst quote_body.simps) (simp add: Let_def del: utf8_width.simps)
      then show ?thesis
        using step [of "CHR 0x5C # ''u2028''"] str_unit_2028 2 by simp
    next
      case 3
      have "utf8_encode 8233 \<noteq> utf8_encode 8232"
        by (simp add: utf8_encode_def)
      then have "quote_body s = (CHR 0x5C # ''u2029'') @ quote_body (drop w s)"
        using 3 w0 Cons w_def by (subst quote_body.simps) (simp add: Let_def del: utf8_width.simps)
      then show ?thesis
        using step [of "CHR 0x5C # ''u2029''"] str_unit_2028 3 by simp
    next
      case 4
      have q: "quote_body s = take w s @ quote_body (drop w s)"
        using 4 w0 Cons w_def by (subst quote_body.simps) (simp add: Let_def del: utf8_width.simps)
      have hd: "128 \<le> (of_char c :: nat)"
        using utf8_multi_hd 4 w0 Cons w_def by blast
      obtain v where v: "w = Suc v"
        using w0 by (cases w) auto
      have "take w s = c # take v t" "c \<noteq> CHR 0x22"
        using hd v Cons by auto
      then show ?thesis
        unfolding q using step [of "take w s" c "take v t"] str_unit_multi [of c t w] 4 w0 Cons w_def
        by simp
    qed
  qed
qed

section \<open>Numbers\<close>

text \<open>What may follow a value inside a document.\<close>

definition value_end :: "string \<Rightarrow> bool" where
  "value_end r \<longleftrightarrow> (case r of [] \<Rightarrow> True | c # _ \<Rightarrow> c = CHR '','' \<or> c = CHR '']'' \<or> c = CHR ''}'')"

definition num_lit :: "string \<Rightarrow> bool" where
  "num_lit l \<longleftrightarrow> scan_num l = Some (l, [])"

lemma value_end_cons: "value_end (c # r) \<longleftrightarrow> c = CHR '','' \<or> c = CHR '']'' \<or> c = CHR ''}''"
  by (simp add: value_end_def)

lemma value_end_hd:
  "value_end r \<Longrightarrow> r \<noteq> [] \<Longrightarrow>
     \<not> is_digit (hd r) \<and> hd r \<noteq> CHR ''.'' \<and> hd r \<noteq> CHR ''e'' \<and> hd r \<noteq> CHR ''E'' \<and>
     hd r \<noteq> CHR ''0'' \<and> hd r \<noteq> CHR ''+'' \<and> hd r \<noteq> CHR ''-''"
  by (cases r) (auto simp: value_end_def is_digit_def char_le_iff)

lemma takeWhile_digits_append:
  "value_end r \<Longrightarrow> takeWhile is_digit (s @ r) = takeWhile is_digit s"
  "value_end r \<Longrightarrow> dropWhile is_digit (s @ r) = dropWhile is_digit s @ r"
  by (induction s) (use value_end_hd in \<open>cases r; force\<close>)+

lemma scan_exp_append:
  assumes "value_end r" "scan_exp s = Some (e, t)"
  shows "scan_exp (s @ r) = Some (e, t @ r)"
proof (cases s)
  case Nil
  then show ?thesis
    using assms value_end_hd [of r] by (cases r) (auto simp: scan_exp_def)
next
  case (Cons c u)
  then show ?thesis
    using assms value_end_hd [of r]
    by (cases u; cases r)
      (auto simp: scan_exp_def span_digits_def Let_def takeWhile_digits_append
        split: if_splits)
qed

lemma scan_frac_append:
  assumes "value_end r" "scan_frac s = Some (e, t)"
  shows "scan_frac (s @ r) = Some (e, t @ r)"
proof (cases s)
  case Nil
  then show ?thesis
    using assms value_end_hd [of r] by (cases r) (auto simp: scan_frac_def)
next
  case (Cons c u)
  then show ?thesis
    using assms
    by (auto simp: scan_frac_def span_digits_def Let_def takeWhile_digits_append split: if_splits)
qed

lemma scan_int_append:
  assumes "value_end r" "scan_int s = Some (e, t)"
  shows "scan_int (s @ r) = Some (e, t @ r)"
  using assms takeWhile_digits_append [OF assms(1), of s]
  by (cases s) (auto simp: scan_int_def span_digits_def split: if_splits)

lemma scan_int_nonempty: "scan_int s = Some p \<Longrightarrow> s \<noteq> [] \<and> is_digit (hd s)"
  by (cases s) (auto simp: scan_int_def is_digit_def char_le_iff split: if_splits)

lemma scan_num_append:
  assumes "value_end r" "scan_num s = Some (e, t)"
  shows "scan_num (s @ r) = Some (e, t @ r)"
proof -
  obtain sg s1 where sg: "(case s of c # t \<Rightarrow> if c = CHR ''-'' then ([c], t) else ([], s) | [] \<Rightarrow> ([], s)) = (sg, s1)"
    by fastforce
  obtain i r1 where i: "scan_int s1 = Some (i, r1)"
    using assms(2) sg by (auto simp: scan_num_def split: option.splits)
  obtain f r2 where f: "scan_frac r1 = Some (f, r2)"
    using assms(2) sg i by (auto simp: scan_num_def split: option.splits)
  obtain x r3 where x: "scan_exp r2 = Some (x, r3)"
    using assms(2) sg i f by (auto simp: scan_num_def split: option.splits)
  have "s \<noteq> []"
    using sg scan_int_nonempty [OF i] by auto
  then have sg': "(case s @ r of c # t \<Rightarrow> if c = CHR ''-'' then ([c], t) else ([], s @ r) | [] \<Rightarrow> ([], s @ r))
      = (sg, s1 @ r)"
    using sg by (cases s) (auto split: if_splits)
  show ?thesis
    using assms(2) scan_int_append [OF assms(1) i] scan_frac_append [OF assms(1) f]
      scan_exp_append [OF assms(1) x]
    unfolding scan_num_def sg sg' by (simp add: i f x)
qed

lemma num_lit_hd:
  assumes "num_lit l"
  obtains c t where "l = c # t" "is_digit c \<or> c = CHR ''-''"
proof (cases l)
  case Nil
  then show ?thesis
    using assms by (simp add: num_lit_def scan_num_def scan_int_def)
next
  case (Cons c t)
  then show ?thesis
    using assms that scan_int_nonempty [of l]
    by (auto simp: num_lit_def scan_num_def split: option.splits if_splits)
qed

lemma of_digit_char:
  assumes "0 \<le> n" "n < 10"
  shows "(of_char (digit_char n) :: nat) = nat (48 + n)"
proof -
  have "int (of_char (digit_char n)) = (of_char (digit_char n) :: int)"
    by (rule of_nat_of_char)
  also have "\<dots> = 48 + n"
    using assms by (simp add: digit_char_def)
  finally show ?thesis
    by simp
qed

lemma digit_char_digit: "0 \<le> n \<Longrightarrow> n < 10 \<Longrightarrow> is_digit (digit_char n)"
  by (auto simp: is_digit_def char_le_iff of_digit_char le_nat_iff nat_le_iff)

lemma dec_digits_digits: "0 \<le> n \<Longrightarrow> \<forall>c \<in> set (dec_digits n). is_digit c"
proof (induction n rule: dec_digits.induct)
  case (1 n)
  then show ?case
    by (subst dec_digits.simps) (auto simp: digit_char_digit)
qed

lemma dec_digits_no_zero: "0 < n \<Longrightarrow> hd (dec_digits n) \<noteq> CHR ''0''"
proof (induction n rule: dec_digits.induct)
  case (1 n)
  have "digit_char n \<noteq> CHR ''0''" if "n < 10"
    using 1(2) that by (auto simp: char_eq_iff_nat of_digit_char)
  then show ?case
    using 1 by (subst dec_digits.simps) auto
qed

lemma takeWhile_all: "\<forall>c \<in> set s. P c \<Longrightarrow> takeWhile P s = s \<and> dropWhile P s = []"
  by (induction s) auto

lemma scan_int_dec_digits:
  assumes "0 \<le> n"
  shows "scan_int (dec_digits n) = Some (dec_digits n, [])"
proof (cases "n = 0")
  case True
  have "dec_digits 0 = ''0''"
    by code_simp
  then show ?thesis
    by (simp add: True scan_int_def)
next
  case False
  obtain c t where ct: "dec_digits n = c # t"
    using dec_digits_nonempty by (cases "dec_digits n") auto
  have "c \<noteq> CHR ''0''" "is_digit c"
    using dec_digits_no_zero [of n] dec_digits_digits [of n] assms False ct by auto
  moreover have "takeWhile is_digit (dec_digits n) = dec_digits n \<and> dropWhile is_digit (dec_digits n) = []"
    using takeWhile_all [OF dec_digits_digits [OF assms]] .
  ultimately show ?thesis
    unfolding ct by (simp add: scan_int_def span_digits_def)
qed

lemma num_lit_itoz [simp]: "num_lit (itoz n)"
proof (cases "n < 0")
  case True
  then show ?thesis
    using scan_int_dec_digits [of "- n"]
    by (simp add: num_lit_def itoz_def scan_num_def scan_frac_def scan_exp_def)
next
  case False
  have "hd (dec_digits n) \<noteq> CHR ''-''"
    using dec_digits_digits [of n] False dec_digits_nonempty [of n]
    by (cases "dec_digits n") (auto simp: is_digit_def char_le_iff)
  then have "(case dec_digits n of c # t \<Rightarrow> if c = CHR ''-'' then ([c], t) else ([], dec_digits n)
              | [] \<Rightarrow> ([], dec_digits n)) = ([], dec_digits n)"
    by (cases "dec_digits n") auto
  then show ?thesis
    using scan_int_dec_digits [of n] False
    by (simp add: num_lit_def itoz_def scan_num_def scan_frac_def scan_exp_def)
qed

section \<open>Documents\<close>

fun json_wf :: "jval \<Rightarrow> bool" where
  "json_wf (JStr s) = utf8_ok s"
| "json_wf (JNum l) = num_lit l"
| "json_wf (JArr vs) = list_all json_wf vs"
| "json_wf (JObj ms) = list_all (\<lambda>(k, v). utf8_ok k \<and> json_wf v) ms"
| "json_wf v = True"

fun json_depth :: "jval \<Rightarrow> int" where
  "json_depth (JArr vs) = 1 + foldr (\<lambda>v d. max (json_depth v) d) vs 0"
| "json_depth (JObj ms) = 1 + foldr (\<lambda>(k, v) d. max (json_depth v) d) ms 0"
| "json_depth v = 0"

lemma skip_ws_cons [simp]: "skip_ws (c # s) = (if json_space c then skip_ws s else c # s)"
  by (simp add: skip_ws_def)

lemma skip_ws_end: "value_end r \<Longrightarrow> skip_ws r = r"
  by (cases r) (auto simp: skip_ws_def value_end_def json_space_def)

text \<open>The first character a value prints as.\<close>

lemma json_marshal_hd:
  assumes "json_wf v"
  obtains c t where "json_marshal v = c # t" "\<not> json_space c" "c \<noteq> CHR '']''"
proof (cases v)
  case (JNum l)
  then obtain c t where l: "l = c # t" "is_digit c \<or> c = CHR ''-''"
    using assms num_lit_hd [of l] by auto
  then have "\<not> json_space c" "c \<noteq> CHR '']''"
    by (auto simp: json_space_def is_digit_def char_le_iff)
  then show ?thesis
    using that l JNum by simp
next
  case (JBool b)
  then show ?thesis
    using that by (cases b) (auto simp: json_space_def)
qed (use that in \<open>auto simp: json_quote_def json_space_def\<close>)

definition reads_back :: "jval \<Rightarrow> bool" where
  "reads_back v \<longleftrightarrow>
     (\<forall>f d r. 2 * length (json_marshal v) \<le> f \<longrightarrow> json_depth v \<le> d \<longrightarrow> value_end r \<longrightarrow>
        parse_value f d (json_marshal v @ r) = Some (v, r))"

lemma reads_backD:
  "reads_back v \<Longrightarrow> 2 * length (json_marshal v) \<le> f \<Longrightarrow> json_depth v \<le> d \<Longrightarrow> value_end r \<Longrightarrow>
     parse_value f d (json_marshal v @ r) = Some (v, r)"
  by (simp add: reads_back_def)

lemma reads_back_num:
  assumes "num_lit l"
  shows "reads_back (JNum l)"
  unfolding reads_back_def
proof (intro allI impI)
  fix f d and r :: string
  assume f: "2 * length (json_marshal (JNum l)) \<le> f" and r: "value_end r"
  obtain c t where l: "l = c # t" "is_digit c \<or> c = CHR ''-''"
    using num_lit_hd [OF assms] .
  have c: "\<not> json_space c" "c \<noteq> CHR 0x22" "c \<noteq> CHR ''{''" "c \<noteq> CHR ''[''"
      "c \<noteq> CHR ''n''" "c \<noteq> CHR ''t''" "c \<noteq> CHR ''f''"
    using l(2) by (auto simp: json_space_def is_digit_def char_le_iff)
  obtain f' where f': "f = Suc f'"
    using f l by (cases f) auto
  have "scan_num (c # t @ r) = Some (c # t, r)"
    using scan_num_append [of r l l "[]"] r assms l by (simp add: num_lit_def)
  then show "parse_value f d (json_marshal (JNum l) @ r) = Some (JNum l, r)"
    using c by (simp add: f' l has_prefix_def)
qed

lemma reads_back_scalar:
  "reads_back JNull" "reads_back (JBool b)" "utf8_ok s \<Longrightarrow> reads_back (JStr s)"
  unfolding reads_back_def
  subgoal by (intro allI impI, case_tac f) (auto simp: has_prefix_def json_space_def)
  subgoal by (intro allI impI, case_tac f; cases b) (auto simp: has_prefix_def json_space_def)
  subgoal
    by (intro allI impI, case_tac f)
      (auto simp: json_quote_def json_space_def parse_str_quote_body)
  done

lemma parse_elements_join:
  assumes "vs \<noteq> []" "\<forall>v \<in> set vs. reads_back v"
    and "2 * length (join_with '','' (map json_marshal vs)) + 1 \<le> f"
    and "\<forall>v \<in> set vs. json_depth v \<le> d"
  shows "parse_elements f d (join_with '','' (map json_marshal vs) @ '']'' @ r) = Some (vs, r)"
  using assms
proof (induction vs arbitrary: f)
  case (Cons v vs)
  obtain f' where f': "f = Suc f'"
    using Cons.prems(3) by (cases f) auto
  show ?case
  proof (cases vs)
    case Nil
    then have "parse_value f' d (json_marshal v @ '']'' @ r) = Some (v, '']'' @ r)"
      using Cons.prems f' by (intro reads_backD) (auto simp: value_end_cons)
    then show ?thesis
      using Nil f' by (simp add: json_space_def)
  next
    case (Cons w ws)
    let ?rest = "join_with '','' (map json_marshal vs) @ '']'' @ r"
    have "parse_value f' d (json_marshal v @ '','' @ ?rest) = Some (v, '','' @ ?rest)"
      using Cons.prems f' Cons by (intro reads_backD) (auto simp: value_end_cons)
    moreover have "parse_elements f' d ?rest = Some (vs, r)"
      using Cons.prems f' Cons by (intro Cons.IH) auto
    ultimately show ?thesis
      using Cons f' by (simp add: json_space_def)
  qed
qed simp

abbreviation member_text :: "string \<times> jval \<Rightarrow> string" where
  "member_text m \<equiv> (case m of (k, v) \<Rightarrow> json_quote k @ '':'' @ json_marshal v)"

lemma parse_members_join:
  assumes "ms \<noteq> []" "\<forall>(k, v) \<in> set ms. utf8_ok k \<and> reads_back v"
    and "2 * length (join_with '','' (map member_text ms)) + 1 \<le> f"
    and "\<forall>(k, v) \<in> set ms. json_depth v \<le> d"
  shows "parse_members f d (join_with '','' (map member_text ms) @ ''}'' @ r) = Some (ms, r)"
  using assms
proof (induction ms arbitrary: f)
  case (Cons m ms)
  obtain k v where m: "m = (k, v)"
    by (cases m)
  obtain f' where f': "f = Suc f'"
    using Cons.prems(3) by (cases f) auto
  have key: "parse_str (quote_body k @ CHR 0x22 # x) = Some (k, x)" for x
    using Cons.prems(2) m by (intro parse_str_quote_body) auto
  show ?case
  proof (cases ms)
    case Nil
    then have "parse_value f' d (json_marshal v @ ''}'' @ r) = Some (v, ''}'' @ r)"
      using Cons.prems f' m by (intro reads_backD) (auto simp: value_end_cons)
    then show ?thesis
      using Nil f' m key by (simp add: json_space_def json_quote_def)
  next
    case (Cons w ws)
    let ?rest = "join_with '','' (map member_text ms) @ ''}'' @ r"
    have "parse_value f' d (json_marshal v @ '','' @ ?rest) = Some (v, '','' @ ?rest)"
      using Cons.prems f' Cons m by (intro reads_backD) (auto simp: value_end_cons)
    moreover have "parse_members f' d ?rest = Some (ms, r)"
      using Cons.prems f' Cons m by (intro Cons.IH) auto
    ultimately show ?thesis
      using Cons f' m key by (simp add: json_space_def json_quote_def)
  qed
qed simp

lemma foldr_max_le:
  "foldr (\<lambda>x d. max (g x) d) xs 0 \<le> (d :: int) \<Longrightarrow> \<forall>x \<in> set xs. g x \<le> d"
  by (induction xs) auto

lemma foldr_max_nonneg: "0 \<le> foldr (\<lambda>x d. max (g x) d) xs (0 :: int)"
  by (induction xs) auto

lemma join_with_hd:
  "xs \<noteq> [] \<Longrightarrow> hd xs = c # t \<Longrightarrow> \<exists>u. join_with sep xs = c # u"
  by (cases xs rule: remdups_adj.cases) auto

lemma json_reads_back: "json_wf v \<Longrightarrow> reads_back v"
proof (induction v rule: json_marshal.induct)
  case (5 vs)
  then have vs: "\<forall>v \<in> set vs. reads_back v"
    by (auto simp: list_all_iff)
  show ?case
    unfolding reads_back_def
  proof (intro allI impI)
    fix f d and r :: string
    assume f: "2 * length (json_marshal (JArr vs)) \<le> f" and d: "json_depth (JArr vs) \<le> d"
    obtain f' where f': "f = Suc f'"
      using f by (cases f) auto
    have d0: "0 < d" and dv: "\<forall>v \<in> set vs. json_depth v \<le> d - 1"
      using d foldr_max_nonneg [of json_depth vs] foldr_max_le [of json_depth vs "d - 1"] by auto
    show "parse_value f d (json_marshal (JArr vs) @ r) = Some (JArr vs, r)"
    proof (cases vs)
      case Nil
      then show ?thesis
        using d0 f' by (simp add: json_space_def)
    next
      case (Cons v ws)
      obtain c t where c: "json_marshal v = c # t" "\<not> json_space c" "c \<noteq> CHR '']''"
        using json_marshal_hd [of v] 5 Cons by auto
      obtain u where u: "join_with '','' (map json_marshal vs) = c # u"
        using join_with_hd [of "map json_marshal vs" c t "'',''"] Cons c by auto
      have "parse_elements f' (d - 1) (join_with '','' (map json_marshal vs) @ '']'' @ r) = Some (vs, r)"
        using vs dv f f' Cons by (intro parse_elements_join) auto
      then show ?thesis
        using d0 f' c u by (simp add: json_space_def)
    qed
  qed
next
  case (6 ms)
  then have ms: "\<forall>(k, v) \<in> set ms. utf8_ok k \<and> reads_back v"
    by (auto simp: list_all_iff)
  show ?case
    unfolding reads_back_def
  proof (intro allI impI)
    fix f d and r :: string
    assume f: "2 * length (json_marshal (JObj ms)) \<le> f" and d: "json_depth (JObj ms) \<le> d"
    obtain f' where f': "f = Suc f'"
      using f by (cases f) auto
    let ?g = "\<lambda>(k :: string, v). json_depth v"
    have g: "foldr (\<lambda>(k, v) d. max (json_depth v) d) ms 0 = foldr (\<lambda>x d. max (?g x) d) ms 0"
      by (intro foldr_cong) auto
    have d0: "0 < d" and dv: "\<forall>(k, v) \<in> set ms. json_depth v \<le> d - 1"
      using d foldr_max_nonneg [of ?g ms] foldr_max_le [of ?g ms "d - 1"] unfolding json_depth.simps g by auto
    show "parse_value f d (json_marshal (JObj ms) @ r) = Some (JObj ms, r)"
    proof (cases ms)
      case Nil
      then show ?thesis
        using d0 f' by (simp add: json_space_def)
    next
      case (Cons m ws)
      obtain t where t: "member_text m = CHR 0x22 # t"
        by (cases m) (simp add: json_quote_def)
      obtain u where u: "join_with '','' (map member_text ms) = CHR 0x22 # u"
        using join_with_hd [of "map member_text ms" "CHR 0x22" t "'',''"] Cons t by auto
      have "parse_members f' (d - 1) (join_with '','' (map member_text ms) @ ''}'' @ r) = Some (ms, r)"
        using ms dv f f' Cons by (intro parse_members_join) auto
      then show ?thesis
        using d0 f' u by (simp add: json_space_def)
    qed
  qed
qed (auto simp: reads_back_num reads_back_scalar)

theorem json_parse_marshal:
  assumes "json_wf v" "json_depth v \<le> max_nesting_depth"
  shows "json_parse (json_marshal v) = Some v"
  using reads_backD [OF json_reads_back [OF assms(1)] _ assms(2),
      of "2 * length (json_marshal v) + 2" "[]"]
  by (simp add: json_parse_def value_end_def skip_ws_def)

lemma json_valid_marshal:
  "json_wf v \<Longrightarrow> json_depth v \<le> max_nesting_depth \<Longrightarrow> json_valid (json_marshal v)"
  by (simp add: json_valid_def json_parse_marshal)

end
