(* ===== verification/GoDecode.thy ===== *)
theory GoDecode
  imports GoJsonTrip BeruModel
begin

text \<open>
  \<^verbatim>\<open>json.Unmarshal\<close> into structs, and the decoder of \<^verbatim>\<open>VerdictDetails\<close>.  A
  decoder maps a JSON value and the current Go value to the new value and whether the value had
  a matching type: a type error is remembered and the rest still decoded, as the package does.
  Objects with repeated keys decode the later member over the earlier one.
\<close>

type_synonym 'a decoder = "jval \<Rightarrow> 'a \<Rightarrow> 'a \<times> bool"

fun decode_string :: "string decoder" where
  "decode_string (JStr s) cur = (s, True)"
| "decode_string JNull cur = (cur, True)"
| "decode_string v cur = (cur, False)"

text \<open>A pointer to an \<^verbatim>\<open>int\<close>: any value but \<^verbatim>\<open>null\<close> allocates it.\<close>

fun decode_int_ptr :: "int option decoder" where
  "decode_int_ptr JNull cur = (None, True)"
| "decode_int_ptr (JNum l) cur =
     (case atoi l of
        Some n \<Rightarrow> (Some n, True)
      | None \<Rightarrow> (Some (case cur of None \<Rightarrow> 0 | Some n \<Rightarrow> n), False))"
| "decode_int_ptr v cur = (Some (case cur of None \<Rightarrow> 0 | Some n \<Rightarrow> n), False)"

fun decode_elements :: "'a decoder \<Rightarrow> 'a \<Rightarrow> jval list \<Rightarrow> 'a list \<Rightarrow> 'a list \<times> bool" where
  "decode_elements dec zero [] cur = ([], True)"
| "decode_elements dec zero (v # vs) cur =
     (let (x, ok) = dec v (case cur of [] \<Rightarrow> zero | c # _ \<Rightarrow> c);
          (xs, oks) = decode_elements dec zero vs (tl cur)
      in (x # xs, ok \<and> oks))"

fun decode_slice :: "'a decoder \<Rightarrow> 'a \<Rightarrow> 'a list decoder" where
  "decode_slice dec zero JNull cur = ([], True)"
| "decode_slice dec zero (JArr vs) cur = decode_elements dec zero vs cur"
| "decode_slice dec zero v cur = (cur, False)"

fun decode_ptr :: "'a decoder \<Rightarrow> 'a \<Rightarrow> 'a option decoder" where
  "decode_ptr dec zero v cur =
     (if v = JNull then (None, True)
      else let (x, ok) = dec v (case cur of None \<Rightarrow> zero | Some c \<Rightarrow> c) in (Some x, ok))"

text \<open>The field of a member: the one with the exact name, else one equal up to case.\<close>

definition field_of :: "(string \<times> 'a) list \<Rightarrow> string \<Rightarrow> 'a option" where
  "field_of fs k =
     (case map_of fs k of
        Some d \<Rightarrow> Some d
      | None \<Rightarrow> map_option snd (find (\<lambda>(n, d). equal_fold n k) fs))"

fun decode_members :: "(string \<times> 's decoder) list \<Rightarrow> (string \<times> jval) list \<Rightarrow> 's \<Rightarrow> 's \<times> bool" where
  "decode_members fs [] s = (s, True)"
| "decode_members fs ((k, v) # ms) s =
     (case field_of fs k of
        None \<Rightarrow> decode_members fs ms s
      | Some d \<Rightarrow> (let (s', ok) = d v s; (s'', oks) = decode_members fs ms s' in (s'', ok \<and> oks)))"

fun decode_struct :: "(string \<times> 's decoder) list \<Rightarrow> 's decoder" where
  "decode_struct fs (JObj ms) s = decode_members fs ms s"
| "decode_struct fs JNull s = (s, True)"
| "decode_struct fs v s = (s, False)"

text \<open>Decoding one field of a record, given how to read and write it.\<close>

definition in_field :: "('s \<Rightarrow> 'a) \<Rightarrow> ('a \<Rightarrow> 's \<Rightarrow> 's) \<Rightarrow> 'a decoder \<Rightarrow> 's decoder" where
  "in_field get put dec v s = (let (x, ok) = dec v (get s) in (put x s, ok))"

section \<open>VerdictDetails\<close>

definition step_zero :: verdict_step where
  "step_zero = \<lparr>s_kind = [], s_reason = [], s_protocol = [], s_signature = [], s_index = None,
                s_detail = [], s_noise_path = []\<rparr>"

definition baseline_zero :: baseline_failure where
  "baseline_zero = \<lparr>b_reason = [], b_protocol = [], b_detail = [], b_control_a = [], b_control_b = []\<rparr>"

definition decode_step :: "verdict_step decoder" where
  "decode_step = decode_struct
     [(''kind'', in_field s_kind (\<lambda>x. s_kind_update (\<lambda>_. x)) decode_string),
      (''reason'', in_field s_reason (\<lambda>x. s_reason_update (\<lambda>_. x)) decode_string),
      (''protocol'', in_field s_protocol (\<lambda>x. s_protocol_update (\<lambda>_. x)) decode_string),
      (''signature'', in_field s_signature (\<lambda>x. s_signature_update (\<lambda>_. x)) decode_string),
      (''index'', in_field s_index (\<lambda>x. s_index_update (\<lambda>_. x)) decode_int_ptr),
      (''detail'', in_field s_detail (\<lambda>x. s_detail_update (\<lambda>_. x)) decode_string),
      (''noise_path'', in_field s_noise_path (\<lambda>x. s_noise_path_update (\<lambda>_. x)) decode_string)]"

definition decode_baseline :: "baseline_failure decoder" where
  "decode_baseline = decode_struct
     [(''reason'', in_field b_reason (\<lambda>x. b_reason_update (\<lambda>_. x)) decode_string),
      (''protocol'', in_field b_protocol (\<lambda>x. b_protocol_update (\<lambda>_. x)) decode_string),
      (''detail'', in_field b_detail (\<lambda>x. b_detail_update (\<lambda>_. x)) decode_string),
      (''control_a'', in_field b_control_a (\<lambda>x. b_control_a_update (\<lambda>_. x)) decode_string),
      (''control_b'', in_field b_control_b (\<lambda>x. b_control_b_update (\<lambda>_. x)) decode_string)]"

definition decode_details :: "verdict_details decoder" where
  "decode_details = decode_struct
     [(''flags'', in_field d_flags (\<lambda>x. d_flags_update (\<lambda>_. x)) (decode_slice decode_string [])),
      (''steps'', in_field d_steps (\<lambda>x. d_steps_update (\<lambda>_. x)) (decode_slice decode_step step_zero)),
      (''baseline'', in_field d_baseline (\<lambda>x. d_baseline_update (\<lambda>_. x))
                       (decode_ptr decode_baseline baseline_zero)),
      (''missing_roles'', in_field d_missing (\<lambda>x. d_missing_update (\<lambda>_. x)) (decode_slice decode_string []))]"

text \<open>
  \<^verbatim>\<open>json.Unmarshal(s, &details)\<close>: a syntax error writes nothing.
\<close>

definition unmarshal_details :: "string \<Rightarrow> verdict_details \<times> bool" where
  "unmarshal_details s =
     (case json_parse s of
        None \<Rightarrow> (empty_details, False)
      | Some v \<Rightarrow> decode_details v empty_details)"

section \<open>Decoding what was marshalled\<close>

definition step_ok :: "verdict_step \<Rightarrow> bool" where
  "step_ok s \<longleftrightarrow> list_all utf8_ok [s_kind s, s_reason s, s_protocol s, s_signature s, s_detail s, s_noise_path s] \<and>
     (\<forall>i \<in> set_option (s_index s). - (2 ^ 63) \<le> i \<and> i \<le> 2 ^ 63 - 1)"

definition baseline_ok :: "baseline_failure \<Rightarrow> bool" where
  "baseline_ok b \<longleftrightarrow> list_all utf8_ok [b_reason b, b_protocol b, b_detail b, b_control_a b, b_control_b b]"

definition details_ok :: "verdict_details \<Rightarrow> bool" where
  "details_ok d \<longleftrightarrow> list_all utf8_ok (d_flags d) \<and> list_all utf8_ok (d_missing d) \<and>
     list_all step_ok (d_steps d) \<and> (\<forall>b \<in> set_option (d_baseline d). baseline_ok b)"

lemma foldl_dec_digits:
  "0 \<le> n \<Longrightarrow> foldl (\<lambda>acc c. 10 * acc + (int (of_char c) - 48)) 0 (dec_digits n) = n"
proof (induction n rule: dec_digits.induct)
  case (1 n)
  then show ?case
    by (subst dec_digits.simps) (simp add: of_digit_char)
qed

lemma atoi_itoz [simp]:
  assumes "- (2 ^ 63) \<le> n" "n \<le> 2 ^ 63 - 1"
  shows "atoi (itoz n) = Some n"
proof (cases "n < 0")
  case True
  then have "list_all is_digit (dec_digits (- n))"
    using dec_digits_digits [of "- n"] by (simp add: list_all_iff)
  then show ?thesis
    using True assms foldl_dec_digits [of "- n"] by (simp add: atoi_def itoz_def)
next
  case False
  have d: "list_all is_digit (dec_digits n)"
    using dec_digits_digits [of n] False by (simp add: list_all_iff)
  obtain c t where ct: "dec_digits n = c # t"
    using dec_digits_nonempty by (cases "dec_digits n") auto
  have "c \<noteq> CHR ''-''" "c \<noteq> CHR ''+''"
    using d ct by (auto simp: is_digit_def char_le_iff)
  then show ?thesis
    using False assms foldl_dec_digits [of n] d by (simp add: atoi_def itoz_def ct)
qed

lemma decode_elements_map:
  "\<forall>x \<in> set xs. dec (enc x) zero = (x, True) \<Longrightarrow>
   decode_elements dec zero (map enc xs) [] = (xs, True)"
  by (induction xs) auto

lemma decode_step_json: "step_ok s \<Longrightarrow> decode_step (step_json s) step_zero = (s, True)"
  by (cases s)
    (auto simp: decode_step_def step_json_def step_zero_def in_field_def field_of_def omit_empty_def
      step_ok_def split: option.splits)

lemma decode_baseline_json: "decode_baseline (baseline_json b) baseline_zero = (b, True)"
  by (cases b)
    (auto simp: decode_baseline_def baseline_json_def baseline_zero_def in_field_def field_of_def
      omit_empty_def)

lemma baseline_json_not_null [simp]: "baseline_json b \<noteq> JNull"
  by (simp add: baseline_json_def)

lemma decode_details_json: "details_ok d \<Longrightarrow> decode_details (details_json d) empty_details = (d, True)"
  by (cases d)
    (auto simp: decode_details_def details_json_def empty_details_def in_field_def field_of_def
      omit_empty_list_def details_ok_def list_all_iff decode_elements_map decode_step_json
      decode_baseline_json split: option.splits)

lemma foldr_max_bound:
  "0 \<le> (n :: int) \<Longrightarrow> \<forall>x \<in> set xs. g x \<le> n \<Longrightarrow> foldr (\<lambda>x d. max (g x) d) xs 0 \<le> n"
  by (induction xs) auto

lemma json_depth_arr: "0 \<le> n \<Longrightarrow> \<forall>v \<in> set vs. json_depth v \<le> n \<Longrightarrow> json_depth (JArr vs) \<le> n + 1"
  using foldr_max_bound [of n vs json_depth] by simp

lemma json_depth_obj:
  assumes "0 \<le> n" "\<forall>(k, v) \<in> set ms. json_depth v \<le> n"
  shows "json_depth (JObj ms) \<le> n + 1"
proof -
  have "foldr (\<lambda>(k, v) d. max (json_depth v) d) ms 0 = foldr (\<lambda>x d. max (json_depth (snd x)) d) ms 0"
    by (intro foldr_cong) auto
  moreover have "\<forall>x \<in> set ms. json_depth (snd x) \<le> n"
    using assms by auto
  ultimately show ?thesis
    using foldr_max_bound [OF assms(1), of ms "\<lambda>x. json_depth (snd x)"] by simp
qed

lemma step_json_depth: "json_depth (step_json s) \<le> 1"
  using json_depth_obj [of 0] by (auto simp: step_json_def omit_empty_def split: option.splits)

lemma baseline_json_depth: "json_depth (baseline_json b) \<le> 1"
  by (auto simp: baseline_json_def omit_empty_def)

lemma details_json_depth: "json_depth (details_json d) \<le> 3"
proof -
  have "json_depth (JArr (map JStr ss)) \<le> 2" for ss
    using json_depth_arr [of 1 "map JStr ss"] by auto
  moreover have "json_depth (JArr (map step_json xs)) \<le> 2" for xs
    using json_depth_arr [of 1 "map step_json xs"] step_json_depth by auto
  moreover have "json_depth (baseline_json b) \<le> 2" for b
    using baseline_json_depth [of b] by simp
  ultimately have "\<forall>(k, v) \<in> set (omit_empty_list ''flags'' (map JStr (d_flags d)) @
      omit_empty_list ''steps'' (map step_json (d_steps d)) @
      (case d_baseline d of None \<Rightarrow> [] | Some b \<Rightarrow> [(''baseline'', baseline_json b)]) @
      omit_empty_list ''missing_roles'' (map JStr (d_missing d))). json_depth v \<le> 2"
    by (auto simp: omit_empty_list_def split: option.splits simp del: json_depth.simps intro: order_trans)
  then show ?thesis
    using json_depth_obj [of 2] unfolding details_json_def by fastforce
qed

lemma step_json_wf: "step_ok s \<Longrightarrow> json_wf (step_json s)"
  by (auto simp: step_ok_def step_json_def omit_empty_def utf8_ok_ascii split: option.splits)

lemma baseline_json_wf: "baseline_ok b \<Longrightarrow> json_wf (baseline_json b)"
  by (auto simp: baseline_ok_def baseline_json_def omit_empty_def utf8_ok_ascii)

lemma details_json_wf: "details_ok d \<Longrightarrow> json_wf (details_json d)"
  by (auto simp: details_ok_def details_json_def omit_empty_list_def utf8_ok_ascii list_all_iff
      step_json_wf baseline_json_wf split: option.splits)

lemma unmarshal_must_json: "details_ok d \<Longrightarrow> unmarshal_details (must_json d) = (d, True)"
  using details_json_depth [of d]
  by (simp add: unmarshal_details_def must_json_def json_parse_marshal details_json_wf
      max_nesting_depth_def decode_details_json)

end
