(* ===== verification/KeyedTable.thy ===== *)
theory KeyedTable
  imports Prelude
begin

text \<open>
  Tables with a unique key, the interface between the operations of a store and the laws its
  clients rely on.  \<^verbatim>\<open>keyed_table\<close> is what every table promises: writing a row keeps
  keys unique, touches no other key and leaves the row's key present.  \<^verbatim>\<open>upserting\<close>
  adds that the last write wins (\<^verbatim>\<open>ON CONFLICT DO UPDATE\<close>), \<^verbatim>\<open>first_wins\<close>
  that the first one does (\<^verbatim>\<open>ON CONFLICT DO NOTHING\<close>).
\<close>

section \<open>Operations\<close>

definition find_row :: "('r \<Rightarrow> 'k) \<Rightarrow> 'k \<Rightarrow> 'r list \<Rightarrow> 'r option" where
  "find_row key k t = find (\<lambda>r. key r = k) t"

definition unique_keys :: "('r \<Rightarrow> 'k) \<Rightarrow> 'r list \<Rightarrow> bool" where
  "unique_keys key t \<longleftrightarrow> distinct (map key t)"

definition upsert_row :: "('r \<Rightarrow> 'k) \<Rightarrow> 'r \<Rightarrow> 'r list \<Rightarrow> 'r list" where
  "upsert_row key r t =
     (if key r \<in> key ` set t then map (\<lambda>x. if key x = key r then r else x) t else t @ [r])"

definition insert_once :: "('r \<Rightarrow> 'k) \<Rightarrow> 'r \<Rightarrow> 'r list \<Rightarrow> 'r list" where
  "insert_once key r t = (if key r \<in> key ` set t then t else t @ [r])"

lemma find_row_Nil [simp]: "find_row key k [] = None"
  by (simp add: find_row_def)

lemma find_row_Cons [simp]:
  "find_row key k (r # t) = (if key r = k then Some r else find_row key k t)"
  by (simp add: find_row_def)

lemma find_row_None_iff: "find_row key k t = None \<longleftrightarrow> k \<notin> key ` set t"
  by (induction t) auto

lemma find_row_absent: "k \<notin> key ` set t \<Longrightarrow> find_row key k t = None"
  by (simp add: find_row_None_iff)

lemma find_row_present: "k \<in> key ` set t \<Longrightarrow> \<exists>r. find_row key k t = Some r"
  using find_row_None_iff [of key k t] by blast

lemma find_row_SomeD: "find_row key k t = Some r \<Longrightarrow> r \<in> set t \<and> key r = k"
  by (induction t) (auto split: if_splits)

lemma find_row_append:
  "find_row key k (t @ u) = (case find_row key k t of None \<Rightarrow> find_row key k u | Some r \<Rightarrow> Some r)"
  by (induction t) auto

lemma find_row_unique:
  "unique_keys key t \<Longrightarrow> find_row key k t = Some r \<longleftrightarrow> r \<in> set t \<and> key r = k"
proof (induction t)
  case (Cons x t)
  show ?case
  proof (cases "key x = k")
    case True
    then have "k \<notin> key ` set t"
      using Cons.prems by (simp add: unique_keys_def)
    then have "\<forall>r \<in> set t. key r \<noteq> k"
      by blast
    then show ?thesis
      using True by auto
  next
    case False
    then show ?thesis
      using Cons by (auto simp: unique_keys_def)
  qed
qed simp

lemma find_row_map_other:
  "k \<noteq> key r \<Longrightarrow> find_row key k (map (\<lambda>x. if key x = key r then r else x) t) = find_row key k t"
  by (induction t) simp_all

lemma find_row_map_self:
  "find_row key (key r) (map (\<lambda>x. if key x = key r then r else x) t) =
     (if key r \<in> key ` set t then Some r else None)"
proof (induction t)
  case (Cons x t)
  then show ?case
    by (cases "key x = key r") simp_all
qed simp

lemma find_row_replace:
  "key r \<in> key ` set t \<Longrightarrow>
   find_row key k (map (\<lambda>x. if key x = key r then r else x) t) =
     (if k = key r then Some r else find_row key k t)"
  by (simp add: find_row_map_other find_row_map_self)

lemma replace_keys: "map key (map (\<lambda>x. if key x = key r then r else x) t) = map key t"
  by (induction t) auto

lemma find_row_upsert:
  "find_row key k (upsert_row key r t) = (if k = key r then Some r else find_row key k t)"
  by (auto simp: upsert_row_def find_row_replace find_row_append find_row_absent split: option.split)

lemma unique_keys_upsert: "unique_keys key t \<Longrightarrow> unique_keys key (upsert_row key r t)"
  unfolding unique_keys_def upsert_row_def by (auto simp: replace_keys simp del: map_map)

lemma unique_keys_insert_once: "unique_keys key t \<Longrightarrow> unique_keys key (insert_once key r t)"
  by (auto simp: unique_keys_def insert_once_def)

lemma find_row_insert_once:
  "find_row key k (insert_once key r t) =
     (if k = key r \<and> k \<notin> key ` set t then Some r else find_row key k t)"
  by (auto simp: insert_once_def find_row_append find_row_absent split: option.split)

lemma unique_keys_filter: "unique_keys key t \<Longrightarrow> unique_keys key (filter P t)"
  by (simp add: unique_keys_def distinct_map_filter)

lemma find_row_filter:
  "(\<And>r. key r = k \<Longrightarrow> P r) \<Longrightarrow> find_row key k (filter P t) = find_row key k t"
  by (induction t) auto

section \<open>Laws\<close>

locale keyed_table =
  fixes key :: "'r \<Rightarrow> 'k" and put :: "'r \<Rightarrow> 'r list \<Rightarrow> 'r list"
  assumes unique_put: "unique_keys key t \<Longrightarrow> unique_keys key (put r t)"
    and find_other: "k \<noteq> key r \<Longrightarrow> find_row key k (put r t) = find_row key k t"
    and find_self: "find_row key (key r) (put r t) \<noteq> None"
begin

abbreviation puts :: "'r list \<Rightarrow> 'r list \<Rightarrow> 'r list" where
  "puts rs t \<equiv> foldl (\<lambda>t r. put r t) t rs"

lemma unique_puts: "unique_keys key t \<Longrightarrow> unique_keys key (puts rs t)"
  by (induction rs arbitrary: t) (simp_all add: unique_put)

lemma find_puts_other: "k \<notin> key ` set rs \<Longrightarrow> find_row key k (puts rs t) = find_row key k t"
  by (induction rs arbitrary: t) (simp_all add: find_other)

lemma present_put: "find_row key k t \<noteq> None \<Longrightarrow> find_row key k (put r t) \<noteq> None"
  using find_other find_self by (cases "k = key r") auto

lemma present_puts: "k \<in> key ` set rs \<or> find_row key k t \<noteq> None \<Longrightarrow> find_row key k (puts rs t) \<noteq> None"
proof (induction rs arbitrary: t)
  case (Cons r rs)
  then show ?case
    using find_self [of r t] present_put [of k t r] by auto
qed simp

end

locale upserting = keyed_table +
  assumes latest: "find_row key (key r) (put r t) = Some r"
    and stable: "unique_keys key t \<Longrightarrow> find_row key (key r) t = Some r \<Longrightarrow> put r t = t"
begin

lemma find_puts:
  "unique_keys key rs \<Longrightarrow> r \<in> set rs \<Longrightarrow> find_row key (key r) (puts rs t) = Some r"
proof (induction rs arbitrary: t)
  case (Cons x rs)
  show ?case
  proof (cases "r = x")
    case True
    then have "key r \<notin> key ` set rs"
      using Cons.prems by (auto simp: unique_keys_def)
    then show ?thesis
      using True find_puts_other latest by auto
  next
    case False
    then show ?thesis
      using Cons by (auto simp: unique_keys_def)
  qed
qed simp

lemma puts_stable:
  "unique_keys key t \<Longrightarrow> \<forall>r \<in> set rs. find_row key (key r) t = Some r \<Longrightarrow> puts rs t = t"
  by (induction rs) (simp_all add: stable)

lemma puts_idem:
  "unique_keys key t \<Longrightarrow> unique_keys key rs \<Longrightarrow> puts rs (puts rs t) = puts rs t"
  by (intro puts_stable unique_puts) (auto simp: find_puts)

lemma put_idem: "unique_keys key t \<Longrightarrow> put r (put r t) = put r t"
  by (simp add: stable unique_put latest)

end

locale first_wins = keyed_table +
  assumes present: "find_row key (key r) t \<noteq> None \<Longrightarrow> put r t = t"
    and fresh: "find_row key (key r) t = None \<Longrightarrow> put r t = t @ [r]"
begin

lemma puts_present: "\<forall>r \<in> set rs. find_row key (key r) t \<noteq> None \<Longrightarrow> puts rs t = t"
  by (induction rs) (simp_all add: present)

lemma puts_idem: "puts rs (puts rs t) = puts rs t"
  by (intro puts_present ballI present_puts) simp

lemma puts_extends: "\<exists>new. puts rs t = t @ new \<and> set new \<subseteq> set rs"
proof (induction rs arbitrary: t)
  case (Cons r rs)
  show ?case
  proof (cases "find_row key (key r) t")
    case None
    obtain new where "puts rs (t @ [r]) = (t @ [r]) @ new" "set new \<subseteq> set rs"
      using Cons.IH by blast
    then show ?thesis
      by (auto simp: fresh None intro!: exI [of _ "r # new"])
  next
    case (Some x)
    then show ?thesis
      using Cons.IH [of t] present [of r t] by auto
  qed
qed simp

lemma find_puts_first: "find_row key k t = Some r \<Longrightarrow> find_row key k (puts rs t) = Some r"
  using puts_extends [of t rs] by (auto simp: find_row_append)

lemma puts_fresh:
  "unique_keys key (t @ rs) \<Longrightarrow> puts rs t = t @ rs"
proof (induction rs arbitrary: t)
  case (Cons r rs)
  then have "find_row key (key r) t = None"
    by (auto simp: unique_keys_def find_row_None_iff)
  then show ?case
    using Cons by (simp add: fresh)
qed simp

end

section \<open>Providers\<close>

lemma keyed_upsert: "keyed_table key (upsert_row key)"
  by unfold_locales (simp_all add: unique_keys_upsert find_row_upsert)

lemma upsert_stable:
  "unique_keys key t \<Longrightarrow> find_row key (key r) t = Some r \<Longrightarrow> upsert_row key r t = t"
proof -
  assume u: "unique_keys key t" and f: "find_row key (key r) t = Some r"
  have "map (\<lambda>x. if key x = key r then r else x) t = t"
    using u f by (intro map_idI) (auto simp: find_row_unique unique_keys_def dest: inj_onD distinct_map [THEN iffD1])
  then show ?thesis
    using find_row_SomeD [OF f] by (auto simp: upsert_row_def)
qed

lemma upserting_upsert_row: "upserting key (upsert_row key)"
  by (intro upserting.intro keyed_upsert) (unfold_locales, simp_all add: find_row_upsert upsert_stable)

lemma first_wins_insert_once: "first_wins key (insert_once key)"
  by unfold_locales
    (simp_all add: unique_keys_insert_once find_row_insert_once find_row_None_iff find_row_present,
      simp_all add: insert_once_def)

end
