(* ===== verification/BeruStore.thy ===== *)
theory BeruStore
  imports BeruDiff GoDecode KeyedTable
begin

text \<open>
  \<^verbatim>\<open>pipeline/beru/internal/storage\<close> (postgres.go, postgres_traces.go, env.go, runstore.go):
  Beru's PostgreSQL store.  The tables are lists of rows, in the order of their identity column;
  an operation maps a database to an error or a result and the database it leaves.  The server is
  a parameter: which statements it accepts (network failures, constraint violations and
  rejected values all show as a refused statement), and the text its JSONB columns give back.
  The embedded SQL is modelled by its meaning on the tables; columns that neither this code nor
  the properties read (\<^verbatim>\<open>created_at\<close>, identities of the projection) are left out.
\<close>

section \<open>Rows\<close>

record report_row =
  rr_session :: string
  rr_exec :: string
  rr_report :: raw_report

record verdict_row =
  vr_exec :: string
  vr_trace :: string
  vr_test :: string
  vr_session :: string
  vr_status :: string
  vr_regression :: bool
  vr_details :: "string option"
  vr_updated :: instant

record trace_row =
  tr_exec :: string
  tr_trace :: string
  tr_session :: "string option"
  tr_test :: string
  tr_path :: string
  tr_method :: string
  tr_status_a :: string
  tr_status_b :: string
  tr_status_candidate :: string
  tr_verdict :: string

record diff_row =
  dr_exec :: string
  dr_trace :: string
  dr_session :: "string option"
  dr_signature :: string
  dr_source_type :: string
  dr_control_a :: "string option"
  dr_control_b :: "string option"
  dr_candidate :: "string option"
  dr_noise :: "string option"
  dr_regression :: "string option"
  dr_verdict :: string

record shadow_test =
  t_id :: nat
  t_name :: string
  t_start :: instant
  t_total :: int
  t_mismatch :: int
  t_match_rate :: rat

record session_row =
  ss_id :: string
  ss_test :: string
  ss_namespace :: string
  ss_mode :: string

record db =
  db_reports :: "report_row list"
  db_verdicts :: "verdict_row list"
  db_traces :: "trace_row list"
  db_diffs :: "diff_row list"
  db_tests :: "shadow_test list"
  db_noise :: "(string \<times> string) list"
  db_sessions :: "session_row list"
  db_execs :: "(string \<times> string) list"
  db_migrations :: "string list"
  db_events :: "string list"

definition empty_db :: db where
  "empty_db = \<lparr>db_reports = [], db_verdicts = [], db_traces = [], db_diffs = [], db_tests = [],
     db_noise = [], db_sessions = [], db_execs = [], db_migrations = [], db_events = []\<rparr>"

text \<open>The unique constraints of the schema.\<close>

definition report_key :: "report_row \<Rightarrow> string \<times> 64 word" where
  "report_key r = (rr_exec r, r_ingest_id (rr_report r))"

definition verdict_key :: "verdict_row \<Rightarrow> string \<times> string" where
  "verdict_key v = (vr_exec v, vr_trace v)"

definition trace_key :: "trace_row \<Rightarrow> string \<times> string" where
  "trace_key t = (tr_exec t, tr_trace t)"

definition diff_key :: "diff_row \<Rightarrow> string \<times> string \<times> string" where
  "diff_key d = (dr_exec d, dr_trace d, dr_signature d)"

text \<open>\<^verbatim>\<open>TIMESTAMPTZ\<close> keeps microseconds.\<close>

definition timestamptz :: "instant \<Rightarrow> instant" where
  "timestamptz t = t - t mod 1000"

section \<open>Statements and transactions\<close>

datatype sql_stmt =
    BeginTx
  | CommitTx
  | AdvisoryLock string
  | InsertReport report_row
  | SelectReports string
  | UpsertVerdict verdict_row
  | UpsertTrace trace_row
  | UpsertDiff diff_row
  | PgNotify string
  | SelectVerdict string
  | SelectStale instant
  | SelectGroups string
  | PruneReports instant
  | PruneDerived
  | InsertNoise string string
  | SelectNoise string
  | SelectTests
  | InsertTest string
  | UpsertSession session_row
  | InsertExecution string string
  | BootstrapMigrations
  | CheckMigration string
  | ApplyMigration string
  | RecordMigration string
  | Connect

record pg_server =
  accepts :: "sql_stmt \<Rightarrow> bool"
  jsonb_text :: "string \<Rightarrow> string"

datatype store_error =
    SqlFailed sql_stmt
  | NilReport
  | IngestIdRequired
  | EmptyTraceId
  | NilVerdict
  | NoSuchTest

type_synonym 'a db_op = "db \<Rightarrow> (store_error + 'a) \<times> db"

definition ret :: "'a \<Rightarrow> 'a db_op" where
  "ret x db = (Inr x, db)"

definition fail :: "store_error \<Rightarrow> 'a db_op" where
  "fail e db = (Inl e, db)"

definition bind_db :: "'a db_op \<Rightarrow> ('a \<Rightarrow> 'b db_op) \<Rightarrow> 'b db_op" where
  "bind_db m k db = (case m db of (Inl e, db') \<Rightarrow> (Inl e, db') | (Inr x, db') \<Rightarrow> k x db')"

definition then_db :: "'a db_op \<Rightarrow> 'b db_op \<Rightarrow> 'b db_op" where
  "then_db m n = bind_db m (\<lambda>_. n)"

fun for_each :: "('a \<Rightarrow> unit db_op) \<Rightarrow> 'a list \<Rightarrow> unit db_op" where
  "for_each f [] = ret ()"
| "for_each f (x # xs) = then_db (f x) (for_each f xs)"

definition exec_sql :: "pg_server \<Rightarrow> sql_stmt \<Rightarrow> (db \<Rightarrow> db) \<Rightarrow> unit db_op" where
  "exec_sql pg stmt f db = (if accepts pg stmt then (Inr (), f db) else (Inl (SqlFailed stmt), db))"

definition query_sql :: "pg_server \<Rightarrow> sql_stmt \<Rightarrow> (db \<Rightarrow> 'a) \<Rightarrow> 'a db_op" where
  "query_sql pg stmt g db = (if accepts pg stmt then (Inr (g db), db) else (Inl (SqlFailed stmt), db))"

text \<open>\<^verbatim>\<open>BeginTx\<close>, the body, \<^verbatim>\<open>Commit\<close>; an error anywhere rolls everything back.\<close>

definition transaction :: "pg_server \<Rightarrow> 'a db_op \<Rightarrow> 'a db_op" where
  "transaction pg body db =
     (case then_db (exec_sql pg BeginTx id)
             (bind_db body (\<lambda>x. then_db (exec_sql pg CommitTx id) (ret x))) db of
        (Inl e, _) \<Rightarrow> (Inl e, db)
      | (Inr x, db') \<Rightarrow> (Inr x, db'))"

section \<open>Configuration (env.go)\<close>

definition defaultRetention :: int where "defaultRetention = 7"
definition defaultShadowTest :: string where "defaultShadowTest = ''default''"
definition legacyReplayExecutionID :: string where "legacyReplayExecutionID = ''legacy''"
definition defaultPostgresPort :: string where "defaultPostgresPort = ''5432''"
definition defaultPostgresSSLMode :: string where "defaultPostgresSSLMode = ''require''"

type_synonym env = "string \<Rightarrow> string"

definition retention_days_from_env :: "env \<Rightarrow> int" where
  "retention_days_from_env getenv =
     (case atoi (getenv ''BERU_DB_RETENTION_DAYS'') of
        Some n \<Rightarrow> if n > 0 then n else defaultRetention
      | None \<Rightarrow> defaultRetention)"

definition shadow_test_name_from_env :: "env \<Rightarrow> string" where
  "shadow_test_name_from_env getenv =
     (let v = getenv ''BERU_SHADOW_TEST_NAME'' in if v \<noteq> [] then v else defaultShadowTest)"

record postgres_config =
  pc_host :: string
  pc_port :: string
  pc_user :: string
  pc_password :: string
  pc_name :: string
  pc_sslmode :: string

text \<open>The error is the list of the missing variables.\<close>

definition postgres_config_from_env :: "env \<Rightarrow> string list + postgres_config" where
  "postgres_config_from_env getenv =
     (let cfg = \<lparr>pc_host = getenv ''DB_HOST'',
                 pc_port = (if getenv ''DB_PORT'' = [] then defaultPostgresPort else getenv ''DB_PORT''),
                 pc_user = getenv ''DB_USER'', pc_password = getenv ''DB_PASSWORD'',
                 pc_name = getenv ''DB_NAME'',
                 pc_sslmode = (if getenv ''DB_SSLMODE'' = [] then defaultPostgresSSLMode
                               else getenv ''DB_SSLMODE'')\<rparr>;
          missing = map fst (filter (\<lambda>(n, v). v = [])
                      [(''DB_HOST'', pc_host cfg), (''DB_USER'', pc_user cfg), (''DB_NAME'', pc_name cfg)])
      in if missing \<noteq> [] then Inl missing else Inr cfg)"

record postgres_store =
  retentionDays :: int
  defaultTestName :: string
  sessionID :: string
  replayExecutionID :: string

definition default_shadow_test_name :: "postgres_store \<Rightarrow> string" where
  "default_shadow_test_name p = (if defaultTestName p = [] then defaultShadowTest else defaultTestName p)"

section \<open>JSONB columns (postgres.go)\<close>

definition jsonb_value :: "string \<Rightarrow> string option" where
  "jsonb_value s =
     (if s = [] then None else if json_valid s then Some s else Some (json_marshal (JStr s)))"

definition jsonb_string :: "string option \<Rightarrow> string" where
  "jsonb_string ns =
     (case ns of
        None \<Rightarrow> []
      | Some t \<Rightarrow>
          if t = [] then []
          else (case json_parse t of
                  Some (JStr u) \<Rightarrow> u
                | Some JNull \<Rightarrow> []
                | _ \<Rightarrow> t))"

section \<open>Reports (postgres_traces.go)\<close>

definition report_row_of :: "postgres_store \<Rightarrow> raw_report \<Rightarrow> report_row" where
  "report_row_of p r =
     \<lparr>rr_session = sessionID p, rr_exec = replayExecutionID p,
      rr_report = r\<lparr>r_captured_at := timestamptz (r_captured_at r)\<rparr>\<rparr>"

definition put_report :: "report_row \<Rightarrow> report_row list \<Rightarrow> report_row list" where
  "put_report r t = insert_once report_key r t"

definition insert_report :: "pg_server \<Rightarrow> postgres_store \<Rightarrow> raw_report \<Rightarrow> unit db_op" where
  "insert_report pg p report =
     (if r_ingest_id report = 0 then fail IngestIdRequired
      else let row = report_row_of p report
           in exec_sql pg (InsertReport row) (\<lambda>db. db\<lparr>db_reports := put_report row (db_reports db)\<rparr>))"

text \<open>
  The reports of a trace in capture order, ties in insertion order; the ingest id is not read
  back.  An empty protocol means all.
\<close>

definition select_reports :: "postgres_store \<Rightarrow> string \<Rightarrow> string \<Rightarrow> db \<Rightarrow> raw_report list" where
  "select_reports p traceID protocol db =
     map (\<lambda>r. r\<lparr>r_ingest_id := 0\<rparr>)
       (sort_key r_captured_at
         (map rr_report
           (filter (\<lambda>x. rr_exec x = replayExecutionID p \<and> r_trace_id (rr_report x) = traceID \<and>
                        (protocol = [] \<or> r_protocol (rr_report x) = protocol)) (db_reports db))))"

definition list_reports :: "pg_server \<Rightarrow> postgres_store \<Rightarrow> string \<Rightarrow> string \<Rightarrow> raw_report list db_op" where
  "list_reports pg p traceID protocol =
     (if traceID = [] then fail EmptyTraceId
      else query_sql pg (SelectReports traceID) (select_reports p traceID protocol))"

definition append_report :: "pg_server \<Rightarrow> postgres_store \<Rightarrow> raw_report option \<Rightarrow> raw_report list db_op" where
  "append_report pg p report =
     (case report of
        None \<Rightarrow> fail NilReport
      | Some r \<Rightarrow> then_db (insert_report pg p r) (list_reports pg p (r_trace_id r) []))"

section \<open>Verdicts and their projection\<close>

definition lock_key :: "postgres_store \<Rightarrow> string \<Rightarrow> string" where
  "lock_key p traceID = replayExecutionID p @ '':'' @ traceID"

definition verdict_row_of ::
  "pg_server \<Rightarrow> postgres_store \<Rightarrow> string \<Rightarrow> verdict_state \<Rightarrow> raw_report list \<Rightarrow> verdict_row" where
  "verdict_row_of pg p traceID verdict history =
     \<lparr>vr_exec = replayExecutionID p, vr_trace = traceID,
      vr_test = (case history of [] \<Rightarrow> [] | h # _ \<Rightarrow> r_shadow_test_name h),
      vr_session = sessionID p, vr_status = v_status verdict,
      vr_regression = v_has_count_regression verdict,
      vr_details = map_option (jsonb_text pg) (jsonb_value (v_summary_details verdict)),
      vr_updated = timestamptz (v_updated_at verdict)\<rparr>"

definition put_verdict :: "verdict_row \<Rightarrow> verdict_row list \<Rightarrow> verdict_row list" where
  "put_verdict r t = upsert_row verdict_key r t"

definition upsert_verdict ::
  "pg_server \<Rightarrow> postgres_store \<Rightarrow> string \<Rightarrow> verdict_state \<Rightarrow> raw_report list \<Rightarrow> unit db_op" where
  "upsert_verdict pg p traceID verdict history =
     (let row = verdict_row_of pg p traceID verdict history
      in exec_sql pg (UpsertVerdict row) (\<lambda>db. db\<lparr>db_verdicts := put_verdict row (db_verdicts db)\<rparr>))"

definition signature_order :: "raw_report list \<Rightarrow> string list" where
  "signature_order history = dedup_first (map r_signature history)"

definition reports_for_signature :: "raw_report list \<Rightarrow> string \<Rightarrow> raw_report list" where
  "reports_for_signature history signature = filter (\<lambda>r. r_signature r = signature) history"

definition source_type :: "raw_report list \<Rightarrow> string" where
  "source_type bucket = (case bucket of [] \<Rightarrow> [] | r # _ \<Rightarrow> r_protocol r @ ''/'' @ r_direction r)"

fun payload_json :: "raw_report list \<Rightarrow> string \<Rightarrow> string option" where
  "payload_json [] role = None"
| "payload_json (r # rs) role =
     (if r_shadow_role r \<noteq> role then payload_json rs role
      else if r_payload r = [] then None
      else if json_valid (r_payload r) then Some (r_payload r)
      else Some (json_marshal (JObj [(''_raw'', JStr (r_payload r))])))"

definition steps_for_signature :: "verdict_step list \<Rightarrow> string \<Rightarrow> verdict_step list" where
  "steps_for_signature steps signature = filter (\<lambda>s. s_signature s = signature) steps"

fun http_method_path :: "raw_report list \<Rightarrow> string \<times> string" where
  "http_method_path [] = ([], [])"
| "http_method_path (r # rs) =
     (if r_protocol r \<noteq> ''http'' \<or> r_direction r \<noteq> DirectionIngress then http_method_path rs
      else (case split_n (CHR '':'') 3 (r_signature r) of
              [_, m, q] \<Rightarrow> (m, q)
            | _ \<Rightarrow> http_method_path rs))"

fun ingress_status :: "raw_report list \<Rightarrow> string \<Rightarrow> string" where
  "ingress_status [] role = []"
| "ingress_status (r # rs) role =
     (if r_shadow_role r = role \<and> r_direction r = DirectionIngress \<and> r_status_code r \<noteq> []
      then r_status_code r else ingress_status rs role)"

text \<open>\<^verbatim>\<open>jsonOrNil\<close>, on the two types it is called with.\<close>

definition baseline_or_nil :: "baseline_failure option \<Rightarrow> string option" where
  "baseline_or_nil b = map_option (\<lambda>b. json_marshal (baseline_json b)) b"

definition steps_or_nil :: "verdict_step list \<Rightarrow> string option" where
  "steps_or_nil steps = (if steps = [] then None else Some (json_marshal (JArr (map step_json steps))))"

definition null_string :: "string \<Rightarrow> string option" where
  "null_string s = (if s = [] then None else Some s)"

definition trace_row_of :: "postgres_store \<Rightarrow> string \<Rightarrow> verdict_state \<Rightarrow> raw_report list \<Rightarrow> trace_row" where
  "trace_row_of p traceID verdict history =
     \<lparr>tr_exec = replayExecutionID p, tr_trace = traceID, tr_session = null_string (sessionID p),
      tr_test = r_shadow_test_name (hd history),
      tr_path = snd (http_method_path history), tr_method = fst (http_method_path history),
      tr_status_a = ingress_status history ControlA, tr_status_b = ingress_status history ControlB,
      tr_status_candidate = ingress_status history Candidate, tr_verdict = v_status verdict\<rparr>"

definition diff_row_of ::
  "pg_server \<Rightarrow> postgres_store \<Rightarrow> string \<Rightarrow> verdict_state \<Rightarrow> verdict_details \<Rightarrow> raw_report list
     \<Rightarrow> string \<Rightarrow> diff_row" where
  "diff_row_of pg p traceID verdict details history sig =
     (let bucket = reports_for_signature history sig; js = map_option (jsonb_text pg)
      in \<lparr>dr_exec = replayExecutionID p, dr_trace = traceID, dr_session = null_string (sessionID p),
          dr_signature = sig, dr_source_type = source_type bucket,
          dr_control_a = js (payload_json bucket ControlA),
          dr_control_b = js (payload_json bucket ControlB),
          dr_candidate = js (payload_json bucket Candidate),
          dr_noise = js (baseline_or_nil (d_baseline details)),
          dr_regression = js (steps_or_nil (steps_for_signature (d_steps details) sig)),
          dr_verdict = v_status verdict\<rparr>)"

definition put_trace :: "trace_row \<Rightarrow> trace_row list \<Rightarrow> trace_row list" where
  "put_trace r t = upsert_row trace_key r t"

definition put_diff :: "diff_row \<Rightarrow> diff_row list \<Rightarrow> diff_row list" where
  "put_diff r t = upsert_row diff_key r t"

definition notify_payload :: "postgres_store \<Rightarrow> string \<Rightarrow> verdict_state \<Rightarrow> string" where
  "notify_payload p traceID verdict =
     json_marshal (JObj
       [(''replay_execution_id'', JStr (replayExecutionID p)), (''session_id'', JStr (sessionID p)),
        (''trace_id'', JStr traceID), (''verdict'', JStr (v_status verdict))])"

definition verdict_details_of :: "verdict_state \<Rightarrow> verdict_details" where
  "verdict_details_of verdict =
     (if v_summary_details verdict = [] then empty_details
      else fst (unmarshal_details (v_summary_details verdict)))"

definition project_trace ::
  "pg_server \<Rightarrow> postgres_store \<Rightarrow> string \<Rightarrow> verdict_state \<Rightarrow> raw_report list \<Rightarrow> unit db_op" where
  "project_trace pg p traceID verdict history =
     (if history = [] then ret ()
      else
        let details = verdict_details_of verdict;
            trow = trace_row_of p traceID verdict history;
            note = notify_payload p traceID verdict
        in then_db (exec_sql pg (UpsertTrace trow)
                      (\<lambda>db. db\<lparr>db_traces := put_trace trow (db_traces db)\<rparr>))
             (then_db
               (for_each (\<lambda>sig.
                  let drow = diff_row_of pg p traceID verdict details history sig
                  in exec_sql pg (UpsertDiff drow)
                       (\<lambda>db. db\<lparr>db_diffs := put_diff drow (db_diffs db)\<rparr>)) (signature_order history))
               (exec_sql pg (PgNotify note) (\<lambda>db. db\<lparr>db_events := db_events db @ [note]\<rparr>))))"

text \<open>
  \<^verbatim>\<open>evaluateHistory\<close>, with the map iteration orders and the clock it runs under.
\<close>

record run_env =
  order1 :: "string list \<Rightarrow> string list"
  order2 :: "string list \<Rightarrow> string list"
  clock_now :: instant

definition evaluate_history ::
  "run_env \<Rightarrow> raw_report list \<Rightarrow> string list \<Rightarrow> duration \<Rightarrow> verdict_state option" where
  "evaluate_history env history noise timeout =
     evaluate_trace_history (order1 env) (order2 env) (clock_now env) history noise
       \<lparr>o_timeout = timeout, o_now = 0\<rparr>"

definition save_under_lock ::
  "pg_server \<Rightarrow> postgres_store \<Rightarrow> string \<Rightarrow> verdict_state \<Rightarrow> raw_report list \<Rightarrow> unit db_op" where
  "save_under_lock pg p traceID verdict history =
     then_db (upsert_verdict pg p traceID verdict history)
       (project_trace pg p traceID verdict history)"

definition flush_reports_and_evaluate ::
  "pg_server \<Rightarrow> postgres_store \<Rightarrow> run_env \<Rightarrow> raw_report list \<Rightarrow> string list \<Rightarrow> duration \<Rightarrow> unit db_op" where
  "flush_reports_and_evaluate pg p env reports noise timeout =
     (case reports of
        [] \<Rightarrow> ret ()
      | r0 # _ \<Rightarrow>
          let traceID = r_trace_id r0
          in transaction pg
               (then_db (exec_sql pg (AdvisoryLock (lock_key p traceID)) id)
                 (then_db (for_each (insert_report pg p) reports)
                   (bind_db (list_reports pg p traceID []) (\<lambda>history.
                      case evaluate_history env history noise timeout of
                        None \<Rightarrow> ret ()
                      | Some verdict \<Rightarrow> save_under_lock pg p traceID verdict history)))))"

definition save_diff_verdict ::
  "pg_server \<Rightarrow> postgres_store \<Rightarrow> string \<Rightarrow> verdict_state option \<Rightarrow> unit db_op" where
  "save_diff_verdict pg p traceID verdict =
     (case verdict of
        None \<Rightarrow> fail NilVerdict
      | Some v \<Rightarrow>
          transaction pg
            (then_db (exec_sql pg (AdvisoryLock (lock_key p traceID)) id)
              (bind_db (list_reports pg p traceID []) (save_under_lock pg p traceID v))))"

definition verdict_of_row :: "verdict_row \<Rightarrow> verdict_state" where
  "verdict_of_row r =
     (let summary = jsonb_string (vr_details r)
      in \<lparr>v_status = vr_status r, v_has_count_regression = vr_regression r,
          v_flags = (if summary = [] then []
                     else case unmarshal_details summary of (d, ok) \<Rightarrow> if ok then d_flags d else []),
          v_summary_details = summary, v_updated_at = vr_updated r\<rparr>)"

definition get_verdict :: "pg_server \<Rightarrow> postgres_store \<Rightarrow> string \<Rightarrow> verdict_state option db_op" where
  "get_verdict pg p traceID =
     query_sql pg (SelectVerdict traceID)
       (\<lambda>db. map_option verdict_of_row
                (find_row verdict_key (replayExecutionID p, traceID) (db_verdicts db)))"

section \<open>Listings\<close>

definition max_captured :: "raw_report list \<Rightarrow> instant" where
  "max_captured rs = foldr (\<lambda>r m. max (r_captured_at r) m) (tl rs) (r_captured_at (hd rs))"

text \<open>
  Recent (trace, protocol) groups, latest first.  SQL leaves the order of ties open; this is the
  order of the groups' first rows.  The time stamp is kept as an instant, not as text.
\<close>

definition list_trace_groups ::
  "pg_server \<Rightarrow> postgres_store \<Rightarrow> string \<Rightarrow> int \<Rightarrow> trace_group list db_op" where
  "list_trace_groups pg p shadowTestName limit0 =
     (let limit = (if limit0 \<le> 0 then 200 else limit0);
          name = (if shadowTestName = [] then defaultShadowTest else shadowTestName)
      in query_sql pg (SelectGroups name) (\<lambda>db.
           let rows = map rr_report (filter (\<lambda>x. r_shadow_test_name (rr_report x) = name \<and>
                        rr_exec x = replayExecutionID p) (db_reports db));
               groups = map (\<lambda>(t, q). \<lparr>g_trace_id = t, g_protocol = q, g_last_captured_at =
                                max_captured (filter (\<lambda>r. r_trace_id r = t \<and> r_protocol r = q) rows)\<rparr>)
                          (dedup_first (map (\<lambda>r. (r_trace_id r, r_protocol r)) rows))
           in take (nat limit) (sort_key (\<lambda>g. - g_last_captured_at g) groups)))"

definition min_captured :: "raw_report list \<Rightarrow> instant" where
  "min_captured rs = foldr (\<lambda>r m. min (r_captured_at r) m) (tl rs) (r_captured_at (hd rs))"

definition role_count :: "raw_report list \<Rightarrow> string \<Rightarrow> nat" where
  "role_count rs role = length (filter (\<lambda>r. r_shadow_role r = role) rs)"

text \<open>The reaper's query; the order of its groups is that of their first rows.\<close>

definition stale_incomplete :: "postgres_store \<Rightarrow> instant \<Rightarrow> db \<Rightarrow> stale_trace list" where
  "stale_incomplete p olderThan db =
     (let rows = map rr_report (filter (\<lambda>x.
            r_shadow_test_name (rr_report x) = default_shadow_test_name p \<and>
            rr_exec x = replayExecutionID p \<and>
            find_row verdict_key (rr_exec x, r_trace_id (rr_report x)) (db_verdicts db) = None)
            (db_reports db));
          of_trace = (\<lambda>t. filter (\<lambda>r. r_trace_id r = t) rows)
      in map (\<lambda>t. \<lparr>st_trace_id = t, st_first_seen = min_captured (of_trace t)\<rparr>)
           (filter (\<lambda>t. min_captured (of_trace t) \<le> timestamptz olderThan \<and>
                        (role_count (of_trace t) ControlA = 0 \<or> role_count (of_trace t) ControlB = 0 \<or>
                         role_count (of_trace t) Candidate = 0))
             (dedup_first (map r_trace_id rows))))"

definition list_stale_incomplete_traces ::
  "pg_server \<Rightarrow> postgres_store \<Rightarrow> instant \<Rightarrow> stale_trace list db_op" where
  "list_stale_incomplete_traces pg p olderThan =
     query_sql pg (SelectStale olderThan) (stale_incomplete p olderThan)"

section \<open>Retention\<close>

abbreviation day :: duration where "day \<equiv> 86400 * second"

definition has_reports :: "report_row list \<Rightarrow> string \<Rightarrow> string \<Rightarrow> bool" where
  "has_reports rows exec traceID \<longleftrightarrow>
     list_ex (\<lambda>x. rr_exec x = exec \<and> r_trace_id (rr_report x) = traceID) rows"

definition prune_reports :: "instant \<Rightarrow> db \<Rightarrow> db" where
  "prune_reports cutoff db =
     db\<lparr>db_reports := filter (\<lambda>x. \<not> r_captured_at (rr_report x) < cutoff) (db_reports db)\<rparr>"

definition prune_derived :: "db \<Rightarrow> db" where
  "prune_derived db =
     db\<lparr>db_verdicts := filter (\<lambda>v. has_reports (db_reports db) (vr_exec v) (vr_trace v)) (db_verdicts db),
        db_diffs := filter (\<lambda>d. has_reports (db_reports db) (dr_exec d) (dr_trace d)) (db_diffs db),
        db_traces := filter (\<lambda>t. has_reports (db_reports db) (tr_exec t) (tr_trace t)) (db_traces db)\<rparr>"

definition prune :: "pg_server \<Rightarrow> postgres_store \<Rightarrow> instant \<Rightarrow> unit db_op" where
  "prune pg p now =
     (let cutoff = timestamptz now - retentionDays p * day
      in transaction pg
           (then_db (exec_sql pg (PruneReports cutoff) (prune_reports cutoff))
                    (exec_sql pg PruneDerived prune_derived)))"

section \<open>Shadow tests and noise filters\<close>

definition ensure_shadow_test :: "pg_server \<Rightarrow> instant \<Rightarrow> string \<Rightarrow> unit db_op" where
  "ensure_shadow_test pg now name0 =
     (let name = (if name0 = [] then defaultShadowTest else name0)
      in bind_db (query_sql pg SelectTests (\<lambda>db. list_ex (\<lambda>t. t_name t = name) (db_tests db)))
           (\<lambda>found. if found then ret ()
              else exec_sql pg (InsertTest name)
                     (\<lambda>db. db\<lparr>db_tests := db_tests db @
                        [\<lparr>t_id = Suc (foldr max (map t_id (db_tests db)) 0), t_name = name,
                          t_start = timestamptz now, t_total = 0, t_mismatch = 0, t_match_rate = 0\<rparr>]\<rparr>)))"

text \<open>A percentage; rational arithmetic stands for \<^verbatim>\<open>float64\<close>.\<close>

definition match_rate :: "int \<Rightarrow> int \<Rightarrow> rat" where
  "match_rate n mismatches =
     (if n \<le> 0 then 0 else of_int (n - mismatches) / of_int n * 100)"

definition scan_shadow_test :: "shadow_test \<Rightarrow> shadow_test" where
  "scan_shadow_test t = t\<lparr>t_match_rate := match_rate (t_total t) (t_mismatch t)\<rparr>"

definition list_shadow_tests :: "pg_server \<Rightarrow> int \<Rightarrow> shadow_test list db_op" where
  "list_shadow_tests pg limit0 =
     (let limit = (if limit0 \<le> 0 then 50 else limit0)
      in query_sql pg SelectTests (\<lambda>db. map scan_shadow_test
           (take (nat limit) (sort_key (\<lambda>t. - int (t_id t)) (db_tests db)))))"

definition get_shadow_test :: "pg_server \<Rightarrow> nat \<Rightarrow> shadow_test db_op" where
  "get_shadow_test pg i =
     bind_db (query_sql pg SelectTests (\<lambda>db. find (\<lambda>t. t_id t = i) (db_tests db)))
       (\<lambda>found. case found of None \<Rightarrow> fail NoSuchTest | Some t \<Rightarrow> ret (scan_shadow_test t))"

definition noise_test_name :: "postgres_store \<Rightarrow> string \<Rightarrow> string" where
  "noise_test_name p name = (if name = [] then default_shadow_test_name p else name)"

definition noise_of :: "string \<Rightarrow> db \<Rightarrow> string list" where
  "noise_of name db = map snd (filter (\<lambda>(n, _). n = name) (db_noise db))"

definition noise_paths_for_test :: "pg_server \<Rightarrow> postgres_store \<Rightarrow> string \<Rightarrow> string list db_op" where
  "noise_paths_for_test pg p name =
     query_sql pg (SelectNoise name) (noise_of (noise_test_name p name))"

definition put_noise :: "string \<times> string \<Rightarrow> (string \<times> string) list \<Rightarrow> (string \<times> string) list" where
  "put_noise r t = insert_once id r t"

definition add_noise_filter :: "pg_server \<Rightarrow> postgres_store \<Rightarrow> string \<Rightarrow> string \<Rightarrow> unit db_op" where
  "add_noise_filter pg p name path =
     exec_sql pg (InsertNoise name path)
       (\<lambda>db. db\<lparr>db_noise := put_noise (noise_test_name p name, path) (db_noise db)\<rparr>)"

text \<open>Ordered by creation, which is the order of the table.\<close>

definition list_noise_filters :: "pg_server \<Rightarrow> string \<Rightarrow> string list db_op" where
  "list_noise_filters pg name = query_sql pg (SelectNoise name) (noise_of name)"

section \<open>Opening the store\<close>

definition put_session :: "session_row \<Rightarrow> session_row list \<Rightarrow> session_row list" where
  "put_session r t = upsert_row ss_id r t"

definition ensure_session :: "pg_server \<Rightarrow> env \<Rightarrow> postgres_store \<Rightarrow> unit db_op" where
  "ensure_session pg getenv p =
     (if sessionID p = [] then ret ()
      else let row = \<lparr>ss_id = sessionID p, ss_test = defaultTestName p,
                      ss_namespace = getenv ''SHADOW_NAMESPACE'', ss_mode = getenv ''SHADOW_MODE''\<rparr>
           in exec_sql pg (UpsertSession row) (\<lambda>db. db\<lparr>db_sessions := put_session row (db_sessions db)\<rparr>))"

definition put_execution :: "string \<times> string \<Rightarrow> (string \<times> string) list \<Rightarrow> (string \<times> string) list" where
  "put_execution r t = insert_once fst r t"

definition ensure_replay_execution :: "pg_server \<Rightarrow> postgres_store \<Rightarrow> unit db_op" where
  "ensure_replay_execution pg p =
     (if sessionID p = [] \<or> replayExecutionID p = [] then ret ()
      else exec_sql pg (InsertExecution (replayExecutionID p) (sessionID p))
             (\<lambda>db. db\<lparr>db_execs := put_execution (replayExecutionID p, sessionID p) (db_execs db)\<rparr>))"

text \<open>
  \<^verbatim>\<open>migrate\<close>: each embedded file once, in name order; its statements and the record of
  it commit together.  What a file's statements do to the schema is outside of the model.
\<close>

definition apply_migration :: "pg_server \<Rightarrow> string \<Rightarrow> unit db_op" where
  "apply_migration pg name =
     bind_db (query_sql pg (CheckMigration name) (\<lambda>db. name \<in> set (db_migrations db)))
       (\<lambda>applied. if applied then ret ()
          else transaction pg
                 (then_db (exec_sql pg (ApplyMigration name) id)
                    (exec_sql pg (RecordMigration name)
                      (\<lambda>db. db\<lparr>db_migrations := db_migrations db @ [name]\<rparr>))))"

definition migrate :: "pg_server \<Rightarrow> string list \<Rightarrow> unit db_op" where
  "migrate pg files =
     then_db (exec_sql pg BootstrapMigrations id) (for_each (apply_migration pg) (sort files))"

definition open_postgres :: "pg_server \<Rightarrow> env \<Rightarrow> string list \<Rightarrow> instant \<Rightarrow> postgres_store db_op" where
  "open_postgres pg getenv files now =
     (let p = \<lparr>retentionDays = retention_days_from_env getenv,
               defaultTestName = shadow_test_name_from_env getenv,
               sessionID = getenv ''SESSION_ID'',
               replayExecutionID = (if getenv ''REPLAY_EXECUTION_ID'' = [] then legacyReplayExecutionID
                                    else getenv ''REPLAY_EXECUTION_ID'')\<rparr>
      in then_db (exec_sql pg Connect id)
           (then_db (migrate pg files)
             (then_db (ensure_session pg getenv p)
               (then_db (ensure_replay_execution pg p)
                 (then_db (ensure_shadow_test pg now (defaultTestName p)) (ret p))))))"

end
