(* ===== verification/BeruReportProps.thy ===== *)
theory BeruReportProps
  imports BeruReport BeruStore
begin

text \<open>
  Properties of report assembly: what a wire envelope becomes and that its payload can be read
  back, signatures that name their protocol, and the request line recovered from a signature by
  the trace projection.
\<close>

section \<open>Signatures\<close>

lemma has_prefix_app [simp]: "has_prefix (p @ q @ r) (p @ q)"
  by (simp add: has_prefix_def)

lemma has_prefix_iff: "has_prefix s p \<longleftrightarrow> (\<exists>t. s = p @ t)"
  by (auto simp: has_prefix_def) (metis append_take_drop_id)

definition names_protocol :: "string \<Rightarrow> string \<Rightarrow> bool" where
  "names_protocol sig p \<longleftrightarrow> has_prefix sig (p @ '':'')"

lemma names_protocolI: "sig = p @ '':'' @ t \<Longrightarrow> names_protocol sig p"
  by (simp add: names_protocol_def has_prefix_def)

lemma fallback_names [simp]: "names_protocol (fallback_signature p b) p"
  by (rule names_protocolI) (simp add: fallback_signature_def)

lemma http_names [simp]: "names_protocol (http_signature m p) ''http''"
  by (auto simp: http_signature_def Let_def intro: names_protocolI)

lemma hints_names [simp]:
  "mongo_signature_from_hints h \<noteq> [] \<Longrightarrow> names_protocol (mongo_signature_from_hints h) ''mongodb''"
  by (auto simp: mongo_signature_from_hints_def Let_def intro: names_protocolI split: if_splits)

lemma query_names [simp]:
  "mongo_signature_from_query_text q \<noteq> [] \<Longrightarrow> names_protocol (mongo_signature_from_query_text q) ''mongodb''"
  by (auto simp: mongo_signature_from_query_text_def Let_def intro: names_protocolI
      split: list.splits if_splits)

lemma command_names [simp]: "mongo_command_signature obj = Some sig \<Longrightarrow> names_protocol sig ''mongodb''"
  by (auto simp: mongo_command_signature_def names_protocol_def has_prefix_def split: option.splits if_splits
      dest!: first_some_SomeD)

lemma mongo_names [simp]: "names_protocol (mongo_signature b h) ''mongodb''"
  by (auto simp: mongo_signature_def Let_def split: option.split)

lemma database_names [simp]: "names_protocol (database_signature p obj) p"
  by (auto simp: database_signature_def split: option.splits if_splits dest!: first_some_SomeD)
    (auto simp: names_protocol_def has_prefix_def)

lemma queue_names [simp]: "names_protocol (queue_signature p obj) p"
  by (auto simp: queue_signature_def Let_def intro: names_protocolI)

text \<open>
  Whatever the payload, the signature of an egress call begins with its protocol (trimmed, in
  lower case) and a colon; so signatures are never empty and calls of different protocols never
  share a bucket.
\<close>

theorem egress_signature_names_protocol:
  "names_protocol (egress_signature protocol payload) (to_lower (trim_space protocol))"
proof (cases "unmarshal_obj payload")
  case None
  then show ?thesis
    using mongo_names by (simp add: egress_signature_def Let_def)
next
  case (Some obj)
  then show ?thesis
    using mongo_names http_names by (simp add: egress_signature_def Let_def)
qed

section \<open>Request lines\<close>

lemma split_n_signature:
  assumes "CHR '':'' \<notin> set m"
  shows "split_n CHR '':'' 3 (''http:'' @ m @ '':'' @ p) = [''http'', m, p]"
  using assms by (simp add: numeral_3_eq_3)

lemma colon_to_upper: "CHR '':'' \<in> set (to_upper s) \<longleftrightarrow> CHR '':'' \<in> set s"
proof -
  have "upper_char c = CHR '':'' \<longleftrightarrow> c = CHR '':''" for c
    by (simp add: char_eq_iff_nat of_upper_char) linarith
  then show ?thesis
    unfolding to_upper_def set_map by (metis (no_types, lifting) image_iff)
qed

text \<open>
  The trace projection recovers the request line of an HTTP ingress report from its signature:
  the method in upper case (GET when blank) and the path (\<^verbatim>\<open>/\<close> when blank), both
  trimmed; only when both are blank it reads the placeholder \<^verbatim>\<open>http:ingress:response\<close>
  as method \<^verbatim>\<open>ingress\<close> and path \<^verbatim>\<open>response\<close>.
\<close>

theorem request_line_roundtrip:
  assumes "r_protocol r = ''http''" "r_direction r = DirectionIngress"
    and "r_signature r = http_signature method path" "CHR '':'' \<notin> set method"
  shows "http_method_path (r # rs) =
    (let m = to_upper (trim_space method); p = trim_space path
     in if m = [] \<and> p = [] then (''ingress'', ''response'')
        else (if m = [] then ''GET'' else m, if p = [] then ''/'' else p))"
proof -
  have "CHR '':'' \<notin> set (to_upper (trim_space method))"
    using assms(4) set_trim_space by (auto simp: colon_to_upper)
  then have m: "CHR '':'' \<notin> set (if to_upper (trim_space method) = [] then ''GET'' else to_upper (trim_space method))"
    by simp
  show ?thesis
  proof (cases "to_upper (trim_space method) = [] \<and> trim_space path = []")
    case True
    have "split_n CHR '':'' 3 ''http:ingress:response'' = [''http'', ''ingress'', ''response'']"
      by code_simp
    then show ?thesis
      using True assms by (simp add: http_signature_def Let_def)
  next
    case False
    then show ?thesis
      using assms split_n_signature [OF m] by (auto simp: http_signature_def Let_def)
  qed
qed

section \<open>Wire envelopes\<close>

lemma decode_string_struct_names:
  assumes "json_parse s = Some (JObj ms)"
    and "\<forall>(k, v) \<in> set ms. \<exists>x. v = JStr x"
  shows "decode_string_struct names s =
    Some (map (\<lambda>n. foldl (\<lambda>cur (k, v). if equal_fold k n then (case v of JStr x \<Rightarrow> x | _ \<Rightarrow> cur) else cur) []
            (filter (\<lambda>(k, v). \<exists>n \<in> set names. equal_fold k n) ms)) names)"
  using assms by (auto simp: decode_string_struct_def Let_def list_all_iff)

lemma wire_payload_parse:
  assumes "utf8_ok (ne_raw_request env)" "utf8_ok (ne_raw_response env)" "utf8_ok (ne_metadata env)"
  shows "json_parse (wire_stored_payload env) = Some (JObj
    ([(''request'', JStr (ne_raw_request env)), (''response'', JStr (ne_raw_response env))] @
     omit_empty ''metadata'' (ne_metadata env)))"
  unfolding wire_stored_payload_def
  by (rule json_parse_marshal)
    (use assms in \<open>auto simp: omit_empty_def utf8_ok_ascii max_nesting_depth_def\<close>)

text \<open>
  What Kaisel captured can be read back from the stored report: decoding the payload bytes of a
  report made from a wire envelope gives the request, the response and the metadata of the
  envelope, for texts that are valid UTF-8.
\<close>

theorem wire_payload_roundtrip:
  assumes "from_wire_envelope clock (Some env) = Inr rep"
    and "utf8_ok (ne_raw_request env)" "utf8_ok (ne_raw_response env)" "utf8_ok (ne_metadata env)"
  shows "decode_string_struct [''request'', ''response'', ''metadata''] (r_payload rep) =
    Some [ne_raw_request env, ne_raw_response env, ne_metadata env]"
proof -
  have payload: "r_payload rep = wire_stored_payload env"
    using assms(1) by (auto simp: from_wire_envelope_def Let_def split: sum.splits if_splits)
  show ?thesis
    unfolding payload
    using decode_string_struct_names [OF wire_payload_parse [OF assms(2-4)]]
    by (auto simp: omit_empty_def equal_fold_def to_lower_def lower_char_def)
qed

lemma normalize_wire_trace_id_lower_hex:
  "normalize_wire_trace_id raw = Inr tid \<Longrightarrow> lower_hex 32 tid"
  by (auto simp: normalize_wire_trace_id_def Let_def lower_hex_def is_hex_trace_id_def is_hex_iff
      list_all_iff to_lower_def dest: parse_traceparent_lower_hex [unfolded lower_hex_def]
      split: if_splits option.splits)

text \<open>
  Every report made from a wire envelope is well formed: a lower-case 32-digit trace id, a
  known role, a protocol that is trimmed, in lower case and not empty, a direction that is ingress
  or egress, a non-empty payload, and a signature that names the protocol.
\<close>

theorem wire_report_wellformed:
  assumes "from_wire_envelope clock env = Inr rep"
  shows "lower_hex 32 (r_trace_id rep) \<and> r_shadow_role rep \<in> set all_roles \<and>
    r_protocol rep \<noteq> [] \<and> trim_space (r_protocol rep) = r_protocol rep \<and>
    to_lower (r_protocol rep) = r_protocol rep \<and>
    r_direction rep \<in> {DirectionIngress, DirectionEgress} \<and> r_payload rep \<noteq> [] \<and>
    names_protocol (r_signature rep) (r_protocol rep) \<and> r_ingest_id rep = 0"
proof -
  obtain e where e: "env = Some e"
    using assms by (cases env) (auto simp: from_wire_envelope_def)
  obtain tid where tid: "normalize_wire_trace_id (ne_trace_id e) = Inr tid"
    using assms by (auto simp: e from_wire_envelope_def split: sum.splits)
  define p where "p = to_lower (trim_space (ne_protocol e))"
  have p: "to_lower p = p" "trim_space p = p"
    by (simp_all add: p_def trim_space_fixed)
  have sig: "names_protocol (wire_signature p m r st) p" for m r st
    using egress_signature_names_protocol [of p st] mongo_names http_names p
    by (auto simp: wire_signature_def split: prod.splits)
  show ?thesis
    using assms normalize_wire_trace_id_lower_hex [OF tid] p sig
    unfolding e from_wire_envelope_def option.case tid sum.case Let_def p_def [symmetric]
    by (auto simp: is_valid_role_iff wire_stored_payload_def split: if_splits)
qed

section \<open>The properties at concrete inputs\<close>

definition sample_envelope :: network_event_envelope where
  "sample_envelope =
     \<lparr>ne_trace_id = ''4BF92F3577B34DA6A3CE929D0E0E4736'', ne_pod_role = '' candidate '',
      ne_shadow_test_name = ''shop'', ne_protocol = '' HTTP'', ne_direction = ''Ingress'', ne_timestamp = 5,
      ne_raw_request = ''GET /a HTTP/1.1'', ne_raw_response = ''200 OK'', ne_metadata = []\<rparr>"

definition sample_wire_report :: raw_report where
  \<open>sample_wire_report =
     \<lparr>r_trace_id = ''4bf92f3577b34da6a3ce929d0e0e4736'', r_shadow_role = Candidate,
      r_shadow_test_name = ''shop'', r_protocol = ''http'', r_direction = DirectionIngress,
      r_signature = ''http:GET:/a'', r_status_code = [],
      r_payload = ''{"request":"GET /a HTTP/1.1","response":"200 OK"}'', r_captured_at = 5, r_ingest_id = 0\<rparr>\<close>

lemma sample_wire: "from_wire_envelope 0 (Some sample_envelope) = Inr sample_wire_report"
  by code_simp

theorem wire_payload_roundtrip_witness:
  "decode_string_struct [''request'', ''response'', ''metadata''] (r_payload sample_wire_report) =
     Some [''GET /a HTTP/1.1'', ''200 OK'', []]"
  using wire_payload_roundtrip [OF sample_wire] by (simp add: sample_envelope_def utf8_ok_ascii)

theorem wire_report_wellformed_witness:
  "lower_hex 32 (r_trace_id sample_wire_report) \<and> names_protocol (r_signature sample_wire_report) ''http''"
  using wire_report_wellformed [OF sample_wire] by (simp add: sample_wire_report_def)

theorem request_line_roundtrip_witness:
  "http_method_path [sample_wire_report\<lparr>r_signature := http_signature '' post'' []\<rparr>] = (''POST'', ''/'')"
proof -
  have "to_upper (trim_space '' post'') = ''POST''" "trim_space [] = []"
    by code_simp+
  then show ?thesis
    using request_line_roundtrip [of "sample_wire_report\<lparr>r_signature := http_signature '' post'' []\<rparr>" "'' post''" "[]" "[]"]
    by (simp add: sample_wire_report_def)
qed

end
