(* ===== verification/BeruStoreProps.thy ===== *)
theory BeruStoreProps
  imports BeruStore
begin

text \<open>
  The store's tables as instances of the table laws, what each operation does when the server
  accepts its statements, and the properties of the store: atomic and idempotent flushes,
  verdicts that are current for the stored history, isolation between traces, retention and
  the reaper's query.
\<close>

section \<open>The tables keep the laws\<close>

lemma put_fun_eq:
  "put_report = insert_once report_key" "put_verdict = upsert_row verdict_key"
  "put_trace = upsert_row trace_key" "put_diff = upsert_row diff_key"
  "put_noise = insert_once id" "put_session = upsert_row ss_id" "put_execution = insert_once fst"
  by (simp_all add: fun_eq_iff put_report_def put_verdict_def put_trace_def put_diff_def
      put_noise_def put_session_def put_execution_def)

interpretation reports: first_wins report_key put_report
  unfolding put_fun_eq by (rule first_wins_insert_once)

interpretation verdicts: upserting verdict_key put_verdict
  unfolding put_fun_eq by (rule upserting_upsert_row)

interpretation traces: upserting trace_key put_trace
  unfolding put_fun_eq by (rule upserting_upsert_row)

interpretation diffs: upserting diff_key put_diff
  unfolding put_fun_eq by (rule upserting_upsert_row)

interpretation noise: first_wins "id :: string \<times> string \<Rightarrow> string \<times> string" put_noise
  unfolding put_fun_eq by (rule first_wins_insert_once)



text \<open>The unique constraints, as an invariant of the database.\<close>

definition db_ok :: "db \<Rightarrow> bool" where
  "db_ok db \<longleftrightarrow>
     unique_keys report_key (db_reports db) \<and> unique_keys verdict_key (db_verdicts db) \<and>
     unique_keys trace_key (db_traces db) \<and> unique_keys diff_key (db_diffs db) \<and>
     unique_keys id (db_noise db) \<and> unique_keys ss_id (db_sessions db) \<and>
     unique_keys fst (db_execs db) \<and> distinct (db_migrations db)"

section \<open>Running operations\<close>

lemma ret_iff [simp]: "ret x db = (r, db') \<longleftrightarrow> r = Inr x \<and> db' = db"
  by (auto simp: ret_def)

lemma fail_iff [simp]: "fail e db = (r, db') \<longleftrightarrow> r = Inl e \<and> db' = db"
  by (auto simp: fail_def)

lemma bind_db_ok: "bind_db m k db = (Inr y, db'') \<longleftrightarrow> (\<exists>x db'. m db = (Inr x, db') \<and> k x db' = (Inr y, db''))"
  by (auto simp: bind_db_def split: prod.splits sum.splits)

lemma then_db_ok: "then_db m n db = (Inr y, db'') \<longleftrightarrow> (\<exists>x db'. m db = (Inr x, db') \<and> n db' = (Inr y, db''))"
  by (simp add: then_db_def bind_db_ok)

lemma exec_sql_ok: "exec_sql pg stmt f db = (Inr u, db') \<longleftrightarrow> accepts pg stmt \<and> db' = f db"
  by (auto simp: exec_sql_def)

lemma query_sql_ok: "query_sql pg stmt g db = (Inr x, db') \<longleftrightarrow> accepts pg stmt \<and> x = g db \<and> db' = db"
  by (auto simp: query_sql_def)

lemma transaction_ok:
  "transaction pg m db = (Inr x, db') \<longleftrightarrow> accepts pg BeginTx \<and> accepts pg CommitTx \<and> m db = (Inr x, db')"
  by (auto simp: transaction_def then_db_def bind_db_def exec_sql_def ret_def split: prod.splits sum.splits)

lemma transaction_rollback: "transaction pg m db = (Inl e, db') \<Longrightarrow> db' = db"
  by (auto simp: transaction_def split: prod.splits sum.splits)

lemmas run_ok = bind_db_ok then_db_ok exec_sql_ok query_sql_ok transaction_ok

lemma ex_unit [simp]: "(\<exists>u :: unit. P u) \<longleftrightarrow> P ()"
  by (metis (full_types) old.unit.exhaust)

lemma for_each_foldl:
  assumes "\<And>x db u db'. f x db = (Inr u, db') \<longleftrightarrow> ok x \<and> db' = g x db"
  shows "for_each f xs db = (Inr u, db') \<longleftrightarrow> (\<forall>x \<in> set xs. ok x) \<and> db' = foldl (\<lambda>db x. g x db) db xs"
  by (induction xs arbitrary: db) (auto simp: then_db_ok assms)











section \<open>What successful operations do\<close>

definition insert_all :: "postgres_store \<Rightarrow> raw_report list \<Rightarrow> db \<Rightarrow> db" where
  "insert_all p reports db = db\<lparr>db_reports := reports.puts (map (report_row_of p) reports) (db_reports db)\<rparr>"

lemma insert_report_ok:
  "insert_report pg p r db = (Inr u, db') \<longleftrightarrow>
     (r_ingest_id r \<noteq> 0 \<and> accepts pg (InsertReport (report_row_of p r))) \<and>
     db' = db\<lparr>db_reports := put_report (report_row_of p r) (db_reports db)\<rparr>"
  by (auto simp: insert_report_def Let_def exec_sql_ok)

lemma foldl_insert_all:
  "foldl (\<lambda>db r. db\<lparr>db_reports := put_report (report_row_of p r) (db_reports db)\<rparr>) db rs =
     insert_all p rs db"
  by (induction rs arbitrary: db) (auto simp: insert_all_def)

lemma insert_reports_ok:
  "for_each (insert_report pg p) rs db = (Inr u, db') \<longleftrightarrow>
     (\<forall>r \<in> set rs. r_ingest_id r \<noteq> 0 \<and> accepts pg (InsertReport (report_row_of p r))) \<and>
     db' = insert_all p rs db"
  using for_each_foldl [where f = "insert_report pg p", OF insert_report_ok, of rs db u db']
  by (simp add: foldl_insert_all)

text \<open>The rows a verdict is saved as.\<close>

definition diff_rows ::
  "pg_server \<Rightarrow> postgres_store \<Rightarrow> string \<Rightarrow> verdict_state \<Rightarrow> raw_report list \<Rightarrow> diff_row list" where
  "diff_rows pg p traceID v history =
     map (diff_row_of pg p traceID v (verdict_details_of v) history) (signature_order history)"

definition project_effect ::
  "pg_server \<Rightarrow> postgres_store \<Rightarrow> string \<Rightarrow> verdict_state \<Rightarrow> raw_report list \<Rightarrow> db \<Rightarrow> db" where
  "project_effect pg p traceID v history db =
     (if history = [] then db
      else db\<lparr>db_traces := put_trace (trace_row_of p traceID v history) (db_traces db),
              db_diffs := diffs.puts (diff_rows pg p traceID v history) (db_diffs db),
              db_events := db_events db @ [notify_payload p traceID v]\<rparr>)"

definition save_effect ::
  "pg_server \<Rightarrow> postgres_store \<Rightarrow> string \<Rightarrow> verdict_state \<Rightarrow> raw_report list \<Rightarrow> db \<Rightarrow> db" where
  "save_effect pg p traceID v history db =
     project_effect pg p traceID v history
       (db\<lparr>db_verdicts := put_verdict (verdict_row_of pg p traceID v history) (db_verdicts db)\<rparr>)"

definition save_accepted ::
  "pg_server \<Rightarrow> postgres_store \<Rightarrow> string \<Rightarrow> verdict_state \<Rightarrow> raw_report list \<Rightarrow> bool" where
  "save_accepted pg p traceID v history \<longleftrightarrow>
     accepts pg (UpsertVerdict (verdict_row_of pg p traceID v history)) \<and>
     (history \<noteq> [] \<longrightarrow>
        accepts pg (UpsertTrace (trace_row_of p traceID v history)) \<and>
        (\<forall>d \<in> set (diff_rows pg p traceID v history). accepts pg (UpsertDiff d)) \<and>
        accepts pg (PgNotify (notify_payload p traceID v)))"

lemma foldl_put_diffs:
  "foldl (\<lambda>db sig. db\<lparr>db_diffs := put_diff (row sig) (db_diffs db)\<rparr>) db sigs =
     db\<lparr>db_diffs := diffs.puts (map row sigs) (db_diffs db)\<rparr>"
  by (induction sigs arbitrary: db) auto

lemma upsert_diffs_ok:
  "for_each (\<lambda>sig. let drow = row sig
      in exec_sql pg (UpsertDiff drow) (\<lambda>db. db\<lparr>db_diffs := put_diff drow (db_diffs db)\<rparr>)) sigs db = (Inr u, db')
   \<longleftrightarrow> (\<forall>sig \<in> set sigs. accepts pg (UpsertDiff (row sig))) \<and>
     db' = db\<lparr>db_diffs := diffs.puts (map row sigs) (db_diffs db)\<rparr>"
  using for_each_foldl [of "\<lambda>sig. let drow = row sig
      in exec_sql pg (UpsertDiff drow) (\<lambda>db. db\<lparr>db_diffs := put_diff drow (db_diffs db)\<rparr>)"
      "\<lambda>sig. accepts pg (UpsertDiff (row sig))"
      "\<lambda>sig db. db\<lparr>db_diffs := put_diff (row sig) (db_diffs db)\<rparr>" sigs db u db']
  by (simp add: exec_sql_ok Let_def foldl_put_diffs)

lemma save_under_lock_ok:
  "save_under_lock pg p traceID v history db = (Inr u, db') \<longleftrightarrow>
     save_accepted pg p traceID v history \<and> db' = save_effect pg p traceID v history db"
  by (auto simp: save_under_lock_def upsert_verdict_def project_trace_def Let_def run_ok
      upsert_diffs_ok [unfolded Let_def] save_accepted_def save_effect_def project_effect_def diff_rows_def)

definition flush_effect ::
  "pg_server \<Rightarrow> postgres_store \<Rightarrow> run_env \<Rightarrow> raw_report list \<Rightarrow> string list \<Rightarrow> duration \<Rightarrow> db \<Rightarrow> db" where
  "flush_effect pg p env reports noise timeout db =
     (let traceID = r_trace_id (hd reports);
          db1 = insert_all p reports db;
          history = select_reports p traceID [] db1
      in case evaluate_history env history noise timeout of
           None \<Rightarrow> db1
         | Some v \<Rightarrow> save_effect pg p traceID v history db1)"

definition flush_accepted ::
  "pg_server \<Rightarrow> postgres_store \<Rightarrow> run_env \<Rightarrow> raw_report list \<Rightarrow> string list \<Rightarrow> duration \<Rightarrow> db \<Rightarrow> bool" where
  "flush_accepted pg p env reports noise timeout db \<longleftrightarrow>
     (let traceID = r_trace_id (hd reports);
          history = select_reports p traceID [] (insert_all p reports db)
      in traceID \<noteq> [] \<and> accepts pg BeginTx \<and> accepts pg CommitTx \<and>
         accepts pg (AdvisoryLock (lock_key p traceID)) \<and> accepts pg (SelectReports traceID) \<and>
         (\<forall>r \<in> set reports. r_ingest_id r \<noteq> 0 \<and> accepts pg (InsertReport (report_row_of p r))) \<and>
         (\<forall>v \<in> set_option (evaluate_history env history noise timeout).
            save_accepted pg p traceID v history))"

lemma list_reports_ok:
  "list_reports pg p t q db = (Inr h, db') \<longleftrightarrow>
     t \<noteq> [] \<and> accepts pg (SelectReports t) \<and> h = select_reports p t q db \<and> db' = db"
  by (auto simp: list_reports_def query_sql_ok)

lemma flush_ok:
  "reports \<noteq> [] \<Longrightarrow>
   flush_reports_and_evaluate pg p env reports noise timeout db = (Inr u, db') \<longleftrightarrow>
     flush_accepted pg p env reports noise timeout db \<and>
     db' = flush_effect pg p env reports noise timeout db"
  by (cases reports)
    (auto simp: flush_reports_and_evaluate_def run_ok insert_reports_ok list_reports_ok
      save_under_lock_ok flush_accepted_def flush_effect_def Let_def
      split: option.splits simp del: for_each.simps)

lemma flush_rollback:
  "flush_reports_and_evaluate pg p env reports noise timeout db = (Inl e, db') \<Longrightarrow> db' = db"
  by (cases reports) (auto simp: flush_reports_and_evaluate_def Let_def dest: transaction_rollback)

lemma save_diff_verdict_ok:
  "save_diff_verdict pg p t (Some v) db = (Inr u, db') \<longleftrightarrow>
     t \<noteq> [] \<and> accepts pg BeginTx \<and> accepts pg CommitTx \<and> accepts pg (AdvisoryLock (lock_key p t)) \<and>
     accepts pg (SelectReports t) \<and> save_accepted pg p t v (select_reports p t [] db) \<and>
     db' = save_effect pg p t v (select_reports p t [] db) db"
  by (auto simp: save_diff_verdict_def run_ok list_reports_ok save_under_lock_ok)

section \<open>Facts about the effects\<close>

lemma save_effect_reports [simp]: "db_reports (save_effect pg p t v h db) = db_reports db"
  by (simp add: save_effect_def project_effect_def)

lemma save_effect_verdicts [simp]:
  "db_verdicts (save_effect pg p t v h db) = put_verdict (verdict_row_of pg p t v h) (db_verdicts db)"
  by (simp add: save_effect_def project_effect_def)

lemma save_effect_traces [simp]:
  "db_traces (save_effect pg p t v h db) =
     (if h = [] then db_traces db else put_trace (trace_row_of p t v h) (db_traces db))"
  by (simp add: save_effect_def project_effect_def)

lemma save_effect_diffs [simp]:
  "db_diffs (save_effect pg p t v h db) =
     (if h = [] then db_diffs db else diffs.puts (diff_rows pg p t v h) (db_diffs db))"
  by (simp add: save_effect_def project_effect_def)

lemma select_reports_cong: "db_reports db = db_reports db' \<Longrightarrow> select_reports p t q db = select_reports p t q db'"
  by (simp add: select_reports_def)

lemma insert_all_other [simp]:
  "db_verdicts (insert_all p rs db) = db_verdicts db" "db_traces (insert_all p rs db) = db_traces db"
  "db_diffs (insert_all p rs db) = db_diffs db" "db_events (insert_all p rs db) = db_events db"
  by (simp_all add: insert_all_def)

lemma db_reports_insert_all [simp]:
  "db_reports (insert_all p rs db) = reports.puts (map (report_row_of p) rs) (db_reports db)"
  by (simp add: insert_all_def)

lemma flush_effect_reports [simp]:
  "db_reports (flush_effect pg p env rs noise timeout db) = db_reports (insert_all p rs db)"
  by (simp add: flush_effect_def Let_def split: option.splits)

lemma report_key_row [simp]: "report_key (report_row_of p r) = (replayExecutionID p, r_ingest_id r)"
  by (simp add: report_key_def report_row_of_def)

lemma diff_key_row [simp]: "diff_key (diff_row_of pg p t v d h sig) = (replayExecutionID p, t, sig)"
  by (simp add: diff_key_def diff_row_of_def Let_def)

lemma verdict_key_row [simp]: "verdict_key (verdict_row_of pg p t v h) = (replayExecutionID p, t)"
  by (simp add: verdict_key_def verdict_row_of_def)

lemma trace_key_row [simp]: "trace_key (trace_row_of p t v h) = (replayExecutionID p, t)"
  by (simp add: trace_key_def trace_row_of_def)

lemma unique_diff_rows: "unique_keys diff_key (diff_rows pg p t v h)"
  by (auto simp: unique_keys_def diff_rows_def distinct_map signature_order_def inj_on_def)

lemma set_signature_order [simp]: "set (signature_order h) = r_signature ` set h"
  by (simp add: signature_order_def)

lemma insert_all_absorbs: "insert_all p rs (insert_all p rs db) = insert_all p rs db"
  by (simp add: insert_all_def reports.puts_idem)

lemma insert_all_append: "insert_all p (rs @ ss) db = insert_all p ss (insert_all p rs db)"
  by (simp add: insert_all_def)

section \<open>The unique constraints hold throughout\<close>






section \<open>Flushing a batch\<close>


lemma flush_evaluates:
  assumes "flush_reports_and_evaluate pg p env reports noise timeout db = (Inr u, db')" "reports \<noteq> []"
  defines "t \<equiv> r_trace_id (hd reports)"
  defines "h \<equiv> select_reports p t [] db'"
  shows "h = select_reports p t [] (insert_all p reports db)"
    and "db' = (case evaluate_history env h noise timeout of
                  None \<Rightarrow> insert_all p reports db
                | Some v \<Rightarrow> save_effect pg p t v h (insert_all p reports db))"
proof -
  have eq: "db' = flush_effect pg p env reports noise timeout db"
    using assms(1,2) flush_ok by auto
  then show h: "h = select_reports p t [] (insert_all p reports db)"
    unfolding h_def by (intro select_reports_cong) simp
  show "db' = (case evaluate_history env h noise timeout of
                  None \<Rightarrow> insert_all p reports db
                | Some v \<Rightarrow> save_effect pg p t v h (insert_all p reports db))"
    unfolding h unfolding eq flush_effect_def t_def Let_def ..
qed

lemma current_rows:
  assumes "db' = (case ev of None \<Rightarrow> insert_all p rs db
                  | Some v \<Rightarrow> save_effect pg p t v h (insert_all p rs db))"
  shows "case ev of
      None \<Rightarrow> db_verdicts db' = db_verdicts db \<and> db_traces db' = db_traces db \<and> db_diffs db' = db_diffs db
    | Some v \<Rightarrow>
        find_row verdict_key (replayExecutionID p, t) (db_verdicts db') = Some (verdict_row_of pg p t v h) \<and>
        (h \<noteq> [] \<longrightarrow>
          find_row trace_key (replayExecutionID p, t) (db_traces db') = Some (trace_row_of p t v h) \<and>
          (\<forall>sig \<in> r_signature ` set h.
             find_row diff_key (replayExecutionID p, t, sig) (db_diffs db') =
               Some (diff_row_of pg p t v (verdict_details_of v) h sig)))"
proof (cases ev)
  case (Some v)
  have "find_row diff_key (replayExecutionID p, t, sig) (diffs.puts (diff_rows pg p t v h) ds) =
      Some (diff_row_of pg p t v (verdict_details_of v) h sig)" if "sig \<in> r_signature ` set h" for sig ds
    using diffs.find_puts [OF unique_diff_rows, of "diff_row_of pg p t v (verdict_details_of v) h sig"]
      that by (auto simp: diff_rows_def)
  then show ?thesis
    using Some assms verdicts.latest [of "verdict_row_of pg p t v h"] traces.latest [of "trace_row_of p t v h"]
    by simp
qed (use assms in simp)

text \<open>
  C7: After a successful flush the stored verdict of the trace is the verdict of the history
  stored by then, its projected row and the diff row of every signature of that history carry the
  same status; when there is no verdict yet (roles still missing), all derived tables are untouched.
\<close>

theorem flush_verdict_current:
  assumes "flush_reports_and_evaluate pg p env (r # rs) noise timeout db = (Inr u, db')"
  shows "(let t = r_trace_id r; h = select_reports p t [] db'
          in case evaluate_history env h noise timeout of
               None \<Rightarrow> db_verdicts db' = db_verdicts db \<and> db_traces db' = db_traces db \<and> db_diffs db' = db_diffs db
             | Some v \<Rightarrow>
                 find_row verdict_key (replayExecutionID p, t) (db_verdicts db') = Some (verdict_row_of pg p t v h) \<and>
                 (h \<noteq> [] \<longrightarrow>
                   find_row trace_key (replayExecutionID p, t) (db_traces db') = Some (trace_row_of p t v h) \<and>
                   (\<forall>sig \<in> r_signature ` set h.
                      find_row diff_key (replayExecutionID p, t, sig) (db_diffs db') =
                        Some (diff_row_of pg p t v (verdict_details_of v) h sig))))"
  using current_rows [OF flush_evaluates(2) [OF assms list.distinct(2)]] unfolding Let_def list.sel .

section \<open>Redelivery, batching, isolation\<close>

lemma save_effect_again:
  assumes "db_ok db"
  shows "\<exists>ev. save_effect pg p t v h (save_effect pg p t v h db) = (save_effect pg p t v h db)\<lparr>db_events := ev\<rparr>"
proof (cases "h = []")
  case True
  then show ?thesis
    using assms verdicts.put_idem [of "db_verdicts db"]
    by (auto simp: save_effect_def project_effect_def db_ok_def intro!: exI [of _ "db_events db"])
next
  case False
  then show ?thesis
    using assms verdicts.put_idem [of "db_verdicts db"] traces.put_idem [of "db_traces db"]
      diffs.puts_idem [OF _ unique_diff_rows, of "db_diffs db"]
    by (auto simp: save_effect_def project_effect_def db_ok_def)
qed

lemma insert_all_save_effect:
  assumes "insert_all p rs db = db"
  shows "insert_all p rs (save_effect pg p t v h db) = save_effect pg p t v h db"
  using arg_cong [OF assms, of db_reports] by (simp add: insert_all_def)

lemma db_ok_insert_all: "db_ok db \<Longrightarrow> db_ok (insert_all p rs db)"
  by (simp add: db_ok_def insert_all_def reports.unique_puts)

text \<open>
  Redelivery is harmless: flushing again a batch that was flushed before (the WAL retries
  when it cannot tell whether a commit went through) succeeds on the same server and leaves every
  table as it is; only a second notification goes out.
\<close>

theorem flush_redelivery:
  assumes "db_ok db"
    and "flush_reports_and_evaluate pg p env reports noise timeout db = (Inr u, db')"
  shows "\<exists>ev. flush_reports_and_evaluate pg p env reports noise timeout db' = (Inr (), db'\<lparr>db_events := ev\<rparr>)"
proof (cases "reports = []")
  case True
  then show ?thesis
    by (auto simp: flush_reports_and_evaluate_def intro!: exI [of _ "db_events db'"])
next
  case False
  define t where "t = r_trace_id (hd reports)"
  define h where "h = select_reports p t [] db'"
  let ?db1 = "insert_all p reports db"
  have acc: "flush_accepted pg p env reports noise timeout db"
    using assms False flush_ok by auto
  have h: "h = select_reports p t [] ?db1"
    and db': "db' = (case evaluate_history env h noise timeout of
                  None \<Rightarrow> ?db1 | Some v \<Rightarrow> save_effect pg p t v h ?db1)"
    using flush_evaluates [OF assms(2) False] unfolding h_def t_def by blast+
  have same: "insert_all p reports db' = db'"
    using db' insert_all_absorbs insert_all_save_effect by (auto split: option.splits)
  have acc': "flush_accepted pg p env reports noise timeout db'"
    using acc unfolding flush_accepted_def Let_def same t_def [symmetric] h_def [symmetric] h [symmetric] .
  have "flush_effect pg p env reports noise timeout db' =
      (case evaluate_history env h noise timeout of None \<Rightarrow> db' | Some v \<Rightarrow> save_effect pg p t v h db')"
    unfolding flush_effect_def Let_def same t_def [symmetric] h_def [symmetric] ..
  also have "\<exists>ev. \<dots> = db'\<lparr>db_events := ev\<rparr>"
  proof (cases "evaluate_history env h noise timeout")
    case None
    then show ?thesis
      by (auto intro!: exI [of _ "db_events db'"])
  next
    case (Some v)
    then show ?thesis
      using save_effect_again [OF db_ok_insert_all [OF assms(1)]] db' by auto
  qed
  finally show ?thesis
    using flush_ok [OF False] acc' by auto
qed

text \<open>
  C9: How the WAL cuts a trace's reports into batches does not matter: flushing two batches of a
  trace one after the other stores the same reports, and in the end the same verdict, projected
  row and diff rows, as flushing them as one batch.
\<close>

theorem flush_batching:
  assumes one: "flush_reports_and_evaluate pg p env (xs @ ys) noise timeout db = (Inr u, db1)"
    and fst: "flush_reports_and_evaluate pg p env xs noise timeout db = (Inr u', db2)"
    and snd: "flush_reports_and_evaluate pg p env ys noise timeout db2 = (Inr u'', db3)"
    and trace: "\<forall>r \<in> set (xs @ ys). r_trace_id r = t" and ne: "xs \<noteq> []" "ys \<noteq> []"
    and verdict: "evaluate_history env (select_reports p t [] db3) noise timeout = Some v"
  shows "db_reports db1 = db_reports db3 \<and>
    find_row verdict_key (replayExecutionID p, t) (db_verdicts db1) =
      find_row verdict_key (replayExecutionID p, t) (db_verdicts db3) \<and>
    (select_reports p t [] db3 \<noteq> [] \<longrightarrow>
      find_row trace_key (replayExecutionID p, t) (db_traces db1) =
        find_row trace_key (replayExecutionID p, t) (db_traces db3)) \<and>
    (\<forall>sig \<in> r_signature ` set (select_reports p t [] db3).
      find_row diff_key (replayExecutionID p, t, sig) (db_diffs db1) =
        find_row diff_key (replayExecutionID p, t, sig) (db_diffs db3))"
proof -
  have hd: "r_trace_id (hd (xs @ ys)) = t" "r_trace_id (hd ys) = t"
    using trace ne by simp_all
  have "db_reports db1 = reports.puts (map (report_row_of p) (xs @ ys)) (db_reports db)"
    using one flush_ok [of "xs @ ys"] ne by auto
  moreover have "db_reports db2 = reports.puts (map (report_row_of p) xs) (db_reports db)"
    using fst flush_ok [of xs] ne by auto
  moreover have "db_reports db3 = reports.puts (map (report_row_of p) ys) (db_reports db2)"
    using snd flush_ok [of ys] ne by auto
  ultimately have eq: "db_reports db1 = db_reports db3"
    by simp
  then have h: "select_reports p t [] db1 = select_reports p t [] db3"
    by (rule select_reports_cong)
  let ?h = "select_reports p t [] db3"
  have "db1 = save_effect pg p t v ?h (insert_all p (xs @ ys) db)"
    using flush_evaluates(2) [OF one] ne verdict h hd by simp
  moreover have "db3 = save_effect pg p t v ?h (insert_all p ys db2)"
    using flush_evaluates(2) [OF snd] ne verdict hd by simp
  ultimately show ?thesis
    using eq current_rows [where db' = db1 and ev = "Some v" and rs = "xs @ ys" and db = db and t = t and h = ?h]
      current_rows [where db' = db3 and ev = "Some v" and rs = ys and db = db2 and t = t and h = ?h]
    by simp
qed

lemma select_reports_puts_other:
  assumes "\<forall>r \<in> set rs. rr_exec r \<noteq> replayExecutionID p \<or> r_trace_id (rr_report r) \<noteq> t"
    and "db_reports db' = reports.puts rs (db_reports db)"
  shows "select_reports p t q db' = select_reports p t q db"
proof -
  obtain new where new: "db_reports db' = db_reports db @ new" "set new \<subseteq> set rs"
    using reports.puts_extends [of "db_reports db" rs] assms(2) by auto
  have "filter (\<lambda>x. rr_exec x = replayExecutionID p \<and> r_trace_id (rr_report x) = t \<and>
      (q = [] \<or> r_protocol (rr_report x) = q)) new = []"
    using new(2) assms(1) by (auto simp: filter_empty_conv)
  then show ?thesis
    by (simp add: select_reports_def new(1))
qed

text \<open>
  Isolation: flushing reports of one trace, whatever its outcome, changes neither the reports
  nor the verdict, projected row or diff rows of any other trace or of any other replay execution
  sharing the database.
\<close>

theorem flush_isolation:
  assumes "\<forall>r \<in> set reports. r_trace_id r = t"
    and "replayExecutionID q \<noteq> replayExecutionID p \<or> t' \<noteq> t"
    and "db' = snd (flush_reports_and_evaluate pg p env reports noise timeout db)"
  shows "select_reports q t' prot db' = select_reports q t' prot db \<and>
    find_row verdict_key (replayExecutionID q, t') (db_verdicts db') =
      find_row verdict_key (replayExecutionID q, t') (db_verdicts db) \<and>
    find_row trace_key (replayExecutionID q, t') (db_traces db') =
      find_row trace_key (replayExecutionID q, t') (db_traces db) \<and>
    find_row diff_key (replayExecutionID q, t', sig) (db_diffs db') =
      find_row diff_key (replayExecutionID q, t', sig) (db_diffs db)"
proof (cases "flush_reports_and_evaluate pg p env reports noise timeout db")
  case (Pair res db'')
  then have db'': "db'' = db'"
    using assms(3) by simp
  show ?thesis
  proof (cases "(\<exists>e. res = Inl e) \<or> reports = []")
    case True
    then have "db' = db"
      using Pair flush_rollback db'' by (auto simp: flush_reports_and_evaluate_def)
    then show ?thesis
      by simp
  next
    case False
    then obtain u where ok: "flush_reports_and_evaluate pg p env reports noise timeout db = (Inr u, db')"
      using Pair db'' by (cases res) auto
    have t: "r_trace_id (hd reports) = t"
      using False assms(1) by (cases reports) auto
    have db': "db' = (case evaluate_history env (select_reports p t [] db') noise timeout of
        None \<Rightarrow> insert_all p reports db
      | Some v \<Rightarrow> save_effect pg p t v (select_reports p t [] db') (insert_all p reports db))"
      using flush_evaluates(2) [OF ok] False unfolding t by blast
    have "db_reports db' = reports.puts (map (report_row_of p) reports) (db_reports db)"
      using ok flush_ok False by auto
    then have sel: "select_reports q t' prot db' = select_reports q t' prot db"
      using assms(1,2) by (intro select_reports_puts_other) (auto simp: report_row_of_def)
    show ?thesis
    proof (cases "evaluate_history env (select_reports p t [] db') noise timeout")
      case None
      then have "db' = insert_all p reports db"
        using db' by simp
      then show ?thesis
        using sel by simp
    next
      case (Some v)
      define h where "h = select_reports p t [] db'"
      have eq: "db' = save_effect pg p t v h (insert_all p reports db)"
        using Some db' by (simp add: h_def)
      have "(replayExecutionID q, t', sig) \<notin> diff_key ` set (diff_rows pg p t v h)"
        using assms(2) by (auto simp: diff_rows_def)
      then show ?thesis
        using sel assms(2) diffs.find_puts_other verdicts.find_other traces.find_other
        unfolding eq by (auto simp: eq)
    qed
  qed
qed

section \<open>The reaper's query and retention\<close>

lemma min_captured_Min: "rs \<noteq> [] \<Longrightarrow> min_captured rs = Min (r_captured_at ` set rs)"
proof -
  have "foldr (\<lambda>r m. min (r_captured_at r) m) xs a = Min (insert a (r_captured_at ` set xs))" for xs :: "raw_report list" and a
  proof (induction xs)
    case (Cons y xs)
    have "Min (insert a (insert (r_captured_at y) (r_captured_at ` set xs))) =
        min (r_captured_at y) (Min (insert a (r_captured_at ` set xs)))"
      by (subst insert_commute) (rule Min_insert; simp)
    then show ?case
      using Cons by simp
  qed simp
  then show "rs \<noteq> [] \<Longrightarrow> min_captured rs = Min (r_captured_at ` set rs)"
    by (cases rs) (auto simp: min_captured_def)
qed

lemma role_count_0: "role_count rs role = 0 \<longleftrightarrow> role \<notin> r_shadow_role ` set rs"
  by (auto simp: role_count_def filter_empty_conv)

definition test_reports :: "postgres_store \<Rightarrow> string \<Rightarrow> db \<Rightarrow> raw_report list" where
  "test_reports p t db =
     map rr_report (filter (\<lambda>x. rr_exec x = replayExecutionID p \<and>
       r_shadow_test_name (rr_report x) = default_shadow_test_name p \<and> r_trace_id (rr_report x) = t) (db_reports db))"

definition undecided_rows :: "postgres_store \<Rightarrow> db \<Rightarrow> raw_report list" where
  "undecided_rows p db =
     map rr_report (filter (\<lambda>x. r_shadow_test_name (rr_report x) = default_shadow_test_name p \<and>
       rr_exec x = replayExecutionID p \<and>
       find_row verdict_key (rr_exec x, r_trace_id (rr_report x)) (db_verdicts db) = None) (db_reports db))"

lemma undecided_of_trace:
  "filter (\<lambda>r. r_trace_id r = t) (undecided_rows p db) =
     (if find_row verdict_key (replayExecutionID p, t) (db_verdicts db) = None then test_reports p t db else [])"
  unfolding undecided_rows_def test_reports_def
  by (auto simp: filter_map o_def intro!: arg_cong [where f = "map rr_report"] filter_cong filter_False)

lemma undecided_traces:
  "t \<in> r_trace_id ` set (undecided_rows p db) \<longleftrightarrow>
     find_row verdict_key (replayExecutionID p, t) (db_verdicts db) = None \<and> test_reports p t db \<noteq> []"
proof -
  have "t \<in> r_trace_id ` set (undecided_rows p db) \<longleftrightarrow> filter (\<lambda>r. r_trace_id r = t) (undecided_rows p db) \<noteq> []"
    by (auto simp: filter_empty_conv)
  then show ?thesis
    by (simp add: undecided_of_trace)
qed

text \<open>
  The reaper's query returns every trace of this store's execution and shadow test that has
  no verdict, lacks a report of some role and whose first report is at or before the cutoff, each
  once with the time of its first report, and nothing else.
\<close>

theorem stale_incomplete_spec:
  "distinct (map st_trace_id (stale_incomplete p cutoff db)) \<and>
   (s \<in> set (stale_incomplete p cutoff db) \<longleftrightarrow>
     find_row verdict_key (replayExecutionID p, st_trace_id s) (db_verdicts db) = None \<and>
     (let rs = test_reports p (st_trace_id s) db
      in rs \<noteq> [] \<and> \<not> set all_roles \<subseteq> r_shadow_role ` set rs \<and>
         st_first_seen s = Min (r_captured_at ` set rs) \<and> st_first_seen s \<le> timestamptz cutoff))"
proof -
  let ?U = "undecided_rows p db"
  let ?of = "\<lambda>t. filter (\<lambda>r. r_trace_id r = t) ?U"
  let ?P = "\<lambda>t. min_captured (?of t) \<le> timestamptz cutoff \<and>
    (role_count (?of t) ControlA = 0 \<or> role_count (?of t) ControlB = 0 \<or> role_count (?of t) Candidate = 0)"
  have eq: "stale_incomplete p cutoff db =
      map (\<lambda>t. \<lparr>st_trace_id = t, st_first_seen = min_captured (?of t)\<rparr>)
        (filter ?P (dedup_first (map r_trace_id ?U)))"
    by (simp add: stale_incomplete_def undecided_rows_def Let_def)
  have ids: "map st_trace_id (stale_incomplete p cutoff db) = filter ?P (dedup_first (map r_trace_id ?U))"
    by (simp add: eq o_def)
  have mem: "s \<in> set (stale_incomplete p cutoff db) \<longleftrightarrow>
      st_trace_id s \<in> r_trace_id ` set ?U \<and> ?P (st_trace_id s) \<and> st_first_seen s = min_captured (?of (st_trace_id s))"
    unfolding eq by (cases s) auto
  have roles: "role_count rs ControlA = 0 \<or> role_count rs ControlB = 0 \<or> role_count rs Candidate = 0 \<longleftrightarrow>
      \<not> set all_roles \<subseteq> r_shadow_role ` set rs" for rs
    by (auto simp: role_count_0 all_roles_def)
  show ?thesis
    unfolding mem ids undecided_traces roles undecided_of_trace
    by (auto simp: Let_def min_captured_Min)
qed

text \<open>
  A prune that commits deletes exactly the reports captured before the retention window and
  leaves no verdict, projected row or diff row of a trace without reports; what belongs to a
  trace with reports left stays; pruning again at the same time deletes nothing more.
\<close>

theorem prune_spec:
  assumes "prune pg p now db = (Inr u, db')"
  shows "(let cutoff = timestamptz now - retentionDays p * day in
      (\<forall>x. x \<in> set (db_reports db') \<longleftrightarrow> x \<in> set (db_reports db) \<and> cutoff \<le> r_captured_at (rr_report x)) \<and>
      (\<forall>v. v \<in> set (db_verdicts db') \<longleftrightarrow> v \<in> set (db_verdicts db) \<and>
             has_reports (db_reports db') (vr_exec v) (vr_trace v)) \<and>
      (\<forall>d. d \<in> set (db_diffs db') \<longleftrightarrow> d \<in> set (db_diffs db) \<and>
             has_reports (db_reports db') (dr_exec d) (dr_trace d)) \<and>
      (\<forall>t. t \<in> set (db_traces db') \<longleftrightarrow> t \<in> set (db_traces db) \<and>
             has_reports (db_reports db') (tr_exec t) (tr_trace t)) \<and>
      prune pg p now db' = (Inr (), db'))"
proof -
  define cutoff where "cutoff = timestamptz now - retentionDays p * day"
  have acc: "accepts pg BeginTx" "accepts pg CommitTx" "accepts pg (PruneReports cutoff)" "accepts pg PruneDerived"
    and db': "db' = prune_derived (prune_reports cutoff db)"
    using assms by (auto simp: prune_def Let_def run_ok cutoff_def)
  have "prune_derived (prune_reports cutoff db') = db'"
    unfolding db' by (simp add: prune_derived_def prune_reports_def)
  then have "prune pg p now db' = (Inr (), db')"
    using acc unfolding prune_def Let_def cutoff_def [symmetric] by (auto simp: run_ok)
  then show ?thesis
    unfolding Let_def cutoff_def [symmetric]
    by (auto simp: db' prune_derived_def prune_reports_def)
qed

section \<open>Reading a verdict back\<close>

text \<open>
  What the code relies on of a JSONB column: it keeps an object's members (up to order and white
  space), so that decoding the text it gives back is decoding the text that was stored.
\<close>

definition jsonb_keeps :: "pg_server \<Rightarrow> bool" where
  "jsonb_keeps pg \<longleftrightarrow>
     (\<forall>d. details_ok d \<longrightarrow>
        unmarshal_details (jsonb_text pg (must_json d)) = unmarshal_details (must_json d) \<and>
        (\<exists>ms. json_parse (jsonb_text pg (must_json d)) = Some (JObj ms)))"

lemma json_parse_must_json: "details_ok d \<Longrightarrow> json_parse (must_json d) = Some (details_json d)"
  using details_json_depth [of d]
  by (simp add: must_json_def json_parse_marshal details_json_wf max_nesting_depth_def)

lemma must_json_nonempty [simp]: "must_json d \<noteq> []"
  by (simp add: must_json_def details_json_def)

lemma jsonb_value_must_json: "details_ok d \<Longrightarrow> jsonb_value (must_json d) = Some (must_json d)"
  by (simp add: jsonb_value_def json_valid_def json_parse_must_json)

lemma json_parse_Nil: "json_parse [] = None"
  by (simp add: json_parse_def skip_ws_def)

text \<open>
  A verdict saved with marshalled details reads back with its status, count-regression bit
  and flags unchanged, its details as JSONB gives them back and its time stamp cut to microseconds.
\<close>

theorem verdict_read_back:
  assumes "jsonb_keeps pg" "details_ok d" "v_summary_details v = must_json d" "v_flags v = d_flags d"
    and "save_diff_verdict pg p t (Some v) db = (Inr u, db')" "accepts pg (SelectVerdict t)"
  shows "get_verdict pg p t db' =
    (Inr (Some (v\<lparr>v_summary_details := jsonb_text pg (must_json d),
                  v_updated_at := timestamptz (v_updated_at v)\<rparr>)), db')"
proof -
  let ?h = "select_reports p t [] db" and ?j = "jsonb_text pg (must_json d)"
  have db': "db_verdicts db' = put_verdict (verdict_row_of pg p t v ?h) (db_verdicts db)"
    using assms(5) by (simp add: save_diff_verdict_ok)
  have row: "find_row verdict_key (replayExecutionID p, t) (db_verdicts db') = Some (verdict_row_of pg p t v ?h)"
    using verdicts.latest [of "verdict_row_of pg p t v ?h"] by (simp add: db')
  obtain ms where parse: "json_parse ?j = Some (JObj ms)" and details: "unmarshal_details ?j = (d, True)"
    using assms(1,2) unmarshal_must_json by (auto simp: jsonb_keeps_def)
  have "?j \<noteq> []"
    using parse json_parse_Nil by force
  then have "verdict_of_row (verdict_row_of pg p t v ?h) =
      v\<lparr>v_summary_details := ?j, v_updated_at := timestamptz (v_updated_at v)\<rparr>"
    using assms(2-4) parse details
    by (simp add: verdict_of_row_def verdict_row_of_def jsonb_string_def jsonb_value_must_json Let_def)
  then show ?thesis
    using row assms(6) by (simp add: get_verdict_def query_sql_def)
qed

section \<open>The properties at concrete inputs\<close>

definition sample_server :: pg_server where
  "sample_server = \<lparr>accepts = (\<lambda>_. True), jsonb_text = (\<lambda>s. s)\<rparr>"

definition sample_store :: postgres_store where
  "sample_store = \<lparr>retentionDays = 7, defaultTestName = ''shop'', sessionID = ''s1'', replayExecutionID = ''e1''\<rparr>"

definition sample_env :: run_env where
  "sample_env = \<lparr>order1 = id, order2 = id, clock_now = 0\<rparr>"

definition sample_report :: "string \<Rightarrow> 64 word \<Rightarrow> instant \<Rightarrow> raw_report" where
  "sample_report role i ts =
     \<lparr>r_trace_id = ''t1'', r_shadow_role = role, r_shadow_test_name = ''shop'', r_protocol = ''http'',
      r_direction = DirectionIngress, r_signature = ''http:GET:/'', r_status_code = ''200'',
      r_payload = ''{}'', r_captured_at = ts, r_ingest_id = i\<rparr>"

definition sample_batch1 :: "raw_report list" where
  "sample_batch1 = [sample_report ControlB 2 2000, sample_report ControlA 1 1000]"

definition sample_batch2 :: "raw_report list" where
  "sample_batch2 = [sample_report Candidate 3 3500]"

definition sample_flush :: "raw_report list \<Rightarrow> db \<Rightarrow> (store_error + unit) \<times> db" where
  "sample_flush rs = flush_reports_and_evaluate sample_server sample_store sample_env rs [] 0"

definition sample_db1 :: db where "sample_db1 = snd (sample_flush sample_batch1 empty_db)"
definition sample_db2 :: db where "sample_db2 = snd (sample_flush sample_batch2 sample_db1)"
definition sample_db :: db where "sample_db = snd (sample_flush (sample_batch1 @ sample_batch2) empty_db)"

lemma sample_flushes:
  "sample_flush sample_batch1 empty_db = (Inr (), sample_db1)"
  "sample_flush sample_batch2 sample_db1 = (Inr (), sample_db2)"
  "sample_flush (sample_batch1 @ sample_batch2) empty_db = (Inr (), sample_db)"
proof -
  have "fst (sample_flush sample_batch1 empty_db) = Inr ()"
    by code_simp
  then show "sample_flush sample_batch1 empty_db = (Inr (), sample_db1)"
    by (simp add: sample_db1_def prod_eq_iff)
  have "fst (sample_flush sample_batch2 sample_db1) = Inr ()"
    by code_simp
  then show "sample_flush sample_batch2 sample_db1 = (Inr (), sample_db2)"
    by (simp add: sample_db2_def prod_eq_iff)
  have "fst (sample_flush (sample_batch1 @ sample_batch2) empty_db) = Inr ()"
    by code_simp
  then show "sample_flush (sample_batch1 @ sample_batch2) empty_db = (Inr (), sample_db)"
    by (simp add: sample_db_def prod_eq_iff)
qed

lemma sample_history:
  "evaluate_history sample_env (select_reports sample_store ''t1'' [] sample_db2) [] 0 \<noteq> None"
  "map r_shadow_role (select_reports sample_store ''t1'' [] sample_db2) = all_roles"
  by code_simp+

theorem flush_verdict_current_witness:
  "\<exists>v. evaluate_history sample_env (select_reports sample_store ''t1'' [] sample_db) [] 0 = Some v \<and>
     find_row verdict_key (''e1'', ''t1'') (db_verdicts sample_db) =
       Some (verdict_row_of sample_server sample_store ''t1'' v (select_reports sample_store ''t1'' [] sample_db))"
proof -
  have batch: "sample_batch1 @ sample_batch2 =
      sample_report ControlB 2 2000 # [sample_report ControlA 1 1000, sample_report Candidate 3 3500]"
    by (simp add: sample_batch1_def sample_batch2_def)
  have "evaluate_history sample_env (select_reports sample_store ''t1'' [] sample_db) [] 0 \<noteq> None"
    by code_simp
  then show ?thesis
    using flush_verdict_current [OF sample_flushes(3) [unfolded sample_flush_def batch]]
    by (auto simp: Let_def sample_report_def sample_store_def)
qed

theorem flush_redelivery_witness:
  "db_ok empty_db \<and>
   (\<exists>ev. sample_flush sample_batch1 sample_db1 = (Inr (), sample_db1\<lparr>db_events := ev\<rparr>))"
proof -
  have "db_ok empty_db"
    by code_simp
  then show ?thesis
    using flush_redelivery [OF _ sample_flushes(1) [unfolded sample_flush_def]] by (simp add: sample_flush_def)
qed

theorem flush_batching_witness:
  "db_reports sample_db = db_reports sample_db2 \<and>
   find_row verdict_key (''e1'', ''t1'') (db_verdicts sample_db) =
     find_row verdict_key (''e1'', ''t1'') (db_verdicts sample_db2)"
proof -
  obtain v where v: "evaluate_history sample_env (select_reports sample_store ''t1'' [] sample_db2) [] 0 = Some v"
    using sample_history(1) by blast
  have "\<forall>r \<in> set (sample_batch1 @ sample_batch2). r_trace_id r = ''t1''" "sample_batch1 \<noteq> []" "sample_batch2 \<noteq> []"
    by (simp_all add: sample_batch1_def sample_batch2_def sample_report_def)
  then show ?thesis
    using flush_batching [OF sample_flushes(3,1,2) [unfolded sample_flush_def] _ _ _ v]
    by (simp add: sample_store_def)
qed

theorem flush_isolation_witness:
  "find_row verdict_key (''e1'', ''t2'') (db_verdicts sample_db1) = None"
proof -
  have "\<forall>r \<in> set sample_batch1. r_trace_id r = ''t1''"
    by (simp add: sample_batch1_def sample_report_def)
  then have "find_row verdict_key (replayExecutionID sample_store, ''t2'') (db_verdicts sample_db1) =
      find_row verdict_key (replayExecutionID sample_store, ''t2'') (db_verdicts empty_db)"
    using flush_isolation [of sample_batch1 "''t1''" sample_store sample_store "''t2''" sample_db1]
      sample_db1_def by (simp add: sample_flush_def)
  then show ?thesis
    by (simp add: sample_store_def empty_db_def)
qed

definition sample_pruned :: "db" where
  "sample_pruned = snd (prune sample_server sample_store (604800000002000) sample_db)"

theorem prune_spec_witness:
  "prune sample_server sample_store 604800000002000 sample_db = (Inr (), sample_pruned) \<and>
   map (r_ingest_id \<circ> rr_report) (db_reports sample_pruned) = [2, 3] \<and>
   prune sample_server sample_store 604800000002000 sample_pruned = (Inr (), sample_pruned)"
proof -
  have "fst (prune sample_server sample_store 604800000002000 sample_db) = Inr ()"
    "map (r_ingest_id \<circ> rr_report) (db_reports sample_pruned) = [2, 3]"
    by code_simp+
  moreover from this have run: "prune sample_server sample_store 604800000002000 sample_db = (Inr (), sample_pruned)"
    by (simp add: sample_pruned_def prod_eq_iff)
  ultimately show ?thesis
    using prune_spec [OF run] by (simp add: Let_def)
qed

definition sample_details :: verdict_details where
  "sample_details = empty_details\<lparr>d_flags := [FlagMismatchCount]\<rparr>"

definition sample_verdict :: verdict_state where
  "sample_verdict = \<lparr>v_status = StatusMismatch, v_has_count_regression = True,
     v_flags = [FlagMismatchCount], v_summary_details = must_json sample_details, v_updated_at = 1500\<rparr>"

theorem verdict_read_back_witness:
  "fst (get_verdict sample_server sample_store ''t1''
          (snd (save_diff_verdict sample_server sample_store ''t1'' (Some sample_verdict) sample_db1))) =
     Inr (Some (sample_verdict\<lparr>v_updated_at := 1000\<rparr>))"
proof -
  have "jsonb_keeps sample_server"
    using json_parse_must_json by (auto simp: jsonb_keeps_def sample_server_def details_json_def)
  moreover have "details_ok sample_details"
    by (simp add: details_ok_def sample_details_def empty_details_def FlagMismatchCount_def utf8_ok_ascii)
  moreover have "fst (save_diff_verdict sample_server sample_store ''t1'' (Some sample_verdict) sample_db1) = Inr ()"
    by code_simp
  then have "save_diff_verdict sample_server sample_store ''t1'' (Some sample_verdict) sample_db1 =
      (Inr (), snd (save_diff_verdict sample_server sample_store ''t1'' (Some sample_verdict) sample_db1))"
    by (simp add: prod_eq_iff)
  ultimately show ?thesis
    using verdict_read_back [of sample_server sample_details sample_verdict sample_store "''t1''" sample_db1]
    by (simp add: sample_verdict_def sample_details_def empty_details_def sample_server_def timestamptz_def)
qed

end
