(* ===== verification/GoTime.thy ===== *)
theory GoTime
  imports GoStrings
begin

text \<open>
  \<^verbatim>\<open>time.ParseDuration\<close>, in nanoseconds: an optional sign and one or more numbers with
  a fraction and a unit.  The fraction is taken exactly where the package multiplies in
  \<^verbatim>\<open>float64\<close>; intermediate overflows past 2^63 are errors.
\<close>

definition unit_ns :: "string \<Rightarrow> int option" where
  "unit_ns u =
     (if u = ''ns'' then Some 1
      else if u = ''us'' \<or> u = [CHR 0xC2, CHR 0xB5, CHR ''s''] \<or> u = [CHR 0xCE, CHR 0xBC, CHR ''s''] then Some 1000
      else if u = ''ms'' then Some millisecond
      else if u = ''s'' then Some second
      else if u = ''m'' then Some (60 * second)
      else if u = ''h'' then Some (3600 * second)
      else None)"

definition int_of_digits :: "string \<Rightarrow> int" where
  "int_of_digits s = foldl (\<lambda>n c. 10 * n + (int (of_char c) - 48)) 0 s"

text \<open>One number with its unit: its value and the rest of the text.\<close>

definition parse_term :: "string \<Rightarrow> (int \<times> string) option" where
  "parse_term s =
     (let ds = takeWhile is_digit s; r1 = dropWhile is_digit s;
          (fs, r2, dot) = (case r1 of c # t \<Rightarrow> if c = CHR ''.'' then (takeWhile is_digit t, dropWhile is_digit t, True)
                                     else ([], r1, False)
                      | [] \<Rightarrow> ([], r1, False));
          u = takeWhile (\<lambda>c. c \<noteq> CHR ''.'' \<and> \<not> is_digit c) r2;
          r3 = dropWhile (\<lambda>c. c \<noteq> CHR ''.'' \<and> \<not> is_digit c) r2
      in if ds = [] \<and> fs = [] then None
         else case unit_ns u of
                None \<Rightarrow> None
              | Some n \<Rightarrow>
                  let v = int_of_digits ds * n + int_of_digits fs * n div 10 ^ length fs
                  in if v > 2 ^ 63 then None else Some (v, r3))"

fun parse_terms :: "nat \<Rightarrow> int \<Rightarrow> string \<Rightarrow> int option" where
  "parse_terms 0 acc s = None"
| "parse_terms (Suc f) acc s =
     (if s = [] then Some acc
      else case parse_term s of
             None \<Rightarrow> None
           | Some (v, r) \<Rightarrow> if acc + v > 2 ^ 63 then None else parse_terms f (acc + v) r)"

definition parse_duration :: "string \<Rightarrow> duration option" where
  "parse_duration s0 =
     (let (neg, s) = (case s0 of c # t \<Rightarrow> if c = CHR ''-'' then (True, t)
                                        else if c = CHR ''+'' then (False, t) else (False, s0)
                      | [] \<Rightarrow> (False, []))
      in if s = ''0'' then Some 0
         else if s = [] then None
         else case parse_terms (length s + 1) 0 s of
                None \<Rightarrow> None
              | Some d \<Rightarrow>
                  if neg then Some (- d) else if d > 2 ^ 63 - 1 then None else Some d)"

text \<open>
  The pattern the services read their time-outs with: a positive number of seconds, or a positive
  duration, else the default.
\<close>

definition seconds_or_duration :: "duration \<Rightarrow> string \<Rightarrow> duration" where
  "seconds_or_duration dflt v0 =
     (let v = trim_space v0
      in if v = [] then dflt
         else case (case atoi v of Some n \<Rightarrow> if n > 0 then Some n else None | None \<Rightarrow> None) of
                Some n \<Rightarrow> (n * second + 2 ^ 63) mod 2 ^ 64 - 2 ^ 63
              | None \<Rightarrow>
                  (case parse_duration v of
                     Some d \<Rightarrow> if d \<le> 0 then dflt else d
                   | None \<Rightarrow> dflt))"

lemma duration_examples:
  "parse_duration ''1h15m30.918s'' = Some 4530918000000"
  "parse_duration ''-1.5ms'' = Some (- 1500000)"
  "parse_duration ''10'' = None"
  "seconds_or_duration (10 * second) '' 15 '' = 15 * second"
  "seconds_or_duration (10 * second) ''250ms'' = 250 * millisecond"
  by code_simp+

end
