(* ===== verification/BeruWal.thy ===== *)
theory BeruWal
  imports BeruStoreProps BeruReport GoTime
begin

text \<open>
  \<^verbatim>\<open>pipeline/beru/internal/storage/wal.go\<close>: the write-ahead log in front of the
  store.  The Bolt bucket is the list of its entries in key order (keys are big-endian sequence
  numbers, so byte order is numeric order); an entry is kept as the value it unmarshals to.
  The dispatcher's maps, the worker channels, the batch each worker holds and the completion
  channel are the volatile state.  Files, Bolt and PostgreSQL fail as the parameters say.
\<close>

section \<open>Constants and entries\<close>

definition walWorkerCount :: nat where "walWorkerCount = 8"
definition walChannelBuf :: nat where "walChannelBuf = 64"
definition walBatchMaxOps :: nat where "walBatchMaxOps = 100"
definition walMaxFileBytes :: int where "walMaxFileBytes = 2 ^ 30"
definition walDropHeadPercent :: nat where "walDropHeadPercent = 10"
definition maxFlushRetries :: int where "maxFlushRetries = 3"

definition backoffSteps :: "duration list" where
  "backoffSteps = [100 * millisecond, 500 * millisecond, second, 2 * second, 5 * second]"

text \<open>
  A report written as JSON and read back: strings become valid UTF-8, the payload (base64) and
  the time stamp are unchanged.  Marshalling fails for years outside of 0..9999.
\<close>

definition json_text :: "string \<Rightarrow> string" where
  "json_text s = (case json_parse (json_quote s) of Some (JStr t) \<Rightarrow> t | _ \<Rightarrow> [])"

definition json_report :: "raw_report \<Rightarrow> raw_report" where
  "json_report r = r
     \<lparr>r_trace_id := json_text (r_trace_id r), r_shadow_role := json_text (r_shadow_role r),
      r_shadow_test_name := json_text (r_shadow_test_name r), r_protocol := json_text (r_protocol r),
      r_direction := json_text (r_direction r), r_signature := json_text (r_signature r),
      r_status_code := json_text (r_status_code r)\<rparr>"

definition year_marshals :: "instant \<Rightarrow> bool" where
  "year_marshals t \<longleftrightarrow> - 31622400 * second \<le> t \<and> t < 315537897600 * second"

record wal_entry =
  we_retry :: int
  we_report :: raw_report

text \<open>A stored value: an entry, or bytes that do not unmarshal.\<close>

datatype wal_value = Pending wal_entry | Corrupt bytes

type_synonym bucket = "(64 word \<times> wal_value) list"

fun bucket_put :: "64 word \<Rightarrow> wal_value \<Rightarrow> bucket \<Rightarrow> bucket" where
  "bucket_put k v [] = [(k, v)]"
| "bucket_put k v ((k', v') # b) =
     (if k < k' then (k, v) # (k', v') # b
      else if k = k' then (k, v) # b else (k', v') # bucket_put k v b)"

definition bucket_delete :: "64 word list \<Rightarrow> bucket \<Rightarrow> bucket" where
  "bucket_delete ks b = filter (\<lambda>(k, v). k \<notin> set ks) b"

record trace_batch =
  tb_trace :: string
  tb_keys :: "64 word list"
  tb_entries :: "wal_entry list"

record completion_event =
  ce_trace :: string
  ce_ok :: bool
  ce_dead_letter :: bool
  ce_err :: bool

record dead_letter =
  dl_trace :: string
  dl_entries :: "wal_entry list"
  dl_key_count :: nat

section \<open>Appending\<close>

record wal_log =
  wl_seq :: "64 word"
  wl_bucket :: bucket

text \<open>\<^verbatim>\<open>maybeDropHead\<close>, on the size of the file; an error is only logged.\<close>

definition drop_count :: "nat \<Rightarrow> nat" where
  "drop_count n = max 1 (n * walDropHeadPercent div 100)"

definition maybe_drop_head :: "int \<Rightarrow> bucket \<Rightarrow> bucket" where
  "maybe_drop_head fileSize b =
     (if fileSize \<le> walMaxFileBytes then b
      else if length b = 0 then b else drop (drop_count (length b)) b)"

datatype wal_error = NilReportWal | MarshalFailed | BoltFailed

definition append_wal :: "int \<Rightarrow> bool \<Rightarrow> bool \<Rightarrow> raw_report \<Rightarrow> wal_log \<Rightarrow> (wal_error + unit) \<times> wal_log" where
  "append_wal fileSize dropOk boltOk report w =
     (let w1 = (if dropOk then w\<lparr>wl_bucket := maybe_drop_head fileSize (wl_bucket w)\<rparr> else w)
      in if \<not> year_marshals (r_captured_at report) then (Inl MarshalFailed, w1)
         else
           let seq = wl_seq w1 + 1; w2 = w1\<lparr>wl_seq := seq\<rparr>
           in if boltOk
              then (Inr (), w2\<lparr>wl_bucket := bucket_put seq
                      (Pending \<lparr>we_retry = 0, we_report = json_report report\<rparr>) (wl_bucket w2)\<rparr>)
              else (Inl BoltFailed, w2))"

definition wal_append_report ::
  "int \<Rightarrow> bool \<Rightarrow> bool \<Rightarrow> raw_report option \<Rightarrow> wal_log \<Rightarrow> (wal_error + raw_report list) \<times> wal_log" where
  "wal_append_report fileSize dropOk boltOk report w =
     (case report of
        None \<Rightarrow> (Inl NilReportWal, w)
      | Some r \<Rightarrow>
          (case append_wal fileSize dropOk boltOk r w of
             (Inl e, w') \<Rightarrow> (Inl e, w')
           | (Inr _, w') \<Rightarrow> (Inr [r], w')))"

text \<open>\<^verbatim>\<open>WrapWithWAL\<close> resumes the sequence at the last key left in the bucket.\<close>

definition reopen_wal :: "bucket \<Rightarrow> wal_log" where
  "reopen_wal b = \<lparr>wl_seq = (if b = [] then 0 else fst (last b)), wl_bucket = b\<rparr>"

definition trace_timeout_from_env :: "env \<Rightarrow> duration" where
  "trace_timeout_from_env getenv = seconds_or_duration (10 * second) (getenv ''BERU_TRACE_TIMEOUT'')"

definition wal_flush_timeout_from_env :: "env \<Rightarrow> duration" where
  "wal_flush_timeout_from_env getenv = seconds_or_duration (30 * second) (getenv ''BERU_WAL_FLUSH_TIMEOUT'')"

section \<open>The dispatcher\<close>

record dispatcher =
  in_flight :: "string list"
  next_retry_at :: "(string \<times> instant) list"
  backoff_attempt :: "(string \<times> nat) list"

definition retry_delay :: "nat \<Rightarrow> duration" where
  "retry_delay attempt =
     (if attempt < length backoffSteps then backoffSteps ! attempt
      else backoffSteps ! (length backoffSteps - 1))"

definition handle_completion :: "instant \<Rightarrow> completion_event \<Rightarrow> dispatcher \<Rightarrow> dispatcher" where
  "handle_completion now ev d =
     (let t = ce_trace ev; d1 = d\<lparr>in_flight := removeAll t (in_flight d)\<rparr>
      in if ce_ok ev \<or> ce_dead_letter ev
         then d1\<lparr>next_retry_at := AList.delete t (next_retry_at d1),
                 backoff_attempt := AList.delete t (backoff_attempt d1)\<rparr>
         else
           let attempt = go_get 0 (backoff_attempt d1) t
           in d1\<lparr>next_retry_at := AList.update t (now + retry_delay attempt) (next_retry_at d1),
                 backoff_attempt := AList.update t (attempt + 1) (backoff_attempt d1)\<rparr>)"

text \<open>
  The first scan of \<^verbatim>\<open>claimAndDispatch\<close>: per trace, in the order of first keys, its
  oldest entries up to the batch limit.  Values that do not unmarshal are skipped.
\<close>

fun pending_entries :: "bucket \<Rightarrow> (64 word \<times> wal_entry) list" where
  "pending_entries [] = []"
| "pending_entries ((k, Pending e) # b) = (k, e) # pending_entries b"
| "pending_entries ((k, Corrupt bs) # b) = pending_entries b"

definition entry_trace :: "64 word \<times> wal_entry \<Rightarrow> string" where
  "entry_trace ke = r_trace_id (we_report (snd ke))"

definition batch_of :: "bucket \<Rightarrow> string \<Rightarrow> trace_batch" where
  "batch_of b t =
     (let own = take walBatchMaxOps (filter (\<lambda>ke. entry_trace ke = t) (pending_entries b))
      in \<lparr>tb_trace = t, tb_keys = map fst own, tb_entries = map snd own\<rparr>)"

definition wal_groups :: "bucket \<Rightarrow> trace_batch list" where
  "wal_groups b = map (batch_of b) (dedup_first (map entry_trace (pending_entries b)))"

definition worker_of :: "string \<Rightarrow> nat" where
  "worker_of t = unat (fnv32a t mod of_nat walWorkerCount)"

text \<open>
  The second part: each group not in flight and not backing off goes to its worker's channel,
  unless that is full.
\<close>

type_synonym channels = "trace_batch list list"

definition try_dispatch :: "instant \<Rightarrow> dispatcher \<times> channels \<Rightarrow> trace_batch \<Rightarrow> dispatcher \<times> channels" where
  "try_dispatch now dc batch =
     (case dc of (d, chans) \<Rightarrow>
        let t = tb_trace batch; idx = worker_of t
        in if t \<in> set (in_flight d) then dc
           else if (case map_of (next_retry_at d) t of Some ts \<Rightarrow> now < ts | None \<Rightarrow> False) then dc
           else if length (chans ! idx) < walChannelBuf
           then (d\<lparr>in_flight := t # in_flight d\<rparr>, chans[idx := chans ! idx @ [batch]])
           else dc)"

definition claim_and_dispatch :: "instant \<Rightarrow> bucket \<Rightarrow> dispatcher \<times> channels \<Rightarrow> dispatcher \<times> channels" where
  "claim_and_dispatch now b dc = foldl (try_dispatch now) dc (wal_groups b)"

section \<open>Workers\<close>

definition batch_reports :: "trace_batch \<Rightarrow> raw_report list" where
  "batch_reports batch =
     map2 (\<lambda>k e. (we_report e)\<lparr>r_ingest_id := k\<rparr>) (tb_keys batch) (tb_entries batch)"

text \<open>The noise paths a batch is evaluated with; a failed lookup means none.\<close>

definition batch_noise :: "pg_server \<Rightarrow> postgres_store \<Rightarrow> raw_report list \<Rightarrow> db \<Rightarrow> string list" where
  "batch_noise pg p reports db =
     (case reports of
        [] \<Rightarrow> []
      | r # _ \<Rightarrow>
          if r_shadow_test_name r = [] then []
          else (case noise_paths_for_test pg p (r_shadow_test_name r) db of
                  (Inr paths, _) \<Rightarrow> paths
                | (Inl _, _) \<Rightarrow> []))"

definition flush_batch ::
  "pg_server \<Rightarrow> postgres_store \<Rightarrow> run_env \<Rightarrow> duration \<Rightarrow> trace_batch \<Rightarrow> unit db_op" where
  "flush_batch pg p env timeout batch db =
     (let reports = batch_reports batch
      in flush_reports_and_evaluate pg p env reports (batch_noise pg p reports db) timeout db)"

definition delete_keys :: "bool \<Rightarrow> 64 word list \<Rightarrow> bucket \<Rightarrow> (wal_error + unit) \<times> bucket" where
  "delete_keys boltOk ks b = (if boltOk then (Inr (), bucket_delete ks b) else (Inl BoltFailed, b))"

text \<open>
  The update of \<^verbatim>\<open>bumpRetriesOrDeadLetter\<close>: the entries still in the bucket with their
  counts raised, the batch's entries likewise, and the highest count.
\<close>

fun bump_entries :: "(64 word \<times> wal_entry) list \<Rightarrow> bucket \<Rightarrow> int \<Rightarrow> bucket \<times> wal_entry list \<times> int" where
  "bump_entries [] b m = (b, [], m)"
| "bump_entries ((k, e0) # kes) b m =
     (case map_of b k of
        None \<Rightarrow> (case bump_entries kes b m of (b', es, m') \<Rightarrow> (b', e0 # es, m'))
      | Some v \<Rightarrow>
          let e1 = (case v of Pending e \<Rightarrow> e | Corrupt _ \<Rightarrow> e0);
              e = e1\<lparr>we_retry := we_retry e1 + 1\<rparr>
          in case bump_entries kes (bucket_put k (Pending e) b) (max m (we_retry e)) of
               (b', es, m') \<Rightarrow> (b', e # es, m'))"

text \<open>
  Its result: whether the batch was dead-lettered, the bucket and the dead letters.  The
  booleans say whether the first Bolt update, the append to the dead-letter file and the second
  Bolt update succeed.
\<close>

definition bump_retries_or_dead_letter ::
  "bool \<Rightarrow> bool \<Rightarrow> bool \<Rightarrow> trace_batch \<Rightarrow> bucket \<times> dead_letter list \<Rightarrow> bool \<times> bucket \<times> dead_letter list" where
  "bump_retries_or_dead_letter bumpOk fileOk delOk batch bd =
     (case bd of (b, dlq) \<Rightarrow>
        if \<not> bumpOk then (False, b, dlq)
        else (case bump_entries (zip (tb_keys batch) (tb_entries batch)) b 0 of
                (b1, es, maxRetry) \<Rightarrow>
                  if maxRetry < maxFlushRetries then (False, b1, dlq)
                  else if \<not> fileOk then (False, b1, dlq)
                  else
                    let dlq' = dlq @ [\<lparr>dl_trace = tb_trace batch, dl_entries = es,
                                        dl_key_count = length (tb_keys batch)\<rparr>]
                    in if delOk then (True, bucket_delete (tb_keys batch) b1, dlq')
                       else (False, b1, dlq')))"

text \<open>What \<^verbatim>\<open>processBatch\<close> does after the flush, and the event it reports.\<close>

definition settle_batch ::
  "bool \<Rightarrow> bool \<Rightarrow> bool \<Rightarrow> bool \<Rightarrow> trace_batch \<Rightarrow> bucket \<times> dead_letter list
     \<Rightarrow> completion_event \<times> bucket \<times> dead_letter list" where
  "settle_batch flushed boltOk fileOk delOk batch bd =
     (if flushed then
        (if boltOk
         then (\<lparr>ce_trace = tb_trace batch, ce_ok = True, ce_dead_letter = False, ce_err = False\<rparr>,
               bucket_delete (tb_keys batch) (fst bd), snd bd)
         else (\<lparr>ce_trace = tb_trace batch, ce_ok = False, ce_dead_letter = False, ce_err = True\<rparr>, bd))
      else
        (case bump_retries_or_dead_letter boltOk fileOk delOk batch bd of
           (dead, bd') \<Rightarrow>
             (\<lparr>ce_trace = tb_trace batch, ce_ok = False, ce_dead_letter = dead, ce_err = True\<rparr>, bd')))"

end
