(* ===== verification/BeruWalProps.thy ===== *)
theory BeruWalProps
  imports BeruWal
begin

text \<open>
  The write-ahead log as a state machine: appends, dispatcher scans, workers taking, flushing and
  settling batches, and completions, interleaved in any order, with PostgreSQL, Bolt and the
  dead-letter file failing at will.  The invariants: at most one batch of a trace is on its way,
  and no acknowledged report is lost.
\<close>

section \<open>The transition system\<close>

text \<open>
  \<^verbatim>\<open>ws_issued\<close>, \<^verbatim>\<open>ws_dropped\<close> and \<^verbatim>\<open>ws_appends\<close> record
  the history: the acknowledged reports with their sequence numbers, the keys dropped on
  overflow, and how many sequence numbers were drawn.
\<close>

record wal_system =
  ws_log :: wal_log
  ws_db :: db
  ws_dlq :: "dead_letter list"
  ws_disp :: dispatcher
  ws_chans :: channels
  ws_running :: "(trace_batch \<times> bool option) option list"
  ws_events :: "completion_event list"
  ws_issued :: "(64 word \<times> raw_report) list"
  ws_dropped :: "64 word list"
  ws_appends :: nat

definition is_ok :: "'e + 'a \<Rightarrow> bool" where
  "is_ok r = (case r of Inl _ \<Rightarrow> False | Inr _ \<Rightarrow> True)"

definition dropped_keys :: "int \<Rightarrow> bool \<Rightarrow> bucket \<Rightarrow> 64 word list" where
  "dropped_keys fileSize dropOk b =
     (if dropOk then map fst (take (length b - length (maybe_drop_head fileSize b)) b) else [])"

inductive wal_step :: "postgres_store \<Rightarrow> wal_system \<Rightarrow> wal_system \<Rightarrow> bool" for p where
  Append:
    "append_wal fileSize dropOk boltOk r (ws_log s) = (res, log') \<Longrightarrow>
     wal_step p s (s\<lparr>ws_log := log',
        ws_issued := (if is_ok res then ws_issued s @ [(wl_seq log', json_report r)] else ws_issued s),
        ws_dropped := ws_dropped s @ dropped_keys fileSize dropOk (wl_bucket (ws_log s)),
        ws_appends := Suc (ws_appends s)\<rparr>)"
| Dispatch:
    "claim_and_dispatch now (wl_bucket (ws_log s)) (ws_disp s, ws_chans s) = (disp', chans') \<Longrightarrow>
     wal_step p s (s\<lparr>ws_disp := disp', ws_chans := chans'\<rparr>)"
| Take:
    "i < length (ws_running s) \<Longrightarrow> i < length (ws_chans s) \<Longrightarrow> ws_running s ! i = None \<Longrightarrow>
     ws_chans s ! i = batch # rest \<Longrightarrow>
     wal_step p s (s\<lparr>ws_running := (ws_running s)[i := Some (batch, None)],
        ws_chans := (ws_chans s)[i := rest]\<rparr>)"
| Flush:
    "i < length (ws_running s) \<Longrightarrow> ws_running s ! i = Some (batch, None) \<Longrightarrow>
     flush_batch pg p env timeout batch (ws_db s) = (res, db') \<Longrightarrow>
     wal_step p s (s\<lparr>ws_running := (ws_running s)[i := Some (batch, Some (is_ok res))], ws_db := db'\<rparr>)"
| Settle:
    "i < length (ws_running s) \<Longrightarrow> ws_running s ! i = Some (batch, Some flushed) \<Longrightarrow>
     settle_batch flushed boltOk fileOk delOk batch (wl_bucket (ws_log s), ws_dlq s) = (ev, b', dlq') \<Longrightarrow>
     wal_step p s (s\<lparr>ws_running := (ws_running s)[i := None], ws_log := (ws_log s)\<lparr>wl_bucket := b'\<rparr>,
        ws_dlq := dlq', ws_events := ws_events s @ [ev]\<rparr>)"
| Complete:
    "ws_events s = ev # rest \<Longrightarrow>
     wal_step p s (s\<lparr>ws_disp := handle_completion now ev (ws_disp s), ws_events := rest\<rparr>)"

inductive_cases wal_stepE: "wal_step p s s'"

inductive wal_reaches :: "postgres_store \<Rightarrow> wal_system \<Rightarrow> wal_system \<Rightarrow> bool" for p where
  start: "wal_reaches p s s"
| step: "wal_reaches p s s' \<Longrightarrow> wal_step p s' s'' \<Longrightarrow> wal_reaches p s s''"

definition fresh_dispatcher :: dispatcher where
  "fresh_dispatcher = \<lparr>in_flight = [], next_retry_at = [], backoff_attempt = []\<rparr>"

text \<open>A start with an empty log and no stored report of this execution.\<close>

definition wal_start :: "postgres_store \<Rightarrow> wal_system \<Rightarrow> bool" where
  "wal_start p s \<longleftrightarrow>
     ws_log s = reopen_wal [] \<and> (\<forall>row \<in> set (db_reports (ws_db s)). rr_exec row \<noteq> replayExecutionID p) \<and>
     ws_disp s = fresh_dispatcher \<and> ws_chans s = replicate walWorkerCount [] \<and>
     ws_running s = replicate walWorkerCount None \<and> ws_events s = [] \<and>
     ws_issued s = [] \<and> ws_dropped s = [] \<and> ws_appends s = 0"

lemma reaches_invariant:
  assumes "wal_reaches p s s'" "I s" "\<And>s s'. I s \<Longrightarrow> wal_step p s s' \<Longrightarrow> I s'"
  shows "I s'"
  using assms by (induction rule: wal_reaches.induct) auto

section \<open>One batch per trace\<close>

definition running_traces :: "(trace_batch \<times> bool option) option list \<Rightarrow> string list" where
  "running_traces rs = map (tb_trace \<circ> fst) (map the (filter (\<lambda>x. x \<noteq> None) rs))"

definition live :: "wal_system \<Rightarrow> string multiset" where
  "live s = mset (map tb_trace (concat (ws_chans s))) + mset (running_traces (ws_running s)) +
            mset (map ce_trace (ws_events s))"

definition flight_ok :: "wal_system \<Rightarrow> bool" where
  "flight_ok s \<longleftrightarrow>
     live s = mset (in_flight (ws_disp s)) \<and> distinct (in_flight (ws_disp s)) \<and>
     length (ws_chans s) = walWorkerCount \<and> length (ws_running s) = walWorkerCount"

lemma mset_concat_update:
  "i < length xs \<Longrightarrow> mset (concat (xs[i := ys])) + mset (xs ! i) = mset (concat xs) + mset ys"
proof (induction xs arbitrary: i)
  case (Cons x xs)
  then show ?case
    by (cases i) (auto simp: add_ac dest!: meta_spec)
qed simp

lemma running_traces_set:
  "i < length rs \<Longrightarrow> rs ! i = None \<Longrightarrow>
   mset (running_traces (rs[i := Some (b, x)])) = add_mset (tb_trace b) (mset (running_traces rs))"
proof (induction rs arbitrary: i)
  case (Cons r rs)
  then show ?case
    by (cases i) (auto simp: running_traces_def)
qed simp

lemma running_traces_clear:
  "i < length rs \<Longrightarrow> rs ! i = Some (b, x) \<Longrightarrow>
   add_mset (tb_trace b) (mset (running_traces (rs[i := None]))) = mset (running_traces rs)"
proof (induction rs arbitrary: i)
  case (Cons r rs)
  then show ?case
    by (cases i) (auto simp: running_traces_def)
qed simp

lemma running_traces_keep:
  "i < length rs \<Longrightarrow> rs ! i = Some (b, x) \<Longrightarrow>
   running_traces (rs[i := Some (b, y)]) = running_traces rs"
proof (induction rs arbitrary: i)
  case (Cons r rs)
  then show ?case
    by (cases i) (auto simp: running_traces_def)
qed simp

lemma worker_of_less: "worker_of t < walWorkerCount"
proof -
  have "fnv32a t mod 8 < (8 :: u32)"
    by (rule word_mod_less_divisor) simp
  then show ?thesis
    by (simp add: worker_of_def walWorkerCount_def word_less_nat_alt)
qed

text \<open>What one dispatch attempt may do.\<close>

definition backing_off :: "instant \<Rightarrow> dispatcher \<Rightarrow> string \<Rightarrow> bool" where
  "backing_off now d t \<longleftrightarrow> (case map_of (next_retry_at d) t of Some ts \<Rightarrow> now < ts | None \<Rightarrow> False)"

lemma try_dispatch_eq:
  "try_dispatch now (d, chans) batch =
     (if tb_trace batch \<in> set (in_flight d) \<or> backing_off now d (tb_trace batch) \<or>
         \<not> length (chans ! worker_of (tb_trace batch)) < walChannelBuf then (d, chans)
      else (d\<lparr>in_flight := tb_trace batch # in_flight d\<rparr>,
            chans[worker_of (tb_trace batch) := chans ! worker_of (tb_trace batch) @ [batch]]))"
  by (simp add: try_dispatch_def backing_off_def Let_def)

text \<open>A property of dispatcher and channels that every attempt keeps holds after the scan.\<close>

lemma claim_induct:
  assumes "claim_and_dispatch now b (d, chans) = (d', chans')" "P d chans"
    and "\<And>d chans batch. P d chans \<Longrightarrow> batch \<in> set (wal_groups b) \<Longrightarrow>
      tb_trace batch \<notin> set (in_flight d) \<Longrightarrow> \<not> backing_off now d (tb_trace batch) \<Longrightarrow>
      P (d\<lparr>in_flight := tb_trace batch # in_flight d\<rparr>)
        (chans[worker_of (tb_trace batch) := chans ! worker_of (tb_trace batch) @ [batch]])"
  shows "P d' chans'"
proof -
  have "set gs \<subseteq> set (wal_groups b) \<Longrightarrow> P d chans \<Longrightarrow> foldl (try_dispatch now) (d, chans) gs = (d', chans') \<Longrightarrow>
      P d' chans'" for gs d chans
  proof (induction gs arbitrary: d chans)
    case (Cons g gs)
    obtain d1 chans1 where 1: "try_dispatch now (d, chans) g = (d1, chans1)"
      by fastforce
    have "P d1 chans1"
      using 1 Cons.prems assms(3) [of d chans g] unfolding try_dispatch_eq
      by (simp split: if_splits)
    then show ?case
      using Cons.IH [of d1 chans1] Cons.prems 1 by simp
  qed simp
  from this [OF order_refl assms(2)] assms(1) show ?thesis
    by (simp add: claim_and_dispatch_def)
qed

lemma traces_cong: "mset (concat xs) = mset ys \<Longrightarrow> mset (map tb_trace (concat xs)) = mset (map tb_trace ys)"
  by (simp only: mset_map)

lemma removeAll_distinct: "distinct xs \<Longrightarrow> x \<in> set xs \<Longrightarrow> add_mset x (mset (removeAll x xs)) = mset xs"
  by (induction xs) auto

lemma handle_completion_in_flight [simp]:
  "in_flight (handle_completion now ev d) = removeAll (ce_trace ev) (in_flight d)"
  by (simp add: handle_completion_def Let_def)

lemma settle_event_trace:
  "settle_batch fl bo fo de batch bd = (ev, bd') \<Longrightarrow> ce_trace ev = tb_trace batch"
  by (auto simp: settle_batch_def split: if_splits prod.splits)

lemma flight_ok_step:
  assumes "flight_ok s" "wal_step p s s'"
  shows "flight_ok s'"
  using assms(2)
proof cases
  case (Dispatch now disp' chans')
  define base where "base = mset (running_traces (ws_running s)) + mset (map ce_trace (ws_events s))"
  have "(\<lambda>d chans. mset (map tb_trace (concat chans)) + base = mset (in_flight d) \<and> distinct (in_flight d) \<and>
      length chans = walWorkerCount) disp' chans'"
  proof (rule claim_induct [OF Dispatch(2)], goal_cases)
    case 1
    then show ?case
      using assms(1) by (simp add: flight_ok_def live_def base_def add.assoc)
  next
    case (2 d chans batch)
    let ?i = "worker_of (tb_trace batch)"
    have "mset (concat (chans[?i := chans ! ?i @ [batch]])) = mset (batch # concat chans)"
      using mset_concat_update [of ?i chans "chans ! ?i @ [batch]"] worker_of_less [of "tb_trace batch"] 2
      by simp
    from traces_cong [OF this]
    have "mset (map tb_trace (concat (chans[?i := chans ! ?i @ [batch]]))) =
        add_mset (tb_trace batch) (mset (map tb_trace (concat chans)))"
      by simp
    then show ?case
      using 2 by simp
  qed
  then show ?thesis
    using assms(1) Dispatch by (simp add: flight_ok_def live_def base_def add.assoc)
next
  case (Take i batch rest)
  have "mset (concat (ws_chans s)) = mset (batch # concat ((ws_chans s)[i := rest]))"
    using mset_concat_update [of i "ws_chans s" rest] Take by simp
  from traces_cong [OF this] show ?thesis
    using assms(1) Take running_traces_set [of i "ws_running s" batch None]
    by (simp add: flight_ok_def live_def)
next
  case (Flush i batch pg env timeout res db')
  then show ?thesis
    using assms(1) running_traces_keep [of i "ws_running s" batch None]
    by (simp add: flight_ok_def live_def)
next
  case (Settle i batch flushed boltOk fileOk delOk ev b' dlq')
  then show ?thesis
    using assms(1) running_traces_clear [of i "ws_running s" batch "Some flushed", symmetric]
      settle_event_trace [OF Settle(4)]
    by (simp add: flight_ok_def live_def)
next
  case (Complete ev rest now)
  have "ce_trace ev \<in># live s"
    using Complete by (simp add: live_def)
  then have "ce_trace ev \<in> set (in_flight (ws_disp s))"
    using assms(1) by (simp add: flight_ok_def)
  then show ?thesis
    using assms(1) Complete removeAll_distinct [of "in_flight (ws_disp s)" "ce_trace ev"]
    by (auto simp: flight_ok_def live_def distinct_removeAll) (metis add_mset_add_single add_right_cancel union_mset_add_mset_right)
qed (use assms(1) in \<open>auto simp: flight_ok_def live_def\<close>)

lemma flight_ok_start: "wal_start p s \<Longrightarrow> flight_ok s"
  by (auto simp: wal_start_def flight_ok_def live_def running_traces_def fresh_dispatcher_def
      walWorkerCount_def)

text \<open>
  C5: At most one batch of a trace is on its way at any time: over the worker channels, the batches
  the workers hold and the completions not yet seen, no trace occurs twice, and the traces that
  occur are exactly those the dispatcher has claimed.  So a trace's reports are never flushed by
  two workers at once.
\<close>

theorem wal_one_batch_per_trace:
  assumes "wal_start p s0" "wal_reaches p s0 s"
  shows "(let on_the_way = map tb_trace (concat (ws_chans s)) @ running_traces (ws_running s) @
                           map ce_trace (ws_events s)
          in distinct on_the_way \<and> set on_the_way = set (in_flight (ws_disp s)))"
proof -
  have ok: "flight_ok s"
    using reaches_invariant [of p s0 s flight_ok] assms flight_ok_start flight_ok_step by blast
  let ?xs = "map tb_trace (concat (ws_chans s)) @ running_traces (ws_running s) @ map ce_trace (ws_events s)"
  have eq: "mset ?xs = mset (in_flight (ws_disp s))"
    using ok by (simp add: flight_ok_def live_def add.assoc)
  have "distinct ?xs"
    using ok mset_eq_imp_distinct_iff [OF eq] by (simp add: flight_ok_def)
  moreover have "set ?xs = set (in_flight (ws_disp s))"
    using eq by (rule mset_eq_setD)
  ultimately show ?thesis
    unfolding Let_def by (rule conjI)
qed

section \<open>No acknowledged report is lost\<close>

lemma map_of_bucket_put [simp]: "map_of (bucket_put k v b) = (map_of b)(k \<mapsto> v)"
  by (induction k v b rule: bucket_put.induct) (auto simp: fun_eq_iff)

lemma keys_bucket_put: "fst ` set (bucket_put k v b) = insert k (fst ` set b)"
  by (induction k v b rule: bucket_put.induct) auto

lemma sorted_bucket_put: "sorted_wrt (<) (map fst b) \<Longrightarrow> sorted_wrt (<) (map fst (bucket_put k v b))"
proof (induction k v b rule: bucket_put.induct)
  case (2 k v k' v' b)
  have "set (map fst (bucket_put k v b)) = insert k (set (map fst b))"
    using keys_bucket_put [of k v b] by (simp add: image_image)
  then show ?case
    using 2 by (auto simp del: set_map)
qed simp

lemma sorted_bucket_delete: "sorted_wrt (<) (map fst b) \<Longrightarrow> sorted_wrt (<) (map fst (bucket_delete ks b))"
  by (induction b) (auto simp: bucket_delete_def)

lemma map_of_bucket_delete: "map_of (bucket_delete ks b) k = (if k \<in> set ks then None else map_of b k)"
  by (induction b) (auto simp: bucket_delete_def)

lemma pending_entries_iff: "(k, e) \<in> set (pending_entries b) \<longleftrightarrow> (k, Pending e) \<in> set b"
  by (induction b rule: pending_entries.induct) auto

lemma sorted_distinct_map: "sorted_wrt (<) (map fst b) \<Longrightarrow> distinct (map fst (b :: bucket))"
  by (simp add: strict_sorted_iff)

text \<open>A bucket whose entries are issued, and a batch of issued entries.\<close>

definition bucket_of_issued :: "(64 word \<times> raw_report) list \<Rightarrow> bucket \<Rightarrow> bool" where
  "bucket_of_issued issued b \<longleftrightarrow>
     sorted_wrt (<) (map fst b) \<and>
     (\<forall>(k, v) \<in> set b. \<exists>e. v = Pending e \<and> (k, we_report e) \<in> set issued)"

definition batch_of_issued :: "(64 word \<times> raw_report) list \<Rightarrow> trace_batch \<Rightarrow> bool" where
  "batch_of_issued issued batch \<longleftrightarrow>
     tb_keys batch \<noteq> [] \<and> length (tb_keys batch) = length (tb_entries batch) \<and>
     (\<forall>(k, e) \<in> set (zip (tb_keys batch) (tb_entries batch)). (k, we_report e) \<in> set issued)"

definition stored_row :: "postgres_store \<Rightarrow> 64 word \<Rightarrow> raw_report \<Rightarrow> report_row" where
  "stored_row p k r = report_row_of p (r\<lparr>r_ingest_id := k\<rparr>)"

definition accounted ::
  "postgres_store \<Rightarrow> bucket \<Rightarrow> report_row list \<Rightarrow> dead_letter list \<Rightarrow> 64 word list \<Rightarrow> 64 word \<Rightarrow> raw_report \<Rightarrow> bool" where
  "accounted p b rows dlq dropped k r \<longleftrightarrow>
     (\<exists>e. map_of b k = Some (Pending e) \<and> we_report e = r) \<or>
     stored_row p k r \<in> set rows \<or>
     (\<exists>d \<in> set dlq. \<exists>e \<in> set (dl_entries d). we_report e = r) \<or> k \<in> set dropped"

definition batches :: "wal_system \<Rightarrow> trace_batch set" where
  "batches s = set (concat (ws_chans s)) \<union> {b. \<exists>x. Some (b, x) \<in> set (ws_running s)}"

definition wal_inv :: "postgres_store \<Rightarrow> wal_system \<Rightarrow> bool" where
  "wal_inv p s \<longleftrightarrow>
     unat (wl_seq (ws_log s)) \<le> ws_appends s \<and>
     distinct (map fst (ws_issued s)) \<and>
     (\<forall>k \<in> fst ` set (ws_issued s). k \<noteq> 0 \<and> k \<le> wl_seq (ws_log s)) \<and>
     bucket_of_issued (ws_issued s) (wl_bucket (ws_log s)) \<and>
     (\<forall>batch \<in> batches s. batch_of_issued (ws_issued s) batch) \<and>
     (\<forall>row \<in> set (db_reports (ws_db s)). rr_exec row = replayExecutionID p \<longrightarrow>
        (\<exists>(k, r) \<in> set (ws_issued s). row = stored_row p k r)) \<and>
     (\<forall>batch. Some (batch, Some True) \<in> set (ws_running s) \<longrightarrow>
        (\<forall>(k, e) \<in> set (zip (tb_keys batch) (tb_entries batch)).
           stored_row p k (we_report e) \<in> set (db_reports (ws_db s)))) \<and>
     (\<forall>(k, r) \<in> set (ws_issued s).
        accounted p (wl_bucket (ws_log s)) (db_reports (ws_db s)) (ws_dlq s) (ws_dropped s) k r)"

lemma wal_inv_start: "wal_start p s \<Longrightarrow> wal_inv p s"
  by (auto simp: wal_start_def wal_inv_def reopen_wal_def bucket_of_issued_def batches_def)

definition kept :: "int \<Rightarrow> bool \<Rightarrow> bucket \<Rightarrow> bucket" where
  "kept fileSize dropOk b = (if dropOk then maybe_drop_head fileSize b else b)"

lemma kept_drop: "\<exists>n. kept sz ok b = drop n b"
  by (auto simp: kept_def maybe_drop_head_def intro: exI [of _ "0 :: nat"])

lemma take_length_minus: "take (length b - (length b - n)) b = take n b"
  by (cases "n \<le> length b") auto

lemma kept_suffix: "b = take (length b - length (kept sz ok b)) b @ kept sz ok b"
  using kept_drop [of sz ok b] by (auto simp: take_length_minus)

lemma dropped_keys_kept: "dropped_keys sz ok b = map fst (take (length b - length (kept sz ok b)) b)"
  by (simp add: dropped_keys_def kept_def)

lemma kept_accounts:
  "map_of b k = Some v \<Longrightarrow> k \<in> set (dropped_keys sz ok b) \<or> map_of (kept sz ok b) k = Some v"
proof -
  assume k: "map_of b k = Some v"
  let ?t = "take (length b - length (kept sz ok b)) b"
  have "map_of b k = (case map_of ?t k of None \<Rightarrow> map_of (kept sz ok b) k | Some v \<Rightarrow> Some v)"
    by (subst kept_suffix [of b sz ok]) (simp add: map_add_def)
  then show ?thesis
    using k by (auto simp: dropped_keys_kept split: option.splits dest!: map_of_SomeD intro: rev_image_eqI)
qed

lemma bucket_of_issued_kept: "bucket_of_issued issued b \<Longrightarrow> bucket_of_issued issued (kept sz ok b)"
proof -
  assume b: "bucket_of_issued issued b"
  obtain n where "kept sz ok b = drop n b"
    using kept_drop by blast
  then show ?thesis
    using b set_drop_subset [of n b] sorted_wrt_drop [of "(<)" "map fst b" n]
    by (auto simp: bucket_of_issued_def drop_map)
qed

lemma append_wal_cases:
  assumes "append_wal sz dok bok r w = (res, w')"
  obtains "\<not> is_ok res" "wl_bucket w' = kept sz dok (wl_bucket w)" "wl_seq w' = wl_seq w"
  | "\<not> is_ok res" "wl_bucket w' = kept sz dok (wl_bucket w)" "wl_seq w' = wl_seq w + 1"
  | "is_ok res" "wl_seq w' = wl_seq w + 1"
    "wl_bucket w' = bucket_put (wl_seq w + 1) (Pending \<lparr>we_retry = 0, we_report = json_report r\<rparr>)
                      (kept sz dok (wl_bucket w))"
  using assms
  by (cases "year_marshals (r_captured_at r)"; cases bok; cases dok)
    (auto simp: append_wal_def Let_def is_ok_def kept_def)

lemma set_bucket_put: "set (bucket_put k v b) \<subseteq> insert (k, v) (set b)"
  by (induction k v b rule: bucket_put.induct) auto

lemma bucket_of_issued_put:
  assumes "bucket_of_issued issued b" "(k, we_report e) \<in> set issued'" "set issued \<subseteq> set issued'"
  shows "bucket_of_issued issued' (bucket_put k (Pending e) b)"
  using assms set_bucket_put [of k "Pending e" b]
  unfolding bucket_of_issued_def by (auto intro: sorted_bucket_put) blast

lemma accounted_mono:
  assumes "accounted p b rows dlq dropped k r"
    and "\<And>v. map_of b k = Some v \<Longrightarrow> k \<in> set dropped' \<or> map_of b' k = Some v"
    and "set rows \<subseteq> set rows'" "set dlq \<subseteq> set dlq'" "set dropped \<subseteq> set dropped'"
  shows "accounted p b' rows' dlq' dropped' k r"
  using assms unfolding accounted_def by blast

lemma batch_of_issued_mono: "batch_of_issued i b \<Longrightarrow> set i \<subseteq> set i' \<Longrightarrow> batch_of_issued i' b"
  by (fastforce simp: batch_of_issued_def)

text \<open>The invariant, clause by clause.\<close>

lemma wal_invI:
  assumes "unat (wl_seq (ws_log s)) \<le> ws_appends s"
    and "distinct (map fst (ws_issued s))"
    and "\<And>k r. (k, r) \<in> set (ws_issued s) \<Longrightarrow> k \<noteq> 0 \<and> k \<le> wl_seq (ws_log s)"
    and "bucket_of_issued (ws_issued s) (wl_bucket (ws_log s))"
    and "\<And>batch. batch \<in> batches s \<Longrightarrow> batch_of_issued (ws_issued s) batch"
    and "\<And>row. row \<in> set (db_reports (ws_db s)) \<Longrightarrow> rr_exec row = replayExecutionID p \<Longrightarrow>
        \<exists>k r. (k, r) \<in> set (ws_issued s) \<and> row = stored_row p k r"
    and "\<And>batch k e. Some (batch, Some True) \<in> set (ws_running s) \<Longrightarrow>
        (k, e) \<in> set (zip (tb_keys batch) (tb_entries batch)) \<Longrightarrow>
        stored_row p k (we_report e) \<in> set (db_reports (ws_db s))"
    and "\<And>k r. (k, r) \<in> set (ws_issued s) \<Longrightarrow>
        accounted p (wl_bucket (ws_log s)) (db_reports (ws_db s)) (ws_dlq s) (ws_dropped s) k r"
  shows "wal_inv p s"
  unfolding wal_inv_def
  by (intro conjI ballI allI impI; (clarsimp simp: assms)?) (use assms in \<open>force+\<close>)

lemma wal_invD:
  assumes "wal_inv p s"
  shows "unat (wl_seq (ws_log s)) \<le> ws_appends s"
    and "distinct (map fst (ws_issued s))"
    and "(k, r) \<in> set (ws_issued s) \<Longrightarrow> k \<noteq> 0 \<and> k \<le> wl_seq (ws_log s)"
    and "bucket_of_issued (ws_issued s) (wl_bucket (ws_log s))"
    and "batch \<in> batches s \<Longrightarrow> batch_of_issued (ws_issued s) batch"
    and "row \<in> set (db_reports (ws_db s)) \<Longrightarrow> rr_exec row = replayExecutionID p \<Longrightarrow>
        \<exists>k r. (k, r) \<in> set (ws_issued s) \<and> row = stored_row p k r"
    and "Some (batch, Some True) \<in> set (ws_running s) \<Longrightarrow>
        (k, e) \<in> set (zip (tb_keys batch) (tb_entries batch)) \<Longrightarrow>
        stored_row p k (we_report e) \<in> set (db_reports (ws_db s))"
    and "(k, r) \<in> set (ws_issued s) \<Longrightarrow>
        accounted p (wl_bucket (ws_log s)) (db_reports (ws_db s)) (ws_dlq s) (ws_dropped s) k r"
  using assms unfolding wal_inv_def by force+

lemma wal_inv_append:
  assumes inv: "wal_inv p s" and less: "Suc (ws_appends s) < 2 ^ 64"
    and app: "append_wal sz dok bok r (ws_log s) = (res, log')"
  shows "wal_inv p (s\<lparr>ws_log := log',
        ws_issued := (if is_ok res then ws_issued s @ [(wl_seq log', json_report r)] else ws_issued s),
        ws_dropped := ws_dropped s @ dropped_keys sz dok (wl_bucket (ws_log s)),
        ws_appends := Suc (ws_appends s)\<rparr>)"
proof -
  let ?b = "wl_bucket (ws_log s)" and ?q = "wl_seq (ws_log s)"
  have q: "unat ?q \<le> ws_appends s"
    using inv by (simp add: wal_inv_def)
  then have q1: "unat (?q + 1) = unat ?q + 1"
    using less by (simp add: unat_word_ariths)
  then have gt: "?q < ?q + 1" "?q + 1 \<noteq> 0"
    by (auto simp: word_less_nat_alt)
  have kept: "bucket_of_issued (ws_issued s) (kept sz dok ?b)"
    using inv by (auto simp: wal_inv_def intro: bucket_of_issued_kept)
  have keys: "k \<le> ?q \<and> k \<noteq> 0" if "(k, x) \<in> set (ws_issued s)" for k x
    using wal_invD(3) [OF inv that] by simp
  have acc: "accounted p (kept sz dok ?b) (db_reports (ws_db s)) (ws_dlq s)
      (ws_dropped s @ dropped_keys sz dok ?b) k x" if "(k, x) \<in> set (ws_issued s)" for k x
    by (rule accounted_mono [OF wal_invD(8) [OF inv that]]) (auto dest: kept_accounts [where sz = sz and ok = dok])
  let ?s = "\<lambda>issued. s\<lparr>ws_log := log', ws_issued := issued,
        ws_dropped := ws_dropped s @ dropped_keys sz dok ?b, ws_appends := Suc (ws_appends s)\<rparr>"
  have b: "batches (?s issued) = batches s" for issued
    by (simp add: batches_def)
  have unissued: "wal_inv p (?s (ws_issued s))"
    if "wl_bucket log' = kept sz dok ?b" "wl_seq log' = ?q \<or> wl_seq log' = ?q + 1"
  proof (rule wal_invI)
    show "unat (wl_seq (ws_log (?s (ws_issued s)))) \<le> ws_appends (?s (ws_issued s))"
      using that(2) q q1 by auto
    show "k \<noteq> 0 \<and> k \<le> wl_seq (ws_log (?s (ws_issued s)))" if "(k, x) \<in> set (ws_issued (?s (ws_issued s)))" for k x
      using keys that \<open>wl_seq log' = ?q \<or> wl_seq log' = ?q + 1\<close> gt by fastforce
    show "batch_of_issued (ws_issued (?s (ws_issued s))) batch" if "batch \<in> batches (?s (ws_issued s))" for batch
      using wal_invD(5) [OF inv, of batch] that by (simp add: batches_def)
  qed (use that kept acc wal_invD [OF inv] in simp_all)
  from app show ?thesis
  proof (cases rule: append_wal_cases)
    case 3
    let ?e = "\<lparr>we_retry = 0, we_report = json_report r\<rparr>"
    let ?issued = "ws_issued s @ [(?q + 1, json_report r)]"
    let ?b' = "bucket_put (?q + 1) (Pending ?e) (kept sz dok ?b)"
    have fresh: "?q + 1 \<noteq> k" if "(k, x) \<in> set (ws_issued s)" for k x
      using keys [OF that] gt by auto
    have "wal_inv p (?s ?issued)"
    proof (rule wal_invI)
      show "unat (wl_seq (ws_log (?s ?issued))) \<le> ws_appends (?s ?issued)"
        using 3 q q1 by simp
      show "distinct (map fst (ws_issued (?s ?issued)))"
        using wal_invD(2) [OF inv] fresh by force
      show "k \<noteq> 0 \<and> k \<le> wl_seq (ws_log (?s ?issued))" if "(k, x) \<in> set (ws_issued (?s ?issued))" for k x
        using that keys [of k x] gt 3 by auto
      show "bucket_of_issued (ws_issued (?s ?issued)) (wl_bucket (ws_log (?s ?issued)))"
        using 3 kept by (auto intro!: bucket_of_issued_put)
      show "batch_of_issued (ws_issued (?s ?issued)) batch" if "batch \<in> batches (?s ?issued)" for batch
        using batch_of_issued_mono [OF wal_invD(5) [OF inv, of batch], of ?issued] that by (auto simp: b)
      show "accounted p (wl_bucket (ws_log (?s ?issued))) (db_reports (ws_db (?s ?issued))) (ws_dlq (?s ?issued))
          (ws_dropped (?s ?issued)) k x" if "(k, x) \<in> set (ws_issued (?s ?issued))" for k x
      proof (cases "k = ?q + 1")
        case True
        then have "x = json_report r"
          using that fresh by auto
        then show ?thesis
          using True 3 by (simp add: accounted_def)
      next
        case False
        then have "(k, x) \<in> set (ws_issued s)"
          using that by auto
        from acc [OF this] show ?thesis
          using 3 False by (elim accounted_mono) auto
      qed
      show "\<exists>k x. (k, x) \<in> set (ws_issued (?s ?issued)) \<and> row = stored_row p k x"
        if "row \<in> set (db_reports (ws_db (?s ?issued)))" "rr_exec row = replayExecutionID p" for row
        using wal_invD(6) [OF inv, of row] that by auto
    qed (use wal_invD(7) [OF inv] in simp)
    then show ?thesis
      using 3 by simp
  qed (use unissued in auto)
qed

lemma wal_inv_dispatch:
  assumes inv: "wal_inv p s"
    and d: "claim_and_dispatch now (wl_bucket (ws_log s)) (ws_disp s, ws_chans s) = (disp', chans')"
  shows "wal_inv p (s\<lparr>ws_disp := disp', ws_chans := chans'\<rparr>)"
proof -
  let ?i = "ws_issued s" and ?b = "wl_bucket (ws_log s)"
  have group: "batch_of_issued ?i g" if g: "g \<in> set (wal_groups ?b)" for g
  proof -
    obtain t where t: "t \<in> entry_trace ` set (pending_entries ?b)" "g = batch_of ?b t"
      using g by (auto simp: wal_groups_def)
    let ?own = "take walBatchMaxOps (filter (\<lambda>ke. entry_trace ke = t) (pending_entries ?b))"
    have ne: "filter (\<lambda>ke. entry_trace ke = t) (pending_entries ?b) \<noteq> []"
      using t(1) by (auto simp: filter_empty_conv)
    have "(k, we_report e) \<in> set ?i" if "(k, e) \<in> set ?own" for k e
    proof -
      have "(k, Pending e) \<in> set ?b"
        using that by (auto dest!: in_set_takeD simp: pending_entries_iff)
      then show ?thesis
        using wal_invD(4) [OF inv] by (auto simp: bucket_of_issued_def)
    qed
    then show ?thesis
      using ne by (auto simp: t(2) batch_of_def batch_of_issued_def Let_def zip_map_fst_snd walBatchMaxOps_def)
  qed
  have "(\<lambda>d chans. \<forall>g \<in> set (concat chans). batch_of_issued ?i g) disp' chans'"
  proof (rule claim_induct [OF d], goal_cases)
    case 1
    then show ?case
      using wal_invD(5) [OF inv] by (auto simp: batches_def)
  next
    case (2 d chans batch)
    show ?case
    proof
      fix g assume g: "g \<in> set (concat (chans[worker_of (tb_trace batch) := chans ! worker_of (tb_trace batch) @ [batch]]))"
      then obtain c where c: "c \<in> set (chans[worker_of (tb_trace batch) := chans ! worker_of (tb_trace batch) @ [batch]])" "g \<in> set c"
        by auto
      show "batch_of_issued ?i g"
      proof (cases "worker_of (tb_trace batch) < length chans")
        case True
        then have "g = batch \<or> g \<in> set (concat chans)"
          using c set_update_subset_insert [of chans "worker_of (tb_trace batch)"] nth_mem [OF True]
          by (fastforce dest!: subsetD)
        then show ?thesis
          using 2 group by blast
      next
        case False
        then show ?thesis
          using 2 g by (auto simp: list_update_beyond)
      qed
    qed
  qed
  moreover have "batch \<in> set (concat chans') \<or> batch \<in> batches s"
    if "batch \<in> batches (s\<lparr>ws_disp := disp', ws_chans := chans'\<rparr>)" for batch
    using that by (auto simp: batches_def)
  ultimately have "\<And>batch. batch \<in> batches (s\<lparr>ws_disp := disp', ws_chans := chans'\<rparr>) \<Longrightarrow> batch_of_issued ?i batch"
    using wal_invD(5) [OF inv] by blast
  then show ?thesis
    using wal_invD [OF inv] by (intro wal_invI) simp_all
qed

lemma batches_take:
  assumes "i < length (ws_running s)" "i < length (ws_chans s)" "ws_chans s ! i = batch # rest"
    and "b \<in> batches (s\<lparr>ws_running := (ws_running s)[i := Some (batch, None)], ws_chans := (ws_chans s)[i := rest]\<rparr>)"
  shows "b \<in> batches s"
proof -
  have mem: "batch # rest \<in> set (ws_chans s)"
    using assms(2,3) nth_mem by metis
  have chans: "x \<in> set (concat (ws_chans s))" if "x \<in> set (concat ((ws_chans s)[i := rest]))" for x
  proof -
    obtain c where "c \<in> set ((ws_chans s)[i := rest])" "x \<in> set c"
      using \<open>x \<in> _\<close> by auto
    then have "c = rest \<or> c \<in> set (ws_chans s)" "x \<in> set c"
      using set_update_subset_insert [of "ws_chans s" i rest] by auto
    then show ?thesis
      using mem by (elim disjE) (auto intro: bexI [of _ "batch # rest"])
  qed
  have head: "batch \<in> set (concat (ws_chans s))"
    using mem by force
  have running: "y = Some (batch, None) \<or> y \<in> set (ws_running s)"
    if "y \<in> set ((ws_running s)[i := Some (batch, None)])" for y
    using set_update_subset_insert [of "ws_running s" i "Some (batch, None)"] that by blast
  from assms(4) consider "b \<in> set (concat ((ws_chans s)[i := rest]))"
    | x where "Some (b, x) \<in> set ((ws_running s)[i := Some (batch, None)])"
    by (auto simp: batches_def)
  then show ?thesis
  proof cases
    case 1
    then show ?thesis
      using chans by (simp add: batches_def)
  next
    case 2
    then show ?thesis
      using running [OF 2] head by (auto simp: batches_def)
  qed
qed

lemma running_update:
  "Some x \<in> set (rs[i := Some y]) \<Longrightarrow> x = y \<or> Some x \<in> set rs"
  "Some x \<in> set (rs[i := None]) \<Longrightarrow> Some x \<in> set rs"
  using set_update_subset_insert [of rs i] by fastforce+

lemma wal_inv_take:
  assumes inv: "wal_inv p s" and i: "i < length (ws_running s)" "i < length (ws_chans s)"
    and q: "ws_chans s ! i = batch # rest"
  shows "wal_inv p (s\<lparr>ws_running := (ws_running s)[i := Some (batch, None)], ws_chans := (ws_chans s)[i := rest]\<rparr>)"
    (is "wal_inv p ?s")
proof (rule wal_invI)
  show "batch_of_issued (ws_issued ?s) b" if "b \<in> batches ?s" for b
    using wal_invD(5) [OF inv batches_take [OF i q that]] by simp
  show "stored_row p k (we_report e) \<in> set (db_reports (ws_db ?s))"
    if "Some (b, Some True) \<in> set (ws_running ?s)" "(k, e) \<in> set (zip (tb_keys b) (tb_entries b))" for b k e
    using wal_invD(7) [OF inv _ that(2)] running_update(1) [of "(b, Some True)" "ws_running s" i "(batch, None)"] that(1)
    by auto
qed (use wal_invD [OF inv] in simp_all)

lemma batches_running_mono:
  assumes "\<And>b x. Some (b, x) \<in> set rs \<Longrightarrow> \<exists>y. Some (b, y) \<in> set (ws_running s)"
    and "b \<in> batches (s\<lparr>ws_running := rs, ws_db := db', ws_log := l, ws_dlq := q, ws_events := ev\<rparr>)"
  shows "b \<in> batches s"
  using assms by (auto simp: batches_def)

text \<open>What a flush leaves in the reports table.\<close>

lemma flush_batch_rows:
  assumes "flush_batch pg p env timeout batch db = (res, db')"
  shows "set (db_reports db) \<subseteq> set (db_reports db')"
    and "set (db_reports db') \<subseteq> set (db_reports db) \<union> report_row_of p ` set (batch_reports batch)"
    and "is_ok res \<Longrightarrow> r \<in> set (batch_reports batch) \<Longrightarrow>
      \<exists>row \<in> set (db_reports db'). report_key row = (replayExecutionID p, r_ingest_id r)"
proof -
  let ?rs = "batch_reports batch"
  have run: "flush_reports_and_evaluate pg p env ?rs (batch_noise pg p ?rs db) timeout db = (res, db')"
    using assms by (simp add: flush_batch_def Let_def)
  have rows: "db' = db \<and> (is_ok res \<longrightarrow> ?rs = []) \<or>
      db_reports db' = reports.puts (map (report_row_of p) ?rs) (db_reports db)"
  proof (cases res)
    case (Inl e)
    then show ?thesis
      using run flush_rollback by (auto simp: is_ok_def)
  next
    case (Inr u)
    show ?thesis
    proof (cases "?rs = []")
      case True
      then show ?thesis
        using run by (auto simp: flush_reports_and_evaluate_def)
    next
      case False
      then show ?thesis
        using run flush_ok [OF False] unfolding Inr by auto
    qed
  qed
  obtain new where new: "reports.puts (map (report_row_of p) ?rs) (db_reports db) = db_reports db @ new"
      "set new \<subseteq> report_row_of p ` set ?rs"
    using reports.puts_extends [of "db_reports db" "map (report_row_of p) ?rs"] by auto
  show "set (db_reports db) \<subseteq> set (db_reports db')"
    "set (db_reports db') \<subseteq> set (db_reports db) \<union> report_row_of p ` set ?rs"
    using rows new by auto
  show "\<exists>row \<in> set (db_reports db'). report_key row = (replayExecutionID p, r_ingest_id r)"
    if "is_ok res" "r \<in> set ?rs"
  proof -
    have eq: "db_reports db' = reports.puts (map (report_row_of p) ?rs) (db_reports db)"
      using rows that by auto
    have "find_row report_key (replayExecutionID p, r_ingest_id r) (db_reports db') \<noteq> None"
      unfolding eq using that(2) by (intro reports.present_puts) force
    then show ?thesis
      by (auto dest: find_row_SomeD)
  qed
qed

lemma zip_batch_reports:
  "r \<in> set (batch_reports b) \<longleftrightarrow>
     (\<exists>k e. (k, e) \<in> set (zip (tb_keys b) (tb_entries b)) \<and> r = (we_report e)\<lparr>r_ingest_id := k\<rparr>)"
  by (auto simp: batch_reports_def)

lemma stored_row_key [simp]: "report_key (stored_row p k r) = (replayExecutionID p, k)"
  by (simp add: stored_row_def)

lemma stored_row_exec [simp]: "rr_exec (stored_row p k r) = replayExecutionID p"
  by (simp add: stored_row_def report_row_of_def)

lemma wal_inv_flush:
  assumes inv: "wal_inv p s" and i: "i < length (ws_running s)" "ws_running s ! i = Some (batch, None)"
    and fl: "flush_batch pg p env timeout batch (ws_db s) = (res, db')"
  shows "wal_inv p (s\<lparr>ws_running := (ws_running s)[i := Some (batch, Some (is_ok res))], ws_db := db'\<rparr>)"
    (is "wal_inv p ?s")
proof -
  have batch: "batch_of_issued (ws_issued s) batch"
    using i nth_mem by (intro wal_invD(5) [OF inv]) (force simp: batches_def)
  have row: "\<exists>k r. (k, r) \<in> set (ws_issued s) \<and> row = stored_row p k r"
    if here: "row \<in> set (db_reports db')" and ours: "rr_exec row = replayExecutionID p" for row
  proof (cases "row \<in> set (db_reports (ws_db s))")
    case True
    then show ?thesis
      using wal_invD(6) [OF inv] ours by simp
  next
    case False
    then obtain r where r: "r \<in> set (batch_reports batch)" "row = report_row_of p r"
      using flush_batch_rows(2) [OF fl] here by blast
    then obtain k e where "(k, e) \<in> set (zip (tb_keys batch) (tb_entries batch))"
        "row = report_row_of p ((we_report e)\<lparr>r_ingest_id := k\<rparr>)"
      unfolding zip_batch_reports by blast
    moreover from this have "(k, we_report e) \<in> set (ws_issued s)"
      using batch by (auto simp: batch_of_issued_def)
    ultimately show ?thesis
      unfolding stored_row_def by blast
  qed
  show ?thesis
  proof (rule wal_invI)
    show "batch_of_issued (ws_issued ?s) b" if "b \<in> batches ?s" for b
    proof -
      have "b = batch \<or> b \<in> batches s"
        using that running_update(1) [of _ "ws_running s" i] by (fastforce simp: batches_def)
      then show ?thesis
        using batch wal_invD(5) [OF inv] by auto
    qed
    show "stored_row p k (we_report e) \<in> set (db_reports (ws_db ?s))"
      if run: "Some (b, Some True) \<in> set (ws_running ?s)" and ke: "(k, e) \<in> set (zip (tb_keys b) (tb_entries b))" for b k e
    proof (cases "b = batch \<and> is_ok res")
      case True
      then have "(we_report e)\<lparr>r_ingest_id := k\<rparr> \<in> set (batch_reports batch)"
        using ke by (auto simp: zip_batch_reports)
      then obtain row' where row': "row' \<in> set (db_reports db')" "report_key row' = (replayExecutionID p, k)"
        using flush_batch_rows(3) [OF fl] True by fastforce
      then obtain k' r where "(k', r) \<in> set (ws_issued s)" "row' = stored_row p k' r"
        using row [of row'] by (auto simp: report_key_def)
      moreover have "(k, we_report e) \<in> set (ws_issued s)"
        using batch ke True by (auto simp: batch_of_issued_def)
      ultimately have "row' = stored_row p k (we_report e)"
        using row'(2) wal_invD(2) [OF inv] eq_key_imp_eq_value by fastforce
      then show ?thesis
        using row'(1) by simp
    next
      case False
      then have "Some (b, Some True) \<in> set (ws_running s)"
        using run running_update(1) [of "(b, Some True)" "ws_running s" i "(batch, Some (is_ok res))"] by auto
      then show ?thesis
        using wal_invD(7) [OF inv _ ke] flush_batch_rows(1) [OF fl] by auto
    qed
    show "accounted p (wl_bucket (ws_log ?s)) (db_reports (ws_db ?s)) (ws_dlq ?s) (ws_dropped ?s) k r"
      if "(k, r) \<in> set (ws_issued ?s)" for k r
      using that flush_batch_rows(1) [OF fl] by (intro accounted_mono [OF wal_invD(8) [OF inv]]) auto
  qed (use wal_invD [OF inv] row in simp_all)
qed

text \<open>Raising retry counts changes counts only.\<close>

definition report_at :: "bucket \<Rightarrow> 64 word \<Rightarrow> raw_report option" where
  "report_at b k = (case map_of b k of Some (Pending e) \<Rightarrow> Some (we_report e) | _ \<Rightarrow> None)"

lemma report_at_iff: "report_at b k = Some r \<longleftrightarrow> (\<exists>e. map_of b k = Some (Pending e) \<and> we_report e = r)"
  by (auto simp: report_at_def split: option.splits wal_value.splits)

lemma bump_entries_inv:
  assumes "bump_entries kes b m = (b', es, m')"
    and "bucket_of_issued issued b" "\<forall>(k, e) \<in> set kes. (k, we_report e) \<in> set issued"
    and "distinct (map fst issued)"
  shows "bucket_of_issued issued b' \<and> map we_report es = map (we_report \<circ> snd) kes \<and>
    (\<forall>k. report_at b' k = report_at b k)"
  using assms(1-3)
proof (induction kes arbitrary: b m b' es m')
  case (Cons ke kes)
  obtain k e0 where ke: "ke = (k, e0)"
    by (cases ke)
  show ?case
  proof (cases "map_of b k")
    case None
    obtain b1 es1 m1 where rec: "bump_entries kes b m = (b1, es1, m1)"
      by (metis prod_cases3)
    have "b' = b1" "es = e0 # es1"
      using Cons.prems(1) None rec by (auto simp: ke)
    then show ?thesis
      using Cons.IH [OF rec Cons.prems(2)] Cons.prems(3) by (simp add: ke)
  next
    case (Some v)
    then obtain e1 where e1: "v = Pending e1" "(k, we_report e1) \<in> set issued"
      using Cons.prems(2) map_of_SomeD [OF Some] by (auto simp: bucket_of_issued_def)
    have same: "we_report e1 = we_report e0"
      using e1(2) Cons.prems(3) assms(4) eq_key_imp_eq_value by (fastforce simp: ke)
    let ?e = "e1\<lparr>we_retry := we_retry e1 + 1\<rparr>"
    let ?b = "bucket_put k (Pending ?e) b"
    obtain b1 es1 m1 where rec: "bump_entries kes ?b (max m (we_retry ?e)) = (b1, es1, m1)"
      by (metis prod_cases3)
    have out: "b' = b1" "es = ?e # es1"
      using Cons.prems(1) Some e1 rec by (auto simp: Let_def ke)
    have bi: "bucket_of_issued issued ?b"
      using Cons.prems(2) e1(2) by (intro bucket_of_issued_put) auto
    have ri: "report_at ?b j = report_at b j" for j
      using Some e1 by (auto simp: report_at_def)
    show ?thesis
      using Cons.IH [OF rec bi] Cons.prems(3) same out ri by (simp add: ke)
  qed
qed auto

lemma bucket_of_issued_delete: "bucket_of_issued issued b \<Longrightarrow> bucket_of_issued issued (bucket_delete ks b)"
  by (auto simp: bucket_of_issued_def sorted_bucket_delete) (auto simp: bucket_delete_def)

lemma report_at_delete: "report_at (bucket_delete ks b) k = (if k \<in> set ks then None else report_at b k)"
  by (simp add: report_at_def map_of_bucket_delete)

text \<open>
  Settling keeps the bucket, except that keys of the batch go when the flush succeeded or when
  their entries went to the dead letters.
\<close>

lemma settle_effect:
  assumes run: "settle_batch flushed boltOk fileOk delOk batch (b, dlq) = (ev, b', dlq')"
    and b: "bucket_of_issued issued b" and batch: "batch_of_issued issued batch"
    and dist: "distinct (map fst issued)"
  shows "bucket_of_issued issued b' \<and> set dlq \<subseteq> set dlq' \<and>
    (\<forall>k r. report_at b k = Some r \<longrightarrow> report_at b' k = Some r \<or>
       (\<exists>e. (k, e) \<in> set (zip (tb_keys batch) (tb_entries batch)) \<and> we_report e = r \<and>
          (flushed \<or> (\<exists>d \<in> set dlq'. \<exists>e \<in> set (dl_entries d). we_report e = r))))"
proof -
  let ?kes = "zip (tb_keys batch) (tb_entries batch)"
  have own: "\<exists>e. (k, e) \<in> set ?kes \<and> we_report e = r"
    if k: "k \<in> set (tb_keys batch)" and r: "report_at b k = Some r" for k r
  proof -
    have "map fst ?kes = tb_keys batch"
      using batch by (simp add: batch_of_issued_def)
    then have "k \<in> fst ` set ?kes"
      using k by (metis set_map)
    then obtain e where e: "(k, e) \<in> set ?kes"
      by auto
    then have "(k, we_report e) \<in> set issued"
      using batch by (auto simp: batch_of_issued_def)
    moreover have "(k, r) \<in> set issued"
      using r b by (auto simp: report_at_iff bucket_of_issued_def dest!: map_of_SomeD)
    ultimately have "we_report e = r"
      using dist eq_key_imp_eq_value by fast
    then show ?thesis
      using e by blast
  qed
  show ?thesis
  proof (cases flushed)
    case True
    show ?thesis
    proof (cases boltOk)
      case yes: True
      then have eq: "b' = bucket_delete (tb_keys batch) b" "dlq' = dlq"
        using run True by (auto simp: settle_batch_def)
      have "report_at b' k = Some r \<or>
          (\<exists>e. (k, e) \<in> set ?kes \<and> we_report e = r)" if "report_at b k = Some r" for k r
        using own [OF _ that] that by (cases "k \<in> set (tb_keys batch)") (auto simp: eq report_at_delete)
      then show ?thesis
        using True eq bucket_of_issued_delete [OF b] by blast
    next
      case False
      then show ?thesis
        using run True b by (auto simp: settle_batch_def)
    qed
  next
    case False
    obtain b1 es m where bump: "bump_entries ?kes b 0 = (b1, es, m)"
      by (metis prod_cases3)
    have inv: "bucket_of_issued issued b1" "map we_report es = map (we_report \<circ> snd) ?kes"
        "\<And>k. report_at b1 k = report_at b k"
      using bump_entries_inv [OF bump b _ dist] batch by (auto simp: batch_of_issued_def)
    have "b' = b \<and> dlq' = dlq \<or> b' = b1 \<and> set dlq \<subseteq> set dlq' \<or>
        b' = bucket_delete (tb_keys batch) b1 \<and>
        dlq' = dlq @ [\<lparr>dl_trace = tb_trace batch, dl_entries = es, dl_key_count = length (tb_keys batch)\<rparr>]"
      using run False bump
      by (auto simp: settle_batch_def bump_retries_or_dead_letter_def Let_def split: if_splits)
    then consider "b' = b" "dlq' = dlq" | "b' = b1" "set dlq \<subseteq> set dlq'"
      | "b' = bucket_delete (tb_keys batch) b1"
        "dlq' = dlq @ [\<lparr>dl_trace = tb_trace batch, dl_entries = es, dl_key_count = length (tb_keys batch)\<rparr>]"
      by blast
    then show ?thesis
    proof cases
      case 3
      have "\<exists>e' \<in> set es. we_report e' = we_report e" if "(k, e) \<in> set ?kes" for k e
      proof -
        have "we_report e \<in> set (map we_report es)"
          unfolding inv(2) using that by force
        then show ?thesis
          by auto
      qed
      then have dead: "\<exists>d \<in> set dlq'. \<exists>e' \<in> set (dl_entries d). we_report e' = we_report e"
        if "(k, e) \<in> set ?kes" for k e
        using that unfolding 3(2) by simp
      have "report_at b' k = Some r \<or> (\<exists>e. (k, e) \<in> set ?kes \<and> we_report e = r \<and>
          (\<exists>d \<in> set dlq'. \<exists>e \<in> set (dl_entries d). we_report e = r))" if r: "report_at b k = Some r" for k r
      proof (cases "k \<in> set (tb_keys batch)")
        case True
        then show ?thesis
          using own [OF True r] dead by blast
      next
        case False
        then show ?thesis
          using r inv(3) by (simp add: 3(1) report_at_delete)
      qed
      moreover have "bucket_of_issued issued b'"
        unfolding 3(1) by (rule bucket_of_issued_delete [OF inv(1)])
      moreover have "set dlq \<subseteq> set dlq'"
        unfolding 3(2) by auto
      ultimately show ?thesis
        by blast
    next
      case 1
      then show ?thesis
        using b by simp
    next
      case 2
      then show ?thesis
        using inv by simp
    qed
  qed
qed

lemma wal_inv_settle:
  assumes inv: "wal_inv p s" and i: "i < length (ws_running s)" "ws_running s ! i = Some (batch, Some flushed)"
    and run: "settle_batch flushed boltOk fileOk delOk batch (wl_bucket (ws_log s), ws_dlq s) = (ev, b', dlq')"
  shows "wal_inv p (s\<lparr>ws_running := (ws_running s)[i := None], ws_log := (ws_log s)\<lparr>wl_bucket := b'\<rparr>,
        ws_dlq := dlq', ws_events := ws_events s @ [ev]\<rparr>)" (is "wal_inv p ?s")
proof -
  have here: "Some (batch, Some flushed) \<in> set (ws_running s)"
    using i nth_mem by metis
  then have batch: "batch_of_issued (ws_issued s) batch"
    by (intro wal_invD(5) [OF inv]) (auto simp: batches_def)
  note eff = settle_effect [OF run wal_invD(4) [OF inv] batch wal_invD(2) [OF inv]]
  show ?thesis
  proof (rule wal_invI)
    show "batch_of_issued (ws_issued ?s) b" if "b \<in> batches ?s" for b
    proof -
      have "b \<in> batches s"
        using that running_update(2) [of _ "ws_running s" i] by (fastforce simp: batches_def)
      then show ?thesis
        using wal_invD(5) [OF inv] by simp
    qed
    show "stored_row p k (we_report e) \<in> set (db_reports (ws_db ?s))"
      if "Some (b, Some True) \<in> set (ws_running ?s)" "(k, e) \<in> set (zip (tb_keys b) (tb_entries b))" for b k e
      using wal_invD(7) [OF inv _ that(2)] running_update(2) [of _ "ws_running s" i] that(1) by simp
    show "accounted p (wl_bucket (ws_log ?s)) (db_reports (ws_db ?s)) (ws_dlq ?s) (ws_dropped ?s) k r"
      if kr: "(k, r) \<in> set (ws_issued ?s)" for k r
    proof (cases "report_at (wl_bucket (ws_log s)) k = Some r")
      case True
      with eff consider "report_at b' k = Some r"
        | e where "(k, e) \<in> set (zip (tb_keys batch) (tb_entries batch))" "we_report e = r" "flushed"
        | "\<exists>d \<in> set dlq'. \<exists>e \<in> set (dl_entries d). we_report e = r"
        by blast
      then show ?thesis
      proof cases
        case 2
        then show ?thesis
          using wal_invD(7) [OF inv] here by (auto simp: accounted_def)
      qed (auto simp: accounted_def report_at_iff)
    next
      case False
      then show ?thesis
        using wal_invD(8) [OF inv, of k r] kr eff by (auto simp: accounted_def report_at_iff)
    qed
  qed (use wal_invD [OF inv] eff in simp_all)
qed

lemma wal_inv_complete:
  assumes inv: "wal_inv p s"
  shows "wal_inv p (s\<lparr>ws_disp := d, ws_events := ev\<rparr>)"
proof (rule wal_invI)
  show "batch_of_issued (ws_issued (s\<lparr>ws_disp := d, ws_events := ev\<rparr>)) b"
    if "b \<in> batches (s\<lparr>ws_disp := d, ws_events := ev\<rparr>)" for b
    using wal_invD(5) [OF inv, of b] that by (simp add: batches_def)
qed (use wal_invD [OF inv] in simp_all)

lemma wal_inv_step:
  assumes "wal_step p s s'" "ws_appends s' < 2 ^ 64" "wal_inv p s"
  shows "wal_inv p s'"
  using assms(1)
proof cases
  case (Append fileSize dropOk boltOk r res log')
  then show ?thesis
    using wal_inv_append [OF assms(3) _ Append(2)] assms(2) by simp
next
  case (Dispatch now disp' chans')
  then show ?thesis
    using wal_inv_dispatch assms(3) by blast
next
  case (Take i batch rest)
  then show ?thesis
    using wal_inv_take assms(3) by blast
next
  case (Flush i batch pg env timeout res db')
  then show ?thesis
    using wal_inv_flush assms(3) by blast
next
  case (Settle i batch flushed boltOk fileOk delOk ev b' dlq')
  then show ?thesis
    using wal_inv_settle assms(3) by blast
next
  case (Complete ev rest now)
  then show ?thesis
    using wal_inv_complete assms(3) by blast
qed

lemma appends_mono: "wal_step p s s' \<Longrightarrow> ws_appends s \<le> ws_appends s'"
  by (auto elim!: wal_stepE)

text \<open>
  C4: No acknowledged report is lost: in every state reachable from a fresh start, whatever fails
  and however the steps interleave, each report the log acknowledged under a sequence number is
  still pending in the log, or stored in the database exactly as acknowledged under that number,
  or written to the dead letters, or was dropped on overflow (fewer than 2^64 appends).
\<close>

theorem wal_no_loss:
  assumes "wal_start p s0" "wal_reaches p s0 s" "ws_appends s < 2 ^ 64" "(k, r) \<in> set (ws_issued s)"
  shows "(\<exists>e. map_of (wl_bucket (ws_log s)) k = Some (Pending e) \<and> we_report e = r) \<or>
    report_row_of p (r\<lparr>r_ingest_id := k\<rparr>) \<in> set (db_reports (ws_db s)) \<or>
    (\<exists>d \<in> set (ws_dlq s). \<exists>e \<in> set (dl_entries d). we_report e = r) \<or>
    k \<in> set (ws_dropped s)"
proof -
  have "ws_appends s < 2 ^ 64 \<longrightarrow> wal_inv p s"
    using assms(2)
  proof (rule reaches_invariant)
    show "ws_appends s0 < 2 ^ 64 \<longrightarrow> wal_inv p s0"
      using wal_inv_start assms(1) by blast
  next
    fix s s' assume "ws_appends s < 2 ^ 64 \<longrightarrow> wal_inv p s" "wal_step p s s'"
    then show "ws_appends s' < 2 ^ 64 \<longrightarrow> wal_inv p s'"
      using wal_inv_step appends_mono [of p s s'] by simp
  qed
  then show ?thesis
    using assms(3,4) wal_invD(8) [of p s k r] by (simp add: accounted_def stored_row_def)
qed

section \<open>Retries\<close>

fun bump :: "wal_value \<Rightarrow> wal_value" where
  "bump (Pending e) = Pending (e\<lparr>we_retry := we_retry e + 1\<rparr>)"
| "bump (Corrupt bs) = Corrupt bs"





lemma retry_delay_bounds:
  "100 * millisecond \<le> retry_delay n \<and> retry_delay n \<le> 5 * second \<and> retry_delay n \<le> retry_delay (n + 1)"
proof -
  consider "n = 0" | "n = 1" | "n = 2" | "n = 3" | "n \<ge> 4"
    by linarith
  then show ?thesis
    by cases (auto simp: retry_delay_def backoffSteps_def nth_Cons')
qed

text \<open>
  After a flush of a trace failed, no scan claims the trace again before its back-off is over;
  the back-off is between 100 ms and 5 s and does not shrink from one failure to the next.
\<close>

theorem retry_waits:
  assumes "\<not> ce_ok ev \<and> \<not> ce_dead_letter ev" "n = go_get 0 (backoff_attempt d) (ce_trace ev)"
    and "now' < now + retry_delay n"
    and "claim_and_dispatch now' b (handle_completion now ev d, chans) = (d', chans')"
  shows "ce_trace ev \<notin> set (in_flight d') \<and> go_get 0 (backoff_attempt d') (ce_trace ev) = n + 1 \<and>
    100 * millisecond \<le> retry_delay n \<and> retry_delay n \<le> 5 * second \<and> retry_delay n \<le> retry_delay (n + 1)"
proof -
  let ?d = "handle_completion now ev d" and ?t = "ce_trace ev"
  have d: "map_of (next_retry_at ?d) ?t = Some (now + retry_delay n)" "go_get 0 (backoff_attempt ?d) ?t = n + 1"
      "?t \<notin> set (in_flight ?d)"
    using assms(1,2) by (auto simp: handle_completion_def Let_def update_conv')
  have "next_retry_at d' = next_retry_at ?d \<and> backoff_attempt d' = backoff_attempt ?d \<and> ?t \<notin> set (in_flight d')"
    using d(3)
    by (intro claim_induct [OF assms(4), where P = "\<lambda>d _. next_retry_at d = next_retry_at ?d \<and>
          backoff_attempt d = backoff_attempt ?d \<and> ?t \<notin> set (in_flight d)"])
      (use assms(3) d in \<open>auto simp: backing_off_def\<close>)
  then show ?thesis
    using d(2) retry_delay_bounds [of n] by simp
qed

section \<open>Restarting with an empty log\<close>

text \<open>
  A restart with an empty log hands out sequence numbers the execution has used before: once
  the execution has a stored report under number 1, the first report appended after such a restart
  is acknowledged, its batch is flushed without an error, and it is not stored.
\<close>

theorem restart_reuses_sequence:
  assumes "find_row report_key (replayExecutionID p, 1) (db_reports db) = Some row"
    and "append_wal sz dok True r (reopen_wal []) = (Inr (), log')"
    and "flush_batch pg p env timeout (batch_of (wl_bucket log') (r_trace_id (json_report r))) db = (Inr u, db')"
  shows "tb_keys (batch_of (wl_bucket log') (r_trace_id (json_report r))) = [1] \<and> db_reports db' = db_reports db"
proof -
  let ?e = "\<lparr>we_retry = 0, we_report = json_report r\<rparr>"
  have "maybe_drop_head sz [] = []"
    by (simp add: maybe_drop_head_def)
  then have bucket: "wl_bucket log' = [(1, Pending ?e)]"
    using assms(2) by (auto simp: append_wal_def Let_def reopen_wal_def split: if_splits)
  have batch: "batch_of (wl_bucket log') (r_trace_id (json_report r)) =
      \<lparr>tb_trace = r_trace_id (json_report r), tb_keys = [1], tb_entries = [?e]\<rparr>"
    by (simp add: bucket batch_of_def entry_trace_def walBatchMaxOps_def)
  have "db_reports db' = reports.puts [report_row_of p ((json_report r)\<lparr>r_ingest_id := 1\<rparr>)] (db_reports db)"
    using assms(3) unfolding batch flush_batch_def Let_def by (auto simp: batch_reports_def flush_ok)
  also have "\<dots> = db_reports db"
    using assms(1) by (simp add: reports.present)
  finally show ?thesis
    by (simp add: batch)
qed

section \<open>The properties at concrete inputs\<close>

definition sample_log :: wal_log where
  "sample_log = snd (append_wal 0 True True (sample_report Candidate 0 5) (reopen_wal []))"

definition sample_start :: wal_system where
  "sample_start =
     \<lparr>ws_log = reopen_wal [], ws_db = empty_db, ws_dlq = [], ws_disp = fresh_dispatcher,
      ws_chans = replicate walWorkerCount [], ws_running = replicate walWorkerCount None,
      ws_events = [], ws_issued = [], ws_dropped = [], ws_appends = 0\<rparr>"

definition sample_appended :: wal_system where
  "sample_appended = sample_start\<lparr>ws_log := sample_log, ws_issued := [(1, json_report (sample_report Candidate 0 5))],
     ws_dropped := [], ws_appends := 1\<rparr>"

definition sample_dispatched :: wal_system where
  "sample_dispatched =
     (let (d, c) = claim_and_dispatch 7 (wl_bucket sample_log) (fresh_dispatcher, replicate walWorkerCount [])
      in sample_appended\<lparr>ws_disp := d, ws_chans := c\<rparr>)"

lemma sample_append: "append_wal 0 True True (sample_report Candidate 0 5) (reopen_wal []) = (Inr (), sample_log)"
  by (simp add: sample_log_def append_wal_def Let_def year_marshals_def sample_report_def)

lemma sample_reaches: "wal_start sample_store sample_start" "wal_reaches sample_store sample_start sample_dispatched"
proof -
  show "wal_start sample_store sample_start"
    by (simp add: wal_start_def sample_start_def empty_db_def)
  have "wl_seq sample_log = 1" "dropped_keys 0 True (wl_bucket (reopen_wal [])) = []"
    by (simp_all add: sample_log_def append_wal_def Let_def year_marshals_def sample_report_def reopen_wal_def
        dropped_keys_def)
  then have append: "wal_step sample_store sample_start sample_appended"
    using wal_step.Append [of 0 True True "sample_report Candidate 0 5" sample_start "Inr ()" sample_log sample_store]
    by (simp add: sample_append sample_start_def sample_appended_def is_ok_def)
  have "wal_step sample_store sample_appended sample_dispatched"
    using wal_step.Dispatch [of 7 sample_appended _ _ sample_store]
    by (auto simp: sample_dispatched_def sample_appended_def sample_start_def split: prod.splits)
  with append show "wal_reaches sample_store sample_start sample_dispatched"
    by (meson wal_reaches.intros)
qed

theorem wal_one_batch_per_trace_witness:
  "set (in_flight (ws_disp sample_dispatched)) = {''t1''} \<and>
   set (map tb_trace (concat (ws_chans sample_dispatched)) @ running_traces (ws_running sample_dispatched) @
        map ce_trace (ws_events sample_dispatched)) = {''t1''}"
proof -
  have "in_flight (ws_disp sample_dispatched) = [''t1'']"
    by code_simp
  then show ?thesis
    using wal_one_batch_per_trace [OF sample_reaches] by (simp add: Let_def)
qed

theorem wal_no_loss_witness:
  "(\<exists>e. map_of (wl_bucket (ws_log sample_dispatched)) 1 = Some (Pending e) \<and>
        we_report e = json_report (sample_report Candidate 0 5)) \<or>
   report_row_of sample_store ((json_report (sample_report Candidate 0 5))\<lparr>r_ingest_id := 1\<rparr>)
     \<in> set (db_reports (ws_db sample_dispatched)) \<or>
   (\<exists>d \<in> set (ws_dlq sample_dispatched). \<exists>e \<in> set (dl_entries d). we_report e = json_report (sample_report Candidate 0 5)) \<or>
   1 \<in> set (ws_dropped sample_dispatched)"
  using wal_no_loss [OF sample_reaches, of 1 "json_report (sample_report Candidate 0 5)"]
  by (simp add: sample_dispatched_def sample_appended_def split: prod.splits)





theorem retry_waits_witness:
  "''t1'' \<notin> set (in_flight (fst (claim_and_dispatch 50 (wl_bucket sample_log)
     (handle_completion 0 \<lparr>ce_trace = ''t1'', ce_ok = False, ce_dead_letter = False, ce_err = True\<rparr> fresh_dispatcher,
      replicate walWorkerCount []))))"
proof -
  let ?ev = "\<lparr>ce_trace = ''t1'', ce_ok = False, ce_dead_letter = False, ce_err = True\<rparr>"
  obtain d' c' where run: "claim_and_dispatch 50 (wl_bucket sample_log)
      (handle_completion 0 ?ev fresh_dispatcher, replicate walWorkerCount []) = (d', c')"
    by fastforce
  have "retry_delay 0 = 100 * millisecond"
    by (simp add: retry_delay_def backoffSteps_def)
  then show ?thesis
    using retry_waits [OF _ _ _ run, of 0] run by (simp add: fresh_dispatcher_def)
qed

definition sample_reflush :: "(store_error + unit) \<times> db" where
  "sample_reflush = flush_batch sample_server sample_store sample_env 0 (batch_of (wl_bucket sample_log)
      (r_trace_id (json_report (sample_report Candidate 0 5)))) sample_db1"

theorem restart_reuses_sequence_witness:
  "fst sample_reflush = Inr () \<and> db_reports (snd sample_reflush) = db_reports sample_db1 \<and>
   Candidate \<notin> r_shadow_role ` rr_report ` set (db_reports (snd sample_reflush))"
proof -
  have ok: "fst sample_reflush = Inr ()"
    by code_simp
  have "find_row report_key (''e1'', 1) (db_reports sample_db1) \<noteq> None"
    by code_simp
  then obtain row where "find_row report_key (replayExecutionID sample_store, 1) (db_reports sample_db1) = Some row"
    by (auto simp: sample_store_def)
  moreover have "flush_batch sample_server sample_store sample_env 0 (batch_of (wl_bucket sample_log)
      (r_trace_id (json_report (sample_report Candidate 0 5)))) sample_db1 = (Inr (), snd sample_reflush)"
    using ok by (simp add: sample_reflush_def prod_eq_iff)
  ultimately have "db_reports (snd sample_reflush) = db_reports sample_db1"
    using restart_reuses_sequence [OF _ sample_append] by blast
  moreover have "Candidate \<notin> set (map (r_shadow_role \<circ> rr_report) (db_reports sample_db1))"
    by code_simp
  ultimately show ?thesis
    using ok by (simp add: image_image)
qed

end
