(* ===== verification/BeruRouter.thy ===== *)
theory BeruRouter
  imports BeruWal BeruReport
begin

text \<open>
  \<^verbatim>\<open>pipeline/beru/internal/engine\<close>: the trace router.  \<^verbatim>\<open>Route\<close> puts a report into
  the write-ahead log; the reaper decides traces that stay incomplete; \<^verbatim>\<open>logs.go\<close> renders
  the per-protocol log lines of a trace.  Both interfaces of the router (reports and runs) are
  the WAL-backed store, as the binary wires them, so its state is the database and the log.
\<close>

section \<open>Routing (router.go)\<close>

definition reaperInterval :: duration where "reaperInterval = 2 * second"

definition TraceTimeoutFromEnv :: "env \<Rightarrow> duration" where
  "TraceTimeoutFromEnv getenv = seconds_or_duration defaultTraceTimeout (getenv ''BERU_TRACE_TIMEOUT'')"

definition router_timeout :: "duration \<Rightarrow> duration" where
  "router_timeout timeout = (if timeout \<le> 0 then defaultTraceTimeout else timeout)"

record beru_state =
  bs_db :: db
  bs_log :: wal_log

text \<open>What a call finds outside: the clock, the size of the log file, whether Bolt works.\<close>

record call_env =
  ca_now :: instant
  ca_file_size :: int
  ca_drop_ok :: bool
  ca_bolt_ok :: bool

definition route ::
  "pg_server \<Rightarrow> call_env \<Rightarrow> raw_report option \<Rightarrow> beru_state \<Rightarrow> (wal_error + unit) \<times> beru_state" where
  "route pg ce report s =
     (case report of
        None \<Rightarrow> (Inr (), s)
      | Some r \<Rightarrow>
          let db1 = (if r_shadow_test_name r \<noteq> []
                     then snd (ensure_shadow_test pg (ca_now ce) (r_shadow_test_name r) (bs_db s))
                     else bs_db s);
              (res, log1) = wal_append_report (ca_file_size ce) (ca_drop_ok ce) (ca_bolt_ok ce)
                              (Some r) (bs_log s);
              s1 = \<lparr>bs_db = db1, bs_log = log1\<rparr>
          in case res of Inl e \<Rightarrow> (Inl e, s1) | Inr _ \<Rightarrow> (Inr (), s1))"

section \<open>The reaper\<close>

text \<open>
  Errors are logged only, so a sweep is a function of the database.  \<^verbatim>\<open>env\<close> gives the clock
  and the map iteration orders of the evaluation of each trace.
\<close>

definition reap_trace ::
  "pg_server \<Rightarrow> postgres_store \<Rightarrow> run_env \<Rightarrow> duration \<Rightarrow> string \<Rightarrow> db \<Rightarrow> db" where
  "reap_trace pg p env timeout traceID db =
     (case list_reports pg p traceID [] db of
        (Inl e, db1) \<Rightarrow> db1
      | (Inr history, db1) \<Rightarrow>
          let userNoise = batch_noise pg p history db1
          in case evaluate_history env history userNoise timeout of
               None \<Rightarrow> db1
             | Some verdict \<Rightarrow> snd (save_diff_verdict pg p traceID (Some verdict) db1))"

definition reap_once ::
  "pg_server \<Rightarrow> postgres_store \<Rightarrow> (string \<Rightarrow> run_env) \<Rightarrow> duration \<Rightarrow> instant \<Rightarrow> db \<Rightarrow> db" where
  "reap_once pg p env timeout now db =
     (case list_stale_incomplete_traces pg p (now - timeout) db of
        (Inl e, db1) \<Rightarrow> db1
      | (Inr stale, db1) \<Rightarrow>
          foldl (\<lambda>db candidate. reap_trace pg p (env (st_trace_id candidate)) timeout
                   (st_trace_id candidate) db) db1 stale)"

section \<open>Log lines (logs.go)\<close>

definition parse_steps :: "string \<Rightarrow> verdict_step list" where
  "parse_steps summaryDetails =
     (if summaryDetails = [] then []
      else case unmarshal_details summaryDetails of (details, ok) \<Rightarrow> if ok then d_steps details else [])"

definition is_ingress_protocol :: "string \<Rightarrow> bool" where
  "is_ingress_protocol protocol \<longleftrightarrow> to_lower protocol \<in> {''http'', ''ingress''}"

definition protocols_in_history :: "raw_report list \<Rightarrow> string list" where
  "protocols_in_history history = dedup_first (map r_protocol history)"

definition filter_history_by_protocol :: "raw_report list \<Rightarrow> string \<Rightarrow> raw_report list" where
  "filter_history_by_protocol history protocol = filter (\<lambda>r. r_protocol r = protocol) history"

definition filter_history_by_direction :: "raw_report list \<Rightarrow> string \<Rightarrow> raw_report list" where
  "filter_history_by_direction history direction =
     filter (\<lambda>r. (r_direction r = direction \<or> (direction = DirectionIngress \<and> r_direction r = [])) \<and>
                 \<not> (r_direction r = DirectionEgress \<and> direction = DirectionIngress)) history"

definition protocol_has_all_roles :: "raw_report list \<Rightarrow> string \<Rightarrow> bool" where
  "protocol_has_all_roles history protocol \<longleftrightarrow>
     (let have = map r_shadow_role (filter (\<lambda>r. r_protocol r = protocol) history)
      in list_all (\<lambda>role. role \<in> set have) all_roles)"

definition log_role_count :: "raw_report list \<Rightarrow> string \<Rightarrow> nat" where
  "log_role_count history role = foldl (\<lambda>n r. if r_shadow_role r = role then n + 1 else n) 0 history"

definition egress_count_unit :: "string \<Rightarrow> string" where
  "egress_count_unit protocol =
     (if to_lower protocol \<in> {''rabbitmq'', ''kafka''} then ''messages''
      else if to_lower protocol \<in> {''mongodb'', ''postgresql'', ''redis''} then ''queries''
      else ''operations'')"

definition format_count_unit :: "string \<Rightarrow> nat \<Rightarrow> string" where
  "format_count_unit u n =
     (if n = 1 then
        (if u = ''messages'' then ''message'' else if u = ''queries'' then ''query''
         else if u = ''operations'' then ''operation'' else u)
      else u)"

definition mirror_ingress_logs :: "string \<Rightarrow> verdict_state \<Rightarrow> string list" where
  "mirror_ingress_logs traceID verdict =
     (if v_status verdict = StatusMatch then [''No regression for Trace '' @ traceID]
      else if v_status verdict = StatusMismatch then
        map (\<lambda>step. ''Regression found in Trace '' @ traceID @ '': Field '' @ [CHR 0x27] @ s_detail step @
                    [CHR 0x27] @ '' expected <control-a> but got <candidate>.'')
          (filter (\<lambda>step. s_kind step = FlagMismatchPayload) (parse_steps (v_summary_details verdict)))
      else if v_status verdict = StatusVoidedBaselineDivergence then
        [''Voided baseline divergence for Trace '' @ traceID]
      else if v_status verdict = StatusWaitingForRoles then [''Waiting for roles on Trace '' @ traceID]
      else [])"

definition mirror_egress_logs :: "string \<Rightarrow> string \<Rightarrow> raw_report list \<Rightarrow> verdict_state \<Rightarrow> string list" where
  "mirror_egress_logs traceID protocol history verdict =
     (let name = traceID @ '' ('' @ protocol @ '')''
      in if v_status verdict = StatusMatch then [''No egress regression for Trace '' @ name]
         else if v_status verdict = StatusMismatch then
           (if v_has_count_regression verdict then
              (let controlA = log_role_count history ControlA; candidate = log_role_count history Candidate;
                   u = egress_count_unit protocol
               in [''Egress count regression for Trace '' @ name @ '': expected '' @ itoa controlA @ '' '' @
                   format_count_unit u controlA @ '' but got '' @ itoa candidate])
            else []) @
           map (\<lambda>step. ''Egress regression for Trace '' @ name @ '': Field '' @ [CHR 0x27] @ s_detail step @
                       [CHR 0x27] @ '' expected <control-a> but got <candidate>'')
             (filter (\<lambda>step. s_kind step = FlagMismatchPayload) (parse_steps (v_summary_details verdict)))
         else if v_status verdict = StatusVoidedBaselineDivergence then
           [''Voided egress baseline divergence for Trace '' @ name]
         else if v_status verdict = StatusWaitingForRoles then [''Waiting for egress roles on Trace '' @ name]
         else [])"

text \<open>The evaluations run with the default options; \<^verbatim>\<open>env\<close> is the environment of each.\<close>

definition evaluate_default :: "run_env \<Rightarrow> raw_report list \<Rightarrow> verdict_state option" where
  "evaluate_default env history =
     evaluate_trace_history (order1 env) (order2 env) (clock_now env) history [] \<lparr>o_timeout = 0, o_now = 0\<rparr>"

definition mirror_protocol :: "run_env \<Rightarrow> string \<Rightarrow> raw_report list \<Rightarrow> string \<Rightarrow> string list" where
  "mirror_protocol env traceID history protocol =
     (let byProto = filter_history_by_protocol history protocol;
          egress_lines = (\<lambda>rs. case evaluate_default env rs of
                                 Some pv \<Rightarrow> mirror_egress_logs traceID protocol rs pv | None \<Rightarrow> [])
      in if is_ingress_protocol protocol then
           (let ingress = filter_history_by_direction byProto DirectionIngress;
                egress = filter_history_by_direction byProto DirectionEgress
            in (if ingress \<noteq> [] \<and> protocol_has_all_roles ingress protocol
                then (case evaluate_default env ingress of
                        Some pv \<Rightarrow> mirror_ingress_logs traceID pv | None \<Rightarrow> [])
                else []) @
               (if egress \<noteq> [] \<and> protocol_has_all_roles egress protocol then egress_lines egress else []))
         else if protocol_has_all_roles byProto protocol then egress_lines byProto else [])"

definition mirror_legacy_logs ::
  "run_env \<Rightarrow> string \<Rightarrow> raw_report list \<Rightarrow> verdict_state option \<Rightarrow> string list" where
  "mirror_legacy_logs env traceID history verdict =
     (if traceID = [] \<or> verdict = None then []
      else concat (map (mirror_protocol env traceID history) (protocols_in_history history)))"

end
