(* ===== verification/GoDecodeRaw.thy ===== *)
theory GoDecodeRaw
  imports GoDecode GoTime "HOL-Library.Monad_Syntax"
begin

text \<open>
  \<^verbatim>\<open>json.Unmarshal\<close> where the raw text of a member matters: \<^verbatim>\<open>json.RawMessage\<close> and
  \<^verbatim>\<open>time.Time\<close> fields.  A raw decoder reads the text of a valid JSON value without the
  white space around it.
\<close>

type_synonym 'a raw_decoder = "string \<Rightarrow> 'a \<Rightarrow> 'a \<times> bool"

section \<open>Members and elements as text\<close>

definition raw_value :: "string \<Rightarrow> (string \<times> string) option" where
  "raw_value s =
     (let t = skip_ws s
      in case parse_value (2 * length t + 2) max_nesting_depth t of
           None \<Rightarrow> None
         | Some (v, r) \<Rightarrow> Some (take (length t - length r) t, r))"

text \<open>The members of an object after its opening brace; the first argument bounds their number.\<close>

fun raw_members :: "nat \<Rightarrow> string \<Rightarrow> (string \<times> string) list option" where
  "raw_members 0 s = None"
| "raw_members (Suc f) s =
     (case skip_ws s of
        [] \<Rightarrow> None
      | c # t \<Rightarrow>
          if c = CHR ''}'' then Some []
          else if c \<noteq> CHR 0x22 then None
          else do {
            (k, r) \<leftarrow> parse_str t;
            (raw, r') \<leftarrow> raw_value (tl (skip_ws r));
            (case skip_ws r' of
               [] \<Rightarrow> None
             | c' # r'' \<Rightarrow>
                 if c' = CHR ''}'' then Some [(k, raw)]
                 else map_option (Cons (k, raw)) (raw_members f r''))
          })"

fun raw_elements :: "nat \<Rightarrow> string \<Rightarrow> string list option" where
  "raw_elements 0 s = None"
| "raw_elements (Suc f) s =
     (case skip_ws s of
        [] \<Rightarrow> None
      | c # t \<Rightarrow>
          if c = CHR '']'' then Some []
          else do {
            (raw, r) \<leftarrow> raw_value (c # t);
            (case skip_ws r of
               [] \<Rightarrow> None
             | c' # r' \<Rightarrow>
                 if c' = CHR '']'' then Some [raw] else map_option (Cons raw) (raw_elements f r'))
          })"

definition raw_object :: "string \<Rightarrow> (string \<times> string) list option" where
  "raw_object s =
     (case skip_ws s of [] \<Rightarrow> None
      | c # t \<Rightarrow> if c = CHR ''{'' then raw_members (length s) t else None)"

definition raw_array :: "string \<Rightarrow> string list option" where
  "raw_array s =
     (case skip_ws s of [] \<Rightarrow> None
      | c # t \<Rightarrow> if c = CHR ''['' then raw_elements (length s) t else None)"

section \<open>Decoders\<close>

definition by_value :: "'a decoder \<Rightarrow> 'a raw_decoder" where
  "by_value dec raw cur = (case json_parse raw of Some v \<Rightarrow> dec v cur | None \<Rightarrow> (cur, False))"

text \<open>\<^verbatim>\<open>json.RawMessage\<close> takes any value, also \<^verbatim>\<open>null\<close>, as it is written.\<close>

definition raw_message :: "string raw_decoder" where
  "raw_message raw cur = (raw, True)"

definition in_raw_field :: "('s \<Rightarrow> 'a) \<Rightarrow> ('a \<Rightarrow> 's \<Rightarrow> 's) \<Rightarrow> 'a raw_decoder \<Rightarrow> 's raw_decoder" where
  "in_raw_field get put dec raw s = (let (x, ok) = dec raw (get s) in (put x s, ok))"

fun decode_raw_members ::
  "(string \<times> 's raw_decoder) list \<Rightarrow> (string \<times> string) list \<Rightarrow> 's \<Rightarrow> 's \<times> bool" where
  "decode_raw_members fs [] s = (s, True)"
| "decode_raw_members fs ((k, raw) # ms) s =
     (case field_of fs k of
        None \<Rightarrow> decode_raw_members fs ms s
      | Some d \<Rightarrow> (let (s', ok) = d raw s; (s'', oks) = decode_raw_members fs ms s' in (s'', ok \<and> oks)))"

definition decode_raw_struct :: "(string \<times> 's raw_decoder) list \<Rightarrow> 's raw_decoder" where
  "decode_raw_struct fs raw s =
     (if raw = ''null'' then (s, True)
      else case raw_object raw of Some ms \<Rightarrow> decode_raw_members fs ms s | None \<Rightarrow> (s, False))"

fun decode_raw_elements :: "'a raw_decoder \<Rightarrow> 'a \<Rightarrow> string list \<Rightarrow> 'a list \<Rightarrow> 'a list \<times> bool" where
  "decode_raw_elements dec zero [] cur = ([], True)"
| "decode_raw_elements dec zero (raw # raws) cur =
     (let (x, ok) = dec raw (case cur of [] \<Rightarrow> zero | c # _ \<Rightarrow> c);
          (xs, oks) = decode_raw_elements dec zero raws (tl cur)
      in (x # xs, ok \<and> oks))"

definition decode_raw_slice :: "'a raw_decoder \<Rightarrow> 'a \<Rightarrow> 'a list raw_decoder" where
  "decode_raw_slice dec zero raw cur =
     (if raw = ''null'' then ([], True)
      else case raw_array raw of
             Some raws \<Rightarrow> decode_raw_elements dec zero raws cur
           | None \<Rightarrow> (cur, False))"

text \<open>A whole text, decoded over the zero value; \<^verbatim>\<open>None\<close> when Unmarshal reports an error.\<close>

definition unmarshal_raw :: "'a raw_decoder \<Rightarrow> 'a \<Rightarrow> string \<Rightarrow> 'a option" where
  "unmarshal_raw dec zero text =
     (if json_valid text
      then do { (raw, _) \<leftarrow> raw_value text; let (x, ok) = dec raw zero in (if ok then Some x else None) }
      else None)"

section \<open>Time stamps\<close>

definition fixed_num :: "nat \<Rightarrow> string \<Rightarrow> (int \<times> string) option" where
  "fixed_num n s =
     (if n \<le> length s \<and> list_all is_digit (take n s)
      then Some (int_of_digits (take n s), drop n s) else None)"

text \<open>The hour may have one digit only.\<close>

definition hour_num :: "string \<Rightarrow> (int \<times> string) option" where
  "hour_num s = (case fixed_num 2 s of Some x \<Rightarrow> Some x | None \<Rightarrow> fixed_num 1 s)"

definition expect :: "char \<Rightarrow> string \<Rightarrow> string option" where
  "expect c s = (case s of [] \<Rightarrow> None | d # t \<Rightarrow> if d = c then Some t else None)"

definition fraction :: "string \<Rightarrow> int \<times> string" where
  "fraction s =
     (case s of
        c # t \<Rightarrow>
          let ds = takeWhile is_digit t
          in if (c = CHR ''.'' \<or> c = CHR '','') \<and> ds \<noteq> []
             then (int_of_digits (take 9 ds) * 10 ^ (9 - length (take 9 ds)), dropWhile is_digit t)
             else (0, s)
      | [] \<Rightarrow> (0, s))"

definition zone_offset :: "string \<Rightarrow> (int \<times> string) option" where
  "zone_offset s =
     (case s of
        [] \<Rightarrow> None
      | c # t \<Rightarrow>
          if c = CHR ''Z'' then Some (0, t)
          else do {
            (h, r1) \<leftarrow> fixed_num 2 t;
            r2 \<leftarrow> expect (CHR '':'') r1;
            (m, r3) \<leftarrow> fixed_num 2 r2;
            (if h > 24 \<or> m > 60 then None
             else if c = CHR ''+'' then Some ((h * 60 + m) * 60, r3)
             else if c = CHR ''-'' then Some (- ((h * 60 + m) * 60), r3)
             else None)
          })"

definition leap_year :: "int \<Rightarrow> bool" where
  "leap_year y \<longleftrightarrow> y mod 4 = 0 \<and> (y mod 100 \<noteq> 0 \<or> y mod 400 = 0)"

definition days_in :: "int \<Rightarrow> int \<Rightarrow> int" where
  "days_in y m = (if m = 2 then (if leap_year y then 29 else 28) else if m \<in> {4, 6, 9, 11} then 30 else 31)"

text \<open>Days from January 1 of year 1.\<close>

definition civil_day :: "int \<Rightarrow> int \<Rightarrow> int \<Rightarrow> int" where
  "civil_day y m d =
     365 * (y - 1) + (y - 1) div 4 - (y - 1) div 100 + (y - 1) div 400 +
     sum_list (map (days_in y) [1..m - 1]) + (d - 1)"

definition parse_rfc3339 :: "string \<Rightarrow> instant option" where
  "parse_rfc3339 s0 = do {
     (y, s1) \<leftarrow> fixed_num 4 s0;
     s2 \<leftarrow> expect (CHR ''-'') s1;
     (mo, s3) \<leftarrow> fixed_num 2 s2;
     s4 \<leftarrow> expect (CHR ''-'') s3;
     (d, s5) \<leftarrow> fixed_num 2 s4;
     s6 \<leftarrow> expect (CHR ''T'') s5;
     (h, s7) \<leftarrow> hour_num s6;
     s8 \<leftarrow> expect (CHR '':'') s7;
     (mi, s9) \<leftarrow> fixed_num 2 s8;
     s10 \<leftarrow> expect (CHR '':'') s9;
     (sec, s11) \<leftarrow> fixed_num 2 s10;
     let (nsec, s12) = fraction s11;
     (off, rest) \<leftarrow> zone_offset s12;
     (if rest = [] \<and> 1 \<le> mo \<and> mo \<le> 12 \<and> 1 \<le> d \<and> d \<le> days_in y mo \<and> h < 24 \<and> mi < 60 \<and> sec < 60
      then Some (((civil_day y mo d * 24 + h) * 60 + mi) * 60 * second + (sec - off) * second + nsec)
      else None)
   }"

text \<open>\<^verbatim>\<open>Time.UnmarshalJSON\<close>: the text between the quotes, escapes not resolved.\<close>

definition decode_time :: "instant raw_decoder" where
  "decode_time raw cur =
     (if raw = ''null'' then (cur, True)
      else if length raw < 2 \<or> hd raw \<noteq> CHR 0x22 \<or> last raw \<noteq> CHR 0x22 then (cur, False)
      else case parse_rfc3339 (butlast (tl raw)) of Some t \<Rightarrow> (t, True) | None \<Rightarrow> (0, False))"

lemma time_examples:
  "parse_rfc3339 ''0001-01-01T00:00:00Z'' = Some 0"
  "parse_rfc3339 ''1970-01-01T00:00:00.5Z'' = Some (62135596800 * second + 500 * millisecond)"
  "parse_rfc3339 ''2024-02-29T23:59:59+02:00'' = Some (63844840799 * second)"
  "parse_rfc3339 ''2023-02-29T00:00:00Z'' = None"
  by code_simp+

lemma raw_example:
  \<open>raw_object ''{"a" : [1, 2] ,"b":null}'' = Some [(''a'', ''[1, 2]''), (''b'', ''null'')]\<close>
  by code_simp

end
