(* ===== verification/BeruIngest.thy ===== *)
theory BeruIngest
  imports BeruRouter GoDecodeRaw Tracing
begin

text \<open>
  The ways a report enters Beru: the HTTP endpoints (\<^verbatim>\<open>internal/api\<close>), the gRPC traffic
  reporter (\<^verbatim>\<open>internal/server\<close>) and Envoy's external processing stream
  (\<^verbatim>\<open>internal/envoyextproc\<close>).  A server is configured with or without a router and a run
  store.  A response is a status code with a body; JSON bodies of the trace endpoint are kept as
  the values they encode.
\<close>

section \<open>HTTP\<close>

record http_request =
  q_method :: string
  q_path :: string
  q_query :: "string \<Rightarrow> string"
  q_body :: "bytes option"

datatype reply_body =
    Text string
  | TraceBody string string "raw_report list" "verdict_state option" "string option"

record reply =
  rp_status :: int
  rp_body :: reply_body

definition http_error :: "string \<Rightarrow> int \<Rightarrow> reply" where
  "http_error msg code = \<lparr>rp_status = code, rp_body = Text (msg @ [CHR 0x0A])\<rparr>"

definition json_reply :: "int \<Rightarrow> jval \<Rightarrow> reply" where
  "json_reply code v = \<lparr>rp_status = code, rp_body = Text (json_marshal v @ [CHR 0x0A])\<rparr>"

abbreviation "method_not_allowed \<equiv> http_error ''Method Not Allowed'' 405"
abbreviation "bad_request \<equiv> http_error ''Bad Request'' 400"
abbreviation "service_unavailable \<equiv> http_error ''Service Unavailable'' 503"

record api_server =
  as_router :: bool
  as_db :: "postgres_store option"

definition default_name :: "api_server \<Rightarrow> string" where
  "default_name srv = (case as_db srv of Some p \<Rightarrow> default_shadow_test_name p | None \<Rightarrow> [])"

definition handle_healthz :: "http_request \<Rightarrow> reply" where
  "handle_healthz q =
     (if q_method q \<noteq> ''GET'' then method_not_allowed
      else json_reply 200 (JObj [(''status'', JStr ''ok'')]))"

text \<open>A handler's reply is built from the request before it reaches the router.\<close>

definition routed ::
  "pg_server \<Rightarrow> call_env \<Rightarrow> reply + raw_report \<Rightarrow> beru_state \<Rightarrow> reply \<times> beru_state" where
  "routed pg ce res s =
     (case res of
        Inl reply \<Rightarrow> (reply, s)
      | Inr r \<Rightarrow>
          (case route pg ce (Some r) s of
             (Inl e, s') \<Rightarrow> (service_unavailable, s')
           | (Inr _, s') \<Rightarrow> (json_reply 202 (JObj []), s')))"

subsection \<open>Egress diff\<close>

record egress_diff_request =
  ed_trace_id :: string
  ed_workload :: string
  ed_protocol :: string
  ed_signature :: string
  ed_payload :: string
  ed_shadow_test_name :: string

definition egress_request_zero :: egress_diff_request where
  "egress_request_zero = \<lparr>ed_trace_id = [], ed_workload = [], ed_protocol = [], ed_signature = [],
     ed_payload = [], ed_shadow_test_name = []\<rparr>"

definition decode_egress_request :: "egress_diff_request raw_decoder" where
  "decode_egress_request = decode_raw_struct
     [(''trace_id'', in_raw_field ed_trace_id (\<lambda>x. ed_trace_id_update (\<lambda>_. x)) (by_value decode_string)),
      (''workload'', in_raw_field ed_workload (\<lambda>x. ed_workload_update (\<lambda>_. x)) (by_value decode_string)),
      (''protocol'', in_raw_field ed_protocol (\<lambda>x. ed_protocol_update (\<lambda>_. x)) (by_value decode_string)),
      (''signature'', in_raw_field ed_signature (\<lambda>x. ed_signature_update (\<lambda>_. x)) (by_value decode_string)),
      (''payload'', in_raw_field ed_payload (\<lambda>x. ed_payload_update (\<lambda>_. x)) raw_message),
      (''shadow_test_name'', in_raw_field ed_shadow_test_name
         (\<lambda>x. ed_shadow_test_name_update (\<lambda>_. x)) (by_value decode_string))]"

definition egress_diff_report :: "api_server \<Rightarrow> instant \<Rightarrow> http_request \<Rightarrow> reply + raw_report" where
  "egress_diff_report srv now q =
     (if q_method q \<noteq> ''POST'' then Inl method_not_allowed
      else if \<not> as_router srv then Inl (http_error ''Egress diff not configured'' 503)
      else case Option.bind (q_body q) (unmarshal_raw decode_egress_request egress_request_zero) of
        None \<Rightarrow> Inl bad_request
      | Some req \<Rightarrow>
          if ed_trace_id req = [] \<or> ed_workload req = [] \<or> ed_protocol req = []
          then Inl (http_error ''trace_id, workload, and protocol are required'' 400)
          else if \<not> is_valid_role (ed_workload req) then Inl (http_error ''workload is invalid'' 400)
          else if ed_payload req = [] \<or> \<not> json_valid (ed_payload req)
          then Inl (http_error ''payload must be valid JSON'' 400)
          else
            let shadowTest = (if ed_shadow_test_name req = [] then default_name srv
                              else ed_shadow_test_name req)
            in case from_egress_with_signature now (ed_trace_id req) (ed_workload req)
                      (ed_protocol req) shadowTest (ed_signature req) (ed_payload req) of
                 Inl e \<Rightarrow> Inl bad_request
               | Inr r \<Rightarrow> Inr r)"

definition handle_egress_diff ::
  "pg_server \<Rightarrow> api_server \<Rightarrow> call_env \<Rightarrow> http_request \<Rightarrow> beru_state \<Rightarrow> reply \<times> beru_state" where
  "handle_egress_diff pg srv ce q s = routed pg ce (egress_diff_report srv (ca_now ce) q) s"

subsection \<open>Wire ingest\<close>

definition envelope_zero :: network_event_envelope where
  "envelope_zero = \<lparr>ne_trace_id = [], ne_pod_role = [], ne_shadow_test_name = [], ne_protocol = [],
     ne_direction = [], ne_timestamp = 0, ne_raw_request = [], ne_raw_response = [], ne_metadata = []\<rparr>"

definition decode_envelope :: "network_event_envelope raw_decoder" where
  "decode_envelope = decode_raw_struct
     [(''trace_id'', in_raw_field ne_trace_id (\<lambda>x. ne_trace_id_update (\<lambda>_. x)) (by_value decode_string)),
      (''pod_role'', in_raw_field ne_pod_role (\<lambda>x. ne_pod_role_update (\<lambda>_. x)) (by_value decode_string)),
      (''shadow_test_name'', in_raw_field ne_shadow_test_name
         (\<lambda>x. ne_shadow_test_name_update (\<lambda>_. x)) (by_value decode_string)),
      (''protocol'', in_raw_field ne_protocol (\<lambda>x. ne_protocol_update (\<lambda>_. x)) (by_value decode_string)),
      (''direction'', in_raw_field ne_direction (\<lambda>x. ne_direction_update (\<lambda>_. x)) (by_value decode_string)),
      (''timestamp'', in_raw_field ne_timestamp (\<lambda>x. ne_timestamp_update (\<lambda>_. x)) decode_time),
      (''raw_request'', in_raw_field ne_raw_request (\<lambda>x. ne_raw_request_update (\<lambda>_. x)) (by_value decode_string)),
      (''raw_response'', in_raw_field ne_raw_response (\<lambda>x. ne_raw_response_update (\<lambda>_. x)) (by_value decode_string)),
      (''metadata'', in_raw_field ne_metadata (\<lambda>x. ne_metadata_update (\<lambda>_. x)) (by_value decode_string))]"

definition wire_ingest_report :: "api_server \<Rightarrow> instant \<Rightarrow> http_request \<Rightarrow> reply + raw_report" where
  "wire_ingest_report srv now q =
     (if q_method q \<noteq> ''POST'' then Inl method_not_allowed
      else if \<not> as_router srv then Inl (http_error ''Wire ingest not configured'' 503)
      else case Option.bind (q_body q) (unmarshal_raw decode_envelope envelope_zero) of
        None \<Rightarrow> Inl bad_request
      | Some env0 \<Rightarrow>
          let env = (if ne_shadow_test_name env0 = [] then env0\<lparr>ne_shadow_test_name := default_name srv\<rparr>
                     else env0)
          in case from_wire_envelope now (Some env) of
               Inl e \<Rightarrow> Inl bad_request
             | Inr r \<Rightarrow> Inr (if r_shadow_test_name r = [] then r\<lparr>r_shadow_test_name := default_name srv\<rparr>
                             else r))"

definition handle_wire_ingest ::
  "pg_server \<Rightarrow> api_server \<Rightarrow> call_env \<Rightarrow> http_request \<Rightarrow> beru_state \<Rightarrow> reply \<times> beru_state" where
  "handle_wire_ingest pg srv ce q s = routed pg ce (wire_ingest_report srv (ca_now ce) q) s"

subsection \<open>Seeding\<close>

record seed_report_request =
  sd_trace_id :: string
  sd_shadow_role :: string
  sd_shadow_test_name :: string
  sd_protocol :: string
  sd_direction :: string
  sd_signature :: string
  sd_status_code :: string
  sd_payload :: string
  sd_captured_at :: instant

definition seed_request_zero :: seed_report_request where
  "seed_request_zero = \<lparr>sd_trace_id = [], sd_shadow_role = [], sd_shadow_test_name = [], sd_protocol = [],
     sd_direction = [], sd_signature = [], sd_status_code = [], sd_payload = [], sd_captured_at = 0\<rparr>"

definition decode_seed_request :: "seed_report_request raw_decoder" where
  "decode_seed_request = decode_raw_struct
     [(''trace_id'', in_raw_field sd_trace_id (\<lambda>x. sd_trace_id_update (\<lambda>_. x)) (by_value decode_string)),
      (''shadow_role'', in_raw_field sd_shadow_role (\<lambda>x. sd_shadow_role_update (\<lambda>_. x)) (by_value decode_string)),
      (''shadow_test_name'', in_raw_field sd_shadow_test_name
         (\<lambda>x. sd_shadow_test_name_update (\<lambda>_. x)) (by_value decode_string)),
      (''protocol'', in_raw_field sd_protocol (\<lambda>x. sd_protocol_update (\<lambda>_. x)) (by_value decode_string)),
      (''direction'', in_raw_field sd_direction (\<lambda>x. sd_direction_update (\<lambda>_. x)) (by_value decode_string)),
      (''signature'', in_raw_field sd_signature (\<lambda>x. sd_signature_update (\<lambda>_. x)) (by_value decode_string)),
      (''status_code'', in_raw_field sd_status_code (\<lambda>x. sd_status_code_update (\<lambda>_. x)) (by_value decode_string)),
      (''payload'', in_raw_field sd_payload (\<lambda>x. sd_payload_update (\<lambda>_. x)) raw_message),
      (''captured_at'', in_raw_field sd_captured_at (\<lambda>x. sd_captured_at_update (\<lambda>_. x)) decode_time)]"

definition decode_seed_body :: "seed_report_request list raw_decoder" where
  "decode_seed_body = decode_raw_struct [(''reports'', decode_raw_slice decode_seed_request seed_request_zero)]"

definition seed_report :: "instant \<Rightarrow> string \<Rightarrow> seed_report_request \<Rightarrow> reply + raw_report" where
  "seed_report now defaultTest req =
     (if sd_trace_id req = [] \<or> sd_shadow_role req = [] \<or> sd_protocol req = []
      then Inl (http_error ''each report needs trace_id, shadow_role, protocol'' 400)
      else if \<not> is_valid_role (sd_shadow_role req) then Inl (http_error ''shadow_role is invalid'' 400)
      else
        let dir = (if sd_direction req = DirectionIngress then DirectionIngress else DirectionEgress);
            name = (if sd_shadow_test_name req = [] then defaultTest else sd_shadow_test_name req);
            captured = (if sd_captured_at req = 0 then now else sd_captured_at req);
            payload = (if sd_payload req = [] then ''{}'' else sd_payload req);
            sig = (if sd_signature req = [] \<and> dir = DirectionEgress
                   then (case from_egress now (sd_trace_id req) (sd_shadow_role req) (sd_protocol req)
                                name payload of
                           Inr derived \<Rightarrow> r_signature derived | Inl e \<Rightarrow> sd_signature req)
                   else sd_signature req)
        in Inr \<lparr>r_trace_id = sd_trace_id req, r_shadow_role = sd_shadow_role req,
                r_shadow_test_name = name, r_protocol = sd_protocol req, r_direction = dir,
                r_signature = sig, r_status_code = sd_status_code req, r_payload = payload,
                r_captured_at = captured, r_ingest_id = 0\<rparr>)"

text \<open>The loop over the reports; each call of the router has its own environment.\<close>

fun seed_loop ::
  "pg_server \<Rightarrow> (nat \<Rightarrow> call_env) \<Rightarrow> string \<Rightarrow> nat \<Rightarrow> seed_report_request list \<Rightarrow> beru_state
     \<Rightarrow> reply \<times> beru_state" where
  "seed_loop pg ce defaultTest accepted [] s =
     (json_reply 202 (JObj [(''accepted'', JNum (itoa accepted))]), s)"
| "seed_loop pg ce defaultTest accepted (req # reqs) s =
     (case seed_report (ca_now (ce accepted)) defaultTest req of
        Inl reply \<Rightarrow> (reply, s)
      | Inr r \<Rightarrow>
          (case route pg (ce accepted) (Some r) s of
             (Inl e, s') \<Rightarrow> (service_unavailable, s')
           | (Inr _, s') \<Rightarrow> seed_loop pg ce defaultTest (accepted + 1) reqs s'))"

definition handle_seed_reports ::
  "pg_server \<Rightarrow> api_server \<Rightarrow> (nat \<Rightarrow> call_env) \<Rightarrow> http_request \<Rightarrow> beru_state \<Rightarrow> reply \<times> beru_state" where
  "handle_seed_reports pg srv ce q s =
     (if q_method q \<noteq> ''POST'' then (method_not_allowed, s)
      else if \<not> as_router srv then (http_error ''Seed not configured'' 503, s)
      else case q_body q of
        None \<Rightarrow> (bad_request, s)
      | Some raw \<Rightarrow>
          (case unmarshal_raw decode_seed_body [] raw of
             None \<Rightarrow> (http_error ''reports array required'' 400, s)
           | Some reqs \<Rightarrow>
               if reqs = [] then (http_error ''reports array required'' 400, s)
               else seed_loop pg ce (default_name srv) 0 reqs s))"

subsection \<open>Trace detail (traces.go)\<close>

definition trim_char :: "char \<Rightarrow> string \<Rightarrow> string" where
  "trim_char c s = rev (dropWhile (\<lambda>d. d = c) (rev (dropWhile (\<lambda>d. d = c) s)))"

definition normalize_http_direction :: "string \<Rightarrow> string \<Rightarrow> string" where
  "normalize_http_direction protocol direction0 =
     (if protocol \<noteq> ''http'' then []
      else
        let direction = trim_space direction0
        in if direction = DirectionIngress \<or> direction = DirectionEgress then direction
           else DirectionIngress)"

definition filter_by_protocol_and_direction ::
  "raw_report list \<Rightarrow> string \<Rightarrow> string \<Rightarrow> raw_report list" where
  "filter_by_protocol_and_direction reports protocol direction =
     filter (\<lambda>r. r_protocol r = protocol \<and> r_direction r = direction) reports"

definition handle_get_trace ::
  "pg_server \<Rightarrow> postgres_store option \<Rightarrow> http_request \<Rightarrow> db \<Rightarrow> reply" where
  "handle_get_trace pg repo q db =
     (if q_method q \<noteq> ''GET'' then method_not_allowed
      else case repo of
        None \<Rightarrow> http_error ''Storage not configured'' 503
      | Some p \<Rightarrow>
          let traceID = trim_char (CHR ''/'') (trim_prefix (q_path q) ''/api/v1/traces/'');
              protocol = q_query q ''protocol'';
              direction = normalize_http_direction protocol (q_query q ''direction'')
          in if traceID = [] \<or> protocol = [] then http_error ''trace id and protocol are required'' 400
             else case fst (list_reports pg p traceID protocol db) of
                    Inl e \<Rightarrow> http_error ''Trace not found'' 404
                  | Inr allReports \<Rightarrow>
                      let reports = (if protocol = ''http''
                                     then filter_by_protocol_and_direction allReports protocol direction
                                     else allReports);
                          verdict = (case fst (get_verdict pg p traceID db) of
                                       Inr v \<Rightarrow> v | Inl e \<Rightarrow> None)
                      in if reports = [] then http_error ''Trace not found'' 404
                         else \<lparr>rp_status = 200,
                               rp_body = TraceBody traceID protocol reports verdict
                                           (if direction = [] then None else Some direction)\<rparr>)"

section \<open>The traffic reporter (server.go)\<close>

datatype grpc_status = GrpcOk | GrpcUnavailable | GrpcUnknown

definition report_traffic ::
  "pg_server \<Rightarrow> bool \<Rightarrow> string \<Rightarrow> call_env \<Rightarrow> traffic_report option \<Rightarrow> beru_state
     \<Rightarrow> grpc_status \<times> beru_state" where
  "report_traffic pg hasRouter defaultTest ce req s =
     (case req of
        None \<Rightarrow> (GrpcOk, s)
      | Some r \<Rightarrow>
          if \<not> hasRouter then (GrpcOk, s)
          else (case from_traffic_report (ca_now ce) (Some r) defaultTest of
                  Inl e \<Rightarrow> (GrpcOk, s)
                | Inr raw \<Rightarrow>
                    (case route pg ce (Some raw) s of
                       (Inl e, s') \<Rightarrow> (GrpcUnavailable, s')
                     | (Inr _, s') \<Rightarrow> (GrpcOk, s'))))"

end
