(* ===== verification/BeruExtProc.thy ===== *)
theory BeruExtProc
  imports BeruIngest
begin

text \<open>
  \<^verbatim>\<open>pipeline/beru/internal/envoyextproc\<close>: Envoy's external processing stream of one
  HTTP exchange.  The protobuf messages are generated code; a message is what the handler reads
  of it: optional headers with a string and a raw value each, an optional body.
\<close>

record header_entry =
  hv_key :: string
  hv_value :: string
  hv_raw :: bytes

type_synonym header_map = "header_entry list"

datatype ext_request =
    RequestHeaders "header_map option"
  | ResponseHeaders "header_map option"
  | ResponseBody "bytes option"
  | OtherRequest

datatype ext_response =
    ContinueRequestHeaders
  | ContinueResponseHeaders
  | ContinueResponseBody

record ext_server =
  es_router :: bool
  es_role :: string
  es_default_test :: string

record stream_state =
  sm_trace_id :: string
  sm_role :: string
  sm_test_name :: string
  sm_method :: string
  sm_path :: string
  sm_response_meta :: "(string \<times> string) list"
  sm_response_status :: string
  sm_content_type :: string

definition headerShadowRole :: string where "headerShadowRole = ''x-shadow-role''"

definition header_value_from :: "header_entry \<Rightarrow> string" where
  "header_value_from h = (if hv_raw h \<noteq> [] then hv_raw h else hv_value h)"

definition header_value :: "header_map option \<Rightarrow> string \<Rightarrow> string" where
  "header_value headers key =
     (case headers of
        None \<Rightarrow> []
      | Some hs \<Rightarrow>
          (case find (\<lambda>h. to_lower (hv_key h) = to_lower key) hs of
             None \<Rightarrow> [] | Some h \<Rightarrow> header_value_from h))"

definition capture_request_headers ::
  "ext_server \<Rightarrow> header_map option \<Rightarrow> stream_state \<Rightarrow> stream_state" where
  "capture_request_headers srv headers st =
     (if headers = None then st
      else
        let role = header_value headers headerShadowRole;
            name = header_value headers ''x-shadow-test-name''
        in st\<lparr>sm_trace_id := trace_id_from_map headers header_value,
              sm_method := header_value headers '':method'',
              sm_path := header_value headers '':path'',
              sm_role := (if role \<noteq> [] then role else if sm_role st = [] then es_role srv else sm_role st),
              sm_test_name := (if name \<noteq> [] then name
                               else if es_default_test srv \<noteq> [] then es_default_test srv
                               else sm_test_name st)\<rparr>)"

definition capture_response_headers :: "header_map option \<Rightarrow> stream_state \<Rightarrow> stream_state" where
  "capture_response_headers headers st =
     (case headers of
        None \<Rightarrow> st
      | Some hs \<Rightarrow>
          st\<lparr>sm_response_status := header_value headers '':status'',
             sm_content_type := header_value headers ''content-type'',
             sm_response_meta :=
               foldl (\<lambda>m h. AList.update (to_lower (hv_key h)) (header_value_from h) m)
                 (sm_response_meta st) hs\<rparr>)"

text \<open>The report a response body leads to, if any.\<close>

definition body_report :: "instant \<Rightarrow> stream_state \<Rightarrow> bytes option \<Rightarrow> raw_report option" where
  "body_report now st body =
     (case body of
        None \<Rightarrow> None
      | Some data \<Rightarrow>
          if sm_trace_id st = [] \<or> sm_role st = [] \<or> data = [] then None
          else
            let meta = (if sm_response_status st \<noteq> []
                        then AList.update '':status'' (sm_response_status st) (sm_response_meta st)
                        else sm_response_meta st)
            in case from_http_ingress now (sm_trace_id st) (sm_role st) (sm_test_name st)
                      (sm_method st) (sm_path st) meta data (sm_content_type st) of
                 Inl e \<Rightarrow> None
               | Inr raw \<Rightarrow> Some raw)"

definition ingest_response_body ::
  "pg_server \<Rightarrow> ext_server \<Rightarrow> call_env \<Rightarrow> stream_state \<Rightarrow> bytes option \<Rightarrow> beru_state \<Rightarrow> beru_state" where
  "ingest_response_body pg srv ce st body s =
     (case body_report (ca_now ce) st body of
        None \<Rightarrow> s
      | Some raw \<Rightarrow> if es_router srv then snd (route pg ce (Some raw) s) else s)"

definition handle_request ::
  "pg_server \<Rightarrow> ext_server \<Rightarrow> call_env \<Rightarrow> ext_request \<Rightarrow> stream_state \<times> beru_state
     \<Rightarrow> ext_response \<times> stream_state \<times> beru_state" where
  "handle_request pg srv ce req ss =
     (case ss of (st, s) \<Rightarrow>
        (case req of
           RequestHeaders hs \<Rightarrow> (ContinueRequestHeaders, capture_request_headers srv hs st, s)
         | ResponseHeaders hs \<Rightarrow> (ContinueResponseHeaders, capture_response_headers hs st, s)
         | ResponseBody body \<Rightarrow> (ContinueResponseBody, st, ingest_response_body pg srv ce st body s)
         | OtherRequest \<Rightarrow> (ContinueRequestHeaders, st, s)))"

text \<open>The role of the stream: the first value of its metadata key, else the server's.\<close>

definition stream_start :: "ext_server \<Rightarrow> string list \<Rightarrow> stream_state" where
  "stream_start srv md =
     (let role = (case md of v # _ \<Rightarrow> if v \<noteq> [] then v else es_role srv | [] \<Rightarrow> es_role srv)
      in \<lparr>sm_trace_id = [], sm_role = role, sm_test_name = [], sm_method = [], sm_path = [],
          sm_response_meta = [], sm_response_status = [], sm_content_type = []\<rparr>)"

text \<open>
  What the stream delivers: messages, each with the environment it is handled in and whether its
  response can be sent, or a receive error; the end of the list is the end of the stream.
\<close>

datatype stream_event = Message ext_request call_env bool | ReceiveError

fun process_loop ::
  "pg_server \<Rightarrow> ext_server \<Rightarrow> stream_event list \<Rightarrow> stream_state \<times> beru_state
     \<Rightarrow> grpc_status \<times> ext_response list \<times> beru_state" where
  "process_loop pg srv [] ss = (GrpcOk, [], snd ss)"
| "process_loop pg srv (ReceiveError # es) ss = (GrpcUnknown, [], snd ss)"
| "process_loop pg srv (Message req ce sendOk # es) ss =
     (case handle_request pg srv ce req ss of
        (resp, ss') \<Rightarrow>
          if sendOk
          then (case process_loop pg srv es ss' of (code, resps, s') \<Rightarrow> (code, resp # resps, s'))
          else (GrpcUnknown, [], snd ss'))"

definition process_stream ::
  "pg_server \<Rightarrow> ext_server \<Rightarrow> string list \<Rightarrow> stream_event list \<Rightarrow> beru_state
     \<Rightarrow> grpc_status \<times> ext_response list \<times> beru_state" where
  "process_stream pg srv md events s = process_loop pg srv events (stream_start srv md, s)"

end
