(* ===== verification/BeruIngestProps.thy ===== *)
theory BeruIngestProps
  imports BeruExtProc BeruDiffSpec BeruReportProps
begin

text \<open>
  The reaper and the ingest endpoints: what a sweep leaves undecided, and what an acknowledgement
  promises.  The reaper is proved over an interface of trace repositories, which the PostgreSQL
  store provides.
\<close>

section \<open>Trace repositories\<close>

text \<open>
  A repository answers which traces are stale at a cutoff and what was reported of a trace, and
  saves verdicts.  Saving a verdict keeps the reports and takes exactly its trace off the list;
  a listed trace has a report from before the cutoff.
\<close>

locale trace_repository =
  fixes history :: "'s \<Rightarrow> string \<Rightarrow> raw_report list"
    and stale :: "instant \<Rightarrow> 's \<Rightarrow> string list"
    and save :: "string \<Rightarrow> verdict_state \<Rightarrow> 's \<Rightarrow> 's"
  assumes history_save: "history (save t v s) u = history s u"
    and stale_save: "set (stale c (save t v s)) = set (stale c s) - {t}"
    and stale_old: "t \<in> set (stale c s) \<Longrightarrow> \<exists>r \<in> set (history s t). r_captured_at r \<le> c"
begin

lemma sweep_history:
  "history (foldl (\<lambda>s t. case verdict s t of None \<Rightarrow> s | Some v \<Rightarrow> save t v s) s ts) u = history s u"
  by (induction ts arbitrary: s) (auto simp: history_save split: option.splits)

lemma sweep_stale:
  assumes "\<And>s' t. t \<in> set ts \<Longrightarrow> history s' t = history s t \<Longrightarrow> verdict s' t = None \<longleftrightarrow> skip t"
  shows "set (stale c (foldl (\<lambda>s t. case verdict s t of None \<Rightarrow> s | Some v \<Rightarrow> save t v s) s ts)) =
    set (stale c s) - {t \<in> set ts. \<not> skip t}"
  using assms
proof (induction ts arbitrary: s)
  case (Cons t ts)
  let ?s = "case verdict s t of None \<Rightarrow> s | Some v \<Rightarrow> save t v s"
  have "verdict s' u = None \<longleftrightarrow> skip u" if "u \<in> set ts" "history s' u = history ?s u" for s' u
    using Cons.prems [of u s'] that by (auto simp: history_save split: option.splits)
  from Cons.IH [of ?s, OF this]
  have "set (stale c (foldl (\<lambda>s t. case verdict s t of None \<Rightarrow> s | Some v \<Rightarrow> save t v s) ?s ts)) =
      set (stale c ?s) - {t \<in> set ts. \<not> skip t}" .
  moreover have "set (stale c ?s) = (if skip t then set (stale c s) else set (stale c s) - {t})"
    using Cons.prems [of t s] by (auto simp: stale_save split: option.splits)
  ultimately show ?case
    by auto
qed simp

text \<open>Sweeping the listed traces leaves only those listed that the sweep passes over.\<close>

lemma sweep_clears:
  assumes "\<And>s' t. t \<in> set (stale c s) \<Longrightarrow> history s' t = history s t \<Longrightarrow> verdict s' t = None \<longleftrightarrow> skip t"
  shows "set (stale c (foldl (\<lambda>s t. case verdict s t of None \<Rightarrow> s | Some v \<Rightarrow> save t v s) s (stale c s))) =
    {t \<in> set (stale c s). skip t}"
  using sweep_stale [of "stale c s" s verdict skip c] assms by auto

end

section \<open>The store as a trace repository\<close>

definition stale_traces :: "postgres_store \<Rightarrow> instant \<Rightarrow> db \<Rightarrow> string list" where
  "stale_traces p c db = map st_trace_id (stale_incomplete p c db)"

definition save_verdict :: "pg_server \<Rightarrow> postgres_store \<Rightarrow> string \<Rightarrow> verdict_state \<Rightarrow> db \<Rightarrow> db" where
  "save_verdict pg p t v db = save_effect pg p t v (select_reports p t [] db) db"

lemma stale_traces_iff:
  "t \<in> set (stale_traces p c db) \<longleftrightarrow>
     find_row verdict_key (replayExecutionID p, t) (db_verdicts db) = None \<and>
     (let rs = test_reports p t db
      in rs \<noteq> [] \<and> min_captured rs \<le> timestamptz c \<and>
         (role_count rs ControlA = 0 \<or> role_count rs ControlB = 0 \<or> role_count rs Candidate = 0))"
proof -
  have "set (stale_traces p c db) =
      {t \<in> r_trace_id ` set (undecided_rows p db).
         (let rs = filter (\<lambda>r. r_trace_id r = t) (undecided_rows p db)
          in min_captured rs \<le> timestamptz c \<and>
             (role_count rs ControlA = 0 \<or> role_count rs ControlB = 0 \<or> role_count rs Candidate = 0))}"
    unfolding stale_traces_def stale_incomplete_def Let_def undecided_rows_def by (simp add: image_image)
  then show ?thesis
    by (auto simp: undecided_traces undecided_of_trace Let_def)
qed

lemma set_select_reports:
  "r \<in> set (select_reports p t [] db) \<longleftrightarrow>
     (\<exists>x \<in> set (db_reports db). rr_exec x = replayExecutionID p \<and> r_trace_id (rr_report x) = t \<and>
        r = (rr_report x)\<lparr>r_ingest_id := 0\<rparr>)"
  by (auto simp: select_reports_def)

lemma test_reports_save [simp]: "test_reports p u (save_verdict pg p t v db) = test_reports p u db"
  by (simp add: test_reports_def save_verdict_def)

lemma find_verdict_save [simp]:
  "find_row verdict_key (replayExecutionID p, u) (db_verdicts (save_verdict pg p t v db)) =
     (if u = t then Some (verdict_row_of pg p t v (select_reports p t [] db))
      else find_row verdict_key (replayExecutionID p, u) (db_verdicts db))"
  by (auto simp: save_verdict_def put_fun_eq find_row_upsert)

interpretation pg_repo: trace_repository
  "\<lambda>db t. select_reports p t [] db" "stale_traces p" "save_verdict pg p" for pg p
proof
  show "select_reports p u [] (save_verdict pg p t v db) = select_reports p u [] db" for t v db u
    by (rule select_reports_cong) (simp add: save_verdict_def)
  show "set (stale_traces p c (save_verdict pg p t v db)) = set (stale_traces p c db) - {t}" for c t v db
    by (auto simp: stale_traces_iff find_verdict_save split: if_splits)
  show "\<exists>r \<in> set (select_reports p t [] db). r_captured_at r \<le> c" if "t \<in> set (stale_traces p c db)" for t c db
  proof -
    from that have "test_reports p t db \<noteq> []" "min_captured (test_reports p t db) \<le> timestamptz c"
      by (auto simp: stale_traces_iff Let_def)
    then obtain r where "r \<in> set (test_reports p t db)" "r_captured_at r \<le> timestamptz c"
      by (metis (no_types, lifting) min_captured_Min Min_in finite_imageI List.finite_set image_is_empty
          set_empty imageE)
    then show ?thesis
      by (force simp: test_reports_def set_select_reports timestamptz_def)
  qed
qed

section \<open>The reaper\<close>

definition reap_verdict ::
  "pg_server \<Rightarrow> postgres_store \<Rightarrow> (string \<Rightarrow> run_env) \<Rightarrow> duration \<Rightarrow> db \<Rightarrow> string \<Rightarrow> verdict_state option" where
  "reap_verdict pg p env timeout db t =
     (if t = [] then None
      else evaluate_history (env t) (select_reports p t [] db)
             (batch_noise pg p (select_reports p t [] db) db) timeout)"

lemma reap_trace_accepted:
  assumes "\<And>stmt. accepts pg stmt"
  shows "reap_trace pg p (env t) timeout t db =
    (case reap_verdict pg p env timeout db t of None \<Rightarrow> db | Some v \<Rightarrow> save_verdict pg p t v db)"
proof (cases "t = []")
  case True
  then show ?thesis
    by (simp add: reap_trace_def reap_verdict_def list_reports_def fail_def)
next
  case False
  let ?h = "select_reports p t [] db"
  have list: "list_reports pg p t [] db = (Inr ?h, db)"
    using False assms by (simp add: list_reports_ok)
  have save: "save_diff_verdict pg p t (Some v) db = (Inr (), save_verdict pg p t v db)" for v
    using False assms by (simp add: save_diff_verdict_ok save_accepted_def save_verdict_def)
  show ?thesis
    using False by (simp add: reap_trace_def list Let_def reap_verdict_def save split: option.splits)
qed

lemma reap_once_accepted:
  assumes "\<And>stmt. accepts pg stmt"
  shows "reap_once pg p env timeout now db =
    foldl (\<lambda>db t. case reap_verdict pg p env timeout db t of None \<Rightarrow> db | Some v \<Rightarrow> save_verdict pg p t v db)
      db (stale_traces p (now - timeout) db)"
  using assms
  by (simp add: reap_once_def list_stale_incomplete_traces_def query_sql_def stale_traces_def
      foldl_map reap_trace_accepted [OF assms])

lemma sweep_keeps_verdict:
  "t \<notin> set ts \<Longrightarrow>
   find_row verdict_key (replayExecutionID p, t) (db_verdicts
     (foldl (\<lambda>db t. case verdict db t of None \<Rightarrow> db | Some v \<Rightarrow> save_verdict pg p t v db) db ts)) =
   find_row verdict_key (replayExecutionID p, t) (db_verdicts db)"
  by (induction ts arbitrary: db) (auto split: option.splits)

lemma stale_trace_decided:
  assumes "t \<in> set (stale_traces p (now - timeout) db)" "t \<noteq> []"
    and "0 < timeout" "timeout < 2 ^ 63" "now \<le> clock_now (env t)"
    and "select_reports p t [] db' = select_reports p t [] db"
  shows "reap_verdict pg p env timeout db' t \<noteq> None"
proof -
  let ?h = "select_reports p t [] db"
  from pg_repo.stale_old [OF assms(1)] obtain r where r: "r \<in> set ?h" "r_captured_at r \<le> now - timeout"
    by blast
  then have ne: "?h \<noteq> []"
    by auto
  have "earliest_captured ?h \<le> now - timeout"
    using r ne by (auto simp: earliest_captured_eq intro: order_trans [OF Min_le])
  then have "timeout \<le> time_sub (clock_now (env t)) (earliest_captured ?h)"
    using assms(3-5) by (subst time_sub_ge_iff) auto
  then show ?thesis
    using assms(2,3) by (simp add: reap_verdict_def assms(6) evaluate_history_def evaluate_trace_history_def Let_def)
qed

text \<open>
  C13: The reaper leaves nothing undecided: after one sweep over a reachable store, a trace that was
  overdue when the sweep began (incomplete for longer than the time-out) is no longer listed, or
  it is the trace with the empty id, which the store refuses to load; and a sweep never touches
  the verdict of a trace that was not overdue.
\<close>

theorem reaper_decides_overdue:
  assumes "\<And>stmt. accepts pg stmt" "0 < timeout" "timeout < 2 ^ 63" "\<And>t. now \<le> clock_now (env t)"
  shows "st_trace_id ` set (stale_incomplete p (now - timeout) (reap_once pg p env timeout now db)) \<subseteq> {[]} \<and>
    (t \<notin> st_trace_id ` set (stale_incomplete p (now - timeout) db) \<longrightarrow>
      find_row verdict_key (replayExecutionID p, t) (db_verdicts (reap_once pg p env timeout now db)) =
      find_row verdict_key (replayExecutionID p, t) (db_verdicts db))"
proof -
  let ?c = "now - timeout"
  have eq: "st_trace_id ` set (stale_incomplete p ?c db) = set (stale_traces p ?c db)" for db
    by (simp add: stale_traces_def)
  have "set (stale_traces p ?c (reap_once pg p env timeout now db)) = {t \<in> set (stale_traces p ?c db). t = []}"
    unfolding reap_once_accepted [OF assms(1)]
    by (rule pg_repo.sweep_clears)
       (use stale_trace_decided [OF _ _ assms(2-4)] in \<open>auto simp: reap_verdict_def\<close>)
  moreover have "find_row verdict_key (replayExecutionID p, t)
      (db_verdicts (reap_once pg p env timeout now db)) =
      find_row verdict_key (replayExecutionID p, t) (db_verdicts db)" if "t \<notin> set (stale_traces p ?c db)"
    unfolding reap_once_accepted [OF assms(1)] by (rule sweep_keeps_verdict [OF that])
  ultimately show ?thesis
    unfolding eq by blast
qed

section \<open>Acknowledgements\<close>

definition acceptable :: "raw_report \<Rightarrow> bool" where
  "acceptable r \<longleftrightarrow>
     r_trace_id r \<noteq> [] \<and> is_valid_role (r_shadow_role r) \<and> r_protocol r \<noteq> [] \<and> r_payload r \<noteq> []"

text \<open>
  What a handler's outcome promises, given the reply or report the request alone leads to: 202
  exactly when the report was written to the log under the next sequence number.
\<close>

definition acknowledges :: "reply + raw_report \<Rightarrow> beru_state \<Rightarrow> reply \<times> beru_state \<Rightarrow> bool" where
  "acknowledges res s out \<longleftrightarrow>
     (case out of (rep, s') \<Rightarrow>
        db_reports (bs_db s') = db_reports (bs_db s) \<and>
        (if rp_status rep = 202
         then \<exists>r. res = Inr r \<and> acceptable r \<and> wl_seq (bs_log s') = wl_seq (bs_log s) + 1 \<and>
                map_of (wl_bucket (bs_log s')) (wl_seq (bs_log s')) =
                  Some (Pending \<lparr>we_retry = 0, we_report = json_report r\<rparr>)
         else rp_status rep \<in> {400, 405, 503} \<and>
              set (wl_bucket (bs_log s')) \<subseteq> set (wl_bucket (bs_log s))))"

lemma map_of_put_self: "map_of (bucket_put k v b) k = Some v"
  by (induction k v b rule: bucket_put.induct) auto

lemma set_maybe_drop_head: "set (maybe_drop_head n b) \<subseteq> set b"
  by (auto simp: maybe_drop_head_def dest: in_set_dropD)

lemma ensure_shadow_test_reports [simp]:
  "db_reports (snd (ensure_shadow_test pg now name db)) = db_reports db"
  by (auto simp: ensure_shadow_test_def bind_db_def query_sql_def exec_sql_def ret_def Let_def split: prod.splits)

lemma route_outcome:
  assumes "route pg ce (Some r) s = (res, s')"
  shows "db_reports (bs_db s') = db_reports (bs_db s) \<and>
    (case res of
       Inr u \<Rightarrow> wl_seq (bs_log s') = wl_seq (bs_log s) + 1 \<and>
         map_of (wl_bucket (bs_log s')) (wl_seq (bs_log s')) =
           Some (Pending \<lparr>we_retry = 0, we_report = json_report r\<rparr>)
     | Inl e \<Rightarrow> set (wl_bucket (bs_log s')) \<subseteq> set (wl_bucket (bs_log s)))"
  using assms
  by (auto simp: route_def wal_append_report_def append_wal_def Let_def map_of_put_self
      dest: subsetD [OF set_maybe_drop_head] split: prod.splits sum.splits if_splits)

lemma routed_acknowledges:
  assumes "case res of Inl rep \<Rightarrow> rp_status rep \<in> {400, 405, 503} | Inr r \<Rightarrow> acceptable r"
  shows "acknowledges res s (routed pg ce res s)"
proof (cases res)
  case (Inl rep)
  then show ?thesis
    using assms by (auto simp: acknowledges_def routed_def)
next
  case (Inr r)
  obtain res' s' where route: "route pg ce (Some r) s = (res', s')"
    by fastforce
  show ?thesis
    using assms Inr route_outcome [OF route]
    by (cases res') (auto simp: acknowledges_def routed_def route http_error_def json_reply_def)
qed

lemma from_wire_acceptable: "from_wire_envelope clock (Some e) = Inr r \<Longrightarrow> acceptable r"
  using normalize_wire_trace_id_lower_hex
  by (fastforce simp: from_wire_envelope_def acceptable_def Let_def lower_hex_def wire_stored_payload_def
      split: sum.splits if_splits)

text \<open>
  C14: An ingest endpoint acknowledges (202) exactly the reports it has made durable: the reply is
  202 only after the report, with a trace id, a known role, a protocol and a payload, was written
  to the write-ahead log under the next sequence number; otherwise the reply is 400, 405 or 503 and
  the log has gained nothing.  Neither endpoint touches the stored reports.
\<close>

theorem ingest_acknowledges_durable:
  "acknowledges (egress_diff_report srv (ca_now ce) q) s (handle_egress_diff pg srv ce q s) \<and>
   acknowledges (wire_ingest_report srv (ca_now ce) q) s (handle_wire_ingest pg srv ce q s)"
proof
  show "acknowledges (egress_diff_report srv (ca_now ce) q) s (handle_egress_diff pg srv ce q s)"
    unfolding handle_egress_diff_def
    by (rule routed_acknowledges)
      (auto simp: egress_diff_report_def http_error_def from_egress_with_signature_def acceptable_def Let_def
        split: option.splits sum.splits if_splits)
  show "acknowledges (wire_ingest_report srv (ca_now ce) q) s (handle_wire_ingest pg srv ce q s)"
    unfolding handle_wire_ingest_def
    by (rule routed_acknowledges)
      (auto simp: wire_ingest_report_def http_error_def Let_def
        split: option.splits sum.splits if_splits dest!: from_wire_acceptable simp: acceptable_def)
qed

section \<open>Envoy's stream\<close>

lemma go_get_meta:
  "go_get [] (foldl (\<lambda>m h. AList.update (to_lower (hv_key h)) (header_value_from h) m) m0 hs) k =
     (case find (\<lambda>h. to_lower (hv_key h) = k) (rev hs) of Some h \<Rightarrow> header_value_from h | None \<Rightarrow> go_get [] m0 k)"
  by (induction hs rule: rev_induct) auto

text \<open>
  A complete exchange on Envoy's stream is answered with three continue responses, whatever
  the store does, and routed as one ingress report: the trace id of its traceparent (or request
  id), the role and test name its headers give (else those of the stream and the server), the
  signature of its method and path, its status code and its normalised body.
\<close>

theorem ext_proc_exchange:
  assumes "trace_id_from_map (Some hs) header_value = tid" "tid \<noteq> []"
    and "role = (if header_value (Some hs) headerShadowRole \<noteq> [] then header_value (Some hs) headerShadowRole
                 else sm_role (stream_start srv md))" "role \<noteq> []"
    and "header_value (Some hs) ''x-shadow-test-name'' = name" "name \<noteq> []"
    and "header_value (Some hs) '':method'' = verb" "verb \<noteq> []"
    and "header_value (Some hs) '':path'' = path" "path \<noteq> []"
    and "header_value (Some rs) '':status'' = code" "code \<noteq> []"
    and "\<not> list_ex (\<lambda>h. to_lower (hv_key h) = ''shadow_test_name'') rs"
    and "body \<noteq> []" "registry_normalize body (header_value (Some rs) ''content-type'') = Inr (data, codec)"
  shows "process_stream pg srv md
      [Message (RequestHeaders (Some hs)) c1 True, Message (ResponseHeaders (Some rs)) c2 True,
       Message (ResponseBody (Some body)) c3 True] s =
    (GrpcOk, [ContinueRequestHeaders, ContinueResponseHeaders, ContinueResponseBody],
     if es_router srv
     then snd (route pg c3 (Some \<lparr>r_trace_id = tid, r_shadow_role = role, r_shadow_test_name = name,
        r_protocol = ''http'', r_direction = DirectionIngress, r_signature = http_signature verb path,
        r_status_code = code, r_payload = data, r_captured_at = ca_now c3, r_ingest_id = 0\<rparr>) s)
     else s)"
proof -
  have "find (\<lambda>h. to_lower (hv_key h) = ''shadow_test_name'') (rev rs) = None"
    using assms(13) by (auto simp: find_None_iff list_ex_iff)
  then show ?thesis
    using assms
    by (cases md) (auto simp: process_stream_def stream_start_def handle_request_def capture_request_headers_def
        capture_response_headers_def ingest_response_body_def body_report_def from_http_ingress_def
        ingress_name_def meta_or_def go_get_meta)
qed

section \<open>Witnesses\<close>

definition sample_overdue :: db where
  "sample_overdue = insert_all sample_store [sample_report ControlA 1 (100 * second)] empty_db"

theorem reaper_decides_overdue_witness:
  "st_trace_id ` set (stale_incomplete sample_store (90 * second) sample_overdue) = {} \<and>
   st_trace_id ` set (stale_incomplete sample_store (100 * second) sample_overdue) = {''t1''} \<and>
   st_trace_id ` set (stale_incomplete sample_store (110 * second - 10 * second)
     (reap_once sample_server sample_store (\<lambda>_. sample_env\<lparr>clock_now := 111 * second\<rparr>) (10 * second)
        (110 * second) sample_overdue)) \<subseteq> {[]}"
proof (intro conjI)
  show "st_trace_id ` set (stale_incomplete sample_store (90 * second) sample_overdue) = {}"
    "st_trace_id ` set (stale_incomplete sample_store (100 * second) sample_overdue) = {''t1''}"
    by code_simp+
qed (rule reaper_decides_overdue [THEN conjunct1]; simp add: sample_server_def)

definition sample_headers :: header_map where
  "sample_headers =
     [\<lparr>hv_key = ''Traceparent'', hv_value = [],
       hv_raw = ''00-0af7651916cd43dd8448eb211c80319c-b7ad6b7169203331-01''\<rparr>,
      \<lparr>hv_key = '':method'', hv_value = ''POST'', hv_raw = []\<rparr>,
      \<lparr>hv_key = '':path'', hv_value = ''/orders'', hv_raw = []\<rparr>,
      \<lparr>hv_key = ''x-shadow-test-name'', hv_value = ''checkout'', hv_raw = []\<rparr>]"

definition sample_exchange :: "beru_state \<Rightarrow> grpc_status \<times> ext_response list \<times> beru_state" where
  "sample_exchange s =
     (let ce = \<lparr>ca_now = 100 * second, ca_file_size = 0, ca_drop_ok = True, ca_bolt_ok = True\<rparr>
      in process_stream sample_server \<lparr>es_router = True, es_role = ''candidate'', es_default_test = []\<rparr> []
           [Message (RequestHeaders (Some sample_headers)) ce True,
            Message (ResponseHeaders (Some [\<lparr>hv_key = '':status'', hv_value = ''201'', hv_raw = []\<rparr>])) ce True,
            Message (ResponseBody (Some ''{}'')) ce True] s)"

theorem ext_proc_exchange_witness:
  "\<exists>s'. sample_exchange \<lparr>bs_db = empty_db, bs_log = reopen_wal []\<rparr> =
     (GrpcOk, [ContinueRequestHeaders, ContinueResponseHeaders, ContinueResponseBody], s')"
  unfolding sample_exchange_def Let_def
  by (rule exI, rule ext_proc_exchange [where role = "''candidate''"
        and tid = "''0af7651916cd43dd8448eb211c80319c''" and verb = "''POST''" and path = "''/orders''"
        and name = "''checkout''" and code = "''201''" and data = "''{}''" and codec = "''json''"]; code_simp)

end
