(* ===== verification/KaiselCapture.thy ===== *)
theory KaiselCapture
  imports GoHash
begin

text \<open>
  \<^verbatim>\<open>pipeline/kaisel/internal/capture\<close>: reassembly of chunked packets
  (\<^verbatim>\<open>chunk.go\<close>), the perf reader's loop (\<^verbatim>\<open>perf_source.go\<close>), and the parts of
  \<^verbatim>\<open>capture.go\<close> that decide what the kernel program filters on.  The kernel's maps are
  functions on keys; loading, attaching and reading the kernel objects are the arguments'
  answers.
\<close>

section \<open>Chunk reassembly (chunk.go)\<close>

definition chunkSize :: nat where "chunkSize = 4096"
definition maxChunks :: nat where "maxChunks = 32"
definition maxPacketBytes :: nat where "maxPacketBytes = chunkSize * maxChunks"

record pkt_meta =
  m_len :: "32 word"
  m_orig_len :: "32 word"
  m_offset :: "32 word"
  m_more :: "32 word"

record partial_packet =
  pa_buf :: bytes
  pa_orig_len :: "32 word"
  pa_covered :: "32 word"

record reassembler =
  per_cpu :: "(int \<times> partial_packet) list"
  ra_discarded :: "64 word"
  ra_oversized :: "64 word"

definition new_reassembler :: reassembler where
  "new_reassembler = \<lparr>per_cpu = [], ra_discarded = 0, ra_oversized = 0\<rparr>"

definition drop_cpu :: "int \<Rightarrow> reassembler \<Rightarrow> reassembler" where
  "drop_cpu cpu r =
     (if map_of (per_cpu r) cpu = None then r
      else r\<lparr>per_cpu := AList.delete cpu (per_cpu r), ra_discarded := ra_discarded r + 1\<rparr>)"

text \<open>\<^verbatim>\<open>copy(buf[off:], data)\<close>, for an offset inside the buffer.\<close>

definition copy_at :: "nat \<Rightarrow> bytes \<Rightarrow> bytes \<Rightarrow> bytes" where
  "copy_at off data buf =
     take off buf @ take (length buf - off) data @ drop (off + length data) buf"

text \<open>The bytes of a finished packet, its length on the wire and whether it is cut short.\<close>

type_synonym assembled = "bytes \<times> 32 word \<times> bool"

definition push :: "int \<Rightarrow> pkt_meta \<Rightarrow> bytes \<Rightarrow> reassembler \<Rightarrow> assembled option \<times> reassembler" where
  "push cpu m data0 r =
     (if m_orig_len m = 0 \<or> m_orig_len m > of_nat maxPacketBytes
      then (None, drop_cpu cpu (r\<lparr>ra_oversized := ra_oversized r + 1\<rparr>))
      else
        let data = (if of_nat (length data0) > m_len m then take (unat (m_len m)) data0 else data0)
        in if m_offset m = 0 \<and> m_more m = 0 \<and> m_len m = m_orig_len m
           then (Some (data, m_orig_len m, of_nat (length data) < m_orig_len m), drop_cpu cpu r)
           else
             let opened =
                   (if m_offset m = 0
                    then let p = \<lparr>pa_buf = replicate (unat (m_orig_len m)) (CHR 0x00),
                                  pa_orig_len = m_orig_len m, pa_covered = 0\<rparr>
                         in Some (p, drop_cpu cpu r)
                    else case map_of (per_cpu r) cpu of
                           Some p \<Rightarrow> if pa_orig_len p = m_orig_len m then Some (p, r) else None
                         | None \<Rightarrow> None)
             in case opened of
                  None \<Rightarrow> (None, drop_cpu cpu r)
                | Some (p, r1) \<Rightarrow>
                    let p' =
                          (if m_offset m < of_nat (length (pa_buf p))
                           then let n = min (length (pa_buf p) - unat (m_offset m)) (length data);
                                    stop = m_offset m + of_nat n
                                in p\<lparr>pa_buf := copy_at (unat (m_offset m)) data (pa_buf p),
                                     pa_covered := (if stop > pa_covered p then stop else pa_covered p)\<rparr>
                           else p)
                    in if m_more m \<noteq> 0
                       then (None, r1\<lparr>per_cpu := AList.update cpu p' (per_cpu r1)\<rparr>)
                       else (Some (pa_buf p', pa_orig_len p', pa_covered p' < pa_orig_len p'),
                             r1\<lparr>per_cpu := AList.delete cpu (per_cpu r1)\<rparr>))"

section \<open>The kernel's chunks (bpf/capture.c)\<close>

text \<open>The events one packet of at least one byte is emitted as, when every read succeeds.\<close>

definition split_last :: "nat \<Rightarrow> nat \<Rightarrow> bool" where
  "split_last n i \<longleftrightarrow> n \<le> i * chunkSize + chunkSize \<or> i = maxChunks - 1"

fun split_from :: "nat \<Rightarrow> nat \<Rightarrow> bytes \<Rightarrow> (pkt_meta \<times> bytes) list" where
  "split_from 0 i p = []"
| "split_from (Suc f) i p =
     (if length p \<le> i * chunkSize then []
      else
        let last = split_last (length p) i;
            off = (if last then length p - chunkSize else i * chunkSize);
            ev = (\<lparr>m_len = of_nat chunkSize, m_orig_len = of_nat (length p), m_offset = of_nat off,
                   m_more = (if last then 0 else 1)\<rparr>, take chunkSize (drop off p))
        in if last then [ev] else ev # split_from f (Suc i) p)"

definition split_packet :: "bytes \<Rightarrow> (pkt_meta \<times> bytes) list" where
  "split_packet p =
     (if length p \<le> chunkSize
      then [(\<lparr>m_len = of_nat (length p), m_orig_len = of_nat (length p), m_offset = 0, m_more = 0\<rparr>, p)]
      else split_from maxChunks 0 p)"

section \<open>The perf reader (perf_source.go)\<close>

record perf_record =
  pr_cpu :: int
  pr_raw :: bytes
  pr_lost :: "64 word"

record packet_event =
  ev_data :: bytes
  ev_orig_len :: "32 word"
  ev_truncated :: bool
  ev_lost :: "64 word"

text \<open>What the ring buffer reader returns, and what \<^verbatim>\<open>Read\<close> returns.\<close>

datatype perf_item = PerfRecord perf_record | PerfClosed | PerfError string

datatype read_result = Event packet_event | SourceClosed | ReadError string | Blocked

definition metaSize :: nat where "metaSize = 16"

text \<open>Integers in the byte order of the machine; the argument says whether it is big-endian.\<close>

definition native_u32 :: "bool \<Rightarrow> bytes \<Rightarrow> 32 word" where
  "native_u32 bigEndian bs = be_word (if bigEndian then bs else rev bs)"

definition decode_meta :: "bool \<Rightarrow> bytes \<Rightarrow> pkt_meta" where
  "decode_meta be raw =
     \<lparr>m_len = native_u32 be (take 4 raw), m_orig_len = native_u32 be (take 4 (drop 4 raw)),
      m_offset = native_u32 be (take 4 (drop 8 raw)), m_more = native_u32 be (take 4 (drop 12 raw))\<rparr>"

fun read_event ::
  "bool \<Rightarrow> perf_item list \<Rightarrow> reassembler \<Rightarrow> read_result \<times> perf_item list \<times> reassembler" where
  "read_event be [] r = (Blocked, [], r)"
| "read_event be (PerfClosed # items) r = (SourceClosed, items, r)"
| "read_event be (PerfError e # items) r = (ReadError e, items, r)"
| "read_event be (PerfRecord rec # items) r =
     (let r1 = (if pr_lost rec > 0 then drop_cpu (pr_cpu rec) r else r)
      in if pr_lost rec > 0 \<and> pr_raw rec = []
         then (Event \<lparr>ev_data = [], ev_orig_len = 0, ev_truncated = False, ev_lost = pr_lost rec\<rparr>, items, r1)
         else if length (pr_raw rec) < metaSize then read_event be items r1
         else
           (case push (pr_cpu rec) (decode_meta be (take metaSize (pr_raw rec)))
                   (drop metaSize (pr_raw rec)) r1 of
              (None, r2) \<Rightarrow> read_event be items r2
            | (Some (data, origLen, truncated), r2) \<Rightarrow>
                (Event \<lparr>ev_data = data, ev_orig_len = origLen, ev_truncated = truncated,
                        ev_lost = pr_lost rec\<rparr>, items, r2)))"

end
