(* ===== verification/KaiselCaptureProps.thy ===== *)
theory KaiselCaptureProps
  imports KaiselCapture "HOL-Library.Sublist"
begin

text \<open>
  Reassembly: what comes out of the chunks of a packet sequence, whatever is lost on the way, as
  long as losses are reported.
\<close>

section \<open>The chunks of a packet\<close>

definition chunk_count :: "bytes \<Rightarrow> nat" where
  "chunk_count p = max 1 (min maxChunks ((length p + chunkSize - 1) div chunkSize))"

definition chunk_of :: "bytes \<Rightarrow> nat \<Rightarrow> pkt_meta \<times> bytes" where
  "chunk_of p i =
     (if length p \<le> chunkSize
      then (\<lparr>m_len = of_nat (length p), m_orig_len = of_nat (length p), m_offset = 0, m_more = 0\<rparr>, p)
      else
        let last = Suc i = chunk_count p;
            off = (if last then length p - chunkSize else i * chunkSize)
        in (\<lparr>m_len = of_nat chunkSize, m_orig_len = of_nat (length p), m_offset = of_nat off,
             m_more = (if last then 0 else 1)\<rparr>, take chunkSize (drop off p)))"

lemma split_last_iff:
  assumes "chunkSize < length p" "i * chunkSize < length p" "i < maxChunks"
  shows "split_last (length p) i \<longleftrightarrow> Suc i = chunk_count p"
  using assms by (auto simp: split_last_def chunk_count_def chunkSize_def maxChunks_def)

lemma chunk_index:
  assumes "chunkSize < length p" "i < chunk_count p"
  shows "i * chunkSize < length p" "i < maxChunks"
  using assms by (auto simp: chunk_count_def chunkSize_def maxChunks_def)

lemma split_from_chunks:
  assumes "chunkSize < length p" "i < chunk_count p" "chunk_count p \<le> i + f"
  shows "split_from f i p = map (chunk_of p) [i..<chunk_count p]"
  using assms(2,3)
proof (induction f arbitrary: i)
  case (Suc f)
  have range: "i * chunkSize < length p" "i < maxChunks"
    using chunk_index [OF assms(1) Suc.prems(1)] by simp_all
  have last: "split_last (length p) i \<longleftrightarrow> Suc i = chunk_count p"
    using split_last_iff [OF assms(1) range] .
  show ?case
  proof (cases "Suc i = chunk_count p")
    case True
    then have "[i..<chunk_count p] = [i]"
      using Suc.prems by (simp add: upt_rec)
    then show ?thesis
      using range assms(1) True last by (simp add: chunk_of_def Let_def)
  next
    case False
    then have "[i..<chunk_count p] = i # [Suc i..<chunk_count p]" "Suc i < chunk_count p"
      using Suc.prems by (simp_all add: upt_rec)
    then show ?thesis
      using range assms(1) False last Suc by (simp add: chunk_of_def Let_def)
  qed
qed simp

lemma split_packet_chunks: "split_packet p = map (chunk_of p) [0..<chunk_count p]"
proof (cases "length p \<le> chunkSize")
  case True
  then have "chunk_count p = 1"
    by (cases p) (auto simp: chunk_count_def chunkSize_def maxChunks_def)
  then show ?thesis
    using True by (simp add: split_packet_def chunk_of_def)
next
  case False
  moreover have "0 < chunk_count p" "chunk_count p \<le> maxChunks"
    by (simp_all add: chunk_count_def maxChunks_def)
  ultimately show ?thesis
    using split_from_chunks [of p 0 maxChunks] by (simp add: split_packet_def)
qed

section \<open>One CPU\<close>

datatype input = Chunk "pkt_meta \<times> bytes" | Loss

definition take_input :: "int \<Rightarrow> input \<Rightarrow> reassembler \<Rightarrow> assembled option \<times> reassembler" where
  "take_input cpu x r = (case x of Chunk (m, d) \<Rightarrow> push cpu m d r | Loss \<Rightarrow> (None, drop_cpu cpu r))"

text \<open>Of the state of a CPU, only the packet it is assembling matters.\<close>

definition fill :: "pkt_meta \<Rightarrow> bytes \<Rightarrow> partial_packet \<Rightarrow> partial_packet" where
  "fill m data p =
     (if m_offset m < of_nat (length (pa_buf p))
      then let n = min (length (pa_buf p) - unat (m_offset m)) (length data);
               stop = m_offset m + of_nat n
           in p\<lparr>pa_buf := copy_at (unat (m_offset m)) data (pa_buf p),
                pa_covered := (if stop > pa_covered p then stop else pa_covered p)\<rparr>
      else p)"

definition cpu_push :: "pkt_meta \<Rightarrow> bytes \<Rightarrow> partial_packet option \<Rightarrow> assembled option \<times> partial_packet option" where
  "cpu_push m data0 st =
     (if m_orig_len m = 0 \<or> m_orig_len m > of_nat maxPacketBytes then (None, None)
      else
        let data = (if of_nat (length data0) > m_len m then take (unat (m_len m)) data0 else data0)
        in if m_offset m = 0 \<and> m_more m = 0 \<and> m_len m = m_orig_len m
           then (Some (data, m_orig_len m, of_nat (length data) < m_orig_len m), None)
           else
             case (if m_offset m = 0
                   then Some \<lparr>pa_buf = replicate (unat (m_orig_len m)) (CHR 0x00),
                              pa_orig_len = m_orig_len m, pa_covered = 0\<rparr>
                   else case st of Some p \<Rightarrow> if pa_orig_len p = m_orig_len m then Some p else None
                                 | None \<Rightarrow> None) of
               None \<Rightarrow> (None, None)
             | Some p \<Rightarrow>
                 if m_more m \<noteq> 0 then (None, Some (fill m data p))
                 else (Some (pa_buf (fill m data p), pa_orig_len (fill m data p),
                             pa_covered (fill m data p) < pa_orig_len (fill m data p)), None))"

definition cpu_step :: "input \<Rightarrow> partial_packet option \<Rightarrow> assembled option \<times> partial_packet option" where
  "cpu_step x st = (case x of Chunk (m, d) \<Rightarrow> cpu_push m d st | Loss \<Rightarrow> (None, None))"

lemma map_of_drop_cpu [simp]: "map_of (per_cpu (drop_cpu cpu r)) = (map_of (per_cpu r))(cpu := None)"
  by (auto simp: drop_cpu_def delete_conv' fun_eq_iff)

lemma push_step:
  "fst (push cpu m d r) = fst (cpu_push m d (map_of (per_cpu r) cpu)) \<and>
   map_of (per_cpu (snd (push cpu m d r))) =
     (map_of (per_cpu r))(cpu := snd (cpu_push m d (map_of (per_cpu r) cpu)))"
proof (cases "m_orig_len m = 0 \<or> m_orig_len m > of_nat maxPacketBytes")
  case True
  then show ?thesis
    by (simp add: push_def cpu_push_def)
next
  case len: False
  show ?thesis
  proof (cases "m_offset m = 0 \<and> m_more m = 0 \<and> m_len m = m_orig_len m")
    case True
    show ?thesis
      unfolding push_def cpu_push_def if_not_P [OF len] if_P [OF True] Let_def by simp
  next
    case slow: False
    show ?thesis
    proof (cases "m_offset m = 0")
      case True
      show ?thesis
        unfolding push_def cpu_push_def if_not_P [OF len] if_not_P [OF slow] if_P [OF True] Let_def
          fill_def option.case prod.case
        by (cases "m_more m = 0") (simp_all add: update_conv' delete_conv')
    next
      case False
      show ?thesis
      proof (cases "map_of (per_cpu r) cpu")
        case None
        show ?thesis
          unfolding push_def cpu_push_def if_not_P [OF len] if_not_P [OF slow] if_not_P [OF False] Let_def None
          by simp
      next
        case (Some p)
        show ?thesis
        proof (cases "pa_orig_len p = m_orig_len m")
          case True
          show ?thesis
            unfolding push_def cpu_push_def if_not_P [OF len] if_not_P [OF slow] if_not_P [OF False] Let_def
              Some option.case if_P [OF True] prod.case fill_def
            by (cases "m_more m = 0") (simp_all add: update_conv' delete_conv')
        next
          case wrong: False
          show ?thesis
            unfolding push_def cpu_push_def if_not_P [OF len] if_not_P [OF slow] if_not_P [OF False] Let_def
              Some option.case if_not_P [OF wrong] by simp
        qed
      qed
    qed
  qed
qed

lemma take_input_step:
  "fst (take_input cpu x r) = fst (cpu_step x (map_of (per_cpu r) cpu))"
  "map_of (per_cpu (snd (take_input cpu x r))) =
     (map_of (per_cpu r))(cpu := snd (cpu_step x (map_of (per_cpu r) cpu)))"
  by (cases x; simp add: take_input_def cpu_step_def push_step split: prod.split)+

section \<open>Chunks in order\<close>

definition wire_length_ok :: "bytes \<Rightarrow> bool" where
  "wire_length_ok p \<longleftrightarrow> p \<noteq> [] \<and> length p < 2 ^ 32"

definition whole :: "bytes \<Rightarrow> assembled" where
  "whole p = (p, of_nat (length p), False)"

text \<open>The state of a CPU after the first chunks of a packet.\<close>

definition assembling :: "bytes \<Rightarrow> nat \<Rightarrow> partial_packet" where
  "assembling p i =
     \<lparr>pa_buf = take (i * chunkSize) p @ replicate (length p - i * chunkSize) (CHR 0x00),
      pa_orig_len = of_nat (length p), pa_covered = of_nat (i * chunkSize)\<rparr>"

lemma unat_small: "n < 2 ^ 32 \<Longrightarrow> unat (of_nat n :: 32 word) = n"
  by (simp add: unat_of_nat take_bit_eq_mod)

lemma word_small_less:
  "n < 2 ^ 32 \<Longrightarrow> m < 2 ^ 32 \<Longrightarrow> (of_nat n :: 32 word) < of_nat m \<longleftrightarrow> n < m"
  by (simp add: word_less_nat_alt unat_small)

lemma word_small_eq:
  "n < 2 ^ 32 \<Longrightarrow> m < 2 ^ 32 \<Longrightarrow> (of_nat n :: 32 word) = of_nat m \<longleftrightarrow> n = m"
  by (metis unat_small)

lemma chunk_sizes: "chunkSize < 2 ^ 32" "maxPacketBytes < 2 ^ 32" "0 < chunkSize" "chunkSize < maxPacketBytes"
  by (simp_all add: chunkSize_def maxPacketBytes_def maxChunks_def)

lemma oversize_iff: "n < 2 ^ 32 \<Longrightarrow> (of_nat n :: 32 word) > of_nat maxPacketBytes \<longleftrightarrow> maxPacketBytes < n"
  by (rule word_small_less) (simp_all only: chunk_sizes)

lemma word_small_0: "n < 2 ^ 32 \<Longrightarrow> (of_nat n :: 32 word) = 0 \<longleftrightarrow> n = 0"
  using word_small_eq [of n 0] by simp

lemma cpu_push_pad:
  assumes "m_len m = of_nat (length d)" "length d + length pad < 2 ^ 32"
  shows "cpu_push m (d @ pad) st = cpu_push m d st"
proof -
  have "(if of_nat (length (d @ pad)) > m_len m then take (unat (m_len m)) (d @ pad) else d @ pad) = d"
    using assms word_small_less [of "length d" "length (d @ pad)"] by (auto simp: unat_small)
  moreover have "(if of_nat (length d) > m_len m then take (unat (m_len m)) d else d) = d"
    using assms by simp
  ultimately show ?thesis
    unfolding cpu_push_def by (simp only:)
qed

lemma push_oversized:
  assumes "wire_length_ok p" "maxPacketBytes < length p" "chunk_of p i = (m, d)"
  shows "cpu_push m d st = (None, None)"
proof -
  have "m_orig_len m = of_nat (length p)"
    using assms(3) by (auto simp: chunk_of_def Let_def split: if_splits)
  moreover have "(of_nat (length p) :: 32 word) > of_nat maxPacketBytes"
    using assms(1,2) by (subst oversize_iff) (simp_all add: wire_length_ok_def)
  ultimately show ?thesis
    by (simp add: cpu_push_def)
qed

lemma push_single:
  assumes "wire_length_ok p" "length p \<le> chunkSize"
  shows "cpu_step (Chunk (chunk_of p i)) st = (Some (whole p), None)"
  using assms oversize_iff [of "length p"] chunk_sizes
  by (simp add: cpu_step_def chunk_of_def cpu_push_def whole_def wire_length_ok_def word_small_0)

lemma copy_at_append:
  "length a = n \<Longrightarrow> length d \<le> length b \<Longrightarrow> copy_at n d (a @ b) = a @ d @ drop (length d) b"
  by (simp add: copy_at_def)

lemma fill_middle:
  assumes "wire_length_ok p" "length p \<le> maxPacketBytes" "Suc i * chunkSize \<le> length p"
    and "m_offset m = of_nat (i * chunkSize)"
  shows "fill m (take chunkSize (drop (i * chunkSize) p)) (assembling p i) = assembling p (Suc i)"
proof -
  have small: "length p < 2 ^ 32" "i * chunkSize < 2 ^ 32" "Suc i * chunkSize < 2 ^ 32" "0 < chunkSize"
    using assms(1,3) by (auto simp: wire_length_ok_def chunkSize_def)
  have len: "length (pa_buf (assembling p i)) = length p" "length (take chunkSize (drop (i * chunkSize) p)) = chunkSize"
    using assms(3) by (simp_all add: assembling_def)
  have copy: "copy_at (i * chunkSize) (take chunkSize (drop (i * chunkSize) p)) (pa_buf (assembling p i)) =
      pa_buf (assembling p (Suc i))"
    using assms(3) len by (simp add: assembling_def copy_at_append take_add add.commute [of chunkSize] diff_add_assoc2)
  have less: "m_offset m < of_nat (length (pa_buf (assembling p i)))"
    using small assms(3,4) unfolding len by (simp add: word_small_less del: of_nat_mult)
  have min: "min (length p - unat (m_offset m)) chunkSize = chunkSize"
    using small assms(3,4) by (simp add: unat_small del: of_nat_mult)
  have add: "m_offset m + of_nat chunkSize = of_nat (Suc i * chunkSize)"
    using assms(4) by simp
  have "(of_nat (Suc i * chunkSize) :: 32 word) > of_nat (i * chunkSize)"
    using small by (subst word_small_less) simp_all
  then show ?thesis
    using copy less min add small assms(4)
    unfolding fill_def len Let_def
    by (simp add: unat_small assembling_def [of p i] del: of_nat_mult of_nat_add mult_Suc)
      (simp add: assembling_def [of p "Suc i"])
qed

lemma assembling_fields [simp]:
  "pa_orig_len (assembling p i) = of_nat (length p)" "pa_covered (assembling p i) = of_nat (i * chunkSize)"
  "length (pa_buf (assembling p i)) = length p"
  by (simp_all add: assembling_def)

lemma fill_last:
  assumes "wire_length_ok p" "i * chunkSize < length p" "length p \<le> Suc i * chunkSize" "chunkSize < length p"
    and "m_offset m = of_nat (length p - chunkSize)"
  shows "pa_buf (fill m (take chunkSize (drop (length p - chunkSize) p)) (assembling p i)) = p"
    and "pa_covered (fill m (take chunkSize (drop (length p - chunkSize) p)) (assembling p i)) = of_nat (length p)"
    and "pa_orig_len (fill m (take chunkSize (drop (length p - chunkSize) p)) (assembling p i)) = of_nat (length p)"
proof -
  let ?off = "length p - chunkSize"
  let ?d = "take chunkSize (drop ?off p)"
  have small: "length p < 2 ^ 32" "?off < 2 ^ 32" "i * chunkSize < 2 ^ 32"
    using assms(1,2) by (auto simp: wire_length_ok_def)
  have len: "length ?d = chunkSize"
    using assms(4) by simp
  have less: "m_offset m < of_nat (length p)"
    using small assms(4,5) chunk_sizes by (simp add: word_small_less del: of_nat_diff)
  have min: "min (length p - unat (m_offset m)) chunkSize = chunkSize"
    using small assms(4,5) by (simp add: unat_small del: of_nat_diff)
  have add: "m_offset m + of_nat chunkSize = of_nat (length p)"
    using assms(4,5) by (simp add: of_nat_diff)
  have gt: "(of_nat (length p) :: 32 word) > of_nat (i * chunkSize)"
    using small assms(2) by (subst word_small_less) simp_all
  have "take ?off (pa_buf (assembling p i)) = take ?off p"
    using assms(3) by (simp add: assembling_def min_def)
  then have "copy_at ?off ?d (pa_buf (assembling p i)) = p"
    using assms(4) len by (simp add: copy_at_def)
  then show "pa_buf (fill m ?d (assembling p i)) = p"
    "pa_covered (fill m ?d (assembling p i)) = of_nat (length p)"
    "pa_orig_len (fill m ?d (assembling p i)) = of_nat (length p)"
    using less min add gt small assms(5)
    unfolding fill_def assembling_fields len Let_def by (simp_all add: unat_small del: of_nat_diff)
qed

text \<open>
  The state a CPU may be in before a chunk when losses are reported, and when nothing was lost.
\<close>

definition clean :: "bytes \<Rightarrow> nat \<Rightarrow> partial_packet option \<Rightarrow> bool" where
  "clean p i st \<longleftrightarrow> i = 0 \<or> st = None \<or> st = Some (assembling p i)"

definition exact :: "bytes \<Rightarrow> nat \<Rightarrow> partial_packet option \<Rightarrow> bool" where
  "exact p i st \<longleftrightarrow> i = 0 \<or> st = Some (assembling p i)"

lemma chunk_count_small: "p \<noteq> [] \<Longrightarrow> length p \<le> chunkSize \<Longrightarrow> chunk_count p = 1"
  by (cases p) (auto simp: chunk_count_def chunkSize_def maxChunks_def)

lemma chunk_count_large:
  assumes "chunkSize < length p" "length p \<le> maxPacketBytes"
  shows "1 < chunk_count p" "Suc i < chunk_count p \<Longrightarrow> Suc i * chunkSize < length p"
    "Suc i = chunk_count p \<Longrightarrow> i * chunkSize < length p \<and> length p \<le> Suc i * chunkSize"
proof -
  have "chunk_count p = (length p + 4095) div 4096"
    using assms unfolding chunk_count_def chunkSize_def maxChunks_def maxPacketBytes_def by simp
  moreover have "4096 * ((length p + 4095) div 4096) \<le> length p + 4095"
    "length p + 4095 < 4096 + 4096 * ((length p + 4095) div 4096)"
    using dividend_less_div_times [of 4096 "length p + 4095"] by simp_all
  ultimately have q: "4096 * chunk_count p \<le> length p + 4095" "length p + 4095 < 4096 + 4096 * chunk_count p"
    by simp_all
  have l: "4096 < length p"
    using assms(1) by (simp add: chunkSize_def)
  show "1 < chunk_count p"
    using q l by linarith
  show "Suc i * chunkSize < length p" if "Suc i < chunk_count p"
    using q l that unfolding chunkSize_def mult_Suc by linarith
  show "i * chunkSize < length p \<and> length p \<le> Suc i * chunkSize" if "Suc i = chunk_count p"
    using q l that unfolding chunkSize_def mult_Suc by linarith
qed

lemma push_first:
  assumes "wire_length_ok p" "chunkSize < length p" "length p \<le> maxPacketBytes"
  shows "cpu_step (Chunk (chunk_of p 0)) st = (None, Some (assembling p 1))"
proof -
  let ?m = "\<lparr>m_len = of_nat chunkSize, m_orig_len = of_nat (length p), m_offset = of_nat (0 * chunkSize), m_more = 1\<rparr>"
  have "chunk_of p 0 = (?m, take chunkSize (drop (0 * chunkSize) p))"
    using chunk_count_large(1) [OF assms(2,3)] assms(2) by (simp add: chunk_of_def Let_def)
  moreover have "\<not> ((of_nat (length p) :: 32 word) = 0 \<or> (of_nat (length p) :: 32 word) > of_nat maxPacketBytes)"
    using assms oversize_iff [of "length p"] by (simp add: wire_length_ok_def word_small_0)
  moreover have "\<lparr>pa_buf = replicate (length p) (CHR 0x00), pa_orig_len = of_nat (length p), pa_covered = 0\<rparr> =
      assembling p 0"
    by (simp add: assembling_def)
  moreover have "fill ?m (take chunkSize (drop (0 * chunkSize) p)) (assembling p 0) = assembling p (Suc 0)"
    using assms by (intro fill_middle) simp_all
  ultimately show ?thesis
    using assms by (simp add: cpu_step_def cpu_push_def unat_small wire_length_ok_def)
qed

lemma offset_nonzero: "0 < n \<Longrightarrow> n < length p \<Longrightarrow> wire_length_ok p \<Longrightarrow> (of_nat n :: 32 word) \<noteq> 0"
  by (simp add: word_small_0 wire_length_ok_def)

lemma push_middle:
  assumes "wire_length_ok p" "chunkSize < length p" "length p \<le> maxPacketBytes" "0 < i" "Suc i < chunk_count p"
  shows "cpu_step (Chunk (chunk_of p i)) None = (None, None)"
    and "cpu_step (Chunk (chunk_of p i)) (Some (assembling p i)) = (None, Some (assembling p (Suc i)))"
proof -
  let ?m = "\<lparr>m_len = of_nat chunkSize, m_orig_len = of_nat (length p), m_offset = of_nat (i * chunkSize), m_more = 1\<rparr>"
  have less: "Suc i * chunkSize < length p"
    using chunk_count_large(2) [OF assms(2,3,5)] .
  have chunk: "chunk_of p i = (?m, take chunkSize (drop (i * chunkSize) p))"
    using assms(2,5) by (simp add: chunk_of_def Let_def)
  have len: "\<not> ((of_nat (length p) :: 32 word) = 0 \<or> (of_nat (length p) :: 32 word) > of_nat maxPacketBytes)"
    using assms oversize_iff [of "length p"] by (simp add: wire_length_ok_def word_small_0)
  have off: "(of_nat (i * chunkSize) :: 32 word) \<noteq> 0"
    using assms(1,4) less chunk_sizes by (intro offset_nonzero [of _ p]) auto
  show "cpu_step (Chunk (chunk_of p i)) None = (None, None)"
    using len off unfolding chunk by (simp add: cpu_step_def cpu_push_def)
  have "fill ?m (take chunkSize (drop (i * chunkSize) p)) (assembling p i) = assembling p (Suc i)"
    using assms less by (intro fill_middle) simp_all
  then show "cpu_step (Chunk (chunk_of p i)) (Some (assembling p i)) = (None, Some (assembling p (Suc i)))"
    using len off less unfolding chunk by (simp add: cpu_step_def cpu_push_def)
qed

lemma push_last:
  assumes "wire_length_ok p" "chunkSize < length p" "length p \<le> maxPacketBytes" "Suc i = chunk_count p"
  shows "cpu_step (Chunk (chunk_of p i)) None = (None, None)"
    and "cpu_step (Chunk (chunk_of p i)) (Some (assembling p i)) = (Some (whole p), None)"
proof -
  let ?m = "\<lparr>m_len = of_nat chunkSize, m_orig_len = of_nat (length p),
    m_offset = of_nat (length p - chunkSize), m_more = 0\<rparr>"
  have range: "i * chunkSize < length p" "length p \<le> Suc i * chunkSize"
    using chunk_count_large(3) [OF assms(2,3,4)] by auto
  have chunk: "chunk_of p i = (?m, take chunkSize (drop (length p - chunkSize) p))"
    using assms(2,4) by (simp add: chunk_of_def Let_def)
  have len: "\<not> ((of_nat (length p) :: 32 word) = 0 \<or> (of_nat (length p) :: 32 word) > of_nat maxPacketBytes)"
    using assms oversize_iff [of "length p"] by (simp add: wire_length_ok_def word_small_0)
  have off: "(of_nat (length p - chunkSize) :: 32 word) \<noteq> 0"
    using assms(1,2) chunk_sizes by (intro offset_nonzero [of _ p]) auto
  show "cpu_step (Chunk (chunk_of p i)) None = (None, None)"
    using len off unfolding chunk by (simp add: cpu_step_def cpu_push_def del: of_nat_diff)
  show "cpu_step (Chunk (chunk_of p i)) (Some (assembling p i)) = (Some (whole p), None)"
    using len off assms(2) fill_last [OF assms(1) range assms(2), of ?m] unfolding chunk
    by (simp add: cpu_step_def cpu_push_def whole_def del: of_nat_diff)
qed

section \<open>Streams of packets\<close>

text \<open>
  What a CPU emits for a sequence of packets: the chunks of each, tagged with the packet and the
  index, or only the first so many of them, when the kernel fails to read the rest.
\<close>

definition emitted :: "(bytes \<times> nat) list \<Rightarrow> (bytes \<times> nat) list" where
  "emitted sent = concat (map (\<lambda>(p, k). map (Pair p) [0..<min k (chunk_count p)]) sent)"

text \<open>
  What arrives of it: any run may be lost if the loss is reported before the next chunk; after the
  last report anything may be missing.  Samples may be padded.
\<close>

inductive received :: "(bytes \<times> nat) list \<Rightarrow> input list \<Rightarrow> bool" where
  nothing: "received es []"
| chunk: "received es xs \<Longrightarrow> chunk_of p i = (m, d) \<Longrightarrow> length d + length pad < 2 ^ 32 \<Longrightarrow>
     received ((p, i) # es) (Chunk (m, d @ pad) # xs)"
| lost: "received es xs \<Longrightarrow> received (us @ es) (Loss # xs)"

text \<open>Nothing lost and everything there.\<close>

definition received_all :: "(bytes \<times> nat) list \<Rightarrow> input list \<Rightarrow> bool" where
  "received_all es xs \<longleftrightarrow> received es xs \<and> length xs = length es \<and> Loss \<notin> set xs"

fun outs :: "input list \<Rightarrow> partial_packet option \<Rightarrow> assembled list" where
  "outs [] st = []"
| "outs (x # xs) st =
     (case cpu_step x st of (out, st') \<Rightarrow> (case out of None \<Rightarrow> [] | Some a \<Rightarrow> [a]) @ outs xs st')"

fun feed :: "(int \<times> input) list \<Rightarrow> reassembler \<Rightarrow> (int \<times> assembled) list" where
  "feed [] r = []"
| "feed ((cpu, x) # xs) r =
     (case take_input cpu x r of
        (out, r') \<Rightarrow> (case out of None \<Rightarrow> [] | Some a \<Rightarrow> [(cpu, a)]) @ feed xs r')"

definition on_cpu :: "int \<Rightarrow> (int \<times> 'a) list \<Rightarrow> 'a list" where
  "on_cpu cpu xs = map snd (filter (\<lambda>(c, _). c = cpu) xs)"

lemma on_cpu_simps [simp]:
  "on_cpu cpu [] = []" "on_cpu cpu ((c, x) # xs) = (if c = cpu then x # on_cpu cpu xs else on_cpu cpu xs)"
  "on_cpu cpu (xs @ ys) = on_cpu cpu xs @ on_cpu cpu ys"
  by (simp_all add: on_cpu_def)

lemma feed_on_cpu: "on_cpu cpu (feed xs r) = outs (on_cpu cpu xs) (map_of (per_cpu r) cpu)"
proof (induction xs r rule: feed.induct)
  case (2 c x xs r)
  obtain out r' where step: "take_input c x r = (out, r')"
    by fastforce
  show ?case
    using 2 [OF step [symmetric]] take_input_step [of c x r] step
    by (cases "cpu_step x (map_of (per_cpu r) c)") (auto split: option.split)
qed simp

definition completed :: "(bytes \<times> nat) list \<Rightarrow> bytes list" where
  "completed es = map fst (filter (\<lambda>(p, i). Suc i = chunk_count p) es)"

definition follows :: "bytes \<times> nat \<Rightarrow> bytes \<times> nat \<Rightarrow> bool" where
  "follows e e' \<longleftrightarrow> snd e' = 0 \<or> e' = (fst e, Suc (snd e))"

lemma step_clean:
  assumes "wire_length_ok p" "i < chunk_count p" "clean p i st" "cpu_step (Chunk (chunk_of p i)) st = (out, st')"
  shows "(out = None \<or> out = Some (whole p) \<and> Suc i = chunk_count p) \<and>
    (follows (p, i) (q, j) \<longrightarrow> clean q j st')"
proof -
  consider "length p \<le> chunkSize" | "maxPacketBytes < length p"
    | "chunkSize < length p" "length p \<le> maxPacketBytes"
    by linarith
  then show ?thesis
  proof cases
    case 1
    then show ?thesis
      using assms push_single [OF assms(1) 1] chunk_count_small [of p] by (auto simp: clean_def wire_length_ok_def)
  next
    case 2
    then show ?thesis
      using assms push_oversized [OF assms(1) 2, of i]
      by (cases "chunk_of p i") (auto simp: cpu_step_def clean_def)
  next
    case 3
    then show ?thesis
      using assms push_first [OF assms(1) 3] push_middle [OF assms(1) 3, of i] push_last [OF assms(1) 3, of i]
      by (cases "i = 0"; cases "Suc i = chunk_count p") (auto simp: clean_def follows_def)
  qed
qed

lemma step_exact:
  assumes "wire_length_ok p" "length p \<le> maxPacketBytes" "i < chunk_count p" "exact p i st"
    "cpu_step (Chunk (chunk_of p i)) st = (out, st')"
  shows "out = (if Suc i = chunk_count p then Some (whole p) else None) \<and>
    (follows (p, i) (q, j) \<and> j < chunk_count q \<longrightarrow> exact q j st')"
proof (cases "length p \<le> chunkSize")
  case True
  then show ?thesis
    using assms push_single [OF assms(1) True] chunk_count_small [of p]
    by (auto simp: exact_def wire_length_ok_def follows_def)
next
  case False
  then show ?thesis
    using assms push_first [OF assms(1) _ assms(2)] push_middle [OF assms(1) _ assms(2), of i]
      push_last [OF assms(1) _ assms(2), of i] chunk_count_large(1) [of p]
    by (cases "i = 0"; cases "Suc i = chunk_count p") (auto simp: exact_def follows_def)
qed

lemma chunk_data_length:
  assumes "i < chunk_count p" "chunk_of p i = (m, d)"
  shows "m_len m = of_nat (length d)"
proof (cases "length p \<le> chunkSize \<or> Suc i = chunk_count p")
  case True
  then show ?thesis
    using assms(2) by (cases "length p \<le> chunkSize") (auto simp: chunk_of_def Let_def)
next
  case False
  have "Suc i < (length p + 4095) div 4096"
    using assms(1) False by (auto simp: chunk_count_def chunkSize_def maxChunks_def)
  moreover have "4096 * ((length p + 4095) div 4096) \<le> length p + 4095"
    by simp
  ultimately have "i * chunkSize + chunkSize \<le> length p"
    unfolding chunkSize_def by linarith
  then have "length (take chunkSize (drop (i * chunkSize) p)) = chunkSize"
    by simp
  then show ?thesis
    using assms(2) False by (auto simp: chunk_of_def Let_def simp del: length_take)
qed

lemma cpu_step_pad:
  assumes "chunk_of p i = (m, d)" "length d + length pad < 2 ^ 32" "i < chunk_count p"
  shows "cpu_step (Chunk (m, d @ pad)) st = cpu_step (Chunk (chunk_of p i)) st"
  using assms(1) cpu_push_pad [OF chunk_data_length [OF assms(3,1)] assms(2)] by (simp add: cpu_step_def)

lemma emitted_Cons: "emitted ((p, k) # sent) = map (Pair p) [0..<min k (chunk_count p)] @ emitted sent"
  by (simp add: emitted_def)

lemma successively_indices: "successively follows (map (Pair p) [i..<n])"
  by (induction n) (auto simp: successively_append_iff follows_def last_map hd_map)

lemma hd_emitted: "emitted sent \<noteq> [] \<Longrightarrow> snd (hd (emitted sent)) = 0"
proof (induction sent)
  case (Cons pk sent)
  then show ?case
    by (cases pk) (auto simp: emitted_Cons hd_append hd_map upt_rec split: if_splits)
qed (simp add: emitted_def)

lemma successively_emitted: "successively follows (emitted sent)"
proof (induction sent)
  case (Cons pk sent)
  then show ?case
    using hd_emitted [of sent] successively_indices
    by (cases pk) (auto simp: emitted_Cons successively_append_iff follows_def)
qed (simp add: emitted_def)

lemma set_emitted: "(p, i) \<in> set (emitted sent) \<Longrightarrow> p \<in> fst ` set sent \<and> i < chunk_count p"
  by (force simp: emitted_def)

lemma completed_emitted:
  "completed (emitted sent) = map fst (filter (\<lambda>(p, k). chunk_count p \<le> k) sent)"
proof (induction sent)
  case (Cons pk sent)
  obtain p k where pk: "pk = (p, k)"
    by fastforce
  have "filter (\<lambda>i. Suc i = chunk_count p) [0..<n] = (if chunk_count p \<le> n then [chunk_count p - 1] else [])"
    if "0 < chunk_count p" for n
    using that by (induction n) auto
  moreover have "0 < chunk_count p"
    by (simp add: chunk_count_def)
  ultimately show ?case
    using Cons by (simp add: pk emitted_Cons completed_def filter_map o_def)
qed (simp add: emitted_def completed_def)

lemma received_outputs:
  assumes "received es xs" "successively follows es"
    and "\<And>p i. (p, i) \<in> set es \<Longrightarrow> wire_length_ok p \<and> i < chunk_count p"
    and "es \<noteq> [] \<Longrightarrow> clean (fst (hd es)) (snd (hd es)) st"
  shows "subseq (outs xs st) (map whole (completed es))"
  using assms
proof (induction es xs arbitrary: st rule: received.induct)
  case (chunk es xs p i m d pad)
  obtain out st' where step: "cpu_step (Chunk (chunk_of p i)) st = (out, st')"
    by fastforce
  have ok: "wire_length_ok p" "i < chunk_count p" "clean p i st"
    using chunk.prems by auto
  have rest: "subseq (outs xs st') (map whole (completed es))"
  proof (rule chunk.IH)
    show "clean (fst (hd es)) (snd (hd es)) st'" if "es \<noteq> []"
      using step_clean [OF ok step] chunk.prems(1) that by (cases es) auto
  qed (use chunk.prems in \<open>auto simp: successively_Cons\<close>)
  show ?case
    using step_clean [OF ok step, of p 0] rest cpu_step_pad [OF chunk.hyps(2,3) ok(2)] step
    by (cases out) (auto simp: completed_def)
next
  case (lost es xs us)
  have "subseq (outs xs None) (map whole (completed es))"
    using lost.prems by (intro lost.IH) (auto simp: clean_def successively_append_iff)
  then show ?case
    by (simp add: cpu_step_def completed_def) (metis list_emb_append2 map_append)
qed simp

lemma received_exact:
  assumes "received es xs" "length xs = length es" "Loss \<notin> set xs" "successively follows es"
    and "\<And>p i. (p, i) \<in> set es \<Longrightarrow> wire_length_ok p \<and> length p \<le> maxPacketBytes \<and> i < chunk_count p"
    and "es \<noteq> [] \<Longrightarrow> exact (fst (hd es)) (snd (hd es)) st"
  shows "outs xs st = map whole (completed es)"
  using assms
proof (induction es xs arbitrary: st rule: received.induct)
  case (chunk es xs p i m d pad)
  obtain out st' where step: "cpu_step (Chunk (chunk_of p i)) st = (out, st')"
    by fastforce
  have ok: "wire_length_ok p" "length p \<le> maxPacketBytes" "i < chunk_count p" "exact p i st"
    using chunk.prems by auto
  have rest: "outs xs st' = map whole (completed es)"
  proof (rule chunk.IH)
    show "exact (fst (hd es)) (snd (hd es)) st'" if "es \<noteq> []"
      using step_exact [OF ok step, of "fst (hd es)" "snd (hd es)"] chunk.prems(3,4) that by (cases es) auto
  qed (use chunk.prems in \<open>auto simp: successively_Cons\<close>)
  show ?case
    using step_exact [OF ok step, of p 0] rest cpu_step_pad [OF chunk.hyps(2,3) ok(3)] step
    by (auto simp: completed_def)
qed (auto simp: completed_def)

text \<open>
  C24: Reassembly never makes up a packet.  However the CPUs' streams are interleaved and whatever
  the ring loses (as long as a loss is reported before the next sample of that CPU) or the kernel
  fails to read, each packet handed on is one of the packets of its CPU, whole and in order; and
  when nothing of a CPU's packets is lost and none exceeds the ceiling, all of them are handed on.
\<close>

theorem reassembly_no_corruption:
  assumes "received (emitted sent) (on_cpu cpu xs)" "\<And>p k. (p, k) \<in> set sent \<Longrightarrow> wire_length_ok p"
  shows "subseq (on_cpu cpu (feed xs new_reassembler)) (map (whole \<circ> fst) sent) \<and>
    (received_all (emitted sent) (on_cpu cpu xs) \<and>
       (\<forall>(p, k) \<in> set sent. length p \<le> maxPacketBytes \<and> chunk_count p \<le> k) \<longrightarrow>
     on_cpu cpu (feed xs new_reassembler) = map (whole \<circ> fst) sent)"
proof -
  have ok: "wire_length_ok p \<and> i < chunk_count p" if "(p, i) \<in> set (emitted sent)" for p i
    using set_emitted [OF that] assms(2) by auto
  have "subseq (outs (on_cpu cpu xs) None) (map whole (completed (emitted sent)))"
    using assms(1) successively_emitted ok by (rule received_outputs) (auto simp: clean_def)
  moreover have "subseq (map whole (completed (emitted sent))) (map (whole \<circ> fst) sent)"
    unfolding completed_emitted by (simp add: o_def subseq_filter_left subseq_map)
  moreover have "outs (on_cpu cpu xs) None = map (whole \<circ> fst) sent"
    if all: "received_all (emitted sent) (on_cpu cpu xs)"
      and full: "\<forall>(p, k) \<in> set sent. length p \<le> maxPacketBytes \<and> chunk_count p \<le> k"
  proof -
    have "outs (on_cpu cpu xs) None = map whole (completed (emitted sent))"
    proof (rule received_exact [OF assms(1) _ _ successively_emitted])
      show "wire_length_ok p \<and> length p \<le> maxPacketBytes \<and> i < chunk_count p"
        if "(p, i) \<in> set (emitted sent)" for p i
        using ok [OF that] set_emitted [OF that] full by auto
      show "exact (fst (hd (emitted sent))) (snd (hd (emitted sent))) None" if "emitted sent \<noteq> []"
        using hd_emitted [OF that] by (simp add: exact_def)
    qed (use all in \<open>auto simp: received_all_def\<close>)
    also have "completed (emitted sent) = map fst sent"
      unfolding completed_emitted using full by (subst filter_True) auto
    finally show ?thesis
      by simp
  qed
  ultimately show ?thesis
    by (auto simp: feed_on_cpu new_reassembler_def dest: subseq_order.trans)
qed

definition sample_packet :: bytes where
  "sample_packet = replicate 5000 (CHR ''x'')"

text \<open>Two chunks of a packet with a loss on another CPU in between.\<close>

theorem reassembly_no_corruption_witness:
  "on_cpu 0 (feed [(0, Chunk (chunk_of sample_packet 0)), (1, Loss), (0, Chunk (chunk_of sample_packet 1))]
     new_reassembler) = [whole sample_packet]"
proof -
  have count: "chunk_count sample_packet = 2"
    by (simp add: chunk_count_def sample_packet_def chunkSize_def maxChunks_def)
  have em: "emitted [(sample_packet, 2)] = [(sample_packet, 0), (sample_packet, 1)]"
    by (simp add: emitted_def count upt_rec)
  have size: "length (snd (chunk_of sample_packet i)) < 2 ^ 32" for i
    by (simp add: chunk_of_def Let_def sample_packet_def chunkSize_def)
  have rec: "received [(sample_packet, 0), (sample_packet, 1)]
      [Chunk (chunk_of sample_packet 0), Chunk (chunk_of sample_packet 1)]"
    using received.chunk [OF received.chunk [OF received.nothing], of sample_packet 1 _ _ "[]" sample_packet 0 _ _ "[]" "[]"]
      size [of 0] size [of 1]
    by (metis (no_types, lifting) append_Nil2 list.size(3) add.right_neutral prod.collapse)
  have ok: "wire_length_ok sample_packet" "length sample_packet \<le> maxPacketBytes"
    by (simp_all add: wire_length_ok_def sample_packet_def maxPacketBytes_def chunkSize_def maxChunks_def)
  show ?thesis
    using reassembly_no_corruption [of "[(sample_packet, 2)]" 0
        "[(0, Chunk (chunk_of sample_packet 0)), (1, Loss), (0, Chunk (chunk_of sample_packet 1))]"] rec ok
    by (simp add: em received_all_def count del: feed.simps)
qed

end
