(* ===== verification/KaiselRules.thy ===== *)
theory KaiselRules
  imports Tracing KeyedTable "HOL-Library.Monad_Syntax"
begin

text \<open>
  How Kaisel's rules reach the kernel and the exporter: \<^verbatim>\<open>internal/controller\<close> (the
  reconciler), the address and port maps of \<^verbatim>\<open>internal/capture/capture.go\<close>, and
  \<^verbatim>\<open>internal/export\<close> (routing and admission of captured messages).  A Go map whose
  iteration order matters is iterated in an order given as an argument.
\<close>

section \<open>Addresses\<close>

text \<open>\<^verbatim>\<open>net.ParseIP\<close>: 16 bytes, or none.\<close>

definition parse_octet :: "string \<Rightarrow> char option" where
  "parse_octet s =
     (if s = [] \<or> length s > 3 \<or> \<not> list_all is_digit s \<or> (length s > 1 \<and> hd s = CHR ''0'') then None
      else let n = foldl (\<lambda>n c. 10 * n + (of_char c - 48)) (0 :: nat) s
           in if n > 255 then None else Some (char_of n))"

fun all_parsed :: "'a option list \<Rightarrow> 'a list option" where
  "all_parsed [] = Some []"
| "all_parsed (x # xs) = (case x of None \<Rightarrow> None | Some y \<Rightarrow> map_option (Cons y) (all_parsed xs))"

definition parse_ipv4 :: "string \<Rightarrow> bytes option" where
  "parse_ipv4 s =
     (let fs = split_on (CHR ''.'') s
      in if length fs = 4 then all_parsed (map parse_octet fs) else None)"

definition v4_in_v6 :: bytes where
  "v4_in_v6 = replicate 10 (CHR 0x00) @ [CHR 0xFF, CHR 0xFF]"

definition parse_hextet :: "string \<Rightarrow> bytes option" where
  "parse_hextet s =
     (if s = [] \<or> length s > 4 \<or> \<not> is_hex s then None
      else let n = foldl (\<lambda>n c. 16 * n + hex_val c) 0 s
           in Some [char_of (n div 256), char_of (n mod 256)])"

text \<open>Colon-separated fields, the last of which may be an IPv4 address.\<close>

fun parse_fields :: "string list \<Rightarrow> bytes option" where
  "parse_fields [] = Some []"
| "parse_fields [f] = (if CHR ''.'' \<in> set f then parse_ipv4 f else parse_hextet f)"
| "parse_fields (f # fs) =
     do { x \<leftarrow> parse_hextet f; xs \<leftarrow> parse_fields fs; Some (x @ xs) }"

fun split_ellipsis :: "string \<Rightarrow> (string \<times> string) option" where
  "split_ellipsis [] = None"
| "split_ellipsis [c] = None"
| "split_ellipsis (c # d # s) =
     (if c = CHR '':'' \<and> d = CHR '':'' then Some ([], s)
      else map_option (\<lambda>(l, r). (c # l, r)) (split_ellipsis (d # s)))"

definition fields_of :: "string \<Rightarrow> string list" where
  "fields_of s = (if s = [] then [] else split_on (CHR '':'') s)"

definition parse_ipv6 :: "string \<Rightarrow> bytes option" where
  "parse_ipv6 s =
     (case split_ellipsis s of
        None \<Rightarrow> do { b \<leftarrow> parse_fields (fields_of s); (if length b = 16 then Some b else None) }
      | Some (l, r) \<Rightarrow>
          if list_ex (\<lambda>f. CHR ''.'' \<in> set f) (fields_of l) then None
          else do {
            bl \<leftarrow> parse_fields (fields_of l);
            br \<leftarrow> parse_fields (fields_of r);
            (if length bl + length br \<le> 14
             then Some (bl @ replicate (16 - length bl - length br) (CHR 0x00) @ br) else None)
          })"

definition parse_ip :: "string \<Rightarrow> bytes option" where
  "parse_ip s =
     (if CHR '':'' \<in> set s then parse_ipv6 s else map_option (\<lambda>b. v4_in_v6 @ b) (parse_ipv4 s))"

text \<open>\<^verbatim>\<open>ipKey\<close>: the address in network order, for addresses that are IPv4.\<close>

definition to4 :: "bytes option \<Rightarrow> bytes option" where
  "to4 ip =
     (case ip of
        None \<Rightarrow> None
      | Some b \<Rightarrow> if length b = 4 then Some b
                  else if length b = 16 \<and> take 12 b = v4_in_v6 then Some (drop 12 b) else None)"

definition be_u32 :: "bytes \<Rightarrow> 32 word" where
  "be_u32 b = foldl (\<lambda>w c. 256 * w + of_nat (of_char c)) 0 b"

definition ip_key :: "bytes option \<Rightarrow> 32 word option" where
  "ip_key ip = map_option be_u32 (to4 ip)"

lemma ip_examples:
  "parse_ip ''10.99.0.2'' = Some (v4_in_v6 @ [CHR 0x0A, CHR 0x63, CHR 0x00, CHR 0x02])"
  "parse_ip ''10.99.0.02'' = None" "parse_ip ''1:2:3:4:5:6:7::8'' = None"
  by code_simp+

lemma ip_key_example: "ip_key (parse_ip ''10.99.0.2'') = Some 0x0A630002"
  by (simp add: ip_key_def ip_examples to4_def v4_in_v6_def be_u32_def)

section \<open>The kernel's maps (capture.go)\<close>

record target_ip =
  ti_ip :: "bytes option"
  ti_pct :: int

record map_update =
  add_ips :: "target_ip list"
  remove_ips :: "bytes option list"
  add_ports :: "16 word list"
  remove_ports :: "16 word list"

record kernel_maps =
  k_ips :: "32 word \<rightharpoonup> 8 word"
  k_ports :: "16 word \<rightharpoonup> 8 word"

datatype kernel_op = PutIp "32 word" "8 word" | DeleteIp "32 word" | PutPort "16 word" | DeletePort "16 word"

text \<open>One map operation; a refused one, or deleting an absent key, only logs.\<close>

fun kernel_effect :: "kernel_op \<Rightarrow> kernel_maps \<Rightarrow> kernel_maps" where
  "kernel_effect (PutIp k v) m = m\<lparr>k_ips := (k_ips m)(k \<mapsto> v)\<rparr>"
| "kernel_effect (DeleteIp k) m = m\<lparr>k_ips := (k_ips m)(k := None)\<rparr>"
| "kernel_effect (PutPort p) m = m\<lparr>k_ports := (k_ports m)(p \<mapsto> 1)\<rparr>"
| "kernel_effect (DeletePort p) m = m\<lparr>k_ports := (k_ports m)(p := None)\<rparr>"

definition kernel_do :: "(kernel_op \<Rightarrow> bool) \<Rightarrow> kernel_op \<Rightarrow> kernel_maps \<Rightarrow> kernel_maps" where
  "kernel_do works op m = (if works op then kernel_effect op m else m)"

definition clamp_pct :: "int \<Rightarrow> 8 word" where
  "clamp_pct pct = (if pct < 0 \<or> pct > 100 then 100 else of_int pct)"

definition put_target :: "(kernel_op \<Rightarrow> bool) \<Rightarrow> target_ip \<Rightarrow> kernel_maps \<Rightarrow> kernel_maps" where
  "put_target works t m =
     (case ip_key (ti_ip t) of
        None \<Rightarrow> m
      | Some key \<Rightarrow> kernel_do works (PutIp key (clamp_pct (ti_pct t))) m)"

definition remove_target :: "(kernel_op \<Rightarrow> bool) \<Rightarrow> bytes option \<Rightarrow> kernel_maps \<Rightarrow> kernel_maps" where
  "remove_target works ip m =
     (case ip_key ip of None \<Rightarrow> m | Some key \<Rightarrow> kernel_do works (DeleteIp key) m)"

definition apply_update :: "(kernel_op \<Rightarrow> bool) \<Rightarrow> map_update \<Rightarrow> kernel_maps \<Rightarrow> kernel_maps" where
  "apply_update works upd m =
     fold (\<lambda>p. kernel_do works (DeletePort p)) (remove_ports upd)
       (fold (\<lambda>p. kernel_do works (PutPort p)) (add_ports upd)
         (fold (remove_target works) (remove_ips upd)
           (fold (put_target works) (add_ips upd) m)))"

text \<open>The seeding at the start of \<^verbatim>\<open>Run\<close>, which fails at the first refusal.\<close>

fun seed_targets :: "(kernel_op \<Rightarrow> bool) \<Rightarrow> target_ip list \<Rightarrow> kernel_maps \<Rightarrow> kernel_maps option" where
  "seed_targets works [] m = Some m"
| "seed_targets works (t # ts) m =
     (case ip_key (ti_ip t) of
        None \<Rightarrow> None
      | Some key \<Rightarrow>
          if works (PutIp key (clamp_pct (ti_pct t))) then seed_targets works ts (put_target works t m) else None)"

fun seed_ports :: "(kernel_op \<Rightarrow> bool) \<Rightarrow> 16 word list \<Rightarrow> kernel_maps \<Rightarrow> kernel_maps option" where
  "seed_ports works [] m = Some m"
| "seed_ports works (p # ps) m =
     (if works (PutPort p) then seed_ports works ps (kernel_do works (PutPort p) m) else None)"

text \<open>A 16-bit value in network order on a little-endian machine.\<close>

definition htons :: "16 word \<Rightarrow> 16 word" where
  "htons v = or (push_bit 8 v) (drop_bit 8 v)"

text \<open>The sum of a per-CPU counter; a missing map or a failed lookup counts as none.\<close>

definition per_cpu_counter :: "64 word list option \<Rightarrow> 64 word" where
  "per_cpu_counter lookup = (case lookup of None \<Rightarrow> 0 | Some vs \<Rightarrow> sum_list vs)"

section \<open>Tiers\<close>

datatype tier = TierBPFLoop | TierUser

definition tier_number :: "tier \<Rightarrow> int" where
  "tier_number t = (case t of TierBPFLoop \<Rightarrow> 1 | TierUser \<Rightarrow> 2)"

definition tier_string :: "tier \<Rightarrow> string" where
  "tier_string t = (case t of TierBPFLoop \<Rightarrow> ''bpf_loop'' | TierUser \<Rightarrow> ''userspace'')"

text \<open>What a build of the program meets on the way into the kernel.\<close>

datatype load_outcome = SpecError | PrepareError | AssignError | Loaded

fun load_program :: "(tier \<Rightarrow> load_outcome) \<Rightarrow> tier list \<Rightarrow> tier option" where
  "load_program outcome [] = None"
| "load_program outcome (c # cs) = (if outcome c = Loaded then Some c else load_program outcome cs)"

definition tier_candidates :: "tier list" where
  "tier_candidates = [TierBPFLoop, TierUser]"

definition defaultAdmittedEntries :: int where "defaultAdmittedEntries = 32768"

definition admitted_entries :: "int \<Rightarrow> 32 word" where
  "admitted_entries cfg = of_int (if cfg \<le> 0 then defaultAdmittedEntries else cfg)"

definition port_filter_on :: "16 word list \<Rightarrow> 32 word" where
  "port_filter_on ports = (if 0 < length ports then 1 else 0)"

section \<open>The route table (export/router.go)\<close>

record export_route =
  ro_igris :: string
  ro_egress :: string
  ro_pct :: int
  ro_rule :: string

record rule_export =
  re_key :: string
  re_ips :: "string list"
  re_igris :: string
  re_egress :: string
  re_pct :: int

type_synonym route_table = "(string \<times> export_route) list"

definition put_route :: "string \<times> export_route \<Rightarrow> route_table \<Rightarrow> route_table" where
  "put_route x t = insert_once fst x t"

definition route_of_rule :: "rule_export \<Rightarrow> export_route" where
  "route_of_rule rule =
     \<lparr>ro_igris = re_igris rule, ro_egress = re_egress rule,
      ro_pct = (if re_pct rule \<le> 0 then 100 else re_pct rule), ro_rule = re_key rule\<rparr>"

text \<open>An address already routed stays with the earlier rule.\<close>

definition add_rule :: "route_table \<Rightarrow> rule_export \<Rightarrow> route_table" where
  "add_rule table rule =
     (if re_igris rule = [] \<and> re_egress rule = [] then table
      else foldl (\<lambda>t ip. if ip = [] then t else put_route (ip, route_of_rule rule) t) table (re_ips rule))"

definition rebuild :: "rule_export list \<Rightarrow> route_table" where
  "rebuild rules = foldl add_rule [] (sort_key re_key rules)"

definition lookup_route :: "route_table \<Rightarrow> string \<Rightarrow> export_route option" where
  "lookup_route table ip = map_of table ip"

section \<open>The reconciler (controller)\<close>

record rule_spec =
  sp_ips :: "string list"
  sp_ports :: "16 word list"
  sp_igris :: string
  sp_egress :: string
  sp_pct :: int

record rule_state =
  rs_ips :: "string list"
  rs_ports :: "16 word list"
  rs_igris :: string
  rs_egress :: string
  rs_pct :: int

definition no_rule :: rule_state where
  "no_rule = \<lparr>rs_ips = [], rs_ports = [], rs_igris = [], rs_egress = [], rs_pct = 0\<rparr>"

text \<open>The address and port sets, as lists without repetition.\<close>

definition state_from :: "rule_spec \<Rightarrow> rule_state" where
  "state_from spec =
     \<lparr>rs_ips = dedup_first (sp_ips spec), rs_ports = dedup_first (sp_ports spec),
      rs_igris = sp_igris spec, rs_egress = sp_egress spec, rs_pct = sp_pct spec\<rparr>"

text \<open>The orders the sets of addresses and ports and the rule map are iterated in.\<close>

record iteration =
  it_ips :: "string list \<Rightarrow> string list"
  it_ports :: "16 word list \<Rightarrow> 16 word list"
  it_rules :: "string list \<Rightarrow> string list"

definition rule_diff :: "iteration \<Rightarrow> rule_state \<Rightarrow> rule_state \<Rightarrow> map_update" where
  "rule_diff it old new =
     (let repct = rs_pct old \<noteq> rs_pct new
      in \<lparr>add_ips = map (\<lambda>ip. \<lparr>ti_ip = parse_ip ip, ti_pct = rs_pct new\<rparr>)
            (filter (\<lambda>ip. repct \<or> ip \<notin> set (rs_ips old)) (it_ips it (rs_ips new))),
          remove_ips = map parse_ip (filter (\<lambda>ip. ip \<notin> set (rs_ips new)) (it_ips it (rs_ips old))),
          add_ports = filter (\<lambda>p. p \<notin> set (rs_ports old)) (it_ports it (rs_ports new)),
          remove_ports = filter (\<lambda>p. p \<notin> set (rs_ports new)) (it_ports it (rs_ports old))\<rparr>)"

definition has_changes :: "map_update \<Rightarrow> bool" where
  "has_changes upd \<longleftrightarrow> 0 < length (add_ips upd) \<or> 0 < length (remove_ips upd) \<or>
     0 < length (add_ports upd) \<or> 0 < length (remove_ports upd)"

text \<open>
  The reconciler's state with the exporter's table and the channel to the capture loop, which
  holds at most \<^verbatim>\<open>capacity\<close> updates.
\<close>

record reconciler =
  rc_rules :: "(string \<times> rule_state) list"
  rc_table :: route_table
  rc_queue :: "map_update list"

text \<open>The answer to the Get of the reconciled rule; a rule may be on its way to deletion.\<close>

datatype get_rule = Found rule_spec bool | NotFound | GetError

definition rule_exports :: "iteration \<Rightarrow> (string \<times> rule_state) list \<Rightarrow> rule_export list" where
  "rule_exports it rules =
     map (\<lambda>key. let st = go_get no_rule rules key
                in \<lparr>re_key = key, re_ips = it_ips it (rs_ips st), re_igris = rs_igris st,
                    re_egress = rs_egress st, re_pct = rs_pct st\<rparr>)
       (it_rules it (map fst rules))"

definition enqueue_update :: "nat \<Rightarrow> map_update \<Rightarrow> map_update list \<Rightarrow> map_update list" where
  "enqueue_update capacity upd queue =
     (if has_changes upd \<and> length queue < capacity then queue @ [upd] else queue)"

definition reconcile :: "iteration \<Rightarrow> nat \<Rightarrow> string \<Rightarrow> get_rule \<Rightarrow> reconciler \<Rightarrow> bool \<times> reconciler" where
  "reconcile it capacity key got r =
     (case got of
        GetError \<Rightarrow> (False, r)
      | _ \<Rightarrow>
          let old = go_get no_rule (rc_rules r) key;
              new = (case got of Found spec deleting \<Rightarrow> if deleting then no_rule else state_from spec
                     | _ \<Rightarrow> no_rule);
              gone = (case got of Found spec deleting \<Rightarrow> deleting | _ \<Rightarrow> True);
              upd = rule_diff it old new;
              rules = (if gone then AList.delete key (rc_rules r) else AList.update key new (rc_rules r))
          in (True, \<lparr>rc_rules = rules, rc_table = rebuild (rule_exports it rules),
                     rc_queue = enqueue_update capacity upd (rc_queue r)\<rparr>))"

section \<open>Admission (export/exporter.go)\<close>

text \<open>A header map, with canonical keys; a message as the exporter reads it.\<close>

type_synonym http_header = "(string \<times> string list) list"

record captured_request =
  cq_method :: string
  cq_uri :: string
  cq_host :: string
  cq_header :: http_header
  cq_body :: bytes

record captured_response =
  cs_status :: int
  cs_header :: http_header
  cs_body :: bytes

record http_record =
  hr_method :: string
  hr_uri :: string
  hr_host :: string
  hr_body :: bytes
  hr_traceparent :: string
  hr_headers :: http_header

record egress_record =
  er_trace_id :: string
  er_method :: string
  er_host :: string
  er_path :: string
  er_status :: int
  er_headers :: "(string \<times> string) list"
  er_body :: string

datatype export_job = IngressJob string http_record | EgressJob string egress_record

record exporter =
  ex_queue :: "export_job list"
  ex_size :: nat
  ex_dropped :: "64 word"

definition header_get :: "http_header \<Rightarrow> string \<Rightarrow> string" where
  "header_get h k = (case map_of h k of Some (v # _) \<Rightarrow> v | _ \<Rightarrow> [])"

definition hopByHopHeaders :: "string list" where
  "hopByHopHeaders =
     [''connection'', ''keep-alive'', ''proxy-authenticate'', ''proxy-authorization'', ''te'',
      ''trailers'', ''transfer-encoding'', ''upgrade'', ''host'', ''content-length'']"

definition clone_request_headers :: "http_header \<Rightarrow> http_header" where
  "clone_request_headers h =
     filter (\<lambda>(k, vs). to_lower k \<notin> set hopByHopHeaders \<and> vs \<noteq> []) h"

definition droppedResponseHeaders :: "string list" where
  "droppedResponseHeaders =
     [''content-length'', ''transfer-encoding'', ''connection'', ''keep-alive'', ''te'', ''trailer'',
      ''upgrade'', ''date'', ''server'']"

definition keptResponseHeaders :: "string list" where
  "keptResponseHeaders = [''content-type'', ''cache-control'', ''etag'', ''location'']"

definition filter_response_headers :: "http_header \<Rightarrow> (string \<times> string) list" where
  "filter_response_headers h =
     foldl (\<lambda>out (k, vals).
        let lower = to_lower k
        in if vals = [] \<or> lower \<in> set droppedResponseHeaders \<or>
              (lower \<notin> set keptResponseHeaders \<and> \<not> has_prefix lower ''x-'')
           then out else AList.update lower (hd vals) out) [] h"

definition enqueue_job :: "export_job \<Rightarrow> exporter \<Rightarrow> exporter" where
  "enqueue_job j e =
     (if length (ex_queue e) < ex_size e then e\<lparr>ex_queue := ex_queue e @ [j]\<rparr>
      else e\<lparr>ex_dropped := ex_dropped e + 1\<rparr>)"

text \<open>The trace id of a request that the route's sampling admits.\<close>

definition admitted :: "captured_request \<Rightarrow> export_route \<Rightarrow> (string \<times> string) option" where
  "admitted req route =
     (let tp = trim_space (header_get (cq_header req) ''Traceparent'')
      in case trace_id_from_traceparent tp of
           None \<Rightarrow> None
         | Some tid \<Rightarrow> if sampled_in tid (ro_pct route) then Some (tp, tid) else None)"

definition handle_ingress :: "route_table \<Rightarrow> string \<Rightarrow> captured_request option \<Rightarrow> exporter \<Rightarrow> exporter" where
  "handle_ingress table dst req0 e =
     (case req0 of
        None \<Rightarrow> e
      | Some req \<Rightarrow>
          (case lookup_route table dst of
             None \<Rightarrow> e
           | Some route \<Rightarrow>
               if ro_igris route = [] then e
               else case admitted req route of
                      None \<Rightarrow> e
                    | Some (tp, tid) \<Rightarrow>
                        enqueue_job (IngressJob (ro_igris route)
                          \<lparr>hr_method = cq_method req, hr_uri = cq_uri req, hr_host = cq_host req,
                           hr_body = cq_body req, hr_traceparent = tp,
                           hr_headers = clone_request_headers (cq_header req)\<rparr>) e))"

definition want_transaction :: "route_table \<Rightarrow> string \<Rightarrow> bool" where
  "want_transaction table src =
     (case lookup_route table src of None \<Rightarrow> False | Some route \<Rightarrow> ro_egress route \<noteq> [])"

definition handle_transaction ::
  "route_table \<Rightarrow> string \<Rightarrow> captured_request option \<Rightarrow> captured_response option \<Rightarrow> exporter \<Rightarrow> exporter" where
  "handle_transaction table src req0 resp0 e =
     (case (req0, resp0) of
        (Some req, Some resp) \<Rightarrow>
          (case lookup_route table src of
             None \<Rightarrow> e
           | Some route \<Rightarrow>
               if ro_egress route = [] then e
               else case admitted req route of
                      None \<Rightarrow> e
                    | Some (tp, tid) \<Rightarrow>
                        enqueue_job (EgressJob (ro_egress route)
                          \<lparr>er_trace_id = tid, er_method = cq_method req, er_host = cq_host req,
                           er_path = cq_uri req, er_status = cs_status resp,
                           er_headers = filter_response_headers (cs_header resp), er_body = cs_body resp\<rparr>) e)
      | _ \<Rightarrow> e)"

end
