(* ===== verification/KaiselRulesProps.thy ===== *)
theory KaiselRulesProps
  imports KaiselRules
begin

text \<open>
  The exporter's table is decided by the rules alone, and the kernel's address map follows the
  rules, as long as no update is dropped and no address is shared.
\<close>

section \<open>Routes\<close>

context first_wins
begin

lemma find_puts_eq:
  "find_row key k (puts rs t) = (case find_row key k t of Some r \<Rightarrow> Some r | None \<Rightarrow> find_row key k rs)"
proof (induction rs arbitrary: t)
  case (Cons r rs)
  show ?case
  proof (cases "find_row key (key r) t")
    case None
    then show ?thesis
      using Cons by (auto simp: fresh find_row_append split: option.splits)
  next
    case (Some x)
    then show ?thesis
      using Cons present [of r t] by (auto split: option.splits)
  qed
qed (simp split: option.split)

end

interpretation routes: first_wins "fst :: string \<times> export_route \<Rightarrow> string" put_route
  unfolding put_route_def [abs_def] by (rule first_wins_insert_once)

definition serves :: "rule_export \<Rightarrow> string \<Rightarrow> bool" where
  "serves rule ip \<longleftrightarrow> (re_igris rule \<noteq> [] \<or> re_egress rule \<noteq> []) \<and> ip \<noteq> [] \<and> ip \<in> set (re_ips rule)"

definition rows_of :: "rule_export \<Rightarrow> (string \<times> export_route) list" where
  "rows_of rule = map (\<lambda>ip. (ip, route_of_rule rule)) (filter (serves rule) (re_ips rule))"

lemma foldl_skip: "foldl (\<lambda>t x. if P x then t else f x t) t xs = foldl (\<lambda>t x. f x t) t (filter (\<lambda>x. \<not> P x) xs)"
  by (induction xs arbitrary: t) auto

lemma add_rule_puts: "add_rule table rule = routes.puts (rows_of rule) table"
proof (cases "re_igris rule = [] \<and> re_egress rule = []")
  case True
  then show ?thesis
    by (simp add: add_rule_def rows_of_def serves_def)
next
  case False
  then have "filter (serves rule) (re_ips rule) = filter (\<lambda>ip. ip \<noteq> []) (re_ips rule)"
    by (auto simp: serves_def intro!: filter_cong)
  then show ?thesis
    unfolding add_rule_def if_not_P [OF False] by (simp add: rows_of_def foldl_skip foldl_map)
qed

lemma rebuild_puts: "rebuild rules = routes.puts (concat (map rows_of (sort_key re_key rules))) []"
proof -
  have "foldl add_rule t rs = routes.puts (concat (map rows_of rs)) t" for t rs
    by (induction rs arbitrary: t) (simp_all add: add_rule_puts)
  then show ?thesis
    by (simp add: rebuild_def)
qed

lemma find_row_map_Pair:
  "find_row fst k (map (\<lambda>x. (x, c)) xs) = (if k \<in> set xs then Some (k, c) else None)"
  by (induction xs) auto

lemma find_rows_of: "find_row fst ip (rows_of rule) = (if serves rule ip then Some (ip, route_of_rule rule) else None)"
  by (auto simp: rows_of_def find_row_map_Pair serves_def)

lemma find_concat_rows:
  "find_row fst ip (concat (map rows_of rs)) =
     map_option (\<lambda>rule. (ip, route_of_rule rule)) (find (\<lambda>rule. serves rule ip) rs)"
  by (induction rs) (auto simp: find_row_append find_rows_of)

lemma map_of_find_row: "map_of t k = map_option snd (find_row fst k t)"
  by (induction t) auto

lemma find_sorted_least:
  assumes "distinct (map f xs)" "sorted (map f xs)"
  shows "find P xs = Some x \<longleftrightarrow> x \<in> set xs \<and> P x \<and> (\<forall>y \<in> set xs. P y \<longrightarrow> f x \<le> (f y :: 'k :: linorder))"
  using assms
proof (induction xs)
  case (Cons a xs)
  have less: "f a < f y" if "y \<in> set xs" for y
    using Cons.prems that by (auto simp: order.strict_iff_order)
  show ?case
  proof (cases "P a")
    case True
    have "\<not> f x \<le> f a" if "x \<in> set xs" for x
      using less [OF that] by simp
    then show ?thesis
      using True less by (auto simp: less_imp_le)
  next
    case False
    then show ?thesis
      using Cons by auto
  qed
qed simp

text \<open>
  C25: The routing table is a function of the set of rules, whatever order the reconciler lists
  them and their addresses in: an address is routed by the rule with the lexicographically least
  name among those that list it and have some URL, and only by such a rule.
\<close>

theorem least_rule_routes:
  assumes "distinct (map re_key rules)"
  shows "lookup_route (rebuild rules) ip = Some route \<longleftrightarrow>
    (\<exists>rule \<in> set rules. serves rule ip \<and> route = route_of_rule rule \<and>
       (\<forall>rule' \<in> set rules. serves rule' ip \<longrightarrow> re_key rule \<le> re_key rule'))"
proof -
  let ?s = "sort_key re_key rules"
  have sorted: "distinct (map re_key ?s)" "sorted (map re_key ?s)"
    using assms by (simp_all add: distinct_map)
  have "lookup_route (rebuild rules) ip = map_option route_of_rule (find (\<lambda>rule. serves rule ip) ?s)"
    by (simp add: lookup_route_def map_of_find_row rebuild_puts routes.find_puts_eq find_concat_rows
        option.map_comp o_def)
  then show ?thesis
    by (auto simp: find_sorted_least [OF sorted])
qed

section \<open>The kernel's addresses\<close>

abbreviation works_always :: "kernel_op \<Rightarrow> bool" where "works_always \<equiv> \<lambda>_. True"

definition target_key :: "string \<Rightarrow> 32 word option" where
  "target_key ip = ip_key (parse_ip ip)"

lemma apply_update_ips:
  "k_ips (apply_update works_always upd m) =
     k_ips (fold (remove_target works_always) (remove_ips upd) (fold (put_target works_always) (add_ips upd) m))"
proof -
  have "k_ips (fold (\<lambda>p. kernel_do works_always (DeletePort p)) ps m) = k_ips m"
    "k_ips (fold (\<lambda>p. kernel_do works_always (PutPort p)) ps m) = k_ips m" for ps m
    by (induction ps arbitrary: m) (auto simp: kernel_do_def)
  then show ?thesis
    by (simp add: apply_update_def)
qed

lemma fold_put_targets:
  "k_ips (fold (put_target works_always) (map (\<lambda>ip. \<lparr>ti_ip = parse_ip ip, ti_pct = c\<rparr>) ips) m) k =
     (if \<exists>ip \<in> set ips. target_key ip = Some k then Some (clamp_pct c) else k_ips m k)"
proof (induction ips arbitrary: m)
  case (Cons ip ips)
  then show ?case
    by (cases "target_key ip") (auto simp: put_target_def kernel_do_def target_key_def)
qed simp

lemma fold_remove_targets:
  "k_ips (fold (remove_target works_always) (map parse_ip ips) m) k =
     (if \<exists>ip \<in> set ips. target_key ip = Some k then None else k_ips m k)"
proof (induction ips arbitrary: m)
  case (Cons ip ips)
  then show ?case
    by (cases "target_key ip") (auto simp: remove_target_def kernel_do_def target_key_def)
qed simp

text \<open>Different spellings of one address do not occur.\<close>

definition canonical :: "string set \<Rightarrow> bool" where
  "canonical ips \<longleftrightarrow> inj_on target_key {ip \<in> ips. target_key ip \<noteq> None}"

lemma canonicalD:
  "canonical S \<Longrightarrow> ip \<in> S \<Longrightarrow> ip' \<in> S \<Longrightarrow> target_key ip = Some k \<Longrightarrow> target_key ip' = Some k \<Longrightarrow> ip = ip'"
  unfolding canonical_def by (erule inj_onD) auto

lemma canonical_subset: "canonical S \<Longrightarrow> T \<subseteq> S \<Longrightarrow> canonical T"
  unfolding canonical_def by (rule inj_on_subset) auto

lemma apply_diff:
  assumes perm: "\<And>xs. set (it_ips it xs) = set xs" and can: "canonical (set (rs_ips old) \<union> set (rs_ips new))"
    and "\<And>ip k. ip \<in> set (rs_ips old) \<Longrightarrow> target_key ip = Some k \<Longrightarrow> k_ips m k = Some (clamp_pct (rs_pct old))"
  shows "k_ips (apply_update works_always (rule_diff it old new) m) k =
    (if \<exists>ip \<in> set (rs_ips new). target_key ip = Some k then Some (clamp_pct (rs_pct new))
     else if \<exists>ip \<in> set (rs_ips old). target_key ip = Some k then None else k_ips m k)"
proof -
  have "k_ips (apply_update works_always (rule_diff it old new) m) k =
      (if \<exists>ip \<in> set (rs_ips old) - set (rs_ips new). target_key ip = Some k then None
       else if \<exists>ip \<in> set (rs_ips new). target_key ip = Some k \<and> (rs_pct old \<noteq> rs_pct new \<or> ip \<notin> set (rs_ips old))
       then Some (clamp_pct (rs_pct new)) else k_ips m k)"
    by (auto simp: apply_update_ips rule_diff_def Let_def fold_remove_targets fold_put_targets perm)
  moreover have "\<not> (\<exists>ip \<in> set (rs_ips old) - set (rs_ips new). target_key ip = Some k)"
    if "ip \<in> set (rs_ips new)" "target_key ip = Some k" for ip
    using that canonicalD [OF can, of ip _ k] by blast
  moreover have "k_ips m k = Some (clamp_pct (rs_pct old))"
    if "ip \<in> set (rs_ips old)" "target_key ip = Some k" for ip
    using that by (rule assms(3))
  ultimately show ?thesis
    by (cases "\<exists>ip \<in> set (rs_ips new). target_key ip = Some k"; cases "rs_pct old = rs_pct new") auto
qed

text \<open>What the rules ask for, and the kernel's map once the queued updates are applied.\<close>

definition wanted :: "(string \<times> rule_state) list \<Rightarrow> 32 word \<Rightarrow> 8 word \<Rightarrow> bool" where
  "wanted rules k v \<longleftrightarrow>
     (\<exists>key st ip. map_of rules key = Some st \<and> ip \<in> set (rs_ips st) \<and> target_key ip = Some k \<and>
        v = clamp_pct (rs_pct st))"

definition in_step :: "kernel_maps \<Rightarrow> reconciler \<Rightarrow> bool" where
  "in_step m r \<longleftrightarrow>
     (\<forall>k v. k_ips (fold (apply_update works_always) (rc_queue r) m) k = Some v \<longleftrightarrow> wanted (rc_rules r) k v)"

definition rule_ips :: "(string \<times> rule_state) list \<Rightarrow> string set" where
  "rule_ips rules = (\<Union>key. set (rs_ips (go_get no_rule rules key)))"

definition unshared :: "(string \<times> rule_state) list \<Rightarrow> bool" where
  "unshared rules \<longleftrightarrow>
     (\<forall>key key' ip. ip \<in> set (rs_ips (go_get no_rule rules key)) \<and>
        ip \<in> set (rs_ips (go_get no_rule rules key')) \<longrightarrow> key = key')"

lemma wanted_go_get:
  "wanted rules k v \<longleftrightarrow>
     (\<exists>key ip. ip \<in> set (rs_ips (go_get no_rule rules key)) \<and> target_key ip = Some k \<and>
        v = clamp_pct (rs_pct (go_get no_rule rules key)))"
  unfolding wanted_def go_get_def by (force simp: no_rule_def split: option.splits)

lemma go_get_delete: "go_get z (AList.delete k m) k' = (if k' = k then z else go_get z m k')"
  by (simp add: go_get_def delete_conv')

lemma apply_no_changes: "\<not> has_changes upd \<Longrightarrow> apply_update works_always upd m = m"
  by (simp add: has_changes_def apply_update_def)

lemma reconcile_cases:
  assumes "reconcile it cap key got r = (ok, r')"
  obtains "ok = False" "r' = r"
  | new rules where "ok = True" "rc_rules r' = rules" "\<And>key'. go_get no_rule rules key' =
        (if key' = key then new else go_get no_rule (rc_rules r) key')"
      "rc_queue r' = enqueue_update cap (rule_diff it (go_get no_rule (rc_rules r) key) new) (rc_queue r)"
  using assms
  by (cases got)
    (auto simp: reconcile_def Let_def go_get_delete split: if_splits)

text \<open>An address of one rule is no address of another, before and after a rule changes.\<close>

lemma others_free:
  assumes "unshared rules" "canonical S" "rule_ips rules \<subseteq> S"
    and "ip \<in> set (rs_ips (go_get no_rule rules key))" "target_key ip = Some k" "key' \<noteq> key"
    and "ip' \<in> set (rs_ips (go_get no_rule rules key'))"
  shows "target_key ip' \<noteq> Some k"
proof
  assume "target_key ip' = Some k"
  moreover have "ip \<in> S" "ip' \<in> S"
    using assms(3,4,7) unfolding rule_ips_def by blast+
  ultimately have "ip' = ip"
    using canonicalD [OF assms(2)] assms(5) by blast
  then show False
    using assms(1,4,6,7) unfolding unshared_def by blast
qed

lemma rule_change_wanted:
  assumes perm: "\<And>xs. set (it_ips it xs) = set xs"
    and upd: "\<And>key'. go_get no_rule rules' key' = (if key' = key then new else go_get no_rule rules key')"
    and un: "unshared rules" "unshared rules'" and can: "canonical (rule_ips rules \<union> rule_ips rules')"
    and before: "\<And>k v. k_ips m k = Some v \<longleftrightarrow> wanted rules k v"
  shows "k_ips (apply_update works_always (rule_diff it (go_get no_rule rules key) new) m) k = Some v \<longleftrightarrow>
    wanted rules' k v"
proof -
  let ?old = "go_get no_rule rules key"
  have "set (rs_ips ?old) \<union> set (rs_ips (go_get no_rule rules' key)) \<subseteq> rule_ips rules \<union> rule_ips rules'"
    unfolding rule_ips_def by blast
  then have can': "canonical (set (rs_ips ?old) \<union> set (rs_ips new))"
    using upd by (intro canonical_subset [OF can]) simp
  have held: "k_ips m k = Some (clamp_pct (rs_pct ?old))" if "ip \<in> set (rs_ips ?old)" "target_key ip = Some k" for ip k
    unfolding before wanted_go_get using that by blast
  have split: "wanted rules' k v \<longleftrightarrow>
      (\<exists>ip \<in> set (rs_ips new). target_key ip = Some k \<and> v = clamp_pct (rs_pct new)) \<or>
      (\<exists>key' ip. key' \<noteq> key \<and> ip \<in> set (rs_ips (go_get no_rule rules key')) \<and>
         target_key ip = Some k \<and> v = clamp_pct (rs_pct (go_get no_rule rules key')))"
    unfolding wanted_go_get upd by auto
  have diff: "k_ips (apply_update works_always (rule_diff it ?old new) m) k =
      (if \<exists>ip \<in> set (rs_ips new). target_key ip = Some k then Some (clamp_pct (rs_pct new))
       else if \<exists>ip \<in> set (rs_ips ?old). target_key ip = Some k then None else k_ips m k)"
    using perm can' held by (rule apply_diff)
  show ?thesis
  proof (cases "(\<exists>ip \<in> set (rs_ips new). target_key ip = Some k) \<or> (\<exists>ip \<in> set (rs_ips ?old). target_key ip = Some k)")
    case True
    have "target_key ip' \<noteq> Some k" if "key' \<noteq> key" "ip' \<in> set (rs_ips (go_get no_rule rules key'))" for key' ip'
      using True that upd others_free [OF un(1) can _ _ _ that] others_free [OF un(2) can _ _ _ that(1)] by fastforce
    then show ?thesis
      unfolding diff split using True by auto
  next
    case False
    then have "k_ips (apply_update works_always (rule_diff it ?old new) m) k = Some v \<longleftrightarrow> wanted rules k v"
      using before by (auto simp: diff)
    moreover have "wanted rules k v \<longleftrightarrow> wanted rules' k v"
      unfolding split wanted_go_get [of rules] using False by auto
    ultimately show ?thesis
      by simp
  qed
qed

text \<open>
  C26: The kernel follows the rules: if the queued updates, once applied, leave the address map with
  exactly the addresses of the known rules and their sample percentages, then this still holds
  after reconciling any rule (new, changed, deleted, or not read), provided the channel has room,
  no two rules share an address, and no address is spelled in two ways.
\<close>

theorem reconcile_keeps_in_step:
  assumes "in_step m r" "reconcile it cap key got r = (ok, r')"
    and perm: "\<And>xs. set (it_ips it xs) = set xs" and room: "length (rc_queue r) < cap"
    and un: "unshared (rc_rules r)" "unshared (rc_rules r')"
    and can: "canonical (rule_ips (rc_rules r) \<union> rule_ips (rc_rules r'))"
  shows "in_step m r'"
  using assms(2)
proof (cases rule: reconcile_cases)
  case 1
  then show ?thesis
    using assms(1) by simp
next
  case (2 new rules)
  let ?m = "fold (apply_update works_always) (rc_queue r) m"
  have "k_ips ?m k = Some v \<longleftrightarrow> wanted (rc_rules r) k v" for k v
    using assms(1) by (simp add: in_step_def)
  moreover have "fold (apply_update works_always) (rc_queue r') m =
      apply_update works_always (rule_diff it (go_get no_rule (rc_rules r) key) new) ?m"
    using 2(4) room by (simp add: enqueue_update_def apply_no_changes)
  ultimately show ?thesis
    unfolding in_step_def using rule_change_wanted [OF perm _ un can] 2(2,3) by simp
qed

text \<open>
  An update dropped on a full channel is never sent: although the reconciler counts on the next
  reconciliation to make up for it, reconciling the same rule again, with any room, finds the rule
  unchanged and enqueues nothing.
\<close>

theorem dropped_update_not_resent:
  assumes "reconcile it cap key (Found spec False) r = (True, r1)" "cap \<le> length (rc_queue r)"
    and "\<And>xs. set (it_ips it' xs) = set xs" "\<And>xs. set (it_ports it' xs) = set xs"
  shows "rc_queue (snd (reconcile it' cap' key (Found spec False) r1)) = rc_queue r"
proof -
  have r1: "rc_queue r1 = rc_queue r" "go_get no_rule (rc_rules r1) key = state_from spec"
    using assms(1,2) by (auto simp: reconcile_def Let_def enqueue_update_def)
  have "filter (\<lambda>x. x \<notin> set ys) xs = []" if "set xs = set ys" for xs ys :: "'x list"
    using that by (simp add: filter_empty_conv)
  then have "\<not> has_changes (rule_diff it' (state_from spec) (state_from spec))"
    using assms(3,4) by (auto simp: has_changes_def rule_diff_def Let_def)
  then show ?thesis
    using r1 by (simp add: reconcile_def Let_def enqueue_update_def)
qed

section \<open>Witnesses\<close>

definition sample_rule :: "string \<Rightarrow> string \<Rightarrow> int \<Rightarrow> rule_export" where
  "sample_rule key url pct =
     \<lparr>re_key = key, re_ips = [''10.99.0.1'', ''10.99.0.2''], re_igris = url, re_egress = [], re_pct = pct\<rparr>"

definition sample_rules :: "rule_export list" where
  "sample_rules = [sample_rule ''ns/b'' ''http://b'' 10, sample_rule ''ns/a'' [] 5, sample_rule ''ns/c'' ''http://c'' 0]"

theorem least_rule_routes_witness:
  "lookup_route (rebuild sample_rules) ''10.99.0.2'' = Some (route_of_rule (sample_rule ''ns/b'' ''http://b'' 10))"
proof -
  have "distinct (map re_key sample_rules)"
    by (simp add: sample_rules_def sample_rule_def)
  moreover have "''ns/b'' \<le> ''ns/c''"
    by code_simp
  ultimately show ?thesis
    by (subst least_rule_routes) (auto simp: sample_rules_def sample_rule_def serves_def)
qed

definition sample_iteration :: iteration where
  "sample_iteration = \<lparr>it_ips = id, it_ports = id, it_rules = id\<rparr>"

definition sample_spec :: rule_spec where
  "sample_spec = \<lparr>sp_ips = [''10.99.0.2''], sp_ports = [80], sp_igris = ''http://igris'', sp_egress = [], sp_pct = 25\<rparr>"

definition no_reconciler :: reconciler where
  "no_reconciler = \<lparr>rc_rules = [], rc_table = [], rc_queue = []\<rparr>"

definition no_maps :: kernel_maps where
  "no_maps = \<lparr>k_ips = Map.empty, k_ports = Map.empty\<rparr>"

lemma no_reconciler_empty: "rc_rules no_reconciler = []" "rc_queue no_reconciler = []"
  by (simp_all add: no_reconciler_def)

lemma sample_reconciled:
  "rc_rules (snd (reconcile sample_iteration cap ''ns/a'' (Found sample_spec False) no_reconciler)) =
     [(''ns/a'', state_from sample_spec)]"
  "rs_ips (state_from sample_spec) = [''10.99.0.2'']" "rs_pct (state_from sample_spec) = 25"
  by (simp_all add: reconcile_def no_reconciler_def Let_def state_from_def sample_spec_def dedup_first_def)

definition sample_reconciler :: reconciler where
  "sample_reconciler = snd (reconcile sample_iteration 4 ''ns/a'' (Found sample_spec False) no_reconciler)"

lemma sample_get:
  "go_get no_rule (rc_rules sample_reconciler) key = (if key = ''ns/a'' then state_from sample_spec else no_rule)"
  "go_get no_rule (rc_rules no_reconciler) key = no_rule"
  by (simp_all add: sample_reconciler_def go_get_def sample_reconciled no_reconciler_empty)

lemma sample_unshared:
  "unshared (rc_rules no_reconciler)" "unshared (rc_rules sample_reconciler)"
  "canonical (rule_ips (rc_rules no_reconciler) \<union> rule_ips (rc_rules sample_reconciler))"
proof -
  show "unshared (rc_rules no_reconciler)" "unshared (rc_rules sample_reconciler)"
    unfolding unshared_def sample_get by (auto simp: no_rule_def split: if_splits)
  have "rule_ips (rc_rules no_reconciler) \<union> rule_ips (rc_rules sample_reconciler) \<subseteq> {''10.99.0.2''}"
    unfolding rule_ips_def sample_get by (auto simp: sample_reconciled no_rule_def split: if_splits)
  moreover have "canonical {''10.99.0.2''}"
    by (simp add: canonical_def inj_on_def)
  ultimately show "canonical (rule_ips (rc_rules no_reconciler) \<union> rule_ips (rc_rules sample_reconciler))"
    by (rule canonical_subset [rotated])
qed

lemma sample_in_step: "in_step no_maps no_reconciler"
  by (simp add: in_step_def wanted_def no_reconciler_empty no_maps_def)

lemma sample_wanted: "wanted (rc_rules sample_reconciler) 0x0A630002 25"
  by (simp add: wanted_def sample_reconciler_def sample_reconciled target_key_def ip_key_example clamp_pct_def)

theorem reconcile_keeps_in_step_witness:
  "k_ips (fold (apply_update works_always) (rc_queue sample_reconciler) no_maps) 0x0A630002 = Some 25"
proof -
  have "reconcile sample_iteration 4 ''ns/a'' (Found sample_spec False) no_reconciler = (True, sample_reconciler)"
    by (simp add: sample_reconciler_def reconcile_def Let_def)
  from reconcile_keeps_in_step [OF sample_in_step this _ _ sample_unshared]
  have "in_step no_maps sample_reconciler"
    by (simp add: sample_iteration_def no_reconciler_empty)
  then show ?thesis
    using sample_wanted by (simp only: in_step_def)
qed

theorem dropped_update_not_resent_witness:
  "rc_queue (snd (reconcile sample_iteration 4 ''ns/a'' (Found sample_spec False)
     (snd (reconcile sample_iteration 0 ''ns/a'' (Found sample_spec False) no_reconciler)))) = []"
proof -
  have "reconcile sample_iteration 0 ''ns/a'' (Found sample_spec False) no_reconciler =
      (True, snd (reconcile sample_iteration 0 ''ns/a'' (Found sample_spec False) no_reconciler))"
    by (simp add: reconcile_def Let_def)
  from dropped_update_not_resent [OF this, of sample_iteration 4] show ?thesis
    by (simp add: sample_iteration_def no_reconciler_empty)
qed

section \<open>Tiers\<close>

text \<open>Tiers in descending order of capability.\<close>

instantiation tier :: linorder
begin

definition less_eq_tier :: "tier \<Rightarrow> tier \<Rightarrow> bool" where
  "less_eq_tier t u \<longleftrightarrow> tier_number t \<le> tier_number u"

definition less_tier :: "tier \<Rightarrow> tier \<Rightarrow> bool" where
  "less_tier t u \<longleftrightarrow> tier_number t < tier_number u"

instance
  by standard (auto simp: less_eq_tier_def less_tier_def tier_number_def split: tier.splits)

end

lemma sorted_tier_candidates: "sorted tier_candidates \<and> set tier_candidates = UNIV"
  using tier.exhaust by (auto simp: tier_candidates_def less_eq_tier_def tier_number_def)

lemma load_program_first:
  "sorted cs \<Longrightarrow> load_program outcome cs = Some t \<Longrightarrow>
   outcome t = Loaded \<and> (\<forall>u \<in> set cs. outcome u = Loaded \<longrightarrow> t \<le> u)"
  by (induction outcome cs rule: load_program.induct) (auto split: if_splits)

text \<open>The program runs in the most capable tier whose build loads, and not at all when none does.\<close>

lemma load_program_best:
  "load_program outcome tier_candidates = Some t \<longleftrightarrow>
     outcome t = Loaded \<and> (\<forall>u. outcome u = Loaded \<longrightarrow> t \<le> u)"
proof
  assume "load_program outcome tier_candidates = Some t"
  then show "outcome t = Loaded \<and> (\<forall>u. outcome u = Loaded \<longrightarrow> t \<le> u)"
    using load_program_first sorted_tier_candidates by blast
next
  assume best: "outcome t = Loaded \<and> (\<forall>u. outcome u = Loaded \<longrightarrow> t \<le> u)"
  then obtain t' where "load_program outcome tier_candidates = Some t'"
    by (cases t; cases "outcome TierBPFLoop = Loaded") (auto simp: tier_candidates_def)
  moreover from this have "t' = t"
    using load_program_first sorted_tier_candidates best by (metis UNIV_I order_antisym)
  ultimately show "load_program outcome tier_candidates = Some t" by simp
qed

end
