(* ===== verification/KaiselDecode.thy ===== *)
theory KaiselDecode
  imports GoHash Tracing "HOL-Library.Sublist"
begin

text \<open>
  \<^verbatim>\<open>pipeline/kaisel/internal/decode\<close>: the choice of the framing of a captured frame, the
  table that joins the two directions of a connection, the buffer a response stream is drained
  into, and the loops that pair requests with responses.  Packet decoding (gopacket) and HTTP
  parsing are arguments: a stream is the sequence of what the parser returns.
\<close>

section \<open>Framing (framing.go, decode.go, capture/link.go)\<close>

datatype framing = FramingRawIP | FramingEthernet

definition framing_offset :: "framing \<Rightarrow> 32 word" where
  "framing_offset f = (case f of FramingRawIP \<Rightarrow> 0 | FramingEthernet \<Rightarrow> 14)"

definition other_framing :: "framing \<Rightarrow> framing" where
  "other_framing f = (if f = FramingEthernet then FramingRawIP else FramingEthernet)"

definition framing_string :: "framing \<Rightarrow> string" where
  "framing_string f = (if f = FramingEthernet then ''ethernet'' else ''rawip'')"

definition arphrdEther :: "32 word" where "arphrdEther = 1"
definition arphrdLoopback :: "32 word" where "arphrdLoopback = 772"

definition framing_from_arphrd :: "32 word \<Rightarrow> framing" where
  "framing_from_arphrd t = (if t = arphrdEther \<or> t = arphrdLoopback then FramingEthernet else FramingRawIP)"

text \<open>The interface type as sysfs gives it, if it can be read.\<close>

definition parse_u32 :: "string \<Rightarrow> 32 word option" where
  "parse_u32 s =
     (if s = [] \<or> \<not> list_all is_digit s then None
      else let n = foldl (\<lambda>n c. 10 * n + (int (of_char c) - 48)) 0 s
           in if n < 2 ^ 32 then Some (of_int n) else None)"

definition detect_framing :: "string option \<Rightarrow> framing option" where
  "detect_framing sysfs =
     Option.bind sysfs (\<lambda>b. map_option framing_from_arphrd (parse_u32 (trim_space b)))"

definition ethertypeIPv4 :: "16 word" where "ethertypeIPv4 = 0x0800"

definition be_u16 :: "bytes \<Rightarrow> 16 word" where
  "be_u16 b = foldl (\<lambda>w c. 256 * w + of_nat (of_char c)) 0 b"

definition plausible :: "bytes \<Rightarrow> framing \<Rightarrow> bool" where
  "plausible b f \<longleftrightarrow>
     (if f = FramingEthernet
      then length b \<ge> 15 \<and> be_u16 (take 2 (drop 12 b)) = ethertypeIPv4 \<and>
           of_char (b ! 14) div 16 = (4 :: nat)
      else length b \<ge> 1 \<and> of_char (b ! 0) div 16 = (4 :: nat))"

text \<open>The first plausible framing under which the decoder finds a network layer.\<close>

definition decode_packet :: "(framing \<Rightarrow> bytes \<Rightarrow> 'p option) \<Rightarrow> bytes \<Rightarrow> framing \<Rightarrow> 'p option" where
  "decode_packet network b f =
     first_some (\<lambda>cand. if plausible b cand then network cand b else None) [f, other_framing f]"

section \<open>Connections (bidi.go)\<close>

definition pairTimeout :: duration where "pairTimeout = 30 * second"
definition pairSweepAge :: duration where "pairSweepAge = 120 * second"
definition pendingDepth :: nat where "pendingDepth = 8"

record endpoint =
  ep_addr :: string
  ep_port :: string

definition endpoint_string :: "endpoint \<Rightarrow> string" where
  "endpoint_string e = ep_addr e @ '':'' @ ep_port e"

text \<open>The same key for both directions of a connection.\<close>

definition conn_key :: "endpoint \<Rightarrow> endpoint \<Rightarrow> string" where
  "conn_key source dest =
     (let s = endpoint_string source; d = endpoint_string dest
      in if s > d then d @ ''|'' @ s else s @ ''|'' @ d)"

text \<open>
  Streams keep the connection they got even when it leaves the table, so connections live in a
  store and the table maps keys to positions of it.
\<close>

record 'r conn =
  cn_pending :: "'r list"
  cn_last_seen :: instant

record 'r conn_table =
  ct_conns :: "(string \<times> nat) list"
  ct_store :: "'r conn list"

definition new_conn_table :: "'r conn_table" where
  "new_conn_table = \<lparr>ct_conns = [], ct_store = []\<rparr>"

definition get_conn :: "instant \<Rightarrow> string \<Rightarrow> 'r conn_table \<Rightarrow> nat \<times> 'r conn_table" where
  "get_conn now key t =
     (case map_of (ct_conns t) key of
        Some i \<Rightarrow> (i, t\<lparr>ct_store := (ct_store t)[i := (ct_store t ! i)\<lparr>cn_last_seen := now\<rparr>]\<rparr>)
      | None \<Rightarrow>
          (length (ct_store t),
           \<lparr>ct_conns = AList.update key (length (ct_store t)) (ct_conns t),
            ct_store = ct_store t @ [\<lparr>cn_pending = [], cn_last_seen = now\<rparr>]\<rparr>))"

definition drop_conn :: "string \<Rightarrow> 'r conn_table \<Rightarrow> 'r conn_table" where
  "drop_conn key t = t\<lparr>ct_conns := AList.delete key (ct_conns t)\<rparr>"

definition sweep :: "instant \<Rightarrow> 'r conn_table \<Rightarrow> 'r conn_table" where
  "sweep now t =
     t\<lparr>ct_conns := filter (\<lambda>(key, i). \<not> cn_last_seen (ct_store t ! i) < now - pairSweepAge) (ct_conns t)\<rparr>"

definition publish :: "'r \<Rightarrow> 'r list \<Rightarrow> bool \<times> 'r list" where
  "publish req pending =
     (if length pending < pendingDepth then (True, pending @ [req]) else (False, pending))"

text \<open>A request if there is one; the timer may fire also when one is waiting.\<close>

definition await :: "bool \<Rightarrow> 'r list \<Rightarrow> ('r option \<times> 'r list) option" where
  "await timerFired pending =
     (if timerFired then Some (None, pending)
      else case pending of [] \<Rightarrow> None | r # rest \<Rightarrow> Some (Some r, rest))"

section \<open>The response buffer (bidi.go)\<close>

record stream_buffer =
  sb_buf :: bytes
  sb_closed :: bool
  sb_over :: bool
  sb_limit :: nat

definition new_stream_buffer :: "nat \<Rightarrow> stream_buffer" where
  "new_stream_buffer limit = \<lparr>sb_buf = [], sb_closed = False, sb_over = False, sb_limit = limit\<rparr>"

definition sb_write :: "bytes \<Rightarrow> stream_buffer \<Rightarrow> nat \<times> stream_buffer" where
  "sb_write p b =
     (length p,
      if sb_over b then b
      else if length (sb_buf b) + length p > sb_limit b then b\<lparr>sb_over := True, sb_buf := []\<rparr>
      else b\<lparr>sb_buf := sb_buf b @ p\<rparr>)"

datatype sb_result = Wait | Overflowed | EndOfFile | ReadBytes bytes

definition sb_read :: "nat \<Rightarrow> stream_buffer \<Rightarrow> sb_result \<times> stream_buffer" where
  "sb_read n b =
     (if sb_buf b = [] \<and> \<not> sb_closed b \<and> \<not> sb_over b then (Wait, b)
      else if sb_over b then (Overflowed, b)
      else if sb_buf b = [] then (EndOfFile, b)
      else (ReadBytes (take n (sb_buf b)), b\<lparr>sb_buf := drop n (sb_buf b)\<rparr>))"

definition sb_close :: "stream_buffer \<Rightarrow> stream_buffer" where
  "sb_close b = b\<lparr>sb_closed := True\<rparr>"

section \<open>Half-streams (http_stream.go)\<close>

definition logBodyCap :: nat where "logBodyCap = 4096"
definition maxEgressBodyBytes :: nat where "maxEgressBodyBytes = 2 ^ 20"
definition responseBufferLimit :: nat where "responseBufferLimit = maxEgressBodyBytes + 64 * 2 ^ 10"
definition responsePrefix :: string where "responsePrefix = ''HTTP/''"

text \<open>Whether a factory pairs: whether transactions are wanted at all, and for this flow.\<close>

definition want_pairing :: "bool \<Rightarrow> ('f \<Rightarrow> bool) option \<Rightarrow> 'f \<Rightarrow> bool" where
  "want_pairing onTransaction wantTransaction requestFlow =
     (onTransaction \<and> (case wantTransaction of None \<Rightarrow> True | Some want \<Rightarrow> want requestFlow))"

datatype half = Discarded | RequestHalf bool | ResponseHalf

text \<open>What a stream becomes once its first bytes are known; the flow is the stream's own.\<close>

definition classify :: "bool \<Rightarrow> ('f \<Rightarrow> bool) option \<Rightarrow> ('f \<Rightarrow> 'f) \<Rightarrow> 'f \<Rightarrow> bytes \<Rightarrow> half" where
  "classify onTransaction wantTransaction reverse netFlow stream =
     (let head = take (length responsePrefix) stream
      in if head = [] then Discarded
         else if head = responsePrefix then
           (if want_pairing onTransaction wantTransaction (reverse netFlow) then ResponseHalf else Discarded)
         else RequestHalf (want_pairing onTransaction wantTransaction netFlow))"

text \<open>
  A connection with both halves.  The history records every parsed request with whether it was
  published, and the responses that were read for a request.
\<close>

record ('r, 's) pairing =
  pg_pairing :: bool
  pg_pending :: "'r list"
  pg_requests :: "('r \<times> bool) list"
  pg_responses :: "'s list"
  pg_transactions :: "('r \<times> 's) list"
  pg_unpaired :: nat
  pg_oversized :: nat
  pg_request_open :: bool
  pg_response_open :: bool

datatype 'r request_read = RequestRead 'r | RequestEof | RequestBad

text \<open>One round of the request loop.\<close>

definition request_round :: "'r request_read \<Rightarrow> ('r, 's) pairing \<Rightarrow> ('r, 's) pairing" where
  "request_round ev s =
     (case ev of
        RequestRead r \<Rightarrow>
          if pg_pairing s then
            (case publish r (pg_pending s) of
               (True, pending) \<Rightarrow> s\<lparr>pg_pending := pending, pg_requests := pg_requests s @ [(r, True)]\<rparr>
             | (False, pending) \<Rightarrow>
                 s\<lparr>pg_unpaired := pg_unpaired s + 1, pg_requests := pg_requests s @ [(r, False)]\<rparr>)
          else s\<lparr>pg_requests := pg_requests s @ [(r, False)]\<rparr>
      | _ \<Rightarrow> s\<lparr>pg_request_open := False\<rparr>)"

definition read_capped_body :: "bytes option \<Rightarrow> bytes option" where
  "read_capped_body body =
     (case body of
        None \<Rightarrow> None
      | Some b \<Rightarrow> let got = take (maxEgressBodyBytes + 1) b
                  in if length got > maxEgressBodyBytes then None else Some got)"

text \<open>
  What a round of the response loop meets: the stream's end or an overflow of its buffer, a
  response for which no request comes in time, one that cannot be parsed, or one with a body that
  can be read or not.
\<close>

datatype 's response_read =
    ResponseEof
  | ResponseOverflow
  | ResponseUnmatched
  | ResponseBad
  | ResponseRead 's "bytes option"

definition response_round ::
  "('s \<Rightarrow> bytes \<Rightarrow> 's) \<Rightarrow> 's response_read \<Rightarrow> ('r, 's) pairing \<Rightarrow> ('r, 's) pairing option" where
  "response_round with_body ev s =
     (case ev of
        ResponseEof \<Rightarrow> Some (s\<lparr>pg_response_open := False\<rparr>)
      | ResponseOverflow \<Rightarrow> Some (s\<lparr>pg_response_open := False, pg_oversized := pg_oversized s + 1\<rparr>)
      | ResponseUnmatched \<Rightarrow>
          (case await True (pg_pending s) of
             Some (None, pending) \<Rightarrow>
               Some (s\<lparr>pg_pending := pending, pg_response_open := False, pg_unpaired := pg_unpaired s + 1\<rparr>)
           | _ \<Rightarrow> None)
      | ResponseBad \<Rightarrow>
          (case await False (pg_pending s) of
             Some (Some r, pending) \<Rightarrow> Some (s\<lparr>pg_pending := pending, pg_response_open := False\<rparr>)
           | _ \<Rightarrow> None)
      | ResponseRead resp body \<Rightarrow>
          (case await False (pg_pending s) of
             Some (Some r, pending) \<Rightarrow>
               (case read_capped_body body of
                  None \<Rightarrow> Some (s\<lparr>pg_pending := pending, pg_response_open := False,
                                 pg_oversized := pg_oversized s + 1\<rparr>)
                | Some b \<Rightarrow>
                    Some (s\<lparr>pg_pending := pending, pg_responses := pg_responses s @ [with_body resp b],
                           pg_transactions := pg_transactions s @ [(r, with_body resp b)]\<rparr>))
           | _ \<Rightarrow> None))"

text \<open>The two loops interleaved; a round that would block is not a step.\<close>

inductive pair_step :: "('s \<Rightarrow> bytes \<Rightarrow> 's) \<Rightarrow> ('r, 's) pairing \<Rightarrow> ('r, 's) pairing \<Rightarrow> bool" for with_body where
  Request: "pg_request_open s \<Longrightarrow> pair_step with_body s (request_round ev s)"
| Response: "pg_response_open s \<Longrightarrow> response_round with_body ev s = Some s' \<Longrightarrow> pair_step with_body s s'"

inductive_cases pair_stepE: "pair_step with_body s s'"

inductive pair_reaches :: "('s \<Rightarrow> bytes \<Rightarrow> 's) \<Rightarrow> ('r, 's) pairing \<Rightarrow> ('r, 's) pairing \<Rightarrow> bool" for with_body where
  start: "pair_reaches with_body s s"
| step: "pair_reaches with_body s s' \<Longrightarrow> pair_step with_body s' s'' \<Longrightarrow> pair_reaches with_body s s''"

definition pairing_start :: "bool \<Rightarrow> ('r, 's) pairing" where
  "pairing_start pairs =
     \<lparr>pg_pairing = pairs, pg_pending = [], pg_requests = [], pg_responses = [], pg_transactions = [],
      pg_unpaired = 0, pg_oversized = 0, pg_request_open = True, pg_response_open = True\<rparr>"

end
