(* ===== verification/KaiselDecodeProps.thy ===== *)
theory KaiselDecodeProps
  imports KaiselDecode
begin

text \<open>
  What the stream decoder of Kaisel guarantees: the key of a connection, the order in which
  requests and responses are paired, and the response buffer.
\<close>

section \<open>The key of a connection\<close>

lemma conn_key_sym: "conn_key a b = conn_key b a"
  by (auto simp: conn_key_def Let_def)

section \<open>Pairing\<close>

definition published :: "('r, 's) pairing \<Rightarrow> 'r list" where
  "published s = map fst (filter snd (pg_requests s))"

definition dropped :: "('r, 's) pairing \<Rightarrow> 'r list" where
  "dropped s = map fst (filter (Not \<circ> snd) (pg_requests s))"

text \<open>
  The requests published so far are those paired, then those waiting; once the response loop has
  ended, the request it stopped on is missing between the two.
\<close>

definition pairing_ok :: "bool \<Rightarrow> ('r, 's) pairing \<Rightarrow> bool" where
  "pairing_ok pairs s \<longleftrightarrow>
     pg_pairing s = pairs \<and> map snd (pg_transactions s) = pg_responses s \<and>
     length (pg_pending s) \<le> pendingDepth \<and>
     (\<exists>lost. published s = map fst (pg_transactions s) @ lost @ pg_pending s \<and>
        (pg_response_open s \<longrightarrow> lost = [])) \<and>
     (pairs \<and> pg_response_open s \<longrightarrow> pg_unpaired s = length (dropped s))"

lemma pairing_ok_start: "pairing_ok pairs (pairing_start pairs)"
  by (simp add: pairing_ok_def pairing_start_def published_def dropped_def)

lemma request_round_ok: "pairing_ok pairs s \<Longrightarrow> pairing_ok pairs (request_round ev s)"
  by (cases ev; cases "pg_response_open s")
     (auto simp: pairing_ok_def request_round_def publish_def published_def dropped_def split: if_splits)

lemma response_round_ok:
  assumes "pairing_ok pairs s" "pg_response_open s" "response_round wb ev s = Some s'"
  shows "pairing_ok pairs s'"
proof (cases "pg_pending s")
  case Nil
  with assms show ?thesis
    by (cases ev) (auto simp: pairing_ok_def response_round_def await_def published_def dropped_def)
next
  case (Cons r rest)
  with assms show ?thesis
    by (cases ev)
       (auto simp: pairing_ok_def response_round_def await_def published_def dropped_def
             split: option.splits)
qed

lemma pair_step_ok: "pair_step wb s s' \<Longrightarrow> pairing_ok pairs s \<Longrightarrow> pairing_ok pairs s'"
  by (auto elim!: pair_stepE intro: request_round_ok response_round_ok)

lemma pair_reaches_ok:
  assumes "pair_reaches wb s s'" and "pairing_ok pairs s"
  shows "pairing_ok pairs s'"
  using assms by (induction) (auto intro: pair_step_ok)

text \<open>
  C27: In every state the two loops of a connection can reach, under every interleaving, the i-th
  transaction handed out joins the i-th request that was published with the i-th response that was
  read; at most pendingDepth requests wait; and while the response loop runs, the published
  requests are exactly those paired followed by those waiting, and on a pairing connection every
  request that found no room is counted as unpaired.
\<close>

theorem transactions_in_order:
  assumes "pair_reaches wb (pairing_start pairs) s"
  shows "(\<forall>i < length (pg_transactions s).
            pg_transactions s ! i = (published s ! i, pg_responses s ! i)) \<and>
         length (pg_responses s) = length (pg_transactions s) \<and>
         length (pg_pending s) \<le> pendingDepth \<and>
         (pg_response_open s \<longrightarrow> published s = map fst (pg_transactions s) @ pg_pending s) \<and>
         (pg_response_open s \<and> pairs \<longrightarrow> pg_unpaired s = length (dropped s))"
proof -
  have ok: "pairing_ok pairs s"
    by (rule pair_reaches_ok[OF assms pairing_ok_start])
  then obtain lost where pub: "published s = map fst (pg_transactions s) @ lost @ pg_pending s"
    and lost: "pg_response_open s \<longrightarrow> lost = []"
    and resp: "pg_responses s = map snd (pg_transactions s)"
    and rest: "length (pg_pending s) \<le> pendingDepth"
      "pg_response_open s \<and> pairs \<longrightarrow> pg_unpaired s = length (dropped s)"
    by (auto simp: pairing_ok_def)
  show ?thesis
    using rest lost by (auto simp: pub resp nth_append)
qed

text \<open>Rounds run one after the other.\<close>

fun rounds :: "('s \<Rightarrow> bytes \<Rightarrow> 's) \<Rightarrow> ('r request_read + 's response_read) list \<Rightarrow> ('r, 's) pairing \<Rightarrow> ('r, 's) pairing option" where
  "rounds wb [] s = Some s"
| "rounds wb (Inl ev # evs) s =
     (if pg_request_open s then rounds wb evs (request_round ev s) else None)"
| "rounds wb (Inr ev # evs) s =
     (if pg_response_open s then Option.bind (response_round wb ev s) (rounds wb evs) else None)"

lemma rounds_reach:
  assumes "rounds wb evs s = Some s'" "pair_reaches wb s0 s"
  shows "pair_reaches wb s0 s'"
  using assms
proof (induction wb evs s rule: rounds.induct)
  case (2 wb ev evs s)
  then show ?case
    by (auto split: if_splits intro: pair_step.Request pair_reaches.step)
next
  case (3 wb ev evs s)
  then show ?case
    by (auto split: if_splits simp: bind_eq_Some_conv)
       (meson pair_step.Response pair_reaches.step)
qed simp

text \<open>Ten requests, the ninth without room, and nine responses.\<close>

definition busy_rounds :: "(nat request_read + nat response_read) list" where
  "busy_rounds =
     map (\<lambda>n. Inl (RequestRead n)) [1, 2, 3, 4, 5, 6, 7, 8, 9] @
     map (\<lambda>n. Inr (ResponseRead n (Some []))) [1, 2, 3, 4, 5, 6, 7, 8] @
     [Inl (RequestRead 10), Inr (ResponseRead 9 (Some []))]"

definition busy_end :: "(nat, nat) pairing" where
  "busy_end =
     \<lparr>pg_pairing = True, pg_pending = [],
      pg_requests = map (\<lambda>n. (n, n \<noteq> 9)) [1, 2, 3, 4, 5, 6, 7, 8, 9, 10],
      pg_responses = [1, 2, 3, 4, 5, 6, 7, 8, 9],
      pg_transactions = zip [1, 2, 3, 4, 5, 6, 7, 8, 10] [1, 2, 3, 4, 5, 6, 7, 8, 9],
      pg_unpaired = 1, pg_oversized = 0, pg_request_open = True, pg_response_open = True\<rparr>"

lemma read_capped_empty: "read_capped_body (Some []) = Some []"
  by (simp add: read_capped_body_def)

lemma busy_rounds_end: "rounds (\<lambda>s b. s) busy_rounds (pairing_start True) = Some busy_end"
  by (simp add: busy_rounds_def busy_end_def pairing_start_def request_round_def publish_def pendingDepth_def
      response_round_def await_def read_capped_empty)

lemma busy_reached: "pair_reaches (\<lambda>s b. s) (pairing_start True) busy_end"
  by (rule rounds_reach[OF busy_rounds_end pair_reaches.start])

theorem transactions_in_order_witness:
  "published busy_end = [1, 2, 3, 4, 5, 6, 7, 8, 10] \<and>
   published busy_end = map fst (pg_transactions busy_end) \<and> pg_transactions busy_end ! 0 = (1, 1)"
proof -
  have "published busy_end = [1, 2, 3, 4, 5, 6, 7, 8, 10]" "pg_responses busy_end ! 0 = 1"
    "pg_pending busy_end = []" "pg_response_open busy_end" "0 < length (pg_transactions busy_end)"
    by (simp_all add: busy_end_def published_def)
  then show ?thesis
    using transactions_in_order[OF busy_reached] by simp
qed

text \<open>A dropped request shifts the pairing: the ninth response goes to the tenth request.\<close>

lemma dropped_request_shifts:
  "pair_reaches (\<lambda>s b. s) (pairing_start True) busy_end \<and> pg_response_open busy_end \<and>
   (10, 9) \<in> List.set (pg_transactions busy_end)"
  using busy_reached by (simp add: busy_end_def)

section \<open>The response buffer\<close>

datatype sb_op = WriteOp bytes | ReadOp nat | CloseOp

fun sb_run :: "sb_op list \<Rightarrow> stream_buffer \<Rightarrow> sb_result list \<times> stream_buffer" where
  "sb_run [] b = ([], b)"
| "sb_run (WriteOp p # ops) b = sb_run ops (snd (sb_write p b))"
| "sb_run (ReadOp n # ops) b =
     (let (r, b') = sb_read n b; (rs, b'') = sb_run ops b' in (r # rs, b''))"
| "sb_run (CloseOp # ops) b = sb_run ops (sb_close b)"

definition handed_out :: "sb_result list \<Rightarrow> bytes" where
  "handed_out rs = concat (map (\<lambda>r. case r of ReadBytes p \<Rightarrow> p | _ \<Rightarrow> []) rs)"

definition written :: "sb_op list \<Rightarrow> bytes" where
  "written ops = concat (map (\<lambda>op. case op of WriteOp p \<Rightarrow> p | _ \<Rightarrow> []) ops)"

lemma handed_out_simps [simp]:
  "handed_out [] = []" "handed_out (ReadBytes p # rs) = p @ handed_out rs"
  "handed_out (Wait # rs) = handed_out rs" "handed_out (Overflowed # rs) = handed_out rs"
  "handed_out (EndOfFile # rs) = handed_out rs"
  by (simp_all add: handed_out_def)

lemma written_simps [simp]:
  "written [] = []" "written (WriteOp p # ops) = p @ written ops"
  "written (ReadOp n # ops) = written ops" "written (CloseOp # ops) = written ops"
  by (simp_all add: written_def)

definition sb_ok :: "stream_buffer \<Rightarrow> bool" where
  "sb_ok b \<longleftrightarrow> length (sb_buf b) \<le> sb_limit b \<and> (sb_over b \<longrightarrow> sb_buf b = [])"

lemma sb_ok_steps [intro]:
  "sb_ok (new_stream_buffer limit)"
  "sb_ok b \<Longrightarrow> sb_ok (snd (sb_write p b))"
  "sb_ok b \<Longrightarrow> sb_ok (snd (sb_read n b))"
  "sb_ok b \<Longrightarrow> sb_ok (sb_close b)"
  by (auto simp: sb_ok_def new_stream_buffer_def sb_write_def sb_read_def sb_close_def)

lemma sb_over_stays:
  assumes "sb_run ops b = (rs, b')" "sb_over b" "sb_ok b"
  shows "handed_out rs = [] \<and> sb_over b'"
  using assms
proof (induction ops b arbitrary: rs b' rule: sb_run.induct)
  case (2 p ops b)
  then show ?case by (auto simp: sb_write_def)
next
  case (3 n ops b)
  then show ?case by (auto simp: sb_read_def split: prod.splits if_splits)
next
  case (4 ops b)
  then show ?case by (auto simp: sb_close_def sb_ok_def)
qed simp

lemma sb_run_accounts:
  assumes "sb_run ops b = (rs, b')" "sb_ok b"
  shows "sb_ok b' \<and> sb_limit b' = sb_limit b \<and> prefix (handed_out rs) (sb_buf b @ written ops) \<and>
         (\<not> sb_over b' \<longrightarrow> handed_out rs @ sb_buf b' = sb_buf b @ written ops)"
  using assms
proof (induction ops b arbitrary: rs b' rule: sb_run.induct)
  case (2 p ops b)
  have run: "sb_run ops (snd (sb_write p b)) = (rs, b')" using 2 by simp
  note IH = "2.IH"[OF run sb_ok_steps(2)[OF "2.prems"(2)]]
  consider "sb_over b" | "\<not> sb_over b" "length (sb_buf b) + length p > sb_limit b"
    | "\<not> sb_over b" "\<not> length (sb_buf b) + length p > sb_limit b" by blast
  then show ?case
  proof cases
    case 1
    with sb_over_stays[OF run] "2.prems" IH show ?thesis by (auto simp: sb_write_def)
  next
    case 2
    with sb_over_stays[OF run] "2.prems" IH show ?thesis by (auto simp: sb_write_def sb_ok_def)
  next
    case 3
    with IH show ?thesis by (simp add: sb_write_def)
  qed
next
  case (3 n ops b)
  obtain r b1 rs1 where r: "sb_read n b = (r, b1)" and run: "sb_run ops b1 = (rs1, b')" and rs: "rs = r # rs1"
    using "3.prems"(1) by (auto split: prod.splits)
  have "sb_ok b1" using sb_ok_steps(3)[OF "3.prems"(2), of n] r by simp
  note IH = "3.IH"[OF r[symmetric] refl run this]
  show ?case
  proof (cases r)
    case (ReadBytes p)
    then have "p = take n (sb_buf b)" "b1 = b\<lparr>sb_buf := drop n (sb_buf b)\<rparr>"
      using r by (auto simp: sb_read_def split: if_splits)
    then show ?thesis using IH ReadBytes
      by (auto simp: rs prefix_def) (metis append.assoc append_take_drop_id)+
  qed (use IH r in \<open>auto simp: rs sb_read_def split: if_splits\<close>)
next
  case (4 ops b)
  have run: "sb_run ops (sb_close b) = (rs, b')" using 4 by simp
  show ?case using "4.IH"[OF run sb_ok_steps(4)[OF "4.prems"(2)]] by (simp add: sb_close_def)
qed simp

text \<open>
  The buffer between the assembler and the parser of the responses never holds more than its
  limit, whatever is written, read and closed in whatever order; what reads hand out is always a
  prefix of what was written, in order; and unless the buffer has overflowed nothing is lost: what
  was handed out, followed by what is held, is what was written.  A read that reports the end of
  the stream comes after all of it.
\<close>

theorem response_buffer_prefix:
  assumes run: "sb_run ops (new_stream_buffer limit) = (rs, b)"
  shows "length (sb_buf b) \<le> limit \<and> prefix (handed_out rs) (written ops) \<and>
         (\<not> sb_over b \<longrightarrow> handed_out rs @ sb_buf b = written ops) \<and>
         (fst (sb_read n b) = EndOfFile \<longrightarrow> sb_closed b \<and> handed_out rs = written ops)"
proof -
  have acc: "sb_ok b \<and> sb_limit b = limit \<and> prefix (handed_out rs) (written ops) \<and>
        (\<not> sb_over b \<longrightarrow> handed_out rs @ sb_buf b = written ops)"
    using sb_run_accounts[OF run sb_ok_steps(1)] by (simp add: new_stream_buffer_def)
  have "fst (sb_read n b) = EndOfFile \<longrightarrow> sb_closed b \<and> \<not> sb_over b \<and> sb_buf b = []"
    by (auto simp: sb_read_def)
  with acc show ?thesis by (auto simp: sb_ok_def)
qed

theorem response_buffer_prefix_witness:
  "handed_out [ReadBytes ''HT'', ReadBytes ''TP/'', Wait] @ [] = ''HTTP/''"
proof -
  have run: "sb_run [WriteOp ''HTT'', ReadOp 2, WriteOp ''P/'', ReadOp 9, ReadOp 9] (new_stream_buffer 6) =
    ([ReadBytes ''HT'', ReadBytes ''TP/'', Wait],
     \<lparr>sb_buf = [], sb_closed = False, sb_over = False, sb_limit = 6\<rparr>)"
    by code_simp
  show ?thesis
    using response_buffer_prefix[OF run, of 1] by simp
qed

end
