(* ===== verification/S3Store.thy ===== *)
theory S3Store
  imports GoJson
begin

text \<open>
  \<^verbatim>\<open>pipeline/pkg/s3utils\<close>: the configuration of a recording session, the buffered
  uploader, the reader and the deleter.  The S3 service is a parameter: what it answers to a
  list, get, put or delete request is an argument.  Error values are their messages.
\<close>

section \<open>Configuration (uploader.go)\<close>

definition DataTypeIngress :: string where "DataTypeIngress = ''ingress''"
definition DataTypeEgress :: string where "DataTypeEgress = ''egress''"
definition ModeRecord :: string where "ModeRecord = ''record''"
definition ModeReplay :: string where "ModeReplay = ''replay''"
definition defaultFlushInterval :: duration where "defaultFlushInterval = 5 * 10 ^ 9"
definition defaultFlushSize :: int where "defaultFlushSize = 100"

record s3_config =
  sc_bucket :: string
  sc_endpoint :: string
  sc_region :: string
  sc_namespace :: string
  sc_test :: string
  sc_session :: string
  sc_data_type :: string
  sc_flush_interval :: duration
  sc_flush_size :: int

definition validate_config :: "s3_config \<Rightarrow> string option" where
  "validate_config c =
     (if sc_data_type c \<noteq> DataTypeIngress \<and> sc_data_type c \<noteq> DataTypeEgress
      then Some (''s3utils: dataType must be '' @ json_quote DataTypeIngress @ '' or '' @ json_quote DataTypeEgress)
      else if sc_bucket c = [] then Some ''s3utils: S3_BUCKET is required''
      else if sc_namespace c = [] then Some ''s3utils: TEST_NAMESPACE is required''
      else if sc_test c = [] then Some ''s3utils: TEST_NAME is required''
      else if sc_session c = [] then Some ''s3utils: SESSION_ID is required''
      else None)"

definition config_from_env :: "(string \<Rightarrow> string) \<Rightarrow> string \<Rightarrow> string + s3_config" where
  "config_from_env getenv dataType =
     (let get = (\<lambda>k. trim_space (getenv k));
          region = get ''S3_REGION'';
          cfg = \<lparr>sc_bucket = get ''S3_BUCKET'', sc_endpoint = get ''S3_ENDPOINT'',
                 sc_region = (if region = [] then ''us-east-1'' else region),
                 sc_namespace = get ''TEST_NAMESPACE'', sc_test = get ''TEST_NAME'',
                 sc_session = get ''SESSION_ID'', sc_data_type = trim_space dataType,
                 sc_flush_interval = 0, sc_flush_size = 0\<rparr>
      in case validate_config cfg of Some e \<Rightarrow> Inl e | None \<Rightarrow> Inr cfg)"

definition test_key_prefix :: "string \<Rightarrow> string \<Rightarrow> string" where
  "test_key_prefix namespace testName = ''shadow-diff/'' @ namespace @ ''/'' @ testName @ ''/''"

definition object_key_prefix :: "s3_config \<Rightarrow> string" where
  "object_key_prefix c =
     ''shadow-diff/'' @ sc_namespace c @ ''/'' @ sc_test c @ ''/sessions/'' @ sc_session c @ ''/'' @
     sc_data_type c @ ''/''"

definition require_operating_mode :: "(string \<Rightarrow> string) \<Rightarrow> string + string" where
  "require_operating_mode getenv =
     (let m = to_lower (trim_space (getenv ''OPERATING_MODE''))
      in if m = ModeRecord \<or> m = ModeReplay then Inr m
         else if m = [] then Inl ''s3utils: OPERATING_MODE is required (record|replay)''
         else Inl (''s3utils: OPERATING_MODE '' @ json_quote m @ '' invalid (want record|replay)''))"

lemma object_key_prefix_session:
  "object_key_prefix c =
     test_key_prefix (sc_namespace c) (sc_test c) @ ''sessions/'' @ sc_session c @ ''/'' @ sc_data_type c @ ''/''"
  by (simp add: object_key_prefix_def test_key_prefix_def)

section \<open>The uploader\<close>

record uploader =
  up_config :: s3_config
  up_buf :: "bytes list"

definition new_batch_uploader :: "s3_config \<Rightarrow> uploader" where
  "new_batch_uploader cfg =
     \<lparr>up_config = cfg
        \<lparr>sc_flush_interval := (if sc_flush_interval cfg \<le> 0 then defaultFlushInterval else sc_flush_interval cfg),
         sc_flush_size := (if sc_flush_size cfg \<le> 0 then defaultFlushSize else sc_flush_size cfg)\<rparr>,
      up_buf = []\<rparr>"

definition batch_uploader :: "s3_config \<Rightarrow> string + uploader" where
  "batch_uploader cfg =
     (case validate_config cfg of Some e \<Rightarrow> Inl e | None \<Rightarrow> Inr (new_batch_uploader cfg))"

text \<open>
  The critical section of \<^verbatim>\<open>Add\<close>, given what marshalling the record gave; the answer says
  whether the caller flushes before it returns.
\<close>

definition uploader_add :: "string + bytes \<Rightarrow> uploader \<Rightarrow> (string + bool) \<times> uploader" where
  "uploader_add marshalled u =
     (case marshalled of
        Inl e \<Rightarrow> (Inl (''s3utils: marshal record: '' @ e), u)
      | Inr raw \<Rightarrow>
          let buf = up_buf u @ [raw]
          in (Inr (int (length buf) \<ge> sc_flush_size (up_config u)), u\<lparr>up_buf := buf\<rparr>))"

text \<open>\<^verbatim>\<open>flush\<close> takes the buffer, puts one object without the lock, and on an error puts the batch back.\<close>

definition take_batch :: "uploader \<Rightarrow> bytes list option \<times> uploader" where
  "take_batch u = (if up_buf u = [] then (None, u) else (Some (up_buf u), u\<lparr>up_buf := []\<rparr>))"

definition newline :: string where "newline = [CHR 0x0A]"

definition batch_body :: "bytes list \<Rightarrow> bytes" where
  "batch_body batch = join_with newline batch @ newline"

definition object_key :: "s3_config \<Rightarrow> int \<Rightarrow> string \<Rightarrow> string" where
  "object_key c millis uuid = object_key_prefix c @ itoz millis @ ''-'' @ uuid @ ''.jsonl''"

definition finish_flush :: "bool \<Rightarrow> bytes list \<Rightarrow> uploader \<Rightarrow> uploader" where
  "finish_flush putOk batch u = (if putOk then u else u\<lparr>up_buf := batch @ up_buf u\<rparr>)"

text \<open>One flush from take to put, as the loop runs it when it is stopped and then returns.\<close>

definition final_flush :: "bool \<Rightarrow> uploader \<Rightarrow> uploader" where
  "final_flush putOk u =
     (case take_batch u of (None, u') \<Rightarrow> u' | (Some batch, u') \<Rightarrow> finish_flush putOk batch u')"

text \<open>
  The uploader among its callers: the batches being put (by the ticker and by callers of
  \<^verbatim>\<open>Add\<close> at once), the objects in the bucket, and every record \<^verbatim>\<open>Add\<close> has accepted.
  A put that reports an error may have stored the object all the same.  A new identifier is not
  in use.
\<close>

record upload_state =
  us_uploader :: uploader
  us_flushing :: "bytes list list"
  us_objects :: "(string \<times> bytes) list"
  us_accepted :: "bytes list"

inductive upload_step :: "upload_state \<Rightarrow> upload_state \<Rightarrow> bool" where
  Add: "uploader_add (Inr raw) (us_uploader s) = (Inr full, u) \<Longrightarrow>
     upload_step s (s\<lparr>us_uploader := u, us_accepted := us_accepted s @ [raw]\<rparr>)"
| TakeBatch: "take_batch (us_uploader s) = (Some batch, u) \<Longrightarrow>
     upload_step s (s\<lparr>us_uploader := u, us_flushing := us_flushing s @ [batch]\<rparr>)"
| Put: "us_flushing s = xs @ batch # ys \<Longrightarrow> putOk \<longrightarrow> stored \<Longrightarrow>
     key = object_key (up_config (us_uploader s)) millis uuid \<Longrightarrow>
     key \<notin> fst ` set (us_objects s) \<Longrightarrow>
     upload_step s (s\<lparr>us_uploader := finish_flush putOk batch (us_uploader s), us_flushing := xs @ ys,
       us_objects := (if stored then us_objects s @ [(key, batch_body batch)] else us_objects s)\<rparr>)"

inductive_cases upload_stepE: "upload_step s s'"

inductive upload_reaches :: "upload_state \<Rightarrow> upload_state \<Rightarrow> bool" where
  start: "upload_reaches s s"
| step: "upload_reaches s s' \<Longrightarrow> upload_step s' s'' \<Longrightarrow> upload_reaches s s''"

definition upload_start :: "s3_config \<Rightarrow> upload_state" where
  "upload_start cfg =
     \<lparr>us_uploader = new_batch_uploader cfg, us_flushing = [], us_objects = [], us_accepted = []\<rparr>"

section \<open>The reader (reader.go)\<close>

type_synonym list_keys = "string \<Rightarrow> string + string list"
type_synonym get_object = "string \<Rightarrow> string + bytes"

definition list_jsonl_keys :: "list_keys \<Rightarrow> s3_config \<Rightarrow> string + string list" where
  "list_jsonl_keys list c =
     (case list (object_key_prefix c) of
        Inl e \<Rightarrow> Inl e
      | Inr keys \<Rightarrow>
          Inr (sort (filter (\<lambda>k. \<not> has_suffix k ''/'' \<and> has_suffix k ''.jsonl'') keys)))"

text \<open>The lines of one object that are not blank, without surrounding white space.\<close>

definition object_lines :: "bytes \<Rightarrow> bytes list" where
  "object_lines body = filter (\<lambda>l. l \<noteq> []) (map trim_space (split_on (CHR 0x0A) body))"

fun read_objects :: "get_object \<Rightarrow> string list \<Rightarrow> string + bytes list" where
  "read_objects get [] = Inr []"
| "read_objects get (key # keys) =
     (case get key of
        Inl e \<Rightarrow> Inl (''s3utils: get '' @ key @ '': '' @ e)
      | Inr body \<Rightarrow>
          (case read_objects get keys of
             Inl e \<Rightarrow> Inl e
           | Inr lines \<Rightarrow> Inr (object_lines body @ lines)))"

definition read_all_jsonl :: "list_keys \<Rightarrow> get_object \<Rightarrow> s3_config \<Rightarrow> string + bytes list" where
  "read_all_jsonl list get c =
     (case list_jsonl_keys list c of Inl e \<Rightarrow> Inl e | Inr keys \<Rightarrow> read_objects get keys)"

text \<open>The pages a bucket is listed in, up to the first that is not truncated or fails.\<close>

record list_page =
  lp_keys :: "string option list"
  lp_truncated :: bool

fun list_pages :: "string \<Rightarrow> (string + list_page) list \<Rightarrow> string list \<Rightarrow> (string + string list) option" where
  "list_pages prefix [] keys = None"
| "list_pages prefix (Inl e # pages) keys =
     Some (Inl (''s3utils: list '' @ json_quote prefix @ '': '' @ e))"
| "list_pages prefix (Inr page # pages) keys =
     (let keys' = keys @ List.map_filter id (lp_keys page)
      in if lp_truncated page then list_pages prefix pages keys' else Some (Inr keys'))"

section \<open>The deleter (deleter.go)\<close>

definition deleteBatchSize :: nat where "deleteBatchSize = 1000"

text \<open>
  The loop over the listed keys: \<^verbatim>\<open>del\<close> is the answer to the n-th delete request.  The
  result is the error, if any, with the batches requested.
\<close>

fun delete_loop ::
  "(nat \<Rightarrow> string option) \<Rightarrow> string \<Rightarrow> string list \<Rightarrow> string list \<Rightarrow> string list list \<Rightarrow> string option \<times> string list list" where
  "delete_loop del prefix [] batch sent =
     (if batch \<noteq> [] then (del (length sent), sent @ [batch]) else (None, sent))"
| "delete_loop del prefix (k # ks) batch sent =
     (if has_suffix k ''/'' \<and> k = prefix then delete_loop del prefix ks batch sent
      else
        let batch' = batch @ [k]
        in if length batch' \<ge> deleteBatchSize
           then (case del (length sent) of
                   Some e \<Rightarrow> (Some e, sent @ [batch'])
                 | None \<Rightarrow> delete_loop del prefix ks [] (sent @ [batch']))
           else delete_loop del prefix ks batch' sent)"

definition delete_prefix_with ::
  "list_keys \<Rightarrow> (nat \<Rightarrow> string option) \<Rightarrow> string \<Rightarrow> string option \<times> string list list" where
  "delete_prefix_with list del prefix =
     (case list prefix of Inl e \<Rightarrow> (Some e, []) | Inr keys \<Rightarrow> delete_loop del prefix keys [] [])"

definition delete_prefix ::
  "list_keys \<Rightarrow> (nat \<Rightarrow> string option) \<Rightarrow> s3_config \<Rightarrow> string \<Rightarrow> string option \<times> string list list" where
  "delete_prefix list del c prefix0 =
     (let prefix = trim_space prefix0
      in if trim_space (sc_bucket c) = [] then (Some ''s3utils: bucket is required for DeletePrefix'', [])
         else if prefix = [] then (Some ''s3utils: prefix is required for DeletePrefix'', [])
         else delete_prefix_with list del prefix)"

end
