(* ===== verification/S3StoreProps.thy ===== *)
theory S3StoreProps
  imports S3Store "HOL-Library.Multiset"
begin

text \<open>
  What the uploader promises to the reader: an object reads back as the batch it was written from,
  and no accepted record is lost between buffer, uploads in progress and bucket.
\<close>

section \<open>An object reads back\<close>

definition line_ok :: "bytes \<Rightarrow> bool" where
  "line_ok l \<longleftrightarrow> l \<noteq> [] \<and> CHR 0x0A \<notin> set l \<and> trim_space l = l"

lemma split_on_joined:
  "\<forall>l \<in> set (b # bs). CHR 0x0A \<notin> set l \<Longrightarrow>
   split_on (CHR 0x0A) (join_with newline (b # bs) @ newline) = b # bs @ [[]]"
proof (induction bs arbitrary: b)
  case Nil
  then show ?case using split_on_append [of "CHR 0x0A" b "[]"] by (simp add: newline_def)
next
  case (Cons b' bs)
  then show ?case
    using split_on_append [of "CHR 0x0A" b "join_with newline (b' # bs) @ newline"]
    by (simp add: newline_def)
qed

lemma object_lines_batch:
  assumes "\<forall>l \<in> set batch. line_ok l"
  shows "object_lines (batch_body batch) = batch"
proof (cases batch)
  case Nil
  then show ?thesis by (simp add: object_lines_def batch_body_def newline_def trim_space_def trim_left_def)
next
  case (Cons b bs)
  have "split_on (CHR 0x0A) (batch_body batch) = batch @ [[]]"
    using assms split_on_joined [of b bs] by (simp add: batch_body_def Cons line_ok_def)
  moreover have "filter (\<lambda>l. l \<noteq> []) (map trim_space batch) = batch"
    using assms by (induction batch) (auto simp: line_ok_def)
  ultimately show ?thesis
    by (simp add: object_lines_def trim_space_def trim_left_def)
qed

section \<open>Nothing is lost\<close>

definition stored_lines :: "upload_state \<Rightarrow> bytes list" where
  "stored_lines s = concat (map (object_lines \<circ> snd) (us_objects s))"

definition held_lines :: "upload_state \<Rightarrow> bytes list" where
  "held_lines s = concat (us_flushing s) @ up_buf (us_uploader s)"

definition upload_ok :: "upload_state \<Rightarrow> bool" where
  "upload_ok s \<longleftrightarrow>
     (\<forall>l \<in> set (held_lines s). line_ok l) \<and>
     mset (us_accepted s) \<subseteq># mset (stored_lines s) + mset (held_lines s) \<and>
     set (stored_lines s) \<union> set (held_lines s) \<subseteq> set (us_accepted s) \<and>
     distinct (map fst (us_objects s)) \<and>
     (\<forall>(k, b) \<in> set (us_objects s). has_suffix k ''.jsonl'')"

lemma upload_ok_start: "upload_ok (upload_start cfg)"
  by (simp add: upload_ok_def upload_start_def stored_lines_def held_lines_def new_batch_uploader_def)

lemma object_key_suffix: "has_suffix (object_key c n u) ''.jsonl''"
  by (simp add: object_key_def has_suffix_def has_prefix_def)

lemma upload_step_ok:
  assumes "upload_step s s'" "upload_ok s" "\<forall>l \<in> set (us_accepted s'). line_ok l"
  shows "upload_ok s'"
  using assms(1)
proof cases
  case (Add raw full u)
  then have u: "u = (us_uploader s)\<lparr>up_buf := up_buf (us_uploader s) @ [raw]\<rparr>"
    by (simp add: uploader_add_def)
  have "mset (us_accepted s) + {#raw#} \<subseteq># mset (stored_lines s) + mset (held_lines s) + {#raw#}"
    using assms(2) by (simp add: upload_ok_def)
  then show ?thesis
    using assms(2,3) by (auto simp: Add u upload_ok_def stored_lines_def held_lines_def)
next
  case (TakeBatch batch u)
  then have u: "batch = up_buf (us_uploader s)" "u = (us_uploader s)\<lparr>up_buf := []\<rparr>"
    by (auto simp: take_batch_def split: if_splits)
  then have "held_lines s' = held_lines s" "stored_lines s' = stored_lines s"
    by (simp_all add: TakeBatch held_lines_def stored_lines_def)
  then show ?thesis
    using assms(2) by (simp add: TakeBatch u upload_ok_def)
next
  case (Put xs batch ys putOk stored key millis uuid)
  have held: "mset (held_lines s) = mset batch + mset (concat (xs @ ys)) + mset (up_buf (us_uploader s))"
    by (simp add: held_lines_def Put)
  have lines: "object_lines (batch_body batch) = batch"
    using assms(2) by (intro object_lines_batch) (simp add: upload_ok_def held_lines_def Put)
  have held': "mset (held_lines s') =
      mset (concat (xs @ ys)) + (if putOk then {#} else mset batch) + mset (up_buf (us_uploader s))"
    by (simp add: Put held_lines_def finish_flush_def)
  have stored': "mset (stored_lines s') = mset (stored_lines s) + (if stored then mset batch else {#})"
    by (simp add: Put stored_lines_def lines)
  have acc: "us_accepted s' = us_accepted s" by (simp add: Put)
  have "mset (us_accepted s) \<subseteq># mset (stored_lines s) + mset (held_lines s)"
    using assms(2) by (simp add: upload_ok_def)
  also have "\<dots> \<subseteq># mset (stored_lines s') + mset (held_lines s')"
    using Put(3) by (cases putOk; cases stored) (simp_all add: held held' stored' add.assoc add.left_commute)
  finally have sub: "mset (us_accepted s') \<subseteq># mset (stored_lines s') + mset (held_lines s')"
    by (simp add: acc)
  have "set_mset (mset (stored_lines s') + mset (held_lines s')) \<subseteq>
      set_mset (mset (stored_lines s) + mset (held_lines s))"
    unfolding held held' stored' by auto
  then have sets: "set (stored_lines s') \<union> set (held_lines s') \<subseteq> set (stored_lines s) \<union> set (held_lines s)"
      "set (held_lines s') \<subseteq> set (held_lines s)"
    using held held' by (auto simp flip: set_mset_mset)
  have "distinct (map fst (us_objects s'))"
    "\<forall>(k, b) \<in> set (us_objects s'). has_suffix k ''.jsonl''"
    using assms(2) Put by (auto simp: upload_ok_def object_key_suffix)
  with sub sets assms(2) show ?thesis
    unfolding upload_ok_def acc by blast
qed

lemma upload_reaches_ok:
  assumes "upload_reaches s s'" "upload_ok s" "\<forall>l \<in> set (us_accepted s'). line_ok l"
  shows "upload_ok s'"
  using assms
proof induction
  case (step s s' s'')
  have "set (us_accepted s') \<subseteq> set (us_accepted s'')"
    using step.hyps(2) by cases auto
  with step show ?case
    by (meson subsetD upload_step_ok)
qed

text \<open>
  C29: Whatever the order in which callers add records, the ticker and full buffers start flushes,
  and puts succeed or fail, every record \<^verbatim>\<open>Add\<close> has accepted is, as often as it was accepted, in
  the lines the reader finds in the stored objects, in a batch being put, or in the buffer; and the
  lines of the objects hold accepted records only.
\<close>

theorem uploader_no_loss:
  assumes "upload_reaches (upload_start cfg) s" "\<forall>l \<in> set (us_accepted s). line_ok l"
  shows "mset (us_accepted s) \<subseteq># mset (concat (map (object_lines \<circ> snd) (us_objects s))) +
           mset (concat (us_flushing s)) + mset (up_buf (us_uploader s)) \<and>
         set (concat (map (object_lines \<circ> snd) (us_objects s))) \<subseteq> set (us_accepted s) \<and>
         distinct (map fst (us_objects s))"
  using upload_reaches_ok [OF assms(1) upload_ok_start assms(2)]
  by (simp add: upload_ok_def stored_lines_def held_lines_def add.assoc)

text \<open>A record, a flush whose put fails, a second record, and a flush that succeeds.\<close>

definition sample_config :: s3_config where
  "sample_config =
     \<lparr>sc_bucket = ''b'', sc_endpoint = [], sc_region = ''us-east-1'', sc_namespace = ''ns'', sc_test = ''t'',
      sc_session = ''s'', sc_data_type = DataTypeEgress, sc_flush_interval = 0, sc_flush_size = 0\<rparr>"

definition sample_upload :: "bytes list \<Rightarrow> bytes list list \<Rightarrow> (string \<times> bytes) list \<Rightarrow> bytes list \<Rightarrow> upload_state" where
  "sample_upload buf flushing objects accepted =
     \<lparr>us_uploader = (new_batch_uploader sample_config)\<lparr>up_buf := buf\<rparr>, us_flushing = flushing,
      us_objects = objects, us_accepted = accepted\<rparr>"

definition sample_object :: "string \<times> bytes" where
  "sample_object = (object_key sample_config 7 ''u'', batch_body [''{}'', ''[]''])"

lemma object_key_new: "object_key (up_config (new_batch_uploader cfg)) n u = object_key cfg n u"
  by (simp add: object_key_def object_key_prefix_def new_batch_uploader_def)

lemma sample_upload_start: "upload_start sample_config = sample_upload [] [] [] []"
  by (simp add: upload_start_def sample_upload_def new_batch_uploader_def)

lemma sample_add:
  "upload_step (sample_upload buf fl obs acc) (sample_upload (buf @ [raw]) fl obs (acc @ [raw]))"
  using upload_step.Add [of raw "sample_upload buf fl obs acc"]
  by (simp add: sample_upload_def uploader_add_def new_batch_uploader_def Let_def)

lemma sample_take:
  "upload_step (sample_upload (b # bs) fl obs acc) (sample_upload [] (fl @ [b # bs]) obs acc)"
  using upload_step.TakeBatch [of "sample_upload (b # bs) fl obs acc"]
  by (simp add: sample_upload_def take_batch_def new_batch_uploader_def)

lemma sample_put_fails:
  "upload_step (sample_upload buf [batch] [] acc) (sample_upload (batch @ buf) [] [] acc)"
  using upload_step.Put [of "sample_upload buf [batch] [] acc" "[]" batch "[]" False False]
  by (simp add: sample_upload_def finish_flush_def new_batch_uploader_def)

lemma sample_put:
  "upload_step (sample_upload [] [batch] [] acc)
     (sample_upload [] [] [(object_key sample_config 7 ''u'', batch_body batch)] acc)"
  using upload_step.Put [of "sample_upload [] [batch] [] acc" "[]" batch "[]" True True
      "object_key sample_config 7 ''u''" 7 "''u''"] object_key_new [of sample_config]
  by (simp add: sample_upload_def finish_flush_def)

lemma sample_record_reached:
  "upload_reaches (upload_start sample_config)
     (sample_upload [] [] [(object_key sample_config 7 ''u'', batch_body [line])] [line])"
proof -
  note go = upload_reaches.step
  have "upload_reaches (sample_upload [] [] [] []) (sample_upload [line] [] [] [line])"
    using go [OF upload_reaches.start sample_add [of "[]" "[]" "[]" "[]" line]] by simp
  from go [OF go [OF this sample_take], unfolded append_Nil, OF sample_put] show ?thesis
    unfolding sample_upload_start .
qed

lemma sample_upload_reached:
  "upload_reaches (upload_start sample_config) (sample_upload [] [] [sample_object] [''{}'', ''[]''])"
proof -
  note go = upload_reaches.step
  have 1: "upload_reaches (sample_upload [] [] [] []) (sample_upload [''{}''] [] [] [''{}''])"
    using go [OF upload_reaches.start sample_add [of "[]" "[]" "[]" "[]" "''{}''"]] by simp
  have 2: "upload_reaches (sample_upload [] [] [] []) (sample_upload [''[]''] [[''{}'']] [] [''{}'', ''[]''])"
    using go [OF go [OF 1 sample_take [of "''{}''" "[]"]] sample_add [of "[]" _ "[]" _ "''[]''"]] by simp
  have 3: "upload_reaches (sample_upload [] [] [] []) (sample_upload [] [[''{}'', ''[]'']] [] [''{}'', ''[]''])"
    using go [OF go [OF 2 sample_put_fails, unfolded append_Cons append_Nil] sample_take] by simp
  show ?thesis
    unfolding sample_upload_start sample_object_def by (rule go [OF 3 sample_put])
qed

theorem uploader_no_loss_witness:
  "mset [''{}'', ''[]''] \<subseteq># mset (object_lines (snd sample_object)) \<and>
   set (object_lines (snd sample_object)) \<subseteq> set [''{}'', ''[]'']"
proof -
  have "\<forall>l \<in> set (us_accepted (sample_upload [] [] [sample_object] [''{}'', ''[]''])). line_ok l"
    by (simp add: sample_upload_def line_ok_def) code_simp
  from uploader_no_loss [OF sample_upload_reached this] show ?thesis
    by (simp add: sample_upload_def)
qed

text \<open>The flush of \<^verbatim>\<open>Close\<close> is not repeated: when its put fails the records stay in memory.\<close>

lemma final_flush_buf: "up_buf (final_flush putOk u) = (if putOk then [] else up_buf u)"
  by (auto simp: final_flush_def take_batch_def finish_flush_def)

section \<open>Deletion\<close>

lemma delete_loop_sent:
  assumes "delete_loop del prefix ks batch sent = (None, out)"
  shows "concat out = concat sent @ batch @ filter (\<lambda>k. \<not> (has_suffix k ''/'' \<and> k = prefix)) ks"
  using assms
  by (induction del prefix ks batch sent rule: delete_loop.induct)
     (auto simp: Let_def split: if_splits option.splits)

lemma delete_loop_bounded:
  assumes "\<forall>b \<in> set sent. length b \<le> deleteBatchSize" "length batch < deleteBatchSize"
  shows "\<forall>b \<in> set (snd (delete_loop del prefix ks batch sent)). length b \<le> deleteBatchSize"
  using assms
  by (induction del prefix ks batch sent rule: delete_loop.induct)
     (auto simp: Let_def deleteBatchSize_def split: option.splits)

text \<open>
  A deletion that reports no error has requested the deletion of exactly the listed keys except
  the directory marker itself, in requests the service accepts.
\<close>

lemma delete_prefix_complete:
  assumes "list prefix = Inr keys" "delete_prefix_with list del prefix = (None, out)"
  shows "concat out = filter (\<lambda>k. \<not> (has_suffix k ''/'' \<and> k = prefix)) keys \<and>
         (\<forall>b \<in> set out. length b \<le> deleteBatchSize)"
  using assms delete_loop_sent [of del prefix keys "[]" "[]" out]
    delete_loop_bounded [of "[]" "[]" del prefix keys]
  by (simp add: delete_prefix_with_def deleteBatchSize_def)

end
