(* ===== verification/GoRecord.thy ===== *)
theory GoRecord
  imports GoDecode
begin

text \<open>
  JSON records written one to a line: string maps and integers in structs, and the facts that make
  an encoded object a line of its own.
\<close>

section \<open>Decoding and encoding\<close>

text \<open>A map of strings is kept sorted by key; a nil map is \<^verbatim>\<open>None\<close>.\<close>

type_synonym string_map = "(string \<times> string) list option"

fun decode_int :: "int decoder" where
  "decode_int (JNum l) cur = (case atoi l of Some n \<Rightarrow> (n, True) | None \<Rightarrow> (cur, False))"
| "decode_int JNull cur = (cur, True)"
| "decode_int v cur = (cur, False)"

fun decode_map_members :: "(string \<times> jval) list \<Rightarrow> (string \<times> string) list \<Rightarrow> (string \<times> string) list \<times> bool" where
  "decode_map_members [] m = (m, True)"
| "decode_map_members ((k, v) # ms) m =
     (let (x, ok) = decode_string v []; (m', oks) = decode_map_members ms (ins_key k x m)
      in (m', ok \<and> oks))"

fun decode_string_map :: "string_map decoder" where
  "decode_string_map (JObj ms) cur =
     (let (m, ok) = decode_map_members ms (case cur of None \<Rightarrow> [] | Some m \<Rightarrow> m) in (Some m, ok))"
| "decode_string_map JNull cur = (None, True)"
| "decode_string_map v cur = (cur, False)"

definition string_map_json :: "string_map \<Rightarrow> jval" where
  "string_map_json m = (case m of None \<Rightarrow> JNull | Some kvs \<Rightarrow> JObj (map (\<lambda>(k, v). (k, JStr v)) kvs))"

section \<open>Lines\<close>

lemma utf8_cont_bytes:
  assumes "\<not> (of_char a :: nat) < 128"
  shows "\<forall>c \<in> set (take (utf8_width (a # s) - 1) s). cont_byte c"
proof -
  let ?n = "of_char a :: nat"
  consider "194 \<le> ?n" "?n \<le> 223" | "224 \<le> ?n" "?n \<le> 239" | "240 \<le> ?n" "?n \<le> 244"
    | "?n < 194 \<or> 244 < ?n" by linarith
  then show ?thesis
  proof cases
    case 1
    then show ?thesis using assms by (auto simp: Let_def split: list.splits)
  next
    case 2
    then show ?thesis using assms by (auto simp: Let_def numeral_2_eq_2 split: list.splits)
  next
    case 3
    then show ?thesis using assms by (auto simp: Let_def numeral_3_eq_3 split: list.splits)
  next
    case 4
    then show ?thesis using assms by (auto simp: Let_def)
  qed
qed

lemma utf8_multi_bytes:
  assumes "utf8_width s \<noteq> 1" "c \<in> set (take (utf8_width s) s)"
  shows "128 \<le> (of_char c :: nat)"
proof (cases s)
  case Nil
  then show ?thesis using assms by simp
next
  case (Cons a t)
  have a: "\<not> (of_char a :: nat) < 128"
    using assms(1) utf8_width_ascii [of a t] Cons by blast
  have "c = a \<or> c \<in> set (take (utf8_width (a # t) - 1) t)"
    using assms(2) Cons by (cases "utf8_width (a # t)") (simp_all del: utf8_width.simps)
  then show ?thesis
    using a utf8_cont_bytes [OF a, of t] by (auto simp: cont_byte_def Let_def simp del: utf8_width.simps)
qed

lemma hex_char_visible: "d < 16 \<Longrightarrow> hex_char d \<noteq> CHR 0x0A"
proof
  assume "d < 16" "hex_char d = CHR 0x0A"
  then have "is_hex_char (CHR 0x0A)"
    using is_hex_hex_char [of d] by simp
  moreover have "\<not> is_hex_char (CHR 0x0A)" by code_simp
  ultimately show False by simp
qed

lemma hex4_no_newline: "CHR 0x0A \<notin> set (hex4_str n)"
  using hex_char_visible [of "n div 4096 mod 16"] hex_char_visible [of "n div 256 mod 16"]
    hex_char_visible [of "n div 16 mod 16"] hex_char_visible [of "n mod 16"]
  unfolding hex4_str_def by (simp only: list.set(2) list.set(1) insert_iff empty_iff) auto

lemma quote_ascii_no_newline: "CHR 0x0A \<notin> set (quote_ascii c)"
  using hex4_no_newline [of "of_char c"] by (auto simp: quote_ascii_def Let_def)

lemma quote_body_no_newline: "CHR 0x0A \<notin> set (quote_body s)"
proof (induction s rule: quote_body.induct)
  case (1 s)
  show ?case
  proof (cases s)
    case Nil
    then show ?thesis by (simp add: quote_body.simps)
  next
    case (Cons c t)
    have "CHR 0x0A \<notin> set (take (utf8_width s) s)" if "utf8_width s \<noteq> 1"
      using utf8_multi_bytes [OF that, of "CHR 0x0A"] by auto
    then show ?thesis
      using 1 [OF Cons refl] quote_ascii_no_newline [of c]
      by (subst quote_body.simps) (auto simp: Cons Let_def simp del: utf8_width.simps)
  qed
qed

lemma json_quote_no_newline [simp]: "CHR 0x0A \<notin> set (json_quote s)"
  using quote_body_no_newline [of s] by (simp add: json_quote_def)

lemma join_with_absent: "c \<notin> set sep \<Longrightarrow> \<forall>x \<in> set xs. c \<notin> set x \<Longrightarrow> c \<notin> set (join_with sep xs)"
  by (induction sep xs rule: join_with.induct) auto

lemma itoz_no_newline: "CHR 0x0A \<notin> set (itoz n)"
proof -
  have "CHR 0x0A \<notin> set (dec_digits m)" if "0 \<le> m" for m
    using dec_digits_digits [OF that] by (auto simp: is_digit_def)
  then show ?thesis by (auto simp: itoz_def)
qed

fun no_raw_newline :: "jval \<Rightarrow> bool" where
  "no_raw_newline (JNum l) \<longleftrightarrow> CHR 0x0A \<notin> set l"
| "no_raw_newline (JArr vs) \<longleftrightarrow> list_all no_raw_newline vs"
| "no_raw_newline (JObj ms) \<longleftrightarrow> list_all (\<lambda>(k, v). no_raw_newline v) ms"
| "no_raw_newline v \<longleftrightarrow> True"

lemma json_marshal_no_newline: "no_raw_newline v \<Longrightarrow> CHR 0x0A \<notin> set (json_marshal v)"
proof (induction v rule: json_marshal.induct)
  case (5 vs)
  then have "\<forall>x \<in> set (map json_marshal vs). CHR 0x0A \<notin> set x"
    by (simp add: list_all_iff)
  then have "CHR 0x0A \<notin> set (join_with '','' (map json_marshal vs))"
    by (intro join_with_absent) simp_all
  then show ?case by simp
next
  case (6 ms)
  then have "\<forall>x \<in> set (map (\<lambda>(k, v). json_quote k @ '':'' @ json_marshal v) ms). CHR 0x0A \<notin> set x"
    by (auto simp: list_all_iff)
  then have "CHR 0x0A \<notin> set (join_with '','' (map (\<lambda>(k, v). json_quote k @ '':'' @ json_marshal v) ms))"
    by (intro join_with_absent) simp_all
  then show ?case by simp
qed auto

lemma json_obj_line:
  assumes "no_raw_newline (JObj ms)"
  shows "json_marshal (JObj ms) \<noteq> []" "CHR 0x0A \<notin> set (json_marshal (JObj ms))"
    "trim_space (json_marshal (JObj ms)) = json_marshal (JObj ms)"
  using json_marshal_no_newline [OF assms]
  by (simp_all add: trim_space_fixed trimmed_def is_space_def)

section \<open>Round trips\<close>

definition map_ok :: "string_map \<Rightarrow> bool" where
  "map_ok m \<longleftrightarrow> (case m of None \<Rightarrow> True
     | Some kvs \<Rightarrow> sorted_wrt (<) (map fst kvs) \<and> list_all (\<lambda>(k, v). utf8_ok k \<and> utf8_ok v) kvs)"

lemma ins_key_last:
  "\<forall>(k', v') \<in> set m. k' < k \<Longrightarrow> ins_key k v m = m @ [(k, v)]"
  by (induction m) auto

lemma decode_map_members_sorted:
  assumes "sorted_wrt (<) (map fst (m @ kvs))"
  shows "decode_map_members (map (\<lambda>(k, v). (k, JStr v)) kvs) m = (m @ kvs, True)"
  using assms
proof (induction kvs arbitrary: m)
  case (Cons kv kvs)
  obtain k v where kv: "kv = (k, v)" by force
  have "ins_key k v m = m @ [(k, v)]"
    using Cons.prems by (intro ins_key_last) (auto simp: kv sorted_wrt_append)
  then show ?case
    using Cons.IH [of "m @ [(k, v)]"] Cons.prems by (simp add: kv)
qed simp

lemma decode_string_map_json:
  "map_ok m \<Longrightarrow> decode_string_map (string_map_json m) None = (m, True)"
  using decode_map_members_sorted [of "[]"]
  by (auto simp: map_ok_def string_map_json_def split: option.splits)

lemma string_map_depth: "json_depth (string_map_json m) \<le> 1"
proof (cases m)
  case (Some kvs)
  then show ?thesis
    using json_depth_obj [of 0 "map (\<lambda>(k, v). (k, JStr v)) kvs"]
    by (simp add: string_map_json_def case_prod_beta del: json_depth.simps(2))
qed (simp add: string_map_json_def)

end
