(* ===== verification/GoReader.thy ===== *)
theory GoReader
  imports GoDecode GoHash
begin

text \<open>
  Reading binary protocols in Go: \<^verbatim>\<open>io.ReadFull\<close>, \<^verbatim>\<open>io.CopyN\<close> into
  \<^verbatim>\<open>io.Discard\<close> and \<^verbatim>\<open>bufio.Reader\<close>'s \<^verbatim>\<open>ReadString\<close>
  on a stream that is the list of the bytes it still delivers before it ends; \<^verbatim>\<open>encoding/binary\<close>
  on words; \<^verbatim>\<open>unicode/utf16\<close>; and the searching and trimming functions of
  \<^verbatim>\<open>strings\<close> that the parsers use.  The last section is a loop that reads frames until
  one cannot be read, with what it needs to end and to survive further input.
\<close>

section \<open>Streams\<close>

datatype read_error = EOF | UnexpectedEOF | FrameTooLarge | BadFrame string string

text \<open>\<^verbatim>\<open>io.ReadFull\<close> of a buffer of \<^verbatim>\<open>n\<close> bytes.\<close>

definition read_full :: "nat \<Rightarrow> bytes \<Rightarrow> read_error + bytes \<times> bytes" where
  "read_full n s =
     (if n \<le> length s then Inr (take n s, drop n s) else Inl (if s = [] then EOF else UnexpectedEOF))"

text \<open>
  \<^verbatim>\<open>io.CopyN(io.Discard, r, n)\<close>: a negative count reads nothing and is no error, a short stream
  is \<^verbatim>\<open>io.EOF\<close>.
\<close>

definition copy_discard :: "int \<Rightarrow> bytes \<Rightarrow> read_error + bytes" where
  "copy_discard n s = (if n \<le> int (length s) then Inr (drop (nat n) s) else Inl EOF)"

text \<open>\<^verbatim>\<open>ReadString(delim)\<close>: everything up to and with the delimiter.\<close>

definition read_string :: "char \<Rightarrow> bytes \<Rightarrow> read_error + bytes \<times> bytes" where
  "read_string delim s =
     (if delim \<in> set s
      then Inr (takeWhile (\<lambda>c. c \<noteq> delim) s @ [delim], tl (dropWhile (\<lambda>c. c \<noteq> delim) s))
      else Inl EOF)"

lemma read_full_append [simp]: "length b = n \<Longrightarrow> read_full n (b @ s) = Inr (b, s)"
  by (auto simp: read_full_def)

lemma read_full_more: "read_full n s = Inr (b, s') \<Longrightarrow> read_full n (s @ t) = Inr (b, s' @ t)"
  by (auto simp: read_full_def split: if_splits)

lemma read_full_length: "read_full n s = Inr (b, s') \<Longrightarrow> length b = n \<and> length s = n + length s'"
  by (auto simp: read_full_def split: if_splits)

lemma copy_discard_append [simp]: "int (length b) = n \<Longrightarrow> copy_discard n (b @ s) = Inr s"
  by (auto simp: copy_discard_def)

lemma copy_discard_more: "copy_discard n s = Inr s' \<Longrightarrow> copy_discard n (s @ t) = Inr (s' @ t)"
  by (auto simp: copy_discard_def nat_le_iff split: if_splits)

lemma copy_discard_length: "copy_discard n s = Inr s' \<Longrightarrow> length s' \<le> length s"
  by (auto simp: copy_discard_def split: if_splits)

lemma read_string_append [simp]:
  "delim \<notin> set b \<Longrightarrow> read_string delim (b @ delim # s) = Inr (b @ [delim], s)"
  by (simp add: read_string_def)

lemma read_string_more: "read_string d s = Inr (b, s') \<Longrightarrow> read_string d (s @ t) = Inr (b, s' @ t)"
proof (induction s arbitrary: b)
  case (Cons c s)
  then show ?case by (cases "c = d") (auto simp: read_string_def split: if_splits)
qed (simp add: read_string_def)

lemma read_string_length: "read_string d s = Inr (b, s') \<Longrightarrow> length s' < length s"
proof (induction s arbitrary: b)
  case (Cons c s)
  then show ?case by (cases "c = d") (auto simp: read_string_def less_SucI split: if_splits)
qed (simp add: read_string_def)

section \<open>Searching and trimming\<close>

definition last_index :: "char \<Rightarrow> string \<Rightarrow> nat option" where
  "last_index c s = (if c \<in> set s then Some (length s - 1 - length (takeWhile (\<lambda>x. x \<noteq> c) (rev s))) else None)"

text \<open>\<^verbatim>\<open>strings.Index\<close>: the first position where \<^verbatim>\<open>p\<close> occurs.\<close>

fun index_of :: "string \<Rightarrow> string \<Rightarrow> nat option" where
  "index_of [] p = (if p = [] then Some 0 else None)"
| "index_of (c # s) p =
     (if has_prefix (c # s) p then Some 0 else map_option Suc (index_of s p))"

definition trim_right_set :: "string \<Rightarrow> string \<Rightarrow> string" where
  "trim_right_set s cutset = rev (dropWhile (\<lambda>c. c \<in> set cutset) (rev s))"

definition trim_set :: "string \<Rightarrow> string \<Rightarrow> string" where
  "trim_set s cutset = trim_right_set (dropWhile (\<lambda>c. c \<in> set cutset) s) cutset"

section \<open>Integers on the wire\<close>

unbundle bit_operations_syntax

text \<open>\<^verbatim>\<open>binary.LittleEndian\<close> and \<^verbatim>\<open>binary.BigEndian\<close>; \<^verbatim>\<open>int(int32(u))\<close> reads a word as signed.\<close>

definition le_u32 :: "bytes \<Rightarrow> 32 word" where
  "le_u32 bs = be_word (rev (take 4 bs))"

definition le_i32 :: "bytes \<Rightarrow> int" where
  "le_i32 bs = sint (le_u32 bs)"

fun le_u16 :: "bytes \<Rightarrow> nat" where
  "le_u16 (b # c # _) = of_char b + 256 * of_char c"
| "le_u16 _ = 0"

fun be_u16 :: "bytes \<Rightarrow> nat" where
  "be_u16 (b # c # _) = 256 * of_char b + of_char c"
| "be_u16 _ = 0"

definition put_le_u32 :: "32 word \<Rightarrow> bytes" where
  "put_le_u32 w = rev (word_be w)"

definition put_be_u16 :: "nat \<Rightarrow> bytes" where
  "put_be_u16 n = [char_of (n div 256), char_of (n mod 256)]"

lemma length_put [simp]: "length (put_le_u32 w) = 4" "length (put_be_u16 n) = 2"
  by (simp_all add: put_le_u32_def put_be_u16_def word_be_def)

lemma and_255: "w AND 255 = take_bit 8 w" for w :: "'a::len word"
  by (simp add: take_bit_eq_mask mask_eq_exp_minus_1)

lemma byte_word_word_byte: "byte_word (word_byte i w) = take_bit 8 (drop_bit (8 * i) w)"
proof -
  have "unat (take_bit 8 (drop_bit (8 * i) w)) < 256"
    using take_bit_nat_less_exp [of 8 "unat (drop_bit (8 * i) w)"] by (simp add: unsigned_take_bit_eq)
  then show ?thesis
    by (simp add: byte_word_def word_byte_def and_255)
qed

lemma be_word_word_be [simp]: "be_word (word_be w) = w"
proof -
  have "be_word (word_be w) = push_bit 8 (push_bit 8 (push_bit 8 (take_bit 8 (drop_bit 24 w)) OR
      take_bit 8 (drop_bit 16 w)) OR take_bit 8 (drop_bit 8 w)) OR take_bit 8 w"
    by (simp add: be_word_def word_be_def byte_word_word_byte)
  also have "\<dots> = w"
  proof (rule bit_word_eqI)
    fix n
    assume "n < LENGTH(32)"
    then show "bit (push_bit 8 (push_bit 8 (push_bit 8 (take_bit 8 (drop_bit 24 w)) OR
        take_bit 8 (drop_bit 16 w)) OR take_bit 8 (drop_bit 8 w)) OR take_bit 8 w) n = bit w n"
      by (cases "n < 8"; cases "n < 16"; cases "n < 24"; auto simp: bit_simps)
  qed
  finally show ?thesis .
qed

lemma le_u32_put [simp]: "le_u32 (put_le_u32 w @ s) = w"
  using be_word_word_be [of w] by (simp add: le_u32_def put_le_u32_def word_be_def)

lemma be_u16_put [simp]: "n < 65536 \<Longrightarrow> be_u16 (put_be_u16 n @ s) = n"
  by (simp add: put_be_u16_def of_char_mod_256 take_bit_eq_mod)

text \<open>\<^verbatim>\<open>string(utf16.Decode(u))\<close>: an unpaired surrogate becomes U+FFFD.\<close>

fun utf16_decode :: "nat list \<Rightarrow> nat list" where
  "utf16_decode [] = []"
| "utf16_decode (u # us) =
     (if u < 55296 \<or> 57344 \<le> u then u # utf16_decode us
      else case us of
             v # us' \<Rightarrow>
               if u < 56320 \<and> 56320 \<le> v \<and> v < 57344
               then ((u - 55296) * 1024 + (v - 56320) + 65536) # utf16_decode us'
               else 65533 # utf16_decode us
           | [] \<Rightarrow> [65533])"

definition string_of_runes :: "nat list \<Rightarrow> string" where
  "string_of_runes rs = concat (map utf8_encode rs)"

section \<open>Reading frames until one cannot be read\<close>

text \<open>
  The loop of a protocol parser.  Reading a frame gives the reports it contains and what is left, or
  the error that ends the parser; the loop may run for ever, so its value is optional.
\<close>

partial_function (option) run_frames :: "('s \<Rightarrow> 'e + 'r list \<times> 's) \<Rightarrow> 's \<Rightarrow> ('r list \<times> 'e) option" where
  "run_frames read s =
     (case read s of
        Inl e \<Rightarrow> Some ([], e)
      | Inr (rs, s') \<Rightarrow> Option.bind (run_frames read s') (\<lambda>(rs', e). Some (rs @ rs', e)))"

lemma run_frames_step:
  "read s = Inr (rs, s') \<Longrightarrow> run_frames read s = map_option (\<lambda>(rs', e). (rs @ rs', e)) (run_frames read s')"
  by (subst run_frames.simps) (auto simp: map_option_case split: option.splits)

lemma run_frames_stop: "read s = Inl e \<Longrightarrow> run_frames read s = Some ([], e)"
  by (subst run_frames.simps) simp

text \<open>A reader that uses up part of what remains with every frame.\<close>

locale framing =
  fixes read :: "'s \<Rightarrow> 'e + 'r list \<times> 's" and remaining :: "'s \<Rightarrow> nat"
  assumes consumes: "read s = Inr (rs, s') \<Longrightarrow> remaining s' < remaining s"
    and few: "read s = Inr (rs, s') \<Longrightarrow> length rs \<le> 1"
begin

lemma returns: "\<exists>rs e. run_frames read s = Some (rs, e) \<and> length rs \<le> remaining s"
proof (induction s rule: measure_induct_rule [where f = remaining])
  case (less s)
  show ?case
  proof (cases "read s")
    case (Inr p)
    then obtain rs s' where r: "read s = Inr (rs, s')" by (cases p) auto
    then obtain rs' e where "run_frames read s' = Some (rs', e)" "length rs' \<le> remaining s'"
      using less.IH consumes by blast
    then show ?thesis
      using consumes [OF r] few [OF r] by (simp add: run_frames_step [of read, OF r])
  qed (simp add: run_frames_stop)
qed

end

text \<open>A reader of bytes that does not look beyond the frame it reads.\<close>

locale framing_stream = framing read length for read :: "bytes \<Rightarrow> 'e + 'r list \<times> bytes" +
  assumes stable: "read s = Inr (rs, s') \<Longrightarrow> read (s @ t) = Inr (rs, s' @ t)"
begin

lemma run_frame:
  "read s = Inr (rs, []) \<Longrightarrow>
   run_frames read (s @ t) = map_option (\<lambda>(rs', e). (rs @ rs', e)) (run_frames read t)"
  using stable [of s rs "[]" t] by (simp add: run_frames_step)

lemma run_frames_concat:
  assumes "\<And>x. x \<in> set xs \<Longrightarrow> read (enc x) = Inr (out x, [])"
  shows "run_frames read (concat (map enc xs) @ t) =
    map_option (\<lambda>(rs, e). (concat (map out xs) @ rs, e)) (run_frames read t)"
  using assms
proof (induction xs)
  case Nil
  then show ?case by (simp add: option.map_ident)
next
  case (Cons x xs)
  then show ?case
    by (simp add: run_frame option.map_comp comp_def case_prod_beta)
qed

end

end
