(* ===== verification/Shop.thy ===== *)
theory Shop
  imports S3Store GoRecord GoReader Tracing GoHash
begin

text \<open>
  \<^verbatim>\<open>pipeline/shop\<close> and \<^verbatim>\<open>pkg/beruclient\<close>: the store of egress mocks, the HTTP
  endpoints that fill it or record to S3, the preload of a replay session, Envoy's egress stream
  that answers every call of a shadow pod from the store, and the report it posts to Beru.
\<close>

section \<open>Keys (replay/keys.go)\<close>

text \<open>\<^verbatim>\<open>net.SplitHostPort\<close>: host and port, or \<^verbatim>\<open>None\<close> for its errors.\<close>

definition split_host_port :: "string \<Rightarrow> (string \<times> string) option" where
  "split_host_port s =
     (case last_index (CHR '':'') s of
        None \<Rightarrow> None
      | Some i \<Rightarrow>
          if has_prefix s ''['' then
            (if CHR '']'' \<notin> set s then None
             else
               let stop = length (takeWhile (\<lambda>c. c \<noteq> CHR '']'') s)
               in if stop + 1 \<noteq> i then None
                  else if CHR ''['' \<in> set (drop 1 s) \<or> CHR '']'' \<in> set (drop (stop + 1) s) then None
                  else Some (take (stop - 1) (drop 1 s), drop (i + 1) s))
          else
            (if CHR '':'' \<in> set (take i s) then None
             else if CHR ''['' \<in> set s \<or> CHR '']'' \<in> set s then None
             else Some (take i s, drop (i + 1) s)))"

definition host_without_port :: "string \<Rightarrow> string" where
  "host_without_port host = (case split_host_port host of Some (h, p) \<Rightarrow> h | None \<Rightarrow> host)"

definition mock_trace_key :: "string \<Rightarrow> string \<Rightarrow> string \<Rightarrow> string \<Rightarrow> string" where
  "mock_trace_key traceID verb host path =
     ''trace:'' @ traceID @ '':'' @ to_upper verb @ '':'' @ host @ '':'' @ path"

section \<open>The mock store (replay/mockstore.go, early.go)\<close>

record early_response =
  mr_status :: int
  mr_headers :: string_map
  mr_body :: bytes

type_synonym mock_store = "(string \<times> early_response) list"

definition is2xx :: "int \<Rightarrow> bool" where
  "is2xx code \<longleftrightarrow> code \<ge> 200 \<and> code < 300"

definition mock_put :: "string \<Rightarrow> early_response \<Rightarrow> mock_store \<Rightarrow> mock_store" where
  "mock_put hash resp data =
     (case map_of data hash of
        Some existing \<Rightarrow> if is2xx (mr_status existing) then data else AList.update hash resp data
      | None \<Rightarrow> AList.update hash resp data)"

definition mock_get :: "string \<Rightarrow> mock_store \<Rightarrow> early_response option" where
  "mock_get hash data = map_of data hash"

section \<open>Recorded calls (api/http.go, replay/preload.go)\<close>

record seed_mock =
  sk_trace_id :: string
  sk_verb :: string
  sk_host :: string
  sk_path :: string
  sk_response :: early_response

definition seed_zero :: seed_mock where
  "seed_zero = \<lparr>sk_trace_id = [], sk_verb = [], sk_host = [], sk_path = [],
     sk_response = \<lparr>mr_status = 0, mr_headers = None, mr_body = []\<rparr>\<rparr>"

definition decode_seed_response :: "early_response decoder" where
  "decode_seed_response = decode_struct
     [(''status'', in_field mr_status (\<lambda>x. mr_status_update (\<lambda>_. x)) decode_int),
      (''headers'', in_field mr_headers (\<lambda>x. mr_headers_update (\<lambda>_. x)) decode_string_map),
      (''body'', in_field mr_body (\<lambda>x. mr_body_update (\<lambda>_. x)) decode_string)]"

definition decode_seed_mock :: "seed_mock decoder" where
  "decode_seed_mock = decode_struct
     [(''trace_id'', in_field sk_trace_id (\<lambda>x. sk_trace_id_update (\<lambda>_. x)) decode_string),
      (''method'', in_field sk_verb (\<lambda>x. sk_verb_update (\<lambda>_. x)) decode_string),
      (''host'', in_field sk_host (\<lambda>x. sk_host_update (\<lambda>_. x)) decode_string),
      (''path'', in_field sk_path (\<lambda>x. sk_path_update (\<lambda>_. x)) decode_string),
      (''response'', in_field sk_response (\<lambda>x. sk_response_update (\<lambda>_. x)) decode_seed_response)]"

definition unmarshal_seed :: "bytes \<Rightarrow> seed_mock option" where
  "unmarshal_seed raw =
     (case json_parse raw of
        None \<Rightarrow> None
      | Some v \<Rightarrow> (case decode_seed_mock v seed_zero of (req, ok) \<Rightarrow> if ok then Some req else None))"

definition seed_json :: "seed_mock \<Rightarrow> jval" where
  "seed_json r =
     JObj [(''trace_id'', JStr (sk_trace_id r)), (''method'', JStr (sk_verb r)), (''host'', JStr (sk_host r)),
       (''path'', JStr (sk_path r)),
       (''response'', JObj [(''status'', JNum (itoz (mr_status (sk_response r)))),
          (''headers'', string_map_json (mr_headers (sk_response r))),
          (''body'', JStr (mr_body (sk_response r)))])]"

definition seed_key :: "seed_mock \<Rightarrow> string" where
  "seed_key r = mock_trace_key (sk_trace_id r) (sk_verb r) (host_without_port (sk_host r)) (sk_path r)"

definition preload_line :: "bytes \<Rightarrow> nat \<times> mock_store \<Rightarrow> nat \<times> mock_store" where
  "preload_line line acc =
     (case unmarshal_seed line of
        None \<Rightarrow> acc
      | Some rec \<Rightarrow>
          if sk_trace_id rec = [] \<or> sk_verb rec = [] \<or> sk_host rec = [] \<or> sk_path rec = [] \<or>
             mr_status (sk_response rec) = 0
          then acc
          else (fst acc + 1, mock_put (seed_key rec) (sk_response rec) (snd acc)))"

definition preload_from_s3 ::
  "list_keys \<Rightarrow> get_object \<Rightarrow> s3_config option \<Rightarrow> mock_store option \<Rightarrow> (string + nat) \<times> mock_store option" where
  "preload_from_s3 list get reader mocks =
     (case (reader, mocks) of
        (None, _) \<Rightarrow> (Inl ''replay: S3Reader is required'', mocks)
      | (Some c, None) \<Rightarrow> (Inl ''replay: MockStore is required'', mocks)
      | (Some c, Some data) \<Rightarrow>
          (case read_all_jsonl list get c of
             Inl e \<Rightarrow> (Inl e, mocks)
           | Inr lines \<Rightarrow>
               (case fold preload_line lines (0, data) of (n, data') \<Rightarrow> (Inr n, Some data'))))"

section \<open>HTTP endpoints (api/http.go)\<close>

record shop_server =
  sh_mocks :: mock_store
  sh_uploader :: "uploader option"
  sh_ready :: bool

record shop_request =
  sq_verb :: string
  sq_body :: "bytes option"

type_synonym shop_reply = "int \<times> string"

definition shop_error :: "string \<Rightarrow> int \<Rightarrow> shop_reply" where
  "shop_error msg code = (code, msg @ newline)"

definition shop_json :: "int \<Rightarrow> jval \<Rightarrow> shop_reply" where
  "shop_json code v = (code, json_marshal v @ newline)"

definition shop_healthz :: "shop_server \<Rightarrow> shop_request \<Rightarrow> shop_reply" where
  "shop_healthz s q =
     (if sq_verb q \<noteq> ''GET'' then shop_error ''Method Not Allowed'' 405
      else if \<not> sh_ready s then shop_json 503 (JObj [(''status'', JStr ''loading'')])
      else shop_json 200 (JObj [(''status'', JStr ''ok'')]))"

text \<open>Both writers of the endpoint read and check the request alike.\<close>

definition read_seed :: "shop_request \<Rightarrow> shop_reply + seed_mock" where
  "read_seed q =
     (case Option.bind (sq_body q) unmarshal_seed of
        None \<Rightarrow> Inl (shop_error ''Bad Request'' 400)
      | Some req \<Rightarrow>
          if sk_trace_id req = [] then Inl (shop_error ''trace_id is required'' 400)
          else if sk_verb req = [] \<or> sk_host req = [] \<or> sk_path req = []
          then Inl (shop_error ''method, host, and path are required'' 400)
          else if mr_status (sk_response req) = 0 then Inl (shop_error ''response.status is required'' 400)
          else Inr req)"

definition hash_reply :: "int \<Rightarrow> seed_mock \<Rightarrow> shop_reply" where
  "hash_reply code req = shop_json code (JObj [(''hash'', JStr (seed_key req))])"

definition put_mock_from_request :: "shop_request \<Rightarrow> shop_server \<Rightarrow> shop_reply \<times> shop_server" where
  "put_mock_from_request q s =
     (case read_seed q of
        Inl reply \<Rightarrow> (reply, s)
      | Inr req \<Rightarrow>
          (hash_reply 200 req, s\<lparr>sh_mocks := mock_put (seed_key req) (sk_response req) (sh_mocks s)\<rparr>))"

text \<open>The flush a full buffer starts is a step of its own; here the record enters the buffer.\<close>

definition record_egress_to_s3 :: "uploader \<Rightarrow> shop_request \<Rightarrow> shop_server \<Rightarrow> shop_reply \<times> shop_server" where
  "record_egress_to_s3 u q s =
     (case read_seed q of
        Inl reply \<Rightarrow> (reply, s)
      | Inr req \<Rightarrow>
          (case uploader_add (Inr (json_marshal (seed_json req))) u of
             (Inl e, u') \<Rightarrow> (shop_error ''Internal Server Error'' 500, s)
           | (Inr full, u') \<Rightarrow> (hash_reply 202 req, s\<lparr>sh_uploader := Some u'\<rparr>)))"

definition shop_seed_mock :: "shop_request \<Rightarrow> shop_server \<Rightarrow> shop_reply \<times> shop_server" where
  "shop_seed_mock q s =
     (if sq_verb q \<noteq> ''POST'' then (shop_error ''Method Not Allowed'' 405, s)
      else put_mock_from_request q s)"

definition shop_record_egress :: "shop_request \<Rightarrow> shop_server \<Rightarrow> shop_reply \<times> shop_server" where
  "shop_record_egress q s =
     (if sq_verb q \<noteq> ''POST'' then (shop_error ''Method Not Allowed'' 405, s)
      else case sh_uploader s of
             Some u \<Rightarrow> record_egress_to_s3 u q s
           | None \<Rightarrow> put_mock_from_request q s)"

section \<open>Reports to Beru (beru/payload.go, pkg/beruclient)\<close>

text \<open>
  \<^verbatim>\<open>json.Marshal\<close> of a raw message: compacted, with the characters HTML gives a meaning and
  the two line separators escaped.
\<close>

fun escape_html :: "string \<Rightarrow> string" where
  "escape_html [] = []"
| "escape_html (c # s) =
     (if c = CHR ''<'' \<or> c = CHR ''>'' \<or> c = CHR ''&'' then quote_ascii c @ escape_html s
      else if c = CHR 0xE2 \<and> take 2 s = [CHR 0x80, CHR 0xA8] then CHR 0x5C # ''u2028'' @ escape_html (drop 2 s)
      else if c = CHR 0xE2 \<and> take 2 s = [CHR 0x80, CHR 0xA9] then CHR 0x5C # ''u2029'' @ escape_html (drop 2 s)
      else c # escape_html s)"

definition raw_json :: "bytes \<Rightarrow> string" where
  "raw_json raw = escape_html (json_compact raw)"

definition build_http_egress_payload :: "string \<Rightarrow> string \<Rightarrow> string \<Rightarrow> int \<Rightarrow> bytes \<Rightarrow> string" where
  "build_http_egress_payload verb host path status body =
     (let bodyJSON = (if body = [] then json_quote [] else if json_valid body then body else json_quote body)
      in ''{'' @ join_with '',''
           [json_quote ''method'' @ '':'' @ json_quote verb, json_quote ''host'' @ '':'' @ json_quote host,
            json_quote ''path'' @ '':'' @ json_quote path, json_quote ''status'' @ '':'' @ itoz status,
            json_quote ''body'' @ '':'' @ raw_json bodyJSON] @ ''}'')"

record beru_report =
  bp_trace_id :: string
  bp_workload :: string
  bp_protocol :: string
  bp_signature :: string
  bp_payload :: string
  bp_shadow_test :: string

definition EgressDiffPath :: string where "EgressDiffPath = ''/api/v1/egress/diff''"
definition DefaultMaxRetries :: int where "DefaultMaxRetries = 3"
definition baseBackoff :: duration where "baseBackoff = 50 * 10 ^ 6"

definition client_url :: "string \<Rightarrow> string" where
  "client_url baseURL = rev (dropWhile (\<lambda>c. c = CHR ''/'') (rev (trim_space baseURL))) @ EgressDiffPath"

text \<open>What one post ends with: the connection fails or times out, or Beru answers with a status.\<close>

datatype post_error = StatusError int | TimeoutError | DeadlineExceeded | TransportError

datatype post_outcome = NoAnswer post_error | Answered int

definition post_once :: "post_outcome \<Rightarrow> post_error option" where
  "post_once out =
     (case out of
        NoAnswer e \<Rightarrow> Some e
      | Answered code \<Rightarrow> if code < 200 \<or> code \<ge> 300 then Some (StatusError code) else None)"

fun retryable :: "post_error \<Rightarrow> bool" where
  "retryable (StatusError code) \<longleftrightarrow> code \<ge> 500"
| "retryable TimeoutError \<longleftrightarrow> False"
| "retryable DeadlineExceeded \<longleftrightarrow> False"
| "retryable TransportError \<longleftrightarrow> True"

text \<open>
  The attempts from the given one on: \<^verbatim>\<open>outcome\<close> is what an attempt ends with,
  \<^verbatim>\<open>cancelled\<close> whether the context ends while the attempt waits.  The result is the error
  returned with the number of requests sent and the waits.
\<close>

function post_attempts ::
  "(nat \<Rightarrow> post_outcome) \<Rightarrow> (nat \<Rightarrow> bool) \<Rightarrow> nat \<Rightarrow> post_error option \<Rightarrow> nat \<Rightarrow> nat \<Rightarrow> duration list
     \<Rightarrow> post_error option \<times> nat \<times> duration list" where
  "post_attempts outcome cancelled maxRetries lastErr attempt posts waits =
     (if attempt > maxRetries then (lastErr, posts, waits)
      else
        let waits' = (if attempt > 0 then waits @ [baseBackoff * 2 ^ (attempt - 1)] else waits)
        in if attempt > 0 \<and> cancelled attempt then (Some DeadlineExceeded, posts, waits')
           else case post_once (outcome attempt) of
                  None \<Rightarrow> (None, posts + 1, waits')
                | Some e \<Rightarrow>
                    if retryable e
                    then post_attempts outcome cancelled maxRetries (Some e) (attempt + 1) (posts + 1) waits'
                    else (Some e, posts + 1, waits'))"
  by pat_completeness auto
termination
  by (relation "measure (\<lambda>(outcome, cancelled, maxRetries, lastErr, attempt, posts, waits).
        Suc maxRetries - attempt)") auto

declare post_attempts.simps [simp del]

definition post_report ::
  "(nat \<Rightarrow> post_outcome) \<Rightarrow> (nat \<Rightarrow> bool) \<Rightarrow> string \<Rightarrow> int \<Rightarrow> post_error option \<times> nat \<times> duration list" where
  "post_report outcome cancelled url maxRetries =
     (if url = [] then (None, 0, [])
      else post_attempts outcome cancelled (nat (max maxRetries 0)) None 0 0 [])"

section \<open>Envoy's egress stream (envoyextproc)\<close>

record egress_header =
  eh_key :: string
  eh_value :: string
  eh_raw :: bytes

definition egress_header_value :: "egress_header list option \<Rightarrow> string \<Rightarrow> string" where
  "egress_header_value headers key =
     (case headers of
        None \<Rightarrow> []
      | Some hs \<Rightarrow>
          (case find (\<lambda>h. to_lower (eh_key h) = to_lower key) hs of
             None \<Rightarrow> []
           | Some h \<Rightarrow> if eh_raw h \<noteq> [] then eh_raw h else eh_value h))"

text \<open>Request headers and body come with the end-of-stream mark; each message may be nil.\<close>

datatype egress_request =
    EgressHeaders "(egress_header list option \<times> bool) option"
  | EgressBody "(bytes \<times> bool) option"
  | EgressOther

datatype egress_response =
    ContinueHeaders
  | ContinueBody
  | Immediate int string_map bytes string

record egress_state =
  eg_role :: string
  eg_trace_id :: string
  eg_verb :: string
  eg_host :: string
  eg_path :: string
  eg_body :: bytes

record egress_server =
  es_mocks :: "mock_store option"
  es_beru :: bool
  es_shadow_test :: string

definition egressRegressionBody :: string where "egressRegressionBody = ''Egress Regression''"
definition egressMissStatus :: int where "egressMissStatus = 599"

definition capture_egress_headers :: "(egress_header list option \<times> bool) option \<Rightarrow> egress_state \<Rightarrow> egress_state" where
  "capture_egress_headers hdrs st =
     (case hdrs of
        None \<Rightarrow> st
      | Some (headers, eos) \<Rightarrow>
          let authority = egress_header_value headers '':authority''
          in st\<lparr>eg_trace_id := trace_id_from_map headers egress_header_value,
                eg_verb := egress_header_value headers '':method'',
                eg_host := (if authority = [] then egress_header_value headers ''host'' else authority),
                eg_path := egress_header_value headers '':path''\<rparr>)"

text \<open>The status of an immediate response is an enum of 32 bits.\<close>

definition immediate_response :: "int \<Rightarrow> string_map \<Rightarrow> bytes \<Rightarrow> string \<Rightarrow> egress_response" where
  "immediate_response statusCode headers body details =
     Immediate (signed_take_bit 31 statusCode) headers body details"

definition egress_miss :: "string \<Rightarrow> egress_response \<times> int" where
  "egress_miss details =
     (immediate_response egressMissStatus None egressRegressionBody details, egressMissStatus)"

definition state_key :: "egress_state \<Rightarrow> string" where
  "state_key st = mock_trace_key (eg_trace_id st) (eg_verb st) (host_without_port (eg_host st)) (eg_path st)"

definition egress_immediate :: "egress_server \<Rightarrow> egress_state \<Rightarrow> egress_response \<times> int" where
  "egress_immediate srv st =
     (case es_mocks srv of
        None \<Rightarrow> egress_miss ''egress mock store unavailable''
      | Some mocks \<Rightarrow>
          if eg_trace_id st = [] then egress_miss ''egress no trace id''
          else case mock_get (state_key st) mocks of
                 Some mock \<Rightarrow>
                   (immediate_response (mr_status mock) (mr_headers mock) (mr_body mock) ''egress mock hit'',
                    mr_status mock)
               | None \<Rightarrow> egress_miss ''egress regression'')"

text \<open>The report handed to the goroutine that posts it, if any.\<close>

definition report_egress :: "egress_server \<Rightarrow> egress_state \<Rightarrow> int \<Rightarrow> beru_report option" where
  "report_egress srv st status =
     (if \<not> es_beru srv \<or> eg_trace_id st = [] \<or> eg_role st = [] then None
      else Some \<lparr>bp_trace_id = eg_trace_id st, bp_workload = eg_role st, bp_protocol = ''http'',
                 bp_signature = [],
                 bp_payload = build_http_egress_payload (eg_verb st) (host_without_port (eg_host st))
                                (eg_path st) status (eg_body st),
                 bp_shadow_test = es_shadow_test srv\<rparr>)"

definition finish_egress :: "egress_server \<Rightarrow> egress_state \<Rightarrow> egress_response \<times> beru_report option" where
  "finish_egress srv st =
     (case egress_immediate srv st of (resp, status) \<Rightarrow> (resp, report_egress srv st status))"

definition handle_egress_request ::
  "egress_server \<Rightarrow> egress_request \<Rightarrow> egress_state \<Rightarrow> (egress_response \<times> beru_report option) \<times> egress_state" where
  "handle_egress_request srv req st =
     (case req of
        EgressHeaders hdrs \<Rightarrow>
          let st' = capture_egress_headers hdrs st
          in (case hdrs of
                Some (headers, True) \<Rightarrow> (finish_egress srv st', st')
              | _ \<Rightarrow> ((ContinueHeaders, None), st'))
      | EgressBody None \<Rightarrow> (finish_egress srv st, st)
      | EgressBody (Some (body, eos)) \<Rightarrow>
          let st' = st\<lparr>eg_body := eg_body st @ body\<rparr>
          in if eos then (finish_egress srv st', st') else ((ContinueBody, None), st')
      | EgressOther \<Rightarrow> ((ContinueHeaders, None), st))"

definition egress_start :: "string list \<Rightarrow> egress_state" where
  "egress_start roleMetadata =
     \<lparr>eg_role = (case roleMetadata of [] \<Rightarrow> [] | v # _ \<Rightarrow> v), eg_trace_id = [], eg_verb = [], eg_host = [],
      eg_path = [], eg_body = []\<rparr>"

text \<open>
  A stream: the messages received, each with whether the answer could be sent; the end of the
  messages is the end of the stream, a receive error is \<^verbatim>\<open>None\<close>.
\<close>

fun egress_process ::
  "egress_server \<Rightarrow> (egress_request \<times> bool) option list \<Rightarrow> egress_state \<Rightarrow> bool \<times> (egress_response \<times> beru_report option) list" where
  "egress_process srv [] st = (True, [])"
| "egress_process srv (None # ms) st = (False, [])"
| "egress_process srv (Some (req, sendOk) # ms) st =
     (case handle_egress_request srv req st of
        (out, st') \<Rightarrow>
          if sendOk then (case egress_process srv ms st' of (ok, outs) \<Rightarrow> (ok, out # outs))
          else (False, [out]))"

section \<open>Keys of bodies (replay/hash.go, strip.go)\<close>

text \<open>The deletion of a path from a JSON text is third-party code.\<close>

definition normalize_json_path :: "string \<Rightarrow> string" where
  "normalize_json_path p0 =
     (let p = trim_prefix (trim_space p0) ''$.'' in if p = ''$'' then [] else trim_prefix p ''$'')"

fun strip_json_paths :: "(string \<Rightarrow> string \<Rightarrow> string + string) \<Rightarrow> bytes \<Rightarrow> string list \<Rightarrow> string + bytes" where
  "strip_json_paths del out [] = Inr out"
| "strip_json_paths del out (p # ps) =
     (let path = normalize_json_path p
      in if path = [] then strip_json_paths del out ps
         else case del out path of Inl e \<Rightarrow> Inl e | Inr out' \<Rightarrow> strip_json_paths del out' ps)"

definition compact_json :: "bytes \<Rightarrow> bytes" where
  "compact_json body = (if body = [] then [] else if \<not> json_valid body then body else json_compact body)"

definition normalize_body :: "(string \<Rightarrow> string \<Rightarrow> string + string) \<Rightarrow> bytes \<Rightarrow> string list \<Rightarrow> string + bytes" where
  "normalize_body del body ignorePaths =
     (if body = [] then Inr []
      else if \<not> json_valid body then Inr body
      else case strip_json_paths del body ignorePaths of
             Inl e \<Rightarrow> Inl e | Inr stripped \<Rightarrow> Inr (compact_json stripped))"

definition hash_request ::
  "(string \<Rightarrow> string \<Rightarrow> string + string) \<Rightarrow> string \<Rightarrow> string \<Rightarrow> string \<Rightarrow> bytes \<Rightarrow> string list \<Rightarrow> string + string" where
  "hash_request del verb host path body ignorePaths =
     (case normalize_body del body ignorePaths of
        Inl e \<Rightarrow> Inl e
      | Inr normalized \<Rightarrow> Inr (hex_encode (sha256 (verb @ host @ path @ normalized))))"

end
