(* ===== verification/SessionCodec.thy ===== *)
theory SessionCodec
  imports S3StoreProps
begin

text \<open>
  What a component that records through the uploader and loads through the reader relies on: its
  records are encoded as lines and decoded back.  Then a session whose buffer has been emptied
  loads as the records that were accepted.
\<close>

lemma read_objects_get:
  assumes "\<forall>k \<in> set keys. get k = Inr (body k)"
  shows "read_objects get keys = Inr (concat (map (object_lines \<circ> body) keys))"
  using assms by (induction keys) auto

lemma jsonl_not_directory: "has_suffix k ''.jsonl'' \<Longrightarrow> \<not> has_suffix k ''/''"
  by (cases "rev k") (auto simp: has_suffix_def has_prefix_def)

lemma read_all_objects:
  assumes "list (object_key_prefix c) = Inr (map fst objects)"
    and "\<forall>(k, b) \<in> set objects. get k = Inr b \<and> has_suffix k ''.jsonl''"
  shows "\<exists>lines. read_all_jsonl list get c = Inr lines \<and>
    set lines = set (concat (map (object_lines \<circ> snd) objects))"
proof -
  define body where "body k = (case get k of Inr b \<Rightarrow> b | Inl e \<Rightarrow> [])" for k
  have keys: "filter (\<lambda>k. \<not> has_suffix k ''/'' \<and> has_suffix k ''.jsonl'') (map fst objects) = map fst objects"
    using assms(2) jsonl_not_directory by (intro filter_True) auto
  have "\<forall>k \<in> set (sort (map fst objects)). get k = Inr (body k)"
    using assms(2) by (auto simp: body_def)
  then have "read_all_jsonl list get c = Inr (concat (map (object_lines \<circ> body) (sort (map fst objects))))"
    by (simp add: read_all_jsonl_def list_jsonl_keys_def assms(1) keys read_objects_get)
  moreover have "\<forall>x \<in> set objects. body (fst x) = snd x"
    using assms(2) by (auto simp: body_def)
  ultimately show ?thesis
    by auto
qed

lemma uploaded_lines:
  assumes "upload_reaches (upload_start c) s" "us_flushing s = []" "up_buf (us_uploader s) = []"
    and "\<forall>l \<in> set (us_accepted s). line_ok l"
  shows "set (concat (map (object_lines \<circ> snd) (us_objects s))) = set (us_accepted s) \<and>
    (\<forall>(k, b) \<in> set (us_objects s). has_suffix k ''.jsonl'')"
proof -
  have "upload_ok s"
    using assms by (intro upload_reaches_ok [OF assms(1) upload_ok_start])
  then show ?thesis
    using assms(2,3) by (auto simp: upload_ok_def stored_lines_def held_lines_def dest: mset_subset_eqD)
qed

locale session_codec =
  fixes encode :: "'r \<Rightarrow> bytes" and decode :: "bytes \<Rightarrow> 'r option" and ok :: "'r \<Rightarrow> bool"
  assumes encode_line: "line_ok (encode r)"
    and decode_encode: "ok r \<Longrightarrow> decode (encode r) = Some r"
begin

lemma lines_of_records:
  assumes "set lines = set (map encode recs)" "\<forall>r \<in> set recs. ok r"
  obtains rs where "lines = map encode rs" "set rs = set recs"
proof
  let ?rs = "map (the \<circ> decode) lines"
  have inv: "\<forall>r \<in> set recs. the (decode (encode r)) = r"
    using assms(2) by (simp add: decode_encode)
  have "encode (the (decode l)) = l" if "l \<in> set lines" for l
    using that assms(1) inv by auto
  then show "lines = map encode ?rs"
    by (simp add: map_idI)
  have "set ?rs = (\<lambda>l. the (decode l)) ` set lines" by auto
  also have "\<dots> = set recs"
    unfolding assms(1) using inv by force
  finally show "set ?rs = set recs" .
qed

lemma session_lines:
  assumes "upload_reaches (upload_start c) s" "us_flushing s = []" "up_buf (us_uploader s) = []"
    and "us_accepted s = map encode recs" "\<forall>r \<in> set recs. ok r"
    and "list (object_key_prefix c) = Inr (map fst (us_objects s))"
    and "\<forall>(k, b) \<in> set (us_objects s). get k = Inr b"
  obtains rs where "read_all_jsonl list get c = Inr (map encode rs)" "set rs = set recs"
proof -
  have "\<forall>l \<in> set (us_accepted s). line_ok l"
    using assms(4) by (auto simp: encode_line)
  note up = uploaded_lines [OF assms(1-3) this]
  obtain lines where lines: "read_all_jsonl list get c = Inr lines" "set lines = set (map encode recs)"
    using read_all_objects [of list c "us_objects s" get, OF assms(6)] assms(4,7) up by fastforce
  obtain rs where "lines = map encode rs" "set rs = set recs"
    using lines_of_records [OF lines(2) assms(5)] .
  with lines(1) show ?thesis by (intro that [of rs]) simp_all
qed

end

end
