(* ===== verification/ShopProps.thy ===== *)
theory ShopProps
  imports Shop SessionCodec
begin

text \<open>
  The recording pipeline end to end: what is recorded through the endpoint, uploaded, preloaded
  and looked up by Envoy's egress stream.
\<close>

section \<open>A recorded line\<close>

definition seed_ok :: "seed_mock \<Rightarrow> bool" where
  "seed_ok r \<longleftrightarrow>
     list_all utf8_ok [sk_trace_id r, sk_verb r, sk_host r, sk_path r, mr_body (sk_response r)] \<and>
     map_ok (mr_headers (sk_response r)) \<and>
     - (2 ^ 63) \<le> mr_status (sk_response r) \<and> mr_status (sk_response r) \<le> 2 ^ 63 - 1"

lemma seed_json_line: "line_ok (json_marshal (seed_json r))"
proof -
  have "no_raw_newline (seed_json r)"
    by (auto simp: seed_json_def string_map_json_def itoz_no_newline list_all_iff split: option.splits)
  then show ?thesis
    using json_obj_line unfolding seed_json_def line_ok_def by blast
qed

lemma seed_json_wf: "seed_ok r \<Longrightarrow> json_wf (seed_json r)"
  by (auto simp: seed_ok_def seed_json_def string_map_json_def map_ok_def utf8_ok_ascii list_all_iff
      split: option.splits)

lemma seed_json_depth: "json_depth (seed_json r) \<le> 3"
  using string_map_depth [of "mr_headers (sk_response r)"] by (simp add: seed_json_def)

lemma decode_seed_json: "seed_ok r \<Longrightarrow> decode_seed_mock (seed_json r) seed_zero = (r, True)"
  by (cases r; cases "sk_response r")
    (simp add: seed_ok_def decode_seed_mock_def decode_seed_response_def seed_json_def seed_zero_def
      in_field_def field_of_def decode_string_map_json)

lemma unmarshal_seed_json: "seed_ok r \<Longrightarrow> unmarshal_seed (json_marshal (seed_json r)) = Some r"
  using seed_json_depth [of r]
  by (simp add: unmarshal_seed_def json_parse_marshal seed_json_wf max_nesting_depth_def decode_seed_json)

interpretation seeds: session_codec "json_marshal \<circ> seed_json" unmarshal_seed seed_ok
  by unfold_locales (simp_all add: seed_json_line unmarshal_seed_json)

section \<open>The store\<close>

text \<open>Of the responses put under a key the first 2xx answers, else the last.\<close>

definition winning :: "early_response list \<Rightarrow> early_response option" where
  "winning rs =
     (case find (\<lambda>r. is2xx (mr_status r)) rs of
        Some r \<Rightarrow> Some r
      | None \<Rightarrow> if rs = [] then None else Some (last rs))"

lemma winning_snoc:
  "winning (rs @ [r]) =
     (case winning rs of None \<Rightarrow> Some r | Some x \<Rightarrow> if is2xx (mr_status x) then Some x else Some r)"
proof -
  have "find P (rs @ [r]) = (case find P rs of Some x \<Rightarrow> Some x | None \<Rightarrow> if P r then Some r else None)" for P
    by (induction rs) auto
  moreover have "find P rs = Some x \<Longrightarrow> P x" for P x
    by (auto simp: find_Some_iff)
  moreover have "find P rs = None \<Longrightarrow> rs \<noteq> [] \<Longrightarrow> \<not> P (last rs)" for P
    by (auto simp: find_None_iff)
  ultimately show ?thesis
    unfolding winning_def by (auto split: option.splits)
qed

text \<open>
  What the readers and writers of a response store rely on: a put under a key that holds a 2xx
  answer changes nothing, any other put replaces the answer of that key only.
\<close>

locale response_store =
  fixes put :: "string \<Rightarrow> early_response \<Rightarrow> 's \<Rightarrow> 's"
    and look :: "string \<Rightarrow> 's \<Rightarrow> early_response option"
    and empty :: 's
  assumes look_empty: "look k empty = None"
    and look_put: "look k (put k' r d) =
      (if k = k' then (case look k d of None \<Rightarrow> Some r | Some x \<Rightarrow> if is2xx (mr_status x) then Some x else Some r)
       else look k d)"
begin

lemma look_puts:
  "look k (foldl (\<lambda>d r. put (key r) (resp r) d) empty rs) =
     winning (map resp (filter (\<lambda>r. key r = k) rs))"
proof (induction rs rule: rev_induct)
  case Nil
  then show ?case by (simp add: look_empty winning_def)
next
  case (snoc r rs)
  then show ?case
    by (cases "k = key r") (simp_all add: look_put winning_snoc)
qed

lemma sticky_success: "look k d = Some x \<Longrightarrow> is2xx (mr_status x) \<Longrightarrow> look k (put k' r d) = Some x"
  by (cases "k = k'") (simp_all add: look_put)

end

interpretation mocks: response_store mock_put mock_get "[]"
  by unfold_locales (auto simp: mock_get_def mock_put_def update_conv' split: option.splits)

lemma winning_None: "winning rs = None \<longleftrightarrow> rs = []"
  by (auto simp: winning_def split: option.splits)

lemma winning_Some:
  assumes "winning rs = Some r"
  shows "r \<in> set rs \<and> ((\<exists>x \<in> set rs. is2xx (mr_status x)) \<longrightarrow> is2xx (mr_status r))"
  using assms
  by (auto simp: winning_def find_None_iff find_Some_iff split: option.splits if_splits)

section \<open>From the bucket to the store\<close>

definition seed_complete :: "seed_mock \<Rightarrow> bool" where
  "seed_complete r \<longleftrightarrow> sk_trace_id r \<noteq> [] \<and> sk_verb r \<noteq> [] \<and> sk_host r \<noteq> [] \<and> sk_path r \<noteq> [] \<and>
     mr_status (sk_response r) \<noteq> 0"

lemma preload_lines:
  assumes "\<forall>r \<in> set rs. seed_ok r \<and> seed_complete r"
  shows "fold preload_line (map (json_marshal \<circ> seed_json) rs) (n, data) =
    (n + length rs, foldl (\<lambda>d r. mock_put (seed_key r) (sk_response r) d) data rs)"
  using assms
proof (induction rs arbitrary: n data)
  case (Cons r rs)
  then have "preload_line (json_marshal (seed_json r)) (n, data) = (n + 1, mock_put (seed_key r) (sk_response r) data)"
    by (simp add: preload_line_def unmarshal_seed_json seed_complete_def)
  then show ?case using Cons by simp
qed simp

text \<open>The answer of a store that holds the winners of some recorded calls.\<close>

lemma stored_answer:
  assumes "set rs = set recs"
    and get: "mock_get (state_key st) data = winning (map sk_response (filter (\<lambda>r. seed_key r = state_key st) rs))"
    and "eg_trace_id st \<noteq> []"
  shows "let answer = egress_immediate \<lparr>es_mocks = Some data, es_beru = beru, es_shadow_test = name\<rparr> st;
         same = filter (\<lambda>r. seed_key r = state_key st) recs
     in if same = [] then answer = egress_miss ''egress regression''
        else \<exists>r \<in> set same. let m = sk_response r in
          answer = (immediate_response (mr_status m) (mr_headers m) (mr_body m) ''egress mock hit'', mr_status m) \<and>
          ((\<exists>r' \<in> set same. is2xx (mr_status (sk_response r'))) \<longrightarrow> is2xx (mr_status m))"
proof -
  let ?same = "filter (\<lambda>r. seed_key r = state_key st) rs"
  have same: "set (filter (\<lambda>r. seed_key r = state_key st) recs) = set ?same"
    using assms(1) by simp
  have answer: "egress_immediate \<lparr>es_mocks = Some data, es_beru = beru, es_shadow_test = name\<rparr> st =
      (case winning (map sk_response ?same) of
         Some m \<Rightarrow> (immediate_response (mr_status m) (mr_headers m) (mr_body m) ''egress mock hit'', mr_status m)
       | None \<Rightarrow> egress_miss ''egress regression'')"
    using assms(3) by (simp add: egress_immediate_def get)
  show ?thesis
  proof (cases "winning (map sk_response ?same)")
    case None
    then have "?same = []" by (simp add: winning_None)
    then have "filter (\<lambda>r. seed_key r = state_key st) recs = []" using same by (metis set_empty)
    then show ?thesis by (simp add: answer None)
  next
    case (Some m)
    then obtain r where r: "r \<in> set ?same" "m = sk_response r"
      using winning_Some by force
    have "(\<exists>r' \<in> set ?same. is2xx (mr_status (sk_response r'))) \<longrightarrow> is2xx (mr_status m)"
      using winning_Some [OF Some] by simp
    moreover have "filter (\<lambda>r. seed_key r = state_key st) recs \<noteq> []"
      using r(1) same by (metis empty_iff list.set(1))
    ultimately show ?thesis
      unfolding Let_def answer Some using r same by auto
  qed
qed

text \<open>
  C28: What was recorded is what a replay answers.  Take any run of the uploader, with failed and
  repeated puts, in which every accepted record has left the buffer, and a bucket that lists and
  returns the objects it was given: preloading succeeds, and Envoy's egress stream answers a call
  with a trace id by a recorded response of the same trace, method, host without port and path -
  a 2xx one if any was recorded - or, when no such call was recorded, by the 599 regression answer.
\<close>

theorem recorded_session_replays:
  assumes "upload_reaches (upload_start c) s" "us_flushing s = []" "up_buf (us_uploader s) = []"
    and "us_accepted s = map (json_marshal \<circ> seed_json) recs"
    and "\<forall>r \<in> set recs. seed_ok r \<and> seed_complete r"
    and "list (object_key_prefix c) = Inr (map fst (us_objects s))"
    and "\<forall>(k, b) \<in> set (us_objects s). get k = Inr b"
    and "eg_trace_id st \<noteq> []"
  shows "\<exists>n data. preload_from_s3 list get (Some c) (Some []) = (Inr n, Some data) \<and>
    (let answer = egress_immediate \<lparr>es_mocks = Some data, es_beru = beru, es_shadow_test = name\<rparr> st;
         same = filter (\<lambda>r. seed_key r = state_key st) recs
     in if same = [] then answer = egress_miss ''egress regression''
        else \<exists>r \<in> set same. let m = sk_response r in
          answer = (immediate_response (mr_status m) (mr_headers m) (mr_body m) ''egress mock hit'', mr_status m) \<and>
          ((\<exists>r' \<in> set same. is2xx (mr_status (sk_response r'))) \<longrightarrow> is2xx (mr_status m)))"
proof -
  have ok: "\<forall>r \<in> set recs. seed_ok r"
    using assms(5) by blast
  obtain rs where lines: "read_all_jsonl list get c = Inr (map (json_marshal \<circ> seed_json) rs)"
      and rs: "set rs = set recs"
    by (rule seeds.session_lines [where list = list and get = get, OF assms(1-4) ok assms(6,7)])
  define data where "data = foldl (\<lambda>d r. mock_put (seed_key r) (sk_response r) d) [] rs"
  have "preload_from_s3 list get (Some c) (Some []) = (Inr (length rs), Some data)"
    using preload_lines [of rs 0 "[]"] assms(5) rs
    by (simp add: preload_from_s3_def lines data_def)
  moreover have "mock_get (state_key st) data =
      winning (map sk_response (filter (\<lambda>r. seed_key r = state_key st) rs))"
    unfolding data_def by (rule mocks.look_puts)
  ultimately show ?thesis
    using stored_answer [OF rs _ assms(8)] by blast
qed

text \<open>One call, recorded with the port in its host and looked up without.\<close>

definition sample_call :: seed_mock where
  "sample_call = \<lparr>sk_trace_id = ''4bf92f'', sk_verb = ''get'', sk_host = ''api:443'', sk_path = ''/v1'',
     sk_response = \<lparr>mr_status = 201, mr_headers = Some [(''etag'', ''1'')], mr_body = ''ok''\<rparr>\<rparr>"

definition sample_lookup :: egress_state where
  "sample_lookup = \<lparr>eg_role = ''candidate'', eg_trace_id = ''4bf92f'', eg_verb = ''GET'', eg_host = ''api'',
     eg_path = ''/v1'', eg_body = []\<rparr>"

definition sample_line :: bytes where
  "sample_line = json_marshal (seed_json sample_call)"

definition sample_session :: upload_state where
  "sample_session = sample_upload [] [] [(object_key sample_config 7 ''u'', batch_body [sample_line])] [sample_line]"

lemma sample_session_reached: "upload_reaches (upload_start sample_config) sample_session"
  unfolding sample_session_def by (rule sample_record_reached)

theorem recorded_session_replays_witness:
  "\<exists>n data. preload_from_s3 (\<lambda>_. Inr [object_key sample_config 7 ''u'']) (\<lambda>_. Inr (batch_body [sample_line]))
        (Some sample_config) (Some []) = (Inr n, Some data) \<and>
     egress_immediate \<lparr>es_mocks = Some data, es_beru = False, es_shadow_test = []\<rparr> sample_lookup =
       (Immediate 201 (Some [(''etag'', ''1'')]) ''ok'' ''egress mock hit'', 201)"
proof -
  have ok: "seed_ok sample_call \<and> seed_complete sample_call"
    by (simp add: seed_ok_def map_ok_def seed_complete_def sample_call_def utf8_ok_ascii)
  have key: "seed_key sample_call = state_key sample_lookup"
    by code_simp
  have resp: "sk_response sample_call = \<lparr>mr_status = 201, mr_headers = Some [(''etag'', ''1'')], mr_body = ''ok''\<rparr>"
    by (simp add: sample_call_def)
  have "\<exists>n data. preload_from_s3 (\<lambda>_. Inr [object_key sample_config 7 ''u'']) (\<lambda>_. Inr (batch_body [sample_line]))
        (Some sample_config) (Some []) = (Inr n, Some data) \<and>
     (let answer = egress_immediate \<lparr>es_mocks = Some data, es_beru = False, es_shadow_test = []\<rparr> sample_lookup;
         same = filter (\<lambda>r. seed_key r = state_key sample_lookup) [sample_call]
     in if same = [] then answer = egress_miss ''egress regression''
        else \<exists>r \<in> set same. let m = sk_response r in
          answer = (immediate_response (mr_status m) (mr_headers m) (mr_body m) ''egress mock hit'', mr_status m) \<and>
          ((\<exists>r' \<in> set same. is2xx (mr_status (sk_response r'))) \<longrightarrow> is2xx (mr_status m)))"
    by (rule recorded_session_replays [OF sample_session_reached])
       (simp_all add: sample_session_def sample_upload_def sample_line_def ok sample_lookup_def new_batch_uploader_def)
  then show ?thesis
    by (simp add: key resp immediate_response_def)
qed

section \<open>Recording and keys\<close>

text \<open>An accepted recording is in the upload buffer in the form the preload reads.\<close>

lemma record_egress_buffers:
  assumes "sh_uploader s = Some u" "shop_record_egress q s = ((202, body), s')"
  shows "\<exists>req u'. sq_body q \<noteq> None \<and> unmarshal_seed (the (sq_body q)) = Some req \<and> seed_complete req \<and>
    sh_uploader s' = Some u' \<and> up_buf u' = up_buf u @ [json_marshal (seed_json req)] \<and>
    sh_mocks s' = sh_mocks s"
  using assms
  by (auto simp: shop_record_egress_def record_egress_to_s3_def read_seed_def seed_complete_def
      uploader_add_def shop_error_def hash_reply_def shop_json_def Let_def
      split: option.splits if_splits bind_splits)

text \<open>Distinct calls have distinct keys, as long as the parts before the path hold no colon.\<close>

lemma append_sep_inject:
  "c \<notin> set xs \<Longrightarrow> c \<notin> set ys \<Longrightarrow> xs @ c # r = ys @ c # t \<longleftrightarrow> xs = ys \<and> r = t"
proof (induction xs arbitrary: ys)
  case Nil
  then show ?case by (cases ys) auto
next
  case (Cons x xs)
  then show ?case by (cases ys) auto
qed

lemma mock_trace_key_inject:
  assumes "CHR '':'' \<notin> set t" "CHR '':'' \<notin> set t'" "CHR '':'' \<notin> set (to_upper v)" "CHR '':'' \<notin> set (to_upper v')"
    and "CHR '':'' \<notin> set h" "CHR '':'' \<notin> set h'"
  shows "mock_trace_key t v h p = mock_trace_key t' v' h' p' \<longleftrightarrow>
    t = t' \<and> to_upper v = to_upper v' \<and> h = h' \<and> p = p'"
  using assms by (auto simp: mock_trace_key_def append_sep_inject)

text \<open>Bodies that are not JSON ignore the paths.\<close>

lemma hash_ignores_paths_non_json:
  "\<not> json_valid body \<Longrightarrow> hash_request del verb host path body ps = hash_request del verb host path body []"
  by (simp add: hash_request_def normalize_body_def)

section \<open>Posting reports\<close>

lemma post_attempts_bounded:
  "attempt \<le> Suc maxRetries \<Longrightarrow>
   fst (snd (post_attempts outcome cancelled maxRetries e attempt posts waits)) + attempt \<le> posts + Suc maxRetries"
proof (induction outcome cancelled maxRetries e attempt posts waits rule: post_attempts.induct)
  case (1 outcome cancelled maxRetries e attempt posts waits)
  then show ?case
    by (subst post_attempts.simps) (auto simp: Let_def split: option.splits)
qed

text \<open>A report is sent at most four times by default, and never again after a time-out.\<close>

lemma post_report_bounded:
  "fst (snd (post_report outcome cancelled url maxRetries)) \<le> nat (max maxRetries 0) + 1"
  using post_attempts_bounded [of 0 "nat (max maxRetries 0)" outcome cancelled None 0 "[]"]
  by (simp add: post_report_def)

lemma post_no_retry_after_timeout:
  "url \<noteq> [] \<Longrightarrow> outcome 0 = NoAnswer TimeoutError \<Longrightarrow>
   post_report outcome cancelled url maxRetries = (Some TimeoutError, 1, [])"
  by (simp add: post_report_def post_attempts.simps post_once_def)

end
