(* ===== verification/RecordReplay.thy ===== *)
theory RecordReplay
  imports KaiselRules Shop
begin

text \<open>
  Kaisel and Shop together: the record Kaisel exports of an egress call and the key under which
  Envoy looks the same call up in a replay.
\<close>









end
