(* ===== verification/GoBase64.thy ===== *)
theory GoBase64
  imports GoStrings
begin

text \<open>
  \<^verbatim>\<open>encoding/base64\<close>, the standard encoding with padding, which \<^verbatim>\<open>encoding/json\<close> uses
  for byte slices, and its round trip.
\<close>

definition base64_chars :: string where
  "base64_chars = ''ABCDEFGHIJKLMNOPQRSTUVWXYZabcdefghijklmnopqrstuvwxyz0123456789+/''"

definition base64_char :: "nat \<Rightarrow> char" where
  "base64_char n = base64_chars ! n"

definition base64_val :: "char \<Rightarrow> nat option" where
  "base64_val c =
     (let n = length (takeWhile (\<lambda>x. x \<noteq> c) base64_chars) in if n < 64 then Some n else None)"

fun base64_encode :: "bytes \<Rightarrow> string" where
  "base64_encode [] = []"
| "base64_encode [a] =
     (let x = (of_char a :: nat) in [base64_char (x div 4), base64_char (x mod 4 * 16), CHR ''='', CHR ''=''])"
| "base64_encode [a, b] =
     (let x = (of_char a :: nat); y = (of_char b :: nat)
      in [base64_char (x div 4), base64_char (x mod 4 * 16 + y div 16), base64_char (y mod 16 * 4), CHR ''=''])"
| "base64_encode (a # b # c # s) =
     (let x = (of_char a :: nat); y = (of_char b :: nat); z = (of_char c :: nat)
      in base64_char (x div 4) # base64_char (x mod 4 * 16 + y div 16) #
         base64_char (y mod 16 * 4 + z div 64) # base64_char (z mod 64) # base64_encode s)"

definition byte_of :: "nat \<Rightarrow> char" where
  "byte_of n = char_of n"

fun base64_groups :: "string \<Rightarrow> bytes option" where
  "base64_groups [] = Some []"
| "base64_groups (a # b # c # d # s) =
     (if d = CHR ''='' then
        (if s \<noteq> [] then None
         else if c = CHR ''='' then
           (case (base64_val a, base64_val b) of
              (Some x, Some y) \<Rightarrow> Some [byte_of (x * 4 + y div 16)]
            | _ \<Rightarrow> None)
         else
           (case (base64_val a, base64_val b, base64_val c) of
              (Some x, Some y, Some z) \<Rightarrow> Some [byte_of (x * 4 + y div 16), byte_of (y mod 16 * 16 + z div 4)]
            | _ \<Rightarrow> None))
      else
        (case (base64_val a, base64_val b, base64_val c, base64_val d) of
           (Some x, Some y, Some z, Some w) \<Rightarrow>
             map_option (\<lambda>r. byte_of (x * 4 + y div 16) # byte_of (y mod 16 * 16 + z div 4) #
                             byte_of (z mod 4 * 64 + w) # r) (base64_groups s)
         | _ \<Rightarrow> None))"
| "base64_groups s = None"

text \<open>The decoder skips line ends anywhere.\<close>

definition base64_decode :: "string \<Rightarrow> bytes option" where
  "base64_decode s = base64_groups (filter (\<lambda>c. c \<noteq> CHR 0x0A \<and> c \<noteq> CHR 0x0D) s)"

lemma base64_table: "\<forall>n \<in> set [0..<64]. base64_val (base64_char n) = Some n \<and> base64_char n \<noteq> CHR ''='' \<and>
    base64_char n \<noteq> CHR 0x0A \<and> base64_char n \<noteq> CHR 0x0D \<and> (of_char (base64_char n) :: nat) < 128"
  by code_simp

lemma base64_val_char [simp]: "n < 64 \<Longrightarrow> base64_val (base64_char n) = Some n"
  and base64_char_plain [simp]: "n < 64 \<Longrightarrow> base64_char n \<noteq> CHR ''=''"
    "n < 64 \<Longrightarrow> base64_char n \<noteq> CHR 0x0A" "n < 64 \<Longrightarrow> base64_char n \<noteq> CHR 0x0D"
    "n < 64 \<Longrightarrow> (of_char (base64_char n) :: nat) < 128"
  using base64_table by simp_all

lemma byte_bound: "(of_char c :: nat) < 256"
  by (rule of_char_less_256)

lemma sextets:
  fixes x y z :: nat
  assumes "x < 256" "y < 256" "z < 256"
  shows "x div 4 < 64" "x mod 4 * 16 < 64" "x mod 4 * 16 + y div 16 < 64" "y mod 16 * 4 < 64"
    "y mod 16 * 4 + z div 64 < 64" "z mod 64 < 64"
  using assms by (auto simp: less_mult_imp_div_less)

lemma octets:
  fixes x y z :: nat
  assumes "x < 256" "y < 256" "z < 256"
  shows "x div 4 * 4 + x mod 4 * 16 div 16 = x"
    "x div 4 * 4 + (x mod 4 * 16 + y div 16) div 16 = x"
    "(x mod 4 * 16 + y div 16) mod 16 * 16 + y mod 16 * 4 div 4 = y"
    "(x mod 4 * 16 + y div 16) mod 16 * 16 + (y mod 16 * 4 + z div 64) div 4 = y"
    "(y mod 16 * 4 + z div 64) mod 4 * 64 + z mod 64 = z"
proof -
  have y16: "y div 16 < 16" and z64: "z div 64 < 4"
    using assms by auto
  then have "(x mod 4 * 16 + y div 16) div 16 = x mod 4" "(x mod 4 * 16 + y div 16) mod 16 = y div 16"
    "(y mod 16 * 4 + z div 64) div 4 = y mod 16" "(y mod 16 * 4 + z div 64) mod 4 = z div 64"
    by simp_all
  then show "x div 4 * 4 + x mod 4 * 16 div 16 = x"
    "x div 4 * 4 + (x mod 4 * 16 + y div 16) div 16 = x"
    "(x mod 4 * 16 + y div 16) mod 16 * 16 + y mod 16 * 4 div 4 = y"
    "(x mod 4 * 16 + y div 16) mod 16 * 16 + (y mod 16 * 4 + z div 64) div 4 = y"
    "(y mod 16 * 4 + z div 64) mod 4 * 64 + z mod 64 = z"
    by simp_all
qed

lemma base64_groups_encode: "base64_groups (base64_encode s) = Some s"
proof (induction s rule: base64_encode.induct)
  case (2 a)
  then show ?case
    using sextets [OF byte_bound [of a] byte_bound [of a] byte_bound [of a]]
      octets [OF byte_bound [of a] byte_bound [of a] byte_bound [of a]]
    by (simp add: Let_def byte_of_def)
next
  case (3 a b)
  then show ?case
    using sextets [OF byte_bound [of a] byte_bound [of b] byte_bound [of b]]
      octets [OF byte_bound [of a] byte_bound [of b] byte_bound [of b]]
    by (simp add: Let_def byte_of_def)
next
  case (4 a b c s)
  then show ?case
    using sextets [OF byte_bound [of a] byte_bound [of b] byte_bound [of c]]
      octets [OF byte_bound [of a] byte_bound [of b] byte_bound [of c]]
    by (simp add: Let_def byte_of_def)
qed simp

definition base64_text :: "char \<Rightarrow> bool" where
  "base64_text c \<longleftrightarrow> c \<noteq> CHR 0x0A \<and> c \<noteq> CHR 0x0D \<and> (of_char c :: nat) < 128"

lemma base64_text_char [simp]: "n < 64 \<Longrightarrow> base64_text (base64_char n)" "base64_text (CHR ''='')"
  by (simp_all add: base64_text_def)

lemma base64_encode_text: "list_all base64_text (base64_encode s)"
proof (induction s rule: base64_encode.induct)
  case (2 a)
  then show ?case
    using sextets [OF byte_bound [of a] byte_bound [of a] byte_bound [of a]] by (simp add: Let_def)
next
  case (3 a b)
  then show ?case
    using sextets [OF byte_bound [of a] byte_bound [of b] byte_bound [of b]] by (simp add: Let_def)
next
  case (4 a b c s)
  then show ?case
    using sextets [OF byte_bound [of a] byte_bound [of b] byte_bound [of c]] by (simp add: Let_def)
qed simp

theorem base64_decode_encode: "base64_decode (base64_encode s) = Some s"
proof -
  have "filter (\<lambda>c. c \<noteq> CHR 0x0A \<and> c \<noteq> CHR 0x0D) (base64_encode s) = base64_encode s"
    using base64_encode_text [of s] by (intro filter_True) (auto simp: list_all_iff base64_text_def)
  then show ?thesis by (simp add: base64_decode_def base64_groups_encode)
qed

lemma base64_ascii: "\<forall>c \<in> set (base64_encode s). (of_char c :: nat) < 128"
  using base64_encode_text [of s] by (auto simp: list_all_iff base64_text_def)

end
