(* ===== verification/IgrisHttp.thy ===== *)
theory IgrisHttp
  imports S3Store GoRecord GoBase64 Tracing
begin

text \<open>
  \<^verbatim>\<open>pipeline/igrises/igris-http\<close> and \<^verbatim>\<open>pkg/replay\<close>: the HTTP driver with its
  concurrency limit, the hub that records an ingress request or multicasts it, and the engine that
  replays a recorded session against the shadow pods.  What the HTTP client answers is an argument;
  header maps of requests that came through the server have canonical keys.
\<close>

section \<open>Headers (net/http)\<close>

type_synonym header_values = "(string \<times> string list) list"

definition token_char :: "char \<Rightarrow> bool" where
  "token_char c \<longleftrightarrow> (let n = (of_char c :: nat) in
     48 \<le> n \<and> n \<le> 57 \<or> 65 \<le> n \<and> n \<le> 90 \<or> 97 \<le> n \<and> n \<le> 122 \<or> c \<in> set ''!#$%&*+-.^_`|~'' \<or> n = 39)"

fun canonical_from :: "bool \<Rightarrow> string \<Rightarrow> string" where
  "canonical_from upper [] = []"
| "canonical_from upper (c # s) =
     (if upper then upper_char c else lower_char c) # canonical_from (c = CHR ''-'') s"

definition canonical_key :: "string \<Rightarrow> string" where
  "canonical_key k = (if list_all token_char k then canonical_from True k else k)"

definition header_set :: "string \<Rightarrow> string \<Rightarrow> header_values \<Rightarrow> header_values" where
  "header_set k v h = AList.update (canonical_key k) [v] h"

definition header_del :: "string \<Rightarrow> header_values \<Rightarrow> header_values" where
  "header_del k h = AList.delete (canonical_key k) h"

definition header_values_get :: "header_values \<Rightarrow> string \<Rightarrow> string" where
  "header_values_get h k = (case map_of h (canonical_key k) of Some (v # _) \<Rightarrow> v | _ \<Rightarrow> [])"

section \<open>Sessions and records (driver)\<close>

record igris_session =
  is_verb :: string
  is_path :: string
  is_uri :: string
  is_headers :: header_values
  is_body :: bytes

record metadata =
  md_trace_id :: string
  md_traceparent :: string

record ingress_capture =
  ic_traceparent :: string
  ic_trace_id :: string
  ic_verb :: string
  ic_path :: string
  ic_uri :: string
  ic_headers :: string_map
  ic_body :: bytes

record igris_target =
  tg_name :: string
  tg_base :: string

record igris_message =
  mg_verb :: string
  mg_uri :: string
  mg_headers :: header_values
  mg_body :: bytes

definition parse_metadata :: "igris_session \<Rightarrow> trace_error + metadata" where
  "parse_metadata s =
     (case resolve_http (header_values_get (is_headers s)) of
        Inl e \<Rightarrow> Inl e
      | Inr r \<Rightarrow> Inr \<lparr>md_trace_id = rc_trace_id r, md_traceparent = rc_traceparent r\<rparr>)"

definition delete_trace_headers :: "header_values \<Rightarrow> header_values" where
  "delete_trace_headers h =
     foldl (\<lambda>h k. if to_lower k = ''traceparent'' then header_del k h else h) h (map fst h)"

definition transform :: "igris_session \<Rightarrow> metadata \<Rightarrow> igris_message" where
  "transform s meta =
     \<lparr>mg_verb = is_verb s, mg_uri = is_uri s,
      mg_headers = header_set HeaderTraceparent (md_traceparent meta)
        (delete_trace_headers
          (header_del ''Proxy-Authorization'' (header_del ''Cookie'' (header_del ''Authorization'' (is_headers s))))),
      mg_body = is_body s\<rparr>"

definition flatten_headers :: "header_values \<Rightarrow> (string \<times> string) list" where
  "flatten_headers h =
     foldl (\<lambda>out (k, vals). case vals of [] \<Rightarrow> out | v # _ \<Rightarrow> ins_key k v out) [] h"

definition capture_ingress :: "igris_session \<Rightarrow> metadata \<Rightarrow> ingress_capture" where
  "capture_ingress s meta =
     (let headers = AList.delete ''Proxy-Authorization'' (AList.delete ''Cookie''
                      (AList.delete ''Authorization'' (flatten_headers (is_headers s))))
      in \<lparr>ic_traceparent = md_traceparent meta, ic_trace_id = md_trace_id meta, ic_verb = is_verb s,
          ic_path = is_path s, ic_uri = is_uri s,
          ic_headers = Some (ins_key HeaderTraceparent (md_traceparent meta) headers),
          ic_body = is_body s\<rparr>)"

definition capture_json :: "ingress_capture \<Rightarrow> jval" where
  "capture_json r =
     JObj [(''traceparent'', JStr (ic_traceparent r)), (''trace_id'', JStr (ic_trace_id r)),
       (''method'', JStr (ic_verb r)), (''path'', JStr (ic_path r)), (''request_uri'', JStr (ic_uri r)),
       (''headers'', string_map_json (ic_headers r)),
       (''body'', JStr (base64_encode (ic_body r)))]"

section \<open>The hub (core/hub.go)\<close>

record igris_hub =
  hb_mode :: string
  hb_uploader :: "uploader option"
  hb_jobs :: "igris_message list"

datatype hub_error = TraceError trace_error | UploadError string

text \<open>
  \<^verbatim>\<open>HandleAtomic\<close> for the HTTP driver, which always answers early with 202 and no body, so
  that the answer cannot fail.  The result is the error, whether the answer was sent before it, and
  the hub.
\<close>

definition handle_atomic :: "igris_session \<Rightarrow> igris_hub \<Rightarrow> hub_error option \<times> bool \<times> igris_hub" where
  "handle_atomic s h =
     (case parse_metadata s of
        Inl e \<Rightarrow> (Some (TraceError e), False, h)
      | Inr meta \<Rightarrow>
          (case (if hb_mode h = ModeRecord then hb_uploader h else None) of
             Some u \<Rightarrow>
               (case uploader_add (Inr (json_marshal (capture_json (capture_ingress s meta)))) u of
                  (Inl e, u') \<Rightarrow> (Some (UploadError e), True, h)
                | (Inr full, u') \<Rightarrow> (None, True, h\<lparr>hb_uploader := Some u'\<rparr>))
           | None \<Rightarrow> (None, True, h\<lparr>hb_jobs := hb_jobs h @ [transform s meta]\<rparr>)))"

section \<open>The listener (driver/http/http.go)\<close>

text \<open>
  Requests in a handler: those that have increased the counter and not yet looked at it, those
  over the limit that have not yet decreased it, and those being served.
\<close>

record listener =
  ls_max :: int
  ls_active :: "64 word"
  ls_serving :: nat
  ls_shedding :: nat
  ls_shed :: nat
  ls_served :: nat

definition listener_start :: "int \<Rightarrow> listener" where
  "listener_start maxConcurrency =
     \<lparr>ls_max = maxConcurrency, ls_active = 0, ls_serving = 0, ls_shedding = 0, ls_shed = 0, ls_served = 0\<rparr>"

text \<open>The increase and its test are one atomic operation; each decrease is another.\<close>

definition enter_request :: "listener \<Rightarrow> listener" where
  "enter_request l =
     (if ls_max l < 0 then l\<lparr>ls_serving := ls_serving l + 1\<rparr>
      else
        let active = ls_active l + 1
        in if sint active > ls_max l
           then l\<lparr>ls_active := active, ls_shedding := ls_shedding l + 1\<rparr>
           else l\<lparr>ls_active := active, ls_serving := ls_serving l + 1\<rparr>)"

definition shed_request :: "listener \<Rightarrow> listener" where
  "shed_request l =
     l\<lparr>ls_active := ls_active l - 1, ls_shedding := ls_shedding l - 1, ls_shed := ls_shed l + 1\<rparr>"

definition leave_request :: "listener \<Rightarrow> listener" where
  "leave_request l =
     (if ls_max l < 0 then l\<lparr>ls_serving := ls_serving l - 1, ls_served := ls_served l + 1\<rparr>
      else l\<lparr>ls_active := ls_active l - 1, ls_serving := ls_serving l - 1, ls_served := ls_served l + 1\<rparr>)"

text \<open>There are fewer requests than a counter of 63 bits can hold.\<close>

inductive listener_step :: "listener \<Rightarrow> listener \<Rightarrow> bool" where
  Enter: "ls_serving l + ls_shedding l + 1 < 2 ^ 63 \<Longrightarrow> listener_step l (enter_request l)"
| Shed: "ls_shedding l > 0 \<Longrightarrow> listener_step l (shed_request l)"
| Leave: "ls_serving l > 0 \<Longrightarrow> listener_step l (leave_request l)"

inductive_cases listener_stepE: "listener_step l l'"

inductive listener_reaches :: "listener \<Rightarrow> listener \<Rightarrow> bool" where
  start: "listener_reaches l l"
| step: "listener_reaches l l' \<Longrightarrow> listener_step l' l'' \<Longrightarrow> listener_reaches l l''"

text \<open>
  What the handler does with a request it serves: the body within its limit, then the hub.  An
  error after the early answer cannot change its status.
\<close>

datatype body_read = BodyRead bytes | BodyTooLarge | BodyError

definition serve_request :: "(bytes \<Rightarrow> igris_session) \<Rightarrow> body_read \<Rightarrow> igris_hub \<Rightarrow> int \<times> igris_hub" where
  "serve_request session body h =
     (case body of
        BodyTooLarge \<Rightarrow> (413, h)
      | BodyError \<Rightarrow> (400, h)
      | BodyRead b \<Rightarrow>
          (case handle_atomic (session b) h of
             (None, sent, h') \<Rightarrow> (202, h')
           | (Some e, True, h') \<Rightarrow> (202, h')
           | (Some e, False, h') \<Rightarrow> (400, h')))"

section \<open>Sending (driver/http/message.go, replay/dispatch.go)\<close>

definition replayRoleHeader :: string where "replayRoleHeader = ''x-shadow-role''"

record outbound =
  ob_target :: string
  ob_verb :: string
  ob_url :: string
  ob_headers :: header_values
  ob_body :: bytes

definition message_request :: "igris_message \<Rightarrow> igris_target \<Rightarrow> outbound" where
  "message_request m t =
     \<lparr>ob_target = tg_name t, ob_verb = mg_verb m, ob_url = trim_suffix (tg_base t) ''/'' @ mg_uri m,
      ob_headers = mg_headers m, ob_body = mg_body m\<rparr>"

definition message_dispatch :: "igris_message \<Rightarrow> igris_target list \<Rightarrow> outbound list" where
  "message_dispatch m targets = map (message_request m) targets"

definition replay_request :: "string \<Rightarrow> string \<Rightarrow> header_values \<Rightarrow> bytes \<Rightarrow> igris_target \<Rightarrow> outbound" where
  "replay_request verb uri headers body t =
     \<lparr>ob_target = tg_name t, ob_verb = verb, ob_url = trim_suffix (tg_base t) ''/'' @ uri,
      ob_headers = header_set replayRoleHeader (tg_name t) headers, ob_body = body\<rparr>"

definition replayRetryWaits :: "duration list" where
  "replayRetryWaits = [1 * 10 ^ 9, 3 * 10 ^ 9, 5 * 10 ^ 9]"

text \<open>
  One target: the attempts from the given one on; \<^verbatim>\<open>outcome\<close> is a status or a transport
  error.  The result is the last outcome with the number of requests sent and the waits.
\<close>

fun send_attempts ::
  "(nat \<Rightarrow> string + int) \<Rightarrow> nat \<Rightarrow> duration list \<Rightarrow> (string + int) \<times> nat \<times> duration list" where
  "send_attempts outcome attempt [] = (outcome attempt, attempt + 1, [])"
| "send_attempts outcome attempt (w # ws) =
     (case outcome attempt of
        Inr status \<Rightarrow> (Inr status, attempt + 1, [])
      | Inl e \<Rightarrow>
          (case send_attempts outcome (attempt + 1) ws of (res, n, waits) \<Rightarrow> (res, n, w # waits)))"

definition send_one_with_retry :: "(nat \<Rightarrow> string + int) \<Rightarrow> (string + int) \<times> nat \<times> duration list" where
  "send_one_with_retry outcome = send_attempts outcome 0 replayRetryWaits"

text \<open>The headers of a record, set in the order its map is iterated in.\<close>

definition replay_headers :: "(string list \<Rightarrow> string list) \<Rightarrow> ingress_capture \<Rightarrow> header_values" where
  "replay_headers io rec =
     (let recorded = (case ic_headers rec of None \<Rightarrow> [] | Some m \<Rightarrow> m);
          base = foldl (\<lambda>h k. header_set k (go_get [] recorded k) h) [] (io (map fst recorded));
          tp = trim_space (ic_traceparent rec)
      in if tp \<noteq> [] then header_set HeaderTraceparent tp base else base)"

definition dispatch_record ::
  "(string list \<Rightarrow> string list) \<Rightarrow> ingress_capture \<Rightarrow> igris_target list \<Rightarrow> outbound list" where
  "dispatch_record io rec targets =
     (let uri = (if ic_uri rec = [] then ic_path rec else ic_uri rec)
      in map (replay_request (ic_verb rec) uri (replay_headers io rec) (ic_body rec)) targets)"

section \<open>Loading a session (pkg/replay/load.go, replay/load.go)\<close>

definition load_jsonl ::
  "list_keys \<Rightarrow> get_object \<Rightarrow> s3_config option \<Rightarrow> (bytes \<Rightarrow> 'r option) \<Rightarrow> ('r \<Rightarrow> bool) \<Rightarrow> string + 'r list" where
  "load_jsonl list get reader unmarshal accept =
     (case reader of
        None \<Rightarrow> Inl ''replay: S3Reader is required''
      | Some c \<Rightarrow>
          (case read_all_jsonl list get c of
             Inl e \<Rightarrow> Inl e
           | Inr lines \<Rightarrow> Inr (filter accept (List.map_filter unmarshal lines))))"

fun decode_bytes :: "bytes decoder" where
  "decode_bytes (JStr s) cur = (case base64_decode s of Some b \<Rightarrow> (b, True) | None \<Rightarrow> (cur, False))"
| "decode_bytes JNull cur = ([], True)"
| "decode_bytes v cur = (cur, False)"

definition capture_zero :: ingress_capture where
  "capture_zero = \<lparr>ic_traceparent = [], ic_trace_id = [], ic_verb = [], ic_path = [], ic_uri = [],
     ic_headers = None, ic_body = []\<rparr>"

definition decode_capture :: "ingress_capture decoder" where
  "decode_capture = decode_struct
     [(''traceparent'', in_field ic_traceparent (\<lambda>x. ic_traceparent_update (\<lambda>_. x)) decode_string),
      (''trace_id'', in_field ic_trace_id (\<lambda>x. ic_trace_id_update (\<lambda>_. x)) decode_string),
      (''method'', in_field ic_verb (\<lambda>x. ic_verb_update (\<lambda>_. x)) decode_string),
      (''path'', in_field ic_path (\<lambda>x. ic_path_update (\<lambda>_. x)) decode_string),
      (''request_uri'', in_field ic_uri (\<lambda>x. ic_uri_update (\<lambda>_. x)) decode_string),
      (''headers'', in_field ic_headers (\<lambda>x. ic_headers_update (\<lambda>_. x)) decode_string_map),
      (''body'', in_field ic_body (\<lambda>x. ic_body_update (\<lambda>_. x)) decode_bytes)]"

definition unmarshal_capture :: "bytes \<Rightarrow> ingress_capture option" where
  "unmarshal_capture raw =
     (case json_parse raw of
        None \<Rightarrow> None
      | Some v \<Rightarrow> (case decode_capture v capture_zero of (r, ok) \<Rightarrow> if ok then Some r else None))"

definition accept_capture :: "ingress_capture \<Rightarrow> bool" where
  "accept_capture r \<longleftrightarrow> ic_verb r \<noteq> [] \<and> (ic_uri r \<noteq> [] \<or> ic_path r \<noteq> [])"

definition load_ingress :: "list_keys \<Rightarrow> get_object \<Rightarrow> s3_config option \<Rightarrow> string + ingress_capture list" where
  "load_ingress list get reader = load_jsonl list get reader unmarshal_capture accept_capture"

section \<open>The replay engine (pkg/replay/engine.go, admin.go)\<close>

text \<open>The loop runs in a goroutine: it is at a record, or it has ended and clears the flag.\<close>

record 'r replay_engine =
  en_records :: "'r list"
  en_running :: bool
  en_next :: nat
  en_dispatched :: "'r list"
  en_runs :: nat

definition new_engine :: "'r list \<Rightarrow> 'r replay_engine" where
  "new_engine records =
     \<lparr>en_records = records, en_running = False, en_next = 0, en_dispatched = [], en_runs = 0\<rparr>"

definition engine_start :: "'r replay_engine \<Rightarrow> (nat \<times> bool) \<times> 'r replay_engine" where
  "engine_start e =
     (if en_running e then ((length (en_records e), True), e)
      else ((length (en_records e), False), e\<lparr>en_running := True, en_next := 0\<rparr>))"

inductive engine_step :: "'r replay_engine \<Rightarrow> 'r replay_engine \<Rightarrow> bool" where
  Start: "engine_step e (snd (engine_start e))"
| Dispatch: "en_running e \<Longrightarrow> en_next e < length (en_records e) \<Longrightarrow>
     engine_step e (e\<lparr>en_next := en_next e + 1, en_dispatched := en_dispatched e @ [en_records e ! en_next e]\<rparr>)"
| Finish: "en_running e \<Longrightarrow> en_next e = length (en_records e) \<Longrightarrow>
     engine_step e (e\<lparr>en_running := False, en_runs := en_runs e + 1\<rparr>)"

inductive_cases engine_stepE: "engine_step e e'"

definition handle_start :: "string \<Rightarrow> 'r replay_engine option \<Rightarrow> (int \<times> string) \<times> 'r replay_engine option" where
  "handle_start verb engine =
     (if verb \<noteq> ''POST'' then ((405, ''Method Not Allowed'' @ newline), engine)
      else case engine of
             None \<Rightarrow> ((503, ''replay engine not configured'' @ newline), engine)
           | Some e \<Rightarrow>
               (case engine_start e of
                  ((n, already), e') \<Rightarrow>
                    ((if already then 409 else 202,
                      json_marshal (JObj [(''status'', JStr (if already then ''replay_in_progress'' else ''replay_started'')),
                        (''total_records'', JNum (itoa n))]) @ newline), Some e')))"

end
