(* ===== verification/IgrisHttpProps.thy ===== *)
theory IgrisHttpProps
  imports IgrisHttp SessionCodec
begin

text \<open>
  The replay side of Igris: the concurrency limit of the listener, the order of a replay, and what
  a recorded request is when it reaches the shadow pods.
\<close>

section \<open>The concurrency limit\<close>

definition listener_ok :: "listener \<Rightarrow> bool" where
  "listener_ok l \<longleftrightarrow>
     ls_serving l + ls_shedding l < 2 ^ 63 \<and>
     (ls_max l \<ge> 0 \<longrightarrow> ls_active l = of_nat (ls_serving l + ls_shedding l) \<and> int (ls_serving l) \<le> ls_max l)"

lemma sint_small: "n < 2 ^ 63 \<Longrightarrow> sint (of_nat n :: 64 word) = int n"
  by (simp add: signed_of_nat signed_take_bit_int_eq_self)

lemma enter_serves:
  assumes "listener_ok l" "ls_max l \<ge> 0" "ls_serving l + ls_shedding l + 1 < 2 ^ 63"
  shows "enter_request l =
    (let active = of_nat (ls_serving l + ls_shedding l + 1)
     in if int (ls_serving l + ls_shedding l) \<ge> ls_max l
        then l\<lparr>ls_active := active, ls_shedding := ls_shedding l + 1\<rparr>
        else l\<lparr>ls_active := active, ls_serving := ls_serving l + 1\<rparr>)"
proof -
  have "ls_active l + 1 = (of_nat (ls_serving l + ls_shedding l + 1) :: 64 word)"
    using assms(1,2) by (simp add: listener_ok_def)
  moreover have "sint (of_nat (ls_serving l + ls_shedding l + 1) :: 64 word) = int (ls_serving l + ls_shedding l + 1)"
    using assms(3) by (rule sint_small)
  ultimately show ?thesis
    using assms(2) by (simp add: enter_request_def Let_def del: of_nat_add of_nat_Suc)
qed

lemma listener_step_ok: "listener_step l l' \<Longrightarrow> listener_ok l \<Longrightarrow> listener_ok l' \<and> ls_max l' = ls_max l"
proof (induction rule: listener_step.induct)
  case (Enter l)
  show ?case
  proof (cases "ls_max l < 0")
    case True
    with Enter show ?thesis by (simp add: enter_request_def listener_ok_def)
  next
    case False
    then show ?thesis
      using Enter enter_serves [of l] by (auto simp: listener_ok_def Let_def)
  qed
next
  case (Shed l)
  then obtain n where "ls_shedding l = Suc n" by (cases "ls_shedding l") auto
  with Shed show ?case by (auto simp: shed_request_def listener_ok_def)
next
  case (Leave l)
  then obtain n where "ls_serving l = Suc n" by (cases "ls_serving l") auto
  with Leave show ?case by (auto simp: leave_request_def listener_ok_def)
qed

lemma listener_reaches_ok:
  "listener_reaches l l' \<Longrightarrow> listener_ok l \<Longrightarrow> listener_ok l' \<and> ls_max l' = ls_max l"
  by (induction rule: listener_reaches.induct) (auto dest: listener_step_ok)

text \<open>
  C34: However requests enter, leave and are shed, a listener with a limit never serves more
  requests than the limit, its counter is the number of requests inside, and a request is shed
  exactly when the requests inside - those being shed included, which makes the limit stricter than
  the number of requests being served - have reached the limit.
\<close>

theorem concurrency_limit:
  assumes "listener_reaches (listener_start limit) l" "0 \<le> limit"
    and "ls_serving l + ls_shedding l + 1 < 2 ^ 63"
  shows "int (ls_serving l) \<le> limit \<and> ls_active l = of_nat (ls_serving l + ls_shedding l) \<and>
    (ls_shedding (enter_request l) = ls_shedding l + 1 \<longleftrightarrow> limit \<le> int (ls_serving l + ls_shedding l)) \<and>
    (ls_serving (enter_request l) = ls_serving l + 1 \<longleftrightarrow> int (ls_serving l + ls_shedding l) < limit)"
proof -
  have "listener_ok (listener_start limit)"
    by (simp add: listener_ok_def listener_start_def)
  then have ok: "listener_ok l" and max: "ls_max l = limit"
    using listener_reaches_ok [OF assms(1)] by (simp_all add: listener_start_def)
  show ?thesis
    using ok max assms(2) enter_serves [OF ok _ assms(3)]
    by (auto simp: listener_ok_def Let_def)
qed

text \<open>A free slot while a shed request is on its way out: the next request is shed as well.\<close>

definition shedding_listener :: listener where
  "shedding_listener =
     \<lparr>ls_max = 1, ls_active = 1, ls_serving = 0, ls_shedding = 1, ls_shed = 0, ls_served = 1\<rparr>"

lemma shedding_listener_reached: "listener_reaches (listener_start 1) shedding_listener"
proof -
  note go = listener_reaches.step
  have 1: "listener_reaches (listener_start 1) ((listener_start 1)\<lparr>ls_active := 1, ls_serving := 1\<rparr>)"
    using go [OF listener_reaches.start listener_step.Enter [of "listener_start 1"]]
    by (simp add: listener_start_def enter_request_def)
  have 2: "listener_reaches (listener_start 1)
      ((listener_start 1)\<lparr>ls_active := 2, ls_serving := 1, ls_shedding := 1\<rparr>)"
    using go [OF 1 listener_step.Enter] by (simp add: listener_start_def enter_request_def)
  show ?thesis
    using go [OF 2 listener_step.Leave]
    by (simp add: listener_start_def leave_request_def shedding_listener_def)
qed

theorem concurrency_limit_witness:
  "ls_serving shedding_listener = 0 \<and> ls_shedding (enter_request shedding_listener) = 2"
proof -
  have "ls_serving shedding_listener + ls_shedding shedding_listener + 1 < 2 ^ 63"
    by (simp add: shedding_listener_def)
  from concurrency_limit [OF shedding_listener_reached _ this] show ?thesis
    by (simp add: shedding_listener_def)
qed

section \<open>The replay loop\<close>

inductive engine_reaches :: "'r replay_engine \<Rightarrow> 'r replay_engine \<Rightarrow> bool" where
  start: "engine_reaches e e"
| step: "engine_reaches e e' \<Longrightarrow> engine_step e' e'' \<Longrightarrow> engine_reaches e e''"

definition engine_ok :: "'r list \<Rightarrow> 'r replay_engine \<Rightarrow> bool" where
  "engine_ok rs e \<longleftrightarrow>
     en_records e = rs \<and> en_next e \<le> length rs \<and>
     en_dispatched e = concat (replicate (en_runs e) rs) @ (if en_running e then take (en_next e) rs else [])"

lemma concat_replicate_Suc: "concat (replicate (Suc n) xs) = concat (replicate n xs) @ xs"
  by (induction n) simp_all

lemma engine_step_ok: "engine_step e e' \<Longrightarrow> engine_ok rs e \<Longrightarrow> engine_ok rs e'"
  by (auto elim!: engine_stepE simp: engine_ok_def engine_start_def take_Suc_conv_app_nth
      concat_replicate_Suc simp del: replicate.simps)

text \<open>
  Requests to start a replay, at any time, never run two loops at once: what has been dispatched is
  the session over and over, each time in order and from its beginning.
\<close>

lemma replay_in_order:
  assumes "engine_reaches (new_engine rs) e"
  shows "en_dispatched e = concat (replicate (en_runs e) rs) @ (if en_running e then take (en_next e) rs else [])"
proof -
  have "engine_ok rs (new_engine rs)"
    by (simp add: engine_ok_def new_engine_def)
  with assms have "engine_ok rs e"
    by (induction "new_engine rs" e rule: engine_reaches.induct) (auto intro: engine_step_ok)
  then show ?thesis by (simp add: engine_ok_def)
qed

lemma send_attempts_bounded:
  "fst (snd (send_attempts outcome n ws)) \<le> n + length ws + 1 \<and>
   (\<forall>e. fst (send_attempts outcome n ws) = Inl e \<longrightarrow> snd (snd (send_attempts outcome n ws)) = ws)"
  by (induction outcome n ws rule: send_attempts.induct) (auto split: sum.splits prod.splits)

text \<open>A delivery is given up after four attempts and nine seconds of waiting.\<close>

lemma send_one_gives_up:
  "fst (send_one_with_retry outcome) = Inl e \<Longrightarrow>
   snd (snd (send_one_with_retry outcome)) = [1 * 10 ^ 9, 3 * 10 ^ 9, 5 * 10 ^ 9] \<and>
   fst (snd (send_one_with_retry outcome)) \<le> 4"
  using send_attempts_bounded [of outcome 0 replayRetryWaits]
  by (simp add: send_one_with_retry_def replayRetryWaits_def)

section \<open>A recorded request\<close>







section \<open>Headers\<close>

abbreviation "credential_headers \<equiv> [''Authorization'', ''Cookie'', ''Proxy-Authorization'']"












section \<open>A recorded request is well encoded\<close>
















end
