(* ===== verification/SoldierParse.thy ===== *)
theory SoldierParse
  imports GoReader Tracing
begin

text \<open>
  \<^verbatim>\<open>pipeline/shadow-soldier/internal/parsers\<close>: the client half of a proxied database
  connection decoded into query reports.  A parser reads frames (\<^const>\<open>run_frames\<close>) from the
  bytes the tap delivers.  BSON documents and PostgreSQL messages are decoded by third-party
  packages; what the code calls of them is an argument.
\<close>

section \<open>Reports (parsers.go)\<close>

definition MaxFrameBytes :: nat where "MaxFrameBytes = 64 * 1024"

definition ProtocolPostgres :: string where "ProtocolPostgres = ''postgresql''"
definition ProtocolMongoDB :: string where "ProtocolMongoDB = ''mongodb''"
definition ProtocolRedis :: string where "ProtocolRedis = ''redis''"
definition ProtocolMSSQL :: string where "ProtocolMSSQL = ''mssql''"

datatype parser_kind = PostgresParser | MongoParser | RedisParser | MssqlParser

definition new_parser :: "string \<Rightarrow> string + parser_kind" where
  "new_parser protocol =
     (if protocol = ProtocolPostgres then Inr PostgresParser
      else if protocol = ProtocolMongoDB then Inr MongoParser
      else if protocol = ProtocolRedis then Inr RedisParser
      else if protocol = ProtocolMSSQL then Inr MssqlParser
      else Inl (''unsupported protocol '' @ json_quote protocol))"

definition protocol_supported :: "string \<Rightarrow> bool" where
  "protocol_supported protocol = (case new_parser protocol of Inl _ \<Rightarrow> False | Inr _ \<Rightarrow> True)"

record query_report =
  qr_trace_id :: string
  qr_protocol :: string
  qr_operation :: string
  qr_target :: string
  qr_raw_query :: string
  qr_params :: "string list"

definition query_signature :: "query_report \<Rightarrow> string" where
  "query_signature q =
     (let op = trim_space (qr_operation q);
          target = trim_space (qr_target q);
          op = (if op = [] then ''unknown'' else op);
          target = (if target = [] then ''-'' else target)
      in qr_protocol q @ '':'' @ op @ '':'' @ target)"

section \<open>Trace identifiers in payloads (trace.go)\<close>

definition is_lower_hex :: "char \<Rightarrow> bool" where
  "is_lower_hex c \<longleftrightarrow> (CHR ''0'' \<le> c \<and> c \<le> CHR ''9'') \<or> (CHR ''a'' \<le> c \<and> c \<le> CHR ''f'')"

text \<open>Whether \<^verbatim>\<open>traceparentRE\<close> matches at the head of a string; a match has 55 bytes.\<close>

definition traceparent_at :: "bytes \<Rightarrow> bool" where
  "traceparent_at s \<longleftrightarrow>
     55 \<le> length s \<and> take 3 s = ''00-'' \<and> list_all is_lower_hex (take 32 (drop 3 s)) \<and>
     s ! 35 = CHR ''-'' \<and> list_all is_lower_hex (take 16 (drop 36 s)) \<and>
     s ! 52 = CHR ''-'' \<and> list_all is_lower_hex (take 2 (drop 53 s))"

fun trace_id_from :: "bytes \<Rightarrow> string" where
  "trace_id_from [] = []"
| "trace_id_from (c # s) =
     (if traceparent_at (c # s) then take 32 (drop 3 (c # s)) else trace_id_from s)"

section \<open>SQL (sql.go)\<close>

function strip_sql_comments :: "string \<Rightarrow> string" where
  "strip_sql_comments s =
     (case s of
        [] \<Rightarrow> []
      | c # t \<Rightarrow>
          if has_prefix s ''/*'' then
            (case index_of (drop 2 s) ''*/'' of
               None \<Rightarrow> []
             | Some end \<Rightarrow> CHR '' '' # strip_sql_comments (drop (2 + end + 2) s))
          else if has_prefix s ''--'' then
            (case index_of s [CHR 0x0A] of
               None \<Rightarrow> []
             | Some end \<Rightarrow> CHR '' '' # strip_sql_comments (drop (end + 1) s))
          else c # strip_sql_comments t)"
  by pat_completeness auto
termination
  by (relation "measure length") auto

declare strip_sql_comments.simps [simp del]

definition normalize_ident :: "string \<Rightarrow> string" where
  "normalize_ident s =
     (let s = trim_set s ''\"`[]();,'';
          s = (case last_index CHR ''.'' s of
                 Some i \<Rightarrow> if i < length s - 1 then drop (i + 1) s else s
               | None \<Rightarrow> s)
      in to_lower (trim_set s ''\"`[]''))"

text \<open>The token after the first token that is the keyword, in any case.\<close>

fun token_after :: "string \<Rightarrow> string list \<Rightarrow> string option" where
  "token_after want (f # g # fs) = (if equal_fold f want then Some g else token_after want (g # fs))"
| "token_after want _ = None"

definition sql_op_target :: "string \<Rightarrow> string \<times> string" where
  "sql_op_target sql =
     (case split_fields (strip_sql_comments sql) of
        [] \<Rightarrow> ([], [])
      | f # fs \<Rightarrow>
          let operation = to_lower (trim_set f ''(;'');
              next_token = (case fs of g # _ \<Rightarrow> normalize_ident g | [] \<Rightarrow> []);
              after = (\<lambda>want. case token_after want (f # fs) of Some g \<Rightarrow> normalize_ident g | None \<Rightarrow> [])
          in if operation \<in> {''select'', ''delete''} then (operation, after ''from'')
             else if operation \<in> {''insert'', ''replace''} then (operation, after ''into'')
             else if operation = ''update'' then (operation, next_token)
             else if operation \<in> {''exec'', ''execute'', ''call''} then (operation, next_token)
             else (operation, []))"

section \<open>Redis (redis.go)\<close>

definition redis_report :: "string list \<Rightarrow> query_report" where
  "redis_report args =
     (let target = (if 1 < length args then args ! 1 else []);
          raw = join_with '' '' args
      in \<lparr>qr_trace_id = trace_id_from raw, qr_protocol = ProtocolRedis, qr_operation = to_lower (hd args),
          qr_target = target, qr_raw_query = raw, qr_params = tl args\<rparr>)"

definition read_resp_line :: "bytes \<Rightarrow> read_error + string \<times> bytes" where
  "read_resp_line s =
     (case read_string (CHR 0x0A) s of
        Inl e \<Rightarrow> Inl e
      | Inr (line, s') \<Rightarrow> Inr (trim_right_set line [CHR 0x0D, CHR 0x0A], s'))"

text \<open>\<^verbatim>\<open>int64(size)+2\<close> wraps around.\<close>

definition value_and_crlf :: "int \<Rightarrow> int" where
  "value_and_crlf sz = sint (word_of_int sz + 2 :: 64 word)"

fun read_resp_args :: "nat \<Rightarrow> int \<Rightarrow> bytes \<Rightarrow> read_error + string list \<times> bytes" where
  "read_resp_args 0 budget s = Inr ([], s)"
| "read_resp_args (Suc n) budget s =
     (case read_resp_line s of
        Inl e \<Rightarrow> Inl e
      | Inr (head, s1) \<Rightarrow>
          if head = [] \<or> hd head \<noteq> CHR ''$'' then Inl (BadFrame ''resp: expected bulk string'' head)
          else case atoi (tl head) of
            None \<Rightarrow> Inl (BadFrame ''resp: bad bulk header'' head)
          | Some sz \<Rightarrow>
              if sz < 0 then
                (case read_resp_args n budget s1 of
                   Inl e \<Rightarrow> Inl e | Inr (args, s2) \<Rightarrow> Inr ([] # args, s2))
              else if budget < sz then
                (case copy_discard (value_and_crlf sz) s1 of Inl e \<Rightarrow> Inl e | Inr _ \<Rightarrow> Inl FrameTooLarge)
              else case read_full (nat sz + 2) s1 of
                Inl e \<Rightarrow> Inl e
              | Inr (buf, s2) \<Rightarrow>
                  (case read_resp_args n (budget - sz) s2 of
                     Inl e \<Rightarrow> Inl e | Inr (args, s3) \<Rightarrow> Inr (take (nat sz) buf # args, s3)))"

definition read_resp_command :: "bytes \<Rightarrow> read_error + string list \<times> bytes" where
  "read_resp_command s =
     (if s = [] then Inl EOF
      else if hd s \<noteq> CHR ''*'' then
        (case read_resp_line s of Inl e \<Rightarrow> Inl e | Inr (line, s1) \<Rightarrow> Inr (split_fields line, s1))
      else case read_resp_line s of
        Inl e \<Rightarrow> Inl e
      | Inr (line, s1) \<Rightarrow>
          (case atoi (tl line) of
             None \<Rightarrow> Inl (BadFrame ''resp: bad array header'' line)
           | Some n \<Rightarrow>
               if n \<le> 0 then Inr ([], s1)
               else if int MaxFrameBytes < n then Inl FrameTooLarge
               else read_resp_args (nat n) (int MaxFrameBytes) s1))"

definition redis_read :: "bytes \<Rightarrow> read_error + query_report list \<times> bytes" where
  "redis_read s =
     (case read_resp_command s of
        Inl e \<Rightarrow> Inl e
      | Inr (args, s') \<Rightarrow> Inr (if args = [] then [] else [redis_report args], s'))"

definition redis_run :: "bytes \<Rightarrow> (query_report list \<times> read_error) option" where
  "redis_run s = run_frames redis_read s"

end
