(* ===== verification/SoldierWire.thy ===== *)
theory SoldierWire
  imports SoldierParse GoJsonTrip
begin

text \<open>
  The binary protocols of \<^verbatim>\<open>pipeline/shadow-soldier/internal/parsers\<close>: MongoDB's OP_MSG,
  TDS, and PostgreSQL's frontend messages, whose decoder is \<^verbatim>\<open>pgproto3\<close>.
\<close>

section \<open>MongoDB (mongodb.go)\<close>

definition mongoHeaderBytes :: nat where "mongoHeaderBytes = 16"
definition opMsg :: int where "opMsg = 2013"
definition sectionBody :: char where "sectionBody = CHR 0x00"
definition sectionDocSeq :: char where "sectionDocSeq = CHR 0x01"

text \<open>
  What the code asks of a BSON document: the first element's key with its value when that is a
  string (\<^const>\<open>None\<close> when the elements cannot be read or there is none), the string under
  \<^verbatim>\<open>collection\<close>, and the relaxed extended JSON.
\<close>

record bson_lib =
  bson_first :: "bytes \<Rightarrow> (string \<times> string option) option"
  bson_collection :: "bytes \<Rightarrow> string option"
  bson_ext_json :: "bytes \<Rightarrow> string option"

definition read_bson :: "bytes \<Rightarrow> (bytes \<times> nat) option" where
  "read_bson b =
     (if length b < 5 then None
      else let sz = le_i32 b in if sz < 5 \<or> int (length b) < sz then None else Some (b, nat sz))"

text \<open>The sections of an OP_MSG from an offset on.\<close>

function op_msg_sections :: "bytes \<Rightarrow> bytes option" where
  "op_msg_sections body =
     (case body of
        [] \<Rightarrow> None
      | kind # rest \<Rightarrow>
          if kind = sectionBody then map_option (\<lambda>(doc, n). take n doc) (read_bson rest)
          else if kind = sectionDocSeq then
            (if length rest < 4 then None
             else let sz = le_i32 rest
                  in if sz < 4 \<or> int (length rest) < sz then None
                     else op_msg_sections (drop (nat sz) rest))
          else None)"
  by pat_completeness auto
termination
  by (relation "measure length") auto

declare op_msg_sections.simps [simp del]

definition op_msg_body :: "bytes \<Rightarrow> bytes option" where
  "op_msg_body body = op_msg_sections (drop 4 body)"

definition mongo_op_target :: "bson_lib \<Rightarrow> bytes \<Rightarrow> string \<times> string" where
  "mongo_op_target lib doc =
     (case bson_first lib doc of
        None \<Rightarrow> ([], [])
      | Some (operation, Some col) \<Rightarrow> (operation, col)
      | Some (operation, None) \<Rightarrow>
          (case bson_collection lib doc of Some col \<Rightarrow> (operation, col) | None \<Rightarrow> (operation, [])))"

definition mongo_report :: "bson_lib \<Rightarrow> bytes \<Rightarrow> query_report" where
  "mongo_report lib doc =
     (let (operation, target) = mongo_op_target lib doc
      in \<lparr>qr_trace_id = trace_id_from doc, qr_protocol = ProtocolMongoDB, qr_operation = operation,
          qr_target = target, qr_raw_query = (case bson_ext_json lib doc of Some raw \<Rightarrow> raw | None \<Rightarrow> []),
          qr_params = []\<rparr>)"

definition mongo_read :: "bson_lib \<Rightarrow> bytes \<Rightarrow> read_error + query_report list \<times> bytes" where
  "mongo_read lib s =
     (case read_full mongoHeaderBytes s of
        Inl e \<Rightarrow> Inl e
      | Inr (header, s1) \<Rightarrow>
          let msgLen = le_i32 header;
              opCode = le_i32 (drop 12 header);
              bodyLen = msgLen - int mongoHeaderBytes
          in if msgLen < int mongoHeaderBytes \<or> bodyLen < 0 then Inl FrameTooLarge
             else if int MaxFrameBytes < bodyLen \<or> opCode \<noteq> opMsg then
               (case copy_discard bodyLen s1 of Inl e \<Rightarrow> Inl e | Inr s2 \<Rightarrow> Inr ([], s2))
             else case read_full (nat bodyLen) s1 of
               Inl e \<Rightarrow> Inl e
             | Inr (body, s2) \<Rightarrow>
                 Inr ((case op_msg_body body of Some doc \<Rightarrow> [mongo_report lib doc] | None \<Rightarrow> []), s2))"

definition mongo_run :: "bson_lib \<Rightarrow> bytes \<Rightarrow> (query_report list \<times> read_error) option" where
  "mongo_run lib s = run_frames (mongo_read lib) s"

section \<open>TDS (mssql.go)\<close>

definition tdsHeaderBytes :: nat where "tdsHeaderBytes = 8"
definition tdsSQLBatch :: nat where "tdsSQLBatch = 1"
definition tdsRPCRequest :: nat where "tdsRPCRequest = 3"
definition maxALLHeaders :: nat where "maxALLHeaders = 1024"

definition tds_eom :: "bytes \<Rightarrow> bool" where
  "tds_eom header \<longleftrightarrow> odd (of_char (header ! 1) :: nat)"

text \<open>The loop of \<^verbatim>\<open>readTDSMessage\<close>, with the packets read so far.\<close>

function read_tds_message :: "bytes \<Rightarrow> bytes \<Rightarrow> read_error + (nat \<times> bytes) \<times> bytes" where
  "read_tds_message buf s =
     (case read_full tdsHeaderBytes s of
        Inl e \<Rightarrow> Inl e
      | Inr (header, s1) \<Rightarrow>
          (let msgType = of_char (header ! 0);
               len = be_u16 (drop 2 header);
               chunk = len - tdsHeaderBytes
           in if len < tdsHeaderBytes then Inl FrameTooLarge
              else if MaxFrameBytes < length buf + chunk then
                (case copy_discard (int chunk) s1 of
                   Inl e \<Rightarrow> Inl e
                 | Inr s2 \<Rightarrow> if tds_eom header then Inl FrameTooLarge else read_tds_message buf s2)
              else case read_full chunk s1 of
                Inl e \<Rightarrow> Inl e
              | Inr (part, s2) \<Rightarrow>
                  if tds_eom header then Inr ((msgType, buf @ part), s2)
                  else read_tds_message (buf @ part) s2))"
  by pat_completeness auto
termination
  by (relation "measure (\<lambda>(buf, s). length s)")
    (auto simp: tdsHeaderBytes_def dest!: read_full_length copy_discard_length)

declare read_tds_message.simps [simp del]

definition skip_all_headers :: "bytes \<Rightarrow> bytes" where
  "skip_all_headers payload =
     (if length payload < 4 then payload
      else let total = unat (le_u32 payload)
           in if 4 \<le> total \<and> total \<le> maxALLHeaders \<and> total \<le> length payload
              then drop total payload else payload)"

fun le_pairs :: "bytes \<Rightarrow> nat list" where
  "le_pairs (lo # hi # b) = (of_char lo + 256 * of_char hi) # le_pairs b"
| "le_pairs _ = []"

definition decode_ucs2 :: "bytes \<Rightarrow> string" where
  "decode_ucs2 b = string_of_runes (utf16_decode (le_pairs b))"

text \<open>One step of the scan of \<^verbatim>\<open>longestUCS2Run\<close>: the best run and the current one.\<close>

definition ucs2_flush :: "string \<times> nat list \<Rightarrow> string \<times> nat list" where
  "ucs2_flush = (\<lambda>(best, cur).
     if cur = [] then (best, cur)
     else let s = string_of_runes (utf16_decode cur)
          in (if length best < length s then s else best, []))"

definition ucs2_printable :: "nat \<Rightarrow> bool" where
  "ucs2_printable u \<longleftrightarrow> u = 9 \<or> u = 10 \<or> u = 13 \<or> (32 \<le> u \<and> u < 127)"

definition ucs2_step :: "string \<times> nat list \<Rightarrow> nat \<Rightarrow> string \<times> nat list" where
  "ucs2_step st u =
     (if ucs2_printable u then (fst st, snd st @ [u]) else ucs2_flush st)"

definition longest_ucs2_run :: "bytes \<Rightarrow> string" where
  "longest_ucs2_run b =
     (let best = fst (ucs2_flush (foldl ucs2_step ([], []) (le_pairs b)))
      in if length best < 4 then [] else best)"

definition rpc_sql :: "bytes \<Rightarrow> string" where
  "rpc_sql payload =
     (let body = skip_all_headers payload
      in if length body < 2 then []
         else let nameLen = le_u16 body
              in if nameLen = 65535 then
                   (if length body < 4 \<or> le_u16 (drop 2 body) \<noteq> 10 then []
                    else longest_ucs2_run (drop 4 body))
                 else let nameBytes = nameLen * 2
                      in if length body < 2 + nameBytes then []
                         else let name = decode_ucs2 (take nameBytes (drop 2 body))
                              in if \<not> equal_fold name ''sp_executesql'' then name
                                 else longest_ucs2_run (drop (2 + nameBytes) body))"

definition mssql_report :: "string \<Rightarrow> query_report" where
  "mssql_report sql =
     (let (op, target) = sql_op_target sql
      in \<lparr>qr_trace_id = trace_id_from sql, qr_protocol = ProtocolMSSQL, qr_operation = op,
          qr_target = target, qr_raw_query = sql, qr_params = []\<rparr>)"

definition mssql_read :: "bytes \<Rightarrow> read_error + query_report list \<times> bytes" where
  "mssql_read s =
     (case read_tds_message [] s of
        Inl e \<Rightarrow> Inl e
      | Inr ((msgType, payload), s') \<Rightarrow>
          let sql = (if msgType = tdsSQLBatch then decode_ucs2 (skip_all_headers payload)
                     else if msgType = tdsRPCRequest then rpc_sql payload else [])
          in Inr (if trim_space sql = [] then [] else [mssql_report sql], s'))"

definition mssql_run :: "bytes \<Rightarrow> (query_report list \<times> read_error) option" where
  "mssql_run s = run_frames mssql_read s"

section \<open>PostgreSQL (postgres.go)\<close>

definition maxPreparedStatements :: nat where "maxPreparedStatements = 256"

text \<open>The frontend messages the parser looks at; a parameter that is NULL is \<^const>\<open>None\<close>.\<close>

datatype pg_message =
  PgQuery string
| PgParse string string
| PgBind string "bytes option list"
| PgOther

definition render_params :: "bytes option list \<Rightarrow> string list" where
  "render_params params =
     map (\<lambda>v. case v of None \<Rightarrow> ''NULL''
                | Some b \<Rightarrow> if utf8_ok b then b else ''0x'' @ hex_encode b) params"

definition pg_report :: "string \<Rightarrow> bytes option list \<Rightarrow> query_report" where
  "pg_report sql params =
     (let (op, target) = sql_op_target sql
      in \<lparr>qr_trace_id = trace_id_from sql, qr_protocol = ProtocolPostgres, qr_operation = op,
          qr_target = target, qr_raw_query = sql, qr_params = render_params params\<rparr>)"

text \<open>One message: the prepared statements by name and the report it causes.\<close>

definition pg_message_step ::
  "(string \<times> string) list \<Rightarrow> pg_message \<Rightarrow> (string \<times> string) list \<times> query_report list" where
  "pg_message_step prepared m =
     (case m of
        PgQuery sql \<Rightarrow> (prepared, [pg_report sql []])
      | PgParse name query \<Rightarrow>
          (AList.update name query (if maxPreparedStatements \<le> length prepared then [] else prepared), [])
      | PgBind name params \<Rightarrow>
          (case map_of prepared name of
             None \<Rightarrow> (prepared, [])
           | Some sql \<Rightarrow> (prepared, [pg_report sql params]))
      | PgOther \<Rightarrow> (prepared, []))"

definition pg_read ::
  "(bytes \<Rightarrow> read_error + pg_message \<times> bytes) \<Rightarrow> (string \<times> string) list \<times> bytes \<Rightarrow>
   read_error + query_report list \<times> ((string \<times> string) list \<times> bytes)" where
  "pg_read receive st =
     (case receive (snd st) of
        Inl e \<Rightarrow> Inl e
      | Inr (m, s') \<Rightarrow> (case pg_message_step (fst st) m of (prepared, rs) \<Rightarrow> Inr (rs, (prepared, s'))))"

definition pg_run ::
  "(bytes \<Rightarrow> read_error + bytes) \<Rightarrow> (bytes \<Rightarrow> read_error + pg_message \<times> bytes) \<Rightarrow> bytes \<Rightarrow>
   (query_report list \<times> read_error) option" where
  "pg_run startup receive s =
     (case startup s of
        Inl e \<Rightarrow> Some ([], e)
      | Inr s' \<Rightarrow> run_frames (pg_read receive) ([], s'))"

end
