(* ===== verification/SoldierProxy.thy ===== *)
theory SoldierProxy
  imports SoldierWire Shop GoTime
begin

text \<open>
  The rest of \<^verbatim>\<open>pipeline/shadow-soldier\<close>: the TCP data path with its tap
  (\<^verbatim>\<open>proxy\<close>), the queue of reports to Beru (\<^verbatim>\<open>beru\<close>), the configuration
  and the readiness probe.  Sockets and goroutines are the steps of two relations, one per connection
  and one for the reporter, that interleave in any order.
\<close>

section \<open>The PostgreSQL probe (proxy/pgssl.go)\<close>

definition sslRequestCode :: "32 word" where "sslRequestCode = 80877103"
definition gssEncRequestCode :: "32 word" where "gssEncRequestCode = 80877104"
definition startupProbeBytes :: nat where "startupProbeBytes = 8"

text \<open>
  \<^verbatim>\<open>negotiatePostgresPlaintext\<close> on the stream of the client: what is answered and the stream to
  forward.  Writing the answer may fail.
\<close>

definition negotiate_postgres_plaintext :: "bool \<Rightarrow> bytes \<Rightarrow> read_error + bytes \<times> bytes" where
  "negotiate_postgres_plaintext writeOk client =
     (case read_full startupProbeBytes client of
        Inl e \<Rightarrow> Inl e
      | Inr (head, rest) \<Rightarrow>
          let code = be_word (drop 4 head)
          in if code = sslRequestCode \<or> code = gssEncRequestCode then
               (if writeOk then Inr (''N'', rest) else Inl EOF)
             else Inr ([], head @ rest))"

section \<open>The tap (proxy/pipe.go)\<close>

definition copyBufferBytes :: nat where "copyBufferBytes = 32 * 1024"

record tap =
  tp_cap :: nat
  tp_ch :: "bytes list"
  tp_cur :: bytes
  tp_overflow :: bool
  tp_closed :: bool

definition new_tap :: "nat \<Rightarrow> tap" where
  "new_tap cap = \<lparr>tp_cap = cap, tp_ch = [], tp_cur = [], tp_overflow = False, tp_closed = False\<rparr>"

definition tap_close :: "tap \<Rightarrow> tap" where
  "tap_close t = t\<lparr>tp_closed := True\<rparr>"

text \<open>A send on a closed channel panics; that is \<^const>\<open>None\<close>.\<close>

definition tap_write :: "bytes \<Rightarrow> tap \<Rightarrow> tap option" where
  "tap_write p t =
     (if tp_overflow t then Some t
      else if tp_closed t then None
      else if length (tp_ch t) < tp_cap t then Some (t\<lparr>tp_ch := tp_ch t @ [p]\<rparr>)
      else Some (tap_close (t\<lparr>tp_overflow := True\<rparr>)))"

datatype tap_result = TapBlocks | TapEOF | TapGot bytes

text \<open>The loop of \<^verbatim>\<open>Read\<close> on the rest of the last chunk and the queue.\<close>

fun tap_fill :: "bytes \<Rightarrow> bytes list \<Rightarrow> bytes \<times> bytes list" where
  "tap_fill [] (b # ch) = tap_fill b ch"
| "tap_fill cur ch = (cur, ch)"

definition tap_read :: "nat \<Rightarrow> tap \<Rightarrow> tap_result \<times> tap" where
  "tap_read n t =
     (case tap_fill (tp_cur t) (tp_ch t) of
        (cur, ch) \<Rightarrow>
          if cur = [] then (if tp_closed t then TapEOF else TapBlocks, t\<lparr>tp_cur := cur, tp_ch := ch\<rparr>)
          else (TapGot (take n cur), t\<lparr>tp_cur := drop n cur, tp_ch := ch\<rparr>))"

section \<open>One connection (proxy/proxy.go)\<close>

text \<open>
  The bytes read from the client so far, those written upstream, the tap, and the bytes its parser
  has read.  The copy loop reads a chunk through the tee, which writes it to the tap, and then writes
  it upstream; when the stream ends or a write fails it closes the tap.  \<^verbatim>\<open>handle\<close> runs the
  parser next to it.
\<close>

record connection =
  cn_sent :: bytes
  cn_up :: bytes
  cn_tap :: tap
  cn_parsed :: bytes
  cn_done :: bool

definition connection_start :: "nat \<Rightarrow> connection" where
  "connection_start cap =
     \<lparr>cn_sent = [], cn_up = [], cn_tap = new_tap cap, cn_parsed = [], cn_done = False\<rparr>"

text \<open>One round of the copy loop: \<^verbatim>\<open>k\<close> is how much of the chunk the upstream socket takes.\<close>

definition copy_chunk :: "bytes \<Rightarrow> nat \<Rightarrow> connection \<Rightarrow> connection option" where
  "copy_chunk p k c =
     map_option (\<lambda>t. let c' = c\<lparr>cn_sent := cn_sent c @ p, cn_up := cn_up c @ take k p, cn_tap := t\<rparr>
                     in if k < length p then c'\<lparr>cn_tap := tap_close t, cn_done := True\<rparr> else c')
       (tap_write p (cn_tap c))"

inductive connection_step :: "connection \<Rightarrow> connection \<Rightarrow> bool" where
  Copy: "\<not> cn_done c \<Longrightarrow> p \<noteq> [] \<Longrightarrow> length p \<le> copyBufferBytes \<Longrightarrow> copy_chunk p k c = Some c' \<Longrightarrow>
    connection_step c c'"
| Finish: "\<not> cn_done c \<Longrightarrow> connection_step c (c\<lparr>cn_tap := tap_close (cn_tap c), cn_done := True\<rparr>)"
| Parse: "tap_read n (cn_tap c) = (TapGot b, t) \<Longrightarrow>
    connection_step c (c\<lparr>cn_tap := t, cn_parsed := cn_parsed c @ b\<rparr>)"

inductive connection_reaches :: "connection \<Rightarrow> connection \<Rightarrow> bool" where
  start: "connection_reaches c c"
| step: "connection_reaches c c' \<Longrightarrow> connection_step c' c'' \<Longrightarrow> connection_reaches c c''"

text \<open>
  \<^verbatim>\<open>accept\<close>: a connection is served while a slot is free and refused at once otherwise.
\<close>

definition soldier_accept :: "nat \<Rightarrow> nat \<Rightarrow> bool \<times> nat" where
  "soldier_accept maxConns active = (if active < maxConns then (True, active + 1) else (False, active))"

section \<open>Routes and configuration (proxy/proxy.go, config/config.go)\<close>

record soldier_route =
  rt_protocol :: string
  rt_listen :: int
  rt_upstream :: string

definition route_validate :: "soldier_route \<Rightarrow> string option" where
  "route_validate r =
     (if \<not> protocol_supported (rt_protocol r) then
        Some (''route '' @ json_quote (rt_protocol r) @ '': unsupported protocol'')
      else if rt_listen r < 1 \<or> 65535 < rt_listen r then
        Some (''route '' @ rt_protocol r @ '': listen port '' @ itoz (rt_listen r) @ '' out of range'')
      else if trim_space (rt_upstream r) = [] then
        Some (''route '' @ rt_protocol r @ '': upstream is required'')
      else None)"

record soldier_server =
  ss_max_conns :: int
  ss_dial_timeout :: duration
  ss_idle_timeout :: duration
  ss_tap_chunks :: int
  ss_listen_host :: string

definition apply_defaults :: "soldier_server \<Rightarrow> soldier_server" where
  "apply_defaults s =
     s\<lparr>ss_max_conns := (if ss_max_conns s \<le> 0 then 512 else ss_max_conns s),
       ss_dial_timeout := (if ss_dial_timeout s \<le> 0 then 5 * second else ss_dial_timeout s),
       ss_tap_chunks := (if ss_tap_chunks s \<le> 0 then 256 else ss_tap_chunks s),
       ss_listen_host := (if ss_listen_host s = [] then ''127.0.0.1'' else ss_listen_host s)\<rparr>"

definition defaultMemoryLimit :: int where "defaultMemoryLimit = 24 * 2 ^ 20"
definition defaultMaxConns :: int where "defaultMaxConns = 512"
definition defaultDialTimeout :: duration where "defaultDialTimeout = 5 * second"
definition defaultIdleTimeout :: duration where "defaultIdleTimeout = 5 * 60 * second"
definition defaultTapChunks :: int where "defaultTapChunks = 256"
definition defaultHTTPTimeout :: duration where "defaultHTTPTimeout = 5 * second"
definition DefaultQueueSize :: int where "DefaultQueueSize = 10000"
definition DefaultWorkers :: int where "DefaultWorkers = 5"

record soldier_config =
  sf_routes :: "soldier_route list"
  sf_role :: string
  sf_shadow_test :: string
  sf_shadow_pod :: string
  sf_beru_url :: string
  sf_memory_limit :: int
  sf_max_conns :: int
  sf_queue_size :: int
  sf_workers :: int
  sf_dial_timeout :: duration
  sf_idle_timeout :: duration
  sf_tap_chunks :: int
  sf_http_timeout :: duration

definition soldier_roles :: "string list" where
  "soldier_roles = [''control-a'', ''control-b'', ''candidate'']"

text \<open>The loop over the routes, with the ports seen so far and their protocols.\<close>

fun validate_routes :: "(int \<times> string) list \<Rightarrow> soldier_route list \<Rightarrow> string option" where
  "validate_routes seen [] = None"
| "validate_routes seen (r # rs) =
     (case route_validate r of
        Some e \<Rightarrow> Some e
      | None \<Rightarrow>
          (case map_of seen (rt_listen r) of
             Some prev \<Rightarrow>
               Some (''routes '' @ prev @ '' and '' @ rt_protocol r @ '' both listen on port '' @ itoz (rt_listen r))
           | None \<Rightarrow> validate_routes ((rt_listen r, rt_protocol r) # seen) rs))"

definition soldier_validate :: "soldier_config \<Rightarrow> string option" where
  "soldier_validate c =
     (if sf_role c \<notin> set soldier_roles then
        Some (''SHADOW_ROLE must be control-a, control-b or candidate (got '' @ json_quote (sf_role c) @ '')'')
      else if sf_beru_url c = [] then Some ''BERU_HTTP_URL is required''
      else validate_routes [] (sf_routes c))"

definition int_from_env :: "(string \<Rightarrow> string) \<Rightarrow> string \<Rightarrow> int \<Rightarrow> int" where
  "int_from_env getenv key fallback =
     (let v = trim_space (getenv key)
      in if v = [] then fallback
         else case atoi v of None \<Rightarrow> fallback | Some n \<Rightarrow> if n \<le> 0 then fallback else n)"

definition duration_from_env :: "(string \<Rightarrow> string) \<Rightarrow> string \<Rightarrow> duration \<Rightarrow> string + duration" where
  "duration_from_env getenv key fallback =
     (let v = trim_space (getenv key)
      in if v = [] then Inr fallback
         else case parse_duration v of None \<Rightarrow> Inl (key @ '': invalid duration'') | Some d \<Rightarrow> Inr d)"

definition route_zero :: soldier_route where
  "route_zero = \<lparr>rt_protocol = [], rt_listen = 0, rt_upstream = []\<rparr>"

definition decode_route :: "soldier_route decoder" where
  "decode_route = decode_struct
     [(''protocol'', in_field rt_protocol (\<lambda>x. rt_protocol_update (\<lambda>_. x)) decode_string),
      (''listen'', in_field rt_listen (\<lambda>x. rt_listen_update (\<lambda>_. x)) decode_int),
      (''upstream'', in_field rt_upstream (\<lambda>x. rt_upstream_update (\<lambda>_. x)) decode_string)]"

definition unmarshal_routes :: "string \<Rightarrow> soldier_route list option" where
  "unmarshal_routes raw =
     (case json_parse raw of
        None \<Rightarrow> None
      | Some v \<Rightarrow> (case decode_slice decode_route route_zero v [] of (rs, ok) \<Rightarrow> if ok then Some rs else None))"

definition soldier_load :: "(string \<Rightarrow> string) \<Rightarrow> string + soldier_config" where
  "soldier_load getenv =
     (case duration_from_env getenv ''SOLDIER_DIAL_TIMEOUT'' defaultDialTimeout of
        Inl e \<Rightarrow> Inl e
      | Inr dial \<Rightarrow>
     (case duration_from_env getenv ''SOLDIER_IDLE_TIMEOUT'' defaultIdleTimeout of
        Inl e \<Rightarrow> Inl e
      | Inr idle \<Rightarrow>
     (case duration_from_env getenv ''SOLDIER_HTTP_TIMEOUT'' defaultHTTPTimeout of
        Inl e \<Rightarrow> Inl e
      | Inr http \<Rightarrow>
          let raw = trim_space (getenv ''SOLDIER_ROUTES'')
          in if raw = [] then Inl ''SOLDIER_ROUTES is required''
             else case unmarshal_routes raw of
               None \<Rightarrow> Inl ''SOLDIER_ROUTES: invalid JSON''
             | Some routes \<Rightarrow>
                 if routes = [] then Inl ''SOLDIER_ROUTES: no routes configured''
                 else let cfg = \<lparr>sf_routes = routes, sf_role = trim_space (getenv ''SHADOW_ROLE''),
                          sf_shadow_test = trim_space (getenv ''SHADOW_TEST_NAME''),
                          sf_shadow_pod = trim_space (getenv ''POD_NAME''),
                          sf_beru_url = trim_space (getenv ''BERU_HTTP_URL''),
                          sf_memory_limit = int_from_env getenv ''SOLDIER_MEMORY_LIMIT'' defaultMemoryLimit,
                          sf_max_conns = int_from_env getenv ''SOLDIER_MAX_CONNS'' defaultMaxConns,
                          sf_queue_size = int_from_env getenv ''SOLDIER_QUEUE_SIZE'' DefaultQueueSize,
                          sf_workers = int_from_env getenv ''SOLDIER_WORKERS'' DefaultWorkers,
                          sf_dial_timeout = dial, sf_idle_timeout = idle,
                          sf_tap_chunks = int_from_env getenv ''SOLDIER_TAP_CHUNKS'' defaultTapChunks,
                          sf_http_timeout = http\<rparr>
                      in case soldier_validate cfg of Some e \<Rightarrow> Inl e | None \<Rightarrow> Inr cfg)))"

section \<open>Readiness (health/health.go)\<close>

definition health_handle :: "bool \<Rightarrow> nat \<times> string" where
  "health_handle ready = (if ready then (200, ''ok'' @ [CHR 0x0A]) else (503, ''not ready'' @ [CHR 0x0A]))"


section \<open>Reports to Beru (beru/payload.go, beru/reporter.go)\<close>

definition build_payload :: "query_report \<Rightarrow> string \<Rightarrow> string" where
  "build_payload q shadowPod =
     (if qr_protocol q = ProtocolMongoDB \<and> json_valid (qr_raw_query q) then qr_raw_query q
      else json_marshal (JObj
        ([(''operation'', JStr (qr_operation q)), (''target'', JStr (qr_target q)),
          (''raw_query'', JStr (qr_raw_query q))] @
         omit_empty_list ''parameters'' (map JStr (qr_params q)) @ omit_empty ''shadow_pod'' shadowPod)))"

text \<open>
  The reporter: a queue of bounded length for each worker, the report each worker is posting, and
  the counters.  The last two fields are the history the properties speak about: the reports that
  entered a queue and those whose post has ended, in order.
\<close>

record reporter =
  rp_cap :: nat
  rp_shards :: "query_report list list"
  rp_busy :: "query_report option list"
  rp_sent :: nat
  rp_dropped :: nat
  rp_untraced :: nat
  rp_failed :: nat
  rp_accepted :: "query_report list"
  rp_posted :: "query_report list"

definition reporter_start :: "int \<Rightarrow> int \<Rightarrow> reporter" where
  "reporter_start workers queueSize =
     (let workers = (if workers \<le> 0 then DefaultWorkers else workers);
          queueSize = (if queueSize \<le> 0 then DefaultQueueSize else queueSize)
      in \<lparr>rp_cap = nat (max (queueSize div workers) 1), rp_shards = replicate (nat workers) [],
          rp_busy = replicate (nat workers) None, rp_sent = 0, rp_dropped = 0, rp_untraced = 0,
          rp_failed = 0, rp_accepted = [], rp_posted = []\<rparr>)"

definition shard_of :: "nat \<Rightarrow> string \<Rightarrow> nat" where
  "shard_of n traceID = unat (fnv32a traceID) mod n"

definition enqueue :: "query_report \<Rightarrow> reporter \<Rightarrow> reporter" where
  "enqueue q r =
     (if qr_trace_id q = [] then r\<lparr>rp_untraced := rp_untraced r + 1\<rparr>
      else if rp_shards r = [] then r\<lparr>rp_dropped := rp_dropped r + 1\<rparr>
      else let i = shard_of (length (rp_shards r)) (qr_trace_id q)
           in if length (rp_shards r ! i) < rp_cap r
              then r\<lparr>rp_shards := (rp_shards r)[i := rp_shards r ! i @ [q]], rp_accepted := rp_accepted r @ [q]\<rparr>
              else r\<lparr>rp_dropped := rp_dropped r + 1\<rparr>)"

text \<open>Worker \<^verbatim>\<open>i\<close> takes the next report of its queue, and the post it is at ends.\<close>

definition worker_take :: "nat \<Rightarrow> reporter \<Rightarrow> reporter" where
  "worker_take i r =
     (case rp_shards r ! i of
        [] \<Rightarrow> r
      | q # qs \<Rightarrow> r\<lparr>rp_shards := (rp_shards r)[i := qs], rp_busy := (rp_busy r)[i := Some q]\<rparr>)"

definition worker_done :: "nat \<Rightarrow> bool \<Rightarrow> reporter \<Rightarrow> reporter" where
  "worker_done i ok r =
     (case rp_busy r ! i of
        None \<Rightarrow> r
      | Some q \<Rightarrow>
          let r' = r\<lparr>rp_busy := (rp_busy r)[i := None], rp_posted := rp_posted r @ [q]\<rparr>
          in if ok then r'\<lparr>rp_sent := rp_sent r + 1\<rparr> else r'\<lparr>rp_failed := rp_failed r + 1\<rparr>)"

inductive reporter_step :: "reporter \<Rightarrow> reporter \<Rightarrow> bool" where
  Enqueue: "reporter_step r (enqueue q r)"
| Take: "i < length (rp_shards r) \<Longrightarrow> rp_busy r ! i = None \<Longrightarrow> reporter_step r (worker_take i r)"
| Posted: "i < length (rp_shards r) \<Longrightarrow> reporter_step r (worker_done i ok r)"

inductive reporter_reaches :: "reporter \<Rightarrow> reporter \<Rightarrow> bool" where
  start: "reporter_reaches r r"
| step: "reporter_reaches r r' \<Longrightarrow> reporter_step r' r'' \<Longrightarrow> reporter_reaches r r''"

text \<open>What one post sends to Beru.\<close>

definition soldier_report :: "soldier_config \<Rightarrow> query_report \<Rightarrow> beru_report" where
  "soldier_report c q =
     \<lparr>bp_trace_id = qr_trace_id q, bp_workload = sf_role c, bp_protocol = qr_protocol q,
      bp_signature = query_signature q, bp_payload = build_payload q (sf_shadow_pod c),
      bp_shadow_test = sf_shadow_test c\<rparr>"

end
