(* ===== verification/SoldierProps.thy ===== *)
theory SoldierProps
  imports SoldierWire
begin

text \<open>
  What the parsers of shadow-soldier guarantee: they return on every stream, read back what a client
  wrote, skip what they cannot use without losing their place, and hold a bounded amount of one
  command.
\<close>

section \<open>Framing\<close>

lemma read_resp_line_more:
  "read_resp_line s = Inr (l, s') \<Longrightarrow> read_resp_line (s @ t) = Inr (l, s' @ t)"
  using read_string_more by (fastforce simp: read_resp_line_def split: sum.splits)

lemma read_resp_line_length: "read_resp_line s = Inr (l, s') \<Longrightarrow> length s' < length s"
  using read_string_length by (fastforce simp: read_resp_line_def split: sum.splits)

lemma read_resp_args_more:
  "read_resp_args n b s = Inr (args, s') \<Longrightarrow> read_resp_args n b (s @ t) = Inr (args, s' @ t)"
proof (induction n b s arbitrary: args rule: read_resp_args.induct)
  case (2 n budget s)
  obtain head s1 where line: "read_resp_line s = Inr (head, s1)"
    using "2.prems" by (cases "read_resp_line s") auto
  obtain sz where sz: "atoi (tl head) = Some sz" and head: "head \<noteq> []" "hd head = CHR ''$''"
    using "2.prems" line by (cases "atoi (tl head)") (auto split: if_splits)
  show ?case
  proof (cases "sz < 0")
    case True
    then obtain as where "read_resp_args n budget s1 = Inr (as, s')" "args = [] # as"
      using "2.prems" line sz head by (auto split: sum.splits)
    then show ?thesis
      using "2.IH"(1) line sz head True by (simp add: read_resp_line_more)
  next
    case False
    then have "sz \<le> budget"
      using "2.prems" line sz head by (auto split: sum.splits if_splits)
    then obtain buf s2 as where rest: "read_full (nat sz + 2) s1 = Inr (buf, s2)"
        "read_resp_args n (budget - sz) s2 = Inr (as, s')" "args = take (nat sz) buf # as"
      using "2.prems" line sz head False by (auto split: sum.splits)
    then show ?thesis
      using "2.IH"(2) line sz head False \<open>sz \<le> budget\<close>
      by (simp add: read_resp_line_more read_full_more)
  qed
qed simp

lemma read_resp_args_length:
  "read_resp_args n b s = Inr (args, s') \<Longrightarrow> length s' \<le> length s \<and> length args = n"
proof (induction n b s arbitrary: args rule: read_resp_args.induct)
  case (2 n budget s)
  obtain head s1 where line: "read_resp_line s = Inr (head, s1)"
    using "2.prems" by (cases "read_resp_line s") auto
  with "2.prems" show ?case
    using "2.IH" read_resp_line_length [OF line]
    by (fastforce split: sum.splits option.splits if_splits dest!: read_full_length)
qed simp

lemma read_resp_command_more:
  assumes "read_resp_command s = Inr (args, s')"
  shows "read_resp_command (s @ t) = Inr (args, s' @ t)"
  using assms
  by (auto simp: read_resp_command_def read_resp_line_more read_resp_args_more
      split: if_splits sum.splits option.splits)

lemma read_resp_command_length:
  assumes "read_resp_command s = Inr (args, s')"
  shows "length s' < length s"
proof -
  obtain line s1 where line: "read_resp_line s = Inr (line, s1)"
    using assms by (cases "read_resp_line s") (auto simp: read_resp_command_def split: if_splits)
  with assms have "length s' \<le> length s1"
    by (auto simp: read_resp_command_def dest: read_resp_args_length split: if_splits option.splits)
  with read_resp_line_length [OF line] show ?thesis by simp
qed

interpretation redis: framing_stream redis_read
proof
  show "length s' < length s" if "redis_read s = Inr (rs, s')" for s rs s'
    using that by (auto simp: redis_read_def read_resp_command_length split: sum.splits)
  show "length rs \<le> 1" if "redis_read s = Inr (rs, s')" for s rs s'
    using that by (auto simp: redis_read_def split: sum.splits)
  show "redis_read (s @ t) = Inr (rs, s' @ t)" if "redis_read s = Inr (rs, s')" for s rs s' t
    using that by (auto simp: redis_read_def read_resp_command_more split: sum.splits)
qed

interpretation mongo: framing_stream "mongo_read lib" for lib
proof
  show "length s' < length s" if "mongo_read lib s = Inr (rs, s')" for s rs s'
    using that
    by (auto simp: mongo_read_def mongoHeaderBytes_def Let_def split: sum.splits if_splits
        dest!: read_full_length copy_discard_length)
  show "length rs \<le> 1" if "mongo_read lib s = Inr (rs, s')" for s rs s'
    using that by (auto simp: mongo_read_def Let_def split: sum.splits option.splits if_splits)
  show "mongo_read lib (s @ t) = Inr (rs, s' @ t)" if "mongo_read lib s = Inr (rs, s')" for s rs s' t
    using that
    by (auto simp: mongo_read_def Let_def read_full_more copy_discard_more split: sum.splits if_splits)
qed

text \<open>The ways in which reading one packet goes on.\<close>

lemma read_tds_message_cases:
  assumes "read_tds_message buf s = Inr (m, s')"
  obtains (skipped) header s1 s2 where "read_full tdsHeaderBytes s = Inr (header, s1)"
      "tdsHeaderBytes \<le> be_u16 (drop 2 header)"
      "MaxFrameBytes < length buf + (be_u16 (drop 2 header) - tdsHeaderBytes)"
      "copy_discard (int (be_u16 (drop 2 header) - tdsHeaderBytes)) s1 = Inr s2"
      "\<not> tds_eom header" "read_tds_message buf s2 = Inr (m, s')"
  | (last) header s1 part where "read_full tdsHeaderBytes s = Inr (header, s1)"
      "tdsHeaderBytes \<le> be_u16 (drop 2 header)"
      "\<not> MaxFrameBytes < length buf + (be_u16 (drop 2 header) - tdsHeaderBytes)"
      "read_full (be_u16 (drop 2 header) - tdsHeaderBytes) s1 = Inr (part, s')"
      "tds_eom header" "m = (of_char (header ! 0), buf @ part)"
  | (more) header s1 part s2 where "read_full tdsHeaderBytes s = Inr (header, s1)"
      "tdsHeaderBytes \<le> be_u16 (drop 2 header)"
      "\<not> MaxFrameBytes < length buf + (be_u16 (drop 2 header) - tdsHeaderBytes)"
      "read_full (be_u16 (drop 2 header) - tdsHeaderBytes) s1 = Inr (part, s2)"
      "\<not> tds_eom header" "read_tds_message (buf @ part) s2 = Inr (m, s')"
  using assms
  by (subst (asm) read_tds_message.simps) (auto simp: Let_def split: sum.splits if_splits)

lemma read_tds_message_step:
  assumes "read_full tdsHeaderBytes s = Inr (header, s1)" "tdsHeaderBytes \<le> be_u16 (drop 2 header)"
  shows "read_tds_message buf s =
    (let chunk = be_u16 (drop 2 header) - tdsHeaderBytes
     in if MaxFrameBytes < length buf + chunk then
          (case copy_discard (int chunk) s1 of
             Inl e \<Rightarrow> Inl e
           | Inr s2 \<Rightarrow> if tds_eom header then Inl FrameTooLarge else read_tds_message buf s2)
        else case read_full chunk s1 of
          Inl e \<Rightarrow> Inl e
        | Inr (part, s2) \<Rightarrow>
            if tds_eom header then Inr ((of_char (header ! 0), buf @ part), s2)
            else read_tds_message (buf @ part) s2)"
  by (subst read_tds_message.simps) (use assms in \<open>simp add: Let_def\<close>)

lemma read_tds_message_stable:
  "read_tds_message buf s = Inr (m, s') \<Longrightarrow>
   length s' < length s \<and> read_tds_message buf (s @ t) = Inr (m, s' @ t)"
proof (induction "length s" arbitrary: buf s rule: less_induct)
  case less
  from less.prems show ?case
  proof (cases rule: read_tds_message_cases)
    case (skipped header s1 s2)
    then have shorter: "length s2 < length s"
      by (auto simp: tdsHeaderBytes_def dest!: read_full_length copy_discard_length)
    with less.hyps [OF _ skipped(6)] skipped show ?thesis
      by (auto simp: read_tds_message_step [OF read_full_more] Let_def copy_discard_more)
  next
    case (last header s1 part)
    then have "length s' < length s"
      by (auto simp: tdsHeaderBytes_def dest!: read_full_length)
    with last show ?thesis
      by (auto simp: read_tds_message_step [OF read_full_more] Let_def read_full_more)
  next
    case (more header s1 part s2)
    then have "length s2 < length s"
      by (auto simp: tdsHeaderBytes_def dest!: read_full_length)
    with less.hyps [OF _ more(6)] more show ?thesis
      by (auto simp: read_tds_message_step [OF read_full_more] Let_def read_full_more)
  qed
qed

interpretation mssql: framing_stream mssql_read
proof
  show "length s' < length s" if "mssql_read s = Inr (rs, s')" for s rs s'
    using that by (auto simp: mssql_read_def Let_def read_tds_message_stable split: sum.splits)
  show "length rs \<le> 1" if "mssql_read s = Inr (rs, s')" for s rs s'
    using that by (auto simp: mssql_read_def Let_def split: sum.splits if_splits)
  show "mssql_read (s @ t) = Inr (rs, s' @ t)" if "mssql_read s = Inr (rs, s')" for s rs s' t
    using that by (auto simp: mssql_read_def Let_def read_tds_message_stable split: sum.splits)
qed

text \<open>
  C31: No byte stream keeps a parser busy for ever: on every input the Redis, MongoDB and TDS parsers
  return with an error after finitely many frames, having emitted at most one report per byte.
\<close>

theorem parsers_return:
  "(\<exists>rs e. redis_run s = Some (rs, e) \<and> length rs \<le> length s) \<and>
   (\<exists>rs e. mongo_run lib s = Some (rs, e) \<and> length rs \<le> length s) \<and>
   (\<exists>rs e. mssql_run s = Some (rs, e) \<and> length rs \<le> length s)"
  unfolding redis_run_def mongo_run_def mssql_run_def
  using redis.returns mongo.returns mssql.returns by blast


section \<open>Redis\<close>

abbreviation crlf :: string where "crlf \<equiv> [CHR 0x0D, CHR 0x0A]"

definition resp_bulk :: "string \<Rightarrow> bytes" where
  "resp_bulk a = CHR ''$'' # itoa (length a) @ crlf @ a @ crlf"

definition resp_encode :: "string list \<Rightarrow> bytes" where
  "resp_encode args = CHR ''*'' # itoa (length args) @ crlf @ concat (map resp_bulk args)"

lemma itoa_itoz: "itoa n = itoz (int n)"
  by (simp add: itoa_def itoz_def)

lemma atoi_itoa: "n < 2 ^ 63 \<Longrightarrow> atoi (itoa n) = Some (int n)"
  by (simp add: itoa_itoz)

lemma itoa_no_line_end: "CHR 0x0A \<notin> set (itoa n)" "CHR 0x0D \<notin> set (itoa n)"
  using dec_digits_digits [of "int n"] by (auto simp: itoa_def is_digit_def char_le_iff)

lemma read_resp_header:
  assumes "c \<notin> set crlf"
  shows "read_resp_line (c # itoa n @ CHR 0x0D # CHR 0x0A # s) = Inr (c # itoa n, s)"
proof -
  have "read_string (CHR 0x0A) ((c # itoa n @ [CHR 0x0D]) @ CHR 0x0A # s) = Inr ((c # itoa n @ [CHR 0x0D]) @ [CHR 0x0A], s)"
    by (rule read_string_append) (use assms itoa_no_line_end in auto)
  moreover have "last (c # itoa n) \<notin> set crlf"
    using itoa_no_line_end [of n] last_in_set [OF itoa_nonempty, of n] by (auto simp del: last_in_set)
  then have "trim_right_set ((c # itoa n @ [CHR 0x0D]) @ [CHR 0x0A]) crlf = c # itoa n"
    by (cases "itoa n" rule: rev_cases) (auto simp: trim_right_set_def)
  ultimately show ?thesis
    by (simp add: read_resp_line_def)
qed

lemma read_resp_args_encoded:
  assumes "int (sum_list (map length args)) \<le> budget" "budget < 2 ^ 63"
  shows "read_resp_args (length args) budget (concat (map resp_bulk args) @ s) = Inr (args, s)"
  using assms
proof (induction args arbitrary: budget)
  case (Cons a args)
  have len: "length a < 2 ^ 63" "int (length a) \<le> budget"
    using Cons.prems by simp_all
  have "read_resp_line (resp_bulk a @ r) = Inr (CHR ''$'' # itoa (length a), a @ crlf @ r)" for r
    by (simp add: resp_bulk_def read_resp_header)
  moreover have "read_full (length a + 2) (a @ crlf @ r) = Inr (a @ crlf, r)" for r
    using read_full_append [of "a @ crlf" "length a + 2" r] by simp
  ultimately show ?case
    using Cons.prems len Cons.IH [of "budget - int (length a)"] by (simp add: atoi_itoa)
qed simp

lemma redis_read_encoded:
  assumes "args \<noteq> []" "length args \<le> MaxFrameBytes" "sum_list (map length args) \<le> MaxFrameBytes"
  shows "redis_read (resp_encode args) = Inr ([redis_report args], [])"
proof -
  have "read_resp_line (resp_encode args) = Inr (CHR ''*'' # itoa (length args), concat (map resp_bulk args))"
    by (simp add: resp_encode_def read_resp_header)
  moreover have "read_resp_args (length args) (int MaxFrameBytes) (concat (map resp_bulk args) @ []) = Inr (args, [])"
    using assms by (intro read_resp_args_encoded) (simp_all add: MaxFrameBytes_def)
  moreover have "atoi (itoa (length args)) = Some (int (length args))"
    using assms(2) by (intro atoi_itoa) (simp add: MaxFrameBytes_def)
  ultimately have "read_resp_command (resp_encode args) = Inr (args, [])"
    using assms by (simp add: read_resp_command_def) (simp add: resp_encode_def)
  with assms(1) show ?thesis
    by (simp add: redis_read_def)
qed

text \<open>
  C32: Every Redis command is reported as the client sent it.  Whatever commands of at most 64 KiB
  each a client writes one after the other, the reports are those of the commands in their order,
  and the parser goes on with whatever follows.
\<close>

theorem redis_commands_decoded:
  assumes "\<forall>args \<in> set cmds. args \<noteq> [] \<and> length args \<le> MaxFrameBytes \<and>
      sum_list (map length args) \<le> MaxFrameBytes"
  shows "redis_run (concat (map resp_encode cmds) @ s) =
    map_option (\<lambda>(rs, e). (map redis_report cmds @ rs, e)) (redis_run s)"
  using redis.run_frames_concat [of cmds resp_encode "\<lambda>args. [redis_report args]" s] assms
  by (simp add: redis_run_def redis_read_encoded concat_map_singleton)

theorem redis_commands_decoded_witness:
  "redis_run (resp_encode [''SET'', ''k'', ''a b''] @ resp_encode [''GET'', ''k''] @ ''x'') =
     Some ([redis_report [''SET'', ''k'', ''a b''], redis_report [''GET'', ''k'']], EOF)"
proof -
  have "redis_read ''x'' = Inl EOF"
    by (simp add: redis_read_def read_resp_command_def read_resp_line_def read_string_def)
  then have "redis_run ''x'' = Some ([], EOF)"
    by (simp add: redis_run_def run_frames_stop)
  then show ?thesis
    using redis_commands_decoded [of "[[''SET'', ''k'', ''a b''], [''GET'', ''k'']]" "''x''"]
    by (simp add: MaxFrameBytes_def)
qed

text \<open>
  The commands of a RESP array are bounded, an inline command is not: it is buffered up to its line
  end, however far that is.
\<close>

lemma read_resp_args_bounded:
  "read_resp_args n b s = Inr (args, s') \<Longrightarrow> 0 \<le> b \<Longrightarrow> int (sum_list (map length args)) \<le> b"
proof (induction n b s arbitrary: args rule: read_resp_args.induct)
  case (2 n budget s)
  then show ?case
    by (fastforce split: sum.splits option.splits if_splits dest!: read_full_length)
qed simp

lemma inline_command_unbounded:
  "read_resp_command (replicate n CHR ''a'' @ [CHR 0x0A]) = Inr ([replicate n CHR ''a''], [])" if "0 < n"
proof -
  let ?a = "replicate n CHR ''a''"
  have "read_string (CHR 0x0A) (?a @ CHR 0x0A # []) = Inr (?a @ [CHR 0x0A], [])"
    by (rule read_string_append) simp
  moreover have "trim_right_set (?a @ [CHR 0x0A]) crlf = ?a"
    using that by (cases n) (simp_all add: trim_right_set_def replicate_append_same)
  moreover have "split_fields ?a = [?a]"
    using that by (subst split_fields.simps)
      (cases n; simp add: trim_left_def is_space_def split_fields.simps takeWhile_replicate dropWhile_replicate)
  ultimately show ?thesis
    using that by (cases n) (simp_all add: read_resp_command_def read_resp_line_def)
qed


section \<open>MongoDB\<close>

text \<open>
  What a client writes: commands, as OP_MSG with a document, any document sequences before it and
  anything after it, and other messages, which are those of another opcode or with more than 64 KiB.
\<close>

datatype mongo_traffic =
  MongoCommand (mt_flags: bytes) (mt_seqs: "bytes list") (mt_doc: bytes) (mt_trail: bytes)
| MongoOther (mt_op: "32 word") (mt_body: bytes)

definition mongo_message :: "32 word \<Rightarrow> bytes \<Rightarrow> bytes" where
  "mongo_message op body = put_le_u32 (of_nat (16 + length body)) @ replicate 8 CHR 0x07 @ put_le_u32 op @ body"

fun command_body :: "mongo_traffic \<Rightarrow> bytes" where
  "command_body (MongoCommand flags seqs doc trail) =
     flags @ concat (map (\<lambda>q. sectionDocSeq # q) seqs) @ sectionBody # doc @ trail"
| "command_body (MongoOther _ body) = body"

fun mongo_encode :: "mongo_traffic \<Rightarrow> bytes" where
  "mongo_encode (MongoOther op body) = mongo_message op body"
| "mongo_encode m = mongo_message 2013 (command_body m)"

definition sized :: "bytes \<Rightarrow> bool" where
  "sized q \<longleftrightarrow> le_i32 q = int (length q)"

fun traffic_ok :: "mongo_traffic \<Rightarrow> bool" where
  "traffic_ok (MongoCommand flags seqs doc trail) \<longleftrightarrow>
     length flags = 4 \<and> list_all (\<lambda>q. 4 \<le> length q \<and> sized q) seqs \<and> 5 \<le> length doc \<and> sized doc \<and>
     length (command_body (MongoCommand flags seqs doc trail)) \<le> MaxFrameBytes"
| "traffic_ok (MongoOther op body) \<longleftrightarrow>
     16 + length body < 2 ^ 31 \<and> (sint op \<noteq> 2013 \<or> MaxFrameBytes < length body)"

fun traffic_reports :: "bson_lib \<Rightarrow> mongo_traffic \<Rightarrow> query_report list" where
  "traffic_reports lib (MongoCommand _ _ doc _) = [mongo_report lib doc]"
| "traffic_reports lib (MongoOther _ _) = []"

lemma le_i32_append: "4 \<le> length q \<Longrightarrow> le_i32 (q @ s) = le_i32 q"
  by (simp add: le_i32_def le_u32_def)

lemma le_i32_put_nat: "n < 2 ^ 31 \<Longrightarrow> le_i32 (put_le_u32 (of_nat n) @ s) = int n"
  by (simp add: le_i32_def sint_uint unsigned_of_nat signed_take_bit_int_eq_self take_bit_nat_eq_self)

lemma op_msg_sections_encoded:
  assumes "list_all (\<lambda>q. 4 \<le> length q \<and> sized q) seqs" "5 \<le> length doc" "sized doc"
  shows "op_msg_sections (concat (map (\<lambda>q. sectionDocSeq # q) seqs) @ sectionBody # doc @ trail) = Some doc"
  using assms(1)
proof (induction seqs)
  case Nil
  then show ?case
    using assms(2,3) by (simp add: op_msg_sections.simps read_bson_def sized_def le_i32_append Let_def)
next
  case (Cons q seqs)
  then show ?case
    by (subst list.map, subst concat.simps, subst append_Cons, subst op_msg_sections.simps)
      (simp add: sectionDocSeq_def sectionBody_def sized_def le_i32_append Let_def)
qed

lemma mongo_read_message:
  assumes "16 + length body < 2 ^ 31"
  shows "mongo_read lib (mongo_message op body) = Inr (
    (if length body \<le> MaxFrameBytes \<and> sint op = 2013
     then (case op_msg_body body of Some doc \<Rightarrow> [mongo_report lib doc] | None \<Rightarrow> []) else []), [])"
proof -
  let ?h = "put_le_u32 (of_nat (16 + length body)) @ replicate 8 CHR 0x07 @ put_le_u32 op"
  have "read_full mongoHeaderBytes (mongo_message op body) = Inr (?h, body)"
    using read_full_append [of ?h 16 body] by (simp add: mongo_message_def mongoHeaderBytes_def)
  moreover have "le_i32 ?h = int (16 + length body)"
    using le_i32_put_nat [OF assms] by simp
  moreover have "le_i32 (drop 12 ?h) = sint op"
    using le_u32_put [of op "[]"] by (simp add: le_i32_def)
  moreover have "read_full (length body) body = Inr (body, [])" "copy_discard (int (length body)) body = Inr []"
    by (simp_all add: read_full_def copy_discard_def)
  ultimately show ?thesis
    by (simp add: mongo_read_def Let_def mongoHeaderBytes_def opMsg_def)
qed

lemma mongo_read_encoded:
  assumes "traffic_ok m"
  shows "mongo_read lib (mongo_encode m) = Inr (traffic_reports lib m, [])"
proof (cases m)
  case (MongoCommand flags seqs doc trail)
  let ?body = "command_body m"
  have len: "length ?body \<le> MaxFrameBytes" and bound: "16 + length ?body < 2 ^ 31"
    using assms MongoCommand by (simp_all add: MaxFrameBytes_def)
  have "op_msg_body ?body = Some doc"
    using assms MongoCommand op_msg_sections_encoded [of seqs doc trail] by (simp add: op_msg_body_def)
  then show ?thesis
    using mongo_read_message [OF bound, of lib 2013] len MongoCommand by simp
next
  case (MongoOther op body)
  then show ?thesis
    using assms mongo_read_message [of body lib op] by auto
qed

text \<open>
  MongoDB commands are reported and everything else is stepped over.  In any sequence of
  OP_MSG commands (with any document sequences before the command document and anything after it),
  messages of other opcodes and messages above 64 KiB, exactly the commands are reported, in
  their order, each from its command document, and the parser is at the right place afterwards.
\<close>

theorem mongo_commands_decoded:
  assumes "\<forall>m \<in> set ms. traffic_ok m"
  shows "mongo_run lib (concat (map mongo_encode ms) @ s) =
    map_option (\<lambda>(rs, e). (concat (map (traffic_reports lib) ms) @ rs, e)) (mongo_run lib s)"
  using mongo.run_frames_concat [of ms lib mongo_encode "traffic_reports lib" s] assms
  by (simp add: mongo_run_def mongo_read_encoded)

definition sample_bson :: bson_lib where
  "sample_bson = \<lparr>bson_first = (\<lambda>_. Some (''find'', Some ''users'')), bson_collection = (\<lambda>_. None),
     bson_ext_json = (\<lambda>_. Some ''{}'')\<rparr>"

definition sample_doc :: bytes where
  "sample_doc = [CHR 0x05, CHR 0x00, CHR 0x00, CHR 0x00, CHR 0x00]"

theorem mongo_commands_decoded_witness:
  "mongo_run sample_bson
     (mongo_encode (MongoOther 2004 ''hello'') @
      mongo_encode (MongoCommand ''0000'' [sample_doc] sample_doc ''crc!'')) =
   Some ([\<lparr>qr_trace_id = [], qr_protocol = ProtocolMongoDB, qr_operation = ''find'', qr_target = ''users'',
      qr_raw_query = ''{}'', qr_params = []\<rparr>], EOF)"
proof -
  have other: "traffic_ok (MongoOther 2004 ''hello'')"
    by simp
  have "sized sample_doc"
    unfolding sample_doc_def by (simp add: sized_def) code_simp
  then have command: "traffic_ok (MongoCommand ''0000'' [sample_doc] sample_doc ''crc!'')"
    by (simp add: MaxFrameBytes_def sample_doc_def)
  have "trace_id_from sample_doc = []"
    by (simp add: sample_doc_def traceparent_at_def)
  then have report: "mongo_report sample_bson sample_doc =
      \<lparr>qr_trace_id = [], qr_protocol = ProtocolMongoDB, qr_operation = ''find'', qr_target = ''users'',
       qr_raw_query = ''{}'', qr_params = []\<rparr>"
    by (simp add: mongo_report_def mongo_op_target_def sample_bson_def)
  have "mongo_run sample_bson [] = Some ([], EOF)"
    by (simp add: mongo_run_def run_frames_stop mongo_read_def read_full_def mongoHeaderBytes_def)
  then show ?thesis
    using mongo_commands_decoded [of "[MongoOther 2004 ''hello'', MongoCommand ''0000'' [sample_doc] sample_doc ''crc!'']" sample_bson "[]"]
      other command by (simp add: report del: traffic_ok.simps mongo_encode.simps)
qed


section \<open>TDS\<close>

definition tds_packet :: "nat \<Rightarrow> bool \<Rightarrow> bytes \<Rightarrow> bytes" where
  "tds_packet ty eom chunk =
     char_of ty # char_of (of_bool eom :: nat) # put_be_u16 (8 + length chunk) @ replicate 4 CHR 0x00 @ chunk"

fun tds_message :: "nat \<Rightarrow> bytes list \<Rightarrow> bytes" where
  "tds_message ty [] = []"
| "tds_message ty [c] = tds_packet ty True c"
| "tds_message ty (c # cs) = tds_packet ty False c @ tds_message ty cs"

lemma read_tds_packet:
  assumes "ty < 256" "length chunk \<le> 65527"
  shows "read_tds_message buf (tds_packet ty eom chunk @ s) =
    (if MaxFrameBytes < length buf + length chunk
     then (if eom then Inl FrameTooLarge else read_tds_message buf s)
     else if eom then Inr ((ty, buf @ chunk), s) else read_tds_message (buf @ chunk) s)"
proof -
  let ?h = "char_of ty # char_of (of_bool eom :: nat) # put_be_u16 (8 + length chunk) @ replicate 4 CHR 0x00"
  have h: "read_full tdsHeaderBytes (tds_packet ty eom chunk @ s) = Inr (?h, chunk @ s)"
    using read_full_append [of ?h 8 "chunk @ s"] by (simp add: tds_packet_def tdsHeaderBytes_def)
  have len: "be_u16 (drop 2 ?h) = 8 + length chunk"
    using assms(2) by simp
  have eom: "tds_eom ?h = eom"
    by (simp add: tds_eom_def)
  have ty: "of_char (?h ! 0) = ty"
    using assms(1) by (simp add: of_char_mod_256 take_bit_eq_mod)
  show ?thesis
    unfolding read_tds_message_step [OF h, unfolded len tdsHeaderBytes_def, OF le_add1] eom ty
    by (simp add: Let_def)
qed

lemma read_tds_message_encoded:
  assumes "cs \<noteq> []" "\<forall>c \<in> set cs. length c \<le> 65527" "ty < 256"
    and "length buf + length (concat cs) \<le> MaxFrameBytes"
  shows "read_tds_message buf (tds_message ty cs @ s) = Inr ((ty, buf @ concat cs), s)"
  using assms
proof (induction cs arbitrary: buf rule: tds_message.induct [of "\<lambda>_. _", case_names Nil One More])
  case (One ty c)
  then show ?case by (simp add: read_tds_packet)
next
  case (More ty c d cs)
  then show ?case
    using More.IH [of "buf @ c"] by (simp add: read_tds_packet)
qed simp

text \<open>
  A message that grows beyond the limit before its last packet is not dropped: the packets that did
  not fit are left out and a later one that fits is put behind those already read.
\<close>

lemma oversized_message_spliced:
  assumes "length a \<le> 65527" "length b \<le> 65527" "MaxFrameBytes < length a + length b"
    and "length a + length c \<le> MaxFrameBytes"
  shows "read_tds_message [] (tds_message 1 [a, b, c] @ s) = Inr ((1, a @ c), s)"
  using assms by (simp add: read_tds_packet MaxFrameBytes_def)

text \<open>Statements as a client encodes them; only ASCII text is considered.\<close>

definition ucs2_encode :: "string \<Rightarrow> bytes" where
  "ucs2_encode sql = concat (map (\<lambda>c. [c, CHR 0x00]) sql)"

definition ascii :: "string \<Rightarrow> bool" where
  "ascii s \<longleftrightarrow> (\<forall>c \<in> set s. c \<noteq> CHR 0x00 \<and> (of_char c :: nat) < 128)"

lemma decode_ucs2_encode: "ascii sql \<Longrightarrow> decode_ucs2 (ucs2_encode sql) = sql"
proof (induction sql)
  case Nil
  then show ?case by (simp add: decode_ucs2_def ucs2_encode_def string_of_runes_def)
next
  case (Cons c sql)
  then show ?case
    by (simp add: decode_ucs2_def ucs2_encode_def string_of_runes_def ascii_def utf8_encode_def)
qed

definition headers_ok :: "bytes \<Rightarrow> bool" where
  "headers_ok h \<longleftrightarrow> h = [] \<or>
     (4 \<le> length h \<and> length h \<le> maxALLHeaders \<and> unat (le_u32 h) = length h)"

lemma le_u32_nat:
  "le_u32 (a # b # c # d # s) = of_nat (of_char a + 256 * of_char b + 65536 * of_char c + 16777216 * of_char d)"
proof -
  have w: "push_bit 8 v OR byte_word x = push_bit 8 v + (byte_word x :: 32 word)" for v x
  proof (rule disjunctive_add [symmetric])
    have "byte_word x = take_bit 8 (byte_word x :: 32 word)"
      by (simp add: byte_word_def take_bit_of_nat take_bit_nat_eq_self)
    then show "\<not> bit (push_bit 8 v) n \<or> \<not> bit (byte_word x :: 32 word) n" for n
      by (metis bit_push_bit_iff bit_take_bit_iff not_le)
  qed
  show ?thesis
    unfolding le_u32_def be_word_def by (simp add: w) (simp add: push_bit_eq_mult byte_word_def algebra_simps)
qed

lemma skip_all_headers_text:
  assumes "headers_ok h" "ascii sql"
  shows "skip_all_headers (h @ ucs2_encode sql) = ucs2_encode sql"
proof (cases "h = []")
  case False
  then have "4 \<le> length h" "length h \<le> maxALLHeaders" "unat (le_u32 h) = length h"
    using assms(1) by (auto simp: headers_ok_def)
  moreover have "le_u32 (h @ ucs2_encode sql) = le_u32 h"
    using \<open>4 \<le> length h\<close> by (simp add: le_u32_def)
  ultimately show ?thesis
    by (simp add: skip_all_headers_def Let_def)
next
  case True
  show ?thesis
  proof (cases sql)
    case outer: (Cons c t)
    show ?thesis
    proof (cases t)
      case (Cons d u)
      have c: "(of_char c :: nat) < 128" "(of_char d :: nat) < 128" and d: "d \<noteq> CHR 0x00"
        using assms(2) by (simp_all add: outer Cons ascii_def)
      have "(of_char d :: nat) \<noteq> 0"
        using d by (simp add: char_eq_iff_nat)
      moreover have "unat (le_u32 (ucs2_encode sql)) = of_char c + 65536 * of_char d"
      proof -
        have "le_u32 (ucs2_encode sql) = of_nat (of_char c + 65536 * of_char d)"
          by (simp add: outer Cons ucs2_encode_def le_u32_nat)
        then show ?thesis
          using c by (simp only: unat_of_nat) simp
      qed
      ultimately have "maxALLHeaders < unat (le_u32 (ucs2_encode sql))"
        by (simp add: maxALLHeaders_def)
      then show ?thesis
        by (simp add: True skip_all_headers_def Let_def)
    qed (simp add: True outer skip_all_headers_def ucs2_encode_def)
  qed (simp add: True skip_all_headers_def ucs2_encode_def)
qed


definition batch_ok :: "bytes \<Rightarrow> string \<Rightarrow> bytes list \<Rightarrow> bool" where
  "batch_ok h sql cs \<longleftrightarrow>
     headers_ok h \<and> ascii sql \<and> trim_space sql \<noteq> [] \<and> concat cs = h @ ucs2_encode sql \<and>
     cs \<noteq> [] \<and> (\<forall>c \<in> set cs. length c \<le> 65527) \<and> length (concat cs) \<le> MaxFrameBytes"

lemma mssql_read_batch:
  assumes "batch_ok h sql cs"
  shows "mssql_read (tds_message tdsSQLBatch cs) = Inr ([mssql_report sql], [])"
proof -
  have "read_tds_message [] (tds_message tdsSQLBatch cs @ []) = Inr ((tdsSQLBatch, [] @ concat cs), [])"
    by (rule read_tds_message_encoded) (use assms in \<open>auto simp: batch_ok_def tdsSQLBatch_def\<close>)
  then show ?thesis
    using assms by (simp add: mssql_read_def batch_ok_def skip_all_headers_text decode_ucs2_encode)
qed

text \<open>
  A SQL batch is reported whole, however the driver cuts it into packets.  For any batches of
  ASCII text of at most 64 KiB, with or without a header block and split into packets anywhere, the
  reports are those of the statements in their order, and the parser goes on with what follows.
\<close>

theorem tds_batches_decoded:
  assumes "\<forall>(h, sql, cs) \<in> set bs. batch_ok h sql cs"
  shows "mssql_run (concat (map (\<lambda>(h, sql, cs). tds_message tdsSQLBatch cs) bs) @ s) =
    map_option (\<lambda>(rs, e). (map (\<lambda>(h, sql, cs). mssql_report sql) bs @ rs, e)) (mssql_run s)"
proof -
  have "mssql_read (case x of (h, sql, cs) \<Rightarrow> tds_message tdsSQLBatch cs) =
      Inr (case x of (h, sql, cs) \<Rightarrow> [mssql_report sql], [])" if "x \<in> set bs" for x
    using assms that by (cases x) (auto simp: mssql_read_batch)
  moreover have "concat (map (\<lambda>x. case x of (h, sql, cs) \<Rightarrow> [mssql_report sql]) bs) =
      map (\<lambda>(h, sql, cs). mssql_report sql) bs"
    by (induction bs) auto
  ultimately show ?thesis
    using mssql.run_frames_concat [of bs "\<lambda>(h, sql, cs). tds_message tdsSQLBatch cs" "\<lambda>(h, sql, cs). [mssql_report sql]" s]
    by (simp add: mssql_run_def)
qed

definition sample_cs :: "bytes list" where
  "sample_cs = [ucs2_encode ''SELECT * '', ucs2_encode ''FROM t'']"

theorem tds_batches_decoded_witness:
  "mssql_run (tds_message tdsSQLBatch sample_cs) = Some ([mssql_report ''SELECT * FROM t''], EOF)"
proof -
  have ok: "batch_ok [] ''SELECT * FROM t'' sample_cs"
    by (simp add: batch_ok_def headers_ok_def ascii_def sample_cs_def ucs2_encode_def MaxFrameBytes_def
        trim_space_def trim_left_def is_space_def)
  have "mssql_run [] = Some ([], EOF)"
    by (simp add: mssql_run_def run_frames_stop mssql_read_def read_tds_message.simps read_full_def
        tdsHeaderBytes_def)
  then show ?thesis
    using tds_batches_decoded [of "[([], ''SELECT * FROM t'', sample_cs)]" "[]"] ok by simp
qed

text \<open>What is reassembled of a message is bounded.\<close>

lemma read_tds_message_bounded:
  "length buf \<le> MaxFrameBytes \<Longrightarrow> read_tds_message buf s = Inr ((ty, payload), s') \<Longrightarrow>
   length payload \<le> MaxFrameBytes"
proof (induction "length s" arbitrary: buf s rule: less_induct)
  case less
  from less.prems(2) show ?case
  proof (cases rule: read_tds_message_cases)
    case (skipped header s1 s2)
    then have "length s2 < length s"
      by (auto simp: tdsHeaderBytes_def dest!: read_full_length copy_discard_length)
    with less skipped show ?thesis by blast
  next
    case (last header s1 part)
    then show ?thesis
      using read_full_length [OF last(4)] by simp
  next
    case (more header s1 part s2)
    then have "length s2 < length s"
      by (auto simp: tdsHeaderBytes_def dest!: read_full_length)
    moreover have "length (buf @ part) \<le> MaxFrameBytes"
      using more(3) read_full_length [OF more(4)] by simp
    ultimately show ?thesis
      using less.hyps more(6) by blast
  qed
qed

end
