(* ===== verification/SoldierSqlProps.thy ===== *)
theory SoldierSqlProps
  imports SoldierProps
begin

text \<open>
  SQL statements and prepared statements: the shadow roles get the same signature for the same
  statement, and a bound statement is reported with the text it was prepared with.
\<close>

section \<open>Signatures and traces of SQL statements\<close>

text \<open>No comment begins in the statement.\<close>

fun plain_sql :: "string \<Rightarrow> bool" where
  "plain_sql [] \<longleftrightarrow> True"
| "plain_sql (c # t) \<longleftrightarrow> \<not> has_prefix (c # t) ''/*'' \<and> \<not> has_prefix (c # t) ''--'' \<and> plain_sql t"

lemma index_of_append:
  "\<not> contains c ''*/'' \<Longrightarrow> index_of (c @ CHR ''*'' # CHR ''/'' # t) ''*/'' = Some (length c)"
proof (induction c)
  case (Cons a c)
  then show ?case
    by (cases c) (auto simp: has_prefix_def)
qed (simp add: has_prefix_def)

lemma strip_comment:
  assumes "plain_sql a" "\<not> contains c ''*/''"
  shows "strip_sql_comments (a @ ''/*'' @ c @ ''*/'' @ b) = a @ CHR '' '' # strip_sql_comments b"
  using assms(1)
proof (induction a)
  case Nil
  then show ?case
    by (subst strip_sql_comments.simps) (simp add: index_of_append assms(2) has_prefix_def)
next
  case (Cons x a)
  have "\<not> has_prefix (x # a @ ''/*'' @ c @ ''*/'' @ b) ''/*''" "\<not> has_prefix (x # a @ ''/*'' @ c @ ''*/'' @ b) ''--''"
    using Cons.prems by (cases a; auto simp: has_prefix_def)+
  with Cons show ?case
    by (subst strip_sql_comments.simps) simp
qed

lemma strip_plain: "plain_sql a \<Longrightarrow> strip_sql_comments a = a"
  by (induction a) (simp_all add: strip_sql_comments.simps)

lemma split_fields_snoc_space: "split_fields (s @ '' '') = split_fields s"
proof (induction "length s" arbitrary: s rule: less_induct)
  case less
  show ?case
  proof (cases "trim_left s")
    case Nil
    then have "trim_left (s @ '' '') = []"
      by (auto simp: trim_left_def is_space_def)
    with Nil show ?thesis
      by (simp add: split_fields.simps)
  next
    case (Cons c t)
    have space: "is_space CHR '' ''"
      by (simp add: is_space_def)
    then have blank: "split_fields '' '' = []" "split_fields [] = []"
      by (simp_all add: split_fields.simps trim_left_def)
    have nospace: "\<not> is_space c"
      using hd_trim_left [of s] Cons by simp
    have "\<exists>x \<in> set s. \<not> is_space x"
      using Cons by (metis dropWhile_eq_Nil_conv list.distinct(1) trim_left_def)
    then have "trim_left (s @ '' '') = (c # t) @ '' ''"
      using Cons by (auto simp: trim_left_def dropWhile_append)
    moreover have "length (dropWhile (\<lambda>c. \<not> is_space c) t) < length s"
      using trim_left_length [of s] Cons length_dropWhile_le [of "\<lambda>c. \<not> is_space c" t] by simp
    ultimately show ?thesis
      using less [of "dropWhile (\<lambda>c. \<not> is_space c) t"] Cons nospace
      by (subst (1 2) split_fields.simps)
        (simp add: takeWhile_append dropWhile_append space blank takeWhile_eq_all_conv [THEN iffD2]
          dropWhile_eq_Nil_conv [THEN iffD2])
  qed
qed

lemma sql_op_target_comment:
  assumes "plain_sql sql" "\<not> contains c ''*/''"
  shows "sql_op_target (sql @ ''/*'' @ c @ ''*/'') = sql_op_target sql"
  using strip_comment [OF assms, of "[]"] strip_plain [OF assms(1)]
  by (simp add: sql_op_target_def split_fields_snoc_space strip_sql_comments.simps [of "[]"])

lemma traceparent_chars:
  assumes "traceparent_at s" "x \<in> set (take 55 s)"
  shows "is_lower_hex x \<or> x = CHR ''-''"
proof -
  have "take 55 s = take 3 s @ take 32 (drop 3 s) @ [s ! 35] @ take 16 (drop 36 s) @ [s ! 52] @ take 2 (drop 53 s)"
  proof -
    have one: "take (Suc 0) (drop n s) = [s ! n]" if "n < length s" for n
      using that by (simp add: take_Suc hd_drop_conv_nth)
    have "take (3 + (32 + (1 + (16 + (1 + 2))))) s =
        take 3 s @ take 32 (drop 3 s) @ take 1 (drop 35 s) @ take 16 (drop 36 s) @ take 1 (drop 52 s) @ take 2 (drop 53 s)"
      by (simp only: take_add drop_drop append_assoc) simp
    with assms(1) show ?thesis
      by (simp add: one traceparent_at_def)
  qed
  with assms show ?thesis
    by (auto simp: traceparent_at_def list_all_iff is_lower_hex_def)
qed

lemma traceparent_at_prefix:
  assumes "traceparent_at (x @ CHR ''/'' # r)"
  shows "traceparent_at x"
proof (cases "55 \<le> length x")
  case True
  with assms show ?thesis
    by (auto simp: traceparent_at_def nth_append)
next
  case False
  then have "CHR ''/'' \<in> set (take 55 (x @ CHR ''/'' # r))"
    by (cases "55 - length x") auto
  then show ?thesis
    using traceparent_chars [OF assms] by (fastforce simp: is_lower_hex_def char_le_iff)
qed

lemma trace_id_from_skip:
  "trace_id_from s = [] \<Longrightarrow> trace_id_from (s @ CHR ''/'' # r) = trace_id_from (CHR ''/'' # r)"
proof (induction s)
  case (Cons c s)
  have "\<not> traceparent_at (c # s)"
    using Cons.prems by (auto simp: traceparent_at_def split: if_splits)
  then have "\<not> traceparent_at (c # s @ CHR ''/'' # r)"
    using traceparent_at_prefix [of "c # s" r] by auto
  with Cons \<open>\<not> traceparent_at (c # s)\<close> show ?case
    by simp
qed simp

definition traced_statement :: "string \<Rightarrow> string \<Rightarrow> string \<Rightarrow> string" where
  "traced_statement sql traceID spanID =
     sql @ ''/*'' @ (''traceparent='' @ [CHR 0x27] @ format_traceparent traceID spanID @ [CHR 0x27]) @ ''*/''"


lemma trace_id_from_comment:
  assumes "trace_id_from sql = []" "length traceID = 32" "list_all is_lower_hex traceID"
    and "length spanID = 16" "list_all is_lower_hex spanID"
  shows "trace_id_from (traced_statement sql traceID spanID) = traceID"
proof -
  let ?tp = "format_traceparent traceID spanID"
  have "traceparent_at (?tp @ r)" for r
    using assms(2-5)
    by (simp add: traceparent_at_def format_traceparent_def nth_append nth_Cons' is_lower_hex_def char_le_iff)
  then have found: "trace_id_from (?tp @ r) = traceID" for r
    using assms(2) by (cases "?tp @ r") (simp_all add: format_traceparent_def)
  have "\<not> traceparent_at (c # s)" if "c \<noteq> CHR ''0''" for c s
    using that by (simp add: traceparent_at_def)
  then have "trace_id_from (''/*traceparent='' @ CHR 0x27 # ?tp @ r) = traceID" for r
    by (simp add: found)
  then show ?thesis
    using trace_id_from_skip [OF assms(1)] by (simp add: traced_statement_def)
qed

text \<open>
  Three roles that run the same statement are compared with each other.  A statement without
  comments of its own and without a traceparent, to which the tracer of a role appended its comment,
  is reported under the trace of the comment and with the signature of the bare statement, so
  neither the trace nor the bind parameters enter the signature.
\<close>

theorem traced_statement_signature:
  assumes "plain_sql sql" "trace_id_from sql = []" "length traceID = 32" "list_all is_lower_hex traceID"
    and "length spanID = 16" "list_all is_lower_hex spanID"
  shows "qr_trace_id (pg_report (traced_statement sql traceID spanID) params) = traceID \<and>
    query_signature (pg_report (traced_statement sql traceID spanID) params) = query_signature (pg_report sql params') \<and>
    qr_trace_id (mssql_report (traced_statement sql traceID spanID)) = traceID \<and>
    query_signature (mssql_report (traced_statement sql traceID spanID)) = query_signature (mssql_report sql)"
proof -
  have no_star: "CHR ''*'' \<notin> set (''traceparent='' @ [CHR 0x27] @ format_traceparent traceID spanID @ [CHR 0x27])"
    using assms(4,6) by (auto simp: format_traceparent_def list_all_iff is_lower_hex_def char_le_iff)
  have "CHR ''*'' \<notin> set c \<Longrightarrow> \<not> contains c ''*/''" for c
    by (induction c) (auto simp: has_prefix_def)
  from sql_op_target_comment [OF assms(1) this [OF no_star]]
  have "sql_op_target (traced_statement sql traceID spanID) = sql_op_target sql"
    by (simp add: traced_statement_def)
  then show ?thesis
    using trace_id_from_comment [OF assms(2-6)]
    by (simp add: pg_report_def mssql_report_def query_signature_def Let_def case_prod_beta)
qed

theorem traced_statement_signature_witness:
  "qr_trace_id (pg_report (traced_statement ''SELECT 1'' (replicate 32 CHR ''a'') (replicate 16 CHR ''b'')) []) =
     replicate 32 CHR ''a'' \<and>
   query_signature (pg_report (traced_statement ''SELECT 1'' (replicate 32 CHR ''a'') (replicate 16 CHR ''b'')) []) =
     ''postgresql:select:-''"
proof -
  have "plain_sql ''SELECT 1''"
    by (simp add: has_prefix_def)
  moreover have "trace_id_from ''SELECT 1'' = []"
    by (simp add: traceparent_at_def)
  moreover have "query_signature (pg_report ''SELECT 1'' []) = ''postgresql:select:-''"
    by code_simp
  ultimately show ?thesis
    using traced_statement_signature [of "''SELECT 1''" "replicate 32 CHR ''a''" "replicate 16 CHR ''b''" "[]" "[]"]
    by (simp add: list_all_iff is_lower_hex_def)
qed

section \<open>Prepared statements\<close>

text \<open>The statement a name was last prepared with.\<close>

fun last_prepared :: "string \<Rightarrow> pg_message list \<Rightarrow> string option" where
  "last_prepared name [] = None"
| "last_prepared name (m # ms) =
     (case last_prepared name ms of
        Some q \<Rightarrow> Some q
      | None \<Rightarrow> (case m of PgParse n q \<Rightarrow> if n = name then Some q else None | _ \<Rightarrow> None))"

definition pg_messages :: "(string \<times> string) list \<Rightarrow> pg_message list \<Rightarrow> (string \<times> string) list \<times> query_report list" where
  "pg_messages prepared ms =
     foldl (\<lambda>(p, rs) m. let (p', r) = pg_message_step p m in (p', rs @ r)) (prepared, []) ms"

text \<open>What a message is reported as after the messages before it.\<close>

fun expected_report :: "pg_message list \<Rightarrow> pg_message \<Rightarrow> query_report list" where
  "expected_report before (PgQuery sql) = [pg_report sql []]"
| "expected_report before (PgBind name params) =
     (case last_prepared name before of Some sql \<Rightarrow> [pg_report sql params] | None \<Rightarrow> [])"
| "expected_report before _ = []"

definition parse_count :: "pg_message list \<Rightarrow> nat" where
  "parse_count ms = length (filter (\<lambda>m. case m of PgParse _ _ \<Rightarrow> True | _ \<Rightarrow> False) ms)"

lemma last_prepared_snoc:
  "last_prepared name (ms @ [m]) =
     (case m of PgParse n q \<Rightarrow> if n = name then Some q else last_prepared name ms | _ \<Rightarrow> last_prepared name ms)"
  by (induction ms) (auto split: pg_message.splits option.splits)

lemma parse_count_snoc:
  "parse_count (ms @ [m]) = parse_count ms + (case m of PgParse _ _ \<Rightarrow> 1 | _ \<Rightarrow> 0)"
  by (simp add: parse_count_def split: pg_message.splits)

lemma length_update_le: "length (AList.update k v m) \<le> Suc (length m)"
  by (induction m) auto

lemma pg_messages_snoc:
  "pg_messages p (ms @ [m]) =
     (let (p', rs) = pg_messages p ms; (p'', r) = pg_message_step p' m in (p'', rs @ r))"
  by (simp add: pg_messages_def case_prod_beta Let_def)

lemma pg_messages_correct:
  assumes "parse_count ms \<le> maxPreparedStatements"
  shows "length (fst (pg_messages [] ms)) \<le> parse_count ms \<and>
    map_of (fst (pg_messages [] ms)) = (\<lambda>name. last_prepared name ms) \<and>
    snd (pg_messages [] ms) = concat (map (\<lambda>i. expected_report (take i ms) (ms ! i)) [0..<length ms])"
  using assms
proof (induction ms rule: rev_induct)
  case Nil
  then show ?case by (simp add: pg_messages_def parse_count_def)
next
  case (snoc m ms)
  obtain p rs where p: "pg_messages [] ms = (p, rs)" by (cases "pg_messages [] ms")
  have "parse_count ms \<le> parse_count (ms @ [m])"
    by (simp add: parse_count_snoc)
  then have IH: "length p \<le> parse_count ms" "map_of p = (\<lambda>name. last_prepared name ms)"
      "rs = concat (map (\<lambda>i. expected_report (take i ms) (ms ! i)) [0..<length ms])"
    using snoc p by auto
  have before: "concat (map (\<lambda>i. expected_report (take i (ms @ [m])) ((ms @ [m]) ! i)) [0..<length ms]) = rs"
    unfolding IH(3) by (intro arg_cong [of _ _ concat] map_cong) (auto simp: nth_append)
  have room: "length p < maxPreparedStatements" if "m = PgParse n q" for n q
    using that IH(1) snoc.prems by (simp add: parse_count_snoc)
  have grown: "length (AList.update n q p) \<le> Suc (parse_count ms)" for n q
    using length_update_le [of n q p] IH(1) by simp
  show ?case
    using IH(1,2) before room grown
    by (cases m)
      (auto simp: pg_messages_snoc p pg_message_step_def last_prepared_snoc parse_count_snoc update_conv' fun_eq_iff
        not_le [symmetric] split: option.splits)
qed


lemma pg_frames:
  assumes "\<forall>m \<in> set ms. \<forall>r. receive (wire m @ r) = Inr (m, r)" "receive [] = Inl e"
  shows "run_frames (pg_read receive) (p, concat (map wire ms)) = Some (snd (pg_messages p ms), e)"
  using assms(1)
proof (induction ms arbitrary: p)
  case Nil
  then show ?case
    by (simp add: run_frames_stop pg_read_def assms(2) pg_messages_def)
next
  case (Cons m ms)
  obtain p' r where step: "pg_message_step p m = (p', r)"
    by (cases "pg_message_step p m")
  have acc: "foldl (\<lambda>(p, rs) m. let (p', r) = pg_message_step p m in (p', rs @ r)) (q, rs) ms =
      (fst (pg_messages q ms), rs @ snd (pg_messages q ms))" for q rs ms
    by (induction ms rule: rev_induct) (simp_all add: pg_messages_def case_prod_beta Let_def)
  have "pg_read receive (p, wire m @ concat (map wire ms)) = Inr (r, (p', concat (map wire ms)))"
    using Cons.prems by (simp add: pg_read_def step)
  then have "run_frames (pg_read receive) (p, concat (map wire (m # ms))) = Some (r @ snd (pg_messages p' ms), e)"
    using Cons by (simp add: run_frames_step)
  moreover have "snd (pg_messages p (m # ms)) = r @ snd (pg_messages p' ms)"
    using acc [of p' r ms] by (simp add: pg_messages_def [of p "m # ms"] step)
  ultimately show ?case by simp
qed

text \<open>
  A bound statement is reported with the SQL it was prepared with.  When a connection prepares at
  most 256 times, every simple query is reported with its text, every Bind of a prepared name with
  the statement the name was last prepared with and the parameters of the Bind, and nothing else is,
  in the order of the messages.  Decoding the messages is the library's part.
\<close>

theorem bind_reports_last_prepared:
  assumes "parse_count ms \<le> maxPreparedStatements"
    and "\<forall>m \<in> set ms. \<forall>r. receive (wire m @ r) = Inr (m, r)" "receive [] = Inl e"
    and "startup s = Inr (concat (map wire ms))"
  shows "pg_run startup receive s =
    Some (concat (map (\<lambda>i. expected_report (take i ms) (ms ! i)) [0..<length ms]), e)"
  using pg_messages_correct [OF assms(1)] pg_frames [of ms receive wire e "[]"] assms(2-4)
  by (simp add: pg_run_def)

definition sample_receive :: "bytes \<Rightarrow> read_error + pg_message \<times> bytes" where
  "sample_receive s =
     (case s of
        [] \<Rightarrow> Inl EOF
      | c # r \<Rightarrow> Inr (if c = CHR ''P'' then PgParse ''s'' ''SELECT 1'' else PgBind ''s'' [None], r))"

theorem bind_reports_last_prepared_witness:
  "pg_run Inr sample_receive ''PB'' = Some ([pg_report ''SELECT 1'' [None]], EOF)"
  using bind_reports_last_prepared [of "[PgParse ''s'' ''SELECT 1'', PgBind ''s'' [None]]" sample_receive
      "\<lambda>m. case m of PgParse _ _ \<Rightarrow> ''P'' | _ \<Rightarrow> ''B''" EOF Inr "''PB''"]
  by (simp add: sample_receive_def parse_count_def maxPreparedStatements_def)

text \<open>
  One Parse beyond the limit forgets every earlier statement, not the oldest one, and a Bind of a
  forgotten statement is not reported at all.
\<close>

lemma prepared_statements_forgotten:
  assumes "maxPreparedStatements \<le> length p" "name \<noteq> n"
  shows "snd (pg_message_step (fst (pg_message_step p (PgParse n q))) (PgBind name params)) = []"
  using assms by (simp add: pg_message_step_def)

lemma prepared_bounded:
  "length p \<le> maxPreparedStatements \<Longrightarrow> length (fst (pg_message_step p m)) \<le> maxPreparedStatements"
proof -
  assume p: "length p \<le> maxPreparedStatements"
  have "length (AList.update n q p) \<le> maxPreparedStatements" if "length p < maxPreparedStatements" for n q
    using length_update_le [of n q p] that by simp
  with p show ?thesis
    by (cases m) (auto simp: pg_message_step_def maxPreparedStatements_def split: option.splits)
qed

end
