(* ===== verification/SoldierProxyProps.thy ===== *)
theory SoldierProxyProps
  imports SoldierProxy SoldierSqlProps "HOL-Library.Sublist"
begin

text \<open>
  The data path of shadow-soldier: what the parser sees of a connection and what it reports from it,
  the order in which reports are posted, and what a configuration that loads guarantees.
\<close>

section \<open>The tap\<close>

lemma tap_fill_concat: "tap_fill cur ch = (cur', ch') \<Longrightarrow> cur' @ concat ch' = cur @ concat ch \<and> length ch' \<le> length ch"
  by (induction cur ch rule: tap_fill.induct) auto

definition connection_ok :: "connection \<Rightarrow> bool" where
  "connection_ok c \<longleftrightarrow>
     prefix (cn_parsed c @ tp_cur (cn_tap c) @ concat (tp_ch (cn_tap c))) (cn_sent c) \<and>
     (\<not> tp_overflow (cn_tap c) \<longrightarrow>
        cn_parsed c @ tp_cur (cn_tap c) @ concat (tp_ch (cn_tap c)) = cn_sent c) \<and>
     (tp_closed (cn_tap c) \<longleftrightarrow> tp_overflow (cn_tap c) \<or> cn_done c) \<and>
     prefix (cn_up c) (cn_sent c) \<and> (\<not> cn_done c \<longrightarrow> cn_up c = cn_sent c) \<and>
     length (tp_ch (cn_tap c)) \<le> tp_cap (cn_tap c)"

lemma connection_start_ok: "connection_ok (connection_start cap)"
  by (simp add: connection_ok_def connection_start_def new_tap_def)

lemma copy_chunk_ok:
  assumes "connection_ok c" "\<not> cn_done c"
  shows "\<exists>c'. copy_chunk p k c = Some c' \<and> connection_ok c'"
proof (cases "tp_overflow (cn_tap c)")
  case True
  then show ?thesis
    using assms
    by (auto simp: copy_chunk_def tap_write_def connection_ok_def tap_close_def Let_def take_is_prefix
        intro: prefix_prefix)
next
  case False
  with assms have eq: "cn_parsed c @ tp_cur (cn_tap c) @ concat (tp_ch (cn_tap c)) = cn_sent c"
    and closed: "\<not> tp_closed (cn_tap c)" and up: "cn_up c = cn_sent c"
    and len: "length (tp_ch (cn_tap c)) \<le> tp_cap (cn_tap c)"
    by (simp_all add: connection_ok_def)
  show ?thesis
    using False closed up len assms(2)
    by (auto simp: copy_chunk_def tap_write_def connection_ok_def tap_close_def Let_def take_is_prefix
        eq [symmetric])
qed

lemma connection_step_ok: "connection_step c c' \<Longrightarrow> connection_ok c \<Longrightarrow> connection_ok c'"
proof (induction rule: connection_step.induct)
  case (Copy c p k c')
  then show ?case
    using copy_chunk_ok [of c p k] by auto
next
  case (Finish c)
  then show ?case
    by (auto simp: connection_ok_def tap_close_def)
next
  case (Parse n c b t)
  obtain cur ch where fill: "tap_fill (tp_cur (cn_tap c)) (tp_ch (cn_tap c)) = (cur, ch)"
    by (cases "tap_fill (tp_cur (cn_tap c)) (tp_ch (cn_tap c))")
  then have t: "t = (cn_tap c)\<lparr>tp_cur := drop n cur, tp_ch := ch\<rparr>" and b: "b = take n cur"
    using Parse.hyps by (auto simp: tap_read_def split: if_splits)
  have "(cn_parsed c @ b) @ drop n cur @ concat ch =
      cn_parsed c @ tp_cur (cn_tap c) @ concat (tp_ch (cn_tap c))"
    and "length ch \<le> length (tp_ch (cn_tap c))"
    using tap_fill_concat [OF fill] append_assoc [of "take n cur" "drop n cur" "concat ch"] by (simp_all add: b)
  then show ?case
    using Parse.prems by (simp add: connection_ok_def t)
qed

lemma connection_reaches_ok: "connection_reaches c c' \<Longrightarrow> connection_ok c \<Longrightarrow> connection_ok c'"
  by (induction rule: connection_reaches.induct) (auto intro: connection_step_ok)

text \<open>
  C33: Observing a connection never disturbs it.  In every state of a connection, however the copy
  loop and the parser interleave: the bytes sent upstream are a prefix of those the client sent, and
  all of them until the loop ends; the copy loop can always take the next chunk (the tap neither
  blocks nor panics); the tap holds at most its capacity; and the parser has read a prefix of the
  client's bytes, with nothing lost unless the tap overflowed.
\<close>

theorem tap_faithful:
  assumes "connection_reaches (connection_start cap) c"
  shows "prefix (cn_up c) (cn_sent c) \<and> (cn_done c \<or> cn_up c = cn_sent c) \<and>
    (cn_done c \<or> (\<forall>p k. copy_chunk p k c \<noteq> None)) \<and>
    length (tp_ch (cn_tap c)) \<le> tp_cap (cn_tap c) \<and>
    prefix (cn_parsed c) (cn_sent c) \<and>
    (tp_overflow (cn_tap c) \<or> cn_parsed c @ tp_cur (cn_tap c) @ concat (tp_ch (cn_tap c)) = cn_sent c)"
proof -
  have ok: "connection_ok c"
    by (rule connection_reaches_ok [OF assms connection_start_ok])
  have "cn_done c \<or> (\<forall>p k. copy_chunk p k c \<noteq> None)"
    using copy_chunk_ok [OF ok] by force
  with ok show ?thesis
    by (auto simp: connection_ok_def dest: append_prefixD)
qed

definition sample_connection :: connection where
  "sample_connection =
     \<lparr>cn_sent = ''ab'', cn_up = ''ab'',
      cn_tap = \<lparr>tp_cap = 1, tp_ch = [], tp_cur = ''b'', tp_overflow = False, tp_closed = False\<rparr>,
      cn_parsed = ''a'', cn_done = False\<rparr>"

lemma sample_connection_reached: "connection_reaches (connection_start 1) sample_connection"
proof -
  let ?c = "(connection_start 1)\<lparr>cn_sent := ''ab'', cn_up := ''ab'', cn_tap := (new_tap 1)\<lparr>tp_ch := [''ab'']\<rparr>\<rparr>"
  have "connection_step (connection_start 1) ?c"
    by (rule Copy [where p = "''ab''" and k = 2])
      (simp_all add: connection_start_def copyBufferBytes_def copy_chunk_def tap_write_def new_tap_def)
  moreover have "connection_step ?c sample_connection"
    using Parse [of 1 ?c "''a''" "(new_tap 1)\<lparr>tp_cur := ''b''\<rparr>"]
    by (simp add: connection_start_def tap_read_def new_tap_def sample_connection_def)
  ultimately show ?thesis
    by (blast intro: connection_reaches.intros)
qed

theorem tap_faithful_witness:
  "prefix (cn_parsed sample_connection) (cn_sent sample_connection) \<and>
   length (tp_ch (cn_tap sample_connection)) \<le> 1"
  using tap_faithful [OF sample_connection_reached] by (simp add: sample_connection_def)

section \<open>Reports of a connection\<close>

context framing_stream begin

lemma more_input_more_reports:
  "run_frames read s = Some (rs, e) \<Longrightarrow> run_frames read (s @ t) = Some (rs', e') \<Longrightarrow> prefix rs rs'"
proof (induction "length s" arbitrary: s rs rs' rule: less_induct)
  case less
  show ?case
  proof (cases "read s")
    case (Inl x)
    then show ?thesis
      using less.prems(1) by (simp add: run_frames_stop)
  next
    case (Inr p)
    then obtain r s' where r: "read s = Inr (r, s')" by (cases p) auto
    obtain q q' where q: "run_frames read s' = Some (q, e)" "rs = r @ q"
        "run_frames read (s' @ t) = Some (q', e')" "rs' = r @ q'"
      using less.prems r stable [OF r, of t]
      by (auto simp: run_frames_step [of read])
    then show ?thesis
      using less.hyps [OF consumes [OF r] q(1,3)] by simp
  qed
qed

lemma prefix_reports:
  assumes "prefix p s"
  shows "\<exists>seen whole e e'. run_frames read p = Some (seen, e) \<and> run_frames read s = Some (whole, e') \<and>
    prefix seen whole"
proof -
  obtain t where "s = p @ t"
    using assms by (auto simp: prefix_def)
  then show ?thesis
    using returns [of p] returns [of s] more_input_more_reports [of p _ _ t] by blast
qed

end

text \<open>
  A connection reports nothing its client did not ask.  Whatever the parser has seen when it
  stops, because the connection ended or because the tap overflowed, its reports are the first ones
  of those the whole client stream contains.
\<close>

theorem tapped_reports_prefix:
  assumes "connection_reaches (connection_start cap) c"
  shows "(\<exists>seen whole e e'. redis_run (cn_parsed c) = Some (seen, e) \<and>
      redis_run (cn_sent c) = Some (whole, e') \<and> prefix seen whole) \<and>
    (\<exists>seen whole e e'. mongo_run lib (cn_parsed c) = Some (seen, e) \<and>
      mongo_run lib (cn_sent c) = Some (whole, e') \<and> prefix seen whole) \<and>
    (\<exists>seen whole e e'. mssql_run (cn_parsed c) = Some (seen, e) \<and>
      mssql_run (cn_sent c) = Some (whole, e') \<and> prefix seen whole)"
proof -
  have "prefix (cn_parsed c) (cn_sent c)"
    using connection_reaches_ok [OF assms connection_start_ok] append_prefixD
    by (auto simp: connection_ok_def)
  then show ?thesis
    unfolding redis_run_def mongo_run_def mssql_run_def
    by (intro conjI redis.prefix_reports mongo.prefix_reports mssql.prefix_reports)
qed

theorem tapped_reports_prefix_witness:
  "\<exists>seen e. redis_run (cn_parsed sample_connection) = Some (seen, e)"
  using tapped_reports_prefix [OF sample_connection_reached] by blast

section \<open>The order of posts\<close>

text \<open>
  Every report of a trace is in one shard, and what was accepted of a trace is what was posted, what
  is being posted and what is queued, in this order.
\<close>

definition opt_list :: "'a option \<Rightarrow> 'a list" where
  "opt_list x = (case x of None \<Rightarrow> [] | Some a \<Rightarrow> [a])"

abbreviation of_trace :: "string \<Rightarrow> query_report list \<Rightarrow> query_report list" where
  "of_trace t \<equiv> filter (\<lambda>q. qr_trace_id q = t)"

definition in_progress :: "reporter \<Rightarrow> nat \<Rightarrow> query_report list" where
  "in_progress r i = opt_list (rp_busy r ! i) @ rp_shards r ! i"

definition shards_ok :: "reporter \<Rightarrow> bool" where
  "shards_ok r \<longleftrightarrow>
     length (rp_busy r) = length (rp_shards r) \<and>
     (\<forall>i < length (rp_shards r). length (rp_shards r ! i) \<le> rp_cap r \<and>
        (\<forall>q \<in> set (in_progress r i). shard_of (length (rp_shards r)) (qr_trace_id q) = i))"

definition history_ok :: "reporter \<Rightarrow> bool" where
  "history_ok r \<longleftrightarrow>
     (\<forall>t. of_trace t (rp_accepted r) =
        of_trace t (rp_posted r) @
        (if rp_shards r = [] then [] else of_trace t (in_progress r (shard_of (length (rp_shards r)) t))))"

definition reporter_ok :: "reporter \<Rightarrow> bool" where
  "reporter_ok r \<longleftrightarrow> shards_ok r \<and> history_ok r \<and> rp_sent r + rp_failed r = length (rp_posted r)"

lemma shard_less: "xs \<noteq> [] \<Longrightarrow> shard_of (length xs) t < length xs"
  by (simp add: shard_of_def)

lemma enqueue_ok:
  assumes "reporter_ok r"
  shows "reporter_ok (enqueue q r)"
proof -
  let ?n = "length (rp_shards r)" and ?i = "shard_of (length (rp_shards r)) (qr_trace_id q)"
  show ?thesis
  proof (cases "qr_trace_id q = [] \<or> rp_shards r = [] \<or> \<not> length (rp_shards r ! ?i) < rp_cap r")
    case True
    then show ?thesis
      using assms
      by (auto simp: enqueue_def Let_def reporter_ok_def shards_ok_def history_ok_def in_progress_def)
  next
    case False
    let ?r = "r\<lparr>rp_shards := (rp_shards r)[?i := rp_shards r ! ?i @ [q]], rp_accepted := rp_accepted r @ [q]\<rparr>"
    have eq: "enqueue q r = ?r"
      using False by (simp add: enqueue_def Let_def)
    have i: "?i < ?n"
      using False shard_less by blast
    have prog: "in_progress ?r k = in_progress r k @ (if k = ?i then [q] else [])" if "k < ?n" for k
      using that by (simp add: in_progress_def nth_list_update)
    have "shards_ok ?r"
      using assms False prog i by (auto simp: reporter_ok_def shards_ok_def nth_list_update)
    moreover have "history_ok ?r"
      using assms False prog [OF shard_less] by (auto simp: reporter_ok_def history_ok_def)
    ultimately show ?thesis
      using assms by (simp add: eq reporter_ok_def)
  qed
qed

lemma worker_take_ok:
  assumes "reporter_ok r" "i < length (rp_shards r)" "rp_busy r ! i = None"
  shows "reporter_ok (worker_take i r)"
proof (cases "rp_shards r ! i")
  case (Cons q qs)
  let ?r = "r\<lparr>rp_shards := (rp_shards r)[i := qs], rp_busy := (rp_busy r)[i := Some q]\<rparr>"
  have len: "length (rp_busy r) = length (rp_shards r)"
    using assms(1) by (simp add: reporter_ok_def shards_ok_def)
  have prog: "in_progress ?r k = in_progress r k" if "k < length (rp_shards r)" for k
    using that assms(2,3) len Cons by (cases "k = i") (simp_all add: in_progress_def opt_list_def)
  have "length qs \<le> rp_cap r"
    using assms(1,2) Cons by (auto simp: reporter_ok_def shards_ok_def)
  then have "shards_ok ?r"
    using assms(1,2) len prog by (simp add: reporter_ok_def shards_ok_def nth_list_update)
  moreover have "history_ok ?r"
    using assms(1) prog [OF shard_less] by (auto simp: reporter_ok_def history_ok_def)
  ultimately show ?thesis
    using assms(1) Cons by (simp add: worker_take_def reporter_ok_def)
qed (use assms in \<open>simp add: worker_take_def\<close>)

lemma worker_done_ok:
  assumes "reporter_ok r" "i < length (rp_shards r)"
  shows "reporter_ok (worker_done i ok r)"
proof (cases "rp_busy r ! i")
  case (Some q)
  let ?n = "length (rp_shards r)" and ?r = "worker_done i ok r"
  have eqs: "rp_shards ?r = rp_shards r" "rp_cap ?r = rp_cap r" "rp_busy ?r = (rp_busy r)[i := None]"
      "rp_posted ?r = rp_posted r @ [q]" "rp_accepted ?r = rp_accepted r"
      "rp_sent ?r + rp_failed ?r = Suc (rp_sent r + rp_failed r)"
    by (simp_all add: worker_done_def Some Let_def)
  have len: "length (rp_busy r) = ?n"
    using assms(1) by (simp add: reporter_ok_def shards_ok_def)
  have prog: "in_progress r k = (if k = i then [q] else []) @ in_progress ?r k" if "k < ?n" for k
    using that assms(2) len Some by (simp add: in_progress_def eqs nth_list_update opt_list_def)
  have shard: "shard_of ?n (qr_trace_id q) = i"
    using assms prog [OF assms(2)] by (auto simp: reporter_ok_def shards_ok_def)
  have "shards_ok ?r"
    using assms(1) len prog by (auto simp: reporter_ok_def shards_ok_def eqs)
  moreover have "history_ok ?r"
    unfolding history_ok_def
  proof
    fix t
    have "of_trace t (rp_accepted r) =
        of_trace t (rp_posted r) @ of_trace t (in_progress r (shard_of ?n t))"
      using assms by (auto simp: reporter_ok_def history_ok_def)
    moreover have "shard_of ?n t < ?n"
      using assms(2) by (intro shard_less) auto
    ultimately show "of_trace t (rp_accepted ?r) = of_trace t (rp_posted ?r) @
        (if rp_shards ?r = [] then [] else of_trace t (in_progress ?r (shard_of (length (rp_shards ?r)) t)))"
      using assms(2) prog [of "shard_of ?n t"] shard by (auto simp: eqs)
  qed
  ultimately show ?thesis
    using assms(1) by (simp add: reporter_ok_def eqs)
qed (use assms in \<open>simp add: worker_done_def\<close>)

lemma reporter_start_ok: "reporter_ok (reporter_start workers queueSize)"
  by (simp add: reporter_ok_def shards_ok_def history_ok_def in_progress_def reporter_start_def Let_def
      opt_list_def DefaultWorkers_def shard_of_def)


lemma reporter_reaches_ok: "reporter_reaches r r' \<Longrightarrow> reporter_ok r \<Longrightarrow> reporter_ok r'"
proof (induction rule: reporter_reaches.induct)
  case (step r r' r'')
  from step.hyps(2) show ?case
    using step.IH [OF step.prems]
    by (cases rule: reporter_step.cases) (simp_all add: enqueue_ok worker_take_ok worker_done_ok)
qed simp

text \<open>
  The reports of a trace are posted in the order they were decoded.  Whatever queues overflow,
  posts fail and workers interleave: what has been posted of a trace is a prefix of what was
  accepted of it, each accepted report is posted, being posted or queued, no queue exceeds its bound,
  and the counters agree with the posts that have ended.
\<close>

theorem posts_in_order:
  assumes "reporter_reaches (reporter_start workers queueSize) r"
  shows "prefix (of_trace t (rp_posted r)) (of_trace t (rp_accepted r)) \<and>
    of_trace t (rp_accepted r) = of_trace t (rp_posted r) @
      (if rp_shards r = [] then [] else of_trace t (in_progress r (shard_of (length (rp_shards r)) t))) \<and>
    list_all (\<lambda>qs. length qs \<le> rp_cap r) (rp_shards r) \<and>
    rp_sent r + rp_failed r = length (rp_posted r)"
proof -
  have ok: "reporter_ok r"
    by (rule reporter_reaches_ok [OF assms reporter_start_ok])
  then have "of_trace t (rp_accepted r) = of_trace t (rp_posted r) @
      (if rp_shards r = [] then [] else of_trace t (in_progress r (shard_of (length (rp_shards r)) t)))"
    by (simp add: reporter_ok_def history_ok_def)
  with ok show ?thesis
    by (auto simp: reporter_ok_def shards_ok_def list_all_length)
qed

definition sample_query :: "string \<Rightarrow> query_report" where
  "sample_query key = \<lparr>qr_trace_id = ''t1'', qr_protocol = ProtocolRedis, qr_operation = ''get'', qr_target = key,
     qr_raw_query = ''get '' @ key, qr_params = [key]\<rparr>"

definition sample_reporter :: reporter where
  "sample_reporter = worker_done 0 True (enqueue (sample_query ''b'') (worker_take 0 (enqueue (sample_query ''a'') (reporter_start 1 1))))"

lemma sample_reporter_value:
  "rp_posted sample_reporter = [sample_query ''a''] \<and> rp_accepted sample_reporter = [sample_query ''a'', sample_query ''b'']"
  by (simp add: sample_reporter_def reporter_start_def enqueue_def sample_query_def shard_of_def worker_take_def
      worker_done_def Let_def)

lemma sample_reporter_reached: "reporter_reaches (reporter_start 1 1) sample_reporter"
proof -
  let ?r1 = "enqueue (sample_query ''a'') (reporter_start 1 1)"
  have shards: "length (rp_shards ?r1) = 1" "rp_busy ?r1 ! 0 = None"
    by (simp_all add: enqueue_def reporter_start_def sample_query_def shard_of_def Let_def)
  have "reporter_reaches (reporter_start 1 1) ?r1"
    by (rule reporter_reaches.step [OF reporter_reaches.start Enqueue])
  then have "reporter_reaches (reporter_start 1 1) (worker_take 0 ?r1)"
    by (rule reporter_reaches.step) (rule Take, use shards in simp_all)
  then have "reporter_reaches (reporter_start 1 1) (enqueue (sample_query ''b'') (worker_take 0 ?r1))"
    by (rule reporter_reaches.step) (rule Enqueue)
  then show ?thesis
    unfolding sample_reporter_def
    by (rule reporter_reaches.step) (rule Posted, simp add: enqueue_def worker_take_def reporter_start_def sample_query_def shard_of_def Let_def)
qed

theorem posts_in_order_witness:
  "prefix (of_trace ''t1'' [sample_query ''a'']) (of_trace ''t1'' [sample_query ''a'', sample_query ''b''])"
  using posts_in_order [OF sample_reporter_reached, of "''t1''"] by (simp add: sample_reporter_value)

section \<open>The handshake\<close>

text \<open>
  A client that starts at once is forwarded untouched, one probe is answered and removed, and a
  second probe is forwarded: the stream the parser and the server see then does not begin at the
  startup message.
\<close>

definition probe :: "32 word \<Rightarrow> bytes" where
  "probe code = word_be 8 @ word_be code"

lemma negotiate_probe:
  assumes "code \<in> {sslRequestCode, gssEncRequestCode}"
  shows "negotiate_postgres_plaintext True (probe code @ s) = Inr (''N'', s)"
proof -
  have "read_full startupProbeBytes (probe code @ s) = Inr (probe code, s)"
    by (intro read_full_append) (simp add: probe_def word_be_def startupProbeBytes_def)
  moreover have "drop 4 (probe code) = word_be code"
    by (simp add: probe_def word_be_def)
  ultimately show ?thesis
    using assms by (auto simp: negotiate_postgres_plaintext_def Let_def)
qed

lemma second_probe_forwarded:
  "negotiate_postgres_plaintext True (probe gssEncRequestCode @ probe sslRequestCode @ s) =
     Inr (''N'', probe sslRequestCode @ s)"
  by (simp add: negotiate_probe)

lemma negotiate_transparent:
  assumes "negotiate_postgres_plaintext ok s = Inr (reply, forwarded)"
  shows "reply = [] \<and> forwarded = s \<or> reply = ''N'' \<and> forwarded = drop 8 s"
  using assms
  by (auto simp: negotiate_postgres_plaintext_def read_full_def startupProbeBytes_def Let_def split: if_splits)

section \<open>Configuration\<close>

lemma validate_routes_distinct:
  "validate_routes seen rs = None \<Longrightarrow>
   distinct (map rt_listen rs) \<and> (\<forall>r \<in> set rs. route_validate r = None \<and> map_of seen (rt_listen r) = None)"
proof (induction seen rs rule: validate_routes.induct)
  case (2 seen r rs)
  then show ?case
    by (fastforce split: option.splits if_splits)
qed simp

text \<open>
  A configuration that loads is one the sidecar can run: a role Beru accepts, an address for
  Beru, and at least one route, where each route has a protocol with a parser, a port from 1 to 65535
  that no other route has, and an upstream.
\<close>

theorem soldier_config_valid:
  assumes "soldier_load getenv = Inr c"
  shows "sf_role c \<in> set soldier_roles \<and> sf_beru_url c \<noteq> [] \<and> sf_routes c \<noteq> [] \<and>
    distinct (map rt_listen (sf_routes c)) \<and>
    list_all (\<lambda>r. protocol_supported (rt_protocol r) \<and> 1 \<le> rt_listen r \<and> rt_listen r \<le> 65535 \<and>
      trim_space (rt_upstream r) \<noteq> []) (sf_routes c)"
proof -
  have valid: "soldier_validate c = None" and "sf_routes c \<noteq> []"
    using assms by (auto simp: soldier_load_def Let_def split: sum.splits option.splits if_splits)
  then have "sf_role c \<in> set soldier_roles" "sf_beru_url c \<noteq> []" "validate_routes [] (sf_routes c) = None"
    by (auto simp: soldier_validate_def split: if_splits)
  with \<open>sf_routes c \<noteq> []\<close> show ?thesis
    using validate_routes_distinct [of "[]" "sf_routes c"]
    by (auto simp: list_all_iff route_validate_def split: if_splits)
qed

definition sample_env :: "string \<Rightarrow> string" where
  "sample_env key =
     (if key = ''SHADOW_ROLE'' then ''candidate'' else if key = ''BERU_HTTP_URL'' then ''http://beru''
      else if key = ''SOLDIER_ROUTES''
      then ''[{\"protocol\":\"redis\",\"listen\":6379,\"upstream\":\"redis:6379\"}]'' else [])"

theorem soldier_config_valid_witness:
  "\<exists>c. soldier_load sample_env = Inr c \<and> sf_role c = ''candidate'' \<and> sf_role c \<in> set soldier_roles"
proof -
  have "case soldier_load sample_env of Inr c \<Rightarrow> sf_role c = ''candidate'' | Inl _ \<Rightarrow> False"
    by code_simp
  then obtain c where c: "soldier_load sample_env = Inr c" "sf_role c = ''candidate''"
    by (auto split: sum.splits)
  with soldier_config_valid [OF c(1)] show ?thesis by blast
qed

end
