(* ===== verification/Amqp.thy ===== *)
theory Amqp
  imports IgrisHttp Shop GoTime
begin

text \<open>
  \<^verbatim>\<open>pipeline/egress-relay-rabbitmq\<close> and \<^verbatim>\<open>pipeline/igrises/igris-rabbitmq\<close>: what the
  shadow brokers' Firehose says a pod published, relayed to Beru without its double deliveries, and
  the recording and replay of messages a service consumes.  The AMQP client is not modelled; a
  delivery and a publishing are the values the code passes to and from it.
\<close>

section \<open>AMQP tables\<close>

text \<open>
  A table maps names to values of the types the client decodes; a nil table has no entries.  The
  order in which a table is iterated is an argument.
\<close>

datatype amqp_value =
  AmqpString string
| AmqpBytes bytes
| AmqpTable "(string \<times> amqp_value) list"
| AmqpArray "amqp_value list"
| AmqpStrings "string list"
| AmqpOther

type_synonym amqp_table = "(string \<times> amqp_value) list"

fun amqp_text :: "amqp_value \<Rightarrow> string option" where
  "amqp_text (AmqpString s) = Some s"
| "amqp_text (AmqpBytes b) = Some b"
| "amqp_text _ = None"

section \<open>Firehose messages (firehose/parse.go)\<close>

definition is_publish_trace :: "string \<Rightarrow> bool" where
  "is_publish_trace routingKey = has_prefix routingKey ''publish.''"

text \<open>\<^verbatim>\<open>getStringHeader\<close>: a string or bytes that are not blank.\<close>

definition get_string_header :: "amqp_table \<Rightarrow> string \<Rightarrow> string option" where
  "get_string_header table key =
     (case Option.bind (map_of table key) amqp_text of
        None \<Rightarrow> None
      | Some s \<Rightarrow> let out = trim_space s in if out = [] then None else Some out)"

definition get_table_header :: "amqp_table \<Rightarrow> string \<Rightarrow> amqp_table option" where
  "get_table_header table key =
     (case map_of table key of Some (AmqpTable t) \<Rightarrow> Some t | _ \<Rightarrow> None)"

definition original_app_headers :: "amqp_table \<Rightarrow> string + amqp_table" where
  "original_app_headers traceHeaders =
     (case get_table_header traceHeaders ''properties'' of
        None \<Rightarrow> Inl ''properties header missing or invalid''
      | Some props \<Rightarrow>
          (case get_table_header props ''headers'' of
             None \<Rightarrow> Inl ''properties.headers missing or invalid''
           | Some headers \<Rightarrow> Inr headers))"

definition trace_context_from_firehose :: "amqp_table \<Rightarrow> string + string \<times> string" where
  "trace_context_from_firehose traceHeaders =
     (case original_app_headers traceHeaders of
        Inl e \<Rightarrow> Inl e
      | Inr appHeaders \<Rightarrow>
          (case get_string_header appHeaders HeaderTraceparent of
             Some tp \<Rightarrow>
               (case parse_traceparent_context tp of
                  Some ids \<Rightarrow> Inr ids
                | None \<Rightarrow> Inl ''invalid traceparent header'')
           | None \<Rightarrow> Inl ''no trace id in firehose headers''))"

fun first_nonempty_string :: "amqp_value list \<Rightarrow> string" where
  "first_nonempty_string [] = []"
| "first_nonempty_string (v # vs) =
     (case amqp_text v of
        Some s \<Rightarrow> let t = trim_space s in if t = [] then first_nonempty_string vs else t
      | None \<Rightarrow> first_nonempty_string vs)"

definition routing_key_from_publish :: "amqp_table \<Rightarrow> string" where
  "routing_key_from_publish traceHeaders =
     (case get_string_header traceHeaders ''routing_key'' of
        Some rk \<Rightarrow> rk
      | None \<Rightarrow>
          (case map_of traceHeaders ''routing_keys'' of
             Some (AmqpArray arr) \<Rightarrow> first_nonempty_string arr
           | Some (AmqpStrings (s # _)) \<Rightarrow> trim_space s
           | _ \<Rightarrow> []))"

definition exchange_name_from_trace :: "amqp_table \<Rightarrow> string" where
  "exchange_name_from_trace traceHeaders =
     (case get_string_header traceHeaders ''exchange_name'' of None \<Rightarrow> [] | Some name \<Rightarrow> name)"

definition exchange_name_from_publish :: "amqp_table \<Rightarrow> string \<Rightarrow> string" where
  "exchange_name_from_publish traceHeaders routingKey =
     (let name = exchange_name_from_trace traceHeaders
      in if name \<noteq> [] then name else if has_prefix routingKey ''publish.'' then trim_prefix routingKey ''publish.'' else [])"

definition firehose_payload :: "bytes \<Rightarrow> string + bytes" where
  "firehose_payload body =
     (if body = [] then Inl ''empty body''
      else if \<not> json_valid body then Inl ''body is not valid JSON'' else Inr body)"

definition beru_egress_payload :: "amqp_table \<Rightarrow> string \<Rightarrow> bytes \<Rightarrow> string + string" where
  "beru_egress_payload traceHeaders routingKey body =
     (case firehose_payload body of
        Inl e \<Rightarrow> Inl e
      | Inr bodyJSON \<Rightarrow>
          Inr (''{'' @ join_with '',''
            [json_quote ''body'' @ '':'' @ raw_json bodyJSON,
             json_quote ''exchange'' @ '':'' @ json_quote (exchange_name_from_publish traceHeaders routingKey),
             json_quote ''routing_key'' @ '':'' @ json_quote (routing_key_from_publish traceHeaders)] @ ''}''))"

section \<open>Double deliveries (consumer/dedup.go)\<close>

definition dedupWindow :: duration where "dedupWindow = 100 * millisecond"
definition pruneAge :: duration where "pruneAge = 5 * second"

type_synonym dedup = "(string \<times> instant) list"

definition dedup_key :: "string \<Rightarrow> string \<Rightarrow> bytes \<Rightarrow> string" where
  "dedup_key traceID spanID payload =
     traceID @ '':'' @ spanID @ '':'' @ hex_encode (take 8 (sha256 payload))"

definition should_forward :: "instant \<Rightarrow> string \<Rightarrow> string \<Rightarrow> bytes \<Rightarrow> dedup \<Rightarrow> bool \<times> dedup" where
  "should_forward now traceID spanID payload d =
     (if spanID = [] then (True, d)
      else let key = dedup_key traceID spanID payload
           in case map_of d key of
                Some t \<Rightarrow>
                  if time_sub now t < dedupWindow then (False, d) else (True, AList.update key now d)
              | None \<Rightarrow> (True, AList.update key now d))"

definition dedup_prune :: "instant \<Rightarrow> dedup \<Rightarrow> dedup" where
  "dedup_prune now d = filter (\<lambda>(k, t). \<not> pruneAge < time_sub now t) d"

section \<open>The relay (consumer/filter.go, consumer/consumer.go)\<close>

definition should_report_egress :: "string \<Rightarrow> string \<Rightarrow> bool" where
  "should_report_egress allow exchange = (if allow = [] then True else exchange = allow)"

record delivery =
  dl_headers :: amqp_table
  dl_routing_key :: string
  dl_body :: bytes
  dl_content_type :: string
  dl_mode :: nat

record relay =
  rl_workload :: string
  rl_shadow_test :: string
  rl_exchange :: string
  rl_dedup :: dedup

text \<open>The report posted for a delivery at an instant, if any; the post is \<^const>\<open>post_report\<close>.\<close>

definition relay_delivery :: "instant \<Rightarrow> delivery \<Rightarrow> relay \<Rightarrow> beru_report option \<times> relay" where
  "relay_delivery now msg r =
     (if \<not> is_publish_trace (dl_routing_key msg) then (None, r)
      else if \<not> should_report_egress (rl_exchange r)
                 (exchange_name_from_publish (dl_headers msg) (dl_routing_key msg)) then (None, r)
      else case trace_context_from_firehose (dl_headers msg) of
        Inl _ \<Rightarrow> (None, r)
      | Inr (traceID, spanID) \<Rightarrow>
          (case beru_egress_payload (dl_headers msg) (dl_routing_key msg) (dl_body msg) of
             Inl _ \<Rightarrow> (None, r)
           | Inr payload \<Rightarrow>
               (case should_forward now traceID spanID (dl_body msg) (rl_dedup r) of
                  (fwd, d) \<Rightarrow>
                    if \<not> fwd then (None, r\<lparr>rl_dedup := d\<rparr>)
                    else (Some \<lparr>bp_trace_id = traceID, bp_workload = rl_workload r, bp_protocol = ''rabbitmq'',
                            bp_signature = [], bp_payload = payload, bp_shadow_test = rl_shadow_test r\<rparr>,
                          r\<lparr>rl_dedup := d\<rparr>))))"

text \<open>The wait before the next session: doubled up to the maximum, whatever the session did.\<close>

definition next_delay :: "duration \<Rightarrow> duration \<Rightarrow> duration" where
  "next_delay maxDelay delay =
     (if delay < maxDelay then (if maxDelay < delay * 2 then maxDelay else delay * 2) else delay)"

record relay_config =
  ry_control_a :: string
  ry_control_b :: string
  ry_candidate :: string
  ry_beru_url :: string
  ry_shadow_test :: string
  ry_exchange :: string
  ry_reconnect_min :: duration
  ry_reconnect_max :: duration

definition defaultEgressExchange :: string where "defaultEgressExchange = ''egress-events''"
definition defaultReconnectMin :: duration where "defaultReconnectMin = second"
definition defaultReconnectMax :: duration where "defaultReconnectMax = 30 * second"

definition relay_duration :: "(string \<Rightarrow> string) \<Rightarrow> string \<Rightarrow> duration \<Rightarrow> string + duration" where
  "relay_duration getenv key dflt =
     (let v = trim_space (getenv key)
      in if v = [] then Inr dflt
         else case parse_duration v of None \<Rightarrow> Inl (key @ '': invalid duration'') | Some d \<Rightarrow> Inr d)"

definition relay_load :: "(string \<Rightarrow> string) \<Rightarrow> string + relay_config" where
  "relay_load getenv =
     (let env = (\<lambda>key. trim_space (getenv key))
      in case relay_duration getenv ''RECONNECT_MIN_DELAY'' defaultReconnectMin of
           Inl e \<Rightarrow> Inl e
         | Inr rmin \<Rightarrow>
        (case relay_duration getenv ''RECONNECT_MAX_DELAY'' defaultReconnectMax of
           Inl e \<Rightarrow> Inl e
         | Inr rmax \<Rightarrow>
             let cfg = \<lparr>ry_control_a = env ''CONTROL_A_AMQP_URL'', ry_control_b = env ''CONTROL_B_AMQP_URL'',
                   ry_candidate = env ''CANDIDATE_AMQP_URL'', ry_beru_url = trim_right_set (env ''BERU_HTTP_URL'') ''/'',
                   ry_shadow_test = env ''SHADOW_TEST_NAME'',
                   ry_exchange = (if env ''EGRESS_EXCHANGE'' = [] then defaultEgressExchange else env ''EGRESS_EXCHANGE''),
                   ry_reconnect_min = rmin, ry_reconnect_max = rmax\<rparr>
             in if ry_control_a cfg = [] \<or> ry_control_b cfg = [] \<or> ry_candidate cfg = [] then
                  Inl ''CONTROL_A_AMQP_URL, CONTROL_B_AMQP_URL, and CANDIDATE_AMQP_URL are required''
                else if ry_beru_url cfg = [] then Inl ''BERU_HTTP_URL is required'' else Inr cfg))"

text \<open>\<^verbatim>\<open>StartAll\<close>: one runner with a filter of its own for each broker.\<close>

definition start_all :: "relay_config \<Rightarrow> (string \<times> relay) list" where
  "start_all cfg =
     map (\<lambda>(workload, url).
        (url, \<lparr>rl_workload = workload, rl_shadow_test = ry_shadow_test cfg, rl_exchange = ry_exchange cfg, rl_dedup = []\<rparr>))
       [(''control-a'', ry_control_a cfg), (''control-b'', ry_control_b cfg), (''candidate'', ry_candidate cfg)]"

end
