(* ===== verification/IgrisRabbit.thy ===== *)
theory IgrisRabbit
  imports Amqp
begin

text \<open>
  \<^verbatim>\<open>pipeline/igrises/igris-rabbitmq\<close>: messages of the production queue recorded to S3 and
  published again to the three shadow brokers.
\<close>

section \<open>Trace headers (amqptrace/amqptrace.go)\<close>

text \<open>
  The first entry whose name is the key in any case decides, in the order the table is iterated.
\<close>

fun extract_amqp_string :: "amqp_table \<Rightarrow> string \<Rightarrow> string" where
  "extract_amqp_string [] key = []"
| "extract_amqp_string ((k, v) # t) key =
     (if to_lower k \<noteq> to_lower key then extract_amqp_string t key
      else case amqp_text v of Some s \<Rightarrow> trim_space s | None \<Rightarrow> [])"

definition try_inbound :: "(amqp_table \<Rightarrow> amqp_table) \<Rightarrow> amqp_table \<Rightarrow> resolved_context option" where
  "try_inbound io headers = try_from_traceparent (extract_amqp_string (io headers) HeaderTraceparent)"

definition stamp_headers :: "amqp_table \<Rightarrow> resolved_context \<Rightarrow> amqp_table" where
  "stamp_headers headers resolved =
     AList.update HeaderTraceparent (AmqpString (rc_traceparent resolved))
       (filter (\<lambda>(k, v). to_lower k \<noteq> ''traceparent'') headers)"

text \<open>A map of strings, sorted by key; a nil map is \<^const>\<open>None\<close>.\<close>

definition table_to_string_map :: "amqp_table \<Rightarrow> string_map" where
  "table_to_string_map headers =
     (if headers = [] then None
      else Some (foldl (\<lambda>out (k, v). case amqp_text v of Some s \<Rightarrow> ins_key k s out | None \<Rightarrow> out) [] headers))"

definition string_map_to_table :: "string_map \<Rightarrow> amqp_table" where
  "string_map_to_table m =
     (case m of None \<Rightarrow> [] | Some kvs \<Rightarrow> map (\<lambda>(k, v). (k, AmqpString v)) kvs)"

section \<open>Captures (capture/capture.go)\<close>

record amqp_capture =
  ac_traceparent :: string
  ac_trace_id :: string
  ac_routing_key :: string
  ac_exchange :: string
  ac_content_type :: string
  ac_mode :: nat
  ac_headers :: string_map
  ac_body :: bytes

definition amqp_capture_json :: "amqp_capture \<Rightarrow> jval" where
  "amqp_capture_json r =
     JObj ([(''traceparent'', JStr (ac_traceparent r)), (''trace_id'', JStr (ac_trace_id r)),
        (''routing_key'', JStr (ac_routing_key r)), (''exchange'', JStr (ac_exchange r)),
        (''content_type'', JStr (ac_content_type r)), (''delivery_mode'', JNum (itoa (ac_mode r)))] @
       (if ac_headers r = None \<or> ac_headers r = Some [] then [] else [(''headers'', string_map_json (ac_headers r))]) @
       [(''body'', JStr (base64_encode (ac_body r)))])"

text \<open>A \<^verbatim>\<open>uint8\<close>: a number outside its range is an error and leaves the field alone.\<close>

fun decode_uint8 :: "nat decoder" where
  "decode_uint8 (JNum l) cur =
     (case atoi l of Some n \<Rightarrow> if 0 \<le> n \<and> n \<le> 255 then (nat n, True) else (cur, False) | None \<Rightarrow> (cur, False))"
| "decode_uint8 JNull cur = (cur, True)"
| "decode_uint8 v cur = (cur, False)"

definition amqp_capture_zero :: amqp_capture where
  "amqp_capture_zero = \<lparr>ac_traceparent = [], ac_trace_id = [], ac_routing_key = [], ac_exchange = [],
     ac_content_type = [], ac_mode = 0, ac_headers = None, ac_body = []\<rparr>"

definition decode_amqp_capture :: "amqp_capture decoder" where
  "decode_amqp_capture = decode_struct
     [(''traceparent'', in_field ac_traceparent (\<lambda>x. ac_traceparent_update (\<lambda>_. x)) decode_string),
      (''trace_id'', in_field ac_trace_id (\<lambda>x. ac_trace_id_update (\<lambda>_. x)) decode_string),
      (''routing_key'', in_field ac_routing_key (\<lambda>x. ac_routing_key_update (\<lambda>_. x)) decode_string),
      (''exchange'', in_field ac_exchange (\<lambda>x. ac_exchange_update (\<lambda>_. x)) decode_string),
      (''content_type'', in_field ac_content_type (\<lambda>x. ac_content_type_update (\<lambda>_. x)) decode_string),
      (''delivery_mode'', in_field ac_mode (\<lambda>x. ac_mode_update (\<lambda>_. x)) decode_uint8),
      (''headers'', in_field ac_headers (\<lambda>x. ac_headers_update (\<lambda>_. x)) decode_string_map),
      (''body'', in_field ac_body (\<lambda>x. ac_body_update (\<lambda>_. x)) decode_bytes)]"

definition unmarshal_amqp_capture :: "bytes \<Rightarrow> amqp_capture option" where
  "unmarshal_amqp_capture raw =
     (case json_parse raw of
        None \<Rightarrow> None
      | Some v \<Rightarrow> (case decode_amqp_capture v amqp_capture_zero of (r, ok) \<Rightarrow> if ok then Some r else None))"

section \<open>Configuration (config/config.go)\<close>

record rabbit_config =
  rb_mode :: string
  rb_admin :: string
  rb_prod_url :: string
  rb_queue :: string
  rb_exchange :: string
  rb_exchange_type :: string
  rb_control_a :: string
  rb_control_b :: string
  rb_candidate :: string
  rb_prefetch :: int
  rb_sample :: int

definition rabbit_validate :: "rabbit_config \<Rightarrow> string option" where
  "rabbit_validate c =
     (if rb_mode c = ModeRecord then
        (if rb_prod_url c = [] then Some ''PROD_URL is required in record mode''
         else if rb_queue c = [] then Some ''SHADOW_QUEUE_NAME is required in record mode'' else None)
      else if rb_mode c = ModeReplay then
        (if rb_exchange c = [] then Some ''SHADOW_PUBLISH_EXCHANGE is required in replay mode''
         else if rb_control_a c = [] \<or> rb_control_b c = [] \<or> rb_candidate c = [] then
           Some ''CONTROL_A/B and CANDIDATE_AMQP_URL are required in replay mode'' else None)
      else Some (''OPERATING_MODE must be record or replay, got '' @ json_quote (rb_mode c)))"

text \<open>An integer variable: unset is the default, anything refused by the test an error.\<close>

definition bounded_env :: "(string \<Rightarrow> string) \<Rightarrow> string \<Rightarrow> int \<Rightarrow> (int \<Rightarrow> bool) \<Rightarrow> string + int" where
  "bounded_env getenv key dflt valid =
     (let v = trim_space (getenv key)
      in if v = [] then Inr dflt
         else case atoi v of
                Some n \<Rightarrow> if valid n then Inr n else Inl (''invalid '' @ key @ '' '' @ json_quote v)
              | None \<Rightarrow> Inl (''invalid '' @ key @ '' '' @ json_quote v))"

definition rabbit_load :: "(string \<Rightarrow> string) \<Rightarrow> string + rabbit_config" where
  "rabbit_load getenv =
     (let env = (\<lambda>key. trim_space (getenv key))
      in case require_operating_mode getenv of
           Inl e \<Rightarrow> Inl e
         | Inr mode \<Rightarrow>
        (case bounded_env getenv ''PREFETCH'' 10 (\<lambda>n. 1 \<le> n) of
           Inl e \<Rightarrow> Inl e
         | Inr prefetch \<Rightarrow>
        (case bounded_env getenv ''IGRIS_RMQ_SAMPLE_PERCENTAGE'' 100 (\<lambda>n. 1 \<le> n \<and> n \<le> 100) of
           Inl e \<Rightarrow> Inl e
         | Inr pct \<Rightarrow>
             let cfg = \<lparr>rb_mode = mode,
                   rb_admin = (if env ''IGRIS_ADMIN_ADDR'' = [] then '':9090'' else env ''IGRIS_ADMIN_ADDR''),
                   rb_prod_url = env ''PROD_URL'', rb_queue = env ''SHADOW_QUEUE_NAME'',
                   rb_exchange = env ''SHADOW_PUBLISH_EXCHANGE'',
                   rb_exchange_type = (if env ''SHADOW_PUBLISH_EXCHANGE_TYPE'' = [] then ''topic''
                                       else env ''SHADOW_PUBLISH_EXCHANGE_TYPE''),
                   rb_control_a = env ''CONTROL_A_AMQP_URL'', rb_control_b = env ''CONTROL_B_AMQP_URL'',
                   rb_candidate = env ''CANDIDATE_AMQP_URL'', rb_prefetch = prefetch, rb_sample = pct\<rparr>
             in case rabbit_validate cfg of Some e \<Rightarrow> Inl e | None \<Rightarrow> Inr cfg)))"

section \<open>Recording (multicast/multicast.go)\<close>

datatype settlement = Acked | Requeued

definition amqp_capture_of :: "rabbit_config \<Rightarrow> delivery \<Rightarrow> resolved_context \<Rightarrow> amqp_capture" where
  "amqp_capture_of c msg resolved =
     \<lparr>ac_traceparent = rc_traceparent resolved, ac_trace_id = rc_trace_id resolved,
      ac_routing_key = dl_routing_key msg, ac_exchange = rb_exchange c,
      ac_content_type = dl_content_type msg, ac_mode = dl_mode msg,
      ac_headers = table_to_string_map (stamp_headers (dl_headers msg) resolved), ac_body = dl_body msg\<rparr>"

text \<open>
  \<^verbatim>\<open>handleDelivery\<close>: the sink is the uploader, whose \<^verbatim>\<open>Add\<close> may report an error
  (\<^verbatim>\<open>sinkOk\<close> is false) and then holds nothing of the record.
\<close>

definition record_delivery ::
  "(amqp_table \<Rightarrow> amqp_table) \<Rightarrow> rabbit_config \<Rightarrow> bool \<Rightarrow> delivery \<Rightarrow> uploader \<Rightarrow> settlement \<times> uploader" where
  "record_delivery io c sinkOk msg u =
     (case try_inbound io (dl_headers msg) of
        None \<Rightarrow> (Acked, u)
      | Some resolved \<Rightarrow>
          if \<not> sampled_in (rc_trace_id resolved) (rb_sample c) then (Acked, u)
          else if \<not> sinkOk then (Requeued, u)
          else (Acked, snd (uploader_add (Inr (json_marshal (amqp_capture_json (amqp_capture_of c msg resolved)))) u)))"

section \<open>Replay (multicast/multicast.go, main.go)\<close>

definition shadowPublishExpirationMs :: string where "shadowPublishExpirationMs = ''10000''"

record publishing =
  pb_exchange :: string
  pb_routing_key :: string
  pb_headers :: amqp_table
  pb_content_type :: string
  pb_body :: bytes
  pb_mode :: nat
  pb_expiration :: string

definition publishing_of :: "string \<Rightarrow> amqp_capture \<Rightarrow> publishing" where
  "publishing_of exchange rec =
     (let headers = string_map_to_table (ac_headers rec);
          tp = ac_traceparent rec
      in \<lparr>pb_exchange = (if ac_exchange rec = [] then exchange else ac_exchange rec),
          pb_routing_key = ac_routing_key rec,
          pb_headers = (if tp \<noteq> [] then AList.update HeaderTraceparent (AmqpString tp) headers else headers),
          pb_content_type = ac_content_type rec, pb_body = ac_body rec, pb_mode = ac_mode rec,
          pb_expiration = shadowPublishExpirationMs\<rparr>)"

text \<open>
  \<^verbatim>\<open>PublishCapture\<close>: the brokers in their order until one refuses; the result is what each
  broker was sent.
\<close>

fun publish_to :: "publishing \<Rightarrow> ('b \<Rightarrow> bool) \<Rightarrow> 'b list \<Rightarrow> ('b \<times> publishing) list \<times> 'b option" where
  "publish_to pub accepts [] = ([], None)"
| "publish_to pub accepts (b # bs) =
     (if accepts b then (case publish_to pub accepts bs of (sent, e) \<Rightarrow> ((b, pub) # sent, e))
      else ([], Some b))"

definition publish_capture ::
  "string \<Rightarrow> ('b \<Rightarrow> bool) \<Rightarrow> 'b list \<Rightarrow> amqp_capture \<Rightarrow> ('b \<times> publishing) list \<times> 'b option" where
  "publish_capture exchange accepts brokers rec = publish_to (publishing_of exchange rec) accepts brokers"

definition accept_amqp_capture :: "amqp_capture \<Rightarrow> bool" where
  "accept_amqp_capture r \<longleftrightarrow> ac_traceparent r \<noteq> [] \<or> ac_trace_id r \<noteq> []"

definition load_amqp_ingress :: "list_keys \<Rightarrow> get_object \<Rightarrow> s3_config option \<Rightarrow> string + amqp_capture list" where
  "load_amqp_ingress list get reader = load_jsonl list get reader unmarshal_amqp_capture accept_amqp_capture"

end
