(* ===== verification/AmqpProps.thy ===== *)
theory AmqpProps
  imports IgrisRabbit IgrisHttpProps
begin

text \<open>
  The duplicate filter of the relay has a specification that mentions neither its map nor its pruner,
  and a recorded message is published to every shadow broker as it was consumed.
\<close>

section \<open>Double deliveries\<close>

text \<open>The calls on one filter, in the order they are made.\<close>

datatype dedup_event = Check instant string string bytes | Prune instant

fun event_time :: "dedup_event \<Rightarrow> instant" where
  "event_time (Check t _ _ _) = t"
| "event_time (Prune t) = t"

fun event_key :: "dedup_event \<Rightarrow> string option" where
  "event_key (Check _ tid sid p) = (if sid = [] then None else Some (dedup_key tid sid p))"
| "event_key (Prune _) = None"

fun dedup_step :: "dedup_event \<Rightarrow> dedup \<Rightarrow> bool \<times> dedup" where
  "dedup_step (Check t tid sid p) d = should_forward t tid sid p d"
| "dedup_step (Prune t) d = (False, dedup_prune t d)"

definition dedup_run :: "dedup_event list \<Rightarrow> bool list \<times> dedup" where
  "dedup_run es = foldl (\<lambda>(fs, d) e. let (f, d') = dedup_step e d in (fs @ [f], d')) ([], []) es"

lemma dedup_run_snoc:
  "dedup_run (es @ [e]) = (let (fs, d) = dedup_run es; (f, d') = dedup_step e d in (fs @ [f], d'))"
  by (simp add: dedup_run_def case_prod_beta Let_def)

lemma dedup_run_length: "length (fst (dedup_run es)) = length es"
  by (induction es rule: rev_induct) (simp_all add: dedup_run_def case_prod_beta Let_def)

text \<open>The times at which a key was forwarded.\<close>

definition forwarded_at :: "dedup_event list \<Rightarrow> string \<Rightarrow> instant set" where
  "forwarded_at es k = event_time ` fst ` {x \<in> set (zip es (fst (dedup_run es))). snd x \<and> event_key (fst x) = Some k}"

lemma forwarded_at_snoc:
  "forwarded_at (es @ [e]) k =
     forwarded_at es k \<union> (if fst (dedup_step e (snd (dedup_run es))) \<and> event_key e = Some k then {event_time e} else {})"
proof -
  obtain fs d where r: "dedup_run es = (fs, d)" by (cases "dedup_run es")
  then have "length fs = length es"
    using dedup_run_length [of es] by simp
  moreover obtain f d' where "dedup_step e d = (f, d')" by (cases "dedup_step e d")
  moreover have "{x \<in> insert a S. P x} = {x \<in> S. P x} \<union> (if P a then {a} else {})"
    for a :: "dedup_event \<times> bool" and S P
    by auto
  ultimately show ?thesis
    by (simp add: forwarded_at_def dedup_run_snoc r Let_def image_Un)
qed

text \<open>What the map knows of the past: the last time, or that it is long ago.\<close>

definition remembers :: "dedup_event list \<Rightarrow> dedup \<Rightarrow> bool" where
  "remembers es d \<longleftrightarrow> distinct (map fst d) \<and>
     (\<forall>k t. map_of d k = Some t \<longrightarrow> t \<in> forwarded_at es k \<and> (\<forall>t' \<in> forwarded_at es k. t' \<le> t)) \<and>
     (\<forall>k. map_of d k = None \<longrightarrow>
        (\<forall>t' \<in> forwarded_at es k. \<exists>e \<in> set es. t' + pruneAge < event_time e))"

lemma time_sub_less_iff: "- (2 ^ 63) < d \<Longrightarrow> d \<le> 2 ^ 63 - 1 \<Longrightarrow> time_sub t u < d \<longleftrightarrow> t < u + d"
  using time_sub_ge_iff [of d t u] by linarith

lemma map_of_prune:
  assumes "distinct (map fst d)"
  shows "map_of (dedup_prune now d) k =
    (case map_of d k of Some t \<Rightarrow> if pruneAge < time_sub now t then None else Some t | None \<Rightarrow> None)"
  using assms
  by (induction d) (auto simp: dedup_prune_def map_of_eq_None_iff image_iff split: option.splits)

text \<open>The decision of one check on a map that remembers the past.\<close>

lemma should_forward_iff:
  assumes "remembers es d" "sorted (map event_time (es @ [Check now tid sid p]))" "sid \<noteq> []"
  shows "fst (should_forward now tid sid p d) \<longleftrightarrow>
    (\<forall>t \<in> forwarded_at es (dedup_key tid sid p). t + dedupWindow \<le> now)"
proof -
  let ?k = "dedup_key tid sid p"
  have late: "event_time e \<le> now" if "e \<in> set es" for e
    using assms(2) that by (auto simp: sorted_append)
  show ?thesis
  proof (cases "map_of d ?k")
    case None
    then have "\<forall>t' \<in> forwarded_at es ?k. \<exists>e \<in> set es. t' + pruneAge < event_time e"
      using assms(1) by (simp add: remembers_def)
    then have "\<forall>t' \<in> forwarded_at es ?k. t' + dedupWindow \<le> now"
      using late by (fastforce simp: pruneAge_def dedupWindow_def)
    with None assms(3) show ?thesis
      by (simp add: should_forward_def)
  next
    case (Some t)
    then have "t \<in> forwarded_at es ?k" "\<forall>t' \<in> forwarded_at es ?k. t' \<le> t"
      using assms(1) by (auto simp: remembers_def)
    then have "(\<forall>t' \<in> forwarded_at es ?k. t' + dedupWindow \<le> now) \<longleftrightarrow> t + dedupWindow \<le> now"
      by force
    moreover have "time_sub now t < dedupWindow \<longleftrightarrow> now < t + dedupWindow"
      by (rule time_sub_less_iff) (simp_all add: dedupWindow_def)
    ultimately show ?thesis
      using Some assms(3) by (simp add: should_forward_def not_less)
  qed
qed

lemma should_forward_update:
  "snd (should_forward now tid sid p d) =
     (if fst (should_forward now tid sid p d) \<and> sid \<noteq> [] then AList.update (dedup_key tid sid p) now d else d)"
proof (cases "map_of d (dedup_key tid sid p)")
  case None
  then show ?thesis by (cases "sid = []") (simp_all add: should_forward_def)
next
  case (Some t)
  then show ?thesis
    by (cases "sid = []"; cases "time_sub now t < dedupWindow") (simp_all add: should_forward_def)
qed

lemma remembers_run:
  "sorted (map event_time es) \<Longrightarrow> remembers es (snd (dedup_run es))"
proof (induction es rule: rev_induct)
  case Nil
  then show ?case by (simp add: remembers_def dedup_run_def forwarded_at_def)
next
  case (snoc e es)
  obtain fs d where r: "dedup_run es = (fs, d)" by (cases "dedup_run es")
  have sorted: "sorted (map event_time es)" and late: "\<forall>x \<in> set es. event_time x \<le> event_time e"
    using snoc.prems by (auto simp: sorted_append)
  have IH: "remembers es d"
    using snoc.IH [OF sorted] r by simp
  have past: "t \<le> event_time e" if "t \<in> forwarded_at es k" for t k
    using that late by (auto simp: forwarded_at_def dest: set_zip_leftD)
  have grows: "\<exists>x \<in> set (es @ [e]). t' + pruneAge < event_time x"
    if "map_of d k = None" "t' \<in> forwarded_at es k" for k t'
  proof -
    have "\<exists>x \<in> set es. t' + pruneAge < event_time x"
      using IH that unfolding remembers_def by blast
    then show ?thesis by auto
  qed
  have known: "t \<in> forwarded_at es k \<and> (\<forall>t' \<in> forwarded_at es k. t' \<le> t)" if "map_of d k = Some t" for k t
    using IH that unfolding remembers_def by blast
  have distinct: "distinct (map fst d)"
    using IH unfolding remembers_def by blast
  show ?case
  proof (cases e)
    case (Prune now)
    have fwd: "forwarded_at (es @ [e]) k = forwarded_at es k" for k
      by (simp add: forwarded_at_snoc Prune)
    have run: "snd (dedup_run (es @ [e])) = dedup_prune now d"
      by (simp add: dedup_run_snoc r Prune)
    have old: "pruneAge < time_sub now t \<longleftrightarrow> t + pruneAge < now" for t
      using time_sub_ge_iff [of "pruneAge + 1" now t] by (auto simp: pruneAge_def)
    show ?thesis
      unfolding remembers_def run fwd
    proof (intro conjI allI impI)
      show "distinct (map fst (dedup_prune now d))"
        using distinct by (simp add: dedup_prune_def distinct_map_filter)
    next
      fix k t
      assume "map_of (dedup_prune now d) k = Some t"
      then have t: "map_of d k = Some t"
        unfolding map_of_prune [OF distinct] by (cases "map_of d k") (simp_all split: if_splits)
      show "t \<in> forwarded_at es k" and "\<forall>t' \<in> forwarded_at es k. t' \<le> t"
        using known [OF t] by auto
    next
      fix k
      assume none: "map_of (dedup_prune now d) k = None"
      show "\<forall>t' \<in> forwarded_at es k. \<exists>x \<in> set (es @ [e]). t' + pruneAge < event_time x"
      proof (cases "map_of d k")
        case None
        then show ?thesis using grows by blast
      next
        case (Some t)
        then have "t + pruneAge < event_time e"
          using none by (simp add: map_of_prune [OF distinct] old Prune split: if_splits)
        then show ?thesis
          using known [OF Some] by force
      qed
    qed
  next
    case (Check now tid sid p)
    have run: "snd (dedup_run (es @ [e])) = snd (should_forward now tid sid p d)"
      by (simp add: dedup_run_snoc r Check case_prod_beta Let_def)
    show ?thesis
    proof (cases "fst (should_forward now tid sid p d) \<and> sid \<noteq> []")
      case True
      let ?k = "dedup_key tid sid p"
      have d': "snd (should_forward now tid sid p d) = AList.update ?k now d"
        by (simp add: should_forward_update True)
      have fwd: "forwarded_at (es @ [e]) k = forwarded_at es k \<union> (if k = ?k then {now} else {})" for k
        using True by (auto simp: forwarded_at_snoc Check r)
      show ?thesis
        unfolding remembers_def run d' fwd
      proof (intro conjI allI impI)
        show "distinct (map fst (AList.update ?k now d))"
          using distinct by (rule distinct_update)
      next
        fix k t
        assume t: "map_of (AList.update ?k now d) k = Some t"
        show "t \<in> forwarded_at es k \<union> (if k = ?k then {now} else {})"
          using t known [of k t] by (cases "k = ?k") (simp_all add: update_conv')
        show "\<forall>t' \<in> forwarded_at es k \<union> (if k = ?k then {now} else {}). t' \<le> t"
          using t known [of k t] past [of _ k] by (cases "k = ?k") (auto simp: update_conv' Check)
      next
        fix k
        assume "map_of (AList.update ?k now d) k = None"
        then have "k \<noteq> ?k" "map_of d k = None"
          by (auto simp: update_conv' split: if_splits)
        then show "\<forall>t' \<in> forwarded_at es k \<union> (if k = ?k then {now} else {}).
            \<exists>x \<in> set (es @ [e]). t' + pruneAge < event_time x"
          using grows by simp
      qed
    next
      case False
      have d': "snd (should_forward now tid sid p d) = d"
        by (simp only: should_forward_update False if_False)
      have fwd: "forwarded_at (es @ [e]) k = forwarded_at es k" for k
        using False by (auto simp: forwarded_at_snoc Check r)
      show ?thesis
        unfolding remembers_def run d' fwd
        using distinct known grows by blast
    qed
  qed
qed

lemma dedup_run_take: "i \<le> length es \<Longrightarrow> fst (dedup_run (take i es)) = take i (fst (dedup_run es))"
proof (induction es rule: rev_induct)
  case (snoc e es)
  then show ?case
    using dedup_run_length [of es]
    by (cases "i = Suc (length es)") (simp_all add: dedup_run_snoc case_prod_beta Let_def)
qed (simp add: dedup_run_def)

text \<open>
  C35: The relay forwards a message unless it has just forwarded the same one.  In any sequence of
  checks and prunes with times that do not go back, a check without a span is forwarded, and any
  other is forwarded exactly when no check with the same trace, span and payload digest was
  forwarded within the last 100 ms.  So a duplicate does not extend the window, the pruner changes
  no decision, and messages that were suppressed suppress nothing.
\<close>

theorem relay_dedup_spec:
  assumes "sorted (map event_time es)" "i < length es" "es ! i = Check now tid sid p"
  shows "fst (dedup_run es) ! i \<longleftrightarrow>
    (sid = [] \<or> (\<forall>t \<in> forwarded_at (take i es) (dedup_key tid sid p). t + dedupWindow \<le> now))"
proof -
  let ?before = "take i es"
  have split: "take (Suc i) es = ?before @ [Check now tid sid p]"
    using assms(2,3) by (simp add: take_Suc_conv_app_nth)
  have "sorted (map event_time (take (Suc i) es))"
    using assms(1) by (simp add: take_map [symmetric] sorted_wrt_take)
  then have sorted: "sorted (map event_time (?before @ [Check now tid sid p]))"
    by (simp only: split)
  then have "remembers ?before (snd (dedup_run ?before))"
    by (intro remembers_run) (simp add: sorted_append)
  moreover have "fst (dedup_run es) ! i = fst (dedup_run (take (Suc i) es)) ! i"
    using assms(2) by (simp add: dedup_run_take)
  then have "fst (dedup_run es) ! i = fst (should_forward now tid sid p (snd (dedup_run ?before)))"
    using assms(2) dedup_run_length [of ?before]
    by (simp add: split dedup_run_snoc case_prod_beta Let_def nth_append)
  ultimately show ?thesis
    using should_forward_iff [OF _ sorted] by (cases "sid = []") (simp_all add: should_forward_def)
qed


definition sample_checks :: "dedup_event list" where
  "sample_checks = [Check 0 ''t'' ''s'' ''{}'', Check 99999999 ''t'' ''s'' ''{}'', Check 100000000 ''t'' ''s'' ''{}'']"

theorem relay_dedup_spec_witness:
  "fst (dedup_run sample_checks) ! 0 \<and> \<not> fst (dedup_run sample_checks) ! 1 \<and> fst (dedup_run sample_checks) ! 2"
proof -
  have es: "sorted (map event_time sample_checks)" "length sample_checks = 3"
    by (simp_all add: sample_checks_def)
  have fwd0: "forwarded_at [] k = {}" for k
    by (simp add: forwarded_at_def)
  have first: "should_forward 0 ''t'' ''s'' ''{}'' [] = (True, [(dedup_key ''t'' ''s'' ''{}'', 0)])"
    by (simp add: should_forward_def)
  have second: "fst (should_forward 99999999 ''t'' ''s'' ''{}'' [(dedup_key ''t'' ''s'' ''{}'', 0)]) = False"
    by (simp add: should_forward_def time_sub_def dedupWindow_def)
  have fwd1: "forwarded_at [Check 0 ''t'' ''s'' ''{}''] (dedup_key ''t'' ''s'' ''{}'') = {0}"
    using forwarded_at_snoc [of "[]" "Check 0 ''t'' ''s'' ''{}''"] by (simp add: fwd0 first dedup_run_def)
  have fwd2: "forwarded_at [Check 0 ''t'' ''s'' ''{}'', Check 99999999 ''t'' ''s'' ''{}''] (dedup_key ''t'' ''s'' ''{}'') = {0}"
    using forwarded_at_snoc [of "[Check 0 ''t'' ''s'' ''{}'']" "Check 99999999 ''t'' ''s'' ''{}''"]
    by (simp add: fwd1 first second dedup_run_def)
  have "fst (dedup_run sample_checks) ! 0"
    using relay_dedup_spec [OF es(1), of 0 0 "''t''" "''s''" "''{}''"] by (simp add: sample_checks_def fwd0)
  moreover have "\<not> fst (dedup_run sample_checks) ! 1"
    using relay_dedup_spec [OF es(1), of 1 99999999 "''t''" "''s''" "''{}''"]
    by (simp add: sample_checks_def fwd1 dedupWindow_def)
  moreover have "fst (dedup_run sample_checks) ! 2"
    using relay_dedup_spec [OF es(1), of 2 100000000 "''t''" "''s''" "''{}''"]
    by (simp add: sample_checks_def fwd2 dedupWindow_def numeral_2_eq_2)
  ultimately show ?thesis by blast
qed

text \<open>
  The filter cannot tell the broker's double delivery from an application that publishes twice: the
  second message of one span with the same payload is not reported.
\<close>

lemma repeated_publish_suppressed:
  assumes "sid \<noteq> []" "t \<le> t'" "t' < t + dedupWindow"
  shows "fst (dedup_run [Check t tid sid p, Check t' tid sid p]) = [True, False]"
  using assms time_sub_less_iff [of dedupWindow t' t]
  by (simp add: dedup_run_def should_forward_def dedupWindow_def)

text \<open>The reconnect delay only grows: a session that lasted does not reset it.\<close>

lemma next_delay_grows: "0 < delay \<Longrightarrow> delay \<le> next_delay maxDelay delay"
  by (simp add: next_delay_def)

section \<open>A recorded message\<close>



















text \<open>A broker that refuses a message keeps it from those behind it: they are never sent it.\<close>

lemma publish_to_prefix:
  "publish_to pub accepts bs = (sent, e) \<Longrightarrow> map fst sent = takeWhile accepts bs \<and> (e = None \<longleftrightarrow> list_all accepts bs)"
  by (induction bs arbitrary: sent e) (auto split: if_splits prod.splits)









text \<open>A message is given back to the broker only when it is sampled and could not be recorded.\<close>

lemma record_delivery_settles:
  "fst (record_delivery io c sinkOk msg u) = Requeued \<longleftrightarrow>
     \<not> sinkOk \<and> (\<exists>r. try_inbound io (dl_headers msg) = Some r \<and> sampled_in (rc_trace_id r) (rb_sample c))"
  by (auto simp: record_delivery_def split: option.splits)

end
