(* ===== verification/MonarchTypes.thy ===== *)
theory MonarchTypes
  imports GoStrings
begin

text \<open>
  The resources of \<^verbatim>\<open>pipeline/monarch/api/v1alpha1/shadowtest_types.go\<close>, the enumerations of
  \<^verbatim>\<open>pipeline/pkg/monarchpb\<close> and the driver and dependency tables of
  \<^verbatim>\<open>pipeline/pkg/shadowspec\<close>.  Resource requirements of containers, which no code here looks
  into, are left out, and so is the transition time of a condition.
\<close>

section \<open>The specification of a test\<close>

text \<open>A reference to a secret is its name.  An \<^verbatim>\<open>int32\<close> is an integer; where sums are formed the width is written out.\<close>

record amqp_input =
  ai_prod_url :: string
  ai_secret :: "string option"
  ai_exchange :: string
  ai_exchange_type :: string
  ai_routing_key :: string
  ai_target :: string

record input_spec =
  in_port :: int
  in_driver :: string
  in_amqp :: "amqp_input option"
  in_addon :: string

record dependency_spec =
  dp_name :: string
  dp_type :: string
  dp_image :: string
  dp_port :: int
  dp_env :: string

record storage_config =
  sg_type :: string
  sg_bucket :: string
  sg_endpoint :: string
  sg_region :: string
  sg_secret :: "string option"
  sg_retention :: string

text \<open>\<^verbatim>\<open>IgrisSpec\<close>, \<^verbatim>\<open>IgrisRabbitMQSpec\<close> and \<^verbatim>\<open>EgressRelayRabbitMQSpec\<close> have the same fields.\<close>

record workload_spec =
  wk_image :: string
  wk_replicas :: "int option"

record shadow_test_spec =
  spec_target :: string
  spec_target_ns :: string
  spec_old_image :: string
  spec_new_image :: string
  spec_service_port :: int
  spec_app_port :: int
  spec_beru_timeout :: string
  spec_inputs :: "input_spec list"
  spec_igris :: "workload_spec option"
  spec_igris_rabbit :: "workload_spec option"
  spec_relay :: "workload_spec option"
  spec_sample :: int
  spec_max_qps :: int
  spec_beru_image :: "string option"
  spec_shop_image :: "string option"
  spec_soldier_image :: "string option"
  spec_dependencies :: "dependency_spec list"
  spec_mode :: string
  spec_session :: string
  spec_storage :: "storage_config option"

section \<open>The status of a test\<close>

text \<open>The readiness of the roles is a Go map; a nil map is empty.\<close>

record component_status =
  cs_igris :: bool
  cs_shop :: bool
  cs_beru :: bool
  cs_kaisel :: bool
  cs_amqp :: bool
  cs_drivers :: "string list"
  cs_roles :: "(string \<times> bool) list"
  cs_target :: string

record condition =
  cd_type :: string
  cd_status :: bool
  cd_reason :: string
  cd_message :: string
  cd_generation :: int

record shadow_test_status =
  sta_phase :: string
  sta_message :: string
  sta_namespace :: string
  sta_capture_targets :: "string list"
  sta_kaisel_phase :: string
  sta_igris_endpoint :: string
  sta_amqp_queue :: string
  sta_igris_rabbit_phase :: string
  sta_session :: string
  sta_execution :: string
  sta_replay_state :: string
  sta_boot_step :: string
  sta_components :: component_status
  sta_conditions :: "condition list"

record shadow_cr =
  st_name :: string
  st_namespace :: string
  st_uid :: string
  st_generation :: int
  st_deleting :: bool
  st_finalizers :: "string list"
  st_spec :: shadow_test_spec
  st_status :: shadow_test_status

definition OpRecord :: string where "OpRecord = ''record''"
definition OpReplay :: string where "OpReplay = ''replay''"

definition operating_mode :: "shadow_cr \<Rightarrow> string" where
  "operating_mode st =
     (let m = trim_space (to_lower (spec_mode (st_spec st))) in if m = [] then OpRecord else m)"

definition PhaseProgressing :: string where "PhaseProgressing = ''Progressing''"
definition PhaseReady :: string where "PhaseReady = ''Ready''"
definition PhaseFailed :: string where "PhaseFailed = ''Failed''"
definition PhaseDeleting :: string where "PhaseDeleting = ''Deleting''"
definition PhaseDeleted :: string where "PhaseDeleted = ''Deleted''"

definition CapturePhaseReady :: string where "CapturePhaseReady = ''Ready''"
definition CapturePhaseDegraded :: string where "CapturePhaseDegraded = ''Degraded''"
definition CapturePhaseDisabled :: string where "CapturePhaseDisabled = ''Disabled''"

definition BootStepValidating :: string where "BootStepValidating = ''ValidatingInputs''"
definition BootStepProvisioningSinks :: string where "BootStepProvisioningSinks = ''ProvisioningSinks''"
definition BootStepActivatingEgressTap :: string where "BootStepActivatingEgressTap = ''ActivatingEgressTap''"
definition BootStepBindingAMQP :: string where "BootStepBindingAMQP = ''BindingAMQP''"
definition BootStepProvisioningShadow :: string where "BootStepProvisioningShadow = ''ProvisioningShadow''"
definition BootStepReady :: string where "BootStepReady = ''Ready''"
definition BootStepFailed :: string where "BootStepFailed = ''Failed''"

lemmas phase_defs = PhaseProgressing_def PhaseReady_def PhaseFailed_def PhaseDeleting_def PhaseDeleted_def
lemmas capture_phase_defs = CapturePhaseReady_def CapturePhaseDegraded_def CapturePhaseDisabled_def
lemmas boot_step_defs = BootStepValidating_def BootStepProvisioningSinks_def BootStepActivatingEgressTap_def
  BootStepBindingAMQP_def BootStepProvisioningShadow_def BootStepReady_def BootStepFailed_def

section \<open>The wire enumerations and roles (pkg/monarchpb)\<close>

datatype wire_phase = PHASE_UNSPECIFIED | PHASE_PROGRESSING | PHASE_READY | PHASE_FAILED | PHASE_DELETING | PHASE_DELETED
datatype wire_mode = MODE_UNSPECIFIED | MODE_RECORD | MODE_REPLAY
datatype wire_capture = CAPTURE_UNSPECIFIED | CAPTURE_READY | CAPTURE_DEGRADED | CAPTURE_DISABLED
datatype wire_step = STEP_UNSPECIFIED | STEP_VALIDATING_INPUTS | STEP_PROVISIONING_SINKS | STEP_ACTIVATING_EGRESS_TAP
  | STEP_BINDING_AMQP | STEP_PROVISIONING_SHADOW | STEP_READY | STEP_FAILED

definition RoleControlA :: string where "RoleControlA = ''control-a''"
definition RoleControlB :: string where "RoleControlB = ''control-b''"
definition RoleCandidate :: string where "RoleCandidate = ''candidate''"
definition ShadowRoles :: "string list" where "ShadowRoles = [RoleControlA, RoleControlB, RoleCandidate]"

lemmas role_defs = RoleControlA_def RoleControlB_def RoleCandidate_def

record status_update =
  su_test :: string
  su_namespace :: string
  su_phase :: wire_phase
  su_step :: wire_step
  su_session :: string
  su_execution :: string
  su_replay_state :: string
  su_mode :: wire_mode
  su_message :: string
  su_kaisel :: wire_capture
  su_components :: component_status

section \<open>Drivers and dependencies (pkg/shadowspec)\<close>

definition DriverHTTPRequest :: string where "DriverHTTPRequest = ''http_request''"
definition DriverRabbitMQMessage :: string where "DriverRabbitMQMessage = ''rabbitmq_message''"

definition contains_driver :: "string list \<Rightarrow> string \<Rightarrow> bool" where
  "contains_driver drivers driver =
     (let want = to_lower (trim_space driver)
      in want \<noteq> [] \<and> list_ex (\<lambda>d. to_lower (trim_space d) = want) drivers)"

record dependency_kind =
  dk_type :: string
  dk_aliases :: "string list"
  dk_image :: string
  dk_port :: int
  dk_env :: string
  dk_label :: string

definition dependency_kinds :: "dependency_kind list" where
  "dependency_kinds =
     [\<lparr>dk_type = ''rabbitmq'', dk_aliases = [], dk_image = ''rabbitmq:3-management-alpine'', dk_port = 5672,
       dk_env = ''AMQP_URL'', dk_label = ''RabbitMQ''\<rparr>,
      \<lparr>dk_type = ''mongodb'', dk_aliases = [''mongo''], dk_image = ''mongo:6.0'', dk_port = 27017,
       dk_env = ''MONGO_URL'', dk_label = ''MongoDB''\<rparr>,
      \<lparr>dk_type = ''redis'', dk_aliases = [], dk_image = ''redis:7-alpine'', dk_port = 6379,
       dk_env = ''REDIS_ADDR'', dk_label = ''Redis''\<rparr>,
      \<lparr>dk_type = ''postgres'', dk_aliases = [''postgresql''], dk_image = ''postgres:16-alpine'', dk_port = 5432,
       dk_env = ''PG_DSN'', dk_label = ''PostgreSQL''\<rparr>]"

text \<open>\<^verbatim>\<open>LookupDependency\<close>: by type or alias, in any case; the first kind that matches.\<close>

definition lookup_dependency :: "string \<Rightarrow> dependency_kind option" where
  "lookup_dependency depType =
     (let key = to_lower (trim_space depType)
      in List.find (\<lambda>k. to_lower (dk_type k) = key \<or> list_ex (\<lambda>a. to_lower a = key) (dk_aliases k)) dependency_kinds)"

definition resolve_dependency_defaults :: "string \<Rightarrow> string \<Rightarrow> int \<Rightarrow> string \<times> int" where
  "resolve_dependency_defaults depType img port =
     (case lookup_dependency depType of
        None \<Rightarrow> (img, port)
      | Some k \<Rightarrow> (if img = [] then dk_image k else img, if port = 0 then dk_port k else port))"

end
