(* ===== verification/FanOut.thy ===== *)
theory FanOut
  imports Prelude
begin

text \<open>
  Hubs that fan values out to clients over bounded channels: the state and the operations that the
  hubs of Tusk share (\<^verbatim>\<open>pipeline/tusk/pkg/server\<close>), and the contract under which a client that
  keeps up sees what the hub has cached.
\<close>

section \<open>Buffered channels\<close>

text \<open>
  A buffered channel and whether it is closed.  A send that would block is given up, as in
  \<^verbatim>\<open>select { case ch <- v: default: }\<close>; on a closed channel it panics (\<^const>\<open>None\<close>), with or
  without the default case.  A receive takes the oldest value, also from a closed channel.
\<close>

record 'a chan =
  ch_buf :: "'a list"
  ch_closed :: bool

definition new_chan :: "'a chan" where
  "new_chan = \<lparr>ch_buf = [], ch_closed = False\<rparr>"

definition try_send :: "nat \<Rightarrow> 'a \<Rightarrow> 'a chan \<Rightarrow> 'a chan option" where
  "try_send cap v c =
     (if ch_closed c then None
      else Some (if length (ch_buf c) < cap then c\<lparr>ch_buf := ch_buf c @ [v]\<rparr> else c))"

definition close_chan :: "'a chan \<Rightarrow> 'a chan" where
  "close_chan c = c\<lparr>ch_closed := True\<rparr>"

text \<open>A filter is a pair of names; an empty one matches anything.\<close>

definition matches_filter :: "string \<times> string \<Rightarrow> string \<times> string \<Rightarrow> bool" where
  "matches_filter f k \<longleftrightarrow> (fst f = [] \<or> fst f = fst k) \<and> (snd f = [] \<or> snd f = snd k)"

section \<open>Registered clients and their channels\<close>

text \<open>
  Both hubs keep a cache, the filters of the registered clients, and their channels.  A channel
  outlives its registration: a broadcast that has collected it still sends to it.
\<close>

definition clientBuffer :: nat where "clientBuffer = 8"

record ('k, 'g) fan_hub =
  fh_latest :: "('k \<times> 'g) list"
  fh_clients :: "(nat \<times> string \<times> string) list"
  fh_chans :: "(nat \<times> 'g chan) list"
  fh_next :: nat

definition new_fan_hub :: "('k, 'g) fan_hub" where
  "new_fan_hub = \<lparr>fh_latest = [], fh_clients = [], fh_chans = [], fh_next = 0\<rparr>"

definition fan_collect :: "(string \<times> string \<Rightarrow> bool) \<Rightarrow> ('k, 'g) fan_hub \<Rightarrow> nat list" where
  "fan_collect wants h = map fst (filter (\<lambda>(i, f). wants f) (fh_clients h))"

text \<open>One send of a broadcast, made without the lock; \<^const>\<open>None\<close> is the panic.\<close>

definition fan_send :: "'g \<Rightarrow> nat \<Rightarrow> ('k, 'g) fan_hub \<Rightarrow> ('k, 'g) fan_hub option" where
  "fan_send g i h =
     (case map_of (fh_chans h) i of
        None \<Rightarrow> Some h
      | Some c \<Rightarrow> map_option (\<lambda>c'. h\<lparr>fh_chans := AList.update i c' (fh_chans h)\<rparr>) (try_send clientBuffer g c))"

fun fan_send_all :: "'g \<Rightarrow> nat list \<Rightarrow> ('k, 'g) fan_hub \<Rightarrow> ('k, 'g) fan_hub option" where
  "fan_send_all g [] h = Some h"
| "fan_send_all g (i # is) h = (case fan_send g i h of None \<Rightarrow> None | Some h' \<Rightarrow> fan_send_all g is h')"

definition fan_register :: "string \<times> string \<Rightarrow> ('k, 'g) fan_hub \<Rightarrow> nat \<times> ('k, 'g) fan_hub" where
  "fan_register f h =
     (fh_next h,
      h\<lparr>fh_clients := fh_clients h @ [(fh_next h, f)], fh_chans := fh_chans h @ [(fh_next h, new_chan)],
        fh_next := fh_next h + 1\<rparr>)"

text \<open>The function \<^verbatim>\<open>Subscribe\<close> returns: a second call does nothing.\<close>

definition fan_unsubscribe :: "nat \<Rightarrow> ('k, 'g) fan_hub \<Rightarrow> ('k, 'g) fan_hub" where
  "fan_unsubscribe i h =
     (case map_of (fh_clients h) i of
        None \<Rightarrow> h
      | Some f \<Rightarrow>
          h\<lparr>fh_clients := filter (\<lambda>(j, f). j \<noteq> i) (fh_clients h),
            fh_chans := map (\<lambda>(j, c). if j = i then (j, close_chan c) else (j, c)) (fh_chans h)\<rparr>)"

definition fan_receive :: "nat \<Rightarrow> ('k, 'g) fan_hub \<Rightarrow> ('g \<times> ('k, 'g) fan_hub) option" where
  "fan_receive i h =
     (case map_of (fh_chans h) i of
        None \<Rightarrow> None
      | Some c \<Rightarrow>
          (case ch_buf c of
             [] \<Rightarrow> None
           | g # gs \<Rightarrow> Some (g, h\<lparr>fh_chans := AList.update i (c\<lparr>ch_buf := gs\<rparr>) (fh_chans h)\<rparr>)))"

section \<open>A hub at work\<close>

text \<open>
  One goroutine broadcasts: it collects the clients of a frame and then sends to one after the other,
  while browsers subscribe, leave and read.  Of each client the state records what it was sent before
  streaming and what it has read since, and which clients a full channel cost a frame.
\<close>

datatype 'g fan_event = Broadcast 'g | SendNext | Join "string \<times> string" | Leave nat | Read nat

record ('k, 'g) fan_run =
  fr_hub :: "('k, 'g) fan_hub"
  fr_flight :: "('g \<times> nat list) option"
  fr_seen :: "(nat \<times> 'g list) list"
  fr_dropped :: "nat list"

definition fan_start :: "('k, 'g) fan_run" where
  "fan_start = \<lparr>fr_hub = new_fan_hub, fr_flight = None, fr_seen = [], fr_dropped = []\<rparr>"

definition chan_of :: "nat \<Rightarrow> ('k, 'g) fan_hub \<Rightarrow> 'g list" where
  "chan_of i h = (case map_of (fh_chans h) i of None \<Rightarrow> [] | Some c \<Rightarrow> ch_buf c)"

type_synonym ('k, 'g) start_op = "'g \<Rightarrow> ('k, 'g) fan_hub \<Rightarrow> nat list \<times> ('k, 'g) fan_hub"
type_synonym ('k, 'g) join_op = "string \<times> string \<Rightarrow> ('k, 'g) fan_hub \<Rightarrow> nat \<times> 'g list \<times> ('k, 'g) fan_hub"

text \<open>\<^const>\<open>None\<close> is the panic of a send on a closed channel; a broadcast waits for the one before it.\<close>

fun fan_step ::
  "('k, 'g) start_op \<Rightarrow> ('k, 'g) join_op \<Rightarrow> 'g fan_event \<Rightarrow> ('k, 'g) fan_run \<Rightarrow> ('k, 'g) fan_run option" where
  "fan_step start join (Broadcast g) s =
     (if fr_flight s \<noteq> None then Some s
      else let (is, h) = start g (fr_hub s) in Some (s\<lparr>fr_hub := h, fr_flight := Some (g, is)\<rparr>))"
| "fan_step start join SendNext s =
     (case fr_flight s of
        None \<Rightarrow> Some s
      | Some (g, []) \<Rightarrow> Some (s\<lparr>fr_flight := None\<rparr>)
      | Some (g, i # is) \<Rightarrow>
          map_option (\<lambda>h. s\<lparr>fr_hub := h, fr_flight := Some (g, is),
                          fr_dropped := (if clientBuffer \<le> length (chan_of i (fr_hub s)) then i # fr_dropped s
                                         else fr_dropped s)\<rparr>)
            (fan_send g i (fr_hub s)))"
| "fan_step start join (Join f) s =
     (let (i, snapshot, h) = join f (fr_hub s)
      in Some (s\<lparr>fr_hub := h, fr_seen := AList.update i snapshot (fr_seen s)\<rparr>))"
| "fan_step start join (Leave i) s = Some (s\<lparr>fr_hub := fan_unsubscribe i (fr_hub s)\<rparr>)"
| "fan_step start join (Read i) s =
     (case fan_receive i (fr_hub s) of
        None \<Rightarrow> Some s
      | Some (g, h) \<Rightarrow> Some (s\<lparr>fr_hub := h, fr_seen := go_append (fr_seen s) i g\<rparr>))"

inductive fan_reaches ::
  "('k, 'g) start_op \<Rightarrow> ('k, 'g) join_op \<Rightarrow> ('g fan_event \<Rightarrow> bool) \<Rightarrow> ('k, 'g) fan_run \<Rightarrow> bool"
  for start join allowed where
  init: "fan_reaches start join allowed fan_start"
| step: "fan_reaches start join allowed s \<Longrightarrow> allowed e \<Longrightarrow> fan_step start join e s = Some s' \<Longrightarrow>
    fan_reaches start join allowed s'"

fun fan_exec ::
  "('k, 'g) start_op \<Rightarrow> ('k, 'g) join_op \<Rightarrow> 'g fan_event list \<Rightarrow> ('k, 'g) fan_run \<Rightarrow> ('k, 'g) fan_run option" where
  "fan_exec start join [] s = Some s"
| "fan_exec start join (e # es) s =
     (case fan_step start join e s of None \<Rightarrow> None | Some s' \<Rightarrow> fan_exec start join es s')"

lemma fan_exec_reaches:
  "fan_reaches start join allowed s \<Longrightarrow> list_all allowed es \<Longrightarrow> fan_exec start join es s = Some s' \<Longrightarrow>
     fan_reaches start join allowed s'"
  by (induction es arbitrary: s) (auto split: option.splits intro: fan_reaches.step)

text \<open>What is on its way to a client: its channel, and the frame in flight when its turn is still to come.\<close>

definition in_flight_for :: "nat \<Rightarrow> ('k, 'g) fan_run \<Rightarrow> 'g list" where
  "in_flight_for i s = (case fr_flight s of Some (g, is) \<Rightarrow> if i \<in> set is then [g] else [] | None \<Rightarrow> [])"

definition due :: "nat \<Rightarrow> ('k, 'g) fan_run \<Rightarrow> 'g list" where
  "due i s = chan_of i (fr_hub s) @ in_flight_for i s"

section \<open>Bookkeeping\<close>

definition fan_wf :: "('k, 'g) fan_run \<Rightarrow> bool" where
  "fan_wf s \<longleftrightarrow>
     distinct (map fst (fh_clients (fr_hub s))) \<and>
     (\<forall>i. map_of (fh_clients (fr_hub s)) i = None \<or>
        (\<exists>c. map_of (fh_chans (fr_hub s)) i = Some c \<and> \<not> ch_closed c)) \<and>
     (\<forall>i c. map_of (fh_chans (fr_hub s)) i = Some c \<longrightarrow> i < fh_next (fr_hub s) \<and> length (ch_buf c) \<le> clientBuffer) \<and>
     (\<forall>g is. fr_flight s = Some (g, is) \<longrightarrow> distinct is \<and> (\<forall>i \<in> set is. map_of (fh_chans (fr_hub s)) i \<noteq> None))"

lemma fan_wf_client:
  assumes "fan_wf s" "(i, f) \<in> set (fh_clients (fr_hub s))"
  shows "map_of (fh_clients (fr_hub s)) i = Some f" "\<exists>c. map_of (fh_chans (fr_hub s)) i = Some c \<and> \<not> ch_closed c"
proof -
  show "map_of (fh_clients (fr_hub s)) i = Some f"
    using assms by (simp add: fan_wf_def)
  then show "\<exists>c. map_of (fh_chans (fr_hub s)) i = Some c \<and> \<not> ch_closed c"
    using assms(1) unfolding fan_wf_def by (metis option.distinct(1))
qed

lemma try_send_facts:
  assumes "try_send cap v c = Some c'"
  shows "\<not> ch_closed c" "\<not> ch_closed c'" "ch_buf c' = (if length (ch_buf c) < cap then ch_buf c @ [v] else ch_buf c)"
  using assms by (auto simp: try_send_def split: if_splits)

lemma fan_send_cases:
  assumes "fan_send g i h = Some h'" "map_of (fh_chans h) i \<noteq> None"
  obtains c c' where "map_of (fh_chans h) i = Some c" "try_send clientBuffer g c = Some c'"
    "h' = h\<lparr>fh_chans := AList.update i c' (fh_chans h)\<rparr>"
  using assms by (auto simp: fan_send_def simp del: map_of_eq_Some_iff)

lemma fan_wf_start: "fan_wf fan_start"
  by (simp add: fan_wf_def fan_start_def new_fan_hub_def)

lemma fan_wf_collect:
  assumes wf: "fan_wf s" and "fr_flight s = None"
  shows "fan_wf (s\<lparr>fr_hub := fr_hub s\<lparr>fh_latest := L\<rparr>, fr_flight := Some (g, fan_collect w (fr_hub s))\<rparr>)"
proof -
  have "\<forall>i \<in> set (fan_collect w (fr_hub s)). map_of (fh_chans (fr_hub s)) i \<noteq> None"
    using fan_wf_client(2) [OF wf] by (fastforce simp: fan_collect_def)
  moreover have "distinct (fan_collect w (fr_hub s))"
    using wf by (simp add: fan_collect_def fan_wf_def distinct_map_filter)
  ultimately show ?thesis
    using wf unfolding fan_wf_def by simp
qed

lemma fan_wf_send:
  assumes wf: "fan_wf s" and flight: "fr_flight s = Some (g, i # is)" and send: "fan_send g i (fr_hub s) = Some h"
  shows "fan_wf (s\<lparr>fr_hub := h, fr_flight := Some (g, is), fr_dropped := D\<rparr>)"
proof -
  have i: "map_of (fh_chans (fr_hub s)) i \<noteq> None"
    using wf flight unfolding fan_wf_def by force
  obtain c c' where c: "map_of (fh_chans (fr_hub s)) i = Some c" "try_send clientBuffer g c = Some c'"
      and h: "h = fr_hub s\<lparr>fh_chans := AList.update i c' (fh_chans (fr_hub s))\<rparr>"
    by (rule fan_send_cases [OF send i])
  have "i < fh_next (fr_hub s)" "length (ch_buf c') \<le> clientBuffer" "\<not> ch_closed c'"
    using wf c(1) try_send_facts [OF c(2)] unfolding fan_wf_def by auto
  then show ?thesis
    using wf flight unfolding fan_wf_def h by (simp add: update_conv' del: map_of_eq_Some_iff)
qed

lemma fan_wf_register:
  assumes wf: "fan_wf s"
  shows "fan_wf (s\<lparr>fr_hub := snd (fan_register f (fr_hub s)), fr_seen := S\<rparr>)"
proof -
  let ?n = "fh_next (fr_hub s)"
  have fresh: "map_of (fh_chans (fr_hub s)) ?n = None"
    using wf unfolding fan_wf_def by (metis less_irrefl not_Some_eq)
  then have "map_of (fh_clients (fr_hub s)) ?n = None"
    using wf unfolding fan_wf_def by (metis not_Some_eq)
  then have "?n \<notin> fst ` set (fh_clients (fr_hub s))"
    by (simp add: map_of_eq_None_iff)
  then show ?thesis
    using wf fresh unfolding fan_wf_def
    by (auto simp: fan_register_def new_chan_def map_add_def less_Suc_eq fun_upd_def split: option.splits if_splits
        simp del: map_of_eq_Some_iff) (metis option.distinct(1) option.inject)+
qed

lemma map_of_close: "map_of (map (\<lambda>(j, c). if j = i then (j, close_chan c) else (j, c)) m) k =
    (if k = i then map_option close_chan (map_of m k) else map_of m k)"
  by (induction m) auto

lemma map_of_filter_other: "map_of (filter (\<lambda>(j, f). j \<noteq> i) m) k = (if k = i then None else map_of m k)"
  by (induction m) auto

lemma fan_wf_unsubscribe:
  assumes wf: "fan_wf s"
  shows "fan_wf (s\<lparr>fr_hub := fan_unsubscribe i (fr_hub s)\<rparr>)"
  using wf unfolding fan_wf_def fan_unsubscribe_def
  by (auto simp: map_of_close map_of_filter_other distinct_map_filter close_chan_def split: option.splits if_splits
      simp del: map_of_eq_Some_iff)

lemma fan_receive_cases:
  assumes "fan_receive i h = Some (g, h')"
  obtains c gs where "map_of (fh_chans h) i = Some c" "ch_buf c = g # gs"
    "h' = h\<lparr>fh_chans := AList.update i (c\<lparr>ch_buf := gs\<rparr>) (fh_chans h)\<rparr>"
  using assms by (auto simp: fan_receive_def split: option.splits list.splits simp del: map_of_eq_Some_iff)

lemma fan_wf_receive:
  assumes wf: "fan_wf s" and r: "fan_receive i (fr_hub s) = Some (g, h)"
  shows "fan_wf (s\<lparr>fr_hub := h, fr_seen := S\<rparr>)"
proof -
  obtain c gs where c: "map_of (fh_chans (fr_hub s)) i = Some c" "ch_buf c = g # gs"
      and h: "h = fr_hub s\<lparr>fh_chans := AList.update i (c\<lparr>ch_buf := gs\<rparr>) (fh_chans (fr_hub s))\<rparr>"
    by (rule fan_receive_cases [OF r])
  have "i < fh_next (fr_hub s)" "length gs \<le> clientBuffer"
    using wf c unfolding fan_wf_def by force+
  then show ?thesis
    using wf c unfolding fan_wf_def h
    by (auto simp: update_conv' split: if_splits simp del: map_of_eq_Some_iff) (metis option.inject option.distinct(1))+
qed

section \<open>What a client sees\<close>

text \<open>
  The view of a client is what applying the frames it was sent one after the other leaves.  The
  contract of a hub: a broadcast applies its frame to the cache and collects the clients whose filter
  matches, a subscription hands out what of the cache its filter shows, and a frame touches what a
  filter shows only if the filter matches it.
\<close>

abbreviation apply_all :: "('g \<Rightarrow> ('k \<rightharpoonup> 'g) \<Rightarrow> ('k \<rightharpoonup> 'g)) \<Rightarrow> 'g list \<Rightarrow> 'k \<rightharpoonup> 'g" where
  "apply_all put gs \<equiv> foldl (\<lambda>m g. put g m) Map.empty gs"

definition shown :: "('g \<Rightarrow> ('k \<rightharpoonup> 'g) \<Rightarrow> ('k \<rightharpoonup> 'g)) \<Rightarrow> nat \<Rightarrow> ('k, 'g) fan_run \<Rightarrow> 'k \<rightharpoonup> 'g" where
  "shown put i s = apply_all put (go_get [] (fr_seen s) i @ due i s)"

definition fan_views ::
  "('g \<Rightarrow> ('k \<rightharpoonup> 'g) \<Rightarrow> ('k \<rightharpoonup> 'g)) \<Rightarrow> (string \<times> string \<Rightarrow> 'k set) \<Rightarrow> ('k, 'g) fan_run \<Rightarrow> bool" where
  "fan_views put visible s \<longleftrightarrow>
     (\<forall>i f. map_of (fh_clients (fr_hub s)) i = Some f \<longrightarrow> i \<in> set (fr_dropped s) \<or>
        shown put i s = map_of (fh_latest (fr_hub s)) |` visible f)"

lemma fan_viewsI:
  "(\<And>i f. map_of (fh_clients (fr_hub s)) i = Some f \<Longrightarrow> i \<notin> set (fr_dropped s) \<Longrightarrow>
      shown put i s = map_of (fh_latest (fr_hub s)) |` visible f) \<Longrightarrow> fan_views put visible s"
  unfolding fan_views_def by blast

lemma fan_viewsD:
  "fan_views put visible s \<Longrightarrow> map_of (fh_clients (fr_hub s)) i = Some f \<Longrightarrow> i \<notin> set (fr_dropped s) \<Longrightarrow>
      shown put i s = map_of (fh_latest (fr_hub s)) |` visible f"
  unfolding fan_views_def by blast

lemma fan_wf_flight:
  "fan_wf s \<Longrightarrow> fr_flight s = Some (g, is) \<Longrightarrow> i \<in> set is \<Longrightarrow> map_of (fh_chans (fr_hub s)) i \<noteq> None"
  unfolding fan_wf_def by blast

locale cached_fan_out =
  fixes start :: "('k, 'g) start_op" and join :: "('k, 'g) join_op"
    and ids :: "'g \<Rightarrow> string \<times> string"
    and put :: "'g \<Rightarrow> ('k \<rightharpoonup> 'g) \<Rightarrow> ('k \<rightharpoonup> 'g)"
    and visible :: "string \<times> string \<Rightarrow> 'k set"
    and cache_ok :: "('k \<times> 'g) list \<Rightarrow> bool"
    and frame_ok :: "'g \<Rightarrow> bool" and filter_ok :: "string \<times> string \<Rightarrow> bool"
  assumes cache_nil: "cache_ok []"
    and start_law: "cache_ok (fh_latest h) \<Longrightarrow> frame_ok g \<Longrightarrow>
      \<exists>L. start g h = (fan_collect (\<lambda>f. matches_filter f (ids g)) h, h\<lparr>fh_latest := L\<rparr>) \<and>
          cache_ok L \<and> map_of L = put g (map_of (fh_latest h))"
    and join_law: "cache_ok (fh_latest h) \<Longrightarrow> filter_ok f \<Longrightarrow>
      \<exists>snapshot. join f h = (fh_next h, snapshot, snd (fan_register f h)) \<and>
          apply_all put snapshot = map_of (fh_latest h) |` visible f"
    and put_visible: "frame_ok g \<Longrightarrow> filter_ok f \<Longrightarrow> matches_filter f (ids g) \<Longrightarrow>
      put g m |` visible f = put g (m |` visible f)"
    and put_hidden: "frame_ok g \<Longrightarrow> filter_ok f \<Longrightarrow> \<not> matches_filter f (ids g) \<Longrightarrow>
      put g m |` visible f = m |` visible f"
begin

definition hub_ok :: "('k, 'g) fan_run \<Rightarrow> bool" where
  "hub_ok s \<longleftrightarrow> fan_wf s \<and> cache_ok (fh_latest (fr_hub s)) \<and>
     (\<forall>f \<in> snd ` set (fh_clients (fr_hub s)). filter_ok f) \<and> fan_views put visible s"

lemma hub_okI:
  assumes "fan_wf s" "cache_ok (fh_latest (fr_hub s))" "\<And>f. f \<in> snd ` set (fh_clients (fr_hub s)) \<Longrightarrow> filter_ok f"
    and "\<And>i f. map_of (fh_clients (fr_hub s)) i = Some f \<Longrightarrow> i \<notin> set (fr_dropped s) \<Longrightarrow>
      shown put i s = map_of (fh_latest (fr_hub s)) |` visible f"
  shows "hub_ok s"
  using assms unfolding hub_ok_def by (blast intro: fan_viewsI)

lemma hub_okD:
  assumes "hub_ok s"
  shows "fan_wf s" "cache_ok (fh_latest (fr_hub s))" "f \<in> snd ` set (fh_clients (fr_hub s)) \<Longrightarrow> filter_ok f"
    and "map_of (fh_clients (fr_hub s)) i = Some f \<Longrightarrow> i \<notin> set (fr_dropped s) \<Longrightarrow>
      shown put i s = map_of (fh_latest (fr_hub s)) |` visible f"
  using assms fan_viewsD unfolding hub_ok_def by blast+

lemma hub_ok_client:
  "hub_ok s \<Longrightarrow> map_of (fh_clients (fr_hub s)) i = Some f \<Longrightarrow> filter_ok f"
  unfolding hub_ok_def by (force dest: map_of_SomeD)

lemma hub_ok_broadcast:
  assumes ok: "hub_ok s" and g: "frame_ok g" and idle: "fr_flight s = None"
    and st: "start g (fr_hub s) = (is, h)"
  shows "hub_ok (s\<lparr>fr_hub := h, fr_flight := Some (g, is)\<rparr>)" (is "hub_ok ?s")
proof -
  note wf = hub_okD(1) [OF ok]
  obtain L where L: "is = fan_collect (\<lambda>f. matches_filter f (ids g)) (fr_hub s)" "h = fr_hub s\<lparr>fh_latest := L\<rparr>"
      "cache_ok L" "map_of L = put g (map_of (fh_latest (fr_hub s)))"
    using start_law [OF hub_okD(2) [OF ok] g] st by auto
  have view: "shown put i ?s = map_of L |` visible f"
    if f: "map_of (fh_clients (fr_hub s)) i = Some f" and d: "i \<notin> set (fr_dropped s)" for i f
  proof -
    have "filter_ok f"
      using hub_ok_client [OF ok f] .
    moreover have "i \<in> set is \<longleftrightarrow> matches_filter f (ids g)"
    proof -
      have "(i, f') \<in> set (fh_clients (fr_hub s)) \<longleftrightarrow> f' = f" for f'
        using wf f unfolding fan_wf_def by (metis map_of_SomeD map_of_is_SomeI option.inject)
      moreover have "set is = {j. \<exists>f'. (j, f') \<in> set (fh_clients (fr_hub s)) \<and> matches_filter f' (ids g)}"
        unfolding L(1) fan_collect_def by force
      ultimately show ?thesis by (cases f) simp
    qed
    then have "shown put i ?s = (if matches_filter f (ids g) then put g (shown put i s) else shown put i s)"
      using idle by (simp add: shown_def due_def in_flight_for_def L(2) chan_of_def)
    ultimately show ?thesis
      using g hub_okD(4) [OF ok f d] by (simp add: L(4) put_visible put_hidden)
  qed
  show ?thesis
  proof (rule hub_okI)
    show "fan_wf ?s"
      unfolding L(1,2) by (rule fan_wf_collect [OF wf idle])
  qed (use L(3) view hub_okD(3) [OF ok] in \<open>simp_all add: L(2)\<close>)
qed

lemma hub_ok_send:
  assumes ok: "hub_ok s" and flight: "fr_flight s = Some (g, i # is)" and send: "fan_send g i (fr_hub s) = Some h"
    and D: "D = (if clientBuffer \<le> length (chan_of i (fr_hub s)) then i # fr_dropped s else fr_dropped s)"
  shows "hub_ok (s\<lparr>fr_hub := h, fr_flight := Some (g, is), fr_dropped := D\<rparr>)" (is "hub_ok ?s")
proof -
  note wf = hub_okD(1) [OF ok]
  have "i \<notin> set is"
    using wf flight unfolding fan_wf_def by force
  obtain c c' where c: "map_of (fh_chans (fr_hub s)) i = Some c" "try_send clientBuffer g c = Some c'"
      and h: "h = fr_hub s\<lparr>fh_chans := AList.update i c' (fh_chans (fr_hub s))\<rparr>"
    by (rule fan_send_cases [OF send fan_wf_flight [OF wf flight]]) simp
  have "due j ?s = due j s" if "j \<notin> set D" for j
    using that \<open>i \<notin> set is\<close> flight try_send_facts(3) [OF c(2)] c(1)
    by (auto simp: D due_def in_flight_for_def chan_of_def h update_conv' split: if_splits)
  then have same: "shown put j ?s = shown put j s" if "j \<notin> set D" for j
    using that by (simp add: shown_def)
  have sub: "j \<notin> set D \<Longrightarrow> j \<notin> set (fr_dropped s)" for j
    by (simp add: D split: if_splits)
  show ?thesis
  proof (rule hub_okI)
    show "fan_wf ?s"
      by (rule fan_wf_send [OF wf flight send])
    show "shown put j ?s = map_of (fh_latest (fr_hub ?s)) |` visible f"
      if "map_of (fh_clients (fr_hub ?s)) j = Some f" "j \<notin> set (fr_dropped ?s)" for j f
      using that same [of j] hub_okD(4) [OF ok _ sub, of j f] by (simp add: h)
  qed (use hub_okD(2,3) [OF ok] in \<open>simp_all add: h\<close>)
qed

lemma hub_ok_join:
  assumes ok: "hub_ok s" and f: "filter_ok f" and jn: "join f (fr_hub s) = (i, snapshot, h)"
  shows "hub_ok (s\<lparr>fr_hub := h, fr_seen := AList.update i snapshot (fr_seen s)\<rparr>)" (is "hub_ok ?s")
proof -
  note wf = hub_okD(1) [OF ok]
  have j: "i = fh_next (fr_hub s)" "h = snd (fan_register f (fr_hub s))"
      "apply_all put snapshot = map_of (fh_latest (fr_hub s)) |` visible f"
    using join_law [OF hub_okD(2) [OF ok] f] jn by auto
  have fresh: "map_of (fh_chans (fr_hub s)) i = None" "map_of (fh_clients (fr_hub s)) i = None"
    using wf unfolding fan_wf_def j(1) by (metis less_irrefl not_Some_eq option.distinct(1))+
  have "in_flight_for i s = []"
    using fan_wf_flight [OF wf, of _ _ i] fresh(1)
    by (auto simp: in_flight_for_def simp del: map_of_eq_Some_iff split: option.splits)
  then have new: "shown put i ?s = map_of (fh_latest (fr_hub s)) |` visible f"
    using fresh(1) by (simp add: shown_def due_def in_flight_for_def chan_of_def j fan_register_def new_chan_def map_add_def)
  have old: "shown put k ?s = shown put k s" if "k \<noteq> i" for k
    using that by (simp add: shown_def due_def in_flight_for_def chan_of_def j fan_register_def new_chan_def map_add_def
        split: option.splits)
  have clients: "map_of (fh_clients h) k = (if k = i then Some f else map_of (fh_clients (fr_hub s)) k)" for k
    using fresh(2) by (simp add: j fan_register_def map_add_def split: option.splits)
  have h: "fh_latest h = fh_latest (fr_hub s)" "snd ` set (fh_clients h) = insert f (snd ` set (fh_clients (fr_hub s)))"
    by (auto simp: j fan_register_def)
  show ?thesis
  proof (rule hub_okI)
    show "fan_wf ?s"
      unfolding j(2) by (rule fan_wf_register [OF wf])
    show "shown put k ?s = map_of (fh_latest (fr_hub ?s)) |` visible f'"
      if "map_of (fh_clients (fr_hub ?s)) k = Some f'" "k \<notin> set (fr_dropped ?s)" for k f'
      using that new old [of k] hub_okD(4) [OF ok, of k f'] clients [of k] h(1)
      by (cases "k = i") simp_all
  qed (use hub_okD(2,3) [OF ok] f h in auto)
qed

lemma hub_ok_leave:
  assumes ok: "hub_ok s"
  shows "hub_ok (s\<lparr>fr_hub := fan_unsubscribe i (fr_hub s)\<rparr>)" (is "hub_ok ?s")
proof -
  have same: "chan_of k (fan_unsubscribe i (fr_hub s)) = chan_of k (fr_hub s)" for k
    by (auto simp: fan_unsubscribe_def chan_of_def map_of_close close_chan_def split: option.split)
  have clients: "map_of (fh_clients (fan_unsubscribe i (fr_hub s))) k = Some f \<Longrightarrow>
      map_of (fh_clients (fr_hub s)) k = Some f" for k f
    by (simp add: fan_unsubscribe_def map_of_filter_other split: option.splits if_splits)
  have sub: "set (fh_clients (fan_unsubscribe i (fr_hub s))) \<subseteq> set (fh_clients (fr_hub s))"
    and latest: "fh_latest (fan_unsubscribe i (fr_hub s)) = fh_latest (fr_hub s)"
    by (auto simp: fan_unsubscribe_def split: option.splits)
  show ?thesis
  proof (rule hub_okI)
    show "fan_wf ?s"
      by (rule fan_wf_unsubscribe [OF hub_okD(1) [OF ok]])
    show "shown put k ?s = map_of (fh_latest (fr_hub ?s)) |` visible f"
      if "map_of (fh_clients (fr_hub ?s)) k = Some f" "k \<notin> set (fr_dropped ?s)" for k f
      using that hub_okD(4) [OF ok clients, of k f]
      by (simp add: shown_def due_def in_flight_for_def same latest)
  qed (use hub_okD(2,3) [OF ok] sub latest in auto)
qed

lemma hub_ok_read:
  assumes ok: "hub_ok s" and r: "fan_receive i (fr_hub s) = Some (g, h)"
  shows "hub_ok (s\<lparr>fr_hub := h, fr_seen := go_append (fr_seen s) i g\<rparr>)" (is "hub_ok ?s")
proof -
  obtain c gs where c: "map_of (fh_chans (fr_hub s)) i = Some c" "ch_buf c = g # gs"
      and h: "h = fr_hub s\<lparr>fh_chans := AList.update i (c\<lparr>ch_buf := gs\<rparr>) (fh_chans (fr_hub s))\<rparr>"
    by (rule fan_receive_cases [OF r])
  have "shown put k ?s = shown put k s" for k
    using c by (simp add: shown_def due_def in_flight_for_def chan_of_def h update_conv')
  then show ?thesis
    using fan_wf_receive [OF hub_okD(1) [OF ok] r] hub_okD [OF ok]
    by (intro hub_okI) (simp_all add: h)
qed

lemma hub_ok_step:
  assumes "hub_ok s" "fan_step start join e s = Some s'"
    and "\<And>g. e = Broadcast g \<Longrightarrow> frame_ok g" "\<And>f. e = Join f \<Longrightarrow> filter_ok f"
  shows "hub_ok s'"
proof (cases e)
  case (Broadcast g)
  show ?thesis
  proof (cases "fr_flight s")
    case None
    obtain ns h where "start g (fr_hub s) = (ns, h)" by force
    then show ?thesis
      using assms(2,3) Broadcast None hub_ok_broadcast [OF assms(1) _ None] by auto
  qed (use assms(1,2) Broadcast in simp)
next
  case SendNext
  show ?thesis
  proof (cases "fr_flight s")
    case None
    then show ?thesis using assms SendNext by simp
  next
    case (Some flight)
    obtain g ns where fl: "flight = (g, ns)" by force
    show ?thesis
    proof (cases ns)
      case Nil
      have "hub_ok (s\<lparr>fr_flight := None\<rparr>)"
      proof (rule hub_okI)
        show "fan_wf (s\<lparr>fr_flight := None\<rparr>)"
          using hub_okD(1) [OF assms(1)] by (simp add: fan_wf_def)
        show "shown put i (s\<lparr>fr_flight := None\<rparr>) = map_of (fh_latest (fr_hub (s\<lparr>fr_flight := None\<rparr>))) |` visible f"
          if "map_of (fh_clients (fr_hub (s\<lparr>fr_flight := None\<rparr>))) i = Some f"
            "i \<notin> set (fr_dropped (s\<lparr>fr_flight := None\<rparr>))" for i f
          using that hub_okD(4) [OF assms(1), of i f] Some fl Nil
          by (simp add: shown_def due_def in_flight_for_def chan_of_def)
      qed (use hub_okD(2,3) [OF assms(1)] in simp_all)
      then show ?thesis
        using assms(2) SendNext Some fl Nil by simp
    next
      case (Cons i rest)
      then show ?thesis
        using assms(2) SendNext Some fl hub_ok_send [OF assms(1), of g i rest] by (auto split: option.splits)
    qed
  qed
next
  case (Join f)
  then show ?thesis
    using assms hub_ok_join [OF assms(1), of f] by (auto split: prod.splits)
next
  case (Leave i)
  then show ?thesis
    using assms(2) hub_ok_leave [OF assms(1)] by auto
next
  case (Read i)
  then show ?thesis
    using assms hub_ok_read [OF assms(1)] by (auto split: option.splits prod.splits)
qed

lemma hub_ok_start: "hub_ok fan_start"
  using cache_nil fan_wf_start by (intro hub_okI) (simp_all add: fan_start_def new_fan_hub_def)

text \<open>
  A registered client that lost no frame: what it was sent, with what is due to it, shows exactly what
  the hub has cached for its filter.  The channel of any client stays within its bound.
\<close>

lemma client_current:
  assumes "fan_reaches start join (\<lambda>e. case e of Broadcast g \<Rightarrow> frame_ok g | Join f \<Rightarrow> filter_ok f | _ \<Rightarrow> True) s"
  shows "hub_ok s"
  using assms by (induction rule: fan_reaches.induct) (auto intro: hub_ok_start hub_ok_step)

end

end
