(* ===== verification/StatusHub.thy ===== *)
theory StatusHub
  imports MonarchTypes FanOut
begin

text \<open>
  \<^verbatim>\<open>pipeline/monarch/pkg/grpc\<close>: the hub that fans status changes out to open streams, and the
  gRPC service that sends a snapshot and then the changes.
\<close>

section \<open>The wire form of a test (convert.go)\<close>

definition to_phase :: "string \<Rightarrow> wire_phase" where
  "to_phase s =
     (if s = PhaseProgressing then PHASE_PROGRESSING
      else if s = PhaseReady then PHASE_READY
      else if s = PhaseFailed then PHASE_FAILED
      else if s = PhaseDeleting then PHASE_DELETING
      else if s = PhaseDeleted then PHASE_DELETED
      else PHASE_UNSPECIFIED)"

definition to_boot_step :: "string \<Rightarrow> wire_step" where
  "to_boot_step s =
     (if s = BootStepValidating then STEP_VALIDATING_INPUTS
      else if s = BootStepProvisioningSinks then STEP_PROVISIONING_SINKS
      else if s = BootStepActivatingEgressTap then STEP_ACTIVATING_EGRESS_TAP
      else if s = BootStepBindingAMQP then STEP_BINDING_AMQP
      else if s = BootStepProvisioningShadow then STEP_PROVISIONING_SHADOW
      else if s = BootStepReady then STEP_READY
      else if s = BootStepFailed then STEP_FAILED
      else STEP_UNSPECIFIED)"

definition to_capture_phase :: "string \<Rightarrow> wire_capture" where
  "to_capture_phase s =
     (if s = CapturePhaseReady then CAPTURE_READY
      else if s = CapturePhaseDegraded then CAPTURE_DEGRADED
      else if s = CapturePhaseDisabled then CAPTURE_DISABLED
      else CAPTURE_UNSPECIFIED)"

definition to_mode :: "string \<Rightarrow> wire_mode" where
  "to_mode s = (if s = OpRecord then MODE_RECORD else if s = OpReplay then MODE_REPLAY else MODE_UNSPECIFIED)"

definition to_status_update :: "shadow_cr \<Rightarrow> status_update" where
  "to_status_update st =
     (let s = st_status st
      in \<lparr>su_test = st_name st, su_namespace = st_namespace st, su_phase = to_phase (sta_phase s),
          su_step = to_boot_step (sta_boot_step s), su_session = sta_session s, su_execution = sta_execution s,
          su_replay_state = sta_replay_state s, su_mode = to_mode (operating_mode st), su_message = sta_message s,
          su_kaisel = to_capture_phase (sta_kaisel_phase s), su_components = sta_components s\<rparr>)"

section \<open>The hub (hub.go)\<close>

definition subscriberBuffer :: nat where "subscriberBuffer = 16"

record subscriber =
  sb_chan :: "status_update chan"
  sb_filter :: "string \<times> string"

definition subscriber_wants :: "subscriber \<Rightarrow> status_update \<Rightarrow> bool" where
  "subscriber_wants s u = matches_filter (sb_filter s) (su_test u, su_namespace u)"

record status_hub =
  sh_subs :: "(nat \<times> subscriber) list"
  sh_next :: nat

definition new_status_hub :: status_hub where
  "new_status_hub = \<lparr>sh_subs = [], sh_next = 0\<rparr>"

definition subscriber_send :: "status_update \<Rightarrow> subscriber \<Rightarrow> subscriber option" where
  "subscriber_send u s =
     (if \<not> subscriber_wants s u then Some s
      else map_option (\<lambda>c. s\<lparr>sb_chan := c\<rparr>) (try_send subscriberBuffer u (sb_chan s)))"

text \<open>
  \<^verbatim>\<open>Publish\<close> holds the read lock while it sends, so no subscriber comes or goes meanwhile; it
  panics if a channel is closed.
\<close>

definition publish_status :: "shadow_cr \<Rightarrow> status_hub \<Rightarrow> status_hub option" where
  "publish_status st h =
     (let u = to_status_update st
      in map_option (\<lambda>subs. h\<lparr>sh_subs := subs\<rparr>)
           (those (map (\<lambda>(i, s). map_option (Pair i) (subscriber_send u s)) (sh_subs h))))"

definition subscribe_status :: "string \<Rightarrow> string \<Rightarrow> status_hub \<Rightarrow> nat \<times> status_hub" where
  "subscribe_status testName namespace h =
     (sh_next h, h\<lparr>sh_subs := sh_subs h @ [(sh_next h, \<lparr>sb_chan = new_chan, sb_filter = (testName, namespace)\<rparr>)],
                   sh_next := sh_next h + 1\<rparr>)"

text \<open>The function \<^verbatim>\<open>Subscribe\<close> returns; the closed channel is dropped with the subscriber.\<close>

definition unsubscribe_status :: "nat \<Rightarrow> status_hub \<Rightarrow> status_hub" where
  "unsubscribe_status i h = h\<lparr>sh_subs := filter (\<lambda>(j, s). j \<noteq> i) (sh_subs h)\<rparr>"

text \<open>The stream of a subscriber receives its oldest pending update.\<close>

definition receive_status :: "nat \<Rightarrow> status_hub \<Rightarrow> (status_update \<times> status_hub) option" where
  "receive_status i h =
     (case map_of (sh_subs h) i of
        Some s \<Rightarrow>
          (case ch_buf (sb_chan s) of
             u # us \<Rightarrow> Some (u, h\<lparr>sh_subs := AList.update i (s\<lparr>sb_chan := (sb_chan s)\<lparr>ch_buf := us\<rparr>\<rparr>) (sh_subs h)\<rparr>)
           | [] \<Rightarrow> None)
      | None \<Rightarrow> None)"

section \<open>The stream (server.go)\<close>

text \<open>\<^verbatim>\<open>sendSnapshot\<close>: what it sends of the tests the reader lists.\<close>

definition snapshot_updates :: "string \<Rightarrow> string \<Rightarrow> shadow_cr list \<Rightarrow> status_update list" where
  "snapshot_updates name namespace items =
     map to_status_update
       (filter (\<lambda>st. (name = [] \<or> st_name st = name) \<and> (namespace = [] \<or> st_namespace st = namespace)) items)"

end
