(* ===== verification/TuskTopology.thy ===== *)
theory TuskTopology
  imports MonarchTypes
begin

text \<open>
  \<^verbatim>\<open>pipeline/tusk/pkg/topology/generator.go\<close>: the graph drawn for a status update.
\<close>

definition StatusReady :: string where "StatusReady = ''Ready''"
definition StatusProvisioning :: string where "StatusProvisioning = ''Provisioning''"
definition StatusFailed :: string where "StatusFailed = ''Failed''"
definition StatusDisabled :: string where "StatusDisabled = ''Disabled''"
definition StatusDegraded :: string where "StatusDegraded = ''Degraded''"

lemmas node_status_defs = StatusReady_def StatusProvisioning_def StatusFailed_def StatusDisabled_def StatusDegraded_def

definition NodeTargetApp :: string where "NodeTargetApp = ''target-app''"
definition NodeKaisel :: string where "NodeKaisel = ''kaisel''"
definition NodeProdAMQP :: string where "NodeProdAMQP = ''prod-amqp''"
definition NodeIgris :: string where "NodeIgris = ''igris''"
definition NodeShop :: string where "NodeShop = ''shop''"
definition NodeBeru :: string where "NodeBeru = ''beru''"

lemmas node_defs = NodeTargetApp_def NodeKaisel_def NodeProdAMQP_def NodeIgris_def NodeShop_def NodeBeru_def

record topo_node =
  nd_id :: string
  nd_type :: string
  nd_label :: string
  nd_status :: string

record topo_edge =
  ed_id :: string
  ed_source :: string
  ed_target :: string
  ed_animated :: bool

record topology_graph =
  tg_test :: string
  tg_namespace :: string
  tg_phase :: string
  tg_boot_step :: string
  tg_mode :: string
  tg_message :: string
  tg_nodes :: "topo_node list"
  tg_edges :: "topo_edge list"

definition record_edges :: "string list \<Rightarrow> (string \<times> string) list" where
  "record_edges drivers =
     (let hasAMQP = contains_driver drivers DriverRabbitMQMessage;
          hasHTTP = contains_driver drivers DriverHTTPRequest
      in [(NodeIgris, NodeBeru), (NodeKaisel, NodeShop)] @
         (if hasHTTP \<or> \<not> hasAMQP then [(NodeTargetApp, NodeKaisel), (NodeKaisel, NodeIgris)] else []) @
         (if hasAMQP then [(NodeTargetApp, NodeProdAMQP), (NodeProdAMQP, NodeIgris)] else []))"

definition replay_edges :: "(string \<times> string) list" where
  "replay_edges = concat (map (\<lambda>role. [(NodeIgris, role), (role, NodeBeru), (role, NodeShop)]) ShadowRoles)"

definition node_labels :: "(string \<times> string) list" where
  "node_labels =
     [(NodeTargetApp, ''Target App''), (NodeKaisel, ''Kaisel (eBPF)''), (NodeProdAMQP, ''Prod AMQP queue''),
      (NodeIgris, ''Igris (ingress hub)''), (NodeShop, ''Shop (egress mocks)''), (NodeBeru, ''Beru (analysis)''),
      (RoleControlA, ''control-a''), (RoleControlB, ''control-b''), (RoleCandidate, ''candidate'')]"

fun phase_label :: "wire_phase \<Rightarrow> string" where
  "phase_label PHASE_PROGRESSING = ''Progressing''"
| "phase_label PHASE_READY = ''Ready''"
| "phase_label PHASE_FAILED = ''Failed''"
| "phase_label PHASE_DELETING = ''Deleting''"
| "phase_label PHASE_DELETED = ''Deleted''"
| "phase_label PHASE_UNSPECIFIED = []"

fun mode_label :: "wire_mode \<Rightarrow> string" where
  "mode_label MODE_RECORD = ''record''"
| "mode_label MODE_REPLAY = ''replay''"
| "mode_label MODE_UNSPECIFIED = []"

fun boot_step_label :: "wire_step \<Rightarrow> string" where
  "boot_step_label STEP_VALIDATING_INPUTS = ''ValidatingInputs''"
| "boot_step_label STEP_PROVISIONING_SINKS = ''ProvisioningSinks''"
| "boot_step_label STEP_ACTIVATING_EGRESS_TAP = ''ActivatingEgressTap''"
| "boot_step_label STEP_BINDING_AMQP = ''BindingAMQP''"
| "boot_step_label STEP_PROVISIONING_SHADOW = ''ProvisioningShadow''"
| "boot_step_label STEP_READY = ''Ready''"
| "boot_step_label STEP_FAILED = ''Failed''"
| "boot_step_label STEP_UNSPECIFIED = []"

definition amqp_node_status :: "bool \<Rightarrow> bool \<Rightarrow> bool \<Rightarrow> string" where
  "amqp_node_status bound replay failed =
     (if replay then StatusDisabled
      else if bound then StatusReady
      else if failed then StatusFailed
      else StatusProvisioning)"

definition kaisel_node_status :: "status_update \<Rightarrow> bool \<Rightarrow> bool \<Rightarrow> string" where
  "kaisel_node_status u replay failed =
     (case su_kaisel u of
        CAPTURE_READY \<Rightarrow> StatusReady
      | CAPTURE_DEGRADED \<Rightarrow> StatusDegraded
      | CAPTURE_DISABLED \<Rightarrow> StatusDisabled
      | CAPTURE_UNSPECIFIED \<Rightarrow>
          (if replay then StatusDisabled
           else if cs_kaisel (su_components u) then StatusReady
           else if failed then StatusFailed
           else StatusProvisioning))"

definition ready_status :: "bool \<Rightarrow> bool \<Rightarrow> string" where
  "ready_status failed ready =
     (if ready then StatusReady else if failed then StatusFailed else StatusProvisioning)"

text \<open>The nodes before their labels are looked up.\<close>

definition graph_nodes :: "status_update \<Rightarrow> (string \<times> string \<times> string) list" where
  "graph_nodes u =
     (let replay = su_mode u = MODE_REPLAY;
          failed = su_phase u = PHASE_FAILED;
          c = su_components u
      in [(NodeTargetApp, ''target'', ready_status failed (cs_target c \<noteq> [])),
          (NodeIgris, ''ingress'', ready_status failed (cs_igris c)),
          (NodeShop, ''egress'', ready_status failed (cs_shop c)),
          (NodeBeru, ''sink'', ready_status failed (cs_beru c)),
          (NodeKaisel, ''capture'', kaisel_node_status u replay failed)] @
         (if contains_driver (cs_drivers c) DriverRabbitMQMessage
          then [(NodeProdAMQP, ''amqp'', amqp_node_status (cs_amqp c) replay failed)] else []) @
         map (\<lambda>role. (role, ''role'',
                if replay then ready_status failed (go_get False (cs_roles c) role) else StatusDisabled))
           ShadowRoles)"

definition label_node :: "string \<times> string \<times> string \<Rightarrow> topo_node" where
  "label_node n =
     (case n of (nid, typ, status) \<Rightarrow>
        \<lparr>nd_id = nid, nd_type = typ, nd_label = go_get [] node_labels nid, nd_status = status\<rparr>)"

definition resolve_edge :: "topo_node list \<Rightarrow> string \<times> string \<Rightarrow> topo_edge" where
  "resolve_edge nodes e =
     (let byID = (\<lambda>k. go_get [] (rev (map (\<lambda>n. (nd_id n, nd_status n)) nodes)) k)
      in \<lparr>ed_id = fst e @ ''->'' @ snd e, ed_source = fst e, ed_target = snd e,
          ed_animated = (byID (fst e) = StatusReady \<and> byID (snd e) = StatusReady)\<rparr>)"

text \<open>The graph of an update; the code's answer to a nil update is nil.\<close>

definition build_topology_graph :: "status_update \<Rightarrow> topology_graph" where
  "build_topology_graph u =
     (if su_phase u = PHASE_DELETED then
        \<lparr>tg_test = su_test u, tg_namespace = su_namespace u, tg_phase = phase_label (su_phase u),
         tg_boot_step = [], tg_mode = [], tg_message = su_message u, tg_nodes = [], tg_edges = []\<rparr>
      else
        let nodes = map label_node (graph_nodes u);
            shape = (if su_mode u = MODE_REPLAY then replay_edges else record_edges (cs_drivers (su_components u)))
        in \<lparr>tg_test = su_test u, tg_namespace = su_namespace u, tg_phase = phase_label (su_phase u),
            tg_boot_step = boot_step_label (su_step u), tg_mode = mode_label (su_mode u),
            tg_message = su_message u, tg_nodes = nodes, tg_edges = map (resolve_edge nodes) shape\<rparr>)"

end
