(* ===== verification/TuskHub.thy ===== *)
theory TuskHub
  imports StatusHub TuskTopology
begin

text \<open>
  \<^verbatim>\<open>pipeline/tusk/pkg/server\<close>: the hub of topology graphs, the hub of diff frames, and the client of
  Monarch's stream that feeds the first.
\<close>

section \<open>Graphs (hub.go)\<close>

type_synonym test_key = "string \<times> string"
type_synonym graph_hub = "(test_key, topology_graph) fan_hub"

definition graph_key :: "topology_graph \<Rightarrow> test_key" where
  "graph_key g = (tg_namespace g, tg_test g)"

definition cache_graph :: "topology_graph \<Rightarrow> (test_key \<times> topology_graph) list \<Rightarrow> (test_key \<times> topology_graph) list" where
  "cache_graph g latest =
     (if tg_phase g = ''Deleted'' then AList.delete (graph_key g) latest
      else AList.update (graph_key g) g latest)"

text \<open>The part of \<^verbatim>\<open>Broadcast\<close> under the lock, and the sends after it.\<close>

definition broadcast_begin :: "topology_graph \<Rightarrow> graph_hub \<Rightarrow> nat list \<times> graph_hub" where
  "broadcast_begin g h =
     (fan_collect (\<lambda>f. matches_filter f (graph_key g)) h, h\<lparr>fh_latest := cache_graph g (fh_latest h)\<rparr>)"

definition broadcast_graph :: "topology_graph \<Rightarrow> graph_hub \<Rightarrow> graph_hub option" where
  "broadcast_graph g h = (case broadcast_begin g h of (ids, h1) \<Rightarrow> fan_send_all g ids h1)"

text \<open>The order of the snapshot is that of a map iteration, an argument.\<close>

definition subscribe_graphs ::
  "(topology_graph list \<Rightarrow> topology_graph list) \<Rightarrow> string \<Rightarrow> string \<Rightarrow> graph_hub \<Rightarrow> nat \<times> topology_graph list \<times> graph_hub" where
  "subscribe_graphs io namespace name h =
     (let (i, h1) = fan_register (namespace, name) h
      in (i, io (map snd (filter (\<lambda>(k, g). matches_filter (namespace, name) k) (fh_latest h))), h1))"

text \<open>\<^verbatim>\<open>MonarchClient.consume\<close>: each update received is drawn and broadcast.\<close>

fun consume_updates :: "status_update list \<Rightarrow> graph_hub \<Rightarrow> graph_hub option" where
  "consume_updates [] h = Some h"
| "consume_updates (u # us) h =
     (case broadcast_graph (build_topology_graph u) h of None \<Rightarrow> None | Some h' \<Rightarrow> consume_updates us h')"

definition monarchReconnectMin :: duration where "monarchReconnectMin = second"
definition monarchReconnectMax :: duration where "monarchReconnectMax = 30 * second"

definition next_reconnect :: "duration \<Rightarrow> duration" where
  "next_reconnect backoff = (if monarchReconnectMax < backoff * 2 then monarchReconnectMax else backoff * 2)"

section \<open>Diff frames (diff_hub.go)\<close>

text \<open>A summary as the store counts it, and a verdict event as Beru notifies it.\<close>

record session_summary =
  sm_session :: string
  sm_execution :: string
  sm_total :: nat
  sm_match :: nat
  sm_mismatch :: nat
  sm_voided :: nat

record verdict_notice =
  vn_session :: string
  vn_execution :: string
  vn_trace :: string
  vn_verdict :: string

datatype diff_frame = SummaryFrame session_summary | VerdictFrame verdict_notice

type_synonym diff_hub = "(string, diff_frame) fan_hub"

fun frame_ids :: "diff_frame \<Rightarrow> string \<times> string" where
  "frame_ids (SummaryFrame s) = (sm_session s, sm_execution s)"
| "frame_ids (VerdictFrame v) = (vn_session v, vn_execution v)"

definition diff_cache_key :: "string \<times> string \<Rightarrow> string" where
  "diff_cache_key ids = fst ids @ [CHR 0x00] @ snd ids"

fun cache_frame :: "diff_frame \<Rightarrow> (string \<times> diff_frame) list \<Rightarrow> (string \<times> diff_frame) list" where
  "cache_frame (SummaryFrame s) latest =
     AList.update (diff_cache_key (frame_ids (SummaryFrame s))) (SummaryFrame s) latest"
| "cache_frame (VerdictFrame v) latest = latest"

definition diff_broadcast_begin :: "diff_frame \<Rightarrow> diff_hub \<Rightarrow> nat list \<times> diff_hub" where
  "diff_broadcast_begin fr h =
     (fan_collect (\<lambda>f. matches_filter f (frame_ids fr)) h, h\<lparr>fh_latest := cache_frame fr (fh_latest h)\<rparr>)"

definition diff_broadcast :: "diff_frame \<Rightarrow> diff_hub \<Rightarrow> diff_hub option" where
  "diff_broadcast fr h = (case diff_broadcast_begin fr h of (ids, h1) \<Rightarrow> fan_send_all fr ids h1)"

definition broadcast_summary :: "session_summary \<Rightarrow> diff_hub \<Rightarrow> diff_hub option" where
  "broadcast_summary smry h = (if sm_session smry = [] then Some h else diff_broadcast (SummaryFrame smry) h)"

definition broadcast_verdict :: "verdict_notice \<Rightarrow> diff_hub \<Rightarrow> diff_hub option" where
  "broadcast_verdict ev h = (if vn_trace ev = [] then Some h else diff_broadcast (VerdictFrame ev) h)"

definition cache_summary :: "session_summary \<Rightarrow> diff_hub \<Rightarrow> diff_hub" where
  "cache_summary smry h =
     (if sm_session smry = [] then h
      else h\<lparr>fh_latest := cache_frame (SummaryFrame smry) (fh_latest h)\<rparr>)"

definition subscribe_diffs ::
  "(diff_frame list \<Rightarrow> diff_frame list) \<Rightarrow> string \<Rightarrow> string \<Rightarrow> diff_hub \<Rightarrow> nat \<times> diff_frame list \<times> diff_hub" where
  "subscribe_diffs io sessionID execID h =
     (let (i, h1) = fan_register (sessionID, execID) h;
          snapshot = (if sessionID \<noteq> [] then
                        (case map_of (fh_latest h) (diff_cache_key (sessionID, execID)) of Some fr \<Rightarrow> [fr] | None \<Rightarrow> [])
                      else io (map snd (fh_latest h)))
      in (i, snapshot, h1))"

text \<open>What a notification does (\<^verbatim>\<open>main.go\<close>): the summary, when it could be read, then the verdict.\<close>

definition on_verdict_event :: "(string \<Rightarrow> string \<Rightarrow> session_summary option) \<Rightarrow> verdict_notice \<Rightarrow> diff_hub \<Rightarrow> diff_hub option" where
  "on_verdict_event summary ev h =
     (case (case summary (vn_session ev) (vn_execution ev) of Some smry \<Rightarrow> broadcast_summary smry h | None \<Rightarrow> Some h) of
        None \<Rightarrow> None
      | Some h1 \<Rightarrow> broadcast_verdict ev h1)"

text \<open>\<^verbatim>\<open>handleDiffsWS\<close> up to the stream: a fresh summary is cached, then the browser subscribes.\<close>

definition open_diff_stream ::
  "(string \<Rightarrow> string \<Rightarrow> session_summary option) \<Rightarrow> (diff_frame list \<Rightarrow> diff_frame list) \<Rightarrow> string \<Rightarrow> string \<Rightarrow> diff_hub \<Rightarrow>
   nat \<times> diff_frame list \<times> diff_hub" where
  "open_diff_stream summary io sessionID resolved h =
     subscribe_diffs io sessionID resolved
       (case summary sessionID resolved of Some smry \<Rightarrow> cache_summary smry h | None \<Rightarrow> h)"

end
