(* ===== verification/StatusFeedProps.thy ===== *)
theory StatusFeedProps
  imports TuskHub
begin

text \<open>
  The way of a status: Monarch's hub to the stream, the stream to Tusk's cache of graphs, the cache to
  the browsers; and what the graph of a status looks like.
\<close>

section \<open>The graph\<close>

lemma dist_nodes: "distinct [NodeTargetApp, NodeIgris, NodeShop, NodeBeru, NodeKaisel, NodeProdAMQP, RoleControlA, RoleControlB, RoleCandidate]"
  by (simp add: node_defs role_defs)

lemma dist_nodes_rev:
  "distinct (rev [NodeTargetApp, NodeIgris, NodeShop, NodeBeru, NodeKaisel, NodeProdAMQP, RoleControlA, RoleControlB, RoleCandidate])"
  using dist_nodes by (simp only: distinct_rev)

lemmas node_neqs = dist_nodes [simplified] dist_nodes_rev [simplified]

lemma graph_node_ids:
  "map fst (graph_nodes u) =
     [NodeTargetApp, NodeIgris, NodeShop, NodeBeru, NodeKaisel] @
     (if contains_driver (cs_drivers (su_components u)) DriverRabbitMQMessage then [NodeProdAMQP] else []) @ ShadowRoles"
  by (simp add: graph_nodes_def Let_def comp_def ShadowRoles_def)

lemma label_node_id [simp]: "nd_id (label_node n) = fst n" "nd_status (label_node n) = snd (snd n)"
  by (simp_all add: label_node_def split: prod.split)

lemma graph_ids_distinct: "distinct (map fst (graph_nodes u))"
  by (simp add: graph_node_ids ShadowRoles_def node_neqs)

lemma node_status_unique:
  assumes "distinct (map nd_id nodes)" "n \<in> set nodes"
  shows "go_get [] (rev (map (\<lambda>n. (nd_id n, nd_status n)) nodes)) (nd_id n) = nd_status n"
proof -
  have "map_of (rev (map (\<lambda>n. (nd_id n, nd_status n)) nodes)) (nd_id n) = Some (nd_status n)"
    using assms by (intro map_of_is_SomeI) (auto simp: rev_map [symmetric] comp_def)
  then show ?thesis by (simp add: go_get_def)
qed

lemma graph_labels: "n \<in> set (graph_nodes u) \<Longrightarrow> nd_label (label_node n) \<noteq> []"
proof -
  assume "n \<in> set (graph_nodes u)"
  then have "fst n \<in> set (map fst (graph_nodes u))" by simp
  then have "fst n \<in> set [NodeTargetApp, NodeIgris, NodeShop, NodeBeru, NodeKaisel, NodeProdAMQP, RoleControlA, RoleControlB, RoleCandidate]"
    unfolding graph_node_ids by (auto simp: ShadowRoles_def split: if_splits)
  then have "go_get [] node_labels (fst n) \<noteq> []"
    by (auto simp: go_get_def node_labels_def node_neqs)
  then show "nd_label (label_node n) \<noteq> []"
    by (cases n) (simp add: label_node_def)
qed

definition graph_shape :: "status_update \<Rightarrow> (string \<times> string) list" where
  "graph_shape u = (if su_mode u = MODE_REPLAY then replay_edges else record_edges (cs_drivers (su_components u)))"

lemma graph_shape_distinct: "distinct (graph_shape u)"
  by (auto simp: graph_shape_def replay_edges_def record_edges_def ShadowRoles_def Let_def node_neqs)

lemma graph_shape_nodes:
  "e \<in> set (graph_shape u) \<Longrightarrow> fst e \<in> fst ` set (graph_nodes u) \<and> snd e \<in> fst ` set (graph_nodes u)"
proof -
  assume "e \<in> set (graph_shape u)"
  then have "fst e \<in> set (map fst (graph_nodes u)) \<and> snd e \<in> set (map fst (graph_nodes u))"
    unfolding graph_node_ids
    by (auto simp: graph_shape_def replay_edges_def record_edges_def ShadowRoles_def Let_def split: if_splits)
  then show ?thesis by simp
qed

lemma resolve_edge_animated:
  assumes "distinct (map nd_id nodes)" "a \<in> set nodes" "b \<in> set nodes" "nd_id a = fst e" "nd_id b = snd e"
  shows "ed_animated (resolve_edge nodes e) \<longleftrightarrow> nd_status a = StatusReady \<and> nd_status b = StatusReady"
  using node_status_unique [OF assms(1,2)] node_status_unique [OF assms(1,3)] assms(4,5)
  by (simp add: resolve_edge_def)

lemma role_node_disabled:
  assumes "n \<in> set (graph_nodes u)" "fst n \<in> set ShadowRoles" "su_mode u \<noteq> MODE_REPLAY"
  shows "snd (snd n) = StatusDisabled"
  using assms by (auto simp: graph_nodes_def Let_def ShadowRoles_def node_neqs split: if_splits)

text \<open>
  C40: The graph Tusk draws of a test that is not deleted is well formed whatever the status says: the
  node ids are distinct and every node has a label, every edge joins two nodes of the graph, no edge
  occurs twice, and an edge is animated exactly when both its ends are ready.  Prod AMQP appears exactly
  for a test with a RabbitMQ driver, and the roles are greyed out unless the test replays.
\<close>

theorem topology_wellformed:
  assumes "su_phase u \<noteq> PHASE_DELETED"
  shows "let g = build_topology_graph u; ids = map nd_id (tg_nodes g) in
    distinct ids \<and> (\<forall>n \<in> set (tg_nodes g). nd_label n \<noteq> []) \<and>
    distinct (map (\<lambda>e. (ed_source e, ed_target e)) (tg_edges g)) \<and>
    (\<forall>e \<in> set (tg_edges g). \<exists>a \<in> set (tg_nodes g). \<exists>b \<in> set (tg_nodes g).
       nd_id a = ed_source e \<and> nd_id b = ed_target e \<and>
       (ed_animated e \<longleftrightarrow> nd_status a = StatusReady \<and> nd_status b = StatusReady)) \<and>
    (NodeProdAMQP \<in> set ids \<longleftrightarrow> contains_driver (cs_drivers (su_components u)) DriverRabbitMQMessage) \<and>
    (\<forall>n \<in> set (tg_nodes g). nd_id n \<in> set ShadowRoles \<and> su_mode u \<noteq> MODE_REPLAY \<longrightarrow> nd_status n = StatusDisabled)"
proof -
  let ?nodes = "map label_node (graph_nodes u)"
  have g: "tg_nodes (build_topology_graph u) = ?nodes"
      "tg_edges (build_topology_graph u) = map (resolve_edge ?nodes) (graph_shape u)"
    using assms by (simp_all add: build_topology_graph_def Let_def graph_shape_def)
  have ids: "map nd_id ?nodes = map fst (graph_nodes u)"
    by (simp add: comp_def)
  have d: "distinct (map nd_id ?nodes)"
    unfolding ids by (rule graph_ids_distinct)
  have "\<exists>a \<in> set ?nodes. \<exists>b \<in> set ?nodes. nd_id a = ed_source e \<and> nd_id b = ed_target e \<and>
      (ed_animated e \<longleftrightarrow> nd_status a = StatusReady \<and> nd_status b = StatusReady)"
    if e: "e \<in> set (map (resolve_edge ?nodes) (graph_shape u))" for e
  proof -
    obtain p where p: "p \<in> set (graph_shape u)" "e = resolve_edge ?nodes p"
      using e unfolding set_map by blast
    obtain a b where "a \<in> set ?nodes" "b \<in> set ?nodes" "nd_id a = fst p" "nd_id b = snd p"
      using graph_shape_nodes [OF p(1)] by force
    moreover have "ed_source e = fst p" "ed_target e = snd p"
      by (simp_all add: p(2) resolve_edge_def Let_def)
    ultimately show ?thesis
      using resolve_edge_animated [OF d] p(2) by metis
  qed
  moreover have "distinct (map (\<lambda>e. (ed_source e, ed_target e)) (map (resolve_edge ?nodes) (graph_shape u)))"
    using graph_shape_distinct [of u] by (simp add: resolve_edge_def comp_def Let_def)
  moreover have "NodeProdAMQP \<in> set (map nd_id ?nodes) \<longleftrightarrow>
      contains_driver (cs_drivers (su_components u)) DriverRabbitMQMessage"
    unfolding ids graph_node_ids by (simp add: ShadowRoles_def node_neqs)
  moreover have "nd_status n = StatusDisabled"
    if "n \<in> set ?nodes" "nd_id n \<in> set ShadowRoles" "su_mode u \<noteq> MODE_REPLAY" for n
    using that role_node_disabled by auto
  moreover have "nd_label n \<noteq> []" if "n \<in> set ?nodes" for n
    using that graph_labels by auto
  ultimately show ?thesis
    using d unfolding Let_def g by blast
qed

definition sample_components :: component_status where
  "sample_components = \<lparr>cs_igris = True, cs_shop = True, cs_beru = True, cs_kaisel = True, cs_amqp = True,
     cs_drivers = [''http_request''], cs_roles = [], cs_target = ''shop-api''\<rparr>"

definition sample_update :: status_update where
  "sample_update = \<lparr>su_test = ''t'', su_namespace = ''ns'', su_phase = PHASE_READY, su_step = STEP_READY,
     su_session = ''s'', su_execution = [], su_replay_state = [], su_mode = MODE_RECORD, su_message = [],
     su_kaisel = CAPTURE_READY, su_components = sample_components\<rparr>"

theorem topology_wellformed_witness:
  "distinct (map nd_id (tg_nodes (build_topology_graph sample_update))) \<and>
   NodeProdAMQP \<notin> set (map nd_id (tg_nodes (build_topology_graph sample_update)))"
proof -
  have "su_phase sample_update \<noteq> PHASE_DELETED"
    by (simp add: sample_update_def)
  moreover have "\<not> contains_driver (cs_drivers (su_components sample_update)) DriverRabbitMQMessage"
    by code_simp
  ultimately show ?thesis
    using topology_wellformed [of sample_update] unfolding Let_def by blast
qed

section \<open>The browsers of a hub\<close>

text \<open>A frame in a view: a tombstone removes its test.\<close>

definition put_graph :: "topology_graph \<Rightarrow> (test_key \<rightharpoonup> topology_graph) \<Rightarrow> (test_key \<rightharpoonup> topology_graph)" where
  "put_graph g m = (if tg_phase g = ''Deleted'' then m(graph_key g := None) else m(graph_key g \<mapsto> g))"

definition graph_cache_ok :: "(test_key \<times> topology_graph) list \<Rightarrow> bool" where
  "graph_cache_ok latest \<longleftrightarrow> distinct (map fst latest) \<and>
     (\<forall>(k, g) \<in> set latest. graph_key g = k \<and> tg_phase g \<noteq> ''Deleted'')"

abbreviation join_graphs ::
  "(topology_graph list \<Rightarrow> topology_graph list) \<Rightarrow> (test_key, topology_graph) join_op" where
  "join_graphs io \<equiv> \<lambda>f h. subscribe_graphs io (fst f) (snd f) h"

lemma map_of_cache_graph: "map_of (cache_graph g latest) = put_graph g (map_of latest)"
  by (rule ext) (simp add: cache_graph_def put_graph_def update_conv' delete_conv')

lemma graph_cache_ok_put: "graph_cache_ok latest \<Longrightarrow> graph_cache_ok (cache_graph g latest)"
  unfolding graph_cache_ok_def cache_graph_def
  using set_update_subset [of "graph_key g" g latest]
  by (auto simp: distinct_update distinct_map_filter AList.delete_eq dest: subsetD split: if_splits)

text \<open>Putting graphs of distinct tests, none a tombstone, leaves each under its test.\<close>

abbreviation keyed :: "topology_graph list \<Rightarrow> (test_key \<times> topology_graph) list" where
  "keyed gs \<equiv> map (\<lambda>g. (graph_key g, g)) gs"

lemma put_graphs:
  "distinct (map graph_key gs) \<Longrightarrow> \<forall>g \<in> set gs. tg_phase g \<noteq> ''Deleted'' \<Longrightarrow>
     foldl (\<lambda>m g. put_graph g m) m gs = m ++ map_of (keyed gs)"
proof (induction gs arbitrary: m)
  case (Cons g gs)
  then have "graph_key g \<notin> dom (map_of (keyed gs))"
    by (simp add: dom_map_of_conv_image_fst image_image)
  then show ?case
    using Cons by (auto simp: put_graph_def fun_eq_iff map_add_def dom_def split: option.split)
qed simp

lemma map_of_filter_keys: "map_of (filter (\<lambda>(k, v). Q k) m) = map_of m |` {k. Q k}"
  by (induction m) (auto simp: restrict_map_def fun_eq_iff)

lemma snapshot_view:
  assumes ok: "graph_cache_ok latest" and io: "\<And>xs. mset (io xs) = mset xs"
  shows "foldl (\<lambda>m g. put_graph g m) Map.empty (io (map snd (filter (\<lambda>(k, g). Q k) latest))) =
    map_of latest |` {k. Q k}"
proof -
  let ?part = "filter (\<lambda>(k, g). Q k) latest" and ?snap = "io (map snd (filter (\<lambda>(k, g). Q k) latest))"
  have keyed: "keyed (map snd ?part) = ?part"
    using ok unfolding graph_cache_ok_def by (induction latest) auto
  have m: "mset ?snap = mset (map snd ?part)"
    by (rule io)
  have d: "distinct (map fst (keyed (map snd ?part)))"
    unfolding keyed using ok by (simp add: graph_cache_ok_def distinct_map_filter)
  have keys: "mset (map graph_key ?snap) = mset (map graph_key (map snd ?part))"
    using m by (simp only: mset_map)
  then have dk: "distinct (map graph_key ?snap)"
    using d mset_eq_imp_distinct_iff [OF keys] by (simp add: comp_def)
  have "set (keyed ?snap) = set (keyed (map snd ?part))"
    using mset_eq_setD [OF m] by (simp only: set_map)
  then have "map_of (keyed ?snap) = map_of (keyed (map snd ?part))"
    using d dk by (subst map_of_inject_set) (simp_all add: comp_def)
  also note keyed
  finally have "map_of (keyed ?snap) = map_of ?part" .
  moreover have "\<forall>g \<in> set ?snap. tg_phase g \<noteq> ''Deleted''"
    using ok mset_eq_setD [OF m] by (auto simp: graph_cache_ok_def)
  ultimately show ?thesis
    using put_graphs [OF dk, of Map.empty] by (simp add: map_of_filter_keys)
qed

lemma graph_hub_fan_out:
  assumes io: "\<And>xs. mset (io xs) = mset xs"
  shows "cached_fan_out broadcast_begin (join_graphs io) graph_key put_graph
    (\<lambda>f. {k. matches_filter f k}) graph_cache_ok (\<lambda>_. True) (\<lambda>_. True)"
proof
  show "graph_cache_ok []"
    by (simp add: graph_cache_ok_def)
next
  fix h :: graph_hub and g
  assume "graph_cache_ok (fh_latest h)"
  then show "\<exists>L. broadcast_begin g h = (fan_collect (\<lambda>f. matches_filter f (graph_key g)) h, h\<lparr>fh_latest := L\<rparr>) \<and>
      graph_cache_ok L \<and> map_of L = put_graph g (map_of (fh_latest h))"
    by (intro exI [of _ "cache_graph g (fh_latest h)"]) (simp add: broadcast_begin_def graph_cache_ok_put map_of_cache_graph)
next
  fix h :: graph_hub and f
  assume "graph_cache_ok (fh_latest h)"
  then show "\<exists>snapshot. join_graphs io f h = (fh_next h, snapshot, snd (fan_register f h)) \<and>
      apply_all put_graph snapshot = map_of (fh_latest h) |` {k. matches_filter f k}"
    using snapshot_view [OF _ io] by (simp add: subscribe_graphs_def fan_register_def)
next
  fix g f and m :: "test_key \<rightharpoonup> topology_graph"
  show "matches_filter f (graph_key g) \<Longrightarrow>
      put_graph g m |` {k. matches_filter f k} = put_graph g (m |` {k. matches_filter f k})"
    by (auto simp: put_graph_def restrict_map_def fun_eq_iff)
  show "\<not> matches_filter f (graph_key g) \<Longrightarrow>
      put_graph g m |` {k. matches_filter f k} = m |` {k. matches_filter f k}"
    by (auto simp: put_graph_def restrict_map_def fun_eq_iff)
qed

interpretation graphs: cached_fan_out broadcast_begin "join_graphs (\<lambda>gs. gs)" graph_key put_graph
  "\<lambda>f. {k. matches_filter f k}" graph_cache_ok "\<lambda>_. True" "\<lambda>_. True"
  by (rule graph_hub_fan_out) simp

text \<open>
  C39: A browser that keeps up sees what Tusk has cached.  However broadcasts, subscriptions, departures and
  reads interleave, and in whatever order a map is iterated: a registered browser that lost no frame and
  has read all that is due to it, the frame in flight included, shows exactly the cached graphs its filter
  admits, so no update falls between its snapshot and its stream.  No channel holds more than
  \<^const>\<open>clientBuffer\<close> graphs.
\<close>

theorem browser_sees_cache:
  assumes "\<And>xs. mset (io xs) = mset xs"
    and "fan_reaches broadcast_begin (join_graphs io) (\<lambda>_. True) s"
    and "map_of (fh_clients (fr_hub s)) i = Some f" "i \<notin> set (fr_dropped s)" "due i s = []"
  shows "foldl (\<lambda>m g. put_graph g m) Map.empty (go_get [] (fr_seen s) i) =
      map_of (fh_latest (fr_hub s)) |` {k. matches_filter f k} \<and>
    (\<forall>j. length (chan_of j (fr_hub s)) \<le> clientBuffer)"
proof -
  note hub = graph_hub_fan_out [OF assms(1)]
  have "fan_reaches broadcast_begin (join_graphs io) (\<lambda>e. case e of Broadcast g \<Rightarrow> True | Join f \<Rightarrow> True | _ \<Rightarrow> True) s"
    using assms(2) by (rule back_subst [of "\<lambda>a. fan_reaches broadcast_begin (join_graphs io) a s"])
      (auto split: fan_event.split)
  note ok = cached_fan_out.client_current [OF hub this]
  have "shown put_graph i s = map_of (fh_latest (fr_hub s)) |` {k. matches_filter f k}"
    by (rule cached_fan_out.hub_okD(4) [OF hub ok assms(3,4)])
  moreover have "length (chan_of j (fr_hub s)) \<le> clientBuffer" for j
    using cached_fan_out.hub_okD(1) [OF hub ok] unfolding fan_wf_def
    by (auto simp: chan_of_def split: option.split)
  ultimately show ?thesis
    using assms(5) by (simp add: shown_def)
qed

definition sample_graph :: "string \<Rightarrow> string \<Rightarrow> topology_graph" where
  "sample_graph name phase = \<lparr>tg_test = name, tg_namespace = ''ns'', tg_phase = phase, tg_boot_step = [], tg_mode = [],
     tg_message = [], tg_nodes = [], tg_edges = []\<rparr>"

definition sample_browsing :: "topology_graph fan_event list" where
  "sample_browsing =
     [Broadcast (sample_graph ''a'' ''Ready''), SendNext, Join ([], ''a''), Broadcast (sample_graph ''b'' ''Ready''),
      SendNext, Broadcast (sample_graph ''a'' ''Failed''), SendNext, SendNext, Read 0]"

definition sample_browsed :: "(test_key, topology_graph) fan_run" where
  "sample_browsed = the (fan_exec broadcast_begin (join_graphs (\<lambda>gs. gs)) sample_browsing fan_start)"

lemma sample_browsed_facts:
  "fan_exec broadcast_begin (join_graphs (\<lambda>gs. gs)) sample_browsing fan_start = Some sample_browsed"
  "map_of (fh_clients (fr_hub sample_browsed)) 0 = Some ([], ''a'')"
  "0 \<notin> set (fr_dropped sample_browsed)" "due 0 sample_browsed = []"
  by code_simp+

theorem browser_sees_cache_witness:
  "foldl (\<lambda>m g. put_graph g m) Map.empty (go_get [] (fr_seen sample_browsed) 0) =
     map_of (fh_latest (fr_hub sample_browsed)) |` {k. matches_filter ([], ''a'') k}"
proof -
  have "fan_reaches broadcast_begin (join_graphs (\<lambda>gs. gs)) (\<lambda>_. True) sample_browsed"
    by (rule fan_exec_reaches [OF fan_reaches.init _ sample_browsed_facts(1)])
      (simp add: list_all_iff)
  then show ?thesis
    using browser_sees_cache [of "\<lambda>gs. gs", OF refl _ sample_browsed_facts(2-4)] by blast
qed

text \<open>
  The sends of a broadcast are made without the lock: a browser that leaves after it was collected and
  before its turn closes the channel, and the send panics.
\<close>

lemma departing_browser_panics:
  "fan_exec broadcast_begin (join_graphs (\<lambda>gs. gs))
     [Join ([], []), Broadcast (sample_graph ''a'' ''Ready''), Leave 0, SendNext] fan_start = None"
  by code_simp

text \<open>A full channel keeps what it has: it is the newest frame that is lost, not the oldest.\<close>

lemma full_channel_keeps_oldest:
  "\<not> ch_closed c \<Longrightarrow> length (ch_buf c) = cap \<Longrightarrow> try_send cap v c = Some c"
  by (simp add: try_send_def)

section \<open>Diff frames\<close>

fun put_frame :: "diff_frame \<Rightarrow> (string \<rightharpoonup> diff_frame) \<Rightarrow> (string \<rightharpoonup> diff_frame)" where
  "put_frame (SummaryFrame s) m = m(diff_cache_key (frame_ids (SummaryFrame s)) \<mapsto> SummaryFrame s)"
| "put_frame (VerdictFrame v) m = m"

definition diff_cache_ok :: "(string \<times> diff_frame) list \<Rightarrow> bool" where
  "diff_cache_ok latest \<longleftrightarrow>
     list_all (\<lambda>(k, fr). case fr of SummaryFrame s \<Rightarrow> k = diff_cache_key (frame_ids fr) | VerdictFrame v \<Rightarrow> False) latest"

lemma diff_cache_key_inject:
  assumes "CHR 0x00 \<notin> set s" "CHR 0x00 \<notin> set s'"
  shows "diff_cache_key (s, e) = diff_cache_key (s', e') \<longleftrightarrow> s = s' \<and> e = e'"
proof
  assume eq: "diff_cache_key (s, e) = diff_cache_key (s', e')"
  have "takeWhile (\<lambda>c. c \<noteq> CHR 0x00) (diff_cache_key (x, y)) = x" if "CHR 0x00 \<notin> set x" for x y
    using that by (simp add: diff_cache_key_def)
  then have "s = s'"
    using assms eq by metis
  then show "s = s' \<and> e = e'"
    using eq by (simp add: diff_cache_key_def)
qed simp

lemma put_summary: "put_frame (SummaryFrame s) m = m(diff_cache_key (sm_session s, sm_execution s) \<mapsto> SummaryFrame s)"
  by simp

lemma cache_frame_law:
  assumes "diff_cache_ok latest"
  shows "diff_cache_ok (cache_frame fr latest) \<and> map_of (cache_frame fr latest) = put_frame fr (map_of latest)"
proof (cases fr)
  case (SummaryFrame s)
  let ?entry = "(diff_cache_key (frame_ids fr), fr)"
  have "set (cache_frame fr latest) \<subseteq> insert ?entry (set latest)"
    using set_update_subset [of "diff_cache_key (frame_ids fr)" fr latest] by (simp only: SummaryFrame cache_frame.simps)
  moreover have "list_all (\<lambda>(k, fr). case fr of SummaryFrame s \<Rightarrow> k = diff_cache_key (frame_ids fr) | VerdictFrame v \<Rightarrow> False) [?entry]"
    by (simp add: SummaryFrame)
  ultimately have "diff_cache_ok (cache_frame fr latest)"
    using assms unfolding diff_cache_ok_def list_all_iff by auto
  then show ?thesis
    by (simp only: SummaryFrame cache_frame.simps put_frame.simps update_conv' simp_thms)
qed (use assms in simp)

lemma diff_snapshot_law:
  assumes "diff_cache_ok latest"
  shows "apply_all put_frame (case map_of latest (diff_cache_key f) of Some fr \<Rightarrow> [fr] | None \<Rightarrow> []) =
    map_of latest |` {diff_cache_key f}"
proof (cases "map_of latest (diff_cache_key f)")
  case None
  then show ?thesis
    by (simp add: restrict_map_def fun_eq_iff)
next
  case (Some fr)
  then have "(diff_cache_key f, fr) \<in> set latest"
    by (rule map_of_SomeD)
  then have "case fr of SummaryFrame s \<Rightarrow> diff_cache_key f = diff_cache_key (frame_ids fr) | VerdictFrame v \<Rightarrow> False"
    using assms unfolding diff_cache_ok_def list_all_iff by blast
  then obtain s where "fr = SummaryFrame s" "diff_cache_key (frame_ids fr) = diff_cache_key f"
    by (cases fr) simp_all
  then have "apply_all put_frame [fr] = [diff_cache_key f \<mapsto> fr]"
    by simp
  moreover have "map_of latest |` {diff_cache_key f} = [diff_cache_key f \<mapsto> fr]"
    using Some by (simp add: restrict_map_def fun_eq_iff)
  ultimately show ?thesis
    using Some by simp
qed

lemma restrict_upd: "m(k \<mapsto> v) |` {k'} = (if k = k' then (m |` {k'})(k \<mapsto> v) else m |` {k'})"
  by (simp add: restrict_map_def fun_eq_iff)

lemma frame_matches_iff:
  fixes f :: "string \<times> string"
  assumes "fst f \<noteq> []" "snd f \<noteq> []" "CHR 0x00 \<notin> set (fst f)" "CHR 0x00 \<notin> set (fst (frame_ids fr))"
  shows "matches_filter f (frame_ids fr) \<longleftrightarrow> diff_cache_key (frame_ids fr) = diff_cache_key f"
  using assms diff_cache_key_inject [of "fst (frame_ids fr)" "fst f" "snd (frame_ids fr)" "snd f"]
  by (auto simp: matches_filter_def)

interpretation diffs: cached_fan_out diff_broadcast_begin "\<lambda>f h. subscribe_diffs (\<lambda>fs. fs) (fst f) (snd f) h"
  frame_ids put_frame "\<lambda>f. {diff_cache_key f}" diff_cache_ok "\<lambda>fr. CHR 0x00 \<notin> set (fst (frame_ids fr))"
  "\<lambda>f. fst f \<noteq> [] \<and> snd f \<noteq> [] \<and> CHR 0x00 \<notin> set (fst f)"
proof
  show "diff_cache_ok []"
    by (simp add: diff_cache_ok_def)
next
  fix h :: diff_hub and fr
  assume ok: "diff_cache_ok (fh_latest h)"
  show "\<exists>L. diff_broadcast_begin fr h =
        (fan_collect (\<lambda>f. matches_filter f (frame_ids fr)) h, h\<lparr>fh_latest := L\<rparr>) \<and>
      diff_cache_ok L \<and> map_of L = put_frame fr (map_of (fh_latest h))"
    by (rule exI [of _ "cache_frame fr (fh_latest h)"]) (simp only: diff_broadcast_begin_def cache_frame_law [OF ok])
next
  fix h :: diff_hub and f :: "string \<times> string"
  assume ok: "diff_cache_ok (fh_latest h)" and f: "fst f \<noteq> [] \<and> snd f \<noteq> [] \<and> CHR 0x00 \<notin> set (fst f)"
  let ?snap = "case map_of (fh_latest h) (diff_cache_key f) of Some fr \<Rightarrow> [fr] | None \<Rightarrow> []"
  have "subscribe_diffs (\<lambda>fs. fs) (fst f) (snd f) h = (fh_next h, ?snap, snd (fan_register f h))"
    using f by (simp add: subscribe_diffs_def fan_register_def)
  then show "\<exists>snapshot. subscribe_diffs (\<lambda>fs. fs) (fst f) (snd f) h = (fh_next h, snapshot, snd (fan_register f h)) \<and>
      apply_all put_frame snapshot = map_of (fh_latest h) |` {diff_cache_key f}"
    using diff_snapshot_law [OF ok, of f] by blast
next
  fix fr and f :: "string \<times> string" and m :: "string \<rightharpoonup> diff_frame"
  assume fr: "CHR 0x00 \<notin> set (fst (frame_ids fr))" and f: "fst f \<noteq> [] \<and> snd f \<noteq> [] \<and> CHR 0x00 \<notin> set (fst f)"
  have iff: "matches_filter f (frame_ids fr) \<longleftrightarrow> diff_cache_key (frame_ids fr) = diff_cache_key f"
    using f fr by (intro frame_matches_iff) auto
  show "put_frame fr m |` {diff_cache_key f} = put_frame fr (m |` {diff_cache_key f})" if "matches_filter f (frame_ids fr)"
    using that unfolding iff by (cases fr) (simp_all only: put_frame.simps restrict_upd simp_thms if_True)
  show "put_frame fr m |` {diff_cache_key f} = m |` {diff_cache_key f}" if "\<not> matches_filter f (frame_ids fr)"
    using that unfolding iff by (cases fr) (simp_all only: put_frame.simps restrict_upd if_False)
qed

text \<open>
  A summary that was read from the store before a notification and is cached after it replaces the newer
  one, and the browser that subscribes then is handed the older.
\<close>

lemma stale_summary_cached:
  assumes "sm_session old \<noteq> []" "sm_execution old = sm_execution new" "sm_session old = sm_session new"
    and "broadcast_summary new new_fan_hub = Some h"
  shows "fst (snd (subscribe_diffs io (sm_session old) (sm_execution old) (cache_summary old h))) = [SummaryFrame old]"
  using assms by (simp add: cache_summary_def subscribe_diffs_def fan_register_def update_conv')

section \<open>From Monarch's hub to Tusk's cache\<close>

text \<open>
  The tests of the cluster, as their last published status leaves them; the operator publishes a
  status after writing it, and a tombstone when a test is gone.
\<close>

definition test_key_of :: "shadow_cr \<Rightarrow> test_key" where
  "test_key_of st = (st_namespace st, st_name st)"

definition test_deleted :: "shadow_cr \<Rightarrow> bool" where
  "test_deleted st \<longleftrightarrow> sta_phase (st_status st) = PhaseDeleted"

definition cluster_after :: "shadow_cr \<Rightarrow> (test_key \<rightharpoonup> shadow_cr) \<Rightarrow> (test_key \<rightharpoonup> shadow_cr)" where
  "cluster_after st m = (if test_deleted st then m(test_key_of st := None) else m(test_key_of st \<mapsto> st))"

definition graph_of :: "shadow_cr \<Rightarrow> topology_graph" where
  "graph_of st = build_topology_graph (to_status_update st)"

text \<open>
  A stream that watches every test: it has subscribed, then lists the cluster, then sends what its
  channel holds, while the operator publishes and other streams come, go and receive.
\<close>

record watch =
  wt_cluster :: "test_key \<rightharpoonup> shadow_cr"
  wt_hub :: status_hub
  wt_id :: nat
  wt_streaming :: bool
  wt_sent :: "status_update list"
  wt_published :: "test_key set"
  wt_dropped :: bool

definition pending_of :: "nat \<Rightarrow> status_hub \<Rightarrow> status_update list" where
  "pending_of i h = (case map_of (sh_subs h) i of Some s \<Rightarrow> ch_buf (sb_chan s) | None \<Rightarrow> [])"

definition watch_open :: "(test_key \<rightharpoonup> shadow_cr) \<Rightarrow> status_hub \<Rightarrow> watch" where
  "watch_open cluster h =
     (let (i, h1) = subscribe_status [] [] h
      in \<lparr>wt_cluster = cluster, wt_hub = h1, wt_id = i, wt_streaming = False, wt_sent = [], wt_published = {},
          wt_dropped = False\<rparr>)"

definition lists_cluster :: "shadow_cr list \<Rightarrow> (test_key \<rightharpoonup> shadow_cr) \<Rightarrow> bool" where
  "lists_cluster items cluster \<longleftrightarrow>
     distinct (map test_key_of items) \<and> map_of (map (\<lambda>st. (test_key_of st, st)) items) = cluster"

inductive watch_reaches :: "(test_key \<rightharpoonup> shadow_cr) \<Rightarrow> status_hub \<Rightarrow> watch \<Rightarrow> bool" for cluster0 h0 where
  opened: "watch_reaches cluster0 h0 (watch_open cluster0 h0)"
| published: "watch_reaches cluster0 h0 w \<Longrightarrow> publish_status st (wt_hub w) = Some h \<Longrightarrow>
    watch_reaches cluster0 h0
      (w\<lparr>wt_cluster := cluster_after st (wt_cluster w), wt_hub := h,
         wt_published := insert (test_key_of st) (wt_published w),
         wt_dropped := (wt_dropped w \<or> subscriberBuffer \<le> length (pending_of (wt_id w) (wt_hub w)))\<rparr>)"
| listed: "watch_reaches cluster0 h0 w \<Longrightarrow> \<not> wt_streaming w \<Longrightarrow> lists_cluster items (wt_cluster w) \<Longrightarrow>
    watch_reaches cluster0 h0 (w\<lparr>wt_streaming := True, wt_sent := wt_sent w @ snapshot_updates [] [] items\<rparr>)"
| streamed: "watch_reaches cluster0 h0 w \<Longrightarrow> wt_streaming w \<Longrightarrow> receive_status (wt_id w) (wt_hub w) = Some (u, h) \<Longrightarrow>
    watch_reaches cluster0 h0 (w\<lparr>wt_hub := h, wt_sent := wt_sent w @ [u]\<rparr>)"
| other_joins: "watch_reaches cluster0 h0 w \<Longrightarrow>
    watch_reaches cluster0 h0 (w\<lparr>wt_hub := snd (subscribe_status name namespace (wt_hub w))\<rparr>)"
| other_leaves: "watch_reaches cluster0 h0 w \<Longrightarrow> i \<noteq> wt_id w \<Longrightarrow>
    watch_reaches cluster0 h0 (w\<lparr>wt_hub := unsubscribe_status i (wt_hub w)\<rparr>)"
| other_receives: "watch_reaches cluster0 h0 w \<Longrightarrow> i \<noteq> wt_id w \<Longrightarrow> receive_status i (wt_hub w) = Some (u, h) \<Longrightarrow>
    watch_reaches cluster0 h0 (w\<lparr>wt_hub := h\<rparr>)"

text \<open>Every channel of the hub is open, so that a publication cannot panic.\<close>

definition status_hub_ok :: "status_hub \<Rightarrow> bool" where
  "status_hub_ok h \<longleftrightarrow> (\<forall>(i, s) \<in> set (sh_subs h). i < sh_next h \<and> \<not> ch_closed (sb_chan s))"

definition sent_to :: "status_update \<Rightarrow> subscriber \<Rightarrow> subscriber" where
  "sent_to u s =
     (if subscriber_wants s u \<and> length (ch_buf (sb_chan s)) < subscriberBuffer
      then s\<lparr>sb_chan := (sb_chan s)\<lparr>ch_buf := ch_buf (sb_chan s) @ [u]\<rparr>\<rparr> else s)"

lemma subscriber_send_open: "\<not> ch_closed (sb_chan s) \<Longrightarrow> subscriber_send u s = Some (sent_to u s)"
  by (simp add: subscriber_send_def try_send_def sent_to_def)

lemma publish_status_open:
  assumes "status_hub_ok h"
  shows "publish_status st h =
    Some (h\<lparr>sh_subs := map (\<lambda>(i, s). (i, sent_to (to_status_update st) s)) (sh_subs h)\<rparr>)"
proof -
  let ?u = "to_status_update st"
  have "those (map (\<lambda>(i, s). map_option (Pair i) (subscriber_send ?u s)) subs) =
      Some (map (\<lambda>(i, s). (i, sent_to ?u s)) subs)"
    if "\<forall>(i, s) \<in> set subs. \<not> ch_closed (sb_chan s)" for subs
    using that by (induction subs) (auto simp: subscriber_send_open)
  from this [of "sh_subs h"] assms show ?thesis
    by (auto simp: publish_status_def Let_def status_hub_ok_def)
qed

lemma map_of_map_snd: "map_of (map (\<lambda>(i, s). (i, g s)) m) k = map_option g (map_of m k)"
  by (induction m) auto

lemma sent_to_closed: "ch_closed (sb_chan (sent_to u s)) = ch_closed (sb_chan s)"
  by (simp add: sent_to_def)

lemma status_hub_ok_publish:
  assumes "status_hub_ok h" "publish_status st h = Some h'"
  shows "status_hub_ok h'" "sh_next h' = sh_next h"
    "map_of (sh_subs h') i = map_option (sent_to (to_status_update st)) (map_of (sh_subs h) i)"
proof -
  have h': "h' = h\<lparr>sh_subs := map (\<lambda>(i, s). (i, sent_to (to_status_update st) s)) (sh_subs h)\<rparr>"
    using assms publish_status_open by simp
  show "status_hub_ok h'"
    using assms(1) by (auto simp: h' status_hub_ok_def sent_to_closed)
  show "sh_next h' = sh_next h" "map_of (sh_subs h') i = map_option (sent_to (to_status_update st)) (map_of (sh_subs h) i)"
    by (simp_all add: h' map_of_map_snd)
qed

lemma status_hub_ok_subscribe:
  assumes "status_hub_ok h"
  shows "status_hub_ok (snd (subscribe_status name namespace h))"
    "map_of (sh_subs h) i = Some s \<Longrightarrow> map_of (sh_subs (snd (subscribe_status name namespace h))) i = Some s"
    "map_of (sh_subs (snd (subscribe_status name namespace h))) (sh_next h) =
       Some \<lparr>sb_chan = new_chan, sb_filter = (name, namespace)\<rparr>"
proof -
  show "status_hub_ok (snd (subscribe_status name namespace h))"
    using assms by (auto simp: status_hub_ok_def subscribe_status_def new_chan_def)
  have "map_of (sh_subs h) (sh_next h) = None"
    using assms by (force simp: status_hub_ok_def map_of_eq_None_iff)
  then show "map_of (sh_subs (snd (subscribe_status name namespace h))) (sh_next h) =
       Some \<lparr>sb_chan = new_chan, sb_filter = (name, namespace)\<rparr>"
    by (simp add: subscribe_status_def map_add_def)
  show "map_of (sh_subs h) i = Some s \<Longrightarrow> map_of (sh_subs (snd (subscribe_status name namespace h))) i = Some s"
    using \<open>map_of (sh_subs h) (sh_next h) = None\<close>
    by (cases "i = sh_next h") (simp_all add: subscribe_status_def map_add_def)
qed

lemma status_hub_ok_unsubscribe:
  assumes "status_hub_ok h"
  shows "status_hub_ok (unsubscribe_status i h)"
    "j \<noteq> i \<Longrightarrow> map_of (sh_subs (unsubscribe_status i h)) j = map_of (sh_subs h) j"
  using assms by (auto simp: status_hub_ok_def unsubscribe_status_def map_of_filter_other)

lemma status_hub_ok_receive:
  assumes "status_hub_ok h" "receive_status i h = Some (u, h')"
  shows "status_hub_ok h'" "j \<noteq> i \<Longrightarrow> map_of (sh_subs h') j = map_of (sh_subs h) j"
    "\<exists>s us. map_of (sh_subs h) i = Some s \<and> ch_buf (sb_chan s) = u # us \<and>
       map_of (sh_subs h') i = Some (s\<lparr>sb_chan := (sb_chan s)\<lparr>ch_buf := us\<rparr>\<rparr>)"
proof -
  obtain s us where s: "map_of (sh_subs h) i = Some s" "ch_buf (sb_chan s) = u # us"
      and h': "h' = h\<lparr>sh_subs := AList.update i (s\<lparr>sb_chan := (sb_chan s)\<lparr>ch_buf := us\<rparr>\<rparr>) (sh_subs h)\<rparr>"
    using assms(2) by (auto simp: receive_status_def split: option.splits list.splits)
  let ?entry = "(i, s\<lparr>sb_chan := (sb_chan s)\<lparr>ch_buf := us\<rparr>\<rparr>)"
  have "set (sh_subs h') \<subseteq> insert ?entry (set (sh_subs h))"
    using set_update_subset [of i "snd ?entry" "sh_subs h"] by (simp add: h')
  moreover have "i < sh_next h" "\<not> ch_closed (sb_chan s)"
    using assms(1) map_of_SomeD [OF s(1)] by (auto simp: status_hub_ok_def)
  ultimately show "status_hub_ok h'"
    using assms(1) unfolding status_hub_ok_def h' by auto
  show "j \<noteq> i \<Longrightarrow> map_of (sh_subs h') j = map_of (sh_subs h) j"
    by (simp add: h' update_conv')
  show "\<exists>s us. map_of (sh_subs h) i = Some s \<and> ch_buf (sb_chan s) = u # us \<and>
       map_of (sh_subs h') i = Some (s\<lparr>sb_chan := (sb_chan s)\<lparr>ch_buf := us\<rparr>\<rparr>)"
    using s by (simp add: h' update_conv')
qed

text \<open>The graphs of tests, and a cache after a sequence of updates.\<close>

lemma built_graph:
  "graph_key (build_topology_graph u) = (su_namespace u, su_test u)"
  "tg_phase (build_topology_graph u) = phase_label (su_phase u)"
  by (simp_all add: build_topology_graph_def graph_key_def Let_def)

lemma phase_label_deleted: "phase_label p = ''Deleted'' \<longleftrightarrow> p = PHASE_DELETED"
  by (cases p) simp_all

lemma to_phase_deleted: "to_phase s = PHASE_DELETED \<longleftrightarrow> s = PhaseDeleted"
  by (simp add: to_phase_def) (simp add: phase_defs)

lemma to_status_update_fields:
  "su_test (to_status_update st) = st_name st" "su_namespace (to_status_update st) = st_namespace st"
  "su_phase (to_status_update st) = to_phase (sta_phase (st_status st))"
  by (simp_all add: to_status_update_def Let_def)

lemma graph_of_facts:
  "graph_key (graph_of st) = test_key_of st" "tg_phase (graph_of st) = ''Deleted'' \<longleftrightarrow> test_deleted st"
  unfolding graph_of_def built_graph to_status_update_fields phase_label_deleted to_phase_deleted
  by (simp_all add: test_key_of_def test_deleted_def)

definition cache_after :: "status_update list \<Rightarrow> (test_key \<rightharpoonup> topology_graph) \<Rightarrow> (test_key \<rightharpoonup> topology_graph)" where
  "cache_after us m = foldl (\<lambda>m u. put_graph (build_topology_graph u) m) m us"

lemma cache_after_append: "cache_after (us @ vs) m = cache_after vs (cache_after us m)"
  by (simp add: cache_after_def)

lemma cache_after_published:
  "cache_after [to_status_update st] m k =
     (if k = test_key_of st then (if test_deleted st then None else Some (graph_of st)) else m k)"
  using graph_of_facts [of st] by (simp add: cache_after_def put_graph_def graph_of_def)

lemma cache_after_snapshot:
  assumes "lists_cluster items cluster" "\<forall>st \<in> set items. \<not> test_deleted st"
  shows "cache_after (snapshot_updates [] [] items) m k =
    (case cluster k of Some st \<Rightarrow> Some (graph_of st) | None \<Rightarrow> m k)"
proof -
  have "cache_after (snapshot_updates [] [] items) m = foldl (\<lambda>m g. put_graph g m) m (map graph_of items)"
    by (simp add: cache_after_def snapshot_updates_def graph_of_def foldl_map)
  also have "\<dots> = m ++ map_of (keyed (map graph_of items))"
    using assms by (intro put_graphs) (simp_all add: lists_cluster_def comp_def graph_of_facts)
  also have "keyed (map graph_of items) = map (\<lambda>(k, st). (k, graph_of st)) (map (\<lambda>st. (test_key_of st, st)) items)"
    by (simp add: graph_of_facts)
  also have "map_of \<dots> = map_option graph_of \<circ> cluster"
  proof
    show "map_of (map (\<lambda>(k, st). (k, graph_of st)) (map (\<lambda>st. (test_key_of st, st)) items)) k = (map_option graph_of \<circ> cluster) k" for k
      using assms(1) unfolding map_of_map_snd by (simp only: lists_cluster_def comp_apply)
  qed
  finally show ?thesis
    by (simp add: map_add_def split: option.split)
qed

lemma consume_updates_cache:
  "consume_updates us h = Some h' \<Longrightarrow> map_of (fh_latest h') = cache_after us (map_of (fh_latest h))"
proof (induction us arbitrary: h)
  case (Cons u us)
  have "fh_latest h1 = cache_graph g (fh_latest h)" if "broadcast_graph g h = Some h1" for g h1 and h :: graph_hub
  proof -
    have "fan_send_all g ids h = Some h1 \<Longrightarrow> fh_latest h1 = fh_latest h" for ids and h :: graph_hub
      by (induction ids arbitrary: h) (auto simp: fan_send_def split: option.splits)
    then show ?thesis
      using that by (fastforce simp: broadcast_graph_def broadcast_begin_def)
  qed
  then show ?case
    using Cons by (auto simp: cache_after_def map_of_cache_graph split: option.splits)
qed (simp add: cache_after_def)

text \<open>
  The invariant of a watching stream.  Before the listing, its channel holds every update since it
  subscribed; afterwards what it sent and will send turns any cache into that of the cluster, but for
  tests that cache knew and neither the listing nor an update mentioned.
\<close>

definition cluster_ok :: "(test_key \<rightharpoonup> shadow_cr) \<Rightarrow> bool" where
  "cluster_ok cluster \<longleftrightarrow> (\<forall>k st. cluster k = Some st \<longrightarrow> test_key_of st = k \<and> \<not> test_deleted st)"

definition watch_target :: "watch \<Rightarrow> (test_key \<rightharpoonup> topology_graph) \<Rightarrow> test_key \<Rightarrow> topology_graph option" where
  "watch_target w m k =
     (case wt_cluster w k of
        Some st \<Rightarrow> if wt_streaming w \<or> k \<in> wt_published w then Some (graph_of st) else m k
      | None \<Rightarrow> if k \<in> wt_published w then None else m k)"

definition watch_ok :: "watch \<Rightarrow> bool" where
  "watch_ok w \<longleftrightarrow>
     status_hub_ok (wt_hub w) \<and> cluster_ok (wt_cluster w) \<and> (wt_streaming w \<or> wt_sent w = []) \<and>
     (\<exists>s. map_of (sh_subs (wt_hub w)) (wt_id w) = Some s \<and> sb_filter s = ([], [])) \<and>
     (wt_dropped w \<or> (\<forall>m. cache_after (wt_sent w @ pending_of (wt_id w) (wt_hub w)) m = watch_target w m))"

lemma watch_target_cong:
  "wt_cluster w' = wt_cluster w \<Longrightarrow> wt_streaming w' = wt_streaming w \<Longrightarrow> wt_published w' = wt_published w \<Longrightarrow>
     watch_target w' = watch_target w"
  by (rule ext)+ (simp only: watch_target_def)

lemma cluster_ok_after: "cluster_ok cluster \<Longrightarrow> cluster_ok (cluster_after st cluster)"
  by (auto simp: cluster_ok_def cluster_after_def split: if_splits)

lemma watch_ok_open:
  assumes "status_hub_ok h" "cluster_ok cluster"
  shows "watch_ok (watch_open cluster h)"
proof -
  obtain i h1 where s: "subscribe_status [] [] h = (i, h1)" by force
  then have i: "i = sh_next h" "h1 = snd (subscribe_status [] [] h)"
    by (auto simp: subscribe_status_def)
  note sub = status_hub_ok_subscribe [OF assms(1), where name = "[]" and namespace = "[]", folded i]
  have "pending_of i h1 = []"
    using sub(3) by (simp add: pending_of_def new_chan_def)
  then show ?thesis
    using sub(1,3) assms(2)
    by (simp add: watch_ok_def watch_open_def s watch_target_def cache_after_def fun_eq_iff split: option.split)
qed

lemma watch_ok_published:
  assumes ok: "watch_ok w" and p: "publish_status st (wt_hub w) = Some h"
  shows "watch_ok (w\<lparr>wt_cluster := cluster_after st (wt_cluster w), wt_hub := h,
      wt_published := insert (test_key_of st) (wt_published w),
      wt_dropped := (wt_dropped w \<or> subscriberBuffer \<le> length (pending_of (wt_id w) (wt_hub w)))\<rparr>)"
    (is "watch_ok ?w")
proof -
  have hub: "status_hub_ok (wt_hub w)"
    using ok by (simp add: watch_ok_def)
  obtain s where s: "map_of (sh_subs (wt_hub w)) (wt_id w) = Some s" "sb_filter s = ([], [])"
    using ok by (auto simp: watch_ok_def)
  note h = status_hub_ok_publish [OF hub p]
  have s': "map_of (sh_subs h) (wt_id w) = Some (sent_to (to_status_update st) s)"
      "sb_filter (sent_to (to_status_update st) s) = ([], [])"
    using s by (simp_all add: h(3) sent_to_def)
  have pend: "pending_of (wt_id w) h = pending_of (wt_id w) (wt_hub w) @ [to_status_update st]"
    if "length (pending_of (wt_id w) (wt_hub w)) < subscriberBuffer"
    using that s by (simp add: pending_of_def h(3) sent_to_def subscriber_wants_def matches_filter_def)
  have "cache_after (wt_sent ?w @ pending_of (wt_id ?w) (wt_hub ?w)) m = watch_target ?w m"
    if "\<not> wt_dropped ?w" for m
  proof
    fix k
    have "cache_after (wt_sent w @ pending_of (wt_id w) (wt_hub w)) m = watch_target w m"
      using that ok by (simp add: watch_ok_def)
    moreover have "wt_sent ?w @ pending_of (wt_id ?w) (wt_hub ?w) =
        (wt_sent w @ pending_of (wt_id w) (wt_hub w)) @ [to_status_update st]"
      using that pend by simp
    ultimately have "cache_after (wt_sent ?w @ pending_of (wt_id ?w) (wt_hub ?w)) m = cache_after [to_status_update st] (watch_target w m)"
      by (simp only: cache_after_append)
    then show "cache_after (wt_sent ?w @ pending_of (wt_id ?w) (wt_hub ?w)) m k = watch_target ?w m k"
      by (simp add: cache_after_published watch_target_def cluster_after_def split: option.split)
  qed
  then show ?thesis
    using ok h(1) s' cluster_ok_after unfolding watch_ok_def by auto
qed

lemma watch_ok_listed:
  assumes ok: "watch_ok w" and "\<not> wt_streaming w" and l: "lists_cluster items (wt_cluster w)"
  shows "watch_ok (w\<lparr>wt_streaming := True, wt_sent := wt_sent w @ snapshot_updates [] [] items\<rparr>)" (is "watch_ok ?w")
proof -
  have cl: "cluster_ok (wt_cluster w)" and sent: "wt_sent w = []"
    using ok assms(2) by (simp_all add: watch_ok_def)
  have "wt_cluster w (test_key_of st) = Some st" if "st \<in> set items" for st
  proof -
    have "map_of (map (\<lambda>st. (test_key_of st, st)) items) (test_key_of st) = Some st"
      using l that by (intro map_of_is_SomeI) (auto simp: lists_cluster_def comp_def)
    then show ?thesis
      using l by (simp add: lists_cluster_def)
  qed
  then have live: "\<forall>st \<in> set items. \<not> test_deleted st"
    using cl unfolding cluster_ok_def by blast
  have "cache_after (wt_sent ?w @ pending_of (wt_id ?w) (wt_hub ?w)) m = watch_target ?w m"
    if "\<not> wt_dropped w" for m
  proof
    fix k
    have "cache_after (pending_of (wt_id w) (wt_hub w)) m' = watch_target w m'" for m'
      using that ok sent by (simp add: watch_ok_def)
    then show "cache_after (wt_sent ?w @ pending_of (wt_id ?w) (wt_hub ?w)) m k = watch_target ?w m k"
      using assms(2) sent
      by (simp add: cache_after_append watch_target_def cache_after_snapshot [OF l live] split: option.split)
  qed
  then show ?thesis
    using ok unfolding watch_ok_def by auto
qed

lemma watch_ok_streamed:
  assumes ok: "watch_ok w" and "wt_streaming w" and r: "receive_status (wt_id w) (wt_hub w) = Some (u, h)"
  shows "watch_ok (w\<lparr>wt_hub := h, wt_sent := wt_sent w @ [u]\<rparr>)"
proof -
  have hub: "status_hub_ok (wt_hub w)"
    using ok by (simp add: watch_ok_def)
  obtain s us where s: "map_of (sh_subs (wt_hub w)) (wt_id w) = Some s" "ch_buf (sb_chan s) = u # us"
      "map_of (sh_subs h) (wt_id w) = Some (s\<lparr>sb_chan := (sb_chan s)\<lparr>ch_buf := us\<rparr>\<rparr>)"
    using status_hub_ok_receive(3) [OF hub r] by blast
  then have "pending_of (wt_id w) (wt_hub w) = u # pending_of (wt_id w) h"
    by (simp add: pending_of_def)
  then show ?thesis
    using ok assms(2) s(1,3) status_hub_ok_receive(1) [OF hub r]
      watch_target_cong [of "w\<lparr>wt_hub := h, wt_sent := wt_sent w @ [u]\<rparr>" w]
    by (auto simp: watch_ok_def)
qed

text \<open>What happens to other streams leaves a stream alone.\<close>

lemma watch_ok_other:
  assumes ok: "watch_ok w" and "status_hub_ok h"
    and "map_of (sh_subs h) (wt_id w) = map_of (sh_subs (wt_hub w)) (wt_id w)"
  shows "watch_ok (w\<lparr>wt_hub := h\<rparr>)"
proof -
  have "watch_target (w\<lparr>wt_hub := h\<rparr>) m = watch_target w m" for m
    by (rule fun_cong [OF watch_target_cong]) simp_all
  moreover have "pending_of (wt_id w) h = pending_of (wt_id w) (wt_hub w)"
    using assms(3) by (simp add: pending_of_def)
  ultimately show ?thesis
    using assms by (simp add: watch_ok_def)
qed

lemma watch_reaches_ok:
  assumes "watch_reaches cluster h w" "status_hub_ok h" "cluster_ok cluster"
  shows "watch_ok w"
  using assms(1)
proof induction
  case opened
  then show ?case by (rule watch_ok_open [OF assms(2,3)])
next
  case (published w st h)
  then show ?case by (blast intro: watch_ok_published)
next
  case (listed w items)
  then show ?case by (blast intro: watch_ok_listed)
next
  case (streamed w u h)
  then show ?case by (blast intro: watch_ok_streamed)
next
  case (other_joins w name namespace)
  then have hub: "status_hub_ok (wt_hub w)" and "\<exists>s. map_of (sh_subs (wt_hub w)) (wt_id w) = Some s"
    by (auto simp: watch_ok_def)
  then show ?case
    using other_joins status_hub_ok_subscribe(1,2) [OF hub] by (auto intro: watch_ok_other)
next
  case (other_leaves w i)
  then have hub: "status_hub_ok (wt_hub w)"
    by (simp add: watch_ok_def)
  show ?case
    using other_leaves status_hub_ok_unsubscribe [OF hub] by (auto intro: watch_ok_other)
next
  case (other_receives w i u h)
  then have hub: "status_hub_ok (wt_hub w)"
    by (simp add: watch_ok_def)
  show ?case
    using other_receives status_hub_ok_receive(1,2) [OF hub] by (auto intro: watch_ok_other)
qed













text \<open>
  A test deleted while no stream was open: the next stream does not mention it, and its graph stays in
  the cache for ever.
\<close>

lemma deleted_test_stays_cached:
  assumes "watch_reaches cluster h w" "status_hub_ok h" "cluster_ok cluster"
    and "wt_streaming w" "\<not> wt_dropped w" "pending_of (wt_id w) (wt_hub w) = []"
    and "consume_updates (wt_sent w) hub = Some hub'"
    and "wt_cluster w k = None" "k \<notin> wt_published w"
  shows "map_of (fh_latest hub') k = map_of (fh_latest hub) k"
proof -
  have "watch_ok w"
    using assms(1-3) by (rule watch_reaches_ok)
  then show ?thesis
    using consume_updates_cache [OF assms(7)] assms(5,6,8,9) by (simp add: watch_ok_def watch_target_def)
qed

text \<open>
  The listing reads the manager's cache, which may lag behind what was published: a status published
  before the stream subscribed and not yet in that cache is not sent at all.
\<close>

lemma lagging_list_misses_update:
  assumes "subscribe_status [] [] (the (publish_status st new_status_hub)) = (i, h)"
  shows "snapshot_updates [] [] [old] @ pending_of i h = [to_status_update old]"
  using assms
  by (auto simp: publish_status_def new_status_hub_def subscribe_status_def Let_def pending_of_def new_chan_def snapshot_updates_def)

end
