(* ===== verification/GoUrl.thy ===== *)
theory GoUrl
  imports GoStrings
begin

text \<open>
  \<^verbatim>\<open>net/url\<close> as the program uses it: \<^verbatim>\<open>url.Parse\<close> of Go 1.26 on text of single bytes, and the host name of
  its result.  Whether the text between brackets is an IPv6 address (\<^verbatim>\<open>netip.ParseAddr\<close>) is an argument.
\<close>

section \<open>Percent encoding\<close>

datatype url_part = UrlPath | UrlUser | UrlHost | UrlZone | UrlFragment

definition url_alnum :: "char \<Rightarrow> bool" where
  "url_alnum c \<longleftrightarrow> is_digit c \<or> CHR ''A'' \<le> c \<and> c \<le> CHR ''Z'' \<or> CHR ''a'' \<le> c \<and> c \<le> CHR ''z''"

text \<open>The bytes below 128 that may stand for themselves in a host.\<close>

definition host_char :: "char \<Rightarrow> bool" where
  "host_char c \<longleftrightarrow> url_alnum c \<or> c \<in> set ''!$&()*+,;=:[]<>-_.~'' \<or> c = CHR 0x22 \<or> c = CHR 0x27"

definition escape_allowed :: "url_part \<Rightarrow> char \<Rightarrow> char \<Rightarrow> bool" where
  "escape_allowed part a b =
     (let v = 16 * hex_val a + hex_val b
      in if part = UrlHost then 8 \<le> hex_val a \<or> a = CHR ''2'' \<and> b = CHR ''5''
         else if part = UrlZone then (a = CHR ''2'' \<and> b = CHR ''5'') \<or> v = 32 \<or> host_char (char_of v)
         else True)"

fun url_unescape :: "url_part \<Rightarrow> string \<Rightarrow> string option" where
  "url_unescape part [] = Some []"
| "url_unescape part (c # s) =
     (if c = CHR ''%'' then
        (case s of
           a # b # t \<Rightarrow>
             (if is_hex_char a \<and> is_hex_char b \<and> escape_allowed part a b
              then map_option (Cons (char_of (16 * hex_val a + hex_val b))) (url_unescape part t) else None)
         | _ \<Rightarrow> None)
      else if part \<in> {UrlHost, UrlZone} \<and> c < CHR 0x80 \<and> \<not> host_char c then None
      else map_option (Cons c) (url_unescape part s))"

section \<open>The parts of a URL\<close>

record parsed_url =
  pu_scheme :: string
  pu_opaque :: string
  pu_user :: "string option"
  pu_host :: string
  pu_path :: string
  pu_query :: string

definition url_text :: "string \<Rightarrow> parsed_url" where
  "url_text path = \<lparr>pu_scheme = [], pu_opaque = [], pu_user = None, pu_host = [], pu_path = path, pu_query = []\<rparr>"

text \<open>\<^verbatim>\<open>strings.Cut\<close> at a character: the text before it, and the text after it if it is there.\<close>

definition cut_at :: "char \<Rightarrow> string \<Rightarrow> string \<times> string option" where
  "cut_at c s =
     (let a = takeWhile (\<lambda>d. d \<noteq> c) s
      in (a, if length a < length s then Some (drop (length a + 1) s) else None))"

text \<open>\<^verbatim>\<open>strings.LastIndex\<close>: the text before the last occurrence, and the text after it.\<close>

definition cut_last :: "char \<Rightarrow> string \<Rightarrow> (string \<times> string) option" where
  "cut_last c s =
     (let b = takeWhile (\<lambda>d. d \<noteq> c) (rev s)
      in if length b < length s then Some (take (length s - length b - 1) s, rev b) else None)"

datatype scheme_result = NoScheme | MissingScheme | Scheme string string

fun get_scheme :: "string \<Rightarrow> string \<Rightarrow> scheme_result" where
  "get_scheme seen [] = NoScheme"
| "get_scheme seen (c # s) =
     (if CHR ''A'' \<le> c \<and> c \<le> CHR ''Z'' \<or> CHR ''a'' \<le> c \<and> c \<le> CHR ''z'' then get_scheme (seen @ [c]) s
      else if is_digit c \<or> c \<in> {CHR ''+'', CHR ''-'', CHR ''.''} then
        (if seen = [] then NoScheme else get_scheme (seen @ [c]) s)
      else if c = CHR '':'' then (if seen = [] then MissingScheme else Scheme seen s)
      else NoScheme)"

definition valid_optional_port :: "string \<Rightarrow> bool" where
  "valid_optional_port p = (case p of [] \<Rightarrow> True | c # ds \<Rightarrow> c = CHR '':'' \<and> list_all is_digit ds)"

text \<open>The index of a part of a string, for the zone of an address.\<close>

fun find_sub :: "string \<Rightarrow> string \<Rightarrow> nat option" where
  "find_sub p [] = (if p = [] then Some 0 else None)"
| "find_sub p (c # s) = (if take (length p) (c # s) = p then Some 0 else map_option Suc (find_sub p s))"

definition parse_ip_literal :: "(string \<Rightarrow> bool) \<Rightarrow> string \<Rightarrow> string option" where
  "parse_ip_literal ip6 host =
     (case cut_last (CHR '']'') host of
        None \<Rightarrow> None
      | Some (before, port) \<Rightarrow>
          let name = drop 1 before;
              raw = (case find_sub ''%25'' name of
                       None \<Rightarrow> url_unescape UrlHost name
                     | Some i \<Rightarrow>
                         (case (url_unescape UrlHost (take i name), url_unescape UrlZone (drop i name)) of
                            (Some a, Some z) \<Rightarrow> Some (a @ z)
                          | _ \<Rightarrow> None))
          in case raw of
               None \<Rightarrow> None
             | Some a \<Rightarrow> if valid_optional_port port \<and> ip6 a then Some (''['' @ a @ '']'' @ port) else None)"

definition parse_url_host :: "(string \<Rightarrow> bool) \<Rightarrow> string \<Rightarrow> string option" where
  "parse_url_host ip6 host =
     (if CHR ''['' \<in> set (drop 1 host) then None
      else if take 1 host = ''['' then parse_ip_literal ip6 host
      else
        let port = dropWhile (\<lambda>c. c \<noteq> CHR '':'') host
        in if valid_optional_port port then url_unescape UrlHost host else None)"

definition valid_userinfo :: "string \<Rightarrow> bool" where
  "valid_userinfo s = list_all (\<lambda>c. url_alnum c \<or> c \<in> set ''-._:~!$&()*+,;=%@'' \<or> c = CHR 0x27) s"

definition parse_authority :: "(string \<Rightarrow> bool) \<Rightarrow> string \<Rightarrow> (string option \<times> string) option" where
  "parse_authority ip6 authority =
     (case cut_last (CHR ''@'') authority of
        None \<Rightarrow> map_option (Pair None) (parse_url_host ip6 authority)
      | Some (user, host) \<Rightarrow>
          (case parse_url_host ip6 host of
             None \<Rightarrow> None
           | Some h \<Rightarrow>
               (if \<not> valid_userinfo user then None
                else case cut_at (CHR '':'') user of
                       (name, pass) \<Rightarrow>
                         (if url_unescape UrlUser name = None \<or> (\<exists>p \<in> set_option pass. url_unescape UrlUser p = None)
                          then None else Some (Some user, h)))))"

text \<open>The rest after the scheme: query, then authority and path, or an opaque text.\<close>

definition parse_rest :: "(string \<Rightarrow> bool) \<Rightarrow> string \<Rightarrow> string \<Rightarrow> parsed_url option" where
  "parse_rest ip6 scheme text =
     (case cut_at (CHR ''?'') text of
        (rest, query) \<Rightarrow>
          let u = \<lparr>pu_scheme = to_lower scheme, pu_opaque = [], pu_user = None, pu_host = [], pu_path = [],
                   pu_query = (case query of None \<Rightarrow> [] | Some q \<Rightarrow> q)\<rparr>
          in if \<not> has_prefix rest ''/'' then
               (if scheme \<noteq> [] then Some (u\<lparr>pu_opaque := rest\<rparr>)
                else if CHR '':'' \<in> set (takeWhile (\<lambda>c. c \<noteq> CHR ''/'') rest) then None
                else map_option (\<lambda>p. u\<lparr>pu_path := p\<rparr>) (url_unescape UrlPath rest))
             else if has_prefix rest ''//'' \<and> (scheme \<noteq> [] \<or> \<not> has_prefix rest ''///'') then
               let authority = takeWhile (\<lambda>c. c \<noteq> CHR ''/'') (drop 2 rest);
                   path = dropWhile (\<lambda>c. c \<noteq> CHR ''/'') (drop 2 rest)
               in case parse_authority ip6 authority of
                    None \<Rightarrow> None
                  | Some (user, host) \<Rightarrow>
                      map_option (\<lambda>p. u\<lparr>pu_user := user, pu_host := host, pu_path := p\<rparr>) (url_unescape UrlPath path)
             else map_option (\<lambda>p. u\<lparr>pu_path := p\<rparr>) (url_unescape UrlPath rest))"

definition control_byte :: "char \<Rightarrow> bool" where
  "control_byte c \<longleftrightarrow> c < CHR 0x20 \<or> c = CHR 0x7F"

definition url_parse :: "(string \<Rightarrow> bool) \<Rightarrow> string \<Rightarrow> parsed_url option" where
  "url_parse ip6 raw =
     (case cut_at (CHR ''#'') raw of
        (text, frag) \<Rightarrow>
          if (\<exists>f \<in> set_option frag. url_unescape UrlFragment f = None) \<or> list_ex control_byte text then None
          else if text = ''*'' then Some (url_text ''*'')
          else case get_scheme [] text of
                 MissingScheme \<Rightarrow> None
               | NoScheme \<Rightarrow> parse_rest ip6 [] text
               | Scheme scheme rest \<Rightarrow> parse_rest ip6 scheme rest)"

text \<open>\<^verbatim>\<open>URL.Hostname\<close>: the host without a valid port and without brackets.\<close>

definition url_hostname :: "parsed_url \<Rightarrow> string" where
  "url_hostname u =
     (let h = pu_host u;
          name = (case cut_last (CHR '':'') h of
                    Some (a, p) \<Rightarrow> if valid_optional_port ('':'' @ p) then a else h
                  | None \<Rightarrow> h)
      in if has_prefix name ''['' \<and> has_suffix name '']'' then take (length name - 2) (drop 1 name) else name)"

section \<open>Plain URLs\<close>

text \<open>A host name as it is written in a cluster: letters, digits, dashes and dots.\<close>

definition plain_host :: "string \<Rightarrow> bool" where
  "plain_host s = list_all (\<lambda>c. url_alnum c \<or> c = CHR ''-'' \<or> c = CHR ''.'') s"

end
