(* ===== verification/MonarchSpec.thy ===== *)
theory MonarchSpec
  imports MonarchTypes GoUrl GoJson
begin

text \<open>
  What the operator computes from a test alone (\<^verbatim>\<open>pipeline/monarch/internal/controller\<close>): names, ports,
  the normalised inputs, the validation of inputs, dependencies and storage, images, and the routes of the
  sidecar.  The environment of the process and the address parser behind \<^verbatim>\<open>net/url\<close> are arguments.
\<close>

section \<open>Names (shadowtest\_helpers.go, shadowtest\_igris.go)\<close>

definition dns_char :: "char \<Rightarrow> bool" where
  "dns_char c \<longleftrightarrow> CHR ''a'' \<le> c \<and> c \<le> CHR ''z'' \<or> is_digit c \<or> c = CHR ''-''"

text \<open>Each run of other characters becomes one dash; the flag tells whether a run has begun.\<close>

fun replace_invalid :: "bool \<Rightarrow> string \<Rightarrow> string" where
  "replace_invalid run [] = []"
| "replace_invalid run (c # s) =
     (if dns_char c then c # replace_invalid False s
      else if run then replace_invalid True s
      else CHR ''-'' # replace_invalid True s)"

definition trim_left_dashes :: "string \<Rightarrow> string" where
  "trim_left_dashes = dropWhile (\<lambda>c. c = CHR ''-'')"

definition trim_right_dashes :: "string \<Rightarrow> string" where
  "trim_right_dashes s = rev (trim_left_dashes (rev s))"

definition sanitize_dns_label :: "string \<Rightarrow> string" where
  "sanitize_dns_label s =
     (let t = trim_right_dashes (trim_left_dashes (replace_invalid False (to_lower s)))
      in if t = [] then ''shadow'' else t)"

definition sanitize_for_dns :: "string \<Rightarrow> string" where
  "sanitize_for_dns s =
     (let t = sanitize_dns_label s in if 63 < length t then trim_right_dashes (take 63 t) else t)"

definition target_namespace_for :: "shadow_cr \<Rightarrow> string" where
  "target_namespace_for st =
     (if spec_target_ns (st_spec st) \<noteq> [] then spec_target_ns (st_spec st) else st_namespace st)"

definition shadow_namespace_for :: "shadow_cr \<Rightarrow> string" where
  "shadow_namespace_for st = sanitize_dns_label (''shadow-'' @ st_namespace st @ ''-'' @ st_name st)"

definition validate_shadow_namespace_name :: "string \<Rightarrow> string option" where
  "validate_shadow_namespace_name name =
     (if has_prefix name ''shadow-'' then None
      else Some (''refusing namespace lifecycle outside shadow-* prefix: '' @ json_quote name))"

definition shadow_deployment_name :: "shadow_cr \<Rightarrow> string \<Rightarrow> string" where
  "shadow_deployment_name st role = sanitize_for_dns (st_name st @ ''-'' @ role)"

definition igris_deployment_name :: "shadow_cr \<Rightarrow> string" where
  "igris_deployment_name st = sanitize_for_dns (st_name st @ ''-igris'')"

definition igris_config_map_name :: "shadow_cr \<Rightarrow> string" where
  "igris_config_map_name st = sanitize_for_dns (st_name st @ ''-igris-config'')"

definition igris_service_name :: "shadow_cr \<Rightarrow> string" where
  "igris_service_name st = igris_deployment_name st"

definition igris_rabbit_deployment_name :: "shadow_cr \<Rightarrow> string" where
  "igris_rabbit_deployment_name st = sanitize_for_dns (st_name st @ ''-igris-rabbitmq'')"

definition igris_rabbit_service_name :: "shadow_cr \<Rightarrow> string" where
  "igris_rabbit_service_name st = igris_rabbit_deployment_name st"

definition relay_deployment_name :: "shadow_cr \<Rightarrow> string" where
  "relay_deployment_name st = sanitize_for_dns (st_name st @ ''-egress-relay-rabbitmq'')"

definition kaisel_rule_name :: "shadow_cr \<Rightarrow> string" where
  "kaisel_rule_name st = ''kaisel-'' @ st_name st"

definition envoy_config_map_name :: "shadow_cr \<Rightarrow> string \<Rightarrow> string" where
  "envoy_config_map_name st role = sanitize_for_dns (st_name st @ ''-'' @ role @ ''-envoy'')"

definition localBeruName :: string where "localBeruName = ''beru-local''"
definition shopName :: string where "shopName = ''shop''"

definition shadow_service_host :: "string \<Rightarrow> string \<Rightarrow> string" where
  "shadow_service_host shadowNS serviceName = serviceName @ ''.'' @ shadowNS @ ''.svc.cluster.local''"

definition shadow_service_url :: "string \<Rightarrow> string \<Rightarrow> int \<Rightarrow> string" where
  "shadow_service_url shadowNS serviceName port =
     ''http://'' @ shadow_service_host shadowNS serviceName @ '':'' @ itoz port"

section \<open>Inputs (shadowtest\_inputs.go)\<close>

abbreviation driver_of :: "input_spec \<Rightarrow> string" where
  "driver_of inp \<equiv> trim_space (to_lower (in_driver inp))"

definition has_rabbit_input :: "shadow_cr \<Rightarrow> bool" where
  "has_rabbit_input st \<longleftrightarrow> list_ex (\<lambda>inp. driver_of inp = DriverRabbitMQMessage) (spec_inputs (st_spec st))"

definition is_amqp_only :: "shadow_cr \<Rightarrow> bool" where
  "is_amqp_only st \<longleftrightarrow> spec_inputs (st_spec st) \<noteq> [] \<and>
     list_all (\<lambda>inp. driver_of inp = DriverRabbitMQMessage) (spec_inputs (st_spec st))"

definition first_amqp_input :: "shadow_cr \<Rightarrow> string + amqp_input" where
  "first_amqp_input st =
     (case List.find (\<lambda>inp. driver_of inp = DriverRabbitMQMessage) (spec_inputs (st_spec st)) of
        None \<Rightarrow> Inl (''no '' @ DriverRabbitMQMessage @ '' input found'')
      | Some inp \<Rightarrow>
          (case in_amqp inp of
             None \<Rightarrow> Inl (DriverRabbitMQMessage @ '' input requires amqp configuration'')
           | Some a \<Rightarrow> Inr a))"

definition needs_amqp_ingress :: "shadow_cr \<Rightarrow> bool" where
  "needs_amqp_ingress st = is_amqp_only st"

definition needs_http_ingress :: "shadow_cr \<Rightarrow> bool" where
  "needs_http_ingress st \<longleftrightarrow> \<not> needs_amqp_ingress st"

definition infer_driver :: "shadow_cr \<Rightarrow> int \<Rightarrow> string" where
  "infer_driver st port = DriverHTTPRequest"

definition normalize_input :: "shadow_cr \<Rightarrow> input_spec \<Rightarrow> input_spec" where
  "normalize_input st inp =
     (let d0 = driver_of inp;
          a = trim_space (to_lower (in_addon inp));
          d1 = (if d0 \<noteq> [] then d0
                else if a = ''http'' \<or> a = DriverHTTPRequest then DriverHTTPRequest
                else if a = DriverRabbitMQMessage then DriverRabbitMQMessage
                else d0)
      in if d1 = DriverRabbitMQMessage
         then \<lparr>in_port = 0, in_driver = d1, in_amqp = in_amqp inp, in_addon = []\<rparr>
         else let d2 = (if d1 = [] \<and> 0 < in_port inp then infer_driver st (in_port inp) else d1)
              in \<lparr>in_port = in_port inp, in_driver = d2, in_amqp = in_amqp inp, in_addon = []\<rparr>)"

definition defaultServicePort :: int where "defaultServicePort = 8888"
definition defaultApplicationPort :: int where "defaultApplicationPort = 8080"

definition service_port_for :: "shadow_cr \<Rightarrow> int" where
  "service_port_for st =
     (if 0 < spec_service_port (st_spec st) then spec_service_port (st_spec st) else defaultServicePort)"

definition application_port_for :: "shadow_cr \<Rightarrow> int" where
  "application_port_for st =
     (if 0 < spec_app_port (st_spec st) then spec_app_port (st_spec st)
      else if is_amqp_only st then
        (let sp = service_port_for st in if sp < 65535 then sp + 1 else sp - 1)
      else defaultApplicationPort)"

definition resolved_inputs :: "shadow_cr \<Rightarrow> input_spec list" where
  "resolved_inputs st =
     (if \<not> is_amqp_only st \<and> spec_inputs (st_spec st) = []
      then [\<lparr>in_port = service_port_for st, in_driver = DriverHTTPRequest, in_amqp = None, in_addon = []\<rparr>]
      else map (normalize_input st) (spec_inputs (st_spec st)))"

definition ingress_drivers_from_spec :: "shadow_cr \<Rightarrow> string list" where
  "ingress_drivers_from_spec st =
     dedup_first (filter (\<lambda>d. d \<noteq> []) (map (\<lambda>inp. trim_space (in_driver inp)) (resolved_inputs st)))"

definition dependency_by_name :: "shadow_cr \<Rightarrow> string \<Rightarrow> dependency_spec option" where
  "dependency_by_name st name =
     List.find (\<lambda>d. sanitize_for_dns (dp_name d) = sanitize_for_dns name) (spec_dependencies (st_spec st))"

definition parse_host_only_amqp_url :: "(string \<Rightarrow> bool) \<Rightarrow> string \<Rightarrow> string + parsed_url" where
  "parse_host_only_amqp_url ip6 text =
     (let raw = trim_space text
      in if raw = [] then Inl ''amqp.prodUrl is required''
         else case url_parse ip6 raw of
           None \<Rightarrow> Inl ''amqp.prodUrl: invalid URL''
         | Some u \<Rightarrow>
             if pu_scheme u \<noteq> ''amqp'' \<and> pu_scheme u \<noteq> ''amqps'' then Inl ''amqp.prodUrl scheme must be amqp or amqps''
             else if pu_host u = [] then Inl ''amqp.prodUrl host is required''
             else if pu_user u \<noteq> None then Inl ''amqp.prodUrl must not include credentials; use credentialsSecretRef''
             else Inr u)"

definition amqp_credentials_secret_name :: "amqp_input \<Rightarrow> string + string" where
  "amqp_credentials_secret_name a =
     (case ai_secret a of
        None \<Rightarrow> Inl ''amqp.credentialsSecretRef is required''
      | Some n \<Rightarrow> (let name = trim_space n
                   in if name = [] then Inl ''amqp.credentialsSecretRef.name is required'' else Inr name))"

text \<open>The checks of one AMQP input, in the order of the code.\<close>

definition validate_amqp_input :: "(string \<Rightarrow> bool) \<Rightarrow> shadow_cr \<Rightarrow> input_spec \<Rightarrow> string option" where
  "validate_amqp_input ip6 st inp =
     (case in_amqp inp of
        None \<Rightarrow> Some (DriverRabbitMQMessage @ '' input requires amqp block'')
      | Some a \<Rightarrow>
          if trim_space (ai_prod_url a) = [] then Some ''amqp.prodUrl is required''
          else case parse_host_only_amqp_url ip6 (ai_prod_url a) of
            Inl e \<Rightarrow> Some e
          | Inr u \<Rightarrow>
              (case amqp_credentials_secret_name a of
                 Inl e \<Rightarrow> Some e
               | Inr name \<Rightarrow>
                   let t = trim_space (to_lower (ai_exchange_type a))
                   in if trim_space (ai_exchange a) = [] then Some ''amqp.exchange is required''
                      else if t \<noteq> [] \<and> t \<notin> {''topic'', ''direct'', ''fanout'', ''headers''}
                        then Some (''amqp.exchangeType '' @ json_quote (ai_exchange_type a) @ '' is not supported'')
                      else if trim_space (ai_routing_key a) = [] then Some ''amqp.routingKey is required''
                      else if trim_space (ai_target a) = [] then Some ''amqp.targetDependency is required''
                      else if dependency_by_name st (ai_target a) = None
                        then Some (''amqp.targetDependency '' @ json_quote (ai_target a) @ '' not found in spec.dependencies'')
                      else None))"

definition validate_http_input :: "input_spec \<Rightarrow> string option" where
  "validate_http_input inp =
     (if in_driver inp \<noteq> DriverHTTPRequest then Some (''unsupported Igris driver '' @ json_quote (in_driver inp) @ '' for port '' @ itoz (in_port inp))
      else if in_port inp < 1 \<or> 65535 < in_port inp
        then Some (''input port '' @ itoz (in_port inp) @ '' out of range'')
      else None)"

definition validate_inputs :: "(string \<Rightarrow> bool) \<Rightarrow> shadow_cr \<Rightarrow> string option" where
  "validate_inputs ip6 st =
     (let ins = spec_inputs (st_spec st);
          rabbit = list_ex (\<lambda>inp. driver_of inp = DriverRabbitMQMessage) ins;
          nonRabbit = list_ex (\<lambda>inp. driver_of inp \<noteq> DriverRabbitMQMessage \<and> (driver_of inp \<noteq> [] \<or> 0 < in_port inp)) ins
      in if ins = [] then None
         else if rabbit \<and> nonRabbit then Some (''ShadowTest cannot mix '' @ DriverRabbitMQMessage @ '' inputs with HTTP inputs'')
         else if is_amqp_only st then first_some (validate_amqp_input ip6 st) ins
         else if list_ex (\<lambda>inp. driver_of inp = ''tcp_stream'') ins
           then Some ''input driver tcp_stream is no longer supported; use http_request or rabbitmq_message''
         else first_some validate_http_input (resolved_inputs st))"

definition input_port_name :: "string \<Rightarrow> int \<Rightarrow> string" where
  "input_port_name driver port =
     (let name = sanitize_for_dns (map (\<lambda>c. if c = CHR ''_'' then CHR ''-'' else c) driver @ ''-'' @ itoz port)
      in if 15 < length name then trim_right_dashes (take 15 name) else name)"

definition listeners_summary :: "shadow_cr \<Rightarrow> string" where
  "listeners_summary st =
     (if is_amqp_only st then
        (case first_amqp_input st of
           Inl e \<Rightarrow> DriverRabbitMQMessage
         | Inr a \<Rightarrow> DriverRabbitMQMessage @ '' exchange='' @ ai_exchange a)
      else join_with '', '' (map (\<lambda>inp. in_driver inp @ '':'' @ itoz (in_port inp)) (resolved_inputs st)))"

end
