(* ===== verification/MonarchDeps.thy ===== *)
theory MonarchDeps
  imports MonarchSpec
begin

text \<open>
  The dependencies of a test and the sidecar in front of them, storage and mode, ports taken from the
  target, images and the capture rule (\<^verbatim>\<open>shadowtest_dependencies.go\<close>, \<^verbatim>\<open>shadowtest_soldier.go\<close>,
  \<^verbatim>\<open>shadowtest_storage.go\<close>, \<^verbatim>\<open>shadowtest_helpers.go\<close>, \<^verbatim>\<open>shadowtest_images.go\<close>, \<^verbatim>\<open>shadowtest_kaisel.go\<close>).
\<close>

section \<open>Kinds of dependencies\<close>

definition resolve_defaults :: "dependency_spec \<Rightarrow> string \<times> int" where
  "resolve_defaults dep = resolve_dependency_defaults (dp_type dep) (dp_image dep) (dp_port dep)"

abbreviation dep_port :: "dependency_spec \<Rightarrow> int" where
  "dep_port dep \<equiv> snd (resolve_defaults dep)"

definition dependency_container_env :: "dependency_spec \<Rightarrow> (string \<times> string) list" where
  "dependency_container_env dep =
     (if to_lower (dp_type dep) \<in> {''postgres'', ''postgresql''}
      then [(''POSTGRES_HOST_AUTH_METHOD'', ''trust''), (''POSTGRES_USER'', ''postgres''), (''POSTGRES_DB'', ''postgres'')]
      else [])"

definition is_mongo_dependency_type :: "dependency_spec \<Rightarrow> bool" where
  "is_mongo_dependency_type dep \<longleftrightarrow> to_lower (dp_type dep) \<in> {''mongodb'', ''mongo''}"

definition is_mongo_dependency :: "dependency_spec \<Rightarrow> bool" where
  "is_mongo_dependency dep \<longleftrightarrow> is_mongo_dependency_type dep \<or> dep_port dep = 27017"

definition uses_amqp_url_injection :: "string \<Rightarrow> bool" where
  "uses_amqp_url_injection envName \<longleftrightarrow>
     to_upper (trim_space envName) \<in> {''AMQP_URL'', ''RABBITMQ_URL'', ''RABBITMQ_AMQP_URL''}"

definition is_rabbit_broker :: "dependency_spec \<Rightarrow> bool" where
  "is_rabbit_broker dep \<longleftrightarrow> to_lower (dp_type dep) = ''rabbitmq'' \<or> uses_amqp_url_injection (dp_env dep)"

definition rabbit_plugins_config_map_name :: "string \<Rightarrow> string" where
  "rabbit_plugins_config_map_name depName = sanitize_for_dns (depName @ ''-rabbitmq-plugins'')"

definition has_rabbit_broker_dependency :: "shadow_cr \<Rightarrow> bool" where
  "has_rabbit_broker_dependency st \<longleftrightarrow> list_ex is_rabbit_broker (spec_dependencies (st_spec st))"

definition needs_relay :: "shadow_cr \<Rightarrow> bool" where
  "needs_relay st \<longleftrightarrow> has_rabbit_input st \<or> has_rabbit_broker_dependency st"

definition soldierProtocols :: "(string \<times> string) list" where
  "soldierProtocols =
     [(''mongodb'', ''mongodb''), (''mongo'', ''mongodb''), (''redis'', ''redis''), (''postgres'', ''postgresql''),
      (''postgresql'', ''postgresql''), (''mssql'', ''mssql''), (''sqlserver'', ''mssql'')]"

definition soldier_protocol_for :: "dependency_spec \<Rightarrow> string option" where
  "soldier_protocol_for dep = map_of soldierProtocols (to_lower (trim_space (dp_type dep)))"

definition is_proxied_dependency :: "dependency_spec \<Rightarrow> bool" where
  "is_proxied_dependency dep \<longleftrightarrow> soldier_protocol_for dep \<noteq> None"

definition needs_shadow_soldier :: "shadow_cr \<Rightarrow> bool" where
  "needs_shadow_soldier st \<longleftrightarrow> list_ex is_proxied_dependency (spec_dependencies (st_spec st))"

section \<open>Addresses\<close>

definition dependency_resource_name :: "string \<Rightarrow> string \<Rightarrow> string" where
  "dependency_resource_name depName role = sanitize_for_dns (depName @ ''-'' @ role)"

definition dependency_endpoint :: "string \<Rightarrow> string \<Rightarrow> string \<Rightarrow> int \<Rightarrow> string" where
  "dependency_endpoint shadowNS depName role port =
     shadow_service_host shadowNS (dependency_resource_name depName role) @ '':'' @ itoz port"

definition shadow_amqp_url :: "string \<Rightarrow> string \<Rightarrow> string \<Rightarrow> int \<Rightarrow> string" where
  "shadow_amqp_url shadowNS depName role port =
     ''amqp://guest:guest@'' @ shadow_service_host shadowNS (dependency_resource_name depName role) @ '':'' @ itoz port @ ''/''"

definition dependency_env_value :: "string \<Rightarrow> dependency_spec \<Rightarrow> string \<Rightarrow> string" where
  "dependency_env_value shadowNS dep role =
     (if is_mongo_dependency dep then ''mongodb://'' @ dependency_endpoint shadowNS (dp_name dep) role (dep_port dep)
      else if uses_amqp_url_injection (dp_env dep) then shadow_amqp_url shadowNS (dp_name dep) role (dep_port dep)
      else dependency_endpoint shadowNS (dp_name dep) role (dep_port dep))"

definition loopback_dependency_env_value :: "dependency_spec \<Rightarrow> string" where
  "loopback_dependency_env_value dep =
     (let hostPort = ''127.0.0.1:'' @ itoz (dep_port dep)
      in if is_mongo_dependency dep then ''mongodb://'' @ hostPort
         else if to_lower (dp_type dep) \<in> {''postgres'', ''postgresql''}
           then ''postgres://postgres@'' @ hostPort @ ''/postgres?sslmode=disable''
         else hostPort)"

definition dependency_env_for_role :: "shadow_cr \<Rightarrow> string \<Rightarrow> string \<Rightarrow> (string \<times> string) list" where
  "dependency_env_for_role st shadowNS role =
     map (\<lambda>dep. (dp_env dep,
                 if is_proxied_dependency dep then loopback_dependency_env_value dep
                 else dependency_env_value shadowNS dep role))
       (spec_dependencies (st_spec st))"

section \<open>Validation of dependencies\<close>

text \<open>The name collisions of a dependency over the roles; \<^const>\<open>None\<close> is no error.\<close>

definition validate_dependency_names :: "shadow_cr \<Rightarrow> dependency_spec \<Rightarrow> string option" where
  "validate_dependency_names st dep =
     first_some
       (\<lambda>role. let resName = dependency_resource_name (dp_name dep) role
               in if resName = shadow_deployment_name st role \<or> resName = igris_deployment_name st
                  then Some (''dependency '' @ json_quote (dp_name dep) @ '' collides with shadow workload name '' @ json_quote resName)
                  else if needs_relay st \<and> resName = relay_deployment_name st
                  then Some (''dependency '' @ json_quote (dp_name dep) @ '' collides with egress-relay-rabbitmq name '' @ json_quote resName)
                  else None)
       ShadowRoles"

text \<open>The loop with its accumulators: names seen, ports of proxied dependencies, and the count of port 27017.\<close>

fun validate_dependencies_from ::
  "shadow_cr \<Rightarrow> nat \<Rightarrow> string list \<Rightarrow> (int \<times> string) list \<Rightarrow> nat \<Rightarrow> dependency_spec list \<Rightarrow> string option" where
  "validate_dependencies_from st i seen proxied mongo [] = None"
| "validate_dependencies_from st i seen proxied mongo (dep # deps) =
     (let here = ''dependencies['' @ itoa i @ '']'';
          (img, port) = resolve_defaults dep;
          sanitized = sanitize_for_dns (dp_name dep);
          mongo' = (if port = 27017 then mongo + 1 else mongo)
      in if dp_name dep = [] then Some (here @ '': name is required'')
         else if dp_type dep = [] then Some (here @ '' '' @ json_quote (dp_name dep) @ '': type is required'')
         else if img = [] then
           Some (here @ '' '' @ json_quote (dp_name dep) @ '': unknown type '' @ json_quote (dp_type dep) @ '' (image required)'')
         else if dp_env dep = [] then Some (here @ '' '' @ json_quote (dp_name dep) @ '': envVarInjection is required'')
         else if port < 1 \<or> 65535 < port then
           Some (here @ '' '' @ json_quote (dp_name dep) @ '': port '' @ itoz port @ '' out of range'')
         else if sanitized = [] then
           Some (here @ '' '' @ json_quote (dp_name dep) @ '': name is not a valid DNS label after sanitization'')
         else if sanitized \<in> set seen then Some (''duplicate dependency name '' @ json_quote (dp_name dep) @ '' after sanitization'')
         else if is_proxied_dependency dep \<and> map_of proxied port \<noteq> None then
           Some (''dependencies '' @ json_quote (the (map_of proxied port)) @ '' and '' @ json_quote (dp_name dep) @
                 '' both use port '' @ itoz port @ ''; proxied dependencies need distinct ports'')
         else if port = 27017 \<and> 1 < mongo' then Some ''only one dependency on port 27017 (MongoDB) is supported''
         else case validate_dependency_names st dep of
           Some e \<Rightarrow> Some e
         | None \<Rightarrow>
             validate_dependencies_from st (i + 1) (sanitized # seen)
               (if is_proxied_dependency dep then (port, dp_name dep) # proxied else proxied) mongo' deps)"

definition validate_dependencies :: "shadow_cr \<Rightarrow> string option" where
  "validate_dependencies st = validate_dependencies_from st 0 [] [] 0 (spec_dependencies (st_spec st))"

section \<open>The routes of the sidecar\<close>

record sidecar_route =
  sr_protocol :: string
  sr_listen :: int
  sr_upstream :: string

definition soldier_routes_for :: "shadow_cr \<Rightarrow> string \<Rightarrow> string \<Rightarrow> sidecar_route list" where
  "soldier_routes_for st shadowNS role =
     List.map_filter
       (\<lambda>dep. case soldier_protocol_for dep of
                None \<Rightarrow> None
              | Some proto \<Rightarrow>
                  Some \<lparr>sr_protocol = proto, sr_listen = dep_port dep,
                        sr_upstream = dependency_endpoint shadowNS (dp_name dep) role (dep_port dep)\<rparr>)
       (spec_dependencies (st_spec st))"

text \<open>\<^verbatim>\<open>json.Marshal\<close> of the table.\<close>

definition sidecar_route_json :: "sidecar_route \<Rightarrow> jval" where
  "sidecar_route_json r =
     JObj [(''protocol'', JStr (sr_protocol r)), (''listen'', JNum (itoz (sr_listen r))), (''upstream'', JStr (sr_upstream r))]"

definition sidecar_routes_text :: "sidecar_route list \<Rightarrow> string" where
  "sidecar_routes_text routes = json_marshal (JArr (map sidecar_route_json routes))"

section \<open>Storage and mode\<close>

definition validate_storage :: "shadow_cr \<Rightarrow> string option" where
  "validate_storage st =
     (let mode = operating_mode st
      in if mode \<noteq> OpRecord \<and> mode \<noteq> OpReplay
         then Some (''spec.mode '' @ json_quote (spec_mode (st_spec st)) @ '' is not supported (want record or replay)'')
         else case spec_storage (st_spec st) of
           None \<Rightarrow> Some ''spec.storage is required''
         | Some cfg \<Rightarrow>
             let typ = trim_space (to_lower (sg_type cfg)); p = trim_space (sg_retention cfg)
             in if trim_space (sg_bucket cfg) = [] then Some ''storage.bucketName is required''
                else if typ = [] then Some ''storage.type is required''
                else if typ \<noteq> ''s3'' then Some (''storage.type '' @ json_quote (sg_type cfg) @ '' is not supported (want s3)'')
                else if p \<noteq> [] \<and> p \<noteq> ''Retain'' \<and> p \<noteq> ''Delete''
                  then Some (''storage.retentionPolicy '' @ json_quote (sg_retention cfg) @ '' is not supported (want Retain or Delete)'')
                else if (\<exists>n \<in> set_option (sg_secret cfg). trim_space n = [])
                  then Some ''storage.credentialsSecretRef.name is required when credentialsSecretRef is set''
                else if mode = OpReplay \<and> trim_space (spec_session (st_spec st)) = [] \<and>
                        trim_space (sta_session (st_status st)) = []
                  then Some ''replay mode requires spec.sessionID or status.currentSessionID''
                else None)"

section \<open>The target Deployment\<close>

text \<open>
  Of a production Deployment the operator reads the containers of its pod template and the labels of the
  template.  The pods it owns are listed by the cluster.
\<close>

record target_container =
  tc_image :: string
  tc_ports :: "(string \<times> int) list"
  tc_env :: "(string \<times> string option) list"
  tc_env_from :: bool

record target_deployment =
  td_containers :: "target_container list"
  td_labels :: "(string \<times> string) list"

definition target_container_image :: "target_deployment \<Rightarrow> string + string" where
  "target_container_image target =
     (case td_containers target of
        [] \<Rightarrow> Inl ''target Deployment has no containers''
      | c # cs \<Rightarrow> Inr (tc_image c))"

text \<open>A variable without a literal value is \<^const>\<open>None\<close>; the warning is empty when there is none.\<close>

definition env_from_target :: "target_deployment \<Rightarrow> (string \<times> string) list \<times> string" where
  "env_from_target dep =
     (case td_containers dep of
        [] \<Rightarrow> ([], ''target Deployment has no containers; no env copied'')
      | c # cs \<Rightarrow>
          (List.map_filter (\<lambda>(n, v). map_option (Pair n) v) (tc_env c),
           if tc_env_from c then ''target primary container uses envFrom; MVP copies only literal env vars (skipped envFrom)''
           else if list_ex (\<lambda>(n, v). v = None) (tc_env c)
             then ''target primary container uses valueFrom; MVP copies only literal env vars''
           else []))"

definition primary_container_port :: "target_deployment \<Rightarrow> string + int" where
  "primary_container_port target =
     (case td_containers target of
        [] \<Rightarrow> Inr defaultApplicationPort
      | c # cs \<Rightarrow>
          (if tc_ports c = [] then Inr defaultApplicationPort
           else case List.find (\<lambda>(n, p). equal_fold n ''http'') (tc_ports c) of
             Some (n, p) \<Rightarrow> Inr p
           | None \<Rightarrow>
               (case tc_ports c of
                  [(n, p)] \<Rightarrow> Inr p
                | ps \<Rightarrow> Inl (''target has '' @ itoa (length ps) @
                    '' container ports with no port named 'http'; set spec.applicationPort to disambiguate''))))"

text \<open>An \<^verbatim>\<open>int32\<close> sum; the application port has been resolved before.\<close>

definition safe_service_port :: "shadow_cr \<Rightarrow> int" where
  "safe_service_port st =
     (let ap = spec_app_port (st_spec st);
          sp = (if spec_service_port (st_spec st) = 0 then defaultServicePort else spec_service_port (st_spec st));
          safe = sint (word_of_int (ap + 8000) :: 32 word)
      in if sp \<noteq> ap then sp
         else if 65535 < safe then sint (word_of_int (ap - 8000) :: 32 word) else safe)"

definition resolve_spec_defaults :: "shadow_cr \<Rightarrow> target_deployment \<Rightarrow> string + shadow_cr" where
  "resolve_spec_defaults st target =
     (case (if spec_app_port (st_spec st) = 0 then primary_container_port target else Inr (spec_app_port (st_spec st))) of
        Inl e \<Rightarrow> Inl e
      | Inr port \<Rightarrow>
          let st1 = st\<lparr>st_spec := (st_spec st)\<lparr>spec_app_port := port\<rparr>\<rparr>
          in Inr (st1\<lparr>st_spec := (st_spec st1)\<lparr>spec_service_port := safe_service_port st1\<rparr>\<rparr>))"

section \<open>Images\<close>

definition monarch_image_tag_suffix :: "(string \<Rightarrow> string) \<Rightarrow> string" where
  "monarch_image_tag_suffix getenv =
     (if to_lower (trim_space (getenv ''MONARCH_MODE'')) \<in> {''dev'', ''development''} then '':dev'' else '':latest'')"

definition resolve_helper_image :: "(string \<Rightarrow> string) \<Rightarrow> string \<Rightarrow> string \<Rightarrow> string \<Rightarrow> string" where
  "resolve_helper_image getenv base crOverride envVar =
     (if crOverride \<noteq> [] then crOverride
      else let v = trim_space (getenv envVar)
           in if v \<noteq> [] then v else ''ghcr.io/shadow-diff/'' @ base @ monarch_image_tag_suffix getenv)"

definition envoy_image_for :: "(string \<Rightarrow> string) \<Rightarrow> string" where
  "envoy_image_for getenv =
     (let v = trim_space (getenv ''ENVOY_IMAGE'') in if v \<noteq> [] then v else ''envoyproxy/envoy:v1.30-latest'')"

abbreviation override_image :: "workload_spec option \<Rightarrow> string" where
  "override_image w \<equiv> (case w of None \<Rightarrow> [] | Some s \<Rightarrow> wk_image s)"

abbreviation override_text :: "string option \<Rightarrow> string" where
  "override_text w \<equiv> (case w of None \<Rightarrow> [] | Some s \<Rightarrow> s)"

definition igris_http_image_for :: "(string \<Rightarrow> string) \<Rightarrow> shadow_cr \<Rightarrow> string" where
  "igris_http_image_for getenv st =
     resolve_helper_image getenv ''igris-http'' (override_image (spec_igris (st_spec st))) ''IGRIS_HTTP_IMAGE''"

definition igris_rabbit_image_for :: "(string \<Rightarrow> string) \<Rightarrow> shadow_cr \<Rightarrow> string" where
  "igris_rabbit_image_for getenv st =
     resolve_helper_image getenv ''igris-rabbitmq'' (override_image (spec_igris_rabbit (st_spec st))) ''IGRIS_RABBITMQ_IMAGE''"

definition relay_image_for :: "(string \<Rightarrow> string) \<Rightarrow> shadow_cr \<Rightarrow> string" where
  "relay_image_for getenv st =
     resolve_helper_image getenv ''egress-relay-rabbitmq'' (override_image (spec_relay (st_spec st))) ''EGRESS_RELAY_RABBITMQ_IMAGE''"

definition beru_image_for :: "(string \<Rightarrow> string) \<Rightarrow> shadow_cr \<Rightarrow> string" where
  "beru_image_for getenv st =
     resolve_helper_image getenv ''beru'' (override_text (spec_beru_image (st_spec st))) ''BERU_IMAGE''"

definition shop_image_for :: "(string \<Rightarrow> string) \<Rightarrow> shadow_cr \<Rightarrow> string" where
  "shop_image_for getenv st =
     resolve_helper_image getenv ''shop'' (override_text (spec_shop_image (st_spec st))) ''SHOP_IMAGE''"

definition shadow_soldier_image_for :: "(string \<Rightarrow> string) \<Rightarrow> shadow_cr \<Rightarrow> string" where
  "shadow_soldier_image_for getenv st =
     resolve_helper_image getenv ''shadow-soldier'' (override_text (spec_soldier_image (st_spec st))) ''SHADOW_SOLDIER_IMAGE''"

text \<open>A count of the specification when it is positive, else one.\<close>

definition replicas_for :: "workload_spec option \<Rightarrow> int" where
  "replicas_for w =
     (case w of None \<Rightarrow> 1 | Some s \<Rightarrow> (case wk_replicas s of Some n \<Rightarrow> if 0 < n then n else 1 | None \<Rightarrow> 1))"

definition shadowRoleReplicas :: int where "shadowRoleReplicas = 1"

definition max_qps_per_pod_for :: "shadow_cr \<Rightarrow> int" where
  "max_qps_per_pod_for st = (if 0 < spec_max_qps (st_spec st) then spec_max_qps (st_spec st) else 50)"

definition igris_max_concurrency_for :: "shadow_cr \<Rightarrow> int" where
  "igris_max_concurrency_for st = shadowRoleReplicas * max_qps_per_pod_for st"

section \<open>What the capture rule holds (shadowtest\_kaisel.go)\<close>

definition target_primary_container_ports :: "target_deployment \<Rightarrow> int list" where
  "target_primary_container_ports target =
     (case td_containers target of [] \<Rightarrow> [] | c # cs \<Rightarrow> map snd (tc_ports c))"

definition http_ingress_capture_enabled :: "shadow_cr \<Rightarrow> target_deployment \<Rightarrow> bool" where
  "http_ingress_capture_enabled st target \<longleftrightarrow> \<not> is_amqp_only st \<and>
     list_ex (\<lambda>inp. driver_of inp = DriverHTTPRequest \<and>
                (in_port inp \<in> set (target_primary_container_ports target) \<or>
                 in_port inp = application_port_for st \<or> in_port inp = service_port_for st))
       (resolved_inputs st)"

definition sample_percentage :: "shadow_cr \<Rightarrow> int" where
  "sample_percentage st = (if 0 < spec_sample (st_spec st) then spec_sample (st_spec st) else 100)"

definition format_capture_targets :: "(string \<times> string) list \<Rightarrow> string list" where
  "format_capture_targets labels = map (\<lambda>k. k @ ''='' @ go_get [] labels k) (sorted_keys labels)"

definition kaisel_ingress_ports :: "shadow_cr \<Rightarrow> int list" where
  "kaisel_ingress_ports st =
     (if is_amqp_only st then []
      else let app = application_port_for st
           in if 0 < app then [app]
              else dedup_first
                (map in_port (filter (\<lambda>inp. driver_of inp = DriverHTTPRequest \<and> 0 < in_port inp) (resolved_inputs st))))"

definition to_uint16_ports :: "int list \<Rightarrow> 16 word list" where
  "to_uint16_ports ports = map word_of_int (filter (\<lambda>p. 0 < p \<and> p \<le> 65535) ports)"

definition ip_sets_equal :: "string list \<Rightarrow> string list \<Rightarrow> bool" where
  "ip_sets_equal a b \<longleftrightarrow> length a = length b \<and> list_all2 (=) a b"

definition port_sets_equal :: "16 word list \<Rightarrow> 16 word list \<Rightarrow> bool" where
  "port_sets_equal a b \<longleftrightarrow> length a = length b \<and> list_all (\<lambda>p. p \<in> set a) b"

end
