(* ===== verification/MonarchObjects.thy ===== *)
theory MonarchObjects
  imports MonarchDeps Shop
begin

text \<open>
  The Kubernetes objects of a shadow namespace as the operator writes them: the functions it hands to
  \<^verbatim>\<open>CreateOrPatch\<close>, which edit the object found (or an empty one).  Resource requests and limits, security
  contexts and pull policies, which are constants, are left out.
\<close>

section \<open>Objects\<close>

text \<open>
  A variable has a text, a key of a secret, a field of the pod, or a URL with user and password, whose text
  is what \<^verbatim>\<open>net/url\<close> writes for it.
\<close>

datatype env_source = EnvValue string | EnvSecret string string | EnvField string | EnvUrl parsed_url string string

datatype probe = NoProbe | TcpProbe int | HttpProbe string int

record container =
  ct_name :: string
  ct_image :: string
  ct_ports :: "(string \<times> int) list"
  ct_env :: "(string \<times> env_source) list"
  ct_env_from :: "string list"
  ct_ready :: probe

text \<open>A volume is the config map it shows, or empty for a scratch directory.\<close>

record deployment =
  dl_labels :: "(string \<times> string) list"
  dl_replicas :: int
  dl_selector :: "(string \<times> string) list"
  dl_pod_labels :: "(string \<times> string) list"
  dl_init :: "(string \<times> string) list"
  dl_containers :: "container list"
  dl_volumes :: "(string \<times> string) list"

datatype port_target = PortNamed string | PortNumber int

record service =
  sv_labels :: "(string \<times> string) list"
  sv_selector :: "(string \<times> string) list"
  sv_ports :: "(string \<times> int \<times> port_target) list"

record config_map =
  cm_labels :: "(string \<times> string) list"
  cm_data :: "(string \<times> string) list"

definition empty_deployment :: deployment where
  "empty_deployment = \<lparr>dl_labels = [], dl_replicas = 1, dl_selector = [], dl_pod_labels = [], dl_init = [],
     dl_containers = [], dl_volumes = []\<rparr>"

definition empty_service :: service where
  "empty_service = \<lparr>sv_labels = [], sv_selector = [], sv_ports = []\<rparr>"

definition empty_config_map :: config_map where
  "empty_config_map = \<lparr>cm_labels = [], cm_data = []\<rparr>"

definition env_values :: "(string \<times> string) list \<Rightarrow> (string \<times> env_source) list" where
  "env_values = map (\<lambda>(k, v). (k, EnvValue v))"

text \<open>\<^verbatim>\<open>for k, v := range new { labels[k] = v }\<close>\<close>

definition add_labels :: "(string \<times> string) list \<Rightarrow> (string \<times> string) list \<Rightarrow> (string \<times> string) list" where
  "add_labels new labels = fold (\<lambda>(k, v). AList.update k v) new labels"

section \<open>Labels (shadowtest\_constants.go)\<close>

definition labelManagedBy :: string where "labelManagedBy = ''app.kubernetes.io/managed-by''"
definition labelShadowTestName :: string where "labelShadowTestName = ''shadow-diff.io/shadowtest-name''"
definition labelShadowTestCRNS :: string where "labelShadowTestCRNS = ''shadow-diff.io/shadowtest-cr-namespace''"
definition labelShadowTestUID :: string where "labelShadowTestUID = ''shadow-diff.io/shadowtest-uid''"
definition labelRole :: string where "labelRole = ''shadow-diff.io/role''"
definition labelDependencyName :: string where "labelDependencyName = ''shadow-diff.io/dependency-name''"
definition labelResourceKind :: string where "labelResourceKind = ''shadow-diff.io/resource-kind''"
definition labelAppName :: string where "labelAppName = ''app.kubernetes.io/name''"

lemmas label_defs = labelManagedBy_def labelShadowTestName_def labelShadowTestCRNS_def labelShadowTestUID_def
  labelRole_def labelDependencyName_def labelResourceKind_def labelAppName_def

definition owner_labels :: "shadow_cr \<Rightarrow> (string \<times> string) list" where
  "owner_labels st =
     [(labelManagedBy, ''monarch''), (labelShadowTestName, st_name st), (labelShadowTestCRNS, st_namespace st),
      (labelShadowTestUID, st_uid st)]"

definition deployment_pod_labels :: "shadow_cr \<Rightarrow> string \<Rightarrow> (string \<times> string) list" where
  "deployment_pod_labels st role = owner_labels st @ [(labelRole, role)]"

definition dependency_pod_labels :: "shadow_cr \<Rightarrow> dependency_spec \<Rightarrow> string \<Rightarrow> (string \<times> string) list" where
  "dependency_pod_labels st dep role =
     deployment_pod_labels st role @
     [(labelDependencyName, sanitize_for_dns (dp_name dep)), (labelResourceKind, ''dependency'')]"

definition local_beru_labels :: "shadow_cr \<Rightarrow> (string \<times> string) list" where
  "local_beru_labels st = owner_labels st @ [(''app'', localBeruName), (labelAppName, localBeruName)]"

section \<open>Addresses of the sinks\<close>

definition beru_grpc_address_for :: "string \<Rightarrow> string" where
  "beru_grpc_address_for shadowNS = shadow_service_host shadowNS localBeruName @ '':50051''"

definition beru_http_host_for :: "string \<Rightarrow> string" where
  "beru_http_host_for shadowNS = shadow_service_host shadowNS localBeruName @ '':8080''"

definition beru_ingest_url_for :: "string \<Rightarrow> string" where
  "beru_ingest_url_for shadowNS = ''http://'' @ shadow_service_host shadowNS localBeruName @ '':8081''"

definition shop_http_host_for :: "string \<Rightarrow> string" where
  "shop_http_host_for shadowNS = shadow_service_host shadowNS shopName @ '':8080''"

definition shop_grpc_address_for :: "string \<Rightarrow> string" where
  "shop_grpc_address_for shadowNS = shadow_service_host shadowNS shopName @ '':50051''"

definition beru_grpc_timeout_for :: "shadow_cr \<Rightarrow> string" where
  "beru_grpc_timeout_for st = (if spec_beru_timeout (st_spec st) \<noteq> [] then spec_beru_timeout (st_spec st) else ''10s'')"

text \<open>The URL Kaisel sends captured requests to, and the one for captured calls.\<close>

definition kaisel_igris_base_url :: "shadow_cr \<Rightarrow> string" where
  "kaisel_igris_base_url st = shadow_service_url (shadow_namespace_for st) (igris_service_name st) (service_port_for st)"

definition kaisel_egress_base_url :: "string \<Rightarrow> string" where
  "kaisel_egress_base_url shadowNS = ''http://'' @ shop_http_host_for shadowNS"

definition replay_admin_url :: "shadow_cr \<Rightarrow> string \<Rightarrow> string" where
  "replay_admin_url st shadowNS =
     shadow_service_url shadowNS
       (if needs_amqp_ingress st then igris_rabbit_service_name st else igris_service_name st) 9090 @ ''/v1/replay/start''"

section \<open>Storage settings (shadowtest\_s3\_env.go)\<close>

definition storage_env_vars :: "shadow_cr \<Rightarrow> string \<Rightarrow> (string \<times> env_source) list" where
  "storage_env_vars st sessionID =
     (case spec_storage (st_spec st) of
        None \<Rightarrow> []
      | Some cfg \<Rightarrow>
          let ep = trim_space (sg_endpoint cfg); region = trim_space (sg_region cfg);
              sec = (case sg_secret cfg of None \<Rightarrow> [] | Some n \<Rightarrow> trim_space n)
          in env_values [(''OPERATING_MODE'', operating_mode st), (''S3_BUCKET'', trim_space (sg_bucket cfg)),
               (''TEST_NAMESPACE'', st_namespace st), (''TEST_NAME'', st_name st), (''SESSION_ID'', sessionID)] @
             (if ep \<noteq> [] then [(''S3_ENDPOINT'', EnvValue ep)] else []) @
             (if region \<noteq> [] then [(''S3_REGION'', EnvValue region)] else []) @
             (if sec \<noteq> [] then [(''AWS_ACCESS_KEY_ID'', EnvSecret sec ''AWS_ACCESS_KEY_ID''),
                                (''AWS_SECRET_ACCESS_KEY'', EnvSecret sec ''AWS_SECRET_ACCESS_KEY'')] else []))"

text \<open>\<^verbatim>\<open>BERU_DB_SECRET\<close>: namespace and name of the secret with the connection settings.\<close>

definition beru_db_secret_ref :: "(string \<Rightarrow> string) \<Rightarrow> string + string \<times> string" where
  "beru_db_secret_ref getenv =
     (let raw = trim_space (getenv ''BERU_DB_SECRET'')
      in if raw = [] then Inl ''BERU_DB_SECRET is required''
         else case cut_at (CHR ''/'') raw of
           (name, None) \<Rightarrow> Inr (''monarch-system'', name)
         | (ns, Some n) \<Rightarrow>
             (if trim_space ns = [] \<or> trim_space n = []
              then Inl ''BERU_DB_SECRET must be namespace/name or a bare name''
              else Inr (trim_space ns, trim_space n)))"

section \<open>Shadow roles (shadowtest\_resources.go, shadowtest\_soldier.go)\<close>

definition shadow_service_ports :: "shadow_cr \<Rightarrow> (string \<times> int \<times> port_target) list" where
  "shadow_service_ports st =
     (let sp = service_port_for st; first = (''ingress'', sp, PortNamed ''ingress'')
      in if is_amqp_only st then [first]
         else first #
           map (\<lambda>(inp, seen). (input_port_name (in_driver inp) (in_port inp), in_port inp, PortNumber (in_port inp)))
             (filter (\<lambda>(inp, seen). in_port inp \<notin> set (sp # seen))
                (map (\<lambda>(i, inp). (inp, map in_port (take i (resolved_inputs st))))
                   (List.enumerate 0 (resolved_inputs st)))))"

definition app_container_ports_for :: "shadow_cr \<Rightarrow> (string \<times> int) list" where
  "app_container_ports_for st =
     (let appPort = application_port_for st; sp = service_port_for st; first = (''http'', appPort)
      in if is_amqp_only st then [first]
         else first #
           map (\<lambda>(inp, seen). (input_port_name (in_driver inp) (in_port inp), in_port inp))
             (filter (\<lambda>(inp, seen). in_port inp \<noteq> sp \<and> in_port inp \<notin> set (appPort # seen))
                (map (\<lambda>(i, inp). (inp, map in_port (take i (resolved_inputs st))))
                   (List.enumerate 0 (resolved_inputs st)))))"

definition envoy_container_ports :: "shadow_cr \<Rightarrow> (string \<times> int) list" where
  "envoy_container_ports st = [(''ingress'', service_port_for st), (''egress'', 10001)]"

definition soldierHealthPort :: int where "soldierHealthPort = 19191"

definition shadow_soldier_container :: "(string \<Rightarrow> string) \<Rightarrow> shadow_cr \<Rightarrow> string \<Rightarrow> string \<Rightarrow> container option" where
  "shadow_soldier_container getenv st shadowNS role =
     (let routes = soldier_routes_for st shadowNS role
      in if routes = [] then None
         else Some \<lparr>ct_name = ''shadow-soldier'', ct_image = shadow_soldier_image_for getenv st,
           ct_ports = (''health'', soldierHealthPort) # map (\<lambda>r. (sanitize_for_dns (sr_protocol r), sr_listen r)) routes,
           ct_env = env_values [(''SOLDIER_ROUTES'', sidecar_routes_text routes), (''SHADOW_ROLE'', role),
               (''SHADOW_TEST_NAME'', st_name st), (''BERU_HTTP_URL'', beru_ingest_url_for shadowNS)] @
             [(''POD_NAME'', EnvField ''metadata.name'')],
           ct_env_from = [], ct_ready = HttpProbe ''/healthz'' soldierHealthPort\<rparr>)"

definition iptablesSetupScript :: string where
  "iptablesSetupScript = join_with [CHR 0x0A]
     [''apt-get update -qq && apt-get install -yqq --no-install-recommends iptables 2>/dev/null'',
      ''if iptables -t nat -L >/dev/null 2>&1; then IPT=iptables; else IPT=iptables-legacy; fi'',
      ''$IPT -t nat -A OUTPUT -p tcp -d 127.0.0.1/8 -j RETURN'',
      ''$IPT -t nat -A OUTPUT -p tcp --dport 80 -j REDIRECT --to-port 10001'',
      ''$IPT -t nat -A OUTPUT -p tcp --dport 8080 -j REDIRECT --to-port 10001'']"

definition edit_shadow_deployment ::
  "(string \<Rightarrow> string) \<Rightarrow> shadow_cr \<Rightarrow> string \<Rightarrow> string \<Rightarrow> string \<Rightarrow> (string \<times> string) list \<Rightarrow> deployment \<Rightarrow> deployment" where
  "edit_shadow_deployment getenv st shadowNS role img env d =
     (let podLabels = deployment_pod_labels st role
      in \<lparr>dl_labels = add_labels podLabels (dl_labels d), dl_replicas = shadowRoleReplicas, dl_selector = podLabels,
          dl_pod_labels = podLabels, dl_init = [(''iptables-setup'', iptablesSetupScript)],
          dl_containers =
            [\<lparr>ct_name = ''app'', ct_image = img, ct_ports = app_container_ports_for st,
               ct_env = env_values (env @ dependency_env_for_role st shadowNS role), ct_env_from = [], ct_ready = NoProbe\<rparr>,
             \<lparr>ct_name = ''envoy-sidecar'', ct_image = envoy_image_for getenv, ct_ports = envoy_container_ports st,
               ct_env = env_values [(''SHADOW_ROLE'', role), (''SHADOW_TEST_NAME'', st_name st),
                                    (''BERU_GRPC_ADDRESS'', beru_grpc_address_for shadowNS)],
               ct_env_from = [], ct_ready = TcpProbe (service_port_for st)\<rparr>] @
            (case shadow_soldier_container getenv st shadowNS role of None \<Rightarrow> [] | Some c \<Rightarrow> [c]),
          dl_volumes = [(''envoy-config'', envoy_config_map_name st role)]\<rparr>)"

definition edit_shadow_service :: "shadow_cr \<Rightarrow> string \<Rightarrow> service \<Rightarrow> service" where
  "edit_shadow_service st role s =
     \<lparr>sv_labels = add_labels (deployment_pod_labels st role) (sv_labels s),
      sv_selector = deployment_pod_labels st role, sv_ports = shadow_service_ports st\<rparr>"

section \<open>Dependencies\<close>

definition edit_dependency_deployment :: "shadow_cr \<Rightarrow> dependency_spec \<Rightarrow> string \<Rightarrow> deployment \<Rightarrow> deployment" where
  "edit_dependency_deployment st dep role d =
     (let podLabels = dependency_pod_labels st dep role; (img, port) = resolve_defaults dep;
          c = \<lparr>ct_name = ''dependency'', ct_image = img, ct_ports = [(''tcp'', port)],
               ct_env = env_values (if is_rabbit_broker dep
                 then [(''RABBITMQ_ENABLED_PLUGINS_FILE'', ''/custom-config/enabled_plugins'')]
                 else dependency_container_env dep),
               ct_env_from = [], ct_ready = TcpProbe port\<rparr>
      in d\<lparr>dl_labels := add_labels podLabels (dl_labels d), dl_replicas := 1, dl_selector := podLabels,
           dl_pod_labels := podLabels, dl_containers := [c],
           dl_volumes := (if is_rabbit_broker dep
             then [(''rabbitmq-plugins'', rabbit_plugins_config_map_name (dp_name dep))] else dl_volumes d)\<rparr>)"

definition edit_dependency_service :: "shadow_cr \<Rightarrow> dependency_spec \<Rightarrow> string \<Rightarrow> service \<Rightarrow> service" where
  "edit_dependency_service st dep role s =
     (let podLabels = dependency_pod_labels st dep role; port = dep_port dep
      in \<lparr>sv_labels = add_labels podLabels (sv_labels s), sv_selector = podLabels,
          sv_ports = [(''tcp'', port, PortNumber port)]\<rparr>)"

definition edit_rabbit_plugins_config_map :: "shadow_cr \<Rightarrow> dependency_spec \<Rightarrow> config_map \<Rightarrow> config_map" where
  "edit_rabbit_plugins_config_map st dep cm =
     \<lparr>cm_labels = owner_labels st @
        [(labelDependencyName, sanitize_for_dns (dp_name dep)), (labelResourceKind, ''dependency'')],
      cm_data = AList.update ''enabled_plugins'' ''[rabbitmq_management,rabbitmq_tracing].'' (cm_data cm)\<rparr>"

section \<open>Sinks and replayers\<close>

definition edit_local_beru_service :: "shadow_cr \<Rightarrow> service \<Rightarrow> service" where
  "edit_local_beru_service st s =
     \<lparr>sv_labels = local_beru_labels st, sv_selector = [(''app'', localBeruName)],
      sv_ports = [(''grpc'', 50051, PortNumber 50051), (''ingest'', 8081, PortNumber 8080), (''http'', 8080, PortNumber 8080)]\<rparr>"

definition local_beru_container :: "(string \<Rightarrow> string) \<Rightarrow> shadow_cr \<Rightarrow> container" where
  "local_beru_container getenv st =
     \<lparr>ct_name = ''beru'', ct_image = beru_image_for getenv st, ct_ports = [(''grpc'', 50051), (''http'', 8080)],
      ct_env = env_values
        [(''BERU_GRPC_ADDR'', '':50051''), (''BERU_HTTP_ADDR'', '':8080''), (''BERU_SHADOW_TEST_NAME'', st_name st),
         (''SESSION_ID'', sta_session (st_status st)), (''REPLAY_EXECUTION_ID'', sta_execution (st_status st)),
         (''SHADOW_NAMESPACE'', st_namespace st), (''SHADOW_MODE'', spec_mode (st_spec st))],
      ct_env_from = [case beru_db_secret_ref getenv of Inl e \<Rightarrow> [] | Inr (ns, name) \<Rightarrow> name], ct_ready = NoProbe\<rparr>"

definition edit_local_beru_deployment :: "(string \<Rightarrow> string) \<Rightarrow> shadow_cr \<Rightarrow> deployment \<Rightarrow> deployment" where
  "edit_local_beru_deployment getenv st d =
     d\<lparr>dl_labels := local_beru_labels st, dl_replicas := 1, dl_selector := [(''app'', localBeruName)],
       dl_pod_labels := add_labels (local_beru_labels st) [(''app'', localBeruName)],
       dl_containers := [local_beru_container getenv st], dl_volumes := [(''beru-wal-data'', [])]\<rparr>"

definition shop_labels :: "shadow_cr \<Rightarrow> (string \<times> string) list" where
  "shop_labels st = owner_labels st @ [(labelAppName, shopName)]"

definition edit_shop_service :: "shadow_cr \<Rightarrow> service \<Rightarrow> service" where
  "edit_shop_service st s =
     \<lparr>sv_labels = shop_labels st, sv_selector = shop_labels st,
      sv_ports = [(''grpc'', 50051, PortNumber 50051), (''http'', 8080, PortNumber 8080)]\<rparr>"

definition edit_shop_deployment :: "(string \<Rightarrow> string) \<Rightarrow> shadow_cr \<Rightarrow> string \<Rightarrow> deployment \<Rightarrow> deployment" where
  "edit_shop_deployment getenv st shadowNS d =
     d\<lparr>dl_labels := shop_labels st, dl_replicas := 1, dl_selector := shop_labels st, dl_pod_labels := shop_labels st,
       dl_containers :=
         [\<lparr>ct_name = shopName, ct_image = shop_image_for getenv st, ct_ports = [(''grpc'', 50051), (''http'', 8080)],
           ct_env = env_values [(''SHOP_GRPC_ADDR'', '':50051''), (''SHOP_HTTP_ADDR'', '':8080''),
               (''BERU_HTTP_URL'', ''http://'' @ beru_http_host_for shadowNS), (''SHADOW_TEST_NAME'', st_name st)] @
             storage_env_vars st (trim_space (sta_session (st_status st))),
           ct_env_from = [], ct_ready = NoProbe\<rparr>]\<rparr>"

definition igris_labels :: "shadow_cr \<Rightarrow> (string \<times> string) list" where
  "igris_labels st = owner_labels st @ [(labelAppName, ''igris'')]"

definition igris_listeners_json :: "shadow_cr \<Rightarrow> string" where
  "igris_listeners_json st =
     json_marshal (JArr (map (\<lambda>inp. JObj [(''port'', JNum (itoz (in_port inp))), (''driver'', JStr (in_driver inp))])
                          (resolved_inputs st)))"

definition edit_igris_config_map :: "shadow_cr \<Rightarrow> config_map \<Rightarrow> config_map" where
  "edit_igris_config_map st cm =
     \<lparr>cm_labels = add_labels [(labelManagedBy, ''monarch''), (labelShadowTestName, st_name st)] (cm_labels cm),
      cm_data = AList.update ''listeners.json'' (igris_listeners_json st) (cm_data cm)\<rparr>"

text \<open>Named addresses of the three roles, in the order control-a, control-b, candidate.\<close>

definition igris_control_urls :: "shadow_cr \<Rightarrow> string \<Rightarrow> string list" where
  "igris_control_urls st shadowNS =
     map (\<lambda>role. shadow_service_url shadowNS (shadow_deployment_name st role) (service_port_for st)) ShadowRoles"

definition igris_control_hosts :: "shadow_cr \<Rightarrow> string \<Rightarrow> string list" where
  "igris_control_hosts st shadowNS =
     map (\<lambda>role. shadow_service_host shadowNS (shadow_deployment_name st role)) ShadowRoles"

definition edit_igris_deployment :: "(string \<Rightarrow> string) \<Rightarrow> shadow_cr \<Rightarrow> string \<Rightarrow> deployment \<Rightarrow> deployment" where
  "edit_igris_deployment getenv st shadowNS d =
     d\<lparr>dl_labels := igris_labels st, dl_replicas := replicas_for (spec_igris (st_spec st)),
       dl_selector := igris_labels st, dl_pod_labels := igris_labels st,
       dl_containers :=
         [\<lparr>ct_name = ''igris'', ct_image = igris_http_image_for getenv st,
           ct_ports = map (\<lambda>inp. (input_port_name (in_driver inp) (in_port inp), in_port inp)) (resolved_inputs st) @
             [(''admin'', 9090)],
           ct_env = env_values
               (zip [''CONTROL_A_URL'', ''CONTROL_B_URL'', ''CANDIDATE_URL''] (igris_control_urls st shadowNS) @
                zip [''CONTROL_A_ADDR'', ''CONTROL_B_ADDR'', ''CANDIDATE_ADDR''] (igris_control_hosts st shadowNS) @
                [(''IGRIS_LISTENERS_FILE'', ''/etc/igris/listeners.json''),
                 (''IGRIS_MAX_CONCURRENCY'', itoz (igris_max_concurrency_for st)), (''IGRIS_ADMIN_ADDR'', '':9090'')]) @
             storage_env_vars st (trim_space (sta_session (st_status st))),
           ct_env_from = [], ct_ready = NoProbe\<rparr>],
       dl_volumes := [(''igris-config'', igris_config_map_name st)]\<rparr>"

definition edit_igris_service :: "shadow_cr \<Rightarrow> service \<Rightarrow> service" where
  "edit_igris_service st s =
     (let labels = [(labelManagedBy, ''monarch''), (labelShadowTestName, st_name st), (labelAppName, ''igris'')]
      in \<lparr>sv_labels = labels, sv_selector = labels,
          sv_ports = map (\<lambda>inp. (input_port_name (in_driver inp) (in_port inp), in_port inp, PortNumber (in_port inp)))
              (resolved_inputs st) @ [(''admin'', 9090, PortNumber 9090)]\<rparr>)"

end
