(* ===== verification/MonarchCluster.thy ===== *)
theory MonarchCluster
  imports MonarchObjects KaiselRules S3Store GoTime
begin

text \<open>
  The cluster as one reconcile pass sees it, and the calls the operator makes on it.  Each call takes the
  next entry of a list of faults, so a statement about all clusters is a statement about every pattern of
  failing calls.  Between its own calls nobody else changes the objects; what the kubelets report of the
  Deployments is fixed during a pass.
\<close>

section \<open>The state\<close>

text \<open>A read of a namespace may also be answered by a cache that has not seen it yet.\<close>

datatype api_fault = Fine | Fails string | Lags

record namespace =
  ns_uid :: string
  ns_terminating :: bool

text \<open>What is seen of a container of a pod.\<close>

record container_status =
  ks_name :: string
  ks_waiting :: "(string \<times> string) option"
  ks_exited :: "(int \<times> string) option"

record pod_status =
  ps_name :: string
  ps_init :: "container_status list"
  ps_main :: "container_status list"

text \<open>
  The status of a Deployment: replica counts, the message of a condition Progressing with reason
  ProgressDeadlineExceeded and status True, its pods (\<^const>\<open>None\<close> when they cannot be listed), and whether it is older
  than the boot timeout.
\<close>

record dep_status =
  ds_available :: int
  ds_ready :: int
  ds_updated :: int
  ds_total :: int
  ds_deadline :: "string option"
  ds_pods :: "pod_status list option"
  ds_overdue :: bool

text \<open>Replica sets and pods of the target namespace, with what their controller reference says.\<close>

record owner_ref =
  or_api :: string
  or_kind :: string
  or_uid :: string

record replica_set =
  rp_uid :: string
  rp_owner :: "owner_ref option"

record target_pod =
  tp_owner :: "owner_ref option"
  tp_deleting :: bool
  tp_running :: bool
  tp_pod_ip :: string

record cluster =
  cl_cr :: "shadow_cr option"
  cl_target :: "target_deployment option"
  cl_target_uid :: string
  cl_replica_sets :: "replica_set list"
  cl_pods :: "target_pod list"
  cl_ns :: "namespace option"
  cl_role_binding :: "(string \<times> string \<times> string) option"
  cl_deployments :: "(string \<times> deployment) list"
  cl_services :: "(string \<times> service) list"
  cl_config_maps :: "(string \<times> config_map) list"
  cl_secrets :: "(string \<times> (string \<times> string) list) list"
  cl_source_secrets :: "((string \<times> string) \<times> (string \<times> string) list) list"
  cl_observed :: "string \<Rightarrow> dep_status"
  cl_rule :: "(rule_spec \<times> string) option"
  cl_queue :: "string option"
  cl_queue_bound :: bool
  cl_published :: "shadow_cr list"
  cl_events :: "string list"
  cl_replays :: "string list"
  cl_start_replies :: "(string + int) list"
  cl_ids :: "(int \<times> bytes option) list"
  cl_s3_deleted :: "string list"
  cl_faults :: "api_fault list"

section \<open>Steps that may end the pass\<close>

text \<open>A pass goes on with a value, or it ends: with an interval after which it is run again, or with an error.\<close>

datatype requeue = NoRequeue | AtOnce | After duration

datatype 'a outcome = Go 'a | Done requeue | Err string

type_synonym 'a step = "cluster \<Rightarrow> 'a outcome \<times> cluster"

definition go :: "'a \<Rightarrow> 'a step" where
  "go x w = (Go x, w)"

definition done_with :: "requeue \<Rightarrow> 'a step" where
  "done_with r w = (Done r, w)"

definition fail :: "string \<Rightarrow> 'a step" where
  "fail e w = (Err e, w)"

definition and_then :: "'a step \<Rightarrow> ('a \<Rightarrow> 'b step) \<Rightarrow> 'b step" where
  "and_then m f w =
     (case m w of (Go x, w') \<Rightarrow> f x w' | (Done r, w') \<Rightarrow> (Done r, w') | (Err e, w') \<Rightarrow> (Err e, w'))"

text \<open>An error is given to a handler; \<^verbatim>\<open>attempt\<close> turns it into a value, which the caller may ignore.\<close>

definition on_error :: "'a step \<Rightarrow> (string \<Rightarrow> 'a step) \<Rightarrow> 'a step" where
  "on_error m h w = (case m w of (Err e, w') \<Rightarrow> h e w' | (r, w') \<Rightarrow> (r, w'))"

definition wrap_error :: "string \<Rightarrow> 'a step \<Rightarrow> 'a step" where
  "wrap_error prefix m = on_error m (\<lambda>e. fail (prefix @ e))"

definition read :: "(cluster \<Rightarrow> 'a) \<Rightarrow> 'a step" where
  "read f w = (Go (f w), w)"

definition change :: "(cluster \<Rightarrow> cluster) \<Rightarrow> unit step" where
  "change f w = (Go (), f w)"

fun for_each :: "('a \<Rightarrow> unit step) \<Rightarrow> 'a list \<Rightarrow> unit step" where
  "for_each f [] = go ()"
| "for_each f (x # xs) = and_then (f x) (\<lambda>_. for_each f xs)"

text \<open>One call of the API server or of the broker.\<close>

definition next_fault :: "cluster \<Rightarrow> api_fault" where
  "next_fault w = (case cl_faults w of [] \<Rightarrow> Fine | f # fs \<Rightarrow> f)"

definition api :: "unit step" where
  "api w = (case next_fault w of Fails e \<Rightarrow> Err e | _ \<Rightarrow> Go (), w\<lparr>cl_faults := tl (cl_faults w)\<rparr>)"

definition call :: "(cluster \<Rightarrow> cluster) \<Rightarrow> unit step" where
  "call f = and_then api (\<lambda>_. change f)"

definition fetch :: "(cluster \<Rightarrow> 'a) \<Rightarrow> 'a step" where
  "fetch f = and_then api (\<lambda>_. read f)"

section \<open>Objects of the shadow namespace\<close>

text \<open>
  \<^verbatim>\<open>CreateOrPatch\<close>: read, edit, and write when the object is new or has changed.
\<close>

definition create_or_patch ::
  "(cluster \<Rightarrow> (string \<times> 'o) list) \<Rightarrow> ((string \<times> 'o) list \<Rightarrow> cluster \<Rightarrow> cluster) \<Rightarrow> 'o \<Rightarrow> string \<Rightarrow> ('o \<Rightarrow> 'o) \<Rightarrow> unit step" where
  "create_or_patch get put blank name edit =
     and_then (fetch (\<lambda>w. map_of (get w) name))
       (\<lambda>old. let new = edit (case old of None \<Rightarrow> blank | Some x \<Rightarrow> x)
              in if old = Some new then go () else call (\<lambda>w. put (AList.update name new (get w)) w))"

definition apply_deployment :: "string \<Rightarrow> (deployment \<Rightarrow> deployment) \<Rightarrow> unit step" where
  "apply_deployment = create_or_patch cl_deployments (\<lambda>x. cl_deployments_update (\<lambda>_. x)) empty_deployment"

definition apply_service :: "string \<Rightarrow> (service \<Rightarrow> service) \<Rightarrow> unit step" where
  "apply_service = create_or_patch cl_services (\<lambda>x. cl_services_update (\<lambda>_. x)) empty_service"

definition apply_config_map :: "string \<Rightarrow> (config_map \<Rightarrow> config_map) \<Rightarrow> unit step" where
  "apply_config_map = create_or_patch cl_config_maps (\<lambda>x. cl_config_maps_update (\<lambda>_. x)) empty_config_map"

text \<open>The copy of a secret: its data replaces what was there.\<close>

definition apply_secret :: "string \<Rightarrow> (string \<times> string) list \<Rightarrow> unit step" where
  "apply_secret name data = create_or_patch cl_secrets (\<lambda>x. cl_secrets_update (\<lambda>_. x)) [] name (\<lambda>_. data)"

text \<open>Deletes ignore objects which are gone.\<close>

definition delete_deployment :: "string \<Rightarrow> unit step" where
  "delete_deployment name = call (\<lambda>w. w\<lparr>cl_deployments := AList.delete name (cl_deployments w)\<rparr>)"

definition delete_service :: "string \<Rightarrow> unit step" where
  "delete_service name = call (\<lambda>w. w\<lparr>cl_services := AList.delete name (cl_services w)\<rparr>)"

definition delete_config_map :: "string \<Rightarrow> unit step" where
  "delete_config_map name = call (\<lambda>w. w\<lparr>cl_config_maps := AList.delete name (cl_config_maps w)\<rparr>)"

section \<open>The status of the test (shadowtest\_resources.go)\<close>

type_synonym status_mutator = "shadow_test_status \<Rightarrow> shadow_test_status"

definition ConditionReady :: string where "ConditionReady = ''Ready''"
definition ConditionProgressing :: string where "ConditionProgressing = ''Progressing''"
definition ConditionDegraded :: string where "ConditionDegraded = ''Degraded''"

text \<open>\<^verbatim>\<open>meta.SetStatusCondition\<close>: the entry of the type is replaced, or appended when there is none.\<close>

definition set_condition :: "condition \<Rightarrow> condition list \<Rightarrow> condition list" where
  "set_condition c cs =
     (if list_ex (\<lambda>d. cd_type d = cd_type c) cs
      then map (\<lambda>d. if cd_type d = cd_type c then c else d) cs else cs @ [c])"

definition status_base :: "int \<Rightarrow> string \<Rightarrow> string \<Rightarrow> string \<Rightarrow> status_mutator" where
  "status_base generation phase message shadowNS s =
     (let reason = (if phase = [] then ''Unknown'' else phase);
          put = (\<lambda>t active. set_condition \<lparr>cd_type = t, cd_status = active, cd_reason = reason,
                                        cd_message = message, cd_generation = generation\<rparr>)
      in s\<lparr>sta_phase := phase, sta_message := message, sta_namespace := shadowNS,
           sta_conditions :=
             put ConditionDegraded (phase = PhaseFailed)
               (put ConditionProgressing (phase = PhaseProgressing \<or> phase = PhaseDeleting)
                 (put ConditionReady (phase = PhaseReady) (sta_conditions s)))\<rparr>)"

definition status_boot :: "string \<Rightarrow> component_status \<Rightarrow> status_mutator" where
  "status_boot bstep boot s = s\<lparr>sta_boot_step := bstep, sta_components := boot\<rparr>"

definition status_extras :: "string list option \<Rightarrow> string \<Rightarrow> string \<Rightarrow> string \<Rightarrow> status_mutator" where
  "status_extras captureTargets kaiselPhase igrisEndpoint igrisRabbitPhase s =
     s\<lparr>sta_capture_targets := (case captureTargets of None \<Rightarrow> sta_capture_targets s | Some ts \<Rightarrow> ts),
       sta_kaisel_phase := (if kaiselPhase \<noteq> [] then kaiselPhase else sta_kaisel_phase s),
       sta_igris_endpoint := (if igrisEndpoint \<noteq> [] then igrisEndpoint else sta_igris_endpoint s),
       sta_igris_rabbit_phase := (if igrisRabbitPhase \<noteq> [] then igrisRabbitPhase else sta_igris_rabbit_phase s)\<rparr>"

text \<open>
  A merge patch writes the fields that differ from the snapshot taken before; the server's answer is
  decoded into the object in memory, where a field the server leaves out keeps its value.
\<close>

definition merged :: "'a \<Rightarrow> 'a \<Rightarrow> 'a \<Rightarrow> 'a" where
  "merged base new stored = (if new = base then stored else new)"

definition merge_status :: "shadow_test_status \<Rightarrow> shadow_test_status \<Rightarrow> shadow_test_status \<Rightarrow> shadow_test_status" where
  "merge_status base new s =
     s\<lparr>sta_phase := merged (sta_phase base) (sta_phase new) (sta_phase s),
       sta_message := merged (sta_message base) (sta_message new) (sta_message s),
       sta_namespace := merged (sta_namespace base) (sta_namespace new) (sta_namespace s),
       sta_capture_targets := merged (sta_capture_targets base) (sta_capture_targets new) (sta_capture_targets s),
       sta_kaisel_phase := merged (sta_kaisel_phase base) (sta_kaisel_phase new) (sta_kaisel_phase s),
       sta_igris_endpoint := merged (sta_igris_endpoint base) (sta_igris_endpoint new) (sta_igris_endpoint s),
       sta_amqp_queue := merged (sta_amqp_queue base) (sta_amqp_queue new) (sta_amqp_queue s),
       sta_igris_rabbit_phase := merged (sta_igris_rabbit_phase base) (sta_igris_rabbit_phase new) (sta_igris_rabbit_phase s),
       sta_session := merged (sta_session base) (sta_session new) (sta_session s),
       sta_execution := merged (sta_execution base) (sta_execution new) (sta_execution s),
       sta_replay_state := merged (sta_replay_state base) (sta_replay_state new) (sta_replay_state s),
       sta_boot_step := merged (sta_boot_step base) (sta_boot_step new) (sta_boot_step s),
       sta_components := merged (sta_components base) (sta_components new) (sta_components s),
       sta_conditions := merged (sta_conditions base) (sta_conditions new) (sta_conditions s)\<rparr>"

definition kept :: "'a list \<Rightarrow> 'a list \<Rightarrow> 'a list" where
  "kept stored mem = (if stored = [] then mem else stored)"

definition decode_status :: "shadow_test_status \<Rightarrow> shadow_test_status \<Rightarrow> shadow_test_status" where
  "decode_status stored mem =
     stored\<lparr>sta_phase := kept (sta_phase stored) (sta_phase mem),
       sta_message := kept (sta_message stored) (sta_message mem),
       sta_namespace := kept (sta_namespace stored) (sta_namespace mem),
       sta_capture_targets := kept (sta_capture_targets stored) (sta_capture_targets mem),
       sta_kaisel_phase := kept (sta_kaisel_phase stored) (sta_kaisel_phase mem),
       sta_igris_endpoint := kept (sta_igris_endpoint stored) (sta_igris_endpoint mem),
       sta_amqp_queue := kept (sta_amqp_queue stored) (sta_amqp_queue mem),
       sta_igris_rabbit_phase := kept (sta_igris_rabbit_phase stored) (sta_igris_rabbit_phase mem),
       sta_session := kept (sta_session stored) (sta_session mem),
       sta_execution := kept (sta_execution stored) (sta_execution mem),
       sta_replay_state := kept (sta_replay_state stored) (sta_replay_state mem),
       sta_boot_step := kept (sta_boot_step stored) (sta_boot_step mem),
       sta_conditions := kept (sta_conditions stored) (sta_conditions mem)\<rparr>"

definition decode_answer :: "shadow_cr \<Rightarrow> shadow_cr \<Rightarrow> shadow_cr" where
  "decode_answer stored mem =
     stored\<lparr>st_status := decode_status (st_status stored) (st_status mem),
       st_spec := (st_spec stored)
         \<lparr>spec_service_port := (if spec_service_port (st_spec stored) = 0 then spec_service_port (st_spec mem)
                                else spec_service_port (st_spec stored)),
          spec_app_port := (if spec_app_port (st_spec stored) = 0 then spec_app_port (st_spec mem)
                            else spec_app_port (st_spec stored)),
          spec_old_image := kept (spec_old_image (st_spec stored)) (spec_old_image (st_spec mem))\<rparr>\<rparr>"

text \<open>\<^verbatim>\<open>Status().Patch\<close>: with the snapshot, the edited object; gone objects are an error.\<close>

definition patch_status :: "shadow_test_status \<Rightarrow> shadow_cr \<Rightarrow> shadow_cr step" where
  "patch_status base st =
     and_then api (\<lambda>_. and_then (read cl_cr)
       (\<lambda>stored. case stored of
          None \<Rightarrow> fail ''not found''
        | Some cr \<Rightarrow>
            let cr' = cr\<lparr>st_status := merge_status base (st_status st) (st_status cr)\<rparr>
            in and_then (change (\<lambda>w. w\<lparr>cl_cr := Some cr'\<rparr>)) (\<lambda>_. go (decode_answer cr' st))))"

text \<open>
  \<^verbatim>\<open>patchStatusCore\<close>: nothing when the status is as it was; a successful write is published.  Its error is
  returned beside the object, which the mutators have changed also when the write failed.
\<close>

definition patch_status_core :: "status_mutator list \<Rightarrow> shadow_cr \<Rightarrow> (string option \<times> shadow_cr) step" where
  "patch_status_core mutators st =
     (let st1 = st\<lparr>st_status := fold (\<lambda>f. f) mutators (st_status st)\<rparr>
      in if st_status st1 = st_status st then go (None, st1)
         else on_error
           (and_then (patch_status (st_status st) st1)
              (\<lambda>st2. and_then (change (\<lambda>w. w\<lparr>cl_published := cl_published w @ [st2]\<rparr>)) (\<lambda>_. go (None, st2))))
           (\<lambda>e. go (Some e, st1)))"

definition patch_boot_status ::
  "string \<Rightarrow> string \<Rightarrow> string \<Rightarrow> string \<Rightarrow> component_status \<Rightarrow> shadow_cr \<Rightarrow> (string option \<times> shadow_cr) step" where
  "patch_boot_status phase message shadowNS bstep boot st =
     patch_status_core [status_base (st_generation st) phase message shadowNS, status_boot bstep boot] st"

definition patch_status_ready ::
  "string \<Rightarrow> string \<Rightarrow> string list option \<Rightarrow> string \<Rightarrow> string \<Rightarrow> string \<Rightarrow> component_status \<Rightarrow> shadow_cr \<Rightarrow> (string option \<times> shadow_cr) step" where
  "patch_status_ready message shadowNS captureTargets kaiselPhase igrisEndpoint igrisRabbitPhase boot st =
     patch_status_core
       [status_base (st_generation st) PhaseReady message shadowNS,
        status_extras captureTargets kaiselPhase igrisEndpoint igrisRabbitPhase,
        status_boot BootStepReady boot] st"

end
