(* ===== verification/MonarchWorkloads.thy ===== *)
theory MonarchWorkloads
  imports MonarchCluster
begin

text \<open>
  The reconcile functions of the workloads, their readiness, the broker of the target, the capture rule
  and the secrets: one function each, with every call that changes the cluster.
\<close>

section \<open>Readiness (shadowtest\_workload\_ready.go)\<close>

definition terminalPodWaitingReasons :: "string list" where
  "terminalPodWaitingReasons =
     [''ImagePullBackOff'', ''ErrImagePull'', ''CrashLoopBackOff'', ''CreateContainerConfigError'',
      ''InvalidImageName'', ''ErrImageNeverPull'']"

text \<open>A wait that cannot end has a message; \<^const>\<open>None\<close> is a wait that may.\<close>

definition container_status_terminal :: "string \<Rightarrow> string \<Rightarrow> container_status \<Rightarrow> string option" where
  "container_status_terminal podName component ks =
     (case ks_waiting ks of
        Some (reason, msg) \<Rightarrow>
          (if reason \<in> set terminalPodWaitingReasons
           then Some (component @ '' pod '' @ podName @ '': '' @ reason @ '' ('' @ msg @ '')'') else None)
      | None \<Rightarrow> None)"

definition container_status_exited :: "string \<Rightarrow> string \<Rightarrow> container_status \<Rightarrow> string option" where
  "container_status_exited podName component ks =
     (case ks_exited ks of
        Some (code, msg) \<Rightarrow>
          (if code \<noteq> 0
           then Some (component @ '' pod '' @ podName @ '' container '' @ ks_name ks @ '' exited '' @ itoz code @ '': '' @ msg)
           else None)
      | None \<Rightarrow> None)"

definition container_statuses_terminal :: "string \<Rightarrow> string \<Rightarrow> container_status list \<Rightarrow> string option" where
  "container_statuses_terminal podName component statuses =
     first_some
       (\<lambda>ks. case container_status_terminal podName component ks of
               Some e \<Rightarrow> Some e | None \<Rightarrow> container_status_exited podName component ks) statuses"

definition pod_terminal_reason :: "string \<Rightarrow> pod_status \<Rightarrow> string option" where
  "pod_terminal_reason component p =
     (case container_statuses_terminal (ps_name p) component (ps_init p) of
        Some e \<Rightarrow> Some e
      | None \<Rightarrow> container_statuses_terminal (ps_name p) component (ps_main p))"

definition pods_terminal_reason :: "string \<Rightarrow> pod_status list option \<Rightarrow> string option" where
  "pods_terminal_reason component pods =
     (case pods of None \<Rightarrow> None | Some ps \<Rightarrow> first_some (pod_terminal_reason component) ps)"

definition progress_terminal_reason :: "string \<Rightarrow> dep_status \<Rightarrow> string option" where
  "progress_terminal_reason component ds =
     (case ds_deadline ds of
        None \<Rightarrow> None
      | Some msg \<Rightarrow> Some (if msg = [] then component @ '' deployment progress deadline exceeded'' else msg))"

text \<open>A Deployment that exists, judged by its status.\<close>

definition boot_verdict :: "string \<Rightarrow> dep_status \<Rightarrow> bool \<times> string option" where
  "boot_verdict component ds =
     (if 0 < ds_available ds then (True, None)
      else case progress_terminal_reason component ds of
        Some e \<Rightarrow> (False, Some e)
      | None \<Rightarrow>
          (case pods_terminal_reason component (ds_pods ds) of
             Some e \<Rightarrow> (False, Some e)
           | None \<Rightarrow>
               (False, if ds_overdue ds then Some (component @ '' did not become ready within 7m0s'') else None)))"

definition deployment_boot_ready :: "string \<Rightarrow> string \<Rightarrow> (bool \<times> string option) step" where
  "deployment_boot_ready name component =
     and_then (fetch (\<lambda>w. map_of (cl_deployments w) name))
       (\<lambda>d. case d of
              None \<Rightarrow> go (False, None)
            | Some x \<Rightarrow> read (\<lambda>w. boot_verdict component (cl_observed w name)))"

section \<open>Sinks (shadowtest\_beru\_local.go, shadowtest\_shop.go, shadowtest\_igris.go)\<close>

definition reconcile_local_beru :: "(string \<Rightarrow> string) \<Rightarrow> shadow_cr \<Rightarrow> unit step" where
  "reconcile_local_beru getenv st =
     and_then (apply_service localBeruName (edit_local_beru_service st))
       (\<lambda>_. apply_deployment localBeruName (edit_local_beru_deployment getenv st))"

definition local_beru_ready :: "(bool \<times> string option) step" where
  "local_beru_ready = deployment_boot_ready localBeruName localBeruName"

definition reconcile_shop :: "(string \<Rightarrow> string) \<Rightarrow> shadow_cr \<Rightarrow> string \<Rightarrow> unit step" where
  "reconcile_shop getenv st shadowNS =
     and_then (apply_service shopName (edit_shop_service st))
       (\<lambda>_. apply_deployment shopName (edit_shop_deployment getenv st shadowNS))"

definition shop_deployment_ready :: "(bool \<times> string option) step" where
  "shop_deployment_ready = deployment_boot_ready shopName ''Shop''"

definition reconcile_igris_stack :: "(string \<Rightarrow> string) \<Rightarrow> shadow_cr \<Rightarrow> string \<Rightarrow> unit step" where
  "reconcile_igris_stack getenv st shadowNS =
     (if \<not> needs_http_ingress st then go ()
      else and_then (apply_config_map (igris_config_map_name st) (edit_igris_config_map st))
        (\<lambda>_. and_then (apply_deployment (igris_deployment_name st) (edit_igris_deployment getenv st shadowNS))
        (\<lambda>_. apply_service (igris_service_name st) (edit_igris_service st))))"

definition igris_deployment_ready :: "shadow_cr \<Rightarrow> (bool \<times> string option) step" where
  "igris_deployment_ready st = deployment_boot_ready (igris_deployment_name st) ''Igris''"

section \<open>The broker of the target (shadowtest\_rabbitmq.go)\<close>

definition prod_shadow_queue_name :: "shadow_cr \<Rightarrow> string" where
  "prod_shadow_queue_name st = ''shadow-diff-'' @ to_lower (st_uid st)"

definition amqp_exchange_type :: "amqp_input \<Rightarrow> string" where
  "amqp_exchange_type a =
     (let t = trim_space (to_lower (ai_exchange_type a)) in if t = [] then ''topic'' else t)"

text \<open>The address to dial, with the user and the password that are set in it.\<close>

definition resolve_prod_amqp_url ::
  "(string \<Rightarrow> bool) \<Rightarrow> shadow_cr \<Rightarrow> amqp_input \<Rightarrow> (parsed_url \<times> string \<times> string) step" where
  "resolve_prod_amqp_url ip6 st a =
     (case parse_host_only_amqp_url ip6 (ai_prod_url a) of
        Inl e \<Rightarrow> fail e
      | Inr u \<Rightarrow>
     (case amqp_credentials_secret_name a of
        Inl e \<Rightarrow> fail e
      | Inr name \<Rightarrow>
          let secret = ''amqp credentials secret '' @ st_namespace st @ ''/'' @ name
          in and_then (wrap_error (secret @ '': '') (fetch (\<lambda>w. map_of (cl_source_secrets w) (st_namespace st, name))))
            (\<lambda>sec. case sec of
               None \<Rightarrow> fail (secret @ '': not found'')
             | Some data \<Rightarrow>
                 let user = trim_space (go_get [] data ''username'')
                 in if user = [] then fail (secret @ '': missing username'')
                    else case map_of data ''password'' of
                      None \<Rightarrow> fail (secret @ '': missing password'')
                    | Some pass \<Rightarrow> go (u, user, pass))))"

text \<open>Dialling and opening a channel are calls of their own.\<close>

definition open_broker :: "unit step" where
  "open_broker = and_then (wrap_error ''dial prod broker: '' api) (\<lambda>_. wrap_error ''prod broker channel: '' api)"

definition with_amqp :: "(string \<Rightarrow> bool) \<Rightarrow> shadow_cr \<Rightarrow> (amqp_input \<Rightarrow> 'a step) \<Rightarrow> 'a step" where
  "with_amqp ip6 st f =
     (case first_amqp_input st of
        Inl e \<Rightarrow> fail e
      | Inr a \<Rightarrow> and_then (resolve_prod_amqp_url ip6 st a) (\<lambda>dsn. f a))"

text \<open>Declaring a queue that exists with the same arguments changes nothing.\<close>

definition queue_declare :: "string \<Rightarrow> unit step" where
  "queue_declare name =
     wrap_error (''queue declare '' @ json_quote name @ '': '') (call (\<lambda>w. if cl_queue w = Some name then w else w\<lparr>cl_queue := Some name, cl_queue_bound := False\<rparr>))"

definition ensure_prod_queue_declared :: "(string \<Rightarrow> bool) \<Rightarrow> shadow_cr \<Rightarrow> shadow_cr step" where
  "ensure_prod_queue_declared ip6 st =
     (if \<not> has_rabbit_input st \<or> sta_amqp_queue (st_status st) \<noteq> [] then go st
      else with_amqp ip6 st
        (\<lambda>a. and_then open_broker (\<lambda>_. and_then (queue_declare (prod_shadow_queue_name st))
          (\<lambda>_. wrap_error ''patch status amqpQueueName: '' (patch_status (st_status st)
                 (st\<lparr>st_status := (st_status st)\<lparr>sta_amqp_queue := prod_shadow_queue_name st\<rparr>\<rparr>))))))"

definition prod_queue_of :: "shadow_cr \<Rightarrow> string" where
  "prod_queue_of st =
     (if sta_amqp_queue (st_status st) = [] then prod_shadow_queue_name st else sta_amqp_queue (st_status st))"

definition ensure_prod_queue_bound :: "(string \<Rightarrow> bool) \<Rightarrow> shadow_cr \<Rightarrow> unit step" where
  "ensure_prod_queue_bound ip6 st =
     (if \<not> has_rabbit_input st then go ()
      else with_amqp ip6 st
        (\<lambda>a. and_then open_broker
          (\<lambda>_. and_then (wrap_error (''queue bind '' @ json_quote (prod_queue_of st) @ '' to exchange '' @ json_quote (ai_exchange a) @ '': '')
                         (fetch cl_queue))
          (\<lambda>q. if q = Some (prod_queue_of st) then change (\<lambda>w. w\<lparr>cl_queue_bound := True\<rparr>)
               else fail (''queue bind '' @ json_quote (prod_queue_of st) @ '' to exchange '' @ json_quote (ai_exchange a) @ '': NOT_FOUND'')))))"

text \<open>A broker that cannot be dialled ends the deletion of the queue without an error.\<close>

definition delete_prod_queue :: "(string \<Rightarrow> bool) \<Rightarrow> shadow_cr \<Rightarrow> unit step" where
  "delete_prod_queue ip6 st =
     (if \<not> has_rabbit_input st then go ()
      else with_amqp ip6 st
        (\<lambda>a. and_then (on_error (and_then api (\<lambda>_. go True)) (\<lambda>e. go False))
          (\<lambda>dialled. if \<not> dialled then go ()
             else and_then (wrap_error ''prod broker channel for delete: '' api)
               (\<lambda>_. wrap_error (''queue delete '' @ json_quote (prod_queue_of st) @ '': '')
                  (call (\<lambda>w. if cl_queue w = Some (prod_queue_of st)
                            then w\<lparr>cl_queue := None, cl_queue_bound := False\<rparr> else w))))))"

section \<open>Replaying messages (shadowtest\_igris\_rabbitmq.go, shadowtest\_egress\_relay\_rabbitmq.go)\<close>

definition amqp_urls_of_roles :: "dependency_spec \<Rightarrow> string \<Rightarrow> (string \<times> env_source) list" where
  "amqp_urls_of_roles dep shadowNS =
     env_values (zip [''CONTROL_A_AMQP_URL'', ''CONTROL_B_AMQP_URL'', ''CANDIDATE_AMQP_URL'']
       (map (\<lambda>role. shadow_amqp_url shadowNS (dp_name dep) role (dep_port dep)) ShadowRoles))"

definition igris_rabbit_env :: "(string \<Rightarrow> bool) \<Rightarrow> shadow_cr \<Rightarrow> string \<Rightarrow> (string \<times> env_source) list step" where
  "igris_rabbit_env ip6 st shadowNS =
     (case first_amqp_input st of
        Inl e \<Rightarrow> fail e
      | Inr a \<Rightarrow>
     (case dependency_by_name st (ai_target a) of
        None \<Rightarrow> fail (''dependency '' @ json_quote (ai_target a) @ '' not found'')
      | Some dep \<Rightarrow>
          let env = env_values [(''SHADOW_PUBLISH_EXCHANGE'', ai_exchange a),
                (''SHADOW_PUBLISH_EXCHANGE_TYPE'', amqp_exchange_type a),
                (''IGRIS_RMQ_SAMPLE_PERCENTAGE'', itoz (sample_percentage st)), (''IGRIS_ADMIN_ADDR'', '':9090'')] @
              storage_env_vars st (trim_space (sta_session (st_status st)))
          in if operating_mode st = OpRecord then
               and_then (resolve_prod_amqp_url ip6 st a)
                 (\<lambda>(u, user, pass). go (env @ [(''PROD_URL'', EnvUrl u user pass),
                                        (''SHADOW_QUEUE_NAME'', EnvValue (prod_queue_of st))]))
             else if operating_mode st = OpReplay then go (env @ amqp_urls_of_roles dep shadowNS)
             else go env))"

definition igris_rabbit_labels :: "shadow_cr \<Rightarrow> (string \<times> string) list" where
  "igris_rabbit_labels st = owner_labels st @ [(labelAppName, ''igris-rabbitmq'')]"

definition edit_igris_rabbit_deployment ::
  "(string \<Rightarrow> string) \<Rightarrow> shadow_cr \<Rightarrow> (string \<times> env_source) list \<Rightarrow> deployment \<Rightarrow> deployment" where
  "edit_igris_rabbit_deployment getenv st env d =
     d\<lparr>dl_labels := igris_rabbit_labels st, dl_replicas := replicas_for (spec_igris_rabbit (st_spec st)),
       dl_selector := igris_rabbit_labels st, dl_pod_labels := igris_rabbit_labels st,
       dl_containers := [\<lparr>ct_name = ''igris-rabbitmq'', ct_image = igris_rabbit_image_for getenv st,
         ct_ports = [(''admin'', 9090)], ct_env = env, ct_env_from = [], ct_ready = NoProbe\<rparr>]\<rparr>"

definition edit_igris_rabbit_service :: "shadow_cr \<Rightarrow> service \<Rightarrow> service" where
  "edit_igris_rabbit_service st s =
     (let labels = [(labelManagedBy, ''monarch''), (labelShadowTestName, st_name st), (labelAppName, ''igris-rabbitmq'')]
      in \<lparr>sv_labels = labels, sv_selector = labels, sv_ports = [(''admin'', 9090, PortNumber 9090)]\<rparr>)"

definition reconcile_igris_rabbit_stack ::
  "(string \<Rightarrow> string) \<Rightarrow> (string \<Rightarrow> bool) \<Rightarrow> shadow_cr \<Rightarrow> string \<Rightarrow> unit step" where
  "reconcile_igris_rabbit_stack getenv ip6 st shadowNS =
     (if \<not> has_rabbit_input st then go ()
      else if operating_mode st = OpRecord \<and> sta_amqp_queue (st_status st) = []
        then fail ''cannot deploy igris-rabbitmq before prod shadow queue is provisioned''
      else and_then (igris_rabbit_env ip6 st shadowNS)
        (\<lambda>env. and_then (apply_deployment (igris_rabbit_deployment_name st) (edit_igris_rabbit_deployment getenv st env))
          (\<lambda>_. apply_service (igris_rabbit_service_name st) (edit_igris_rabbit_service st))))"

definition igris_rabbit_deployment_ready :: "shadow_cr \<Rightarrow> (bool \<times> string option) step" where
  "igris_rabbit_deployment_ready st =
     (if \<not> has_rabbit_input st then go (True, None)
      else deployment_boot_ready (igris_rabbit_deployment_name st) ''igris-rabbitmq'')"

definition relay_broker_dependency :: "shadow_cr \<Rightarrow> string + dependency_spec" where
  "relay_broker_dependency st =
     (if has_rabbit_input st then
        (case first_amqp_input st of
           Inl e \<Rightarrow> Inl e
         | Inr a \<Rightarrow>
             (case dependency_by_name st (ai_target a) of
                None \<Rightarrow> Inl (''dependency '' @ json_quote (ai_target a) @ '' not found'')
              | Some dep \<Rightarrow> Inr dep))
      else case List.find is_rabbit_broker (spec_dependencies (st_spec st)) of
        None \<Rightarrow> Inl ''no rabbitmq broker dependency found''
      | Some dep \<Rightarrow> Inr dep)"

definition relay_env :: "shadow_cr \<Rightarrow> string \<Rightarrow> string + (string \<times> env_source) list" where
  "relay_env st shadowNS =
     (case relay_broker_dependency st of
        Inl e \<Rightarrow> Inl e
      | Inr dep \<Rightarrow>
          Inr (amqp_urls_of_roles dep shadowNS @
            env_values [(''BERU_HTTP_URL'', ''http://'' @ beru_http_host_for shadowNS), (''SHADOW_TEST_NAME'', st_name st),
              (''REPLAY_EXECUTION_ID'', sta_execution (st_status st)), (''EGRESS_EXCHANGE'', ''egress-events'')]))"

definition relay_labels :: "shadow_cr \<Rightarrow> (string \<times> string) list" where
  "relay_labels st = owner_labels st @ [(labelAppName, ''egress-relay-rabbitmq'')]"

definition edit_relay_deployment ::
  "(string \<Rightarrow> string) \<Rightarrow> shadow_cr \<Rightarrow> (string \<times> env_source) list \<Rightarrow> deployment \<Rightarrow> deployment" where
  "edit_relay_deployment getenv st env d =
     d\<lparr>dl_labels := relay_labels st, dl_replicas := replicas_for (spec_relay (st_spec st)),
       dl_selector := relay_labels st, dl_pod_labels := relay_labels st,
       dl_containers := [\<lparr>ct_name = ''egress-relay-rabbitmq'', ct_image = relay_image_for getenv st, ct_ports = [],
         ct_env = env, ct_env_from = [], ct_ready = NoProbe\<rparr>]\<rparr>"

definition reconcile_relay_stack :: "(string \<Rightarrow> string) \<Rightarrow> shadow_cr \<Rightarrow> string \<Rightarrow> unit step" where
  "reconcile_relay_stack getenv st shadowNS =
     (if \<not> needs_relay st then go ()
      else case relay_env st shadowNS of
        Inl e \<Rightarrow> fail e
      | Inr env \<Rightarrow> apply_deployment (relay_deployment_name st) (edit_relay_deployment getenv st env))"

definition relay_deployment_ready :: "shadow_cr \<Rightarrow> (bool \<times> string option) step" where
  "relay_deployment_ready st =
     (if \<not> needs_relay st then go (True, None)
      else deployment_boot_ready (relay_deployment_name st) ''egress-relay-rabbitmq'')"

end
