(* ===== verification/MonarchEnvoy.thy ===== *)
theory MonarchEnvoy
  imports MonarchObjects
begin

text \<open>
  The configuration of the Envoy sidecar (\<^verbatim>\<open>shadowtest_envoy.go\<close>): its text, with the ports, the role, the timeout
  and the addresses of Beru and Shop filled in.
\<close>

definition text_lines :: "string list \<Rightarrow> string" where
  "text_lines ls = concat (map (\<lambda>l. l @ [CHR 0x0A]) ls)"

text \<open>\<^verbatim>\<open>fmt.Sscanf(p, "%d", &n)\<close>: the digits in front, after an optional sign; then the conversion to \<^verbatim>\<open>int32\<close>.\<close>

definition scan_int :: "string \<Rightarrow> int option" where
  "scan_int p =
     (let (sign, s) = (case p of c # t \<Rightarrow> if c \<in> {CHR ''-'', CHR ''+''} then ([c], t) else ([], p) | [] \<Rightarrow> ([], []))
      in atoi (sign @ takeWhile is_digit s))"

definition parse_host_port :: "string \<Rightarrow> (string \<times> int) option" where
  "parse_host_port endpoint =
     (case split_host_port endpoint of
        None \<Rightarrow> None
      | Some (h, p) \<Rightarrow> map_option (\<lambda>n. (h, sint (word_of_int n :: 32 word))) (scan_int p))"

definition parse_beru_host_port :: "string \<Rightarrow> (string \<times> int) option" where
  "parse_beru_host_port address =
     (if CHR '':'' \<notin> set address then Some (address, 50051) else parse_host_port address)"

definition build_shop_ext_proc_cluster_yaml :: "string \<Rightarrow> int \<Rightarrow> string" where
  "build_shop_ext_proc_cluster_yaml host port = text_lines
    [''  - name: shop_ext_proc'',
     ''    type: STRICT_DNS'',
     ''    connect_timeout: 5s'',
     ''    typed_extension_protocol_options:'',
     ''      envoy.extensions.upstreams.http.v3.HttpProtocolOptions:'',
     ''        '' @ [CHR 0x22] @ ''@type'' @ [CHR 0x22] @ '': type.googleapis.com/envoy.extensions.upstreams.http.v3.HttpProtocolOptions'',
     ''        explicit_http_config:'',
     ''          http2_protocol_options: {}'',
     ''    load_assignment:'',
     ''      cluster_name: shop_ext_proc'',
     ''      endpoints:'',
     ''      - lb_endpoints:'',
     ''        - endpoint:'',
     ''            address:'',
     ''              socket_address:'',
     ''                address: '' @ host,
     ''                port_value: '' @ itoz port]"

definition egress_ext_proc_filter_lines :: "string \<Rightarrow> string \<Rightarrow> string list" where
  "egress_ext_proc_filter_lines role beruTimeout =
    [''          - name: envoy.filters.http.ext_proc'',
     ''            typed_config:'',
     ''              '' @ [CHR 0x22] @ ''@type'' @ [CHR 0x22] @ '': type.googleapis.com/envoy.extensions.filters.http.ext_proc.v3.ExternalProcessor'',
     ''              grpc_service:'',
     ''                envoy_grpc:'',
     ''                  cluster_name: shop_ext_proc'',
     ''                timeout: '' @ beruTimeout,
     ''                initial_metadata:'',
     ''                - key: x-shadow-mode'',
     ''                  value: '' @ [CHR 0x22] @ ''egress'' @ [CHR 0x22],
     ''                - key: x-shadow-role'',
     ''                  value: '' @ json_quote role,
     ''              failure_mode_allow: false'',
     ''              processing_mode:'',
     ''                request_header_mode: SEND'',
     ''                request_body_mode: BUFFERED'',
     ''                response_header_mode: SKIP'',
     ''                response_body_mode: NONE'']"

definition build_egress_http_listener_yaml :: "string \<Rightarrow> string \<Rightarrow> string" where
  "build_egress_http_listener_yaml role beruTimeout = text_lines
    ([''  - name: egress_http_listener'',
     ''    address:'',
     ''      socket_address:'',
     ''        address: 0.0.0.0'',
     ''        port_value: '' @ itoz 10001,
     ''    filter_chains:'',
     ''    - filters:'',
     ''      - name: envoy.filters.network.http_connection_manager'',
     ''        typed_config:'',
     ''          '' @ [CHR 0x22] @ ''@type'' @ [CHR 0x22] @ '': type.googleapis.com/envoy.extensions.filters.network.http_connection_manager.v3.HttpConnectionManager'',
     ''          stat_prefix: egress_http'',
     ''          route_config:'',
     ''            name: outbound_routes'',
     ''            virtual_hosts:'',
     ''            - name: egress_passthrough'',
     ''              domains: ['' @ [CHR 0x22] @ ''*'' @ [CHR 0x22] @ '']'',
     ''              routes:'',
     ''              - match:'',
     ''                  prefix: '' @ [CHR 0x22] @ ''/'' @ [CHR 0x22],
     ''                direct_response:'',
     ''                  status: 502'',
     ''                  body:'',
     ''                    inline_string: '' @ [CHR 0x22] @ ''egress: no mock found'' @ [CHR 0x22],
     ''          http_filters:''] @
     egress_ext_proc_filter_lines role beruTimeout @
     [''          - name: envoy.filters.http.router'',
     ''            typed_config:'',
     ''              '' @ [CHR 0x22] @ ''@type'' @ [CHR 0x22] @ '': type.googleapis.com/envoy.extensions.filters.http.router.v3.Router''])"

definition envoy_yaml :: "int \<Rightarrow> string \<Rightarrow> string \<Rightarrow> string \<Rightarrow> int \<Rightarrow> string \<Rightarrow> int \<Rightarrow> string \<Rightarrow> string" where
  "envoy_yaml ingressPort role timeout listener appPort beruHost beruPort clusters = text_lines
    [''admin:'',
     ''  address:'',
     ''    socket_address:'',
     ''      address: 0.0.0.0'',
     ''      port_value: 9901'',
     ''static_resources:'',
     ''  listeners:'',
     ''  - name: ingress'',
     ''    address:'',
     ''      socket_address:'',
     ''        address: 0.0.0.0'',
     ''        port_value: '' @ itoz ingressPort,
     ''    filter_chains:'',
     ''    - filters:'',
     ''      - name: envoy.filters.network.http_connection_manager'',
     ''        typed_config:'',
     ''          '' @ [CHR 0x22] @ ''@type'' @ [CHR 0x22] @ '': type.googleapis.com/envoy.extensions.filters.network.http_connection_manager.v3.HttpConnectionManager'',
     ''          stat_prefix: ingress'',
     ''          generate_request_id: true'',
     ''          route_config:'',
     ''            name: local_route'',
     ''            virtual_hosts:'',
     ''            - name: local_service'',
     ''              domains: ['' @ [CHR 0x22] @ ''*'' @ [CHR 0x22] @ '']'',
     ''              routes:'',
     ''              - match:'',
     ''                  prefix: '' @ [CHR 0x22] @ ''/'' @ [CHR 0x22],
     ''                route:'',
     ''                  cluster: local_app'',
     ''          # traceparent is not mutated here; pass-through for W3C context from Igris/OTel agent.'',
     ''          http_filters:'',
     ''          - name: envoy.filters.http.header_mutation'',
     ''            typed_config:'',
     ''              '' @ [CHR 0x22] @ ''@type'' @ [CHR 0x22] @ '': type.googleapis.com/envoy.extensions.filters.http.header_mutation.v3.HeaderMutation'',
     ''              mutations:'',
     ''                request_mutations:'',
     ''                - append:'',
     ''                    header:'',
     ''                      key: x-shadow-role'',
     ''                      value: '' @ [CHR 0x22] @ role @ [CHR 0x22],
     ''          - name: envoy.filters.http.ext_proc'',
     ''            typed_config:'',
     ''              '' @ [CHR 0x22] @ ''@type'' @ [CHR 0x22] @ '': type.googleapis.com/envoy.extensions.filters.http.ext_proc.v3.ExternalProcessor'',
     ''              grpc_service:'',
     ''                envoy_grpc:'',
     ''                  cluster_name: beru_ext_proc'',
     ''                timeout: '' @ timeout,
     ''                initial_metadata:'',
     ''                - key: x-shadow-role'',
     ''                  value: '' @ [CHR 0x22] @ role @ [CHR 0x22],
     ''              failure_mode_allow: true'',
     ''              processing_mode:'',
     ''                request_header_mode: SEND'',
     ''                response_header_mode: SEND'',
     ''                request_body_mode: NONE'',
     ''                response_body_mode: BUFFERED'',
     ''          - name: envoy.filters.http.router'',
     ''            typed_config:'',
     ''              '' @ [CHR 0x22] @ ''@type'' @ [CHR 0x22] @ '': type.googleapis.com/envoy.extensions.filters.http.router.v3.Router'',
     listener,
     ''  clusters:'',
     ''  - name: local_app'',
     ''    type: STATIC'',
     ''    connect_timeout: 5s'',
     ''    load_assignment:'',
     ''      cluster_name: local_app'',
     ''      endpoints:'',
     ''      - lb_endpoints:'',
     ''        - endpoint:'',
     ''            address:'',
     ''              socket_address:'',
     ''                address: 127.0.0.1'',
     ''                port_value: '' @ itoz appPort,
     ''  - name: beru_ext_proc'',
     ''    type: STRICT_DNS'',
     ''    connect_timeout: 5s'',
     ''    typed_extension_protocol_options:'',
     ''      envoy.extensions.upstreams.http.v3.HttpProtocolOptions:'',
     ''        '' @ [CHR 0x22] @ ''@type'' @ [CHR 0x22] @ '': type.googleapis.com/envoy.extensions.upstreams.http.v3.HttpProtocolOptions'',
     ''        explicit_http_config:'',
     ''          http2_protocol_options: {}'',
     ''    load_assignment:'',
     ''      cluster_name: beru_ext_proc'',
     ''      endpoints:'',
     ''      - lb_endpoints:'',
     ''        - endpoint:'',
     ''            address:'',
     ''              socket_address:'',
     ''                address: '' @ beruHost,
     ''                port_value: '' @ itoz beruPort,
     clusters]"

definition render_envoy_yaml :: "shadow_cr \<Rightarrow> string \<Rightarrow> string \<Rightarrow> string + string" where
  "render_envoy_yaml st shadowNS role =
     (case parse_beru_host_port (beru_grpc_address_for shadowNS) of
        None \<Rightarrow> Inl (''invalid beru-local address '' @ json_quote (beru_grpc_address_for shadowNS))
      | Some (beruHost, beruPort) \<Rightarrow>
     (case parse_host_port (shop_grpc_address_for shadowNS) of
        None \<Rightarrow> Inl (''invalid shopGRPCAddress '' @ json_quote (shop_grpc_address_for shadowNS))
      | Some (shopHost, shopPort) \<Rightarrow>
          let timeout = beru_grpc_timeout_for st
          in Inr (envoy_yaml (service_port_for st) role timeout (build_egress_http_listener_yaml role timeout)
               (application_port_for st) beruHost beruPort (build_shop_ext_proc_cluster_yaml shopHost shopPort))))"

end
