(* ===== verification/MonarchStack.thy ===== *)
theory MonarchStack
  imports MonarchWorkloads MonarchEnvoy
begin

text \<open>
  The rest of the stack of a test: dependencies, shadow roles, capture rule, namespace and secrets, and the
  identifiers of sessions and replay executions.
\<close>

section \<open>Dependencies\<close>

definition has_labels :: "(string \<times> string) list \<Rightarrow> (string \<times> string) list \<Rightarrow> bool" where
  "has_labels wanted labels \<longleftrightarrow> list_all (\<lambda>(k, v). map_of labels k = Some v) wanted"

definition reconcile_plugins_config_maps :: "shadow_cr \<Rightarrow> unit step" where
  "reconcile_plugins_config_maps st =
     (let brokers = filter is_rabbit_broker (spec_dependencies (st_spec st));
          desired = map (\<lambda>dep. rabbit_plugins_config_map_name (dp_name dep)) brokers;
          mine = has_labels [(labelShadowTestUID, st_uid st), (labelResourceKind, ''dependency'')]
      in and_then
           (for_each (\<lambda>dep. apply_config_map (rabbit_plugins_config_map_name (dp_name dep))
                            (edit_rabbit_plugins_config_map st dep)) brokers)
           (\<lambda>_. and_then (fetch (\<lambda>w. map fst (filter (\<lambda>(n, cm). mine (cm_labels cm)) (cl_config_maps w))))
             (\<lambda>names. for_each delete_config_map (filter (\<lambda>n. n \<notin> set desired) names))))"

definition prune_shadow_dependencies :: "shadow_cr \<Rightarrow> string list \<Rightarrow> unit step" where
  "prune_shadow_dependencies st desired =
     (let mine = has_labels [(labelShadowTestUID, st_uid st), (labelResourceKind, ''dependency'')]
      in and_then (fetch (\<lambda>w. map fst (filter (\<lambda>(n, d). mine (dl_labels d)) (cl_deployments w))))
           (\<lambda>names. and_then (for_each delete_deployment (filter (\<lambda>n. n \<notin> set desired) names))
             (\<lambda>_. and_then (fetch (\<lambda>w. map fst (filter (\<lambda>(n, s). mine (sv_labels s)) (cl_services w))))
               (\<lambda>names. for_each delete_service (filter (\<lambda>n. n \<notin> set desired) names)))))"

definition dependency_roles :: "shadow_cr \<Rightarrow> (dependency_spec \<times> string) list" where
  "dependency_roles st = concat (map (\<lambda>dep. map (Pair dep) ShadowRoles) (spec_dependencies (st_spec st)))"

definition reconcile_shadow_dependencies :: "shadow_cr \<Rightarrow> unit step" where
  "reconcile_shadow_dependencies st =
     and_then (reconcile_plugins_config_maps st)
       (\<lambda>_. and_then
         (for_each
            (\<lambda>(dep, role). and_then
               (apply_deployment (dependency_resource_name (dp_name dep) role) (edit_dependency_deployment st dep role))
               (\<lambda>_. apply_service (dependency_resource_name (dp_name dep) role) (edit_dependency_service st dep role)))
            (dependency_roles st))
         (\<lambda>_. prune_shadow_dependencies st
                (map (\<lambda>(dep, role). dependency_resource_name (dp_name dep) role) (dependency_roles st))))"

text \<open>The first workload that is not ready decides.\<close>

fun all_ready :: "(string \<times> string) list \<Rightarrow> (bool \<times> string option) step" where
  "all_ready [] = go (True, None)"
| "all_ready ((name, component) # rest) =
     and_then (deployment_boot_ready name component)
       (\<lambda>(ready, reason). if ready then all_ready rest else go (False, reason))"

definition shadow_dependencies_ready :: "shadow_cr \<Rightarrow> (bool \<times> string option) step" where
  "shadow_dependencies_ready st =
     all_ready (map (\<lambda>(dep, role). let name = dependency_resource_name (dp_name dep) role in (name, ''dependency '' @ name))
                    (dependency_roles st))"

section \<open>Shadow roles\<close>

definition reconcile_envoy_config_map :: "shadow_cr \<Rightarrow> string \<Rightarrow> string \<Rightarrow> unit step" where
  "reconcile_envoy_config_map st shadowNS role =
     (case render_envoy_yaml st shadowNS role of
        Inl e \<Rightarrow> fail e
      | Inr yaml \<Rightarrow>
          apply_config_map (envoy_config_map_name st role)
            (\<lambda>cm. \<lparr>cm_labels = add_labels (deployment_pod_labels st role) (cm_labels cm),
                   cm_data = AList.update ''envoy.yaml'' yaml (cm_data cm)\<rparr>))"

definition role_images :: "shadow_cr \<Rightarrow> (string \<times> string) list" where
  "role_images st =
     [(RoleControlA, spec_old_image (st_spec st)), (RoleControlB, spec_old_image (st_spec st)),
      (RoleCandidate, spec_new_image (st_spec st))]"

definition reconcile_shadow_workload_resources ::
  "(string \<Rightarrow> string) \<Rightarrow> shadow_cr \<Rightarrow> string \<Rightarrow> (string \<times> string) list \<Rightarrow> unit step" where
  "reconcile_shadow_workload_resources getenv st shadowNS env =
     (if spec_old_image (st_spec st) = [] then fail ''spec.oldImage is empty; control-a/b require a baseline image''
      else for_each
        (\<lambda>(role, img). and_then (reconcile_envoy_config_map st shadowNS role)
           (\<lambda>_. and_then (apply_deployment (shadow_deployment_name st role)
                    (edit_shadow_deployment getenv st shadowNS role img env))
             (\<lambda>_. apply_service (shadow_deployment_name st role) (edit_shadow_service st role))))
        (role_images st))"

text \<open>The readiness of every role, and the first reason met, a terminal one before others.\<close>

fun roles_ready :: "shadow_cr \<Rightarrow> string list \<Rightarrow> (string \<times> bool) list \<Rightarrow> string option \<Rightarrow> ((string \<times> bool) list \<times> string option) step" where
  "roles_ready st [] roles reason = go (roles, reason)"
| "roles_ready st (role # rest) roles reason =
     (let name = shadow_deployment_name st role
      in and_then (deployment_boot_ready name (''shadow deployment '' @ name))
        (\<lambda>(ready, r). roles_ready st rest (roles @ [(role, ready)]) (if reason = None \<and> \<not> ready then r else reason)))"

definition shadow_deployments_ready :: "shadow_cr \<Rightarrow> ((string \<times> bool) list \<times> string option) step" where
  "shadow_deployments_ready st = roles_ready st ShadowRoles [] None"

definition all_roles_ready :: "(string \<times> bool) list \<Rightarrow> bool" where
  "all_roles_ready roles \<longleftrightarrow> list_all snd roles \<and> roles \<noteq> []"

text \<open>Record mode runs no roles: what carries the label of a role is deleted, the config maps stay.\<close>

definition of_a_role :: "shadow_cr \<Rightarrow> (string \<times> string) list \<Rightarrow> bool" where
  "of_a_role st labels \<longleftrightarrow>
     has_labels [(labelManagedBy, ''monarch''), (labelShadowTestUID, st_uid st)] labels \<and>
     go_get [] labels labelRole \<in> set ShadowRoles"

definition delete_shadow_role_workloads :: "shadow_cr \<Rightarrow> unit step" where
  "delete_shadow_role_workloads st =
     and_then (fetch (\<lambda>w. map fst (filter (\<lambda>(n, d). of_a_role st (dl_labels d)) (cl_deployments w))))
       (\<lambda>names. and_then (for_each delete_deployment names)
         (\<lambda>_. and_then (fetch (\<lambda>w. map fst (filter (\<lambda>(n, s). of_a_role st (sv_labels s)) (cl_services w))))
           (\<lambda>names. for_each delete_service names)))"

section \<open>The capture rule (shadowtest\_kaisel.go, shadowtest\_target\_pods.go)\<close>

definition replica_set_owned_by :: "string \<Rightarrow> replica_set \<Rightarrow> bool" where
  "replica_set_owned_by uid rs =
     (case rp_owner rs of
        None \<Rightarrow> False
      | Some ref \<Rightarrow> or_api ref = ''apps/v1'' \<and> or_kind ref = ''Deployment'' \<and> or_uid ref = uid)"

definition pods_owned_by :: "string list \<Rightarrow> target_pod list \<Rightarrow> target_pod list" where
  "pods_owned_by uids pods =
     filter (\<lambda>p. case tp_owner p of None \<Rightarrow> False | Some ref \<Rightarrow> or_kind ref = ''ReplicaSet'' \<and> or_uid ref \<in> set uids) pods"

definition list_pods_owned :: "target_pod list step" where
  "list_pods_owned =
     and_then (wrap_error ''list replicasets: ''
         (fetch (\<lambda>w. map rp_uid (filter (replica_set_owned_by (cl_target_uid w)) (cl_replica_sets w)))))
       (\<lambda>uids. if uids = [] then go [] else wrap_error ''list pods: '' (fetch (\<lambda>w. pods_owned_by uids (cl_pods w))))"

definition running_pod_ips :: "target_pod list \<Rightarrow> string list" where
  "running_pod_ips pods =
     sort (map tp_pod_ip (filter (\<lambda>p. \<not> tp_deleting p \<and> tp_running p \<and> tp_pod_ip p \<noteq> []) pods))"

definition wanted_rule :: "shadow_cr \<Rightarrow> string \<Rightarrow> string list \<Rightarrow> rule_spec" where
  "wanted_rule st shadowNS ips =
     \<lparr>sp_ips = ips, sp_ports = to_uint16_ports (kaisel_ingress_ports st), sp_igris = kaisel_igris_base_url st,
      sp_egress = kaisel_egress_base_url shadowNS, sp_pct = sample_percentage st\<rparr>"

definition rule_unchanged :: "rule_spec \<Rightarrow> rule_spec \<Rightarrow> bool" where
  "rule_unchanged old new \<longleftrightarrow> ip_sets_equal (sp_ips old) (sp_ips new) \<and> port_sets_equal (sp_ports old) (sp_ports new) \<and>
     sp_igris old = sp_igris new \<and> sp_egress old = sp_egress new \<and> sp_pct old = sp_pct new"

text \<open>A read that fails counts as a rule that is not there; then the rule is written and marked active.\<close>

definition reconcile_kaisel_rule :: "shadow_cr \<Rightarrow> string \<Rightarrow> unit step" where
  "reconcile_kaisel_rule st shadowNS =
     and_then (wrap_error ''list target pods: '' list_pods_owned)
       (\<lambda>pods. let new = wanted_rule st shadowNS (running_pod_ips pods) in
          and_then (on_error (fetch cl_rule) (\<lambda>e. go None))
            (\<lambda>existing.
               if (case existing of Some (old, phase) \<Rightarrow> rule_unchanged old new | None \<Rightarrow> False) then go ()
               else and_then (fetch cl_rule)
                 (\<lambda>found. and_then
                    (case found of
                       Some (old, phase) \<Rightarrow> (if old = new then go () else call (\<lambda>w. w\<lparr>cl_rule := Some (new, phase)\<rparr>))
                     | None \<Rightarrow> call (\<lambda>w. w\<lparr>cl_rule := Some (new, [])\<rparr>))
                    (\<lambda>_. and_then (fetch cl_rule)
                       (\<lambda>r. case r of
                              None \<Rightarrow> fail ''not found''
                            | Some (spec, phase) \<Rightarrow>
                                (if phase = ''Active'' then go ()
                                 else call (\<lambda>w. w\<lparr>cl_rule := Some (spec, ''Active'')\<rparr>)))))))"

definition delete_kaisel_rule :: "unit step" where
  "delete_kaisel_rule = call (\<lambda>w. w\<lparr>cl_rule := None\<rparr>)"

section \<open>Namespace (shadowtest\_resources.go, shadowtest\_rbac.go)\<close>

definition fetch_namespace :: "namespace option step" where
  "fetch_namespace w =
     and_then api (\<lambda>_. go (if next_fault w = Lags then None else cl_ns w)) w"

definition collision_message :: "string \<Rightarrow> string" where
  "collision_message name =
     ''namespace collision: '' @ [CHR 0x27] @ name @ [CHR 0x27] @ '' is already in use by another ShadowTest. Please rename.''"

text \<open>A collision is a value, told apart from other errors.\<close>

definition validate_existing_namespace :: "string \<Rightarrow> shadow_cr \<Rightarrow> namespace \<Rightarrow> string option step" where
  "validate_existing_namespace name st ns =
     (if ns_terminating ns then fail (''namespace '' @ name @ '' is currently terminating, waiting for deletion'')
      else if ns_uid ns \<noteq> st_uid st then go (Some (collision_message name))
      else go None)"

definition shadow_workload_cluster_role_name :: "(string \<Rightarrow> string) \<Rightarrow> string" where
  "shadow_workload_cluster_role_name getenv =
     (let v = trim_space (getenv ''MONARCH_SHADOW_WORKLOAD_CLUSTER_ROLE'')
      in if v \<noteq> [] then v else ''shadow-workload-role'')"

definition manager_service_account :: "(string \<Rightarrow> string) \<Rightarrow> string \<times> string" where
  "manager_service_account getenv =
     (let ns = trim_space (getenv ''POD_NAMESPACE''); sa = trim_space (getenv ''POD_SERVICE_ACCOUNT'')
      in (if ns = [] then ''system'' else ns, if sa = [] then ''controller-manager'' else sa))"

definition ensure_shadow_namespace_rbac :: "(string \<Rightarrow> string) \<Rightarrow> string \<Rightarrow> unit step" where
  "ensure_shadow_namespace_rbac getenv name =
     (case validate_shadow_namespace_name name of
        Some e \<Rightarrow> fail e
      | None \<Rightarrow>
          and_then (fetch cl_role_binding)
            (\<lambda>old. let new = Some (shadow_workload_cluster_role_name getenv, manager_service_account getenv)
                   in if old = new then go () else call (\<lambda>w. w\<lparr>cl_role_binding := new\<rparr>)))"

definition bind_if_owned :: "(string \<Rightarrow> string) \<Rightarrow> string \<Rightarrow> string option \<Rightarrow> string option step" where
  "bind_if_owned getenv name collision =
     (case collision of
        Some e \<Rightarrow> go (Some e)
      | None \<Rightarrow> and_then (ensure_shadow_namespace_rbac getenv name) (\<lambda>_. go None))"

definition ensure_shadow_namespace :: "(string \<Rightarrow> string) \<Rightarrow> shadow_cr \<Rightarrow> string \<Rightarrow> string option step" where
  "ensure_shadow_namespace getenv st name =
     (case validate_shadow_namespace_name name of
        Some e \<Rightarrow> fail e
      | None \<Rightarrow>
          and_then fetch_namespace
            (\<lambda>found. case found of
               Some ns \<Rightarrow> and_then (validate_existing_namespace name st ns) (bind_if_owned getenv name)
             | None \<Rightarrow>
                 and_then (fetch cl_ns)
                   (\<lambda>there. case there of
                      None \<Rightarrow>
                        and_then (change (\<lambda>w. w\<lparr>cl_ns := Some \<lparr>ns_uid = st_uid st, ns_terminating = False\<rparr>\<rparr>))
                          (\<lambda>_. bind_if_owned getenv name None)
                    | Some _ \<Rightarrow>
                        and_then fetch_namespace
                          (\<lambda>again. case again of
                             None \<Rightarrow> fail ''not found''
                           | Some ns \<Rightarrow> and_then (validate_existing_namespace name st ns) (bind_if_owned getenv name)))))"

section \<open>Secrets\<close>

definition sync_storage_secret :: "shadow_cr \<Rightarrow> unit step" where
  "sync_storage_secret st =
     (case spec_storage (st_spec st) of
        None \<Rightarrow> go ()
      | Some cfg \<Rightarrow>
          (let name = (case sg_secret cfg of None \<Rightarrow> [] | Some n \<Rightarrow> trim_space n)
           in if name = [] then go ()
              else and_then
                (wrap_error (''storage credentials secret '' @ st_namespace st @ ''/'' @ name @ '': '')
                  (fetch (\<lambda>w. map_of (cl_source_secrets w) (st_namespace st, name))))
                (\<lambda>src. case src of
                   None \<Rightarrow> fail (''storage credentials secret '' @ st_namespace st @ ''/'' @ name @ '': not found'')
                 | Some data \<Rightarrow> apply_secret name data)))"

definition sync_beru_db_secret :: "(string \<Rightarrow> string) \<Rightarrow> unit step" where
  "sync_beru_db_secret getenv =
     (case beru_db_secret_ref getenv of
        Inl e \<Rightarrow> fail e
      | Inr (ns, name) \<Rightarrow>
          and_then (wrap_error (''beru database secret '' @ ns @ ''/'' @ name @ '': '')
              (fetch (\<lambda>w. map_of (cl_source_secrets w) (ns, name))))
            (\<lambda>src. case src of
               None \<Rightarrow> fail (''beru database secret '' @ ns @ ''/'' @ name @ '': not found'')
             | Some data \<Rightarrow> apply_secret name data))"

section \<open>Sessions and executions (shadowtest\_s3\_env.go)\<close>

definition mint_id :: "string \<Rightarrow> int \<Rightarrow> bytes option \<Rightarrow> string" where
  "mint_id prefix unix rand =
     prefix @ ''-'' @ itoz unix @ ''-'' @ (case rand of None \<Rightarrow> ''0000'' | Some b \<Rightarrow> hex_encode b)"

definition mint :: "string \<Rightarrow> string step" where
  "mint prefix w =
     (case cl_ids w of
        [] \<Rightarrow> (Go (mint_id prefix 0 None), w)
      | (unix, rand) # rest \<Rightarrow> (Go (mint_id prefix unix rand), w\<lparr>cl_ids := rest\<rparr>))"

text \<open>An error is returned beside the object, whose status may have been edited.\<close>

definition ensure_session_id :: "shadow_cr \<Rightarrow> (string option \<times> shadow_cr) step" where
  "ensure_session_id st =
     (let specSID = trim_space (spec_session (st_spec st)); statusSID = trim_space (sta_session (st_status st));
          store = (\<lambda>sid. if statusSID = sid then go (None, st)
            else let st1 = st\<lparr>st_status := (st_status st)\<lparr>sta_session := sid\<rparr>\<rparr>
                 in on_error (and_then (patch_status (st_status st) st1) (\<lambda>st2. go (None, st2))) (\<lambda>e. go (Some e, st1)))
      in if operating_mode st = OpReplay then
           (if specSID = [] \<and> statusSID = []
            then go (Some ''replay mode requires spec.sessionID or status.currentSessionID'', st)
            else store (if specSID = [] then statusSID else specSID))
         else if specSID \<noteq> [] then store specSID
         else if statusSID = [] \<or> trim_space (sta_replay_state (st_status st)) \<noteq> [] then and_then (mint ''sess'') store
         else store statusSID)"

definition ensure_replay_execution_id :: "shadow_cr \<Rightarrow> shadow_cr step" where
  "ensure_replay_execution_id st =
     (if operating_mode st \<noteq> OpReplay \<or> trim_space (sta_replay_state (st_status st)) \<noteq> [] \<or>
         trim_space (sta_execution (st_status st)) \<noteq> [] then go st
      else and_then (mint ''exec'')
        (\<lambda>eid. patch_status (st_status st) (st\<lparr>st_status := (st_status st)\<lparr>sta_execution := eid\<rparr>\<rparr>)))"

definition clear_replay_state :: "shadow_cr \<Rightarrow> shadow_cr step" where
  "clear_replay_state st =
     (if trim_space (sta_replay_state (st_status st)) = [] \<and> trim_space (sta_execution (st_status st)) = [] then go st
      else patch_status (st_status st) (st\<lparr>st_status := (st_status st)\<lparr>sta_replay_state := [], sta_execution := []\<rparr>\<rparr>))"

section \<open>Starting a replay (shadowtest\_replay\_trigger.go)\<close>

definition replay_workload_names :: "shadow_cr \<Rightarrow> string list" where
  "replay_workload_names st =
     [localBeruName, shopName,
      if needs_amqp_ingress st then igris_rabbit_deployment_name st else igris_deployment_name st] @
     (if needs_relay st then [relay_deployment_name st] else []) @ map (shadow_deployment_name st) ShadowRoles"

definition rolled_out :: "deployment \<Rightarrow> dep_status \<Rightarrow> bool" where
  "rolled_out d ds \<longleftrightarrow>
     (let replicas = (if dl_replicas d < 1 then 1 else dl_replicas d)
      in replicas \<le> ds_ready ds \<and> ds_updated ds = ds_total ds \<and> replicas \<le> ds_total ds)"

fun deployments_roll_ready :: "string list \<Rightarrow> bool step" where
  "deployments_roll_ready [] = go True"
| "deployments_roll_ready (name # names) =
     and_then (fetch (\<lambda>w. map_option (\<lambda>d. rolled_out d (cl_observed w name)) (map_of (cl_deployments w) name)))
       (\<lambda>r. case r of
              None \<Rightarrow> fail (''deployments not found: '' @ name)
            | Some ready \<Rightarrow> if ready then deployments_roll_ready names else go False)"

text \<open>The POST to the replayer; a reply that is missing is a refused connection.\<close>

definition replay_start_post :: "string \<Rightarrow> int step" where
  "replay_start_post url w =
     (let w' = w\<lparr>cl_replays := cl_replays w @ [url], cl_start_replies := tl (cl_start_replies w)\<rparr>
      in case cl_start_replies w of
           Inr code # _ \<Rightarrow> (Go code, w')
         | Inl e # _ \<Rightarrow> (Err e, w')
         | [] \<Rightarrow> (Err ''connection refused'', w'))"

text \<open>An error or a request to come back, and the object.\<close>

definition maybe_trigger_replay :: "shadow_cr \<Rightarrow> string \<Rightarrow> (string option \<times> bool \<times> shadow_cr) step" where
  "maybe_trigger_replay st shadowNS =
     (if operating_mode st \<noteq> OpReplay \<or> trim_space (sta_replay_state (st_status st)) \<noteq> [] then go (None, False, st)
      else on_error
        (and_then (deployments_roll_ready (replay_workload_names st))
          (\<lambda>ready. if \<not> ready then go (None, True, st)
             else and_then (replay_start_post (replay_admin_url st shadowNS))
               (\<lambda>code. if code < 200 \<or> 300 \<le> code \<and> code \<noteq> 409 then fail (''replay start returned HTTP '' @ itoz code)
                  else let st1 = st\<lparr>st_status := (st_status st)\<lparr>sta_replay_state := ''started''\<rparr>\<rparr>
                       in on_error (and_then (patch_status (st_status st) st1) (\<lambda>st2. go (None, False, st2)))
                            (\<lambda>e. go (Some e, True, st1)))))
        (\<lambda>e. go (Some e, True, st)))"

end
