(* ===== verification/MonarchReconcile.thy ===== *)
theory MonarchReconcile
  imports MonarchStack
begin

text \<open>
  One pass of the operator over a test: failing and tearing down, the boot gates, the record and the replay
  drivers, deletion, and \<^verbatim>\<open>Reconcile\<close> itself.
\<close>

section \<open>Failing (shadowtest\_fail\_cleanup.go)\<close>

definition delete_shadow_namespace :: "string \<Rightarrow> namespace \<Rightarrow> 'a step" where
  "delete_shadow_namespace shadowNS ns =
     and_then
       (if ns_terminating ns then go ()
        else case validate_shadow_namespace_name shadowNS of
          Some e \<Rightarrow> fail e
        | None \<Rightarrow> call (\<lambda>w. w\<lparr>cl_ns := map_option (ns_terminating_update (\<lambda>_. True)) (cl_ns w)\<rparr>))
       (\<lambda>_. done_with (After (5 * second)))"

definition finish_boot_failed_cleanup :: "(string \<Rightarrow> bool) \<Rightarrow> shadow_cr \<Rightarrow> string \<Rightarrow> 'a step" where
  "finish_boot_failed_cleanup ip6 st shadowNS =
     and_then (delete_prod_queue ip6 st)
       (\<lambda>_. and_then delete_kaisel_rule
         (\<lambda>_. and_then fetch_namespace
           (\<lambda>found. case found of None \<Rightarrow> done_with NoRequeue | Some ns \<Rightarrow> delete_shadow_namespace shadowNS ns)))"

definition emit_event :: "string \<Rightarrow> unit step" where
  "emit_event message = change (\<lambda>w. w\<lparr>cl_events := cl_events w @ [message]\<rparr>)"

definition mark_boot_failed :: "(string \<Rightarrow> bool) \<Rightarrow> shadow_cr \<Rightarrow> string \<Rightarrow> string \<Rightarrow> component_status \<Rightarrow> 'a step" where
  "mark_boot_failed ip6 st shadowNS message boot =
     and_then
       (patch_status_core
          [status_base (st_generation st) PhaseFailed message shadowNS, status_extras None CapturePhaseDisabled [] [],
           status_boot BootStepFailed boot] st)
       (\<lambda>(e, st1). and_then (emit_event message) (\<lambda>_. finish_boot_failed_cleanup ip6 st1 shadowNS))"

definition reconcile_sticky_failed :: "(string \<Rightarrow> bool) \<Rightarrow> shadow_cr \<Rightarrow> string \<Rightarrow> 'a step" where
  "reconcile_sticky_failed ip6 st shadowNS =
     and_then (patch_status_core [sta_boot_step_update (\<lambda>_. BootStepFailed)] st)
       (\<lambda>(e, st1). finish_boot_failed_cleanup ip6 st1 shadowNS)"

section \<open>Boot gates (shadowtest\_boot\_gates.go)\<close>

definition bootRequeueInterval :: duration where "bootRequeueInterval = 5 * second"
definition recordSinkRequeue :: duration where "recordSinkRequeue = 2 * second"

text \<open>
  A gate reconciles its resources, probes them, and records the result in the component status; here the
  probe returns that edit beside its answer.
\<close>

record boot_gate =
  bg_step :: string
  bg_wait :: string
  bg_skip :: bool
  bg_reconcile :: "unit step"
  bg_probe :: "(bool \<times> string option \<times> (component_status \<Rightarrow> component_status)) step"
  bg_progress :: "status_mutator list"
  bg_requeue :: duration

definition probe_with ::
  "(bool \<times> string option) step \<Rightarrow> (bool \<Rightarrow> component_status \<Rightarrow> component_status) \<Rightarrow>
   (bool \<times> string option \<times> (component_status \<Rightarrow> component_status)) step" where
  "probe_with m rec = and_then m (\<lambda>(ready, reason). go (ready, reason, rec ready))"

definition wait_at_gate :: "shadow_cr \<Rightarrow> string \<Rightarrow> boot_gate \<Rightarrow> component_status \<Rightarrow> 'a step" where
  "wait_at_gate st shadowNS gate boot =
     and_then
       (patch_status_core
          ([status_base (st_generation st) PhaseProgressing (bg_wait gate) shadowNS, status_boot (bg_step gate) boot] @
           bg_progress gate) st)
       (\<lambda>_. done_with (After (if bg_requeue gate \<le> 0 then bootRequeueInterval else bg_requeue gate)))"

fun run_boot_gates ::
  "(string \<Rightarrow> bool) \<Rightarrow> shadow_cr \<Rightarrow> string \<Rightarrow> boot_gate list \<Rightarrow> component_status \<Rightarrow> component_status step" where
  "run_boot_gates ip6 st shadowNS [] boot = go boot"
| "run_boot_gates ip6 st shadowNS (gate # gates) boot =
     (if bg_skip gate then run_boot_gates ip6 st shadowNS gates boot
      else and_then
        (on_error (bg_reconcile gate)
          (\<lambda>e. and_then (patch_boot_status PhaseFailed e shadowNS (bg_step gate) boot st) (\<lambda>_. fail e)))
        (\<lambda>_. and_then (bg_probe gate)
          (\<lambda>(ready, reason, rec).
             if ready then run_boot_gates ip6 st shadowNS gates (rec boot)
             else case reason of
               Some message \<Rightarrow> mark_boot_failed ip6 st shadowNS message (rec boot)
             | None \<Rightarrow> wait_at_gate st shadowNS gate (rec boot))))"

definition gate :: "string \<Rightarrow> unit step \<Rightarrow> (bool \<times> string option \<times> (component_status \<Rightarrow> component_status)) step \<Rightarrow> boot_gate" where
  "gate waitMsg rec probe =
     \<lparr>bg_step = BootStepProvisioningSinks, bg_wait = waitMsg, bg_skip = False, bg_reconcile = rec, bg_probe = probe,
      bg_progress = [], bg_requeue = 0\<rparr>"

abbreviation set_beru :: "bool \<Rightarrow> component_status \<Rightarrow> component_status" where "set_beru b \<equiv> cs_beru_update (\<lambda>_. b)"
abbreviation set_shop :: "bool \<Rightarrow> component_status \<Rightarrow> component_status" where "set_shop b \<equiv> cs_shop_update (\<lambda>_. b)"
abbreviation set_igris :: "bool \<Rightarrow> component_status \<Rightarrow> component_status" where "set_igris b \<equiv> cs_igris_update (\<lambda>_. b)"

definition local_beru_boot_gate :: "(string \<Rightarrow> string) \<Rightarrow> shadow_cr \<Rightarrow> boot_gate" where
  "local_beru_boot_gate getenv st =
     gate ''Local analytics backend is booting up (beru-local)'' (reconcile_local_beru getenv st)
       (probe_with local_beru_ready set_beru)"

definition replay_ingress_boot_gates :: "(string \<Rightarrow> string) \<Rightarrow> (string \<Rightarrow> bool) \<Rightarrow> shadow_cr \<Rightarrow> string \<Rightarrow> boot_gate list" where
  "replay_ingress_boot_gates getenv ip6 st shadowNS =
     (let wantRelay = needs_relay st;
          rec = (if wantRelay then (\<lambda>b c. c) else set_igris);
          amqp = (if needs_amqp_ingress st then [status_extras None [] [] PhaseProgressing] else [])
      in (if needs_amqp_ingress st
          then (gate ''waiting for igris-rabbitmq'' (reconcile_igris_rabbit_stack getenv ip6 st shadowNS)
                  (probe_with (igris_rabbit_deployment_ready st) rec))\<lparr>bg_progress := amqp\<rparr>
          else gate ''waiting for Igris'' (reconcile_igris_stack getenv st shadowNS)
                 (probe_with (igris_deployment_ready st) rec)) #
         (if wantRelay
          then [(gate ''waiting for egress-relay-rabbitmq'' (reconcile_relay_stack getenv st shadowNS)
                   (probe_with (relay_deployment_ready st) set_igris))\<lparr>bg_progress := amqp\<rparr>]
          else []))"

definition replay_boot_gates ::
  "(string \<Rightarrow> string) \<Rightarrow> (string \<Rightarrow> bool) \<Rightarrow> shadow_cr \<Rightarrow> string \<Rightarrow> (string \<times> string) list \<Rightarrow> boot_gate list" where
  "replay_boot_gates getenv ip6 st shadowNS env =
     [(gate ''waiting for shadow dependencies'' (reconcile_shadow_dependencies st)
         (probe_with (shadow_dependencies_ready st) (\<lambda>b c. c)))\<lparr>bg_skip := spec_dependencies (st_spec st) = []\<rparr>,
      gate ''waiting for Shop'' (reconcile_shop getenv st shadowNS) (probe_with shop_deployment_ready set_shop)] @
     replay_ingress_boot_gates getenv ip6 st shadowNS @
     [(gate ''waiting for shadow Deployments'' (reconcile_shadow_workload_resources getenv st shadowNS env)
         (and_then (shadow_deployments_ready st)
           (\<lambda>(roles, reason). go (all_roles_ready roles, reason, cs_roles_update (\<lambda>_. roles)))))
        \<lparr>bg_step := BootStepProvisioningShadow\<rparr>]"

section \<open>Record mode (shadowtest\_record.go)\<close>

definition reconcile_record_ingress_sinks ::
  "(string \<Rightarrow> string) \<Rightarrow> (string \<Rightarrow> bool) \<Rightarrow> shadow_cr \<Rightarrow> string \<Rightarrow> unit step" where
  "reconcile_record_ingress_sinks getenv ip6 st shadowNS =
     (if needs_amqp_ingress st then reconcile_igris_rabbit_stack getenv ip6 st shadowNS
      else if needs_http_ingress st then reconcile_igris_stack getenv st shadowNS
      else go ())"

definition record_ingress_sinks_ready :: "shadow_cr \<Rightarrow> (bool \<times> string option) step" where
  "record_ingress_sinks_ready st =
     (if needs_amqp_ingress st then igris_rabbit_deployment_ready st
      else if needs_http_ingress st then igris_deployment_ready st
      else go (True, None))"

definition record_boot_gates :: "(string \<Rightarrow> string) \<Rightarrow> (string \<Rightarrow> bool) \<Rightarrow> shadow_cr \<Rightarrow> string \<Rightarrow> boot_gate list" where
  "record_boot_gates getenv ip6 st shadowNS =
     [gate ''waiting for record sinks''
        (and_then (reconcile_shop getenv st shadowNS) (\<lambda>_. reconcile_record_ingress_sinks getenv ip6 st shadowNS))
        (go (True, None, \<lambda>c. c)),
      (gate ''waiting for Shop'' (go ()) (probe_with shop_deployment_ready set_shop))\<lparr>bg_requeue := recordSinkRequeue\<rparr>,
      (gate ''waiting for Igris'' (go ()) (probe_with (record_ingress_sinks_ready st) set_igris))\<lparr>bg_requeue := recordSinkRequeue\<rparr>]"

text \<open>The labels of the target, and whether the rule is in place; an error of the rule is a value.\<close>

definition reconcile_kaisel_capture :: "shadow_cr \<Rightarrow> string \<Rightarrow> target_deployment \<Rightarrow> (string option \<times> string list) step" where
  "reconcile_kaisel_capture st shadowNS target =
     (let targets = format_capture_targets (td_labels target)
      in on_error (and_then (reconcile_kaisel_rule st shadowNS) (\<lambda>_. go (None, targets))) (\<lambda>e. go (Some e, targets)))"

definition reconcile_record_mode ::
  "(string \<Rightarrow> string) \<Rightarrow> (string \<Rightarrow> bool) \<Rightarrow> shadow_cr \<Rightarrow> string \<Rightarrow> target_deployment \<Rightarrow> component_status \<Rightarrow>
   (shadow_cr \<times> string list \<times> component_status) step" where
  "reconcile_record_mode getenv ip6 st0 shadowNS target boot0 =
     and_then
       (if needs_amqp_ingress st0
        then on_error (ensure_prod_queue_declared ip6 st0) (\<lambda>e. mark_boot_failed ip6 st0 shadowNS e boot0)
        else go st0)
       (\<lambda>st. and_then (run_boot_gates ip6 st shadowNS (record_boot_gates getenv ip6 st shadowNS) boot0)
         (\<lambda>boot1. and_then (reconcile_kaisel_capture st shadowNS target)
           (\<lambda>(err, targets).
              let boot = boot1\<lparr>cs_kaisel := (err = None)\<rparr>
              in case err of
                   Some e \<Rightarrow>
                     and_then (patch_boot_status PhaseProgressing (''waiting for KaiselRule: '' @ e) shadowNS
                         BootStepActivatingEgressTap boot st)
                       (\<lambda>_. done_with (After recordSinkRequeue))
                 | None \<Rightarrow>
                     (if needs_amqp_ingress st
                      then and_then
                        (on_error (ensure_prod_queue_bound ip6 st) (\<lambda>e. mark_boot_failed ip6 st shadowNS e boot))
                        (\<lambda>_. go (st, targets, boot\<lparr>cs_amqp := True\<rparr>))
                      else go (st, targets, boot)))))"

section \<open>Deletion (shadowtest\_resources.go, shadowtest\_s3\_cleanup.go)\<close>

definition finalizerName :: string where "finalizerName = ''shadowtest.finalizers.shadow-diff.io''"
definition s3Finalizer :: string where "s3Finalizer = ''shadow-diff.io/s3-cleanup''"

record s3_cleanup_config =
  xc_bucket :: string
  xc_endpoint :: string
  xc_region :: string
  xc_keys :: "string \<times> string"

definition s3_config_from_shadow_test :: "shadow_cr \<Rightarrow> s3_cleanup_config step" where
  "s3_config_from_shadow_test st =
     (case spec_storage (st_spec st) of
        None \<Rightarrow> fail ''spec.storage is required for S3 cleanup''
      | Some cfg \<Rightarrow>
          let region = trim_space (sg_region cfg);
              name = (case sg_secret cfg of None \<Rightarrow> [] | Some n \<Rightarrow> trim_space n)
          in and_then
               (if name = [] then go ([], [])
                else and_then
                  (wrap_error (''storage credentials secret '' @ st_namespace st @ ''/'' @ name @ '': '')
                     (fetch (\<lambda>w. map_of (cl_source_secrets w) (st_namespace st, name))))
                  (\<lambda>sec. case sec of
                     None \<Rightarrow> fail (''storage credentials secret '' @ st_namespace st @ ''/'' @ name @ '': not found'')
                   | Some data \<Rightarrow>
                       go (go_get [] data ''AWS_ACCESS_KEY_ID'', go_get [] data ''AWS_SECRET_ACCESS_KEY'')))
               (\<lambda>keys. if trim_space (sg_bucket cfg) = [] then fail ''storage.bucketName is required for S3 cleanup''
                  else go \<lparr>xc_bucket = trim_space (sg_bucket cfg), xc_endpoint = trim_space (sg_endpoint cfg),
                           xc_region = (if region = [] then ''us-east-1'' else region), xc_keys = keys\<rparr>))"

definition default_s3_cleaner :: "shadow_cr \<Rightarrow> unit step" where
  "default_s3_cleaner st =
     and_then (s3_config_from_shadow_test st)
       (\<lambda>cfg. call (\<lambda>w. w\<lparr>cl_s3_deleted := cl_s3_deleted w @ [test_key_prefix (st_namespace st) (st_name st)]\<rparr>))"

definition cleanup_s3_if_needed :: "shadow_cr \<Rightarrow> unit step" where
  "cleanup_s3_if_needed st =
     (let policy = (case spec_storage (st_spec st) of None \<Rightarrow> [] | Some cfg \<Rightarrow> trim_space (sg_retention cfg))
      in if s3Finalizer \<notin> set (st_finalizers st) \<or> policy \<noteq> ''Delete'' then go ()
         else default_s3_cleaner st)"

definition publish_deleted :: "shadow_cr \<Rightarrow> unit step" where
  "publish_deleted st =
     change (\<lambda>w. w\<lparr>cl_published := cl_published w @
       [st\<lparr>st_status := (st_status st)\<lparr>sta_phase := PhaseDeleted, sta_message := ''deleted''\<rparr>\<rparr>]\<rparr>)"

definition held :: "shadow_cr \<Rightarrow> bool" where
  "held st \<longleftrightarrow> finalizerName \<in> set (st_finalizers st) \<or> s3Finalizer \<in> set (st_finalizers st)"

text \<open>The server removes an object under deletion when its last finalizer is gone.\<close>

definition remove_finalizers :: "unit step" where
  "remove_finalizers =
     and_then (fetch cl_cr)
       (\<lambda>cr. case cr of
          None \<Rightarrow> go ()
        | Some fresh \<Rightarrow>
            (if \<not> held fresh then go ()
             else let rest = filter (\<lambda>f. f \<noteq> s3Finalizer \<and> f \<noteq> finalizerName) (st_finalizers fresh)
                  in call (\<lambda>w. w\<lparr>cl_cr := (if rest = [] \<and> st_deleting fresh then None
                                          else Some (fresh\<lparr>st_finalizers := rest\<rparr>))\<rparr>)))"

definition reconcile_delete :: "(string \<Rightarrow> bool) \<Rightarrow> string \<Rightarrow> 'a step" where
  "reconcile_delete ip6 shadowNS =
     and_then (fetch cl_cr)
       (\<lambda>cr. case cr of
          None \<Rightarrow> done_with NoRequeue
        | Some st0 \<Rightarrow>
            (if \<not> held st0 then done_with NoRequeue
             else and_then
               (patch_status_core [status_base (st_generation st0) PhaseDeleting ''tearing down shadow stack'' shadowNS] st0)
               (\<lambda>(err, st). case err of
                  Some e \<Rightarrow> fail e
                | None \<Rightarrow>
                    and_then (delete_prod_queue ip6 st)
                      (\<lambda>_. and_then delete_kaisel_rule
                        (\<lambda>_. and_then fetch_namespace
                          (\<lambda>found. case found of
                             None \<Rightarrow>
                               and_then (cleanup_s3_if_needed st)
                                 (\<lambda>_. and_then remove_finalizers
                                   (\<lambda>_. and_then (publish_deleted st) (\<lambda>_. done_with NoRequeue)))
                           | Some ns \<Rightarrow> delete_shadow_namespace shadowNS ns))))))"

section \<open>The pass (shadowtest\_controller.go)\<close>

definition add_finalizers :: "unit step" where
  "add_finalizers =
     call (\<lambda>w. w\<lparr>cl_cr := map_option (st_finalizers_update (\<lambda>fs. fold (\<lambda>f fs. if f \<in> set fs then fs else fs @ [f]) [finalizerName, s3Finalizer] fs)) (cl_cr w)\<rparr>)"

definition no_components :: component_status where
  "no_components = \<lparr>cs_igris = False, cs_shop = False, cs_beru = False, cs_kaisel = False, cs_amqp = False,
     cs_drivers = [], cs_roles = [], cs_target = []\<rparr>"

text \<open>A validation failure or a lasting error: the reason is recorded, and the pass ends as it is told.\<close>

definition stop_failed :: "string \<Rightarrow> string \<Rightarrow> component_status \<Rightarrow> shadow_cr \<Rightarrow> 'a step \<Rightarrow> 'a step" where
  "stop_failed message shadowNS boot st after =
     and_then (patch_boot_status PhaseFailed message shadowNS BootStepValidating boot st) (\<lambda>_. after)"

definition validate_test :: "(string \<Rightarrow> bool) \<Rightarrow> shadow_cr \<Rightarrow> string option" where
  "validate_test ip6 st = first_some (\<lambda>v. v st) [validate_inputs ip6, validate_dependencies, validate_storage]"

definition target_not_found :: "shadow_cr \<Rightarrow> string" where
  "target_not_found st =
     ''target Deployment '' @ target_namespace_for st @ ''/'' @ spec_target (st_spec st) @ '' not found''"

text \<open>Pinning the baseline image: a pass that wrote it ends and is run again at once.\<close>

definition ensure_old_image :: "shadow_cr \<Rightarrow> target_deployment \<Rightarrow> bool step" where
  "ensure_old_image st target =
     (if spec_old_image (st_spec st) \<noteq> [] then go False
      else case target_container_image target of
        Inl e \<Rightarrow> fail e
      | Inr img \<Rightarrow>
          and_then
            (call (\<lambda>w. w\<lparr>cl_cr := map_option (\<lambda>cr. cr\<lparr>st_spec := (st_spec cr)\<lparr>spec_old_image := img\<rparr>\<rparr>) (cl_cr w)\<rparr>))
            (\<lambda>_. go True))"

text \<open>From the test to a target whose defaults are resolved and whose image is pinned.\<close>

definition resolve_target :: "(string \<Rightarrow> bool) \<Rightarrow> shadow_cr \<Rightarrow> string \<Rightarrow> component_status \<Rightarrow> (shadow_cr \<times> target_deployment) step" where
  "resolve_target ip6 st0 shadowNS boot =
     and_then (fetch cl_target)
       (\<lambda>found. case found of
          None \<Rightarrow> mark_boot_failed ip6 st0 shadowNS (target_not_found st0) boot
        | Some target \<Rightarrow>
            (case resolve_spec_defaults st0 target of
               Inl e \<Rightarrow> mark_boot_failed ip6 st0 shadowNS (''cannot resolve spec defaults from target: '' @ e) boot
             | Inr st \<Rightarrow>
                 and_then
                   (on_error (ensure_old_image st target)
                      (\<lambda>e. mark_boot_failed ip6 st shadowNS (''cannot pin spec.oldImage from target: '' @ e) boot))
                   (\<lambda>patched. if patched then done_with AtOnce else go (st, target))))"

text \<open>The namespace, the session and the secrets.\<close>

definition prepare_namespace ::
  "(string \<Rightarrow> string) \<Rightarrow> shadow_cr \<Rightarrow> string \<Rightarrow> component_status \<Rightarrow> shadow_cr step" where
  "prepare_namespace getenv st0 shadowNS boot =
     (if 63 < length shadowNS
      then stop_failed ''Shadow namespace name exceeds 63 characters. Please use a shorter ShadowTest name.''
             shadowNS boot st0 (done_with NoRequeue)
      else and_then (ensure_shadow_namespace getenv st0 shadowNS)
        (\<lambda>collision. case collision of
           Some e \<Rightarrow> stop_failed e shadowNS boot st0 (done_with NoRequeue)
         | None \<Rightarrow>
             and_then (ensure_session_id st0)
               (\<lambda>(err, st). case err of
                  Some e \<Rightarrow> stop_failed e shadowNS boot st (done_with NoRequeue)
                | None \<Rightarrow>
                    and_then (on_error (sync_storage_secret st) (\<lambda>e. stop_failed e shadowNS boot st (fail e)))
                      (\<lambda>_. and_then (on_error (sync_beru_db_secret getenv) (\<lambda>e. stop_failed e shadowNS boot st (fail e)))
                        (\<lambda>_. go st)))))"

text \<open>Entering the mode: what the other mode left is removed.\<close>

definition enter_mode :: "shadow_cr \<Rightarrow> shadow_cr step" where
  "enter_mode st =
     (if operating_mode st = OpRecord
      then and_then (clear_replay_state st) (\<lambda>st1. and_then (delete_shadow_role_workloads st1) (\<lambda>_. go st1))
      else and_then delete_kaisel_rule (\<lambda>_. ensure_replay_execution_id st))"

text \<open>The replay driver after beru-local: the gates, then the start of the replay.\<close>

definition reconcile_replay_mode ::
  "(string \<Rightarrow> string) \<Rightarrow> (string \<Rightarrow> bool) \<Rightarrow> shadow_cr \<Rightarrow> string \<Rightarrow> (string \<times> string) list \<Rightarrow> component_status \<Rightarrow>
   (shadow_cr \<times> component_status) step" where
  "reconcile_replay_mode getenv ip6 st shadowNS env boot0 =
     and_then (run_boot_gates ip6 st shadowNS (replay_boot_gates getenv ip6 st shadowNS env) boot0)
       (\<lambda>boot. and_then (maybe_trigger_replay st shadowNS)
         (\<lambda>(err, again, st1).
            let wait = (\<lambda>message. and_then
                  (patch_boot_status PhaseProgressing message shadowNS BootStepProvisioningShadow boot st1)
                  (\<lambda>_. done_with (After bootRequeueInterval)))
            in case err of
                 Some e \<Rightarrow> wait (''waiting to trigger replay: '' @ e)
               | None \<Rightarrow> if again then wait ''waiting to trigger replay'' else go (st1, boot)))"

definition ready_message :: "shadow_cr \<Rightarrow> string \<Rightarrow> string \<Rightarrow> string" where
  "ready_message st warnMsg kaiselPhase =
     (let mode = operating_mode st;
          msg = (if warnMsg = [] then mode @ '' mode ready with ingress ['' @ listeners_summary st @ '']''
                 else warnMsg @ ''; '' @ mode @ '' mode; ingress ['' @ listeners_summary st @ '']'')
      in if kaiselPhase \<noteq> [] \<and> kaiselPhase \<noteq> CapturePhaseDisabled then msg @ ''; Kaisel '' @ kaiselPhase else msg)"

definition igris_endpoint_of :: "shadow_cr \<Rightarrow> string \<Rightarrow> string \<times> string" where
  "igris_endpoint_of st shadowNS =
     (if needs_amqp_ingress st
      then (''Ready'', ''amqp queue '' @ sta_amqp_queue (st_status st) @ ''; igris-rabbitmq '' @
                     shadow_service_host shadowNS (igris_rabbit_service_name st))
      else ([], shadow_service_host shadowNS (igris_service_name st) @ '':'' @ itoz (service_port_for st)))"

definition finish_ready ::
  "shadow_cr \<Rightarrow> string \<Rightarrow> string \<Rightarrow> string list option \<Rightarrow> string \<Rightarrow> component_status \<Rightarrow> unit step" where
  "finish_ready st shadowNS warnMsg targets kaiselPhase boot =
     and_then
       (patch_status_ready (ready_message st warnMsg kaiselPhase) shadowNS targets kaiselPhase
          (snd (igris_endpoint_of st shadowNS)) (fst (igris_endpoint_of st shadowNS)) boot st)
       (\<lambda>(err, st1). case err of Some e \<Rightarrow> fail e | None \<Rightarrow> done_with NoRequeue)"

text \<open>The drivers of the two modes behind the gate of beru-local.\<close>

definition boot_stack ::
  "(string \<Rightarrow> string) \<Rightarrow> (string \<Rightarrow> bool) \<Rightarrow> shadow_cr \<Rightarrow> string \<Rightarrow> target_deployment \<Rightarrow> component_status \<Rightarrow> unit step" where
  "boot_stack getenv ip6 st shadowNS target boot0 =
     and_then (run_boot_gates ip6 st shadowNS [local_beru_boot_gate getenv st] boot0)
       (\<lambda>boot1. let (env, warnMsg) = env_from_target target in
          if operating_mode st = OpReplay
          then and_then (reconcile_replay_mode getenv ip6 st shadowNS env boot1)
            (\<lambda>(st1, boot). finish_ready st1 shadowNS warnMsg None CapturePhaseDisabled boot)
          else and_then (reconcile_record_mode getenv ip6 st shadowNS target boot1)
            (\<lambda>(st1, targets, boot).
               finish_ready st1 shadowNS warnMsg (if targets = [] then None else Some targets) CapturePhaseReady boot))"

definition reconcile_test :: "(string \<Rightarrow> string) \<Rightarrow> (string \<Rightarrow> bool) \<Rightarrow> unit step" where
  "reconcile_test getenv ip6 =
     and_then (fetch cl_cr)
       (\<lambda>cr. case cr of
          None \<Rightarrow> done_with NoRequeue
        | Some st0 \<Rightarrow>
            let shadowNS = shadow_namespace_for st0; boot0 = no_components\<lparr>cs_target := spec_target (st_spec st0)\<rparr>
            in if st_deleting st0 then reconcile_delete ip6 shadowNS
               else if finalizerName \<notin> set (st_finalizers st0) \<or> s3Finalizer \<notin> set (st_finalizers st0)
                 then and_then add_finalizers (\<lambda>_. done_with AtOnce)
               else if sta_phase (st_status st0) = PhaseFailed then reconcile_sticky_failed ip6 st0 shadowNS
               else case validate_test ip6 st0 of
                 Some e \<Rightarrow> stop_failed e shadowNS boot0 st0 (done_with NoRequeue)
               | None \<Rightarrow>
                   and_then (resolve_target ip6 st0 shadowNS boot0)
                     (\<lambda>(st1, target). and_then (prepare_namespace getenv st1 shadowNS boot0)
                       (\<lambda>st2. let boot = boot0\<lparr>cs_amqp := \<not> needs_amqp_ingress st2,
                                            cs_drivers := ingress_drivers_from_spec st2\<rparr>
                          in and_then (enter_mode st2)
                               (\<lambda>st3. boot_stack getenv ip6 st3 shadowNS target boot))))"

section \<open>What wakes the operator\<close>

record pod_event =
  pe_ip :: string
  pe_phase :: string
  pe_deleting :: bool

definition pod_update_passes :: "pod_event \<Rightarrow> pod_event \<Rightarrow> bool" where
  "pod_update_passes old new \<longleftrightarrow> pe_ip old \<noteq> pe_ip new \<or> pe_phase old \<noteq> pe_phase new \<or> pe_deleting old \<noteq> pe_deleting new"

definition map_deployment_to_tests :: "shadow_cr list \<Rightarrow> string \<Rightarrow> string \<Rightarrow> (string \<times> string) list" where
  "map_deployment_to_tests tests namespace name =
     map (\<lambda>st. (st_namespace st, st_name st))
       (filter (\<lambda>st. target_namespace_for st = namespace \<and> spec_target (st_spec st) = name) tests)"

text \<open>
  Which tests a change of a pod wakes (\<^verbatim>\<open>mapPodToShadowTests\<close>).  The answers of the cluster to the look-ups are
  arguments, an error of a look-up is \<^const>\<open>Inl\<close>.
\<close>

definition pod_owned_by_deployment ::
  "(string \<Rightarrow> string + replica_set option) \<Rightarrow> (string \<times> string) option \<Rightarrow> string \<Rightarrow> string + bool" where
  "pod_owned_by_deployment get_rs owner uid =
     (case owner of
        None \<Rightarrow> Inr False
      | Some (kind, name) \<Rightarrow>
          (if kind \<noteq> ''ReplicaSet'' then Inr False
           else case get_rs name of
             Inl e \<Rightarrow> Inl e
           | Inr None \<Rightarrow> Inr False
           | Inr (Some rs) \<Rightarrow> Inr (replica_set_owned_by uid rs)))"

definition map_pod_to_tests ::
  "(string + shadow_cr list) \<Rightarrow> (string \<times> string \<Rightarrow> string + string) \<Rightarrow> (string \<Rightarrow> string + replica_set option) \<Rightarrow>
   string \<Rightarrow> (string \<times> string) option \<Rightarrow> (string \<times> string) list" where
  "map_pod_to_tests tests deployment_uid get_rs pod_ns owner =
     (case tests of
        Inl e \<Rightarrow> []
      | Inr sts \<Rightarrow>
          map (\<lambda>st. (st_namespace st, st_name st))
            (filter
               (\<lambda>st. target_namespace_for st = pod_ns \<and>
                  (case deployment_uid (target_namespace_for st, spec_target (st_spec st)) of
                     Inl e \<Rightarrow> False
                   | Inr uid \<Rightarrow> pod_owned_by_deployment get_rs owner uid = Inr True))
               sts))"

text \<open>
  A pod whose address a test captures wakes that test: the pods are listed by the identity of their replica set,
  the event finds the replica set by its name, and both ask for the same owner.
\<close>

lemma captured_pod_wakes_test:
  assumes "st \<in> set sts" "target_namespace_for st = ns" "deployment_uid (ns, spec_target (st_spec st)) = Inr uid"
    "p \<in> set (pods_owned_by (map rp_uid (filter (replica_set_owned_by uid) rss)) pods)"
    "tp_owner p = Some ref" "get_rs owner_name = Inr (Some rs)" "rs \<in> set rss" "rp_uid rs = or_uid ref"
    "distinct (map rp_uid rss)"
  shows "(st_namespace st, st_name st) \<in> set (map_pod_to_tests (Inr sts) deployment_uid get_rs ns (Some (or_kind ref, owner_name)))"
proof -
  obtain rs' where rs': "rs' \<in> set rss" "replica_set_owned_by uid rs'" "rp_uid rs' = or_uid ref" and kind: "or_kind ref = ''ReplicaSet''"
    using assms(4,5) by (auto simp: pods_owned_by_def)
  have "rs' = rs" using rs'(1,3) assms(7-9) by (metis distinct_map inj_onD)
  then have "pod_owned_by_deployment get_rs (Some (or_kind ref, owner_name)) uid = Inr True"
    using rs'(2) kind assms(6) by (simp add: pod_owned_by_deployment_def)
  then show ?thesis
    using assms(1-3) by (force simp: map_pod_to_tests_def)
qed

end
