(* ===== verification/MonarchLogic.thy ===== *)
theory MonarchLogic
  imports MonarchReconcile
begin

text \<open>
  A small logic for passes of the operator: triples with one postcondition for passes that go on and one for
  passes that end, a rule for each construct, and for each group of operations the fields it leaves alone.
\<close>

section \<open>Triples\<close>

definition holds :: "(cluster \<Rightarrow> bool) \<Rightarrow> 'a step \<Rightarrow> ('a \<Rightarrow> cluster \<Rightarrow> bool) \<Rightarrow> (cluster \<Rightarrow> bool) \<Rightarrow> bool" where
  "holds P m Q E \<longleftrightarrow> (\<forall>w. P w \<longrightarrow> (case m w of (Go x, w') \<Rightarrow> Q x w' | (Done r, w') \<Rightarrow> E w' | (Err e, w') \<Rightarrow> E w'))"

abbreviation keeps :: "(cluster \<Rightarrow> bool) \<Rightarrow> 'a step \<Rightarrow> bool" where
  "keeps I m \<equiv> holds I m (\<lambda>_. I) I"

named_theorems step_rules

lemma holdsD_Go: "holds P m Q E \<Longrightarrow> P w \<Longrightarrow> m w = (Go x, w') \<Longrightarrow> Q x w'"
  and holdsD_Done: "holds P m Q E \<Longrightarrow> P w \<Longrightarrow> m w = (Done r, w') \<Longrightarrow> E w'"
  and holdsD_Err: "holds P m Q E \<Longrightarrow> P w \<Longrightarrow> m w = (Err e, w') \<Longrightarrow> E w'"
  unfolding holds_def by (drule spec [of _ w], simp)+

lemma holds_mono:
  assumes "holds P m Q E" "\<And>w. P' w \<Longrightarrow> P w" "\<And>x w. Q x w \<Longrightarrow> Q' x w" "\<And>w. E w \<Longrightarrow> E' w"
  shows "holds P' m Q' E'"
  using assms by (fastforce simp: holds_def split: prod.splits outcome.splits)

lemma holds_conj:
  "holds P m Q E \<Longrightarrow> holds P' m Q' E' \<Longrightarrow>
   holds (\<lambda>w. P w \<and> P' w) m (\<lambda>x w. Q x w \<and> Q' x w) (\<lambda>w. E w \<and> E' w)"
  by (fastforce simp: holds_def split: prod.splits outcome.splits)

lemma holds_go [step_rules]: "(\<And>w. P w \<Longrightarrow> Q x w) \<Longrightarrow> holds P (go x) Q E"
  and holds_done [step_rules]: "(\<And>w. P w \<Longrightarrow> E w) \<Longrightarrow> holds P (done_with r) Q E"
  and holds_fail [step_rules]: "(\<And>w. P w \<Longrightarrow> E w) \<Longrightarrow> holds P (fail e) Q E"
  and holds_read [step_rules]: "(\<And>w. P w \<Longrightarrow> Q (f w) w) \<Longrightarrow> holds P (read f) Q E"
  by (simp_all add: holds_def go_def done_with_def fail_def read_def)

lemma holds_change [step_rules]: "(\<And>w. P w \<Longrightarrow> Q () (f w)) \<Longrightarrow> holds P (change f) Q E"
  by (simp add: holds_def change_def)

lemma holds_and_then:
  assumes "holds P m R E" "\<And>x. holds (R x) (f x) Q E"
  shows "holds P (and_then m f) Q E"
  unfolding holds_def and_then_def
proof (intro allI impI)
  fix w assume "P w"
  obtain r w' where m: "m w = (r, w')" by fastforce
  show "case case m w of (Go x, w') \<Rightarrow> f x w' | (Done r, w') \<Rightarrow> (Done r, w') | (Err e, w') \<Rightarrow> (Err e, w') of
      (Go x, w') \<Rightarrow> Q x w' | (Done r, w') \<Rightarrow> E w' | (Err e, w') \<Rightarrow> E w'"
  proof (cases r)
    case (Go x)
    then have "R x w'" using holdsD_Go [OF assms(1) \<open>P w\<close>] m by blast
    then show ?thesis using assms(2) [of x] m Go by (simp add: holds_def)
  next
    case (Done q)
    then show ?thesis using holdsD_Done [OF assms(1) \<open>P w\<close>] m by simp
  next
    case (Err e)
    then show ?thesis using holdsD_Err [OF assms(1) \<open>P w\<close>] m by simp
  qed
qed

lemma holds_on_error:
  assumes "holds P m Q E'" "\<And>e. holds E' (h e) Q E" "\<And>w. E' w \<Longrightarrow> E w"
  shows "holds P (on_error m h) Q E"
  unfolding holds_def on_error_def
proof (intro allI impI)
  fix w assume "P w"
  obtain r w' where m: "m w = (r, w')" by fastforce
  show "case case m w of (Go a, w') \<Rightarrow> (Go a, w') | (Done b, w') \<Rightarrow> (Done b, w') | (Err e, w') \<Rightarrow> h e w' of
      (Go x, w') \<Rightarrow> Q x w' | (Done r, w') \<Rightarrow> E w' | (Err e, w') \<Rightarrow> E w'"
    using m assms holdsD_Go [OF assms(1) \<open>P w\<close>] holdsD_Done [OF assms(1) \<open>P w\<close>] holdsD_Err [OF assms(1) \<open>P w\<close>]
    by (cases r) (auto simp: holds_def)
qed

lemma keeps_and_then [step_rules]: "keeps I m \<Longrightarrow> (\<And>x. keeps I (f x)) \<Longrightarrow> keeps I (and_then m f)"
  by (rule holds_and_then)

lemma keeps_on_error [step_rules]: "keeps I m \<Longrightarrow> (\<And>e. keeps I (h e)) \<Longrightarrow> keeps I (on_error m h)"
  by (rule holds_on_error)

lemma keeps_wrap [step_rules]: "keeps I m \<Longrightarrow> keeps I (wrap_error p m)"
  unfolding wrap_error_def by (rule keeps_on_error, assumption, rule holds_fail, assumption)

lemma keeps_if [step_rules]: "(c \<Longrightarrow> holds P a Q E) \<Longrightarrow> (\<not> c \<Longrightarrow> holds P b Q E) \<Longrightarrow> holds P (if c then a else b) Q E"
  by simp

lemma keeps_option [step_rules]:
  "(x = None \<Longrightarrow> holds P a Q E) \<Longrightarrow> (\<And>y. x = Some y \<Longrightarrow> holds P (f y) Q E) \<Longrightarrow>
   holds P (case x of None \<Rightarrow> a | Some y \<Rightarrow> f y) Q E"
  by (cases x) simp_all

lemma keeps_sum [step_rules]:
  "(\<And>y. x = Inl y \<Longrightarrow> holds P (f y) Q E) \<Longrightarrow> (\<And>y. x = Inr y \<Longrightarrow> holds P (g y) Q E) \<Longrightarrow>
   holds P (case x of Inl y \<Rightarrow> f y | Inr y \<Rightarrow> g y) Q E"
  by (cases x) simp_all

lemma keeps_prod [step_rules]: "(\<And>a b. x = (a, b) \<Longrightarrow> holds P (f a b) Q E) \<Longrightarrow> holds P (case x of (a, b) \<Rightarrow> f a b) Q E"
  by (cases x) simp

lemma keeps_Let [step_rules]: "(\<And>y. y = x \<Longrightarrow> holds P (f y) Q E) \<Longrightarrow> holds P (let y = x in f y) Q E"
  by simp

lemma keeps_each [step_rules]:
  assumes "\<And>x. x \<in> set xs \<Longrightarrow> keeps I (f x)" shows "keeps I (for_each f xs)"
  using assms by (induction xs) (auto intro!: step_rules)

section \<open>Fields left alone\<close>

definition fault_free :: "(cluster \<Rightarrow> 'x) \<Rightarrow> bool" where
  "fault_free f \<longleftrightarrow> (\<forall>w x. f (w\<lparr>cl_faults := x\<rparr>) = f w)"

definition object_free :: "(cluster \<Rightarrow> 'x) \<Rightarrow> bool" where
  "object_free f \<longleftrightarrow> fault_free f \<and> (\<forall>w x. f (w\<lparr>cl_deployments := x\<rparr>) = f w) \<and> (\<forall>w x. f (w\<lparr>cl_services := x\<rparr>) = f w) \<and>
     (\<forall>w x. f (w\<lparr>cl_config_maps := x\<rparr>) = f w) \<and> (\<forall>w x. f (w\<lparr>cl_secrets := x\<rparr>) = f w)"

definition broker_free :: "(cluster \<Rightarrow> 'x) \<Rightarrow> bool" where
  "broker_free f \<longleftrightarrow> fault_free f \<and> (\<forall>w x. f (w\<lparr>cl_queue := x\<rparr>) = f w) \<and> (\<forall>w x. f (w\<lparr>cl_queue_bound := x\<rparr>) = f w)"

definition rule_free :: "(cluster \<Rightarrow> 'x) \<Rightarrow> bool" where
  "rule_free f \<longleftrightarrow> fault_free f \<and> (\<forall>w x. f (w\<lparr>cl_rule := x\<rparr>) = f w)"

definition ns_free :: "(cluster \<Rightarrow> 'x) \<Rightarrow> bool" where
  "ns_free f \<longleftrightarrow> fault_free f \<and> (\<forall>w x. f (w\<lparr>cl_ns := x\<rparr>) = f w) \<and> (\<forall>w x. f (w\<lparr>cl_role_binding := x\<rparr>) = f w)"

definition status_free :: "(cluster \<Rightarrow> 'x) \<Rightarrow> bool" where
  "status_free f \<longleftrightarrow> fault_free f \<and> (\<forall>w x. f (w\<lparr>cl_cr := x\<rparr>) = f w) \<and> (\<forall>w x. f (w\<lparr>cl_published := x\<rparr>) = f w) \<and>
     (\<forall>w x. f (w\<lparr>cl_events := x\<rparr>) = f w) \<and> (\<forall>w x. f (w\<lparr>cl_ids := x\<rparr>) = f w)"

lemmas free_defs = fault_free_def object_free_def broker_free_def rule_free_def ns_free_def status_free_def

lemma freeD [simp]:
  "object_free f \<Longrightarrow> fault_free f" "broker_free f \<Longrightarrow> fault_free f" "rule_free f \<Longrightarrow> fault_free f"
  "ns_free f \<Longrightarrow> fault_free f" "status_free f \<Longrightarrow> fault_free f"
  by (simp_all add: free_defs)

lemma holds_api: "fault_free I \<Longrightarrow> keeps I api"
  by (simp add: holds_def api_def free_defs split: api_fault.splits)

lemma holds_fetch: "fault_free I \<Longrightarrow> holds I (fetch f) (\<lambda>x w. I w \<and> x = f w) I"
  unfolding fetch_def by (rule holds_and_then [OF holds_api]) (simp_all add: holds_def read_def)

lemma keeps_fetch: "fault_free I \<Longrightarrow> keeps I (fetch f)"
  by (rule holds_mono [OF holds_fetch]) simp_all

lemma holds_call: "fault_free I \<Longrightarrow> (\<And>w. I w \<Longrightarrow> Q (f w)) \<Longrightarrow> holds I (call f) (\<lambda>_. Q) I"
  unfolding call_def by (rule holds_and_then [OF holds_api]) (simp_all add: holds_def change_def)

lemma keeps_call: "fault_free I \<Longrightarrow> (\<And>w. I w \<Longrightarrow> I (f w)) \<Longrightarrow> keeps I (call f)"
  by (rule holds_call)

lemma keeps_create_or_patch:
  assumes "fault_free I" "\<And>x w. I w \<Longrightarrow> I (put x w)"
  shows "keeps I (create_or_patch get put blank name edit)"
  unfolding create_or_patch_def using assms
  by (intro step_rules keeps_fetch keeps_call) auto

lemma keeps_apply:
  assumes "object_free I"
  shows "keeps I (apply_deployment n e)" "keeps I (apply_service n e')" "keeps I (apply_config_map n e'')"
    "keeps I (apply_secret n d)"
  using assms unfolding apply_deployment_def apply_service_def apply_config_map_def apply_secret_def
  by (auto intro!: keeps_create_or_patch simp: object_free_def)

lemma keeps_delete:
  assumes "object_free I"
  shows "keeps I (delete_deployment n)" "keeps I (delete_service n)" "keeps I (delete_config_map n)"
  using assms unfolding delete_deployment_def delete_service_def delete_config_map_def
  by (auto intro!: keeps_call simp: object_free_def)

lemmas keeps_object = keeps_apply keeps_delete

end
