(* ===== verification/MonarchFrame.thy ===== *)
theory MonarchFrame
  imports MonarchLogic
begin

text \<open>
  What the operations of a pass leave alone: each group keeps every invariant that does not look at the
  fields it writes.
\<close>

lemma holds_disj: "holds P m Q E \<Longrightarrow> holds P' m Q E \<Longrightarrow> holds (\<lambda>w. P w \<or> P' w) m Q E"
  by (auto simp: holds_def)

lemma holds_weaker: "holds P m Q E \<Longrightarrow> (\<And>w. P' w \<Longrightarrow> P w) \<Longrightarrow> holds P' m Q E"
  by (erule holds_mono) auto

section \<open>Workloads\<close>

lemma keeps_read [step_rules]: "keeps I (read f)"
  by (rule holds_read)

lemma keeps_boot_ready:
  "fault_free I \<Longrightarrow>
   holds I (deployment_boot_ready name component)
     (\<lambda>r w. I w \<and> (fst r \<longrightarrow> name \<in> dom (map_of (cl_deployments w)) \<and> 0 < ds_available (cl_observed w name))) I"
  unfolding deployment_boot_ready_def
  by (rule holds_and_then [OF holds_fetch], assumption, rule keeps_option)
    (auto simp: boot_verdict_def dom_def intro!: holds_go holds_read simp del: map_of_eq_Some_iff
       split: if_splits option.splits dest: sym)

lemma keeps_sinks:
  assumes "object_free I"
  shows "keeps I (reconcile_local_beru getenv st)" "keeps I (reconcile_shop getenv st ns)"
    "keeps I (reconcile_igris_stack getenv st ns)" "keeps I (reconcile_relay_stack getenv st ns)"
  using assms
  unfolding reconcile_local_beru_def reconcile_shop_def reconcile_igris_stack_def reconcile_relay_stack_def
  by (auto intro!: step_rules keeps_object)

lemma keeps_resolve_url: "fault_free I \<Longrightarrow> keeps I (resolve_prod_amqp_url ip6 st a)"
  unfolding resolve_prod_amqp_url_def by (intro step_rules keeps_fetch)

lemma keeps_rabbit_env: "fault_free I \<Longrightarrow> keeps I (igris_rabbit_env ip6 st ns)"
  unfolding igris_rabbit_env_def by (intro step_rules keeps_resolve_url)

lemma keeps_rabbit_stack:
  "object_free I \<Longrightarrow> keeps I (reconcile_igris_rabbit_stack getenv ip6 st ns)"
  unfolding reconcile_igris_rabbit_stack_def by (intro step_rules keeps_object keeps_rabbit_env freeD)

lemma keeps_dependencies:
  assumes "object_free I" shows "keeps I (reconcile_shadow_dependencies st)"
  using assms
  unfolding reconcile_shadow_dependencies_def reconcile_plugins_config_maps_def prune_shadow_dependencies_def
  by (intro step_rules keeps_object keeps_fetch freeD) auto

lemma keeps_roles:
  assumes "object_free I"
  shows "keeps I (reconcile_shadow_workload_resources getenv st ns env)"
  using assms unfolding reconcile_shadow_workload_resources_def reconcile_envoy_config_map_def
  by (intro step_rules keeps_object)

lemma keeps_delete_roles:
  assumes "object_free I"
  shows "keeps I (delete_shadow_role_workloads st)"
  using assms unfolding delete_shadow_role_workloads_def
  by (intro step_rules keeps_object keeps_fetch freeD)

lemma keeps_secrets:
  assumes "object_free I"
  shows "keeps I (sync_storage_secret st)" "keeps I (sync_beru_db_secret getenv)"
  subgoal unfolding sync_storage_secret_def by (intro step_rules keeps_object keeps_fetch freeD assms)
  subgoal unfolding sync_beru_db_secret_def by (intro step_rules keeps_object keeps_fetch freeD assms)
  done

lemmas keeps_stack = keeps_sinks keeps_rabbit_stack keeps_dependencies keeps_roles keeps_delete_roles keeps_secrets

section \<open>The capture rule, the broker and the namespace\<close>

lemma keeps_list_pods: "fault_free I \<Longrightarrow> keeps I list_pods_owned"
  unfolding list_pods_owned_def by (intro step_rules keeps_fetch)

lemma keeps_rule:
  assumes "fault_free I" "\<And>w x. I w \<Longrightarrow> I (w\<lparr>cl_rule := x\<rparr>)"
  shows "keeps I (reconcile_kaisel_rule st ns)"
  using assms unfolding reconcile_kaisel_rule_def
  by (intro step_rules keeps_list_pods keeps_fetch keeps_call) auto

lemma keeps_delete_rule:
  "fault_free I \<Longrightarrow> (\<And>w. I w \<Longrightarrow> I (w\<lparr>cl_rule := None\<rparr>)) \<Longrightarrow> keeps I delete_kaisel_rule"
  unfolding delete_kaisel_rule_def by (rule keeps_call)

lemma keeps_with_amqp: "fault_free I \<Longrightarrow> (\<And>a. keeps I (f a)) \<Longrightarrow> keeps I (with_amqp ip6 st f)"
  unfolding with_amqp_def by (intro step_rules keeps_resolve_url)

lemma keeps_open_broker: "fault_free I \<Longrightarrow> keeps I open_broker"
  unfolding open_broker_def by (intro step_rules holds_api)

lemma keeps_delete_queue:
  assumes "fault_free I" "\<And>w. I w \<Longrightarrow> I (w\<lparr>cl_queue := None, cl_queue_bound := False\<rparr>)"
  shows "keeps I (delete_prod_queue ip6 st)"
  using assms unfolding delete_prod_queue_def
  by (intro step_rules keeps_with_amqp holds_api keeps_call) auto

lemma keeps_fetch_ns: "fault_free I \<Longrightarrow> keeps I fetch_namespace"
  by (auto simp: holds_def fetch_namespace_def and_then_def api_def go_def free_defs split: api_fault.splits)

lemma keeps_delete_ns:
  assumes "fault_free I" "\<And>w. I w \<Longrightarrow> I (w\<lparr>cl_ns := map_option (ns_terminating_update (\<lambda>_. True)) (cl_ns w)\<rparr>)"
  shows "keeps I (delete_shadow_namespace ns x)"
  using assms unfolding delete_shadow_namespace_def by (intro step_rules keeps_call) auto

lemma keeps_rbac:
  assumes "fault_free I" "\<And>w x. I w \<Longrightarrow> I (w\<lparr>cl_role_binding := x\<rparr>)"
  shows "keeps I (ensure_shadow_namespace_rbac getenv name)"
  using assms unfolding ensure_shadow_namespace_rbac_def
  by (intro step_rules keeps_fetch keeps_call) auto

lemma keeps_mint: "(\<And>w x. I w \<Longrightarrow> I (w\<lparr>cl_ids := x\<rparr>)) \<Longrightarrow> keeps I (mint p)"
  by (auto simp: holds_def mint_def split: list.splits prod.splits)

section \<open>Teardown\<close>

text \<open>What the teardown of a failed test writes.\<close>

definition teardown_closed :: "(cluster \<Rightarrow> bool) \<Rightarrow> bool" where
  "teardown_closed I \<longleftrightarrow> fault_free I \<and> (\<forall>w. I w \<longrightarrow> I (w\<lparr>cl_queue := None, cl_queue_bound := False\<rparr>)) \<and>
     (\<forall>w. I w \<longrightarrow> I (w\<lparr>cl_rule := None\<rparr>)) \<and>
     (\<forall>w. I w \<longrightarrow> I (w\<lparr>cl_ns := map_option (ns_terminating_update (\<lambda>_. True)) (cl_ns w)\<rparr>))"

lemma keeps_teardown: "teardown_closed I \<Longrightarrow> keeps I (finish_boot_failed_cleanup ip6 st ns)"
  unfolding finish_boot_failed_cleanup_def teardown_closed_def
  by (intro step_rules keeps_delete_queue keeps_delete_rule keeps_fetch_ns keeps_delete_ns) auto

end
