(* ===== verification/MonarchQuiet.thy ===== *)
theory MonarchQuiet
  imports MonarchFrame
begin

text \<open>
  The state of a cluster during a pass before the pass has done anything that lasts: the test is the one the
  pass read, it is not marked ready, no replay was started, and capture is what it was unless the sinks are up.
\<close>

section \<open>The test of a pass\<close>

text \<open>A pass resolves the ports and the baseline image of the specification; the rest stays as read.\<close>

definition spec_core :: "shadow_test_spec \<Rightarrow> shadow_test_spec" where
  "spec_core s = s\<lparr>spec_app_port := 0, spec_service_port := 0, spec_old_image := []\<rparr>"

definition same_test :: "shadow_cr \<Rightarrow> shadow_cr \<Rightarrow> bool" where
  "same_test st0 st \<longleftrightarrow> st_name st = st_name st0 \<and> st_namespace st = st_namespace st0 \<and> st_uid st = st_uid st0 \<and>
     spec_core (st_spec st) = spec_core (st_spec st0)"

lemma spec_core_simps [simp]:
  "spec_igris (spec_core s) = spec_igris s" "spec_storage (spec_core s) = spec_storage s"
  "spec_inputs (spec_core s) = spec_inputs s" "spec_dependencies (spec_core s) = spec_dependencies s"
  "spec_mode (spec_core s) = spec_mode s"
  "spec_core (s\<lparr>spec_app_port := p\<rparr>) = spec_core s" "spec_core (s\<lparr>spec_service_port := p\<rparr>) = spec_core s"
  "spec_core (s\<lparr>spec_old_image := i\<rparr>) = spec_core s"
  by (simp_all add: spec_core_def)

lemma same_test_refl [simp]: "same_test st st"
  by (simp add: same_test_def)

lemma same_testD:
  assumes "same_test st0 st"
  shows "st_name st = st_name st0" "spec_inputs (st_spec st) = spec_inputs (st_spec st0)"
    "spec_dependencies (st_spec st) = spec_dependencies (st_spec st0)" "spec_mode (st_spec st) = spec_mode (st_spec st0)"
    "spec_igris (st_spec st) = spec_igris (st_spec st0)" "spec_storage (st_spec st) = spec_storage (st_spec st0)"
    "st_namespace st = st_namespace st0"
proof -
  have *: "spec_core (st_spec st) = spec_core (st_spec st0)" "st_name st = st_name st0"
    "st_namespace st = st_namespace st0"
    using assms by (auto simp: same_test_def)
  show "st_name st = st_name st0" "st_namespace st = st_namespace st0" by (rule *)+
  show "spec_inputs (st_spec st) = spec_inputs (st_spec st0)" by (metis *(1) spec_core_simps(3))
  show "spec_dependencies (st_spec st) = spec_dependencies (st_spec st0)" by (metis *(1) spec_core_simps(4))
  show "spec_mode (st_spec st) = spec_mode (st_spec st0)" by (metis *(1) spec_core_simps(5))
  show "spec_igris (st_spec st) = spec_igris (st_spec st0)" by (metis *(1) spec_core_simps(1))
  show "spec_storage (st_spec st) = spec_storage (st_spec st0)" by (metis *(1) spec_core_simps(2))
qed

text \<open>
  The flag \<^term>\<open>k\<close> says that no replay has been started yet: until then the test has a replay state exactly
  when it had one.
\<close>

definition calm :: "bool \<Rightarrow> shadow_cr \<Rightarrow> shadow_cr \<Rightarrow> bool" where
  "calm k st0 st \<longleftrightarrow> same_test st0 st \<and>
     (sta_phase (st_status st0) \<noteq> PhaseReady \<longrightarrow> sta_phase (st_status st) \<noteq> PhaseReady) \<and>
     (spec_old_image (st_spec st0) \<noteq> [] \<longrightarrow> spec_old_image (st_spec st) \<noteq> []) \<and>
     (k \<and> operating_mode st0 = OpReplay \<longrightarrow>
        (trim_space (sta_replay_state (st_status st)) = [] \<longleftrightarrow> trim_space (sta_replay_state (st_status st0)) = []))"

lemma same_test_mode: "same_test st0 st \<Longrightarrow> operating_mode st = operating_mode st0"
  by (simp add: operating_mode_def same_testD)

definition quiet :: "cluster \<Rightarrow> bool \<Rightarrow> shadow_cr \<Rightarrow> bool \<Rightarrow> cluster \<Rightarrow> bool" where
  "quiet w0 k st0 tapped w \<longleftrightarrow> cl_observed w = cl_observed w0 \<and> cl_replays w = cl_replays w0 \<and>
     (cl_queue_bound w \<longrightarrow> cl_queue_bound w0) \<and> (cl_rule w = None \<or> cl_rule w = cl_rule w0 \<or> tapped) \<and>
     (\<forall>cr \<in> set_option (cl_cr w). calm k st0 cr)"

lemma quiet_object [simp]: "object_free (quiet w0 k st0 t)"
  by (simp add: free_defs quiet_def)

lemma quiet_fault [simp]: "fault_free (quiet w0 k st0 t)"
  by (rule freeD(1)) simp

lemma quiet_teardown [simp]: "teardown_closed (quiet w0 k st0 t)"
  by (simp add: teardown_closed_def) (simp add: quiet_def)

lemma quiet_published [simp]: "quiet w0 k st0 t (w\<lparr>cl_published := x\<rparr>) = quiet w0 k st0 t w"
  and quiet_events [simp]: "quiet w0 k st0 t (w\<lparr>cl_events := y\<rparr>) = quiet w0 k st0 t w"
  and quiet_ids [simp]: "quiet w0 k st0 t (w\<lparr>cl_ids := z\<rparr>) = quiet w0 k st0 t w"
  and quiet_ns [simp]: "quiet w0 k st0 t (w\<lparr>cl_ns := n\<rparr>) = quiet w0 k st0 t w"
  and quiet_binding [simp]: "quiet w0 k st0 t (w\<lparr>cl_role_binding := b\<rparr>) = quiet w0 k st0 t w"
  by (simp_all add: quiet_def)

lemma quiet_tapped: "quiet w0 k st0 t w \<Longrightarrow> (t \<Longrightarrow> u) \<Longrightarrow> quiet w0 k st0 u w"
  by (auto simp: quiet_def)

section \<open>Writes of the status\<close>

lemma calm_status:
  "calm k st0 st \<Longrightarrow> (sta_phase (st_status st0) \<noteq> PhaseReady \<Longrightarrow> sta_phase s \<noteq> PhaseReady) \<Longrightarrow>
   (k \<Longrightarrow> operating_mode st0 = OpReplay \<Longrightarrow>
      trim_space (sta_replay_state s) = [] \<longleftrightarrow> trim_space (sta_replay_state (st_status st0)) = []) \<Longrightarrow>
   calm k st0 (st\<lparr>st_status := s\<rparr>)"
  by (simp add: calm_def same_test_def)

lemma calm_merge:
  "calm k st0 cr \<Longrightarrow> calm k st0 st \<Longrightarrow> calm k st0 (cr\<lparr>st_status := merge_status base (st_status st) (st_status cr)\<rparr>)"
  by (auto simp: calm_def same_test_def merge_status_def merged_def)

lemma calm_decode: "calm k st0 cr \<Longrightarrow> calm k st0 st \<Longrightarrow> calm k st0 (decode_answer cr st)"
  by (auto simp: calm_def same_test_def decode_answer_def decode_status_def kept_def)

lemma quiet_patch:
  assumes "calm k st0 st"
  shows "holds (quiet w0 k st0 t) (patch_status base st) (\<lambda>st2 w. quiet w0 k st0 t w \<and> calm k st0 st2) (quiet w0 k st0 t)"
  using assms
  by (auto simp: holds_def patch_status_def and_then_def api_def read_def fail_def change_def go_def Let_def quiet_def
      intro!: calm_merge calm_decode split: api_fault.splits option.splits)

text \<open>An edit of the status which neither marks the test ready nor records a replay.\<close>

definition harmless :: "status_mutator \<Rightarrow> bool" where
  "harmless f \<longleftrightarrow> (\<forall>s. sta_replay_state (f s) = sta_replay_state s \<and>
     (sta_phase s \<noteq> PhaseReady \<longrightarrow> sta_phase (f s) \<noteq> PhaseReady))"

lemma harmless_simps [simp]:
  "phase \<noteq> PhaseReady \<Longrightarrow> harmless (status_base g phase m ns)" "harmless (status_boot bstep boot)"
  "harmless (status_extras targets kp ep rp)" "harmless (sta_boot_step_update h)"
  by (simp_all add: harmless_def status_base_def status_boot_def status_extras_def Let_def)

lemma phases_differ [simp]:
  "PhaseFailed \<noteq> PhaseReady" "PhaseProgressing \<noteq> PhaseReady" "PhaseDeleting \<noteq> PhaseReady"
  by (simp_all add: phase_defs)

lemma harmless_fold:
  "\<forall>f \<in> set fs. harmless f \<Longrightarrow> harmless (fold (\<lambda>f. f) fs)"
  by (induction fs) (auto simp: harmless_def)

lemma calm_fold:
  assumes "\<forall>f \<in> set fs. harmless f" "calm k st0 st"
  shows "calm k st0 (st\<lparr>st_status := fold (\<lambda>f. f) fs (st_status st)\<rparr>)"
  using harmless_fold [OF assms(1)] assms(2) by (intro calm_status) (auto simp: harmless_def calm_def)

lemma quiet_patch_core:
  assumes "calm k st0 st" "\<forall>f \<in> set fs. harmless f"
  shows "holds (quiet w0 k st0 t) (patch_status_core fs st) (\<lambda>r w. quiet w0 k st0 t w \<and> calm k st0 (snd r)) (quiet w0 k st0 t)"
proof -
  let ?st1 = "st\<lparr>st_status := fold (\<lambda>f. f) fs (st_status st)\<rparr>"
  have c: "calm k st0 ?st1" by (rule calm_fold [OF assms(2,1)])
  show ?thesis
    using quiet_patch [OF c, of w0 t "st_status st"] c
    by (auto simp: holds_def patch_status_core_def Let_def on_error_def and_then_def change_def go_def
        split: prod.splits outcome.splits) blast+
qed

end
