(* ===== verification/MonarchPass.thy ===== *)
theory MonarchPass
  imports MonarchQuiet
begin

text \<open>
  Every operation of a pass before the boot gates open, and every way a pass gives up, leaves the cluster
  quiet.
\<close>

abbreviation calm_and_quiet :: "cluster \<Rightarrow> bool \<Rightarrow> shadow_cr \<Rightarrow> bool \<Rightarrow> shadow_cr \<Rightarrow> cluster \<Rightarrow> bool" where
  "calm_and_quiet w0 k st0 t st w \<equiv> quiet w0 k st0 t w \<and> calm k st0 st"

lemma quiet_boot:
  "calm k st0 st \<Longrightarrow> phase \<noteq> PhaseReady \<Longrightarrow>
   holds (quiet w0 k st0 t) (patch_boot_status phase m ns bstep boot st) (\<lambda>r. calm_and_quiet w0 k st0 t (snd r)) (quiet w0 k st0 t)"
  unfolding patch_boot_status_def by (rule quiet_patch_core) auto

lemma holds_then: "holds P m (\<lambda>_. P) P \<Longrightarrow> holds P n Q P \<Longrightarrow> holds P (and_then m (\<lambda>_. n)) Q P"
  by (rule holds_and_then)

lemma holds_loose: "holds P m Q E \<Longrightarrow> (\<And>x w. Q x w \<Longrightarrow> Q' x w) \<Longrightarrow> holds P m Q' E"
  by (erule holds_mono) auto

lemma quiet_boot_then:
  "calm k st0 st \<Longrightarrow> phase \<noteq> PhaseReady \<Longrightarrow> (\<And>r. holds (quiet w0 k st0 t) (n r) Q (quiet w0 k st0 t)) \<Longrightarrow>
   holds (quiet w0 k st0 t) (and_then (patch_boot_status phase m ns bstep boot st) n) Q (quiet w0 k st0 t)"
  by (rule holds_and_then [where R = "\<lambda>_. quiet w0 k st0 t"], rule holds_loose [OF quiet_boot]) auto

lemma keeps_patch_core:
  "calm k st0 st \<Longrightarrow> \<forall>f \<in> set fs. harmless f \<Longrightarrow> keeps (quiet w0 k st0 t) (patch_status_core fs st)"
  by (rule holds_loose [OF quiet_patch_core]) auto

lemma holds_pure: "(c \<Longrightarrow> holds P m Q E) \<Longrightarrow> holds (\<lambda>w. P w \<and> c) m Q E"
  by (auto simp: holds_def)

lemma keeps_and_pure: "keeps I m \<Longrightarrow> c \<Longrightarrow> holds I m (\<lambda>_ w. I w \<and> c) I"
  by (rule holds_loose) auto

section \<open>Giving up\<close>

lemma ends_teardown: "teardown_closed I \<Longrightarrow> holds I (finish_boot_failed_cleanup ip6 st ns) Q I"
  unfolding finish_boot_failed_cleanup_def delete_shadow_namespace_def teardown_closed_def
  by (intro holds_then step_rules keeps_delete_queue keeps_delete_rule keeps_call holds_and_then [OF keeps_fetch_ns]) auto

lemma ends_failed:
  assumes "calm k st0 st"
  shows "holds (quiet w0 k st0 t) (mark_boot_failed ip6 st ns m boot) Q (quiet w0 k st0 t)"
  unfolding mark_boot_failed_def emit_event_def
  apply (rule holds_and_then [OF keeps_patch_core [OF assms]], simp)
  apply (rule keeps_prod, rule holds_then)
   apply (rule holds_change, simp)
  by (rule ends_teardown) simp

lemma ends_stop:
  assumes "calm k st0 st" "holds (quiet w0 k st0 t) after Q (quiet w0 k st0 t)"
  shows "holds (quiet w0 k st0 t) (stop_failed m ns boot st after) Q (quiet w0 k st0 t)"
  unfolding stop_failed_def using assms by (intro quiet_boot_then) auto

lemma ends_sticky:
  assumes "calm k st0 st"
  shows "holds (quiet w0 k st0 t) (reconcile_sticky_failed ip6 st ns) Q (quiet w0 k st0 t)"
  unfolding reconcile_sticky_failed_def
  apply (rule holds_and_then [OF keeps_patch_core [OF assms]], simp)
  by (rule keeps_prod, rule ends_teardown) simp

section \<open>Identifiers and the queue\<close>

lemma quiet_session:
  assumes "calm k st0 st"
  shows "holds (quiet w0 k st0 t) (ensure_session_id st) (\<lambda>r. calm_and_quiet w0 k st0 t (snd r)) (quiet w0 k st0 t)"
proof -
  have store: "holds (quiet w0 k st0 t)
      (if trim_space (sta_session (st_status st)) = sid then go (None, st)
       else let st1 = st\<lparr>st_status := (st_status st)\<lparr>sta_session := sid\<rparr>\<rparr>
            in on_error (and_then (patch_status (st_status st) st1) (\<lambda>st2. go (None, st2))) (\<lambda>e. go (Some e, st1)))
      (\<lambda>r. calm_and_quiet w0 k st0 t (snd r)) (quiet w0 k st0 t)" for sid
  proof -
    have c: "calm k st0 (st\<lparr>st_status := (st_status st)\<lparr>sta_session := sid\<rparr>\<rparr>)"
      using assms by (intro calm_status) (auto simp: calm_def)
    show ?thesis
      unfolding Let_def
      by (intro keeps_if holds_go holds_on_error [where E' = "quiet w0 k st0 t"] holds_and_then [OF quiet_patch [OF c]])
        (auto simp: assms c)
  qed
  show ?thesis
    unfolding ensure_session_id_def Let_def
    by (intro keeps_if holds_go store [unfolded Let_def] holds_and_then [OF keeps_mint]) (auto simp: assms)
qed

lemma quiet_execution:
  assumes "calm k st0 st"
  shows "holds (quiet w0 k st0 t) (ensure_replay_execution_id st) (calm_and_quiet w0 k st0 t) (quiet w0 k st0 t)"
  unfolding ensure_replay_execution_id_def
  by (intro keeps_if holds_go holds_and_then [OF keeps_mint] quiet_patch calm_status) (use assms in \<open>auto simp: calm_def\<close>)

lemma quiet_clear:
  assumes "calm k st0 st" "operating_mode st = OpRecord"
  shows "holds (quiet w0 k st0 t) (clear_replay_state st) (calm_and_quiet w0 k st0 t) (quiet w0 k st0 t)"
  unfolding clear_replay_state_def
  by (intro keeps_if holds_go quiet_patch calm_status) (use assms in \<open>auto simp: calm_def same_test_mode OpRecord_def OpReplay_def\<close>)

text \<open>A wrapper of the error keeps the rest.\<close>

lemma holds_wrap: "holds P m Q E \<Longrightarrow> holds P (wrap_error p m) Q E"
  unfolding wrap_error_def by (rule holds_on_error, assumption, rule holds_fail) auto

lemma holds_with_amqp:
  "fault_free P \<Longrightarrow> (\<And>a. holds P (f a) Q P) \<Longrightarrow> holds P (with_amqp ip6 st f) Q P"
  unfolding with_amqp_def by (intro keeps_sum holds_fail holds_and_then [OF keeps_resolve_url])

lemma quiet_queue: "keeps (quiet w0 k st0 t) (queue_declare name)"
  unfolding queue_declare_def by (intro holds_wrap keeps_call) (auto simp: quiet_def)

lemma quiet_declared:
  assumes "calm k st0 st"
  shows "holds (quiet w0 k st0 t) (ensure_prod_queue_declared ip6 st) (calm_and_quiet w0 k st0 t) (quiet w0 k st0 t)"
  unfolding ensure_prod_queue_declared_def
  by (intro keeps_if holds_go holds_with_amqp holds_and_then [OF keeps_open_broker] holds_and_then [OF quiet_queue]
      holds_wrap quiet_patch calm_status) (use assms in \<open>auto simp: calm_def\<close>)

section \<open>Up to the gates\<close>

lemma quiet_cr:
  assumes "\<And>cr. calm k st0 cr \<Longrightarrow> calm k st0 (f cr)"
  shows "quiet w0 k st0 t w \<Longrightarrow> quiet w0 k st0 t (w\<lparr>cl_cr := map_option f (cl_cr w)\<rparr>)"
  using assms by (auto simp: quiet_def)

lemma quiet_finalizers: "keeps (quiet w0 k st0 t) add_finalizers"
  unfolding add_finalizers_def
  by (rule keeps_call, simp, rule quiet_cr) (simp_all add: calm_def same_test_def)

lemma quiet_old_image:
  assumes "calm k st0 st" shows "keeps (quiet w0 k st0 t) (ensure_old_image st target)"
  unfolding ensure_old_image_def using assms
  by (intro step_rules keeps_call quiet_cr) (auto simp: calm_def same_test_def)

lemma resolve_same:
  "resolve_spec_defaults st target = Inr st' \<Longrightarrow> calm k st0 st \<Longrightarrow> calm k st0 st'"
  by (auto simp: resolve_spec_defaults_def Let_def calm_def same_test_def split: sum.splits if_splits)

lemma quiet_target:
  assumes "calm k st0 st"
  shows "holds (quiet w0 k st0 t) (resolve_target ip6 st ns boot) (\<lambda>r. calm_and_quiet w0 k st0 t (fst r)) (quiet w0 k st0 t)"
  unfolding resolve_target_def
  apply (rule holds_and_then [OF keeps_fetch], simp)
  apply (intro keeps_option ends_failed assms keeps_sum)
  apply (rule holds_and_then [where R = "\<lambda>_. quiet w0 k st0 t"])
   apply (rule holds_on_error [OF quiet_old_image ends_failed])
     apply (erule resolve_same [OF _ assms])+
   apply assumption
  apply (intro keeps_if holds_done holds_go)
   apply (simp_all add: resolve_same [OF _ assms])
  done

lemma quiet_namespace: "keeps (quiet w0 k st0 t) (ensure_shadow_namespace getenv st name)"
  unfolding ensure_shadow_namespace_def bind_if_owned_def validate_existing_namespace_def
  by (intro step_rules keeps_fetch_ns keeps_fetch keeps_rbac) simp_all

lemma quiet_prepare:
  assumes "calm k st0 st"
  shows "holds (quiet w0 k st0 t) (prepare_namespace getenv st ns boot) (calm_and_quiet w0 k st0 t) (quiet w0 k st0 t)"
proof -
  have stop: "calm k st0 s \<Longrightarrow> holds (quiet w0 k st0 t) (stop_failed m ns boot s (done_with r)) Q (quiet w0 k st0 t)" for s m r Q
    by (rule ends_stop, assumption, rule holds_done)
  have give: "calm k st0 s \<Longrightarrow> holds (quiet w0 k st0 t) (stop_failed m ns boot s (fail e)) Q (quiet w0 k st0 t)" for s m e Q
    by (rule ends_stop, assumption, rule holds_fail)
  show ?thesis
    unfolding prepare_namespace_def
    apply (intro keeps_if stop assms)
    apply (rule holds_and_then [OF quiet_namespace])
    apply (intro keeps_option stop assms)
    apply (rule holds_and_then [OF quiet_session [OF assms]])
    apply (rule keeps_prod, simp, rule holds_pure)
    apply (intro keeps_option stop)
     prefer 2
     apply assumption
    by (intro holds_then holds_on_error [OF keeps_secrets(1)] holds_on_error [OF keeps_secrets(2)] give holds_go) simp_all
qed

lemma quiet_mode:
  assumes "calm k st0 st"
  shows "holds (quiet w0 k st0 t) (enter_mode st) (calm_and_quiet w0 k st0 t) (quiet w0 k st0 t)"
  unfolding enter_mode_def
  apply (intro keeps_if)
   apply (rule holds_and_then [OF quiet_clear [OF assms]], assumption)
   apply (rule holds_pure, intro holds_then keeps_delete_roles holds_go)
    apply simp_all
  by (intro holds_then keeps_delete_rule quiet_execution [OF assms]) (simp_all add: quiet_def)

section \<open>Deletion\<close>

lemma quiet_s3: "keeps (quiet w0 k st0 t) (cleanup_s3_if_needed st)"
  unfolding cleanup_s3_if_needed_def default_s3_cleaner_def s3_config_from_shadow_test_def Let_def
  by (intro step_rules keeps_fetch keeps_call) (simp_all add: quiet_def)

lemma read_cr:
  "holds (quiet w0 k st0 t) (fetch cl_cr) (\<lambda>cr w. quiet w0 k st0 t w \<and> (\<forall>st \<in> set_option cr. calm k st0 st)) (quiet w0 k st0 t)"
  by (rule holds_loose [OF holds_fetch]) (simp_all add: quiet_def)

lemma calm_finalizers [simp]: "calm k st0 (st\<lparr>st_finalizers := fs\<rparr>) = calm k st0 st"
  by (simp add: calm_def same_test_def)

lemma quiet_set_cr: "quiet w0 k st0 t w \<Longrightarrow> \<forall>cr \<in> set_option x. calm k st0 cr \<Longrightarrow> quiet w0 k st0 t (w\<lparr>cl_cr := x\<rparr>)"
  by (simp add: quiet_def)

lemma quiet_remove: "keeps (quiet w0 k st0 t) remove_finalizers"
  unfolding remove_finalizers_def
  apply (rule holds_and_then [OF read_cr], rule holds_pure)
  subgoal for cr
    apply (cases cr)
     apply (simp add: holds_go)
    apply (simp only: option.case Let_def)
    apply (intro keeps_if holds_go keeps_call quiet_set_cr)
       apply simp_all
    done
  done

lemma ends_delete_ns: "holds (quiet w0 k st0 t) (delete_shadow_namespace ns x) Q (quiet w0 k st0 t)"
  unfolding delete_shadow_namespace_def
  by (intro holds_then step_rules keeps_call) simp_all

lemma quiet_delete: "holds (quiet w0 k st0 t) (reconcile_delete ip6 ns) Q (quiet w0 k st0 t)"
  unfolding reconcile_delete_def publish_deleted_def
  apply (rule holds_and_then [OF read_cr], rule holds_pure)
  apply (intro keeps_option keeps_if holds_done)
    apply simp_all
  apply (rule holds_and_then [OF keeps_patch_core], assumption, simp)
  apply (rule keeps_prod)
  subgoal for cr st1 r e st
    apply (cases e)
     prefer 2
     apply (simp only: option.case, rule holds_fail, assumption)
    apply (simp only: option.case)
    apply (intro holds_then [OF keeps_delete_queue] holds_then [OF keeps_delete_rule] holds_and_then [OF keeps_fetch_ns]
        keeps_option ends_delete_ns holds_then [OF quiet_s3] holds_then [OF quiet_remove] holds_then holds_change holds_done)
    by (simp_all add: quiet_def)
  done

end
