(* ===== verification/MonarchReady.thy ===== *)
theory MonarchReady
  imports MonarchPass
begin

text \<open>
  What a pass may conclude: the boot gates that opened say which workloads are available, and only then are
  capture, the replay and the phase \<^verbatim>\<open>Ready\<close> reached.
\<close>

section \<open>Gates\<close>

text \<open>A gate that keeps the cluster quiet, and opens only when a claim holds.\<close>

definition sound_gate :: "(cluster \<Rightarrow> bool) \<Rightarrow> boot_gate \<Rightarrow> bool \<Rightarrow> bool" where
  "sound_gate I g claim \<longleftrightarrow> (\<forall>f \<in> set (bg_progress g). harmless f) \<and>
     (if bg_skip g then claim
      else keeps I (bg_reconcile g) \<and> holds I (bg_probe g) (\<lambda>(ready, r) w. I w \<and> (ready \<longrightarrow> claim)) I)"

lemma quiet_wait:
  assumes "calm k st0 st" "\<forall>f \<in> set (bg_progress g). harmless f"
  shows "holds (quiet w0 k st0 t) (wait_at_gate st ns g boot) Q (quiet w0 k st0 t)"
  unfolding wait_at_gate_def
  by (rule holds_and_then [OF keeps_patch_core [OF assms(1)]]) (auto simp: assms intro!: holds_done)

lemma quiet_gates:
  assumes "list_all2 (sound_gate (quiet w0 k st0 t)) gates claims" "calm k st0 st"
  shows "holds (quiet w0 k st0 t) (run_boot_gates ip6 st ns gates boot)
    (\<lambda>_ w. quiet w0 k st0 t w \<and> (\<forall>claim \<in> set claims. claim)) (quiet w0 k st0 t)"
  using assms
proof (induction arbitrary: boot rule: list_all2_induct)
  case Nil
  show ?case by (simp add: holds_go)
next
  case (Cons g gates claim claims)
  have IH: "holds (quiet w0 k st0 t) (run_boot_gates ip6 st ns gates b)
    (\<lambda>_ w. quiet w0 k st0 t w \<and> (\<forall>claim \<in> set claims. claim)) (quiet w0 k st0 t)" for b
    by (rule Cons.IH [OF Cons.prems])
  show ?case
  proof (cases "bg_skip g")
    case True
    then show ?thesis using IH [of boot] Cons.hyps(1) by (simp add: sound_gate_def)
  next
    case False
    then have g: "keeps (quiet w0 k st0 t) (bg_reconcile g)"
        "holds (quiet w0 k st0 t) (bg_probe g) (\<lambda>(ready, r) w. quiet w0 k st0 t w \<and> (ready \<longrightarrow> claim)) (quiet w0 k st0 t)"
        "\<forall>f \<in> set (bg_progress g). harmless f"
      using Cons.hyps(1) by (auto simp: sound_gate_def)
    have open_gate: "claim \<Longrightarrow> holds (quiet w0 k st0 t) (run_boot_gates ip6 st ns gates b)
        (\<lambda>_ w. quiet w0 k st0 t w \<and> (\<forall>claim \<in> set (claim # claims). claim)) (quiet w0 k st0 t)" for b
      by (rule holds_loose [OF IH]) auto
    show ?thesis
      using False
      apply (simp only: run_boot_gates.simps if_False)
      apply (rule holds_and_then [where R = "\<lambda>_. quiet w0 k st0 t"])
       apply (rule holds_on_error [OF g(1)])
        apply (rule quiet_boot_then [OF Cons.prems], simp, rule holds_fail, assumption)
       apply assumption
      apply (rule holds_and_then [OF g(2)])
      subgoal for u probed
        apply (cases probed, rename_tac ready reason rec)
        apply (simp only: prod.case, rule holds_pure)
        apply (intro keeps_if keeps_option open_gate ends_failed quiet_wait Cons.prems g(3))
        apply simp
        done
      done
  qed
qed

section \<open>What the gates of each mode say\<close>

abbreviation up :: "cluster \<Rightarrow> string \<Rightarrow> bool" where
  "up w name \<equiv> 0 < ds_available (cl_observed w name)"

definition ingress_workload :: "shadow_cr \<Rightarrow> string" where
  "ingress_workload st = (if needs_amqp_ingress st then igris_rabbit_deployment_name st else igris_deployment_name st)"

lemma probe_up:
  "holds (quiet w0 k st0 t) (deployment_boot_ready name component)
     (\<lambda>r w. quiet w0 k st0 t w \<and> (fst r \<longrightarrow> up w0 name)) (quiet w0 k st0 t)"
  by (rule holds_loose [OF keeps_boot_ready]) (auto simp: quiet_def)

lemma sound_probe:
  assumes "keeps (quiet w0 k st0 t) rec" "holds (quiet w0 k st0 t) m (\<lambda>r w. quiet w0 k st0 t w \<and> (fst r \<longrightarrow> claim)) (quiet w0 k st0 t)"
  shows "sound_gate (quiet w0 k st0 t) (gate msg rec (probe_with m f)) claim"
  unfolding sound_gate_def gate_def probe_with_def using assms
  by (auto intro!: holds_and_then [OF assms(2)] keeps_prod holds_go)

lemma sound_progress:
  "sound_gate I g claim \<Longrightarrow> \<forall>f \<in> set fs. harmless f \<Longrightarrow> sound_gate I (g\<lparr>bg_progress := fs\<rparr>) claim"
  "sound_gate I g claim \<Longrightarrow> sound_gate I (g\<lparr>bg_requeue := n\<rparr>) claim"
  "sound_gate I g claim \<Longrightarrow> sound_gate I (g\<lparr>bg_step := s\<rparr>) claim"
  by (auto simp: sound_gate_def)

lemma amqp_has_input: "needs_amqp_ingress st \<Longrightarrow> has_rabbit_input st"
  by (cases "spec_inputs (st_spec st)") (auto simp: needs_amqp_ingress_def is_amqp_only_def has_rabbit_input_def)

lemma quiet_all_ready:
  "holds (quiet w0 k st0 t) (all_ready names)
     (\<lambda>r w. quiet w0 k st0 t w \<and> (fst r \<longrightarrow> (\<forall>n \<in> fst ` set names. up w0 n))) (quiet w0 k st0 t)"
proof (induction names)
  case Nil
  show ?case by (simp add: holds_go)
next
  case (Cons p names)
  obtain name component where p: "p = (name, component)" by fastforce
  show ?case
    unfolding p all_ready.simps
    apply (rule holds_and_then [OF probe_up])
    subgoal for r
      apply (cases r, simp only: prod.case fst_conv, rule holds_pure)
      by (auto intro!: keeps_if holds_go holds_loose [OF Cons.IH])
    done
qed

lemma quiet_roles_ready:
  "holds (quiet w0 k st0 t) (roles_ready st names roles reason)
     (\<lambda>r w. quiet w0 k st0 t w \<and> (list_all snd (fst r) \<longrightarrow> list_all snd roles \<and>
        (\<forall>n \<in> set names. up w0 (shadow_deployment_name st n)))) (quiet w0 k st0 t)"
proof (induction names arbitrary: roles reason)
  case Nil
  show ?case by (simp add: holds_go)
next
  case (Cons n names)
  show ?case
    unfolding roles_ready.simps Let_def
    apply (rule holds_and_then [OF probe_up])
    subgoal for r
      apply (cases r, simp only: prod.case fst_conv, rule holds_pure)
      by (auto intro!: holds_loose [OF Cons.IH])
    done
qed

lemma quiet_igris_rabbit_ready:
  "has_rabbit_input st \<Longrightarrow>
   holds (quiet w0 k st0 t) (igris_rabbit_deployment_ready st)
     (\<lambda>r w. quiet w0 k st0 t w \<and> (fst r \<longrightarrow> up w0 (igris_rabbit_deployment_name st))) (quiet w0 k st0 t)"
  unfolding igris_rabbit_deployment_ready_def by (simp add: probe_up)

lemma sound_beru: "sound_gate (quiet w0 k st0 t) (local_beru_boot_gate getenv st) (up w0 localBeruName)"
  unfolding local_beru_boot_gate_def local_beru_ready_def
  by (intro sound_probe keeps_stack probe_up) simp

lemma keeps_ingress_sinks: "object_free I \<Longrightarrow> keeps I (reconcile_record_ingress_sinks getenv ip6 st ns)"
  unfolding reconcile_record_ingress_sinks_def by (intro step_rules keeps_stack)

lemma sound_record:
  "list_all2 (sound_gate (quiet w0 k st0 t)) (record_boot_gates getenv ip6 st ns)
     [True, up w0 shopName, up w0 (ingress_workload st)]"
proof -
  have first: "sound_gate (quiet w0 k st0 t)
      (gate ''waiting for record sinks''
        (and_then (reconcile_shop getenv st ns) (\<lambda>_. reconcile_record_ingress_sinks getenv ip6 st ns))
        (go (True, None, \<lambda>c. c))) True"
    unfolding sound_gate_def gate_def
    by (auto intro!: step_rules keeps_stack keeps_ingress_sinks)
  have probe: "holds (quiet w0 k st0 t) (record_ingress_sinks_ready st)
      (\<lambda>r w. quiet w0 k st0 t w \<and> (fst r \<longrightarrow> up w0 (ingress_workload st))) (quiet w0 k st0 t)"
    unfolding record_ingress_sinks_ready_def ingress_workload_def
    by (auto simp: needs_http_ingress_def igris_deployment_ready_def amqp_has_input
        intro!: keeps_if quiet_igris_rabbit_ready probe_up)
  show ?thesis
    unfolding record_boot_gates_def shop_deployment_ready_def
    by (intro list_all2_Cons [THEN iffD2] conjI first sound_progress sound_probe probe_up probe step_rules) simp_all
qed

definition dependency_workloads :: "shadow_cr \<Rightarrow> string list" where
  "dependency_workloads st = map (\<lambda>(dep, role). dependency_resource_name (dp_name dep) role) (dependency_roles st)"

definition relay_workloads :: "shadow_cr \<Rightarrow> string list" where
  "relay_workloads st = (if needs_relay st then [relay_deployment_name st] else [])"

lemma sound_ingress:
  "list_all2 (sound_gate (quiet w0 k st0 t)) (replay_ingress_boot_gates getenv ip6 st ns)
     (up w0 (ingress_workload st) # map (up w0) (relay_workloads st))"
  unfolding replay_ingress_boot_gates_def Let_def ingress_workload_def relay_workloads_def
    igris_deployment_ready_def relay_deployment_ready_def
  by (auto intro!: sound_progress sound_probe keeps_stack probe_up quiet_igris_rabbit_ready amqp_has_input)

lemma sound_replay:
  "list_all2 (sound_gate (quiet w0 k st0 t)) (replay_boot_gates getenv ip6 st ns env)
     ((\<forall>n \<in> set (dependency_workloads st). up w0 n) # up w0 shopName #
      (up w0 (ingress_workload st) # map (up w0) (relay_workloads st)) @
      [\<forall>role \<in> set ShadowRoles. up w0 (shadow_deployment_name st role)])"
proof -
  have deps: "holds (quiet w0 k st0 t) (shadow_dependencies_ready st)
      (\<lambda>r w. quiet w0 k st0 t w \<and> (fst r \<longrightarrow> (\<forall>n \<in> set (dependency_workloads st). up w0 n))) (quiet w0 k st0 t)"
    unfolding shadow_dependencies_ready_def
    by (rule holds_loose [OF quiet_all_ready]) (auto simp: dependency_workloads_def Let_def)
  have first: "sound_gate (quiet w0 k st0 t)
      ((gate ''waiting for shadow dependencies'' (reconcile_shadow_dependencies st)
         (probe_with (shadow_dependencies_ready st) (\<lambda>b c. c)))\<lparr>bg_skip := spec_dependencies (st_spec st) = []\<rparr>)
      (\<forall>n \<in> set (dependency_workloads st). up w0 n)"
    using sound_probe [OF keeps_dependencies [OF quiet_object] deps]
    by (auto simp: sound_gate_def gate_def dependency_workloads_def dependency_roles_def)
  have roles: "holds (quiet w0 k st0 t)
      (and_then (shadow_deployments_ready st) (\<lambda>(roles, reason). go (all_roles_ready roles, reason, cs_roles_update (\<lambda>_. roles))))
      (\<lambda>(ready, r) w. quiet w0 k st0 t w \<and> (ready \<longrightarrow> (\<forall>role \<in> set ShadowRoles. up w0 (shadow_deployment_name st role))))
      (quiet w0 k st0 t)"
    unfolding shadow_deployments_ready_def
    by (rule holds_and_then [OF quiet_roles_ready])
      (auto simp: all_roles_ready_def intro!: keeps_prod holds_go)
  have last: "sound_gate (quiet w0 k st0 t)
      ((gate ''waiting for shadow Deployments'' (reconcile_shadow_workload_resources getenv st ns env)
         (and_then (shadow_deployments_ready st)
           (\<lambda>(roles, reason). go (all_roles_ready roles, reason, cs_roles_update (\<lambda>_. roles)))))
        \<lparr>bg_step := BootStepProvisioningShadow\<rparr>)
      (\<forall>role \<in> set ShadowRoles. up w0 (shadow_deployment_name st role))"
    unfolding sound_gate_def gate_def using keeps_roles [OF quiet_object] roles by simp
  show ?thesis
    unfolding replay_boot_gates_def shop_deployment_ready_def
    using list_all2_appendI [OF sound_ingress [of w0 k st0 t getenv ip6 st ns]] last
    by (simp add: first sound_probe [OF keeps_sinks(2) probe_up])
qed

section \<open>What the operator needs before it says that a test is ready\<close>

definition needed_workloads :: "shadow_cr \<Rightarrow> string list" where
  "needed_workloads st =
     (if operating_mode st = OpReplay
      then replay_workload_names st @ dependency_workloads st
      else [localBeruName, shopName, ingress_workload st])"

lemma same_test_names:
  assumes "same_test st0 st"
  shows "needed_workloads st = needed_workloads st0" "needs_amqp_ingress st = needs_amqp_ingress st0"
    "replay_workload_names st = replay_workload_names st0" "ingress_workload st = ingress_workload st0"
  using same_testD [OF assms] same_test_mode [OF assms]
  by (simp_all add: needed_workloads_def replay_workload_names_def ingress_workload_def dependency_workloads_def
      dependency_roles_def needs_amqp_ingress_def is_amqp_only_def needs_relay_def has_rabbit_input_def
      has_rabbit_broker_dependency_def shadow_deployment_name_def igris_deployment_name_def
      igris_rabbit_deployment_name_def relay_deployment_name_def)

text \<open>The replay may start when the Deployments it needs have rolled out.\<close>

definition all_rolled_out :: "(string \<times> deployment) list \<Rightarrow> (string \<Rightarrow> dep_status) \<Rightarrow> string list \<Rightarrow> bool" where
  "all_rolled_out ds observed names \<longleftrightarrow>
     list_all (\<lambda>n. case map_of ds n of None \<Rightarrow> False | Some d \<Rightarrow> rolled_out d (observed n)) names"

lemma rolled_status [simp]: "status_free (\<lambda>w. all_rolled_out (cl_deployments w) (cl_observed w) names)"
  by (simp add: free_defs)

lemma keeps_roll_ready: "fault_free I \<Longrightarrow> keeps I (deployments_roll_ready names)"
  by (induction names) (auto intro!: step_rules keeps_fetch)

lemma quiet_roll_ready:
  "holds (quiet w0 k st0 t) (deployments_roll_ready names)
     (\<lambda>r w. quiet w0 k st0 t w \<and> (r \<longrightarrow> all_rolled_out (cl_deployments w) (cl_observed w) names)) (quiet w0 k st0 t)"
proof (induction names)
  case Nil
  show ?case by (simp add: holds_go all_rolled_out_def)
next
  case (Cons n names)
  let ?roll = "\<lambda>w. map_option (\<lambda>d. rolled_out d (cl_observed w n)) (map_of (cl_deployments w) n)"
  have "keeps (\<lambda>w. Some True = ?roll w) (deployments_roll_ready names)"
    by (rule keeps_roll_ready) (simp add: free_defs)
  note both = holds_conj [OF Cons.IH this]
  have more: "holds (\<lambda>w. quiet w0 k st0 t w \<and> Some True = ?roll w) (deployments_roll_ready names)
      (\<lambda>r w. quiet w0 k st0 t w \<and> (r \<longrightarrow> all_rolled_out (cl_deployments w) (cl_observed w) (n # names))) (quiet w0 k st0 t)"
    by (rule holds_mono [OF both]) (auto simp: all_rolled_out_def simp del: map_of_eq_Some_iff split: option.splits)
  show ?case
    unfolding deployments_roll_ready.simps
    apply (rule holds_and_then [OF holds_fetch], simp)
    apply (intro keeps_option holds_fail, simp)
    subgoal for r ready
      by (cases ready) (auto simp: more intro!: holds_go)
    done
qed

section \<open>Starting the replay\<close>

lemma keeps_patch: "status_free I \<Longrightarrow> keeps I (patch_status base st)"
  unfolding patch_status_def by (intro step_rules holds_api holds_change) (auto simp: status_free_def)

lemma keeps_core: "status_free I \<Longrightarrow> keeps I (patch_status_core fs st)"
  unfolding patch_status_core_def by (intro step_rules keeps_patch holds_change) (auto simp: status_free_def)

definition replay_posted :: "cluster \<Rightarrow> string \<Rightarrow> cluster" where
  "replay_posted w0 url = w0\<lparr>cl_replays := cl_replays w0 @ [url]\<rparr>"

text \<open>The start of a replay was posted, by a test that had none and whose workloads had rolled out.\<close>

definition begun :: "cluster \<Rightarrow> shadow_cr \<Rightarrow> bool \<Rightarrow> string \<Rightarrow> cluster \<Rightarrow> bool" where
  "begun w0 st0 t url w \<longleftrightarrow> quiet (replay_posted w0 url) False st0 t w \<and> operating_mode st0 = OpReplay \<and>
     trim_space (sta_replay_state (st_status st0)) = [] \<and>
     all_rolled_out (cl_deployments w) (cl_observed w) (replay_workload_names st0)"

lemma calm_forget: "calm k st0 st \<Longrightarrow> calm False st0 st"
  by (simp add: calm_def)

lemma begun_post:
  assumes "operating_mode st0 = OpReplay" "trim_space (sta_replay_state (st_status st0)) = []"
  shows "holds (\<lambda>w. quiet w0 True st0 t w \<and> all_rolled_out (cl_deployments w) (cl_observed w) (replay_workload_names st0))
    (replay_start_post url) (\<lambda>_. begun w0 st0 t url) (begun w0 st0 t url)"
  using assms
  by (auto simp: holds_def replay_start_post_def begun_def quiet_def replay_posted_def Let_def intro: calm_forget
      split: list.splits sum.splits)

lemma begun_lift:
  assumes "holds (\<lambda>w. quiet (replay_posted w0 url) False st0 t w \<and>
      all_rolled_out (cl_deployments w) (cl_observed w) (replay_workload_names st0)) m
    (\<lambda>x w. (quiet (replay_posted w0 url) False st0 t w \<and> R x) \<and>
      all_rolled_out (cl_deployments w) (cl_observed w) (replay_workload_names st0))
    (\<lambda>w. quiet (replay_posted w0 url) False st0 t w \<and>
      all_rolled_out (cl_deployments w) (cl_observed w) (replay_workload_names st0))"
  shows "holds (begun w0 st0 t url) m (\<lambda>x w. begun w0 st0 t url w \<and> R x) (begun w0 st0 t url)"
proof (cases "operating_mode st0 = OpReplay \<and> trim_space (sta_replay_state (st_status st0)) = []")
  case True
  then show ?thesis by (intro holds_mono [OF assms]) (auto simp: begun_def)
next
  case False
  then show ?thesis by (auto simp: holds_def begun_def)
qed

lemma begun_patch:
  assumes "calm False st0 st"
  shows "holds (begun w0 st0 t url) (patch_status base st) (\<lambda>st2 w. begun w0 st0 t url w \<and> calm False st0 st2) (begun w0 st0 t url)"
  by (rule begun_lift, rule holds_conj [OF quiet_patch [OF assms] keeps_patch [OF rolled_status]])

lemma begun_core:
  assumes "calm False st0 st" "\<forall>f \<in> set fs. harmless f"
  shows "keeps (begun w0 st0 t url) (patch_status_core fs st)"
proof -
  have "holds (begun w0 st0 t url) (patch_status_core fs st) (\<lambda>r w. begun w0 st0 t url w \<and> True) (begun w0 st0 t url)"
    by (rule begun_lift, rule holds_mono [OF holds_conj [OF keeps_patch_core [OF assms] keeps_core [OF rolled_status]]]) auto
  then show ?thesis by simp
qed

text \<open>What the trigger may return: nothing was posted, or the post is on record.\<close>

definition triggered :: "cluster \<Rightarrow> shadow_cr \<Rightarrow> bool \<Rightarrow> string \<Rightarrow> string option \<times> bool \<times> shadow_cr \<Rightarrow> cluster \<Rightarrow> bool" where
  "triggered w0 st0 t url r w \<longleftrightarrow>
     (case r of (err, again, st) \<Rightarrow>
        calm_and_quiet w0 True st0 t st w \<and>
          (err = None \<and> \<not> again \<and> operating_mode st0 = OpReplay \<longrightarrow> trim_space (sta_replay_state (st_status st0)) \<noteq> []) \<or>
        begun w0 st0 t url w \<and> calm False st0 st)"

lemma trigger:
  assumes "calm True st0 st"
  shows "holds (quiet w0 True st0 t) (maybe_trigger_replay st ns) (triggered w0 st0 t (replay_admin_url st ns))
    (\<lambda>w. quiet w0 True st0 t w \<or> begun w0 st0 t (replay_admin_url st ns) w)"
proof (cases "operating_mode st \<noteq> OpReplay \<or> trim_space (sta_replay_state (st_status st)) \<noteq> []")
  case True
  then show ?thesis
    unfolding maybe_trigger_replay_def using assms
    by (auto simp: triggered_def same_test_mode calm_def intro!: holds_go)
next
  case False
  have same: "same_test st0 st" using assms by (simp add: calm_def)
  have st0: "operating_mode st0 = OpReplay" "trim_space (sta_replay_state (st_status st0)) = []"
    using False assms same_test_mode [OF same] by (auto simp: calm_def)
  let ?st1 = "st\<lparr>st_status := (st_status st)\<lparr>sta_replay_state := ''started''\<rparr>\<rparr>"
  let ?url = "replay_admin_url st ns"
  let ?E = "\<lambda>w. quiet w0 True st0 t w \<or> begun w0 st0 t ?url w"
  have c1: "calm False st0 ?st1" using assms by (intro calm_status calm_forget) (auto simp: calm_def)
  have cs: "calm False st0 st" by (rule calm_forget [OF assms])
  have patched: "holds (begun w0 st0 t ?url)
      (on_error (and_then (patch_status (st_status st) ?st1) (\<lambda>st2. go (None, False, st2))) (\<lambda>e. go (Some e, True, ?st1)))
      (triggered w0 st0 t ?url) ?E"
    by (intro holds_on_error [where E' = "begun w0 st0 t ?url"] holds_and_then [OF begun_patch [OF c1]] holds_go)
      (auto simp: triggered_def c1)
  show ?thesis
    unfolding maybe_trigger_replay_def Let_def if_not_P [OF False]
    apply (rule holds_on_error [where E' = ?E])
      apply (rule holds_and_then [where R = "\<lambda>r w. quiet w0 True st0 t w \<and>
        (r \<longrightarrow> all_rolled_out (cl_deployments w) (cl_observed w) (replay_workload_names st0))"])
       apply (rule holds_mono [OF quiet_roll_ready [of w0 True st0 t "replay_workload_names st"]])
         apply (simp_all add: same_test_names [OF same])[3]
      apply (rule keeps_if, rule holds_go)
       apply (simp add: triggered_def assms)
      apply (rule holds_and_then [where R = "\<lambda>_. begun w0 st0 t ?url"])
       apply (rule holds_mono [OF begun_post [OF st0]])
         apply (auto)[1]
        apply assumption
       apply (rule disjI2, assumption)
      apply (rule keeps_if, rule holds_fail, simp)
      apply (rule patched [unfolded Let_def])
     apply (rule holds_go, simp add: triggered_def assms cs)
     apply blast
    done
qed

end
