(* ===== verification/MonarchOutcome.thy ===== *)
theory MonarchOutcome
  imports MonarchReady
begin

text \<open>
  The outcome of a whole pass, whatever calls fail in it: what it may have started, and what it means when the
  test is marked ready.
\<close>

section \<open>The outcome\<close>

definition sinks_up :: "cluster \<Rightarrow> shadow_cr \<Rightarrow> bool" where
  "sinks_up w st \<longleftrightarrow> operating_mode st \<noteq> OpReplay \<and> up w localBeruName \<and> up w shopName \<and> up w (ingress_workload st)"

definition needed_up :: "cluster \<Rightarrow> shadow_cr \<Rightarrow> bool" where
  "needed_up w st \<longleftrightarrow> (\<forall>n \<in> set (needed_workloads st). up w n)"

definition replay_allowed :: "cluster \<Rightarrow> shadow_cr \<Rightarrow> cluster \<Rightarrow> bool" where
  "replay_allowed w0 st w \<longleftrightarrow> operating_mode st = OpReplay \<and> trim_space (sta_replay_state (st_status st)) = [] \<and>
     needed_up w0 st \<and> all_rolled_out (cl_deployments w) (cl_observed w0) (replay_workload_names st)"

definition ready_justified :: "cluster \<Rightarrow> shadow_cr \<Rightarrow> cluster \<Rightarrow> bool" where
  "ready_justified w0 st w \<longleftrightarrow> needed_up w0 st \<and>
     (if operating_mode st = OpReplay
      then trim_space (sta_replay_state (st_status st)) \<noteq> [] \<or> cl_replays w \<noteq> cl_replays w0
      else cl_rule w \<noteq> None \<and> (needs_amqp_ingress st \<longrightarrow> cl_queue_bound w))"

definition pass_outcome :: "cluster \<Rightarrow> shadow_cr \<Rightarrow> cluster \<Rightarrow> bool" where
  "pass_outcome w0 st w \<longleftrightarrow>
     (cl_rule w = None \<or> cl_rule w = cl_rule w0 \<or> sinks_up w0 st) \<and>
     (cl_queue_bound w \<longrightarrow> cl_queue_bound w0 \<or> sinks_up w0 st \<and> cl_rule w \<noteq> None) \<and>
     (cl_replays w = cl_replays w0 \<or> (\<exists>url. cl_replays w = cl_replays w0 @ [url]) \<and> replay_allowed w0 st w) \<and>
     (\<forall>cr \<in> set_option (cl_cr w). sta_phase (st_status st) \<noteq> PhaseReady \<longrightarrow>
        sta_phase (st_status cr) = PhaseReady \<longrightarrow> ready_justified w0 st w)"

lemma outcome_quiet: "quiet w0 k st t w \<Longrightarrow> (t \<Longrightarrow> sinks_up w0 st) \<Longrightarrow> pass_outcome w0 st w"
  by (auto simp: quiet_def pass_outcome_def calm_def)

lemma outcome_begun: "begun w0 st t url w \<Longrightarrow> (t \<Longrightarrow> sinks_up w0 st) \<Longrightarrow> needed_up w0 st \<Longrightarrow> pass_outcome w0 st w"
  by (auto simp: begun_def quiet_def replay_posted_def pass_outcome_def calm_def replay_allowed_def)

text \<open>After the last write the phase is no longer known.\<close>

definition settled :: "cluster \<Rightarrow> bool \<Rightarrow> cluster \<Rightarrow> bool" where
  "settled w0 t w \<longleftrightarrow> cl_observed w = cl_observed w0 \<and> cl_replays w = cl_replays w0 \<and>
     (cl_queue_bound w \<longrightarrow> cl_queue_bound w0) \<and> (cl_rule w = None \<or> cl_rule w = cl_rule w0 \<or> t)"

lemma settled_quiet: "quiet w0 k st t w \<Longrightarrow> settled w0 t w"
  by (simp add: quiet_def settled_def)

lemma ends_finish:
  assumes "status_free I"
  shows "holds I (finish_ready st ns m targets kp boot) Q I"
  unfolding finish_ready_def patch_status_ready_def
  by (intro holds_and_then [OF keeps_core [OF assms]] keeps_prod keeps_option holds_fail holds_done)

lemma settled_status: "status_free (\<lambda>w. settled w0 t w \<and> P (cl_rule w) (cl_queue_bound w) (cl_deployments w))"
  by (simp add: free_defs settled_def)

section \<open>The record driver\<close>

lemma rule_written:
  "holds (quiet w0 k st0 True) (reconcile_kaisel_rule st ns) (\<lambda>_ w. quiet w0 k st0 True w \<and> cl_rule w \<noteq> None) (quiet w0 k st0 True)"
proof -
  have set_rule: "quiet w0 k st0 True w \<Longrightarrow> quiet w0 k st0 True (w\<lparr>cl_rule := x\<rparr>)" for w x
    by (simp add: quiet_def)
  have written: "holds (quiet w0 k st0 True)
      (and_then (fetch cl_rule) (\<lambda>r. case r of None \<Rightarrow> fail ''not found''
         | Some (spec, phase) \<Rightarrow> (if phase = ''Active'' then go () else call (\<lambda>w. w\<lparr>cl_rule := Some (spec, ''Active'')\<rparr>))))
      (\<lambda>_ w. quiet w0 k st0 True w \<and> cl_rule w \<noteq> None) (quiet w0 k st0 True)"
    by (rule holds_and_then [OF holds_fetch], simp, intro keeps_option keeps_prod keeps_if holds_fail holds_go)
      (auto simp: holds_def call_def and_then_def api_def change_def quiet_def split: api_fault.splits)
  show ?thesis
    unfolding reconcile_kaisel_rule_def
    apply (rule holds_and_then [OF keeps_wrap [OF keeps_list_pods]], simp)
    apply (rule keeps_Let)
    apply (rule holds_and_then [where R = "\<lambda>e w. quiet w0 k st0 True w \<and> (e \<noteq> None \<longrightarrow> cl_rule w \<noteq> None)"])
     apply (rule holds_on_error [where E' = "quiet w0 k st0 True"], rule holds_loose [OF holds_fetch], simp, simp)
      apply (rule holds_go, simp)
     apply assumption
    apply (rule keeps_if, rule holds_go)
     apply (auto split: option.splits)[1]
    apply (rule holds_and_then [where R = "\<lambda>_. quiet w0 k st0 True"])
     apply (rule holds_mono [OF keeps_fetch [where I = "quiet w0 k st0 True"]])
        apply simp_all[4]
    apply (rule holds_and_then [OF _ written])
    by (intro step_rules keeps_call set_rule) simp_all
qed

lemma queue_bound:
  assumes "needs_amqp_ingress st"
  shows "holds (\<lambda>w. quiet w0 k st0 True w \<and> cl_rule w \<noteq> None) (ensure_prod_queue_bound ip6 st)
    (\<lambda>_ w. quiet (w0\<lparr>cl_queue_bound := True\<rparr>) k st0 True w \<and> cl_rule w \<noteq> None \<and> cl_queue_bound w)
    (quiet w0 k st0 True)"
proof -
  have bound: "holds (\<lambda>w. quiet w0 k st0 True w \<and> cl_rule w \<noteq> None) (change (\<lambda>w. w\<lparr>cl_queue_bound := True\<rparr>))
    (\<lambda>_ w. quiet (w0\<lparr>cl_queue_bound := True\<rparr>) k st0 True w \<and> cl_rule w \<noteq> None \<and> cl_queue_bound w) E" for E
    by (rule holds_change) (simp add: quiet_def)
  have free: "fault_free (\<lambda>w. quiet w0 k st0 True w \<and> cl_rule w \<noteq> None)"
    by (simp add: free_defs quiet_def)
  show ?thesis
    unfolding ensure_prod_queue_bound_def
    using amqp_has_input [OF assms]
    apply (simp only: not_True_eq_False if_False)
    apply (rule holds_mono [OF holds_with_amqp [OF free, where Q = "\<lambda>_ w. quiet (w0\<lparr>cl_queue_bound := True\<rparr>) k st0 True w \<and>
        cl_rule w \<noteq> None \<and> cl_queue_bound w"]])
       apply (rule holds_then [OF keeps_open_broker [OF free]])
       apply (rule holds_and_then [OF holds_wrap [OF keeps_fetch [OF free]]])
       apply (rule keeps_if, rule bound)
       apply (rule holds_fail, assumption)
      apply assumption+
    apply (rule conjunct1, assumption)
    done
qed

lemma ends_quietly:
  "holds P m Q (quiet w0 k st0 False) \<Longrightarrow> holds P m Q (pass_outcome w0 st0)"
  "holds P m Q (quiet w0 k st0 True) \<Longrightarrow> sinks_up w0 st0 \<Longrightarrow> holds P m Q (pass_outcome w0 st0)"
  by (erule holds_mono; auto intro: outcome_quiet)+

text \<open>What record mode has reached when it goes on: the sinks are up, the rule is there, the queue is bound.\<close>

definition captured :: "cluster \<Rightarrow> shadow_cr \<Rightarrow> cluster \<Rightarrow> bool" where
  "captured w0 st0 w \<longleftrightarrow> settled (w0\<lparr>cl_queue_bound := True\<rparr>) True w \<and> cl_rule w \<noteq> None \<and>
     (needs_amqp_ingress st0 \<longrightarrow> cl_queue_bound w)"

lemma captured_status: "status_free (captured w0 st0)"
  by (simp add: free_defs captured_def settled_def)

lemma captured_quiet:
  "quiet w0 k st0 True w \<Longrightarrow> cl_rule w \<noteq> None \<Longrightarrow> \<not> needs_amqp_ingress st0 \<Longrightarrow> captured w0 st0 w"
  "quiet (w0\<lparr>cl_queue_bound := True\<rparr>) k st0 True w \<Longrightarrow> cl_rule w \<noteq> None \<Longrightarrow> cl_queue_bound w \<Longrightarrow> captured w0 st0 w"
  by (auto simp: captured_def settled_def quiet_def)

lemma captured_outcome: "captured w0 st0 w \<Longrightarrow> sinks_up w0 st0 \<Longrightarrow> pass_outcome w0 st0 w"
  by (auto simp: captured_def settled_def pass_outcome_def ready_justified_def needed_up_def needed_workloads_def sinks_up_def)

lemma record_bind:
  assumes "calm True st0 st" "sinks_up w0 st0"
  shows "holds (\<lambda>w. quiet w0 True st0 True w \<and> cl_rule w \<noteq> None)
    (if needs_amqp_ingress st
     then and_then (on_error (ensure_prod_queue_bound ip6 st) (\<lambda>e. mark_boot_failed ip6 st ns e boot))
            (\<lambda>_. go (st, targets, boot\<lparr>cs_amqp := True\<rparr>))
     else go (st, targets, boot))
    (\<lambda>_. captured w0 st0) (pass_outcome w0 st0)"
proof (cases "needs_amqp_ingress st")
  case True
  have "holds (\<lambda>w. quiet w0 True st0 True w \<and> cl_rule w \<noteq> None)
      (on_error (ensure_prod_queue_bound ip6 st) (\<lambda>e. mark_boot_failed ip6 st ns e boot))
      (\<lambda>_ w. quiet (w0\<lparr>cl_queue_bound := True\<rparr>) True st0 True w \<and> cl_rule w \<noteq> None \<and> cl_queue_bound w)
      (quiet w0 True st0 True)"
    by (rule holds_on_error [OF queue_bound [OF True] ends_failed [OF assms(1)]])
  note bound = ends_quietly(2) [OF this assms(2)]
  show ?thesis
    using True apply (simp only: if_True)
    apply (rule holds_and_then [OF bound], rule holds_go)
    apply (blast intro: captured_quiet(2))
    done
next
  case False
  moreover have "same_test st0 st" using assms(1) by (simp add: calm_def)
  ultimately show ?thesis by (auto simp: same_test_names intro!: holds_go captured_quiet(1))
qed

lemma record_capture:
  "holds (quiet w0 k st0 False) (reconcile_kaisel_capture st ns target)
     (\<lambda>r w. quiet w0 k st0 True w \<and> (fst r = None \<longrightarrow> cl_rule w \<noteq> None)) (quiet w0 k st0 True)"
proof (rule holds_weaker)
  show "holds (quiet w0 k st0 True) (reconcile_kaisel_capture st ns target)
     (\<lambda>r w. quiet w0 k st0 True w \<and> (fst r = None \<longrightarrow> cl_rule w \<noteq> None)) (quiet w0 k st0 True)"
    unfolding reconcile_kaisel_capture_def Let_def
    by (rule holds_on_error [where E' = "quiet w0 k st0 True"], rule holds_and_then [OF rule_written])
      (auto intro!: holds_go)
qed (auto intro: quiet_tapped)

lemma record_mode:
  assumes "calm True st0 st" "operating_mode st0 \<noteq> OpReplay" "up w0 localBeruName"
  shows "holds (quiet w0 True st0 False) (reconcile_record_mode getenv ip6 st ns target boot)
    (\<lambda>_ w. captured w0 st0 w \<and> sinks_up w0 st0) (pass_outcome w0 st0)"
  unfolding reconcile_record_mode_def
  apply (rule holds_and_then [where R = "calm_and_quiet w0 True st0 False"])
   apply (rule ends_quietly(1) [where k = True])
   apply (rule keeps_if)
    apply (rule holds_on_error [OF quiet_declared [OF assms(1)] ends_failed [OF assms(1)]], assumption)
   apply (rule holds_go, simp add: assms)
  apply (rule holds_pure)
  apply (rule holds_and_then [OF ends_quietly(1) [OF quiet_gates [OF sound_record]]], assumption)
  subgoal premises calm for st1 boot1
  proof (rule holds_pure)
    assume "\<forall>claim \<in> set [True, up w0 shopName, up w0 (ingress_workload st1)]. claim"
    moreover have "same_test st0 st1" using calm by (simp add: calm_def)
    ultimately have sinks: "sinks_up w0 st0"
      using assms by (simp add: sinks_up_def same_test_names)
    show "holds (quiet w0 True st0 False)
      (and_then (reconcile_kaisel_capture st1 ns target)
        (\<lambda>(err, targets). let boot = boot1\<lparr>cs_kaisel := (err = None)\<rparr> in
          case err of
            Some e \<Rightarrow> and_then (patch_boot_status PhaseProgressing (''waiting for KaiselRule: '' @ e) ns
                BootStepActivatingEgressTap boot st1) (\<lambda>_. done_with (After recordSinkRequeue))
          | None \<Rightarrow>
              (if needs_amqp_ingress st1
               then and_then (on_error (ensure_prod_queue_bound ip6 st1) (\<lambda>e. mark_boot_failed ip6 st1 ns e boot))
                 (\<lambda>_. go (st1, targets, boot\<lparr>cs_amqp := True\<rparr>))
               else go (st1, targets, boot))))
      (\<lambda>_ w. captured w0 st0 w \<and> sinks_up w0 st0) (pass_outcome w0 st0)"
      unfolding Let_def
      apply (rule holds_and_then [OF ends_quietly(2) [OF record_capture sinks]])
      subgoal for r
        apply (cases r, simp only: prod.case fst_conv)
        subgoal for err targets
          apply (cases err)
           apply (simp only: option.case simp_thms)
           apply (rule holds_loose [OF record_bind [OF calm sinks]], simp add: sinks)
          apply (simp only: option.case)
          apply (rule ends_quietly(2) [where k = True, OF _ sinks])
          apply (rule holds_weaker)
           apply (rule quiet_boot_then [OF calm], simp, rule holds_done, assumption)
          apply (rule conjunct1, assumption)
          done
        done
      done
  qed
  done

section \<open>The replay driver\<close>

text \<open>What replay mode has reached when it goes on: a replay that was started before, or one it has posted.\<close>

definition replaying :: "cluster \<Rightarrow> shadow_cr \<Rightarrow> string \<Rightarrow> cluster \<Rightarrow> bool" where
  "replaying w0 st0 url w \<longleftrightarrow>
     settled w0 False w \<and> trim_space (sta_replay_state (st_status st0)) \<noteq> [] \<or>
     settled (replay_posted w0 url) False w \<and> trim_space (sta_replay_state (st_status st0)) = [] \<and>
       all_rolled_out (cl_deployments w) (cl_observed w) (replay_workload_names st0)"

lemma replaying_status: "status_free (replaying w0 st0 url)"
  by (simp add: free_defs replaying_def settled_def)

lemma replaying_outcome:
  "replaying w0 st0 url w \<Longrightarrow> needed_up w0 st0 \<Longrightarrow> operating_mode st0 = OpReplay \<Longrightarrow> pass_outcome w0 st0 w"
  by (auto simp: replaying_def settled_def replay_posted_def pass_outcome_def ready_justified_def replay_allowed_def)

lemma ends_waiting:
  assumes "needed_up w0 st0"
  shows "holds (triggered w0 st0 False url (err, again, st))
    (and_then (patch_boot_status PhaseProgressing m ns bstep boot st) (\<lambda>_. done_with r)) Q (pass_outcome w0 st0)"
proof -
  let ?step = "and_then (patch_boot_status PhaseProgressing m ns bstep boot st) (\<lambda>_. done_with r)"
  have quiet: "calm True st0 st \<Longrightarrow> holds (quiet w0 True st0 False) ?step Q (pass_outcome w0 st0)"
    by (rule ends_quietly(1) [where k = True], rule quiet_boot_then, assumption, simp, rule holds_done, assumption)
  have begun: "calm False st0 st \<Longrightarrow> holds (begun w0 st0 False url) ?step Q (pass_outcome w0 st0)"
    unfolding patch_boot_status_def
    by (rule holds_mono [OF holds_and_then [OF begun_core holds_done]]) (auto intro: outcome_begun simp: assms)
  show ?thesis
    using quiet begun by (auto simp: holds_def triggered_def)
qed

lemma replay_mode:
  assumes "calm True st0 st" "operating_mode st0 = OpReplay" "up w0 localBeruName"
  shows "holds (quiet w0 True st0 False) (reconcile_replay_mode getenv ip6 st ns env boot)
    (\<lambda>_ w. replaying w0 st0 (replay_admin_url st ns) w \<and> needed_up w0 st0) (pass_outcome w0 st0)"
  unfolding reconcile_replay_mode_def
  apply (rule holds_and_then [OF ends_quietly(1) [OF quiet_gates [OF sound_replay assms(1)]]])
  subgoal for boot1
  proof (rule holds_pure)
    assume claims: "\<forall>claim \<in> set ((\<forall>n \<in> set (dependency_workloads st). up w0 n) # up w0 shopName #
      (up w0 (ingress_workload st) # map (up w0) (relay_workloads st)) @
      [\<forall>role \<in> set ShadowRoles. up w0 (shadow_deployment_name st role)]). claim"
    have same: "same_test st0 st" using assms(1) by (simp add: calm_def)
    have "needed_up w0 st"
      using claims assms(3) same_test_mode [OF same] assms(2)
      by (auto simp: needed_up_def needed_workloads_def replay_workload_names_def ingress_workload_def relay_workloads_def
          split: if_splits)
    then have needed: "needed_up w0 st0" using same by (simp add: needed_up_def same_test_names)
    show "holds (quiet w0 True st0 False)
      (and_then (maybe_trigger_replay st ns)
        (\<lambda>(err, again, st1).
            let wait = (\<lambda>message. and_then
                  (patch_boot_status PhaseProgressing message ns BootStepProvisioningShadow boot1 st1)
                  (\<lambda>_. done_with (After bootRequeueInterval)))
            in case err of
                 Some e \<Rightarrow> wait (''waiting to trigger replay: '' @ e)
               | None \<Rightarrow> if again then wait ''waiting to trigger replay'' else go (st1, boot1)))
      (\<lambda>_ w. replaying w0 st0 (replay_admin_url st ns) w \<and> needed_up w0 st0) (pass_outcome w0 st0)"
      unfolding Let_def
      apply (rule holds_and_then [where R = "triggered w0 st0 False (replay_admin_url st ns)"])
       apply (rule holds_mono [OF trigger [OF assms(1)]])
         apply assumption+
       apply (auto intro: outcome_quiet outcome_begun simp: needed)[1]
      subgoal for r
        apply (cases r, simp only: prod.case)
        apply (intro keeps_option keeps_if ends_waiting needed holds_go)
        apply (auto simp: triggered_def replaying_def needed begun_def assms(2) dest: settled_quiet)
        done
      done
  qed
  done

section \<open>The whole pass\<close>

lemma stack_outcome:
  assumes "calm True st0 st"
  shows "holds (quiet w0 True st0 False) (boot_stack getenv ip6 st ns target boot) (\<lambda>_. pass_outcome w0 st0) (pass_outcome w0 st0)"
  unfolding boot_stack_def
  apply (rule holds_and_then [OF ends_quietly(1) [OF quiet_gates [where claims = "[up w0 localBeruName]", OF _ assms]]])
   apply (simp add: sound_beru)
  subgoal for boot1
  proof (rule holds_pure)
    assume "\<forall>claim \<in> set [up w0 localBeruName]. claim"
    then have beru: "up w0 localBeruName" by simp
    have mode: "operating_mode st = operating_mode st0" using assms by (simp add: calm_def same_test_mode)
    show "holds (quiet w0 True st0 False)
      (let (env, warnMsg) = env_from_target target in
          if operating_mode st = OpReplay
          then and_then (reconcile_replay_mode getenv ip6 st ns env boot1)
            (\<lambda>(st1, boot). finish_ready st1 ns warnMsg None CapturePhaseDisabled boot)
          else and_then (reconcile_record_mode getenv ip6 st ns target boot1)
            (\<lambda>(st1, targets, boot).
               finish_ready st1 ns warnMsg (if targets = [] then None else Some targets) CapturePhaseReady boot))
      (\<lambda>_. pass_outcome w0 st0) (pass_outcome w0 st0)"
      unfolding Let_def
      apply (rule keeps_prod)
      apply (rule keeps_if)
      subgoal
        apply (rule holds_and_then [OF replay_mode [OF assms _ beru]], simp add: mode)
        apply (rule holds_pure, rule keeps_prod)
        by (rule holds_mono [OF ends_finish [OF replaying_status]]) (auto intro: replaying_outcome simp: mode)
      subgoal
        apply (rule holds_and_then [OF record_mode [OF assms _ beru]], simp add: mode)
        apply (rule holds_pure, rule keeps_prod, rule keeps_prod)
        by (rule holds_mono [OF ends_finish [OF captured_status]]) (auto intro: captured_outcome)
      done
  qed
  done

lemma pass_outcome_holds:
  assumes "cl_cr w0 = Some st0"
  shows "holds (\<lambda>w. w = w0) (reconcile_test getenv ip6) (\<lambda>_. pass_outcome w0 st0) (pass_outcome w0 st0)"
proof -
  have calm: "calm True st0 st0" by (simp add: calm_def)
  have start: "quiet w0 True st0 False w0" using assms calm by (simp add: quiet_def)
  have free: "fault_free (\<lambda>w. quiet w0 True st0 False w \<and> cl_cr w = Some st0)"
    by (simp add: free_defs quiet_def)
  have read: "holds (\<lambda>w. w = w0) (fetch cl_cr) (\<lambda>cr w. quiet w0 True st0 False w \<and> cr = Some st0) (quiet w0 True st0 False)"
    by (rule holds_mono [OF holds_fetch [OF free]]) (use start assms in auto)
  let ?ns = "shadow_namespace_for st0" and ?boot = "no_components\<lparr>cs_target := spec_target (st_spec st0)\<rparr>"
  have main: "holds (quiet w0 True st0 False)
      (and_then (resolve_target ip6 st0 ?ns ?boot)
        (\<lambda>(st1, target). and_then (prepare_namespace getenv st1 ?ns ?boot)
          (\<lambda>st2. let boot = ?boot\<lparr>cs_amqp := \<not> needs_amqp_ingress st2, cs_drivers := ingress_drivers_from_spec st2\<rparr>
             in and_then (enter_mode st2) (\<lambda>st3. boot_stack getenv ip6 st3 ?ns target boot))))
      (\<lambda>_. pass_outcome w0 st0) (pass_outcome w0 st0)"
    unfolding Let_def
    apply (rule holds_and_then [OF ends_quietly(1) [OF quiet_target [OF calm]]])
    apply (rule keeps_prod, simp only: fst_conv, rule holds_pure)
    apply (rule holds_and_then [OF ends_quietly(1) [OF quiet_prepare]], assumption, rule holds_pure)
    apply (rule holds_and_then [OF ends_quietly(1) [OF quiet_mode]], assumption, rule holds_pure)
    by (rule stack_outcome)
  have quietly: "holds (quiet w0 True st0 False) m (\<lambda>_. quiet w0 True st0 False) (quiet w0 True st0 False) \<Longrightarrow>
      holds (quiet w0 True st0 False) m (\<lambda>_. pass_outcome w0 st0) (pass_outcome w0 st0)" for m :: "unit step"
    by (rule holds_mono, assumption) (auto intro: outcome_quiet)
  show ?thesis
    unfolding reconcile_test_def
    apply (rule holds_and_then [OF ends_quietly(1) [OF read]], rule holds_pure)
    apply (simp only: option.case Let_def)
    apply (intro keeps_if)
       apply (rule quietly, rule quiet_delete)
      apply (rule quietly, rule holds_then [OF quiet_finalizers holds_done], assumption)
     apply (rule quietly, rule ends_sticky [OF calm])
    apply (rule keeps_option)
     apply (rule main [unfolded Let_def])
    apply (rule quietly, rule ends_stop [OF calm], rule holds_done, assumption)
    done
qed

end
