(* ===== verification/MonarchLive.thy ===== *)
theory MonarchLive
  imports MonarchOutcome
begin

text \<open>
  Progress: on a cluster where no call fails and every workload is available, one pass takes an HTTP test
  without dependencies all the way to the phase \<^verbatim>\<open>Ready\<close>.  A triple whose postcondition for ended passes is
  false says that the operation goes on.
\<close>

section \<open>Operations that go on\<close>

abbreviation sure :: "(cluster \<Rightarrow> bool) \<Rightarrow> 'a step \<Rightarrow> bool" where
  "sure I m \<equiv> holds I m (\<lambda>_. I) (\<lambda>_. False)"

definition faultless :: "(cluster \<Rightarrow> bool) \<Rightarrow> bool" where
  "faultless I \<longleftrightarrow> (\<forall>w. I w \<longrightarrow> cl_faults w = [])"

lemma faultless_steps:
  assumes "cl_faults w = []"
  shows "api w = (Go (), w)" "call f w = (Go (), f w)" "fetch g w = (Go (g w), w)" "fetch_namespace w = (Go (cl_ns w), w)"
proof -
  have [simp]: "w\<lparr>cl_faults := []\<rparr> = w" by (cases w) (use assms in simp)
  show "api w = (Go (), w)" "call f w = (Go (), f w)" "fetch g w = (Go (g w), w)" "fetch_namespace w = (Go (cl_ns w), w)"
    using assms
    by (simp_all add: api_def call_def fetch_def fetch_namespace_def and_then_def change_def read_def go_def next_fault_def)
qed

text \<open>
  The part of the cluster that progress rests on: no faults, workloads as observed, the secrets, the test, and
  the Deployments applied so far, none with more replicas than \<^term>\<open>R\<close>.
\<close>

definition alive :: "cluster \<Rightarrow> int \<Rightarrow> string list \<Rightarrow> cluster \<Rightarrow> bool" where
  "alive w0 R names w \<longleftrightarrow> cl_faults w = [] \<and> cl_observed w = cl_observed w0 \<and> cl_source_secrets w = cl_source_secrets w0 \<and>
     cl_start_replies w = cl_start_replies w0 \<and> cl_cr w \<noteq> None \<and>
     (\<forall>n d. map_of (cl_deployments w) n = Some d \<longrightarrow> dl_replicas d \<le> R) \<and>
     set names \<subseteq> dom (map_of (cl_deployments w))"

lemma alive_faultless [simp]: "faultless (alive w0 R ns)"
  by (simp add: faultless_def alive_def)

lemma alive_less: "alive w0 R ns w \<Longrightarrow> set ms \<subseteq> set ns \<Longrightarrow> alive w0 R ms w"
  by (auto simp: alive_def)

lemma alive_simps [simp]:
  "alive w0 R ns (w\<lparr>cl_services := s\<rparr>) = alive w0 R ns w" "alive w0 R ns (w\<lparr>cl_config_maps := c\<rparr>) = alive w0 R ns w"
  "alive w0 R ns (w\<lparr>cl_secrets := x\<rparr>) = alive w0 R ns w" "alive w0 R ns (w\<lparr>cl_rule := r\<rparr>) = alive w0 R ns w"
  "alive w0 R ns (w\<lparr>cl_ns := n\<rparr>) = alive w0 R ns w" "alive w0 R ns (w\<lparr>cl_role_binding := b\<rparr>) = alive w0 R ns w"
  "alive w0 R ns (w\<lparr>cl_published := p\<rparr>) = alive w0 R ns w" "alive w0 R ns (w\<lparr>cl_ids := i\<rparr>) = alive w0 R ns w"
  "alive w0 R ns (w\<lparr>cl_replays := rs\<rparr>) = alive w0 R ns w"
  by (simp_all add: alive_def)

named_theorems sure_rules

lemma sure_then [sure_rules]: "sure I m \<Longrightarrow> holds I n Q E \<Longrightarrow> holds I (and_then m (\<lambda>_. n)) Q E"
  by (rule holds_and_then [where R = "\<lambda>_. I"], erule holds_mono) auto

lemma sure_on_error [sure_rules]: "holds P m Q (\<lambda>_. False) \<Longrightarrow> holds P (on_error m h) Q E"
  by (rule holds_on_error [where E' = "\<lambda>_. False"]) (auto simp: holds_def)

lemma sure_wrap [sure_rules]: "holds P m Q (\<lambda>_. False) \<Longrightarrow> holds P (wrap_error p m) Q E"
  unfolding wrap_error_def by (rule sure_on_error)

lemma sure_fetch: "faultless I \<Longrightarrow> holds I (fetch f) (\<lambda>x w. I w \<and> x = f w) E"
  by (auto simp: holds_def faultless_def faultless_steps)

lemma sure_call: "faultless I \<Longrightarrow> (\<And>w. I w \<Longrightarrow> Q (f w)) \<Longrightarrow> holds I (call f) (\<lambda>_. Q) E"
  by (auto simp: holds_def faultless_def faultless_steps)

lemma sure_create:
  assumes "faultless I" "\<And>w new. I w \<Longrightarrow> I (put (AList.update name new (get w)) w)"
  shows "holds I (create_or_patch get put blank name edit) (\<lambda>_. I) E"
  using assms
  by (auto simp: holds_def create_or_patch_def and_then_def faultless_def faultless_steps go_def Let_def)

lemma sure_objects [sure_rules]:
  "sure (alive w0 R ns) (apply_service n e)" "sure (alive w0 R ns) (apply_config_map n e')" "sure (alive w0 R ns) (apply_secret n d)"
  unfolding apply_service_def apply_config_map_def apply_secret_def by (intro sure_create; simp)+

lemma sure_deployment:
  assumes "\<And>d. dl_replicas (e d) \<le> R"
  shows "holds (alive w0 R ns) (apply_deployment n e) (\<lambda>_. alive w0 R (n # ns)) (\<lambda>_. False)"
proof -
  have put: "alive w0 R ns w \<Longrightarrow> dl_replicas d \<le> R \<Longrightarrow> alive w0 R (n # ns) (w\<lparr>cl_deployments := AList.update n d (cl_deployments w)\<rparr>)" for w d
    by (auto simp: alive_def update_conv')
  have there: "alive w0 R ns w \<Longrightarrow> map_of (cl_deployments w) n = Some d \<Longrightarrow> alive w0 R (n # ns) w" for w d
    by (auto simp: alive_def)
  show ?thesis
    unfolding apply_deployment_def create_or_patch_def Let_def
    apply (rule holds_and_then [OF sure_fetch], simp)
    subgoal for old
      apply (rule keeps_if, rule holds_go)
       apply (force intro: there)
      apply (rule holds_weaker [OF sure_call [where I = "alive w0 R ns"]])
        apply (auto intro!: put assms)
      done
    done
qed

lemma sure_ready:
  assumes "n \<in> set ns" "up w0 n"
  shows "holds (alive w0 R ns) (deployment_boot_ready n component) (\<lambda>r w. r = (True, None) \<and> alive w0 R ns w) E"
  unfolding deployment_boot_ready_def
  apply (rule holds_and_then [OF sure_fetch], simp)
  apply (intro keeps_option)
   apply (use assms in \<open>auto simp: holds_def alive_def\<close>)[1]
  apply (rule holds_read)
  apply (use assms in \<open>auto simp: alive_def boot_verdict_def\<close>)
  done

section \<open>The workloads of an HTTP test\<close>

lemma sure_beru:
  "1 \<le> R \<Longrightarrow> holds (alive w0 R ns) (reconcile_local_beru getenv st) (\<lambda>_. alive w0 R (localBeruName # ns)) (\<lambda>_. False)"
  unfolding reconcile_local_beru_def
  by (intro sure_rules sure_deployment) (simp add: edit_local_beru_deployment_def)

lemma sure_shop:
  "1 \<le> R \<Longrightarrow> holds (alive w0 R ns) (reconcile_shop getenv st sns) (\<lambda>_. alive w0 R (shopName # ns)) (\<lambda>_. False)"
  unfolding reconcile_shop_def
  by (intro sure_rules sure_deployment) (simp add: edit_shop_deployment_def)

lemma sure_igris:
  assumes "\<not> needs_amqp_ingress st" "replicas_for (spec_igris (st_spec st)) \<le> R"
  shows "holds (alive w0 R ns) (reconcile_igris_stack getenv st sns) (\<lambda>_. alive w0 R (igris_deployment_name st # ns)) (\<lambda>_. False)"
  unfolding reconcile_igris_stack_def
  using assms
  by (auto simp: needs_http_ingress_def edit_igris_deployment_def intro!: sure_rules
      holds_and_then [OF sure_deployment])

text \<open>The addresses of Beru and Shop that the configuration of the sidecar is filled with are read back.\<close>

definition addresses_parse :: "string \<Rightarrow> bool" where
  "addresses_parse ns \<longleftrightarrow> parse_beru_host_port (beru_grpc_address_for ns) \<noteq> None \<and>
     parse_host_port (shop_grpc_address_for ns) \<noteq> None"

lemma sure_role:
  assumes "1 \<le> R" "addresses_parse sns"
  shows "holds (alive w0 R ns)
    (and_then (reconcile_envoy_config_map st sns role)
       (\<lambda>_. and_then (apply_deployment (shadow_deployment_name st role) (edit_shadow_deployment getenv st sns role img env))
          (\<lambda>_. apply_service (shadow_deployment_name st role) (edit_shadow_service st role))))
    (\<lambda>_. alive w0 R (shadow_deployment_name st role # ns)) (\<lambda>_. False)"
proof -
  obtain y where "render_envoy_yaml st sns role = Inr y"
    using assms(2) by (auto simp: addresses_parse_def render_envoy_yaml_def Let_def)
  then show ?thesis
    using assms(1)
    by (auto simp: reconcile_envoy_config_map_def edit_shadow_deployment_def shadowRoleReplicas_def Let_def
        intro!: sure_rules holds_and_then [OF sure_deployment])
qed

lemma sure_roles:
  assumes "1 \<le> R" "addresses_parse sns" "spec_old_image (st_spec st) \<noteq> []"
  shows "holds (alive w0 R ns) (reconcile_shadow_workload_resources getenv st sns env)
    (\<lambda>_. alive w0 R (map (shadow_deployment_name st) ShadowRoles @ ns)) (\<lambda>_. False)"
proof -
  have less: "alive w0 R (shadow_deployment_name st RoleCandidate # shadow_deployment_name st RoleControlB #
      shadow_deployment_name st RoleControlA # ns) w \<Longrightarrow> alive w0 R (map (shadow_deployment_name st) ShadowRoles @ ns) w" for w
    by (erule alive_less) (auto simp: ShadowRoles_def)
  show ?thesis
    unfolding reconcile_shadow_workload_resources_def role_images_def
    using assms(3)
    apply (simp only: if_False for_each.simps prod.case)
    apply (rule holds_and_then [OF sure_role [OF assms(1,2)]])
    apply (rule holds_and_then [OF sure_role [OF assms(1,2)]])
    apply (rule holds_and_then [OF sure_role [OF assms(1,2)]])
    by (rule holds_go, erule less)
qed

section \<open>Gates that open\<close>

lemma holds_given: "(c \<Longrightarrow> holds P m Q E) \<Longrightarrow> holds (\<lambda>w. c \<and> P w) m Q E"
  by (auto simp: holds_def)

lemma open_gate:
  assumes "\<not> bg_skip g" "holds P (bg_reconcile g) (\<lambda>_. I) (\<lambda>_. False)"
    "holds I (bg_probe g) (\<lambda>(ready, r) w. ready \<and> I w) (\<lambda>_. False)"
    "\<And>b. holds I (run_boot_gates ip6 st ns gates b) Q E"
  shows "holds P (run_boot_gates ip6 st ns (g # gates) boot) Q E"
  using assms(1)
  apply (simp only: run_boot_gates.simps if_False)
  apply (rule holds_and_then [where R = "\<lambda>_. I"])
   apply (rule sure_on_error [OF assms(2)])
  apply (rule holds_and_then [where R = "\<lambda>(ready, r) w. ready \<and> I w"])
   apply (rule holds_mono [OF assms(3)], simp_all)[1]
  apply (rule keeps_prod, rule keeps_prod, simp only: prod.case)
  using assms(4) by (auto simp: holds_def)

lemma sure_probe_with:
  "holds I m (\<lambda>r w. r = (True, None) \<and> J w) (\<lambda>_. False) \<Longrightarrow>
   holds I (probe_with m f) (\<lambda>(ready, r) w. ready \<and> J w) (\<lambda>_. False)"
  unfolding probe_with_def by (rule holds_and_then, assumption) (auto simp: holds_def go_def)

lemma sure_roles_ready:
  assumes "\<forall>n \<in> set names. shadow_deployment_name st n \<in> set ns \<and> up w0 (shadow_deployment_name st n)"
  shows "holds (alive w0 R ns) (roles_ready st names roles reason)
    (\<lambda>r w. (\<exists>extra. fst r = roles @ extra \<and> list_all snd extra \<and> (names \<noteq> [] \<longrightarrow> extra \<noteq> [])) \<and> alive w0 R ns w) E"
  using assms
proof (induction names arbitrary: roles reason)
  case Nil
  show ?case by (auto intro!: holds_go)
next
  case (Cons n names)
  have rest: "holds (alive w0 R ns) (roles_ready st names (roles @ [(n, True)]) reason)
    (\<lambda>r w. (\<exists>extra. fst r = roles @ extra \<and> list_all snd extra \<and> (n # names \<noteq> [] \<longrightarrow> extra \<noteq> [])) \<and> alive w0 R ns w) E"
    using Cons.prems by (intro holds_loose [OF Cons.IH]) auto
  show ?case
    unfolding roles_ready.simps Let_def
    apply (rule holds_and_then [OF sure_ready])
      apply (use Cons.prems in auto)[2]
    by (rule holds_given) (use rest in simp)
qed

lemma sure_record_gates:
  assumes "1 \<le> R" "\<not> needs_amqp_ingress st" "replicas_for (spec_igris (st_spec st)) \<le> R"
    "up w0 shopName" "up w0 (igris_deployment_name st)"
  shows "holds (alive w0 R ns) (run_boot_gates ip6 st sns (record_boot_gates getenv ip6 st sns) boot)
    (\<lambda>_. alive w0 R (igris_deployment_name st # shopName # ns)) (\<lambda>_. False)"
proof -
  let ?ns = "igris_deployment_name st # shopName # ns"
  have sinks: "holds (alive w0 R ns) (and_then (reconcile_shop getenv st sns) (\<lambda>_. reconcile_record_ingress_sinks getenv ip6 st sns))
      (\<lambda>_. alive w0 R ?ns) (\<lambda>_. False)"
    unfolding reconcile_record_ingress_sinks_def using assms
    by (auto simp: needs_http_ingress_def intro!: holds_and_then [OF sure_shop] sure_igris)
  have shop: "holds (alive w0 R ?ns) (probe_with shop_deployment_ready f) (\<lambda>(ready, r) w. ready \<and> alive w0 R ?ns w) (\<lambda>_. False)" for f
    unfolding shop_deployment_ready_def using assms by (intro sure_probe_with sure_ready) auto
  have igris: "holds (alive w0 R ?ns) (probe_with (record_ingress_sinks_ready st) f) (\<lambda>(ready, r) w. ready \<and> alive w0 R ?ns w) (\<lambda>_. False)" for f
    unfolding record_ingress_sinks_ready_def igris_deployment_ready_def using assms
    by (simp add: needs_http_ingress_def, intro sure_probe_with sure_ready) auto
  show ?thesis
    unfolding record_boot_gates_def gate_def
    by (rule open_gate [where I = "alive w0 R ?ns"], simp, simp add: sinks, simp add: holds_go,
        rule open_gate [where I = "alive w0 R ?ns"], simp, simp add: holds_go, simp add: shop,
        rule open_gate [where I = "alive w0 R ?ns"], simp, simp add: holds_go, simp add: igris, simp add: holds_go)
qed

lemma sure_beru_gate:
  assumes "1 \<le> R" "up w0 localBeruName"
  shows "holds (alive w0 R ns) (run_boot_gates ip6 st sns [local_beru_boot_gate getenv st] boot)
    (\<lambda>_. alive w0 R (localBeruName # ns)) (\<lambda>_. False)"
  unfolding local_beru_boot_gate_def gate_def local_beru_ready_def
  by (rule open_gate) (use assms in \<open>auto intro!: sure_beru sure_probe_with sure_ready holds_go\<close>)

lemma sure_replay_gates:
  assumes "1 \<le> R" "\<not> needs_amqp_ingress st" "\<not> needs_relay st" "spec_dependencies (st_spec st) = []"
    "replicas_for (spec_igris (st_spec st)) \<le> R" "addresses_parse sns" "spec_old_image (st_spec st) \<noteq> []"
    "\<forall>n \<in> set (replay_workload_names st). up w0 n"
  shows "holds (alive w0 R (localBeruName # ns)) (run_boot_gates ip6 st sns (replay_boot_gates getenv ip6 st sns env) boot)
    (\<lambda>_. alive w0 R (replay_workload_names st)) (\<lambda>_. False)"
proof -
  let ?beru = "localBeruName # ns" and ?shop = "shopName # localBeruName # ns"
  let ?igris = "igris_deployment_name st # shopName # localBeruName # ns"
  let ?all = "map (shadow_deployment_name st) ShadowRoles @ igris_deployment_name st # shopName # localBeruName # ns"
  have names: "replay_workload_names st = [localBeruName, shopName, igris_deployment_name st] @ map (shadow_deployment_name st) ShadowRoles"
    using assms by (simp add: replay_workload_names_def)
  have ups: "up w0 shopName" "up w0 (igris_deployment_name st)"
      "\<forall>n \<in> set ShadowRoles. shadow_deployment_name st n \<in> set ?all \<and> up w0 (shadow_deployment_name st n)"
    using assms(8) by (auto simp: names)
  have shop: "holds (alive w0 R ?shop) (probe_with shop_deployment_ready f) (\<lambda>(ready, r) w. ready \<and> alive w0 R ?shop w) (\<lambda>_. False)" for f
    unfolding shop_deployment_ready_def using ups by (intro sure_probe_with sure_ready) auto
  have igris: "holds (alive w0 R ?igris) (probe_with (igris_deployment_ready st) f) (\<lambda>(ready, r) w. ready \<and> alive w0 R ?igris w) (\<lambda>_. False)" for f
    unfolding igris_deployment_ready_def using ups by (intro sure_probe_with sure_ready) auto
  have roles: "holds (alive w0 R ?all)
      (and_then (shadow_deployments_ready st) (\<lambda>(roles, reason). go (all_roles_ready roles, reason, cs_roles_update (\<lambda>_. roles))))
      (\<lambda>(ready, r) w. ready \<and> alive w0 R ?all w) (\<lambda>_. False)"
    unfolding shadow_deployments_ready_def
    apply (rule holds_and_then [OF sure_roles_ready [OF ups(3)]])
    subgoal for r
      by (cases r) (auto simp: holds_def go_def all_roles_ready_def ShadowRoles_def)
    done
  have less: "alive w0 R ?all w \<Longrightarrow> alive w0 R (replay_workload_names st) w" for w
    by (erule alive_less) (auto simp: names)
  have gates: "run_boot_gates ip6 st sns (replay_boot_gates getenv ip6 st sns env) boot =
     run_boot_gates ip6 st sns
      [gate ''waiting for Shop'' (reconcile_shop getenv st sns) (probe_with shop_deployment_ready set_shop),
       gate ''waiting for Igris'' (reconcile_igris_stack getenv st sns) (probe_with (igris_deployment_ready st) set_igris),
       (gate ''waiting for shadow Deployments'' (reconcile_shadow_workload_resources getenv st sns env)
         (and_then (shadow_deployments_ready st)
           (\<lambda>(roles, reason). go (all_roles_ready roles, reason, cs_roles_update (\<lambda>_. roles)))))
        \<lparr>bg_step := BootStepProvisioningShadow\<rparr>] boot"
    using assms(2,3,4) by (simp add: replay_boot_gates_def replay_ingress_boot_gates_def Let_def)
  have finished: "holds (alive w0 R ?all) (run_boot_gates ip6 st sns [] b) (\<lambda>_. alive w0 R (replay_workload_names st)) (\<lambda>_. False)" for b
    by (simp only: run_boot_gates.simps, rule holds_go, erule less)
  show ?thesis
    unfolding gates
    apply (rule open_gate [where I = "alive w0 R ?shop"])
       apply (simp add: gate_def)
      apply (simp add: gate_def sure_shop assms(1))
     apply (simp add: gate_def shop)
    apply (rule open_gate [where I = "alive w0 R ?igris"])
       apply (simp add: gate_def)
      apply (simp add: gate_def sure_igris assms(2,5))
     apply (simp add: gate_def igris)
    apply (rule open_gate [where I = "alive w0 R ?all"])
       apply (simp add: gate_def)
      apply (simp only: gate_def boot_gate.simps sure_roles [OF assms(1,6,7)])
     apply (simp only: gate_def boot_gate.simps roles)
    apply (rule finished)
    done
qed

section \<open>The other operations of a pass\<close>

lemma sure_fetch_only: "sure (alive w0 R ns) (fetch f)"
  by (rule holds_loose [OF sure_fetch]) simp_all

lemma sure_list_pods: "sure (alive w0 R ns) list_pods_owned"
  unfolding list_pods_owned_def
  by (rule holds_and_then [where R = "\<lambda>_. alive w0 R ns"]; intro sure_wrap sure_fetch_only keeps_if holds_go)

lemma sure_rule: "sure (alive w0 R ns) (reconcile_kaisel_rule st sns)"
proof -
  let ?P = "alive w0 R ns"
  have set_rule: "sure ?P (call (\<lambda>w. w\<lparr>cl_rule := x\<rparr>))" for x
    by (rule sure_call) simp_all
  have mark: "holds (\<lambda>w. ?P w \<and> cl_rule w \<noteq> None)
      (and_then (fetch cl_rule) (\<lambda>r. case r of None \<Rightarrow> fail ''not found''
         | Some (spec, phase) \<Rightarrow> (if phase = ''Active'' then go () else call (\<lambda>w. w\<lparr>cl_rule := Some (spec, ''Active'')\<rparr>))))
      (\<lambda>_. ?P) (\<lambda>_. False)"
    by (auto simp: holds_def and_then_def faultless_steps go_def alive_def split: option.splits)
  have put: "holds ?P
      (and_then (fetch cl_rule)
         (\<lambda>found. case found of
            Some (old, phase) \<Rightarrow> (if old = new then go () else call (\<lambda>w. w\<lparr>cl_rule := Some (new, phase)\<rparr>))
          | None \<Rightarrow> call (\<lambda>w. w\<lparr>cl_rule := Some (new, [])\<rparr>)))
      (\<lambda>_ w. ?P w \<and> cl_rule w \<noteq> None) (\<lambda>_. False)" for new
    by (auto simp: holds_def and_then_def faultless_steps go_def alive_def split: option.splits)
  have assoc: "and_then m (\<lambda>x. and_then (f x) g) = and_then (and_then m f) g" for m :: "'x step" and f :: "'x \<Rightarrow> unit step" and g :: "unit \<Rightarrow> unit step"
    by (auto simp: and_then_def fun_eq_iff split: outcome.splits prod.splits)
  show ?thesis
    unfolding reconcile_kaisel_rule_def Let_def
    apply (rule holds_and_then [where R = "\<lambda>_. ?P"], intro sure_wrap sure_list_pods)
    apply (rule holds_and_then [where R = "\<lambda>_. ?P"], intro sure_on_error sure_fetch_only)
    apply (rule keeps_if, rule holds_go, assumption)
    apply (subst assoc)
    apply (rule holds_and_then [OF put mark])
    done
qed

lemma sure_capture:
  "holds (alive w0 R ns) (reconcile_kaisel_capture st sns target) (\<lambda>r w. fst r = None \<and> alive w0 R ns w) (\<lambda>_. False)"
  unfolding reconcile_kaisel_capture_def Let_def
  by (intro sure_on_error sure_then sure_rule holds_go) simp

lemma sure_patch: "sure (alive w0 R ns) (patch_status base st)"
  by (auto simp: holds_def patch_status_def and_then_def faultless_steps read_def change_def go_def Let_def alive_def
      split: option.splits)

lemma sure_mint: "sure (alive w0 R ns) (mint p)"
  by (auto simp: holds_def mint_def alive_def split: list.splits)

lemma sure_session:
  assumes "operating_mode st = OpReplay \<longrightarrow>
    trim_space (spec_session (st_spec st)) \<noteq> [] \<or> trim_space (sta_session (st_status st)) \<noteq> []"
  shows "holds (alive w0 R ns) (ensure_session_id st) (\<lambda>r w. fst r = None \<and> alive w0 R ns w) (\<lambda>_. False)"
  unfolding ensure_session_id_def Let_def
  by (intro keeps_if holds_go sure_on_error holds_and_then [OF sure_patch] holds_and_then [OF sure_mint])
    (use assms in auto)

lemma sure_execution: "sure (alive w0 R ns) (ensure_replay_execution_id st)"
  unfolding ensure_replay_execution_id_def
  by (intro keeps_if holds_go holds_and_then [OF sure_mint] sure_patch)

lemma sure_clear: "sure (alive w0 R ns) (clear_replay_state st)"
  unfolding clear_replay_state_def by (intro keeps_if holds_go sure_patch)

lemma sure_rbac:
  "validate_shadow_namespace_name name = None \<Longrightarrow> sure (alive w0 R ns) (ensure_shadow_namespace_rbac getenv name)"
  unfolding ensure_shadow_namespace_rbac_def Let_def
  by (simp, rule holds_and_then [OF sure_fetch_only], intro keeps_if holds_go sure_call) simp_all

lemma sure_delete:
  "sure (alive w0 R []) (delete_deployment n)" "sure (alive w0 R ns) (delete_service n)"
  unfolding delete_deployment_def delete_service_def
  by (intro sure_call; auto simp: alive_def delete_conv')+

lemma sure_each: "(\<And>x. sure I (f x)) \<Longrightarrow> sure I (for_each f xs)"
  by (induction xs) (auto intro: holds_go sure_then)

lemma sure_delete_roles: "sure (alive w0 R []) (delete_shadow_role_workloads st)"
  unfolding delete_shadow_role_workloads_def
  by (intro holds_and_then [OF sure_fetch_only] sure_then sure_each sure_delete)

lemma sure_mode: "sure (alive w0 R []) (enter_mode st)"
proof -
  have rule: "sure (alive w0 R []) delete_kaisel_rule"
    unfolding delete_kaisel_rule_def by (rule sure_call) simp_all
  show ?thesis
    unfolding enter_mode_def
    by (intro keeps_if holds_and_then [OF sure_clear] sure_then sure_delete_roles holds_go rule sure_execution)
qed

text \<open>The secrets the test refers to are there.\<close>

definition secrets_there :: "(string \<Rightarrow> string) \<Rightarrow> shadow_cr \<Rightarrow> cluster \<Rightarrow> bool" where
  "secrets_there getenv st w \<longleftrightarrow>
     (case beru_db_secret_ref getenv of
        Inl e \<Rightarrow> False
      | Inr ref \<Rightarrow> map_of (cl_source_secrets w) ref \<noteq> None) \<and>
     (case spec_storage (st_spec st) of
        None \<Rightarrow> True
      | Some cfg \<Rightarrow>
          (let name = (case sg_secret cfg of None \<Rightarrow> [] | Some n \<Rightarrow> trim_space n)
           in name = [] \<or> map_of (cl_source_secrets w) (st_namespace st, name) \<noteq> None))"

lemma sure_secrets:
  assumes "secrets_there getenv st w0"
  shows "sure (alive w0 R ns) (sync_storage_secret st)" "sure (alive w0 R ns) (sync_beru_db_secret getenv)"
proof -
  have copy: "sure (alive w0 R ns)
      (and_then (wrap_error p (fetch (\<lambda>w. map_of (cl_source_secrets w) key)))
         (\<lambda>src. case src of None \<Rightarrow> fail e | Some data \<Rightarrow> apply_secret name data))"
    if "map_of (cl_source_secrets w0) key = Some d" for key d p e name
  proof (rule holds_and_then)
    show "holds (alive w0 R ns) (wrap_error p (fetch (\<lambda>w. map_of (cl_source_secrets w) key)))
        (\<lambda>x w. x = Some d \<and> alive w0 R ns w) (\<lambda>_. False)"
      by (rule sure_wrap, rule holds_loose [OF sure_fetch]) (use that in \<open>simp_all add: alive_def\<close>)
    show "holds (\<lambda>w. src = Some d \<and> alive w0 R ns w)
        (case src of None \<Rightarrow> fail e | Some data \<Rightarrow> apply_secret name data) (\<lambda>_. alive w0 R ns) (\<lambda>_. False)" for src
      by (rule holds_given) (simp add: sure_objects)
  qed
  obtain key where key: "beru_db_secret_ref getenv = Inr key" "map_of (cl_source_secrets w0) key \<noteq> None"
    using assms by (auto simp: secrets_there_def split: sum.splits)
  then show "sure (alive w0 R ns) (sync_beru_db_secret getenv)"
    by (cases key) (auto simp: sync_beru_db_secret_def simp del: map_of_eq_None_iff intro: copy)
  show "sure (alive w0 R ns) (sync_storage_secret st)"
    using assms
    by (auto simp: sync_storage_secret_def secrets_there_def Let_def holds_go simp del: map_of_eq_None_iff
        split: option.splits intro: copy)
qed

section \<open>The end of a pass\<close>

definition ample :: "cluster \<Rightarrow> int \<Rightarrow> string \<Rightarrow> bool" where
  "ample w R n \<longleftrightarrow> up w n \<and> R \<le> ds_ready (cl_observed w n) \<and> ds_updated (cl_observed w n) = ds_total (cl_observed w n) \<and>
     R \<le> ds_total (cl_observed w n)"

definition accepted :: "(string + int) list \<Rightarrow> bool" where
  "accepted replies \<longleftrightarrow> (case replies of Inr code # _ \<Rightarrow> 200 \<le> code \<and> code < 300 \<or> code = 409 | _ \<Rightarrow> False)"

lemma sure_rolled:
  assumes "set names \<subseteq> set ns" "\<forall>n \<in> set names. ample w0 R n" "1 \<le> R"
  shows "holds (alive w0 R ns) (deployments_roll_ready names) (\<lambda>r w. r \<and> alive w0 R ns w) (\<lambda>_. False)"
  using assms(1,2)
proof (induction names)
  case Nil
  show ?case by (simp add: holds_go)
next
  case (Cons n names)
  have here: "alive w0 R ns w \<Longrightarrow> \<exists>d. map_of (cl_deployments w) n = Some d \<and> rolled_out d (cl_observed w n)" for w
    using Cons.prems assms(3) by (fastforce simp: alive_def ample_def rolled_out_def Let_def)
  show ?case
    unfolding deployments_roll_ready.simps
    apply (rule holds_and_then [where R = "\<lambda>r w. r = Some True \<and> alive w0 R ns w"])
     apply (rule holds_loose [OF sure_fetch], simp)
     apply (use here in force)
    apply (rule holds_given, simp)
    using Cons by simp
qed

definition going :: "cluster \<Rightarrow> bool" where
  "going w \<longleftrightarrow> cl_faults w = [] \<and> cl_cr w \<noteq> None"

lemma sure_trigger:
  assumes "set (replay_workload_names st) \<subseteq> set ns" "\<forall>n \<in> set (replay_workload_names st). ample w0 R n" "1 \<le> R"
    "accepted (cl_start_replies w0)"
  shows "holds (alive w0 R ns) (maybe_trigger_replay st sns) (\<lambda>r w. fst r = None \<and> \<not> fst (snd r) \<and> going w) (\<lambda>_. False)"
proof -
  obtain code rest where replies: "cl_start_replies w0 = Inr code # rest" "200 \<le> code \<and> code < 300 \<or> code = 409"
    using assms(4) by (auto simp: accepted_def split: list.splits sum.splits)
  have patched: "holds going (patch_status base st1) (\<lambda>_. going) (\<lambda>_. False)" for base st1
    by (auto simp: holds_def patch_status_def and_then_def faultless_steps read_def change_def go_def Let_def going_def
        split: option.splits)
  have post: "holds (alive w0 R ns) (replay_start_post url) (\<lambda>c w. c = code \<and> going w) (\<lambda>_. False)" for url
    using replies by (auto simp: holds_def replay_start_post_def alive_def going_def Let_def)
  show ?thesis
    unfolding maybe_trigger_replay_def Let_def
    apply (rule keeps_if, rule holds_go, simp add: alive_def going_def)
    apply (rule sure_on_error)
    apply (rule holds_and_then [OF sure_rolled [OF assms(1,2,3)]], rule holds_given, simp)
    apply (rule holds_and_then [OF post], rule holds_given)
    using replies(2)
    by (auto intro!: sure_on_error holds_and_then [OF patched] holds_go)
qed

lemma sure_finish:
  assumes "sta_phase (st_status st) \<noteq> PhaseReady"
  shows "holds going (finish_ready st sns warnMsg targets kp boot) Q
    (\<lambda>w. \<exists>cr. cl_cr w = Some cr \<and> sta_phase (st_status cr) = PhaseReady)"
proof -
  let ?fs = "[status_base (st_generation st) PhaseReady (ready_message st warnMsg kp) sns,
      status_extras targets kp (snd (igris_endpoint_of st sns)) (fst (igris_endpoint_of st sns)), status_boot BootStepReady boot]"
  have ready: "sta_phase (fold (\<lambda>f. f) ?fs s) = PhaseReady" for s
    by (simp add: status_base_def status_extras_def status_boot_def Let_def)
  then have new: "fold (\<lambda>f. f) ?fs (st_status st) \<noteq> st_status st"
    using assms by metis
  show ?thesis
    unfolding finish_ready_def patch_status_ready_def patch_status_core_def
    using new ready assms
    by (auto simp: holds_def and_then_def on_error_def patch_status_def faultless_steps read_def change_def go_def
        done_with_def Let_def going_def merge_status_def merged_def simp del: fold_simps split: option.splits)
qed

section \<open>The whole pass\<close>

text \<open>
  A cluster on which a pass can succeed: nothing fails, the test is valid and has not ended, its namespace is free
  or its own, what it refers to is there, and every workload it needs is available and has rolled out.
\<close>

definition can_boot :: "(string \<Rightarrow> string) \<Rightarrow> (string \<Rightarrow> bool) \<Rightarrow> cluster \<Rightarrow> shadow_cr \<Rightarrow> target_deployment \<Rightarrow> int \<Rightarrow> bool" where
  "can_boot getenv ip6 w st target R \<longleftrightarrow>
     cl_faults w = [] \<and> cl_cr w = Some st \<and> cl_target w = Some target \<and>
     \<not> st_deleting st \<and> finalizerName \<in> set (st_finalizers st) \<and> s3Finalizer \<in> set (st_finalizers st) \<and>
     sta_phase (st_status st) \<noteq> PhaseFailed \<and> sta_phase (st_status st) \<noteq> PhaseReady \<and>
     validate_test ip6 st = None \<and> \<not> isl (resolve_spec_defaults st target) \<and> spec_old_image (st_spec st) \<noteq> [] \<and>
     length (shadow_namespace_for st) \<le> 63 \<and> validate_shadow_namespace_name (shadow_namespace_for st) = None \<and>
     (case cl_ns w of None \<Rightarrow> True | Some ns \<Rightarrow> \<not> ns_terminating ns \<and> ns_uid ns = st_uid st) \<and>
     secrets_there getenv st w \<and> addresses_parse (shadow_namespace_for st) \<and>
     \<not> needs_amqp_ingress st \<and> \<not> needs_relay st \<and> spec_dependencies (st_spec st) = [] \<and>
     1 \<le> R \<and> replicas_for (spec_igris (st_spec st)) \<le> R \<and>
     list_all (\<lambda>(n, d). dl_replicas d \<le> R) (cl_deployments w) \<and> list_all (ample w R) (needed_workloads st) \<and>
     (operating_mode st = OpReplay \<longrightarrow> accepted (cl_start_replies w))"

lemma validated_session:
  "validate_test ip6 st = None \<Longrightarrow> operating_mode st = OpReplay \<Longrightarrow>
   trim_space (spec_session (st_spec st)) \<noteq> [] \<or> trim_space (sta_session (st_status st)) \<noteq> []"
  by (auto simp: validate_test_def validate_storage_def Let_def split: option.splits if_splits)

lemma both:
  assumes "holds (quiet w0 True st0 False) m (\<lambda>r w. quiet w0 True st0 False w \<and> c r) (quiet w0 True st0 False)"
    "holds (alive w0 R ns) m (\<lambda>r w. d r \<and> alive w0 R ns' w) (\<lambda>_. False)"
    "\<And>r. c r \<Longrightarrow> d r \<Longrightarrow> holds (\<lambda>w. quiet w0 True st0 False w \<and> alive w0 R ns' w) (f r) Q E"
  shows "holds (\<lambda>w. quiet w0 True st0 False w \<and> alive w0 R ns w) (and_then m f) Q E"
proof (rule holds_and_then [where R = "\<lambda>r w. (c r \<and> d r) \<and> quiet w0 True st0 False w \<and> alive w0 R ns' w"])
  show "holds (\<lambda>w. quiet w0 True st0 False w \<and> alive w0 R ns w) m
      (\<lambda>r w. (c r \<and> d r) \<and> quiet w0 True st0 False w \<and> alive w0 R ns' w) E"
    by (rule holds_mono [OF holds_conj [OF assms(1,2)]]) auto
  show "holds (\<lambda>w. (c r \<and> d r) \<and> quiet w0 True st0 False w \<and> alive w0 R ns' w) (f r) Q E" for r
    by (rule holds_given) (simp add: assms(3))
qed

lemma both_keep:
  assumes "holds (quiet w0 True st0 False) m (\<lambda>_. quiet w0 True st0 False) (quiet w0 True st0 False)"
    "holds (alive w0 R ns) m (\<lambda>_. alive w0 R ns') (\<lambda>_. False)"
    "\<And>r. holds (\<lambda>w. quiet w0 True st0 False w \<and> alive w0 R ns' w) (f r) Q E"
  shows "holds (\<lambda>w. quiet w0 True st0 False w \<and> alive w0 R ns w) (and_then m f) Q E"
  by (rule both [where c = "\<lambda>_. True" and d = "\<lambda>_. True" and ns' = ns']) (simp_all add: assms)

lemma record_goes:
  assumes "1 \<le> R" "\<not> needs_amqp_ingress st" "replicas_for (spec_igris (st_spec st)) \<le> R"
    "up w0 shopName" "up w0 (igris_deployment_name st)"
  shows "holds (alive w0 R ns) (reconcile_record_mode getenv ip6 st sns target boot) (\<lambda>r w. fst r = st \<and> going w) (\<lambda>_. False)"
  unfolding reconcile_record_mode_def if_not_P [OF assms(2)]
  apply (rule holds_and_then [where R = "\<lambda>s w. s = st \<and> alive w0 R ns w"], rule holds_go, simp)
  apply (rule holds_given, simp only:)
  apply (rule holds_and_then [OF sure_record_gates [OF assms]])
  apply (rule holds_and_then [OF sure_capture])
  apply (rule keeps_prod, simp only: fst_conv, rule holds_given)
  apply (simp add: assms Let_def)
  by (rule holds_go) (simp add: alive_def going_def)

lemma replay_goes:
  assumes "calm True st0 st" "1 \<le> R" "\<not> needs_amqp_ingress st" "\<not> needs_relay st" "spec_dependencies (st_spec st) = []"
    "replicas_for (spec_igris (st_spec st)) \<le> R" "addresses_parse sns" "spec_old_image (st_spec st) \<noteq> []"
    "\<forall>n \<in> set (replay_workload_names st). ample w0 R n" "accepted (cl_start_replies w0)"
    "sta_phase (st_status st0) \<noteq> PhaseReady"
  shows "holds (\<lambda>w. quiet w0 True st0 False w \<and> alive w0 R (localBeruName # ns) w)
    (reconcile_replay_mode getenv ip6 st sns env boot)
    (\<lambda>r w. sta_phase (st_status (fst r)) \<noteq> PhaseReady \<and> going w) (\<lambda>_. False)"
proof -
  have ups: "\<forall>n \<in> set (replay_workload_names st). up w0 n" using assms(9) by (simp add: ample_def)
  have calm: "calm k st0 s \<Longrightarrow> sta_phase (st_status s) \<noteq> PhaseReady" for k s
    using assms(11) by (simp add: calm_def)
  have post: "holds (\<lambda>w. quiet w0 True st0 False w \<and> alive w0 R (replay_workload_names st) w) (maybe_trigger_replay st sns)
      (\<lambda>r w. (fst r = None \<and> \<not> fst (snd r) \<and> sta_phase (st_status (snd (snd r))) \<noteq> PhaseReady) \<and> going w) (\<lambda>_. False)"
    by (rule holds_mono [OF holds_conj [OF trigger [OF assms(1)] sure_trigger [OF _ assms(9,2,10)]]])
      (auto simp: triggered_def calm)
  show ?thesis
    unfolding reconcile_replay_mode_def Let_def
    apply (rule both_keep [OF holds_loose [OF quiet_gates [OF sound_replay assms(1)]]
          sure_replay_gates [OF assms(2-8) ups]], simp)
    apply (rule holds_and_then [OF post])
    apply (intro keeps_prod holds_given)
    apply (auto intro!: holds_go)
    done
qed

lemma boots:
  assumes "can_boot getenv ip6 w0 st0 target R"
  shows "holds (\<lambda>w. w = w0) (reconcile_test getenv ip6) (\<lambda>_ _. False)
    (\<lambda>w. \<exists>cr. cl_cr w = Some cr \<and> sta_phase (st_status cr) = PhaseReady)"
proof -
  let ?E = "\<lambda>w. \<exists>cr. cl_cr w = Some cr \<and> sta_phase (st_status cr) = PhaseReady"
  let ?ns = "shadow_namespace_for st0" and ?boot = "no_components\<lparr>cs_target := spec_target (st_spec st0)\<rparr>"
  let ?P = "\<lambda>ns w. quiet w0 True st0 False w \<and> alive w0 R ns w"
  note b = assms [unfolded can_boot_def]
  have none: "cl_faults w0 = []" using b by simp
  obtain st1 where st1: "resolve_spec_defaults st0 target = Inr st1" using b by (cases "resolve_spec_defaults st0 target") auto
  have calm0: "calm True st0 st0" by (simp add: calm_def)
  have calm1: "calm True st0 st1" by (rule resolve_same [OF st1 calm0])
  have start: "quiet w0 True st0 False w0" "alive w0 R [] w0"
    using b calm0 by (auto simp: quiet_def alive_def list_all_iff dest!: map_of_SomeD)
  have stack: "holds (?P []) (boot_stack getenv ip6 st ?ns target boot) (\<lambda>_ _. False) ?E" if c: "calm True st0 st" for st boot
  proof -
    have same: "same_test st0 st" using c by (simp add: calm_def)
    have facts: "1 \<le> R" "\<not> needs_amqp_ingress st" "replicas_for (spec_igris (st_spec st)) \<le> R"
        "spec_dependencies (st_spec st) = []" "spec_old_image (st_spec st) \<noteq> []" "addresses_parse ?ns"
        "operating_mode st = operating_mode st0"
      using b c same_testD [OF same] same_test_names [OF same] same_test_mode [OF same] by (auto simp: calm_def)
    have names: "\<forall>n \<in> set (needed_workloads st). ample w0 R n"
      using b by (simp add: same_test_names [OF same] list_all_iff)
    have beru: "ample w0 R localBeruName"
      using names by (auto simp: needed_workloads_def replay_workload_names_def split: if_splits)
    have finish: "sta_phase (st_status s) \<noteq> PhaseReady \<Longrightarrow>
        holds going (finish_ready s ?ns m ts kp bt) (\<lambda>_ _. False) ?E" for s m ts kp bt
      by (rule sure_finish)
    have phase: "sta_phase (st_status st) \<noteq> PhaseReady" "sta_phase (st_status st0) \<noteq> PhaseReady" using c b by (auto simp: calm_def)
    have relay: "\<not> needs_relay st"
      using b same_testD [OF same] by (simp add: needs_relay_def has_rabbit_input_def has_rabbit_broker_dependency_def)
    show ?thesis
      unfolding boot_stack_def Let_def
      apply (rule both_keep [OF holds_loose [OF quiet_gates [where claims = "[up w0 localBeruName]", OF _ c]] sure_beru_gate [OF facts(1)]])
         apply (simp add: sound_beru)
        apply simp
       apply (use beru in \<open>simp add: ample_def\<close>)
      apply (rule keeps_prod, rule keeps_if)
      subgoal
        apply (rule holds_and_then [where R = "\<lambda>r w. sta_phase (st_status (fst r)) \<noteq> PhaseReady \<and> going w"])
         apply (rule holds_mono [OF replay_goes [OF c facts(1,2) relay facts(4,3,6,5)]])
              apply (use names facts b phase in \<open>simp_all add: needed_workloads_def\<close>)[6]
        apply (rule keeps_prod, simp only: fst_conv, rule holds_given, erule finish)
        done
      subgoal
        apply (rule holds_and_then [where R = "\<lambda>r w. fst r = st \<and> going w"])
         apply (rule holds_mono [OF record_goes [OF facts(1,2,3), of w0 "localBeruName # []"]])
             apply (use names facts in \<open>simp_all add: needed_workloads_def ingress_workload_def ample_def\<close>)[5]
        apply (intro keeps_prod, simp only: fst_conv, rule holds_given)
        apply (simp only:, rule finish [OF phase(1)])
        done
      done
  qed
  have uid: "st_uid st1 = st_uid st0" using calm1 by (simp add: calm_def same_test_def)
  have there: "secrets_there getenv st w0" if "calm True st0 st" for st
  proof -
    have "same_test st0 st" using that by (simp add: calm_def)
    note same = same_testD(6,7) [OF this]
    have "secrets_there getenv st w0 = secrets_there getenv st0 w0"
      unfolding secrets_there_def same ..
    then show ?thesis using b by simp
  qed
  have owned: "holds (\<lambda>w. w = w0) (ensure_shadow_namespace getenv st1 ?ns) (\<lambda>c w. c = None \<and> ?P [] w) ?E"
  proof -
    have bind: "holds (alive w0 R []) (bind_if_owned getenv ?ns None) (\<lambda>c w. c = None \<and> alive w0 R [] w) (\<lambda>_. False)"
      using b unfolding bind_if_owned_def by (simp, intro holds_and_then [OF sure_rbac] holds_go) simp_all
    have total: "holds (\<lambda>w. w = w0) (ensure_shadow_namespace getenv st1 ?ns) (\<lambda>c w. c = None \<and> alive w0 R [] w) (\<lambda>_. False)"
    proof (cases "cl_ns w0")
      case None
      have "ensure_shadow_namespace getenv st1 ?ns w0 =
          bind_if_owned getenv ?ns None (w0\<lparr>cl_ns := Some \<lparr>ns_uid = st_uid st1, ns_terminating = False\<rparr>\<rparr>)"
        using b None by (simp add: ensure_shadow_namespace_def and_then_def faultless_steps [OF none] change_def)
      then show ?thesis using bind start(2) by (simp add: holds_def)
    next
      case (Some ns)
      have "ensure_shadow_namespace getenv st1 ?ns w0 = bind_if_owned getenv ?ns None w0"
        using b Some uid
        by (simp add: ensure_shadow_namespace_def and_then_def faultless_steps [OF none] validate_existing_namespace_def go_def)
      then show ?thesis using bind start(2) by (simp add: holds_def)
    qed
    show ?thesis
      by (rule holds_mono [OF holds_conj [OF quiet_namespace [of w0 True st0 False] total]]) (use start in auto)
  qed
  have prepare: "holds (\<lambda>w. w = w0) (prepare_namespace getenv st1 ?ns ?boot) (\<lambda>st w. calm True st0 st \<and> ?P [] w) ?E"
  proof -
    have secrets: "holds (?P []) (and_then (on_error (sync_storage_secret st) (\<lambda>e. stop_failed e ?ns ?boot st (fail e)))
        (\<lambda>_. and_then (on_error (sync_beru_db_secret getenv) (\<lambda>e. stop_failed e ?ns ?boot st (fail e))) (\<lambda>_. go st)))
        (\<lambda>st w. calm True st0 st \<and> ?P [] w) ?E"
      if c: "calm True st0 st" for st
    proof -
      have give: "keeps (quiet w0 True st0 False) (stop_failed m ?ns ?boot st (fail e) :: unit step)" for m e
        by (rule ends_stop [OF c], rule holds_fail, assumption)
      have q: "keeps (quiet w0 True st0 False) (on_error (sync_storage_secret st) (\<lambda>e. stop_failed e ?ns ?boot st (fail e)))"
          "keeps (quiet w0 True st0 False) (on_error (sync_beru_db_secret getenv) (\<lambda>e. stop_failed e ?ns ?boot st (fail e)))"
        by (intro keeps_on_error keeps_secrets give; simp)+
      note s = sure_secrets [OF there [OF c], THEN sure_on_error]
      show ?thesis
        by (intro both_keep [OF q(1) s(1)] both_keep [OF q(2) s(2)] holds_go) (simp add: c)
    qed
    have session: "operating_mode st1 = OpReplay \<longrightarrow>
      trim_space (spec_session (st_spec st1)) \<noteq> [] \<or> trim_space (sta_session (st_status st1)) \<noteq> []"
    proof -
      have "spec_session (st_spec st1) = spec_session (st_spec st0)" "st_status st1 = st_status st0"
        using st1 by (auto simp: resolve_spec_defaults_def Let_def split: sum.splits if_splits)
      then show ?thesis
        using validated_session [of ip6 st0] b calm1 same_test_mode [of st0 st1] by (simp add: calm_def)
    qed
    show ?thesis
      using b unfolding prepare_namespace_def
      apply (simp only: not_less [symmetric] if_False)
      apply (rule holds_and_then [OF owned], rule holds_given, simp only: option.case)
      apply (rule both [OF quiet_session [OF calm1] sure_session [OF session]])
      subgoal for c r
        by (cases r) (simp add: secrets)
      done
  qed
  have main: "holds (\<lambda>w. w = w0)
      (and_then (resolve_target ip6 st0 ?ns ?boot)
        (\<lambda>(st1, target). and_then (prepare_namespace getenv st1 ?ns ?boot)
          (\<lambda>st2. and_then (enter_mode st2)
             (\<lambda>st3. boot_stack getenv ip6 st3 ?ns target
                (?boot\<lparr>cs_amqp := \<not> needs_amqp_ingress st2, cs_drivers := ingress_drivers_from_spec st2\<rparr>)))))
      (\<lambda>_ _. False) ?E"
  proof -
    have "resolve_target ip6 st0 ?ns ?boot w0 = (Go (st1, target), w0)"
      using b st1 calm1
      by (auto simp: resolve_target_def and_then_def faultless_steps [OF none] ensure_old_image_def on_error_def go_def calm_def)
    then have "holds (\<lambda>w. w = w0) (resolve_target ip6 st0 ?ns ?boot) (\<lambda>r w. r = (st1, target) \<and> w = w0) ?E"
      by (simp add: holds_def)
    then show ?thesis
      apply (rule holds_and_then)
      apply (rule holds_given, simp only: prod.case)
      apply (rule holds_and_then [OF prepare], rule holds_given)
      apply (rule both [OF quiet_mode, where d = "\<lambda>_. True" and ns' = "[]"])
        apply assumption
       apply (rule holds_loose [OF sure_mode], simp)
      apply (rule stack, assumption)
      done
  qed
  have "reconcile_test getenv ip6 w0 = and_then (resolve_target ip6 st0 ?ns ?boot)
        (\<lambda>(st1, target). and_then (prepare_namespace getenv st1 ?ns ?boot)
          (\<lambda>st2. and_then (enter_mode st2)
             (\<lambda>st3. boot_stack getenv ip6 st3 ?ns target
                (?boot\<lparr>cs_amqp := \<not> needs_amqp_ingress st2, cs_drivers := ingress_drivers_from_spec st2\<rparr>)))) w0"
    using b by (simp add: reconcile_test_def and_then_def [of "fetch cl_cr"] faultless_steps [OF none] Let_def)
  then show ?thesis using main by (simp add: holds_def)
qed

end
