(* ===== verification/MonarchOwned.thy ===== *)
theory MonarchOwned
  imports MonarchReady
begin

text \<open>
  Ownership: objects of the shadow namespace are written only by a pass that has seen the namespace carry the
  identity of its own test.
\<close>

section \<open>Invariants of the shared operations\<close>

text \<open>An invariant that no write of a pass to the test, the broker or the rule, and no teardown, can break.\<close>

definition pass_closed :: "(cluster \<Rightarrow> bool) \<Rightarrow> bool" where
  "pass_closed I \<longleftrightarrow> status_free I \<and> broker_free I \<and> rule_free I \<and> teardown_closed I \<and>
     (\<forall>w x. I (w\<lparr>cl_replays := x\<rparr>) = I w) \<and> (\<forall>w x. I (w\<lparr>cl_start_replies := x\<rparr>) = I w) \<and>
     (\<forall>w x. I (w\<lparr>cl_s3_deleted := x\<rparr>) = I w) \<and> (\<forall>w x. I (w\<lparr>cl_role_binding := x\<rparr>) = I w)"

lemma closedD:
  assumes "pass_closed I"
  shows "status_free I" "teardown_closed I" "fault_free I" "broker_free I" "rule_free I"
  using assms by (simp_all only: pass_closed_def freeD simp_thms)

lemma closed_status [simp]:
  assumes "pass_closed I"
  shows "I (w\<lparr>cl_cr := y\<rparr>) = I w" "I (w\<lparr>cl_published := p\<rparr>) = I w" "I (w\<lparr>cl_events := x\<rparr>) = I w"
    "I (w\<lparr>cl_ids := z\<rparr>) = I w" "I (w\<lparr>cl_queue := q\<rparr>) = I w" "I (w\<lparr>cl_queue_bound := b\<rparr>) = I w"
    "I (w\<lparr>cl_rule := r\<rparr>) = I w" "I (w\<lparr>cl_replays := rs\<rparr>) = I w" "I (w\<lparr>cl_start_replies := ss\<rparr>) = I w"
    "I (w\<lparr>cl_s3_deleted := d\<rparr>) = I w" "I (w\<lparr>cl_role_binding := rb\<rparr>) = I w"
proof -
  note st = closedD(1) [OF assms, unfolded status_free_def] and br = closedD(4) [OF assms, unfolded broker_free_def]
    and ru = closedD(5) [OF assms, unfolded rule_free_def] and all = assms [unfolded pass_closed_def]
  show "I (w\<lparr>cl_cr := y\<rparr>) = I w" by (rule st [THEN conjunct2, THEN conjunct1, THEN spec, THEN spec])
  show "I (w\<lparr>cl_published := p\<rparr>) = I w" by (rule st [THEN conjunct2, THEN conjunct2, THEN conjunct1, THEN spec, THEN spec])
  show "I (w\<lparr>cl_events := x\<rparr>) = I w" by (rule st [THEN conjunct2, THEN conjunct2, THEN conjunct2, THEN conjunct1, THEN spec, THEN spec])
  show "I (w\<lparr>cl_ids := z\<rparr>) = I w" by (rule st [THEN conjunct2, THEN conjunct2, THEN conjunct2, THEN conjunct2, THEN spec, THEN spec])
  show "I (w\<lparr>cl_queue := q\<rparr>) = I w" by (rule br [THEN conjunct2, THEN conjunct1, THEN spec, THEN spec])
  show "I (w\<lparr>cl_queue_bound := b\<rparr>) = I w" by (rule br [THEN conjunct2, THEN conjunct2, THEN spec, THEN spec])
  show "I (w\<lparr>cl_rule := r\<rparr>) = I w" by (rule ru [THEN conjunct2, THEN spec, THEN spec])
  show "I (w\<lparr>cl_replays := rs\<rparr>) = I w" by (rule all [THEN conjunct2, THEN conjunct2, THEN conjunct2, THEN conjunct2, THEN conjunct1, THEN spec, THEN spec])
  show "I (w\<lparr>cl_start_replies := ss\<rparr>) = I w" by (rule all [THEN conjunct2, THEN conjunct2, THEN conjunct2, THEN conjunct2, THEN conjunct2, THEN conjunct1, THEN spec, THEN spec])
  show "I (w\<lparr>cl_s3_deleted := d\<rparr>) = I w" by (rule all [THEN conjunct2, THEN conjunct2, THEN conjunct2, THEN conjunct2, THEN conjunct2, THEN conjunct2, THEN conjunct1, THEN spec, THEN spec])
  show "I (w\<lparr>cl_role_binding := rb\<rparr>) = I w" by (rule all [THEN conjunct2, THEN conjunct2, THEN conjunct2, THEN conjunct2, THEN conjunct2, THEN conjunct2, THEN conjunct2, THEN spec, THEN spec])
qed

lemma closed_ns: "pass_closed I \<Longrightarrow> I w \<Longrightarrow> I (w\<lparr>cl_ns := map_option (ns_terminating_update (\<lambda>_. True)) (cl_ns w)\<rparr>)"
  by (rule closedD(2) [unfolded teardown_closed_def, THEN conjunct2, THEN conjunct2, THEN conjunct2, THEN spec, THEN mp])

lemma closed_queue: "pass_closed I \<Longrightarrow> I w \<Longrightarrow> I (w\<lparr>cl_queue := q, cl_queue_bound := b\<rparr>)"
  by simp

lemma shared_failed: "pass_closed I \<Longrightarrow> holds I (mark_boot_failed ip6 st ns m boot) Q I"
  unfolding mark_boot_failed_def emit_event_def
  by (intro holds_and_then [OF keeps_core] keeps_prod holds_then holds_change ends_teardown) (auto dest: closedD)

lemma shared_stop:
  "pass_closed I \<Longrightarrow> holds I after Q I \<Longrightarrow> holds I (stop_failed m ns boot st after) Q I"
  unfolding stop_failed_def patch_boot_status_def
  by (intro holds_and_then [OF keeps_core]) (auto dest: closedD)

lemma shared_target: "pass_closed I \<Longrightarrow> keeps I (resolve_target ip6 st ns boot)"
  unfolding resolve_target_def ensure_old_image_def
  by (intro step_rules keeps_fetch keeps_call shared_failed) (auto dest: closedD)

lemma shared_session: "pass_closed I \<Longrightarrow> keeps I (ensure_session_id st)"
  unfolding ensure_session_id_def Let_def by (intro step_rules keeps_mint keeps_patch) (auto dest: closedD)

lemma shared_execution: "pass_closed I \<Longrightarrow> keeps I (ensure_replay_execution_id st)"
  unfolding ensure_replay_execution_id_def by (intro step_rules keeps_mint keeps_patch) (auto dest: closedD)

lemma shared_clear: "pass_closed I \<Longrightarrow> keeps I (clear_replay_state st)"
  unfolding clear_replay_state_def by (intro step_rules keeps_patch) (auto dest: closedD)

lemma shared_s3: "pass_closed I \<Longrightarrow> keeps I (cleanup_s3_if_needed st)"
  unfolding cleanup_s3_if_needed_def default_s3_cleaner_def s3_config_from_shadow_test_def Let_def
  by (intro step_rules keeps_fetch keeps_call) (simp_all add: closedD)

lemma shared_remove: "pass_closed I \<Longrightarrow> keeps I remove_finalizers"
  unfolding remove_finalizers_def by (intro step_rules keeps_fetch keeps_call) (simp_all add: closedD)

lemma shared_delete_ns: "pass_closed I \<Longrightarrow> holds I (delete_shadow_namespace ns x) Q I"
  unfolding delete_shadow_namespace_def
  by (intro holds_then step_rules keeps_call) (simp_all add: closedD closed_ns)

lemma shared_queue: "pass_closed I \<Longrightarrow> keeps I (delete_prod_queue ip6 st)"
  and shared_rule: "pass_closed I \<Longrightarrow> keeps I delete_kaisel_rule"
  by (rule keeps_delete_queue, simp_all add: closedD, rule keeps_delete_rule, simp_all add: closedD)

lemma shared_publish: "pass_closed I \<Longrightarrow> keeps I (publish_deleted st)"
  unfolding publish_deleted_def by (rule holds_change) simp

lemma shared_core: "pass_closed I \<Longrightarrow> keeps I (patch_status_core fs st)"
  by (simp add: keeps_core closedD)

lemma shared_delete: "pass_closed I \<Longrightarrow> holds I (reconcile_delete ip6 ns) Q I"
  unfolding reconcile_delete_def
  by (intro holds_and_then [OF keeps_fetch] keeps_option keeps_if holds_done holds_fail holds_and_then [OF shared_core] keeps_prod
      holds_then [OF shared_queue] holds_then [OF shared_rule] holds_and_then [OF keeps_fetch_ns]
      shared_delete_ns holds_then [OF shared_s3] holds_then [OF shared_remove] holds_then [OF shared_publish])
    (simp_all add: closedD)

section \<open>Writing to one's own namespace\<close>

definition objects :: "cluster \<Rightarrow> (string \<times> deployment) list \<times> (string \<times> service) list \<times> (string \<times> config_map) list \<times> (string \<times> (string \<times> string) list) list" where
  "objects w = (cl_deployments w, cl_services w, cl_config_maps w, cl_secrets w)"

definition owned_by :: "string \<Rightarrow> cluster \<Rightarrow> bool" where
  "owned_by uid w \<longleftrightarrow> (case cl_ns w of None \<Rightarrow> False | Some ns \<Rightarrow> ns_uid ns = uid)"

lemma untouched_closed: "pass_closed (\<lambda>w. objects w = os)"
  by (simp add: pass_closed_def free_defs teardown_closed_def objects_def)

lemma owned_closed: "pass_closed (owned_by uid)"
  by (simp add: pass_closed_def free_defs teardown_closed_def owned_by_def split: option.splits)

lemma owned_object [simp]: "object_free (owned_by uid)"
  by (simp add: free_defs owned_by_def)

section \<open>The gates and the drivers keep the owner\<close>

definition steady_gate :: "(cluster \<Rightarrow> bool) \<Rightarrow> boot_gate \<Rightarrow> bool" where
  "steady_gate I g \<longleftrightarrow> keeps I (bg_reconcile g) \<and> keeps I (bg_probe g)"

lemma keeps_gates:
  assumes "pass_closed I" "list_all (steady_gate I) gates"
  shows "keeps I (run_boot_gates ip6 st ns gates boot)"
  using assms(2)
proof (induction gates arbitrary: boot)
  case Nil
  show ?case by (simp add: holds_go)
next
  case (Cons g gates)
  then show ?case
    using assms(1)
    by (auto simp: steady_gate_def patch_boot_status_def wait_at_gate_def
        intro!: step_rules keeps_core shared_failed dest: closedD)
qed

lemma keeps_boot_probe: "fault_free I \<Longrightarrow> keeps I (deployment_boot_ready name component)"
  by (rule holds_loose [OF keeps_boot_ready]) auto

lemma keeps_all_ready: "fault_free I \<Longrightarrow> keeps I (all_ready names)"
  by (induction names rule: all_ready.induct) (auto intro!: step_rules keeps_boot_probe)

lemma keeps_roles_ready: "fault_free I \<Longrightarrow> keeps I (roles_ready st names roles reason)"
  by (induction names arbitrary: roles reason) (auto intro!: step_rules keeps_boot_probe)

lemma keeps_probe_with: "keeps I m \<Longrightarrow> keeps I (probe_with m f)"
  unfolding probe_with_def by (intro step_rules)

lemmas keeps_probes = keeps_boot_probe keeps_all_ready keeps_roles_ready keeps_probe_with

lemmas probe_defs = igris_rabbit_deployment_ready_def igris_deployment_ready_def relay_deployment_ready_def
  local_beru_ready_def shop_deployment_ready_def shadow_dependencies_ready_def shadow_deployments_ready_def
  record_ingress_sinks_ready_def

lemma steady_gate_I:
  "keeps I rec \<Longrightarrow> keeps I probe \<Longrightarrow> steady_gate I (gate m rec probe)"
  "steady_gate I g \<Longrightarrow> steady_gate I (g\<lparr>bg_progress := fs\<rparr>)"
  "steady_gate I g \<Longrightarrow> steady_gate I (g\<lparr>bg_requeue := n\<rparr>)"
  "steady_gate I g \<Longrightarrow> steady_gate I (g\<lparr>bg_skip := b\<rparr>)"
  "steady_gate I g \<Longrightarrow> steady_gate I (g\<lparr>bg_step := s\<rparr>)"
  by (simp_all add: steady_gate_def gate_def)

lemma steady_record:
  assumes "pass_closed I" "object_free I"
  shows "steady_gate I (local_beru_boot_gate getenv st)" "list_all (steady_gate I) (record_boot_gates getenv ip6 st ns)"
  unfolding local_beru_boot_gate_def record_boot_gates_def probe_defs list.pred_inject
  by (intro conjI steady_gate_I step_rules keeps_stack keeps_ingress_sinks keeps_probes TrueI assms; simp add: assms closedD)+

lemma steady_replay:
  assumes "pass_closed I" "object_free I"
  shows "list_all (steady_gate I) (replay_boot_gates getenv ip6 st ns env)"
proof -
  have ingress: "list_all (steady_gate I) (replay_ingress_boot_gates getenv ip6 st ns)"
    unfolding replay_ingress_boot_gates_def Let_def probe_defs list.pred_inject
    by (cases "needs_amqp_ingress st"; cases "needs_relay st"; simp only: if_True if_False list.pred_inject;
        intro conjI steady_gate_I step_rules keeps_stack keeps_probes TrueI assms; simp add: assms closedD)
  show ?thesis
    unfolding replay_boot_gates_def list_all_append list.pred_inject probe_defs
    by (intro conjI ingress steady_gate_I step_rules keeps_stack keeps_probes TrueI assms; simp add: assms closedD)
qed

lemma shared_bound: "pass_closed I \<Longrightarrow> keeps I (ensure_prod_queue_bound ip6 st)"
  unfolding ensure_prod_queue_bound_def
  by (intro step_rules keeps_with_amqp keeps_open_broker keeps_fetch holds_change) (simp_all add: closedD)

lemma shared_declared: "pass_closed I \<Longrightarrow> keeps I (ensure_prod_queue_declared ip6 st)"
  unfolding ensure_prod_queue_declared_def queue_declare_def
  by (intro step_rules keeps_with_amqp keeps_open_broker keeps_call keeps_patch) (simp_all add: closedD closed_queue)

section \<open>The drivers\<close>

lemma shared_mode:
  assumes "pass_closed I" "object_free I"
  shows "keeps I (enter_mode st)"
  unfolding enter_mode_def
  by (intro step_rules shared_clear shared_rule shared_execution keeps_stack assms)

lemma shared_capture:
  assumes "pass_closed I"
  shows "keeps I (reconcile_kaisel_capture st ns target)"
  unfolding reconcile_kaisel_capture_def
  by (intro step_rules keeps_rule) (simp_all add: assms closedD)

lemma shared_boot: "pass_closed I \<Longrightarrow> keeps I (patch_boot_status phase m ns bstep boot st)"
  unfolding patch_boot_status_def by (rule shared_core)

lemma shared_record:
  assumes "pass_closed I" "object_free I"
  shows "keeps I (reconcile_record_mode getenv ip6 st ns target boot)"
  unfolding reconcile_record_mode_def
  by (intro step_rules shared_declared shared_failed keeps_gates steady_record shared_capture shared_boot shared_bound assms)

lemma shared_post: "pass_closed I \<Longrightarrow> keeps I (replay_start_post url)"
  by (auto simp: holds_def replay_start_post_def Let_def split: list.splits sum.splits)

lemma shared_trigger:
  assumes "pass_closed I"
  shows "keeps I (maybe_trigger_replay st ns)"
  unfolding maybe_trigger_replay_def
  by (intro step_rules keeps_roll_ready shared_post keeps_patch) (simp_all add: assms closedD)

lemma shared_replay:
  assumes "pass_closed I" "object_free I"
  shows "keeps I (reconcile_replay_mode getenv ip6 st ns env boot)"
  unfolding reconcile_replay_mode_def Let_def
  by (intro step_rules keeps_gates steady_replay shared_trigger shared_boot assms)

lemma shared_stack:
  assumes "pass_closed I" "object_free I"
  shows "keeps I (boot_stack getenv ip6 st ns target boot)"
proof -
  have beru: "list_all (steady_gate I) [local_beru_boot_gate getenv st]"
    using steady_record(1) [OF assms] by simp
  show ?thesis
    unfolding boot_stack_def finish_ready_def patch_status_ready_def
    by (intro step_rules keeps_gates beru shared_replay shared_record shared_core assms)
qed

section \<open>The owner is checked first\<close>

lemma fetched_ns:
  "fault_free I \<Longrightarrow> holds I fetch_namespace (\<lambda>r w. I w \<and> (\<forall>ns \<in> set_option r. cl_ns w = Some ns)) I"
  by (auto simp: holds_def fetch_namespace_def and_then_def api_def go_def free_defs split: api_fault.splits)

definition untouched_or_owned :: "shadow_cr \<Rightarrow> (string \<times> deployment) list \<times> (string \<times> service) list \<times> (string \<times> config_map) list \<times> (string \<times> (string \<times> string) list) list \<Rightarrow> cluster \<Rightarrow> bool" where
  "untouched_or_owned st os w \<longleftrightarrow> objects w = os \<or> owned_by (st_uid st) w"

lemma keeps_bind_owned:
  assumes "pass_closed I" shows "keeps I (bind_if_owned getenv name c)"
  unfolding bind_if_owned_def
  by (intro step_rules keeps_rbac) (simp_all add: assms closedD)

lemma bind_owned:
  "holds (owned_by uid) (bind_if_owned getenv name None) (\<lambda>c w. c = None \<and> owned_by uid w) (owned_by uid)"
  unfolding bind_if_owned_def
  by (simp, rule holds_and_then [OF keeps_rbac])
    (simp_all add: closedD [OF owned_closed] closed_status [OF owned_closed] holds_go)

lemma validated_owned:
  "holds (\<lambda>w. objects w = os \<and> cl_ns w = Some ns)
     (and_then (validate_existing_namespace name st ns) (bind_if_owned getenv name))
     (\<lambda>c w. c = None \<and> owned_by (st_uid st) w \<or> c \<noteq> None \<and> objects w = os) (untouched_or_owned st os)"
proof (cases "ns_terminating ns \<or> ns_uid ns \<noteq> st_uid st")
  case True
  then show ?thesis
    by (auto simp: validate_existing_namespace_def holds_def and_then_def fail_def go_def bind_if_owned_def untouched_or_owned_def)
next
  case False
  then have "validate_existing_namespace name st ns = go None"
    by (simp add: validate_existing_namespace_def fun_eq_iff)
  then show ?thesis
    using False
    by (auto simp: untouched_or_owned_def owned_by_def
        intro!: holds_and_then [where R = "\<lambda>c w. owned_by (st_uid st) w \<and> c = None"] holds_go holds_pure
          holds_mono [OF bind_owned])
qed

lemma namespace_owned:
  "holds (\<lambda>w. objects w = os) (ensure_shadow_namespace getenv st name)
     (\<lambda>c w. c = None \<and> owned_by (st_uid st) w \<or> c \<noteq> None \<and> objects w = os) (untouched_or_owned st os)"
proof -
  let ?I = "\<lambda>w. objects w = os" and ?Q = "\<lambda>c w. c = None \<and> owned_by (st_uid st) w \<or> c \<noteq> None \<and> objects w = os"
  have free: "fault_free ?I" by (rule closedD(3) [OF untouched_closed])
  have found: "holds ?I fetch_namespace (\<lambda>r w. ?I w \<and> (\<forall>ns \<in> set_option r. cl_ns w = Some ns)) (untouched_or_owned st os)"
    by (rule holds_mono [OF fetched_ns [OF free]]) (auto simp: untouched_or_owned_def)
  have there: "holds (\<lambda>w. ?I w \<and> (\<forall>ns \<in> set_option (Some x). cl_ns w = Some ns))
      (and_then (validate_existing_namespace name st x) (bind_if_owned getenv name)) ?Q (untouched_or_owned st os)" for x
    by (rule holds_weaker [OF validated_owned]) auto
  have create: "holds ?I (and_then (change (\<lambda>w. w\<lparr>cl_ns := Some \<lparr>ns_uid = st_uid st, ns_terminating = False\<rparr>\<rparr>))
      (\<lambda>_. bind_if_owned getenv name None)) ?Q (untouched_or_owned st os)"
    by (rule holds_and_then [where R = "\<lambda>_. owned_by (st_uid st)"], rule holds_change, simp add: owned_by_def,
        rule holds_mono [OF bind_owned]) (auto simp: untouched_or_owned_def)
  have stop: "holds ?I (fail e) ?Q (untouched_or_owned st os)" for e
    by (rule holds_fail) (simp add: untouched_or_owned_def)
  have seen: "holds ?I (fetch f) (\<lambda>_. ?I) (untouched_or_owned st os)" for f :: "cluster \<Rightarrow> namespace option"
    by (rule holds_mono [OF keeps_fetch [OF free]]) (auto simp: untouched_or_owned_def)
  have weak: "holds ?I m ?Q E \<Longrightarrow> holds (\<lambda>w. ?I w \<and> (\<forall>ns \<in> set_option None. cl_ns w = Some ns)) m ?Q E" for m and E
    by (erule holds_weaker) auto
  show ?thesis
    unfolding ensure_shadow_namespace_def
    apply (intro keeps_option stop)
    apply (rule holds_and_then [OF found])
    subgoal for r
      apply (cases r)
       apply (simp only: option.case)
       apply (rule weak, rule holds_and_then [OF seen], intro keeps_option create)
       apply (rule holds_and_then [OF found])
      subgoal for s y again
        by (cases again) (simp_all only: option.case weak [OF stop] there)
      by (simp only: option.case there)
    done
qed

lemma target_uid:
  assumes "pass_closed I"
  shows "holds I (resolve_target ip6 st ns boot) (\<lambda>r w. I w \<and> st_uid (fst r) = st_uid st) I"
proof -
  have uid: "resolve_spec_defaults st target = Inr st' \<Longrightarrow> st_uid st' = st_uid st" for target st'
    by (auto simp: resolve_spec_defaults_def Let_def split: sum.splits if_splits)
  have pinned: "keeps I (ensure_old_image st1 target)" for st1 target
    unfolding ensure_old_image_def by (intro step_rules keeps_call) (simp_all add: assms closedD)
  show ?thesis
    unfolding resolve_target_def
    apply (rule holds_and_then [OF keeps_fetch], simp add: assms closedD)
    apply (intro keeps_option keeps_sum shared_failed assms holds_and_then [OF holds_on_error [OF pinned]] keeps_if
        holds_done holds_go)
     apply (auto simp: uid)
    done
qed

lemma pass_owned:
  assumes "cl_cr w0 = Some st0"
  shows "holds (\<lambda>w. w = w0) (reconcile_test getenv ip6) (\<lambda>_. untouched_or_owned st0 (objects w0)) (untouched_or_owned st0 (objects w0))"
proof -
  let ?I = "\<lambda>w. objects w = objects w0" and ?O = "owned_by (st_uid st0)" and ?E = "untouched_or_owned st0 (objects w0)"
  note c = untouched_closed [of "objects w0"] and o = owned_closed [of "st_uid st0"]
  have E: "?I w \<Longrightarrow> ?E w" "?O w \<Longrightarrow> ?E w" for w
    by (auto simp: untouched_or_owned_def)
  have free: "fault_free (\<lambda>w. ?I w \<and> cl_cr w = Some st0)" by (simp add: free_defs objects_def)
  have read: "holds (\<lambda>w. w = w0) (fetch cl_cr) (\<lambda>cr w. ?I w \<and> cr = Some st0) ?E"
    by (rule holds_mono [OF holds_fetch [OF free]]) (use assms E in auto)
  have quietly: "keeps ?I m \<Longrightarrow> holds ?I m (\<lambda>_. ?E) ?E" for m :: "unit step"
    by (erule holds_mono) (auto intro: E)
  let ?ns = "shadow_namespace_for st0" and ?boot = "no_components\<lparr>cs_target := spec_target (st_spec st0)\<rparr>"
  have prepare: "holds ?I (prepare_namespace getenv st1 ?ns ?boot) (\<lambda>_. ?O) ?E" if uid: "st_uid st1 = st_uid st0" for st1
  proof -
    have rest: "holds ?O
       (and_then (ensure_session_id st1)
               (\<lambda>(err, st). case err of
                  Some e \<Rightarrow> stop_failed e ?ns ?boot st (done_with NoRequeue)
                | None \<Rightarrow>
                    and_then (on_error (sync_storage_secret st) (\<lambda>e. stop_failed e ?ns ?boot st (fail e)))
                      (\<lambda>_. and_then (on_error (sync_beru_db_secret getenv) (\<lambda>e. stop_failed e ?ns ?boot st (fail e)))
                        (\<lambda>_. go st)))) (\<lambda>_. ?O) ?O"
      by (intro step_rules shared_session keeps_secrets shared_stop o owned_object)
    have stop: "holds ?I (stop_failed m ?ns ?boot st1 (done_with NoRequeue)) Q ?E" for m and Q :: "shadow_cr \<Rightarrow> cluster \<Rightarrow> bool"
      by (rule holds_mono [OF shared_stop [OF c holds_done]]) (auto intro: E)
    show ?thesis
      unfolding prepare_namespace_def
      apply (rule keeps_if, rule stop)
      apply (rule holds_and_then [where R = "\<lambda>c w. c = None \<and> ?O w \<or> c \<noteq> None \<and> ?I w"])
       apply (rule holds_mono [OF namespace_owned [of "objects w0" getenv st1]])
         apply (simp_all add: uid untouched_or_owned_def)[3]
      subgoal for collision
        apply (cases collision)
         apply (simp only: option.case)
         apply (rule holds_mono [OF rest])
           apply (simp_all add: E)[3]
        apply (simp only: option.case)
        apply (rule holds_weaker [OF stop], simp)
        done
      done
  qed
  have main: "holds ?I
      (and_then (resolve_target ip6 st0 ?ns ?boot)
        (\<lambda>(st1, target). and_then (prepare_namespace getenv st1 ?ns ?boot)
          (\<lambda>st2. let boot = ?boot\<lparr>cs_amqp := \<not> needs_amqp_ingress st2, cs_drivers := ingress_drivers_from_spec st2\<rparr>
             in and_then (enter_mode st2) (\<lambda>st3. boot_stack getenv ip6 st3 ?ns target boot)))) (\<lambda>_. ?E) ?E"
    unfolding Let_def
    apply (rule holds_and_then [where R = "\<lambda>r w. ?I w \<and> st_uid (fst r) = st_uid st0"])
     apply (rule holds_mono [OF target_uid [OF c]])
       apply (simp_all add: E)[3]
    apply (rule keeps_prod, simp only: fst_conv, rule holds_pure)
    apply (rule holds_and_then [OF prepare], assumption)
    apply (rule holds_mono [where P = ?O and Q = "\<lambda>_. ?O" and E = ?O])
       apply (intro keeps_and_then shared_mode shared_stack o owned_object)
      apply (simp_all add: E)
    done
  have fins: "keeps ?I add_finalizers"
    unfolding add_finalizers_def by (rule keeps_call [OF closedD(3) [OF c]]) (simp add: objects_def)
  have sticky: "keeps ?I (reconcile_sticky_failed ip6 st0 ?ns :: unit step)"
    unfolding reconcile_sticky_failed_def by (intro step_rules shared_core c ends_teardown closedD(2))
  show ?thesis
    unfolding reconcile_test_def
    apply (rule holds_and_then [OF read], rule holds_pure)
    apply (simp only: option.case Let_def)
    apply (intro keeps_if)
       apply (rule quietly, rule shared_delete [OF c])
      apply (rule quietly, intro holds_then [OF fins] holds_done, assumption)
     apply (rule quietly, rule sticky)
    apply (rule keeps_option)
     apply (rule main [unfolded Let_def])
    apply (rule quietly, rule shared_stop [OF c], rule holds_done, assumption)
    done
qed

end
