(* ===== verification/MonarchTeardown.thy ===== *)
theory MonarchTeardown
  imports MonarchLive MonarchOwned
begin

text \<open>
  The two ways out: the deletion of a test, which removes everything it had and lets the object go, and the
  failure of a test, which is for good.
\<close>

section \<open>Deletion on a cluster without faults\<close>

text \<open>The credentials of the broker and of the storage, when they are needed, are there.\<close>

definition broker_known :: "(string \<Rightarrow> bool) \<Rightarrow> shadow_cr \<Rightarrow> cluster \<Rightarrow> bool" where
  "broker_known ip6 st w \<longleftrightarrow> \<not> has_rabbit_input st \<or>
     (case first_amqp_input st of
        Inl e \<Rightarrow> False
      | Inr a \<Rightarrow> (case fst (resolve_prod_amqp_url ip6 st a w) of Go dsn \<Rightarrow> True | _ \<Rightarrow> False))"

definition deletes_recordings :: "shadow_cr \<Rightarrow> bool" where
  "deletes_recordings st \<longleftrightarrow> s3Finalizer \<in> set (st_finalizers st) \<and>
     (case spec_storage (st_spec st) of None \<Rightarrow> False | Some cfg \<Rightarrow> trim_space (sg_retention cfg) = ''Delete'')"

definition storage_known :: "shadow_cr \<Rightarrow> cluster \<Rightarrow> bool" where
  "storage_known st w \<longleftrightarrow> \<not> deletes_recordings st \<or>
     (case fst (s3_config_from_shadow_test st w) of Go cfg \<Rightarrow> True | _ \<Rightarrow> False)"

lemma same_fields:
  "s\<lparr>spec_service_port := spec_service_port s, spec_app_port := spec_app_port s, spec_old_image := spec_old_image s\<rparr> = s"
  "st\<lparr>st_status := x, st_spec := st_spec st\<rparr> = st\<lparr>st_status := x\<rparr>"
  "st\<lparr>st_status := st_status st\<rparr> = st"
  by (cases s, simp) (cases st, simp)+

lemma decode_own:
  "decode_answer (st\<lparr>st_status := s\<rparr>) (st\<lparr>st_status := t\<rparr>) = st\<lparr>st_status := decode_status s t\<rparr>"
proof -
  have [simp]: "kept x x = x" for x :: "'x list" by (simp add: kept_def)
  show ?thesis unfolding decode_answer_def by (simp add: same_fields)
qed

text \<open>A write of the status of the stored object changes nothing but the status and what is published.\<close>

lemma patch_alone:
  assumes "cl_faults w = []" "cl_cr w = Some st"
    "sta_amqp_queue (fold (\<lambda>f. f) fs (st_status st)) = sta_amqp_queue (st_status st)"
  shows "\<exists>s t ps. sta_amqp_queue t = sta_amqp_queue (st_status st) \<and> sta_amqp_queue s = sta_amqp_queue (st_status st) \<and> patch_status_core fs st w =
     (Go (None, st\<lparr>st_status := t\<rparr>), w\<lparr>cl_cr := Some (st\<lparr>st_status := s\<rparr>), cl_published := ps\<rparr>)"
proof (cases "fold (\<lambda>f. f) fs (st_status st) = st_status st")
  case True
  have "w\<lparr>cl_cr := Some (st\<lparr>st_status := st_status st\<rparr>), cl_published := cl_published w\<rparr> = w"
    using assms(2) by (simp add: same_fields)
  moreover have "patch_status_core fs st w = (Go (None, st\<lparr>st_status := st_status st\<rparr>), w)"
    using True by (simp add: patch_status_core_def go_def Let_def)
  ultimately show ?thesis by metis
next
  case False
  let ?t = "fold (\<lambda>f. f) fs (st_status st)"
  let ?s = "merge_status (st_status st) ?t (st_status st)"
  have "patch_status (st_status st) (st\<lparr>st_status := ?t\<rparr>) w =
      (Go (st\<lparr>st_status := decode_status ?s ?t\<rparr>), w\<lparr>cl_cr := Some (st\<lparr>st_status := ?s\<rparr>)\<rparr>)"
    using assms by (simp add: patch_status_def and_then_def faultless_steps read_def change_def go_def Let_def decode_own)
  then have "patch_status_core fs st w = (Go (None, st\<lparr>st_status := decode_status ?s ?t\<rparr>),
      w\<lparr>cl_cr := Some (st\<lparr>st_status := ?s\<rparr>), cl_published := cl_published w @ [st\<lparr>st_status := decode_status ?s ?t\<rparr>]\<rparr>)"
    using False by (simp add: patch_status_core_def Let_def on_error_def and_then_def change_def go_def)
  moreover have "sta_amqp_queue (decode_status ?s ?t) = sta_amqp_queue (st_status st)"
    "sta_amqp_queue ?s = sta_amqp_queue (st_status st)"
    using assms(3) by (simp_all add: decode_status_def kept_def merge_status_def merged_def)
  ultimately show ?thesis by blast
qed

lemma resolve_same_secrets:
  assumes "cl_faults w = []" "cl_faults v = []" "cl_source_secrets v = cl_source_secrets w"
  shows "resolve_prod_amqp_url ip6 (st\<lparr>st_status := t\<rparr>) a v = (fst (resolve_prod_amqp_url ip6 st a w), v)"
  unfolding resolve_prod_amqp_url_def
  by (auto simp: wrap_error_def on_error_def and_then_def faultless_steps assms go_def fail_def Let_def
      split: sum.splits option.splits)

lemma delete_queue_alone:
  assumes "cl_faults w = []" "cl_faults v = []" "cl_source_secrets v = cl_source_secrets w" "broker_known ip6 st w"
    "sta_amqp_queue t = sta_amqp_queue (st_status st)"
  shows "delete_prod_queue ip6 (st\<lparr>st_status := t\<rparr>) v =
    (Go (), if has_rabbit_input st \<and> cl_queue v = Some (prod_queue_of st) then v\<lparr>cl_queue := None, cl_queue_bound := False\<rparr> else v)"
proof -
  have queue: "prod_queue_of (st\<lparr>st_status := t\<rparr>) = prod_queue_of st"
    using assms(5) by (simp add: prod_queue_of_def prod_shadow_queue_name_def)
  have inputs: "has_rabbit_input (st\<lparr>st_status := t\<rparr>) = has_rabbit_input st" "first_amqp_input (st\<lparr>st_status := t\<rparr>) = first_amqp_input st"
    by (simp_all add: has_rabbit_input_def first_amqp_input_def)
  show ?thesis
  proof (cases "has_rabbit_input st")
    case False
    then show ?thesis by (simp add: delete_prod_queue_def inputs go_def)
  next
    case True
    then obtain a dsn where a: "first_amqp_input st = Inr a" "fst (resolve_prod_amqp_url ip6 st a w) = Go dsn"
      using assms(4) by (auto simp: broker_known_def split: sum.splits outcome.splits)
    have "with_amqp ip6 (st\<lparr>st_status := t\<rparr>) f v = f a v" for f :: "amqp_input \<Rightarrow> unit step"
      by (simp add: with_amqp_def inputs a and_then_def resolve_same_secrets [OF assms(1-3)])
    then have step: "delete_prod_queue ip6 (st\<lparr>st_status := t\<rparr>) v =
        and_then (on_error (and_then api (\<lambda>_. go True)) (\<lambda>e. go False))
          (\<lambda>dialled. if \<not> dialled then go ()
             else and_then (wrap_error ''prod broker channel for delete: '' api)
               (\<lambda>_. wrap_error (''queue delete '' @ json_quote (prod_queue_of st) @ '': '')
                  (call (\<lambda>w. if cl_queue w = Some (prod_queue_of st)
                            then w\<lparr>cl_queue := None, cl_queue_bound := False\<rparr> else w)))) v"
      using True by (simp only: delete_prod_queue_def inputs queue not_True_eq_False if_False)
    show ?thesis
      unfolding step using True
      by (simp add: and_then_def on_error_def wrap_error_def faultless_steps assms(2) go_def)
  qed
qed

lemma s3_same_secrets:
  assumes "cl_faults w = []" "cl_faults v = []" "cl_source_secrets v = cl_source_secrets w"
  shows "s3_config_from_shadow_test (st\<lparr>st_status := t\<rparr>) v = (fst (s3_config_from_shadow_test st w), v)"
  unfolding s3_config_from_shadow_test_def
  by (auto simp: wrap_error_def on_error_def and_then_def faultless_steps assms go_def fail_def Let_def
      split: sum.splits option.splits)

lemma cleanup_alone:
  assumes "cl_faults w = []" "cl_faults v = []" "cl_source_secrets v = cl_source_secrets w" "storage_known st w"
  shows "cleanup_s3_if_needed (st\<lparr>st_status := t\<rparr>) v =
    (Go (), if deletes_recordings st
            then v\<lparr>cl_s3_deleted := cl_s3_deleted v @ [test_key_prefix (st_namespace st) (st_name st)]\<rparr> else v)"
proof (cases "deletes_recordings st")
  case False
  then have "cleanup_s3_if_needed (st\<lparr>st_status := t\<rparr>) = go ()"
    by (cases "spec_storage (st_spec st)") (auto simp: cleanup_s3_if_needed_def deletes_recordings_def)
  then show ?thesis using False by (simp add: go_def)
next
  case True
  then have "cleanup_s3_if_needed (st\<lparr>st_status := t\<rparr>) = default_s3_cleaner (st\<lparr>st_status := t\<rparr>)"
    by (cases "spec_storage (st_spec st)") (auto simp: cleanup_s3_if_needed_def deletes_recordings_def)
  moreover obtain cfg where "fst (s3_config_from_shadow_test st w) = Go cfg"
    using True assms(4) by (cases "fst (s3_config_from_shadow_test st w)") (simp_all add: storage_known_def)
  ultimately show ?thesis
    using True
    by (simp add: default_s3_cleaner_def and_then_def s3_same_secrets [OF assms(1-3)] faultless_steps assms(2))
qed

text \<open>The part of a deletion before the namespace is looked at.\<close>

definition untapped :: "shadow_cr \<Rightarrow> cluster \<Rightarrow> cluster" where
  "untapped st w = (if has_rabbit_input st \<and> cl_queue w = Some (prod_queue_of st)
     then w\<lparr>cl_queue := None, cl_queue_bound := False\<rparr> else w)\<lparr>cl_rule := None\<rparr>"

lemma untapped_simps [simp]:
  "cl_faults (untapped st w) = cl_faults w" "cl_ns (untapped st w) = cl_ns w" "cl_cr (untapped st w) = cl_cr w"
  "cl_source_secrets (untapped st w) = cl_source_secrets w" "cl_published (untapped st w) = cl_published w"
  "cl_s3_deleted (untapped st w) = cl_s3_deleted w" "cl_rule (untapped st w) = None"
  by (simp_all add: untapped_def)

lemma delete_start:
  assumes "cl_faults w = []" "cl_cr w = Some st" "held st" "broker_known ip6 st w"
  shows "\<exists>s t ps. sta_amqp_queue s = sta_amqp_queue (st_status st) \<and> reconcile_delete ip6 ns w =
     (case cl_ns w of
        None \<Rightarrow> and_then (cleanup_s3_if_needed (st\<lparr>st_status := t\<rparr>)) (\<lambda>_. and_then remove_finalizers
                  (\<lambda>_. and_then (publish_deleted (st\<lparr>st_status := t\<rparr>)) (\<lambda>_. done_with NoRequeue)))
      | Some n \<Rightarrow> delete_shadow_namespace ns n)
     (untapped st (w\<lparr>cl_cr := Some (st\<lparr>st_status := s\<rparr>), cl_published := ps\<rparr>))"
proof -
  let ?fs = "[status_base (st_generation st) PhaseDeleting ''tearing down shadow stack'' ns]"
  obtain s t ps where p: "sta_amqp_queue t = sta_amqp_queue (st_status st)" "sta_amqp_queue s = sta_amqp_queue (st_status st)"
    "patch_status_core ?fs st w = (Go (None, st\<lparr>st_status := t\<rparr>), w\<lparr>cl_cr := Some (st\<lparr>st_status := s\<rparr>), cl_published := ps\<rparr>)"
    using patch_alone [OF assms(1,2), of ?fs] by (auto simp: status_base_def Let_def)
  let ?v = "w\<lparr>cl_cr := Some (st\<lparr>st_status := s\<rparr>), cl_published := ps\<rparr>"
  have "reconcile_delete ip6 ns w =
     (case cl_ns w of
        None \<Rightarrow> and_then (cleanup_s3_if_needed (st\<lparr>st_status := t\<rparr>)) (\<lambda>_. and_then remove_finalizers
                  (\<lambda>_. and_then (publish_deleted (st\<lparr>st_status := t\<rparr>)) (\<lambda>_. done_with NoRequeue)))
      | Some n \<Rightarrow> delete_shadow_namespace ns n) (untapped st ?v)"
  proof -
    have none: "cl_faults ?v = []" "cl_source_secrets ?v = cl_source_secrets w" using assms(1) by simp_all
    have queue: "and_then (delete_prod_queue ip6 (st\<lparr>st_status := t\<rparr>)) (\<lambda>_. and_then delete_kaisel_rule f) ?v = f () (untapped st ?v)"
      for f :: "unit \<Rightarrow> 'z step"
      unfolding and_then_def [of "delete_prod_queue _ _"] delete_queue_alone [OF assms(1) none assms(4) p(1)]
      by (simp add: and_then_def delete_kaisel_rule_def faultless_steps assms(1) untapped_def)
    have "reconcile_delete ip6 ns w =
        and_then (delete_prod_queue ip6 (st\<lparr>st_status := t\<rparr>)) (\<lambda>_. and_then delete_kaisel_rule
          (\<lambda>_. and_then fetch_namespace
             (\<lambda>found. case found of
                None \<Rightarrow> and_then (cleanup_s3_if_needed (st\<lparr>st_status := t\<rparr>)) (\<lambda>_. and_then remove_finalizers
                  (\<lambda>_. and_then (publish_deleted (st\<lparr>st_status := t\<rparr>)) (\<lambda>_. done_with NoRequeue)))
              | Some n \<Rightarrow> delete_shadow_namespace ns n))) ?v"
      unfolding reconcile_delete_def and_then_def [of "fetch cl_cr"] faultless_steps(3) [OF assms(1)]
      by (simp add: assms(2,3) and_then_def [of "patch_status_core _ _"] p(3))
    then show ?thesis
      by (simp add: queue and_then_def [of fetch_namespace] faultless_steps assms(1))
  qed
  then show ?thesis using p(2) by blast
qed

text \<open>A test under deletion whose only finalizers are those of the operator.\<close>

definition leaving :: "shadow_cr \<Rightarrow> bool" where
  "leaving st \<longleftrightarrow> st_deleting st \<and> held st \<and> set (st_finalizers st) \<subseteq> {finalizerName, s3Finalizer}"

lemma leaving_status [simp]: "leaving (st\<lparr>st_status := s\<rparr>) = leaving st"
  by (simp add: leaving_def held_def)

lemma same_known:
  assumes "cl_faults w = []" "cl_faults v = []" "cl_source_secrets v = cl_source_secrets w"
  shows "broker_known ip6 (st\<lparr>st_status := s\<rparr>) v = broker_known ip6 st w"
    "storage_known (st\<lparr>st_status := s\<rparr>) v = storage_known st w"
proof -
  have inputs: "has_rabbit_input (st\<lparr>st_status := s\<rparr>) = has_rabbit_input st" "first_amqp_input (st\<lparr>st_status := s\<rparr>) = first_amqp_input st"
      "deletes_recordings (st\<lparr>st_status := s\<rparr>) = deletes_recordings st"
    by (simp_all add: has_rabbit_input_def first_amqp_input_def deletes_recordings_def)
  show "broker_known ip6 (st\<lparr>st_status := s\<rparr>) v = broker_known ip6 st w"
    unfolding broker_known_def inputs resolve_same_secrets [OF assms] fst_conv ..
  show "storage_known (st\<lparr>st_status := s\<rparr>) v = storage_known st w"
    unfolding storage_known_def inputs s3_same_secrets [OF assms] fst_conv ..
qed

lemma reconcile_deleting:
  "cl_faults w = [] \<Longrightarrow> cl_cr w = Some st \<Longrightarrow> st_deleting st \<Longrightarrow>
   reconcile_test getenv ip6 w = reconcile_delete ip6 (shadow_namespace_for st) w"
  by (simp add: reconcile_test_def and_then_def [of "fetch cl_cr"] faultless_steps Let_def)

lemma pass_terminates_namespace:
  assumes "cl_faults w = []" "cl_cr w = Some st" "leaving st" "broker_known ip6 st w" "cl_ns w = Some n"
    "validate_shadow_namespace_name (shadow_namespace_for st) = None"
  shows "\<exists>s w'. reconcile_test getenv ip6 w = (Done (After (5 * second)), w') \<and> cl_faults w' = [] \<and>
    cl_cr w' = Some (st\<lparr>st_status := s\<rparr>) \<and> sta_amqp_queue s = sta_amqp_queue (st_status st) \<and>
    cl_ns w' = Some (n\<lparr>ns_terminating := True\<rparr>) \<and> cl_rule w' = None \<and> cl_source_secrets w' = cl_source_secrets w \<and>
    cl_s3_deleted w' = cl_s3_deleted w"
proof -
  obtain s t ps where s: "sta_amqp_queue s = sta_amqp_queue (st_status st)"
    "reconcile_test getenv ip6 w =
      delete_shadow_namespace (shadow_namespace_for st) n (untapped st (w\<lparr>cl_cr := Some (st\<lparr>st_status := s\<rparr>), cl_published := ps\<rparr>))"
    using delete_start [OF assms(1,2) _ assms(4), of "shadow_namespace_for st"] reconcile_deleting [OF assms(1,2)] assms(3,5)
    by (fastforce simp: leaving_def)
  have same: "n\<lparr>ns_terminating := True\<rparr> = n" if "ns_terminating n" using that by (cases n) simp
  show ?thesis
    using s assms(1,5,6)
    by (auto simp: delete_shadow_namespace_def and_then_def faultless_steps go_def done_with_def same)
qed

lemma pass_lets_go:
  assumes "cl_faults w = []" "cl_cr w = Some st" "leaving st" "broker_known ip6 st w" "storage_known st w" "cl_ns w = None"
  shows "\<exists>w' cr. reconcile_test getenv ip6 w = (Done NoRequeue, w') \<and> cl_cr w' = None \<and> cl_rule w' = None \<and>
    (has_rabbit_input st \<longrightarrow> cl_queue w' \<noteq> Some (prod_queue_of st)) \<and>
    cl_s3_deleted w' = cl_s3_deleted w @ (if deletes_recordings st then [test_key_prefix (st_namespace st) (st_name st)] else []) \<and>
    cl_published w' \<noteq> [] \<and> last (cl_published w') = st\<lparr>st_status := cr\<rparr> \<and> sta_phase cr = PhaseDeleted"
proof -
  obtain s t ps where s: "reconcile_test getenv ip6 w =
      and_then (cleanup_s3_if_needed (st\<lparr>st_status := t\<rparr>)) (\<lambda>_. and_then remove_finalizers
                  (\<lambda>_. and_then (publish_deleted (st\<lparr>st_status := t\<rparr>)) (\<lambda>_. done_with NoRequeue)))
        (untapped st (w\<lparr>cl_cr := Some (st\<lparr>st_status := s\<rparr>), cl_published := ps\<rparr>))"
    using delete_start [OF assms(1,2) _ assms(4), of "shadow_namespace_for st"] reconcile_deleting [OF assms(1,2)] assms(3,6)
    by (fastforce simp: leaving_def)
  let ?v = "untapped st (w\<lparr>cl_cr := Some (st\<lparr>st_status := s\<rparr>), cl_published := ps\<rparr>)"
  let ?u = "if deletes_recordings st
            then ?v\<lparr>cl_s3_deleted := cl_s3_deleted ?v @ [test_key_prefix (st_namespace st) (st_name st)]\<rparr> else ?v"
  have none: "cl_faults ?v = []" "cl_source_secrets ?v = cl_source_secrets w" "cl_faults ?u = []" "cl_cr ?u = Some (st\<lparr>st_status := s\<rparr>)"
    using assms(1) by simp_all
  have empty: "filter (\<lambda>f. f \<noteq> s3Finalizer \<and> f \<noteq> finalizerName) (st_finalizers st) = []"
    using assms(3) by (auto simp: leaving_def filter_empty_conv)
  have removed: "remove_finalizers ?u = (Go (), ?u\<lparr>cl_cr := None\<rparr>)"
    unfolding remove_finalizers_def and_then_def faultless_steps(3) [OF none(3)]
    using assms(3) none(3) empty by (simp add: none(4) leaving_def held_def faultless_steps)
  have "reconcile_test getenv ip6 w = (Done NoRequeue, ?u\<lparr>cl_cr := None,
      cl_published := cl_published ?u @ [st\<lparr>st_status := t\<lparr>sta_phase := PhaseDeleted, sta_message := ''deleted''\<rparr>\<rparr>]\<rparr>)"
    unfolding s and_then_def cleanup_alone [OF assms(1) none(1,2) assms(5)]
    by (simp add: removed publish_deleted_def change_def done_with_def)
  then show ?thesis
    by (auto simp: untapped_def)
qed

section \<open>Failure is for good\<close>

text \<open>A failed test: its phase is stored, nothing runs for it, and its namespace may be on the way out.\<close>

definition down :: "cluster \<Rightarrow> cluster \<Rightarrow> bool" where
  "down w0 w \<longleftrightarrow> objects w = objects w0 \<and> cl_replays w = cl_replays w0 \<and> (cl_queue_bound w \<longrightarrow> cl_queue_bound w0) \<and>
     (cl_rule w = None \<or> cl_rule w = cl_rule w0) \<and> (cl_ns w0 = None \<longrightarrow> cl_ns w = None) \<and>
     (case cl_cr w of
        None \<Rightarrow> False
      | Some cr \<Rightarrow> sta_phase (st_status cr) = PhaseFailed \<and> \<not> st_deleting cr \<and>
          finalizerName \<in> set (st_finalizers cr) \<and> s3Finalizer \<in> set (st_finalizers cr))"

lemma down_fault [simp]: "fault_free (down w0)"
  by (simp add: free_defs down_def objects_def)

lemma down_teardown: "teardown_closed (down w0)"
  unfolding teardown_closed_def by (simp add: down_def objects_def)

lemma down_patch:
  assumes "sta_phase (st_status st) = PhaseFailed"
  shows "keeps (down w0) (patch_status_core [sta_boot_step_update f] st)"
proof -
  have patch: "holds (down w0) (patch_status base st1) (\<lambda>_. down w0) (down w0)"
    if "sta_phase base = sta_phase (st_status st1)" for base st1
    using that
    by (auto simp: holds_def patch_status_def and_then_def api_def read_def change_def go_def fail_def Let_def down_def
        objects_def merge_status_def merged_def split: api_fault.splits option.splits)
  show ?thesis
    unfolding patch_status_core_def Let_def
    by (intro keeps_if holds_go keeps_on_error keeps_and_then patch holds_change) (auto simp: down_def objects_def)
qed

lemma pass_stays_down:
  assumes "cl_cr w0 = Some st" "\<not> st_deleting st" "finalizerName \<in> set (st_finalizers st)" "s3Finalizer \<in> set (st_finalizers st)"
    "sta_phase (st_status st) = PhaseFailed"
  shows "holds (\<lambda>w. w = w0) (reconcile_test getenv ip6) (\<lambda>_ _. False) (down w0)"
proof -
  have free: "fault_free (\<lambda>w. down w0 w \<and> cl_cr w = Some st)" by (simp add: free_defs down_def objects_def)
  have start: "down w0 w0" using assms by (simp add: down_def)
  have read: "holds (\<lambda>w. w = w0) (fetch cl_cr) (\<lambda>cr w. down w0 w \<and> cr = Some st) (down w0)"
    by (rule holds_mono [OF holds_fetch [OF free]]) (use start assms(1) in auto)
  show ?thesis
    unfolding reconcile_test_def
    apply (rule holds_and_then [OF read], rule holds_pure)
    apply (simp only: option.case Let_def)
    using assms
    apply (simp add: reconcile_sticky_failed_def)
    by (intro keeps_prod holds_and_then [OF down_patch [OF assms(5)]] ends_teardown down_teardown)
qed

text \<open>Passes one after the other, each with its own failing calls and its own state of the workloads.\<close>

definition run_passes ::
  "(string \<Rightarrow> string) \<Rightarrow> (string \<Rightarrow> bool) \<Rightarrow> (api_fault list \<times> (string \<Rightarrow> dep_status)) list \<Rightarrow> cluster \<Rightarrow> cluster" where
  "run_passes getenv ip6 =
     fold (\<lambda>(faults, observed) w. snd (reconcile_test getenv ip6 (w\<lparr>cl_faults := faults, cl_observed := observed\<rparr>)))"

lemma holds_snd:
  assumes "holds (\<lambda>w. w = w0) m (\<lambda>_. R) R"
  shows "R (snd (m w0))"
proof (cases "m w0")
  case (Pair r w)
  then show ?thesis using assms by (cases r) (auto simp: holds_def)
qed

lemma down_trans: "down w0 w \<Longrightarrow> down w u \<Longrightarrow> down w0 u"
  unfolding down_def by (auto split: option.splits)

lemma passes_stay_down: "down w0 w \<Longrightarrow> down w0 (run_passes getenv ip6 es w)"
proof (induction es arbitrary: w)
  case Nil
  then show ?case by (simp add: run_passes_def)
next
  case (Cons e es)
  obtain faults observed where e: "e = (faults, observed)" by (cases e)
  let ?w = "w\<lparr>cl_faults := faults, cl_observed := observed\<rparr>"
  have start: "down w0 ?w" using Cons.prems by (simp add: down_def objects_def)
  then obtain st where st: "cl_cr ?w = Some st" "\<not> st_deleting st" "finalizerName \<in> set (st_finalizers st)"
      "s3Finalizer \<in> set (st_finalizers st)" "sta_phase (st_status st) = PhaseFailed"
    by (cases "cl_cr ?w") (auto simp: down_def)
  have "down ?w (snd (reconcile_test getenv ip6 ?w))"
    by (rule holds_snd) (rule holds_mono [OF pass_stays_down [OF st]], simp_all)
  then have "down w0 (snd (reconcile_test getenv ip6 ?w))" by (rule down_trans [OF start])
  from Cons.IH [OF this] show ?case by (simp add: run_passes_def e)
qed

end
