(* ===== verification/MonarchSidecar.thy ===== *)
theory MonarchSidecar
  imports MonarchReconcile SoldierProxyProps
begin

text \<open>
  The operator and the sidecar it starts: the environment \<^verbatim>\<open>shadowSoldierContainer\<close> writes is read back by
  the sidecar's \<^verbatim>\<open>config.Load\<close> as the routes the operator computed from the validated dependencies.
\<close>

section \<open>Small tests and clusters\<close>

text \<open>The properties of the operator are shown to apply on these.\<close>

definition sample_spec :: shadow_test_spec where
  "sample_spec = \<lparr>spec_target = ''web'', spec_target_ns = [], spec_old_image = ''web:1'', spec_new_image = ''web:2'',
     spec_service_port = 0, spec_app_port = 0, spec_beru_timeout = [], spec_inputs = [], spec_igris = None,
     spec_igris_rabbit = None, spec_relay = None, spec_sample = 0, spec_max_qps = 0, spec_beru_image = None,
     spec_shop_image = None, spec_soldier_image = None, spec_dependencies = [], spec_mode = [], spec_session = [],
     spec_storage = Some \<lparr>sg_type = ''s3'', sg_bucket = ''b'', sg_endpoint = [], sg_region = [], sg_secret = None,
       sg_retention = ''Delete''\<rparr>\<rparr>"

definition sample_status :: shadow_test_status where
  "sample_status = \<lparr>sta_phase = [], sta_message = [], sta_namespace = [], sta_capture_targets = [], sta_kaisel_phase = [],
     sta_igris_endpoint = [], sta_amqp_queue = [], sta_igris_rabbit_phase = [], sta_session = ''s1'', sta_execution = [],
     sta_replay_state = [], sta_boot_step = [], sta_components = no_components, sta_conditions = []\<rparr>"

definition sample_test :: shadow_cr where
  "sample_test = \<lparr>st_name = ''t'', st_namespace = ''d'', st_uid = ''u'', st_generation = 1, st_deleting = False,
     st_finalizers = [finalizerName, s3Finalizer], st_spec = sample_spec, st_status = sample_status\<rparr>"

definition sample_replay :: shadow_cr where
  "sample_replay = sample_test\<lparr>st_spec := sample_spec\<lparr>spec_mode := ''replay''\<rparr>\<rparr>"

definition sample_failed :: shadow_cr where
  "sample_failed = sample_test\<lparr>st_status := sample_status\<lparr>sta_phase := PhaseFailed\<rparr>\<rparr>"

definition sample_leaving :: shadow_cr where
  "sample_leaving = sample_test\<lparr>st_deleting := True\<rparr>"

definition sample_target :: target_deployment where
  "sample_target = \<lparr>td_containers = [\<lparr>tc_image = ''web:1'', tc_ports = [(''http'', 8080)], tc_env = [], tc_env_from = False\<rparr>],
     td_labels = []\<rparr>"

definition sample_observed :: dep_status where
  "sample_observed = \<lparr>ds_available = 1, ds_ready = 1, ds_updated = 1, ds_total = 1, ds_deadline = None, ds_pods = None,
     ds_overdue = False\<rparr>"

definition sample_cluster :: "shadow_cr \<Rightarrow> cluster" where
  "sample_cluster st = \<lparr>cl_cr = Some st, cl_target = Some sample_target,
     cl_target_uid = ''x'', cl_replica_sets = [], cl_pods = [], cl_ns = None, cl_role_binding = None, cl_deployments = [],
     cl_services = [], cl_config_maps = [], cl_secrets = [], cl_source_secrets = [((''monarch-system'', ''db''), [])],
     cl_observed = (\<lambda>_. sample_observed), cl_rule = None, cl_queue = None, cl_queue_bound = False, cl_published = [],
     cl_events = [], cl_replays = [], cl_start_replies = [Inr 202], cl_ids = [], cl_s3_deleted = [], cl_faults = []\<rparr>"

definition operator_env :: "string \<Rightarrow> string" where
  "operator_env k = (if k = ''BERU_DB_SECRET'' then ''db'' else [])"

definition sample_ns :: "string \<Rightarrow> namespace" where
  "sample_ns uid = \<lparr>ns_uid = uid, ns_terminating = False\<rparr>"

definition sample_dependencies :: "dependency_spec list" where
  "sample_dependencies =
     [\<lparr>dp_name = ''Cache'', dp_type = ''redis'', dp_image = [], dp_port = 0, dp_env = ''REDIS_URL''\<rparr>,
      \<lparr>dp_name = ''db'', dp_type = ''postgres'', dp_image = [], dp_port = 0, dp_env = ''DB_URL''\<rparr>]"

definition sample_dependent :: shadow_cr where
  "sample_dependent = sample_replay\<lparr>st_spec := (st_spec sample_replay)\<lparr>spec_dependencies := sample_dependencies\<rparr>\<rparr>"

section \<open>Names are plain text\<close>

definition plain :: "string \<Rightarrow> bool" where
  "plain s \<longleftrightarrow> (\<forall>c \<in> set s. (of_char c :: nat) < 128 \<and> \<not> is_space c)"

lemma plain_append [simp]: "plain (s @ t) \<longleftrightarrow> plain s \<and> plain t"
  by (auto simp: plain_def)

lemma plain_Cons [simp]: "plain (c # s) \<longleftrightarrow> (of_char c :: nat) < 128 \<and> \<not> is_space c \<and> plain s" "plain []"
  by (auto simp: plain_def)

lemma plain_utf8: "plain s \<Longrightarrow> utf8_ok s"
  by (rule utf8_ok_ascii) (simp add: plain_def)

lemma plain_trimmed: "plain s \<Longrightarrow> trim_space s = s"
  by (rule trim_space_fixed) (auto simp: plain_def trimmed_def)

lemma plain_subset: "plain s \<Longrightarrow> set t \<subseteq> set s \<Longrightarrow> plain t"
  by (auto simp: plain_def)

lemma dns_char_plain: "dns_char c \<Longrightarrow> (of_char c :: nat) < 128 \<and> \<not> is_space c"
  by (auto simp: dns_char_def is_digit_def char_le_iff is_space_def Let_def)

lemma replace_invalid_plain: "plain (replace_invalid run s)"
  by (induction run s rule: replace_invalid.induct) (auto simp: plain_def is_space_def dest: dns_char_plain)

lemma sanitize_dns_plain: "plain (sanitize_dns_label s)"
proof -
  let ?r = "replace_invalid False (to_lower s)"
  have "set (trim_right_dashes (trim_left_dashes ?r)) \<subseteq> set ?r"
    by (auto simp: trim_right_dashes_def trim_left_dashes_def dest!: set_dropWhileD)
  then have "plain (trim_right_dashes (trim_left_dashes ?r))"
    by (rule plain_subset [OF replace_invalid_plain])
  moreover have "plain ''shadow''" by (simp add: plain_def is_space_def)
  ultimately show ?thesis by (simp add: sanitize_dns_label_def Let_def)
qed

lemma sanitize_plain: "plain (sanitize_for_dns s)"
proof -
  have "set (trim_right_dashes (take 63 (sanitize_dns_label s))) \<subseteq> set (sanitize_dns_label s)"
    by (auto simp: trim_right_dashes_def trim_left_dashes_def dest!: set_dropWhileD dest: in_set_takeD)
  then show ?thesis
    using sanitize_dns_plain [of s] by (auto simp: sanitize_for_dns_def Let_def intro: plain_subset)
qed

lemma itoz_plain: "plain (itoz n)"
proof -
  have digit: "is_digit c \<Longrightarrow> (of_char c :: nat) < 128 \<and> \<not> is_space c" for c
    by (auto simp: is_digit_def char_le_iff is_space_def Let_def)
  have "plain (dec_digits m)" if "0 \<le> m" for m
    using dec_digits_digits [OF that] digit by (auto simp: plain_def)
  then show ?thesis
    by (simp add: itoz_def is_space_def)
qed

lemma endpoint_plain: "plain (dependency_endpoint (shadow_namespace_for st) name role port)"
proof -
  show ?thesis
    by (simp add: is_space_def dependency_endpoint_def shadow_service_host_def dependency_resource_name_def shadow_namespace_for_def
        sanitize_plain sanitize_dns_plain itoz_plain)
qed

section \<open>The routes\<close>

text \<open>What validation leaves of the ports of the dependencies that go through the sidecar.\<close>

definition proxied_ports :: "dependency_spec list \<Rightarrow> int list" where
  "proxied_ports deps = map dep_port (filter is_proxied_dependency deps)"

lemma validated_ports:
  "validate_dependencies_from st i seen proxied mongo deps = None \<Longrightarrow>
     (\<forall>dep \<in> set deps. 1 \<le> dep_port dep \<and> dep_port dep \<le> 65535) \<and>
     distinct (proxied_ports deps) \<and> set (proxied_ports deps) \<inter> dom (map_of proxied) = {}"
proof (induction deps arbitrary: i seen proxied mongo)
  case Nil
  then show ?case by (simp add: proxied_ports_def)
next
  case (Cons dep deps)
  let ?p = "if is_proxied_dependency dep then (dep_port dep, dp_name dep) # proxied else proxied"
  have "1 \<le> dep_port dep \<and> dep_port dep \<le> 65535" "is_proxied_dependency dep \<longrightarrow> map_of proxied (dep_port dep) = None"
    and "\<exists>s m. validate_dependencies_from st (i + 1) s ?p m deps = None"
    using Cons.prems by (auto simp: Let_def prod.case_eq_if split: if_splits option.splits)
  then show ?case
    using Cons.IH by (fastforce simp: proxied_ports_def split: if_splits)
qed

definition as_soldier_route :: "sidecar_route \<Rightarrow> soldier_route" where
  "as_soldier_route r = \<lparr>rt_protocol = sr_protocol r, rt_listen = sr_listen r, rt_upstream = sr_upstream r\<rparr>"

lemma as_soldier_route_simps [simp]:
  "rt_protocol (as_soldier_route r) = sr_protocol r" "rt_listen (as_soldier_route r) = sr_listen r"
  "rt_upstream (as_soldier_route r) = sr_upstream r"
  by (simp_all add: as_soldier_route_def)

lemma routes_facts:
  "map sr_listen (soldier_routes_for st ns role) = proxied_ports (spec_dependencies (st_spec st))"
  "r \<in> set (soldier_routes_for st ns role) \<Longrightarrow>
     \<exists>dep \<in> set (spec_dependencies (st_spec st)). soldier_protocol_for dep = Some (sr_protocol r) \<and>
       sr_listen r = dep_port dep \<and> sr_upstream r = dependency_endpoint ns (dp_name dep) role (dep_port dep)"
proof -
  let ?f = "\<lambda>dep. case soldier_protocol_for dep of
                None \<Rightarrow> None
              | Some proto \<Rightarrow>
                  Some \<lparr>sr_protocol = proto, sr_listen = dep_port dep,
                        sr_upstream = dependency_endpoint ns (dp_name dep) role (dep_port dep)\<rparr>"
  have "map sr_listen (List.map_filter ?f deps) = proxied_ports deps" for deps
    by (induction deps) (auto simp: List.map_filter_simps proxied_ports_def is_proxied_dependency_def split: option.splits)
  then show "map sr_listen (soldier_routes_for st ns role) = proxied_ports (spec_dependencies (st_spec st))"
    by (simp add: soldier_routes_for_def)
  have "r \<in> set (List.map_filter ?f deps) \<Longrightarrow> \<exists>dep \<in> set deps. ?f dep = Some r" for deps
    by (induction deps) (auto simp: List.map_filter_simps split: option.splits)
  then show "r \<in> set (soldier_routes_for st ns role) \<Longrightarrow>
     \<exists>dep \<in> set (spec_dependencies (st_spec st)). soldier_protocol_for dep = Some (sr_protocol r) \<and>
       sr_listen r = dep_port dep \<and> sr_upstream r = dependency_endpoint ns (dp_name dep) role (dep_port dep)"
    unfolding soldier_routes_for_def by (fastforce split: option.splits)
qed

lemma soldier_protocols: "map_of soldierProtocols t = Some p \<Longrightarrow> protocol_supported p \<and> utf8_ok p"
proof -
  have "list_all (\<lambda>(t, p). protocol_supported p \<and> utf8_ok p) soldierProtocols" by code_simp
  then show "map_of soldierProtocols t = Some p \<Longrightarrow> protocol_supported p \<and> utf8_ok p"
    by (auto simp: list_all_iff dest!: map_of_SomeD)
qed

text \<open>A route of the operator, as the sidecar takes it.\<close>

definition acceptable :: "sidecar_route \<Rightarrow> bool" where
  "acceptable r \<longleftrightarrow> protocol_supported (sr_protocol r) \<and> utf8_ok (sr_protocol r) \<and> 1 \<le> sr_listen r \<and> sr_listen r \<le> 65535 \<and>
     plain (sr_upstream r) \<and> sr_upstream r \<noteq> []"

lemma routes_acceptable:
  assumes "validate_dependencies st = None" "r \<in> set (soldier_routes_for st (shadow_namespace_for st) role)"
  shows "acceptable r"
  using routes_facts(2) [OF assms(2)] validated_ports [OF assms(1) [unfolded validate_dependencies_def]] endpoint_plain
  by (auto simp: acceptable_def soldier_protocol_for_def dependency_endpoint_def dest: soldier_protocols)

lemma routes_distinct:
  "validate_dependencies st = None \<Longrightarrow> distinct (map sr_listen (soldier_routes_for st ns role))"
  using validated_ports unfolding validate_dependencies_def routes_facts(1) by blast

lemma validate_accepts:
  assumes "\<forall>r \<in> set rs. acceptable r" "distinct (map sr_listen rs)" "set (map sr_listen rs) \<inter> dom (map_of seen) = {}"
  shows "validate_routes seen (map as_soldier_route rs) = None"
  using assms
proof (induction rs arbitrary: seen)
  case (Cons r rs)
  have "route_validate (as_soldier_route r) = None"
    using Cons.prems(1) by (simp add: route_validate_def acceptable_def plain_trimmed)
  moreover have "map_of seen (sr_listen r) = None"
    using Cons.prems(3) by auto
  moreover have "validate_routes ((sr_listen r, sr_protocol r) # seen) (map as_soldier_route rs) = None"
  proof (rule Cons.IH)
    show "set (map sr_listen rs) \<inter> dom (map_of ((sr_listen r, sr_protocol r) # seen)) = {}"
      using Cons.prems(2,3) by (auto simp del: map_of_eq_Some_iff split: if_splits)
  qed (use Cons.prems in auto)
  ultimately show ?case by simp
qed simp

section \<open>The text of the table\<close>

lemma decode_sidecar_route:
  "acceptable r \<Longrightarrow> decode_route (sidecar_route_json r) route_zero = (as_soldier_route r, True)"
  by (simp add: decode_route_def sidecar_route_json_def route_zero_def in_field_def field_of_def as_soldier_route_def acceptable_def)

lemma sidecar_text_read:
  assumes "\<forall>r \<in> set rs. acceptable r"
  shows "unmarshal_routes (sidecar_routes_text rs) = Some (map as_soldier_route rs)"
proof -
  let ?v = "JArr (map sidecar_route_json rs)"
  have "json_wf ?v"
    using assms by (auto simp: list_all_iff sidecar_route_json_def acceptable_def plain_utf8 utf8_ok_ascii)
  moreover have "foldr (\<lambda>v d. max (json_depth v) d) (map sidecar_route_json rs) 0 \<le> 1"
    by (induction rs) (auto simp: sidecar_route_json_def)
  then have "json_depth ?v \<le> max_nesting_depth" by (simp add: max_nesting_depth_def)
  ultimately have "json_parse (sidecar_routes_text rs) = Some ?v"
    by (simp only: sidecar_routes_text_def json_parse_marshal)
  moreover have "decode_elements decode_route route_zero (map sidecar_route_json rs) [] = (map as_soldier_route rs, True)"
    using assms by (induction rs) (auto simp: decode_sidecar_route)
  ultimately show ?thesis by (simp add: unmarshal_routes_def)
qed

lemma sidecar_text_trimmed: "trim_space (sidecar_routes_text rs) = sidecar_routes_text rs" "sidecar_routes_text rs \<noteq> []"
  by (auto simp: sidecar_routes_text_def trimmed_def is_space_def intro!: trim_space_fixed)

section \<open>The environment\<close>

text \<open>What a process of the container reads; the fields of the pod are filled in by the cluster.\<close>

definition container_getenv :: "(string \<Rightarrow> string) \<Rightarrow> container \<Rightarrow> string \<Rightarrow> string" where
  "container_getenv pod_field c k =
     (case map_of (ct_env c) k of Some (EnvValue v) \<Rightarrow> v | Some (EnvField f) \<Rightarrow> pod_field f | _ \<Rightarrow> [])"

text \<open>C23: The operator and the sidecar agree: for a test whose dependencies were validated, in each of the three roles,
  the sidecar the operator puts into the pod loads its configuration, and proxies exactly the routes the operator
  computed, in their order: same protocol, same port, and as upstream the dependency of that role.\<close>

theorem operator_configures_sidecar:
  assumes "validate_dependencies st = None" "role \<in> set ShadowRoles"
    "shadow_soldier_container getenv st (shadow_namespace_for st) role = Some c"
  shows "case soldier_load (container_getenv pod_field c) of
      Inl e \<Rightarrow> False
    | Inr cfg \<Rightarrow>
        map (\<lambda>r. (rt_protocol r, rt_listen r, rt_upstream r)) (sf_routes cfg) =
          map (\<lambda>r. (sr_protocol r, sr_listen r, sr_upstream r)) (soldier_routes_for st (shadow_namespace_for st) role) \<and>
        sf_role cfg = role \<and> sf_beru_url cfg = beru_ingest_url_for (shadow_namespace_for st)"
proof -
  let ?ns = "shadow_namespace_for st" and ?g = "container_getenv pod_field c"
  let ?rs = "soldier_routes_for st ?ns role"
  have c: "?rs \<noteq> []" "ct_env c = env_values [(''SOLDIER_ROUTES'', sidecar_routes_text ?rs), (''SHADOW_ROLE'', role),
               (''SHADOW_TEST_NAME'', st_name st), (''BERU_HTTP_URL'', beru_ingest_url_for ?ns)] @
             [(''POD_NAME'', EnvField ''metadata.name'')]"
    using assms(3) by (auto simp: shadow_soldier_container_def Let_def split: if_splits)
  have env: "?g ''SOLDIER_ROUTES'' = sidecar_routes_text ?rs" "?g ''SHADOW_ROLE'' = role"
    "?g ''BERU_HTTP_URL'' = beru_ingest_url_for ?ns" "?g ''SOLDIER_DIAL_TIMEOUT'' = []" "?g ''SOLDIER_IDLE_TIMEOUT'' = []"
    "?g ''SOLDIER_HTTP_TIMEOUT'' = []"
    by (simp_all add: container_getenv_def c(2) env_values_def)
  have ok: "\<forall>r \<in> set ?rs. acceptable r" using routes_acceptable [OF assms(1)] by blast
  have role: "trim_space role = role" "role \<in> set soldier_roles"
    using assms(2) by (auto simp: ShadowRoles_def role_defs soldier_roles_def trimmed_def is_space_def intro!: trim_space_fixed)
  have "plain (beru_ingest_url_for ?ns)"
    unfolding beru_ingest_url_for_def shadow_service_host_def shadow_namespace_for_def localBeruName_def
    by (simp add: sanitize_dns_plain is_space_def)
  then have beru: "trim_space (beru_ingest_url_for ?ns) = beru_ingest_url_for ?ns" "beru_ingest_url_for ?ns \<noteq> []"
    by (simp_all add: plain_trimmed, simp add: beru_ingest_url_for_def)
  have valid: "validate_routes [] (map as_soldier_route ?rs) = None"
    by (rule validate_accepts [OF ok routes_distinct [OF assms(1)]]) simp
  have "trim_space [] = []" by (simp add: trim_space_fixed trimmed_def)
  then show ?thesis
    unfolding soldier_load_def duration_from_env_def env sidecar_text_trimmed
    by (simp add: Let_def c(1) sidecar_text_trimmed sidecar_text_read [OF ok] soldier_validate_def role beru valid)
qed

theorem operator_configures_sidecar_witness:
  "case shadow_soldier_container (\<lambda>_. []) sample_dependent (shadow_namespace_for sample_dependent) ''candidate'' of
     None \<Rightarrow> False
   | Some c \<Rightarrow>
       (case soldier_load (container_getenv (\<lambda>_. ''pod'') c) of
          Inl e \<Rightarrow> False
        | Inr cfg \<Rightarrow> sf_role cfg = ''candidate'' \<and> map rt_listen (sf_routes cfg) = [6379, 5432])"
proof -
  let ?ns = "shadow_namespace_for sample_dependent" and ?role = "''candidate''"
  have valid: "validate_dependencies sample_dependent = None" and role: "?role \<in> set ShadowRoles"
    and listen: "map sr_listen (soldier_routes_for sample_dependent ?ns ?role) = [6379, 5432]"
    by code_simp+
  then obtain c where c: "shadow_soldier_container (\<lambda>_. []) sample_dependent ?ns ?role = Some c"
    by (auto simp: shadow_soldier_container_def)
  have "map (\<lambda>(p, l, u). l) (map (\<lambda>r. (rt_protocol r, rt_listen r, rt_upstream r)) rs) = map rt_listen rs" for rs
    by simp
  moreover have "map (\<lambda>(p, l, u). l) (map (\<lambda>r. (sr_protocol r, sr_listen r, sr_upstream r)) rs) = map sr_listen rs" for rs
    by simp
  ultimately show ?thesis
    using operator_configures_sidecar [OF valid role c, of "\<lambda>_. ''pod''"] listen
    by (simp only: c option.case) (auto split: sum.splits)
qed

end
