(* ===== verification/MonarchProps.thy ===== *)
theory MonarchProps
  imports MonarchTeardown MonarchSidecar
begin

text \<open>
  The properties of a pass of the operator, each for every pattern of failing calls unless it says otherwise,
  shown to apply on the sample clusters.
\<close>

section \<open>The samples boot\<close>

lemma sample_boots: "can_boot operator_env (\<lambda>_. False) (sample_cluster sample_test) sample_test sample_target 1"
  by code_simp

lemma sample_replays: "can_boot operator_env (\<lambda>_. False) (sample_cluster sample_replay) sample_replay sample_target 1"
  by code_simp

lemma ready_run:
  assumes "can_boot getenv ip6 w st target R"
  shows "\<exists>cr. cl_cr (snd (reconcile_test getenv ip6 w)) = Some cr \<and> sta_phase (st_status cr) = PhaseReady"
  by (rule holds_snd) (rule holds_mono [OF boots [OF assms]], simp_all)

lemma outcome_of_pass:
  "cl_cr w0 = Some st0 \<Longrightarrow> pass_outcome w0 st0 (snd (reconcile_test getenv ip6 w0))"
  by (rule holds_snd) (rule pass_outcome_holds)

lemma sample_facts [simp]:
  "cl_cr (sample_cluster st) = Some st" "cl_faults (sample_cluster st) = []" "cl_replays (sample_cluster st) = []"
  "cl_rule (sample_cluster st) = None" "cl_queue_bound (sample_cluster st) = False"
  by (simp_all add: sample_cluster_def)

section \<open>Readiness\<close>

text \<open>C15: A test that one pass moves to the phase \<^verbatim>\<open>Ready\<close> runs, whatever calls failed on the way: every workload its
  mode needs has an available replica, and a recording test has its KaiselRule in place and, when it is fed from
  RabbitMQ, its queue bound, while a replaying test has a replay that was started, by this pass or by an earlier
  one.\<close>

theorem ready_reports_running:
  assumes "cl_cr w0 = Some st0" "sta_phase (st_status st0) \<noteq> PhaseReady"
    "reconcile_test getenv ip6 w0 = (r, w)" "cl_cr w = Some st" "sta_phase (st_status st) = PhaseReady"
  shows "list_all (\<lambda>name. 0 < ds_available (cl_observed w0 name)) (needed_workloads st0) \<and>
    (if operating_mode st0 = OpReplay
     then trim_space (sta_replay_state (st_status st0)) \<noteq> [] \<or> cl_replays w \<noteq> cl_replays w0
     else cl_rule w \<noteq> None \<and> (needs_amqp_ingress st0 \<longrightarrow> cl_queue_bound w))"
  using outcome_of_pass [OF assms(1), of getenv ip6] assms(2-5)
  by (cases "operating_mode st0 = OpReplay") (simp_all add: pass_outcome_def ready_justified_def needed_up_def list_all_iff)

lemma sample_test_mode: "operating_mode sample_test = OpRecord" "sta_phase (st_status sample_test) \<noteq> PhaseReady"
  "operating_mode sample_replay = OpReplay" "sta_phase (st_status sample_replay) \<noteq> PhaseReady"
  "trim_space (sta_replay_state (st_status sample_replay)) = []" "OpRecord \<noteq> OpReplay"
  by code_simp+

theorem ready_reports_running_witness:
  "cl_rule (snd (reconcile_test operator_env (\<lambda>_. False) (sample_cluster sample_test))) \<noteq> None"
proof -
  obtain cr where cr: "cl_cr (snd (reconcile_test operator_env (\<lambda>_. False) (sample_cluster sample_test))) = Some cr"
      "sta_phase (st_status cr) = PhaseReady"
    using ready_run [OF sample_boots] by blast
  show ?thesis
    using ready_reports_running [OF _ sample_test_mode(2) prod.collapse [symmetric] cr, unfolded sample_test_mode(1)]
    by (simp add: sample_test_mode(6))
qed



section \<open>What is started, and when\<close>

text \<open>C16: The traffic of production is tapped only when there is something to receive it: a pass that leaves a
  KaiselRule other than the one it found belongs to a recording test whose store, backend and ingress recorder are
  available; and a queue bound to the exchange of production by this pass has, besides, its rule in place.\<close>

theorem taps_after_sinks:
  assumes "cl_cr w0 = Some st0" "reconcile_test getenv ip6 w0 = (r, w)"
    "cl_rule w \<noteq> None \<and> cl_rule w \<noteq> cl_rule w0 \<or> cl_queue_bound w \<and> \<not> cl_queue_bound w0"
  shows "operating_mode st0 \<noteq> OpReplay \<and> cl_rule w \<noteq> None \<and>
    list_all (\<lambda>name. 0 < ds_available (cl_observed w0 name)) [localBeruName, shopName, ingress_workload st0]"
  using outcome_of_pass [OF assms(1), of getenv ip6] assms(2,3)
  by (auto simp: pass_outcome_def sinks_up_def)

theorem taps_after_sinks_witness:
  "operating_mode sample_test \<noteq> OpReplay \<and>
     cl_rule (snd (reconcile_test operator_env (\<lambda>_. False) (sample_cluster sample_test))) \<noteq> None \<and>
     list_all (\<lambda>name. 0 < ds_available (cl_observed (sample_cluster sample_test) name))
       [localBeruName, shopName, ingress_workload sample_test]"
proof -
  let ?w = "snd (reconcile_test operator_env (\<lambda>_. False) (sample_cluster sample_test))"
  obtain cr where "cl_cr ?w = Some cr" "sta_phase (st_status cr) = PhaseReady"
    using ready_run [OF sample_boots] by blast
  then have "cl_rule ?w \<noteq> None"
    using outcome_of_pass [of "sample_cluster sample_test" sample_test operator_env "\<lambda>_. False"]
    by (simp add: pass_outcome_def ready_justified_def sample_test_mode)
  then show ?thesis
    using taps_after_sinks [OF _ prod.collapse [symmetric], of "sample_cluster sample_test" sample_test operator_env "\<lambda>_. False"]
    by simp
qed

text \<open>C17: A replay is started at most once in a pass, and only for a replaying test whose replay had not been
  started, when every workload of the test is available and every Deployment the replay needs has rolled out: its
  observed status shows the current number of ready, updated replicas and nothing else.\<close>

theorem replay_started_when_rolled_out:
  assumes "cl_cr w0 = Some st0" "reconcile_test getenv ip6 w0 = (r, w)" "cl_replays w \<noteq> cl_replays w0"
  shows "length (cl_replays w) = length (cl_replays w0) + 1 \<and> take (length (cl_replays w0)) (cl_replays w) = cl_replays w0 \<and>
    operating_mode st0 = OpReplay \<and> trim_space (sta_replay_state (st_status st0)) = [] \<and>
    list_all (\<lambda>name. 0 < ds_available (cl_observed w0 name)) (needed_workloads st0) \<and>
    all_rolled_out (cl_deployments w) (cl_observed w0) (replay_workload_names st0)"
  using outcome_of_pass [OF assms(1), of getenv ip6] assms(2,3)
  by (auto simp: pass_outcome_def replay_allowed_def needed_up_def list_all_iff)

theorem replay_started_when_rolled_out_witness:
  "length (cl_replays (snd (reconcile_test operator_env (\<lambda>_. False) (sample_cluster sample_replay)))) = 1"
proof -
  let ?w = "snd (reconcile_test operator_env (\<lambda>_. False) (sample_cluster sample_replay))"
  obtain cr where "cl_cr ?w = Some cr" "sta_phase (st_status cr) = PhaseReady"
    using ready_run [OF sample_replays] by blast
  then have "cl_replays ?w \<noteq> cl_replays (sample_cluster sample_replay)"
    using outcome_of_pass [of "sample_cluster sample_replay" sample_replay operator_env "\<lambda>_. False"]
    by (simp add: pass_outcome_def ready_justified_def sample_test_mode)
  then show ?thesis
    using replay_started_when_rolled_out [OF _ prod.collapse [symmetric], of "sample_cluster sample_replay" sample_replay operator_env "\<lambda>_. False"]
    by simp
qed

section \<open>Whose namespace\<close>

text \<open>C18: A pass writes Deployments, Services, ConfigMaps and Secrets only into the namespace of its own test: when it
  has changed any of them, the namespace carries the identity of the test.\<close>

theorem writes_only_own_namespace:
  assumes "cl_cr w0 = Some st0" "reconcile_test getenv ip6 w0 = (r, w)" "objects w \<noteq> objects w0"
  shows "case cl_ns w of None \<Rightarrow> False | Some ns \<Rightarrow> ns_uid ns = st_uid st0"
  using holds_snd [OF pass_owned [OF assms(1), of getenv ip6]] assms(2,3)
  by (simp add: untouched_or_owned_def owned_by_def)

theorem writes_only_own_namespace_witness:
  "case cl_ns (snd (reconcile_test operator_env (\<lambda>_. False) (sample_cluster sample_replay))) of
     None \<Rightarrow> False | Some ns \<Rightarrow> ns_uid ns = st_uid sample_replay"
proof -
  let ?w = "snd (reconcile_test operator_env (\<lambda>_. False) (sample_cluster sample_replay))"
  obtain cr where "cl_cr ?w = Some cr" "sta_phase (st_status cr) = PhaseReady"
    using ready_run [OF sample_replays] by blast
  then have "all_rolled_out (cl_deployments ?w) (cl_observed (sample_cluster sample_replay)) (replay_workload_names sample_replay)"
    using outcome_of_pass [of "sample_cluster sample_replay" sample_replay operator_env "\<lambda>_. False"]
    by (auto simp: pass_outcome_def ready_justified_def sample_test_mode replay_allowed_def)
  then have "objects ?w \<noteq> objects (sample_cluster sample_replay)"
    by (auto simp: all_rolled_out_def replay_workload_names_def objects_def sample_cluster_def)
  then show ?thesis
    using writes_only_own_namespace [OF _ prod.collapse [symmetric], of "sample_cluster sample_replay" sample_replay operator_env "\<lambda>_. False"]
    by simp
qed

section \<open>The two ways out\<close>

text \<open>C20: Failure is for good: over any number of passes, each with its own failing calls and its own state of the
  workloads, a test whose stored phase is \<^verbatim>\<open>Failed\<close> stays failed; nothing is written for it, no replay is started,
  its tap is not set up again, and its namespace is not created again.\<close>

theorem failed_stays_down:
  assumes "cl_cr w = Some st" "\<not> st_deleting st" "finalizerName \<in> set (st_finalizers st)" "s3Finalizer \<in> set (st_finalizers st)"
    "sta_phase (st_status st) = PhaseFailed"
  shows "let u = run_passes getenv ip6 passes w
    in objects u = objects w \<and> cl_replays u = cl_replays w \<and> (cl_queue_bound w \<or> \<not> cl_queue_bound u) \<and>
       cl_rule u \<in> {None, cl_rule w} \<and> (cl_ns w \<noteq> None \<or> cl_ns u = None) \<and>
       (case cl_cr u of None \<Rightarrow> False | Some cr \<Rightarrow> sta_phase (st_status cr) = PhaseFailed)"
proof -
  have "down w w" using assms by (simp add: down_def)
  from passes_stay_down [OF this, of getenv ip6 passes] show ?thesis
    by (auto simp: down_def Let_def split: option.splits)
qed

theorem failed_stays_down_witness:
  "case cl_cr (run_passes operator_env (\<lambda>_. False) [([Fine, Fails ''timeout''], \<lambda>_. sample_observed), ([], \<lambda>_. sample_observed)]
      (sample_cluster sample_failed)) of
    None \<Rightarrow> False | Some cr \<Rightarrow> sta_phase (st_status cr) = PhaseFailed"
  using failed_stays_down [of "sample_cluster sample_failed" sample_failed operator_env "\<lambda>_. False"
      "[([Fine, Fails ''timeout''], \<lambda>_. sample_observed), ([], \<lambda>_. sample_observed)]"]
  by (simp add: sample_failed_def sample_test_def sample_status_def Let_def)





end
