(* ===== verification/TuskStore.thy ===== *)
theory TuskStore
  imports BeruStore TuskHub GoUrl
begin

text \<open>
  \<^verbatim>\<open>pipeline/tusk/pkg/db\<close> and the read-only handlers of \<^verbatim>\<open>pipeline/tusk/pkg/server\<close>: the dashboard's queries
  over the tables Beru writes.  Which queries the server answers is an argument; \<^const>\<open>Inl\<close> is the query that
  failed.  The tables of BeruStore leave out \<^verbatim>\<open>created_at\<close>, so the times are arguments; rows of the same time come in
  table order, and texts are compared byte by byte.
\<close>

section \<open>Queries (postgres.go, occurrences.go)\<close>

datatype tusk_query =
    QSessions bool
  | QExecutions string
  | QLatestExecution string
  | QDiffs string string
  | QSummary string string
  | QOccurrences string string string
  | QLatestForTrace string

type_synonym 'a tusk_read = "tusk_query + 'a"

definition ask :: "(tusk_query \<Rightarrow> bool) \<Rightarrow> tusk_query \<Rightarrow> 'a \<Rightarrow> 'a tusk_read" where
  "ask answers q x = (if answers q then Inr x else Inl q)"

definition tusk_config_from_env :: "env \<Rightarrow> postgres_config option" where
  "tusk_config_from_env getenv =
     (let port = getenv ''DB_PORT''; ssl = getenv ''DB_SSLMODE'';
          cfg = \<lparr>pc_host = getenv ''DB_HOST'', pc_port = (if port = [] then ''5432'' else port), pc_user = getenv ''DB_USER'',
                 pc_password = getenv ''DB_PASSWORD'', pc_name = getenv ''DB_NAME'',
                 pc_sslmode = (if ssl = [] then ''require'' else ssl)\<rparr>
      in if pc_host cfg = [] \<or> pc_user cfg = [] \<or> pc_name cfg = [] then None else Some cfg)"

definition newest_first :: "('a \<Rightarrow> instant) \<Rightarrow> 'a list \<Rightarrow> 'a list" where
  "newest_first created = sort_key (\<lambda>x. - created x)"

definition list_sessions ::
  "(tusk_query \<Rightarrow> bool) \<Rightarrow> (session_row \<Rightarrow> instant) \<Rightarrow> bool \<Rightarrow> db \<Rightarrow> session_row list tusk_read" where
  "list_sessions answers created withDiffs db =
     ask answers (QSessions withDiffs)
       (newest_first created
         (filter (\<lambda>s. withDiffs \<longrightarrow> list_ex (\<lambda>t. tr_session t = Some (ss_id s)) (db_traces db)) (db_sessions db)))"

definition list_executions ::
  "(tusk_query \<Rightarrow> bool) \<Rightarrow> (string \<times> string \<Rightarrow> instant) \<Rightarrow> string \<Rightarrow> db \<Rightarrow> (string \<times> string) list tusk_read" where
  "list_executions answers created sid db =
     ask answers (QExecutions sid) (newest_first created (filter (\<lambda>e. snd e = sid) (db_execs db)))"

definition latest_execution_id ::
  "(tusk_query \<Rightarrow> bool) \<Rightarrow> (string \<times> string \<Rightarrow> instant) \<Rightarrow> string \<Rightarrow> db \<Rightarrow> string tusk_read" where
  "latest_execution_id answers created sid db =
     ask answers (QLatestExecution sid)
       (case newest_first created (filter (\<lambda>e. snd e = sid) (db_execs db)) of [] \<Rightarrow> [] | e # _ \<Rightarrow> fst e)"

definition resolve_execution_id ::
  "(tusk_query \<Rightarrow> bool) \<Rightarrow> (string \<times> string \<Rightarrow> instant) \<Rightarrow> string \<Rightarrow> string \<Rightarrow> db \<Rightarrow> string tusk_read" where
  "resolve_execution_id answers created sid execID db =
     (if execID \<noteq> [] then Inr execID else latest_execution_id answers created sid db)"

record session_diff =
  sx_trace :: string
  sx_session :: string
  sx_execution :: string
  sx_signature :: string
  sx_source_type :: string
  sx_method :: string
  sx_path :: string
  sx_status_a :: string
  sx_status_b :: string
  sx_status_candidate :: string
  sx_control_a :: "string option"
  sx_control_b :: "string option"
  sx_candidate :: "string option"
  sx_noise :: "string option"
  sx_regression :: "string option"
  sx_verdict :: string

definition null_raw :: "string option \<Rightarrow> string option" where
  "null_raw b = (case b of None \<Rightarrow> None | Some [] \<Rightarrow> None | Some s \<Rightarrow> Some s)"

text \<open>The row of the join; \<^verbatim>\<open>traces\<close> has at most one row for a trace of an execution.\<close>

definition joined_trace :: "db \<Rightarrow> diff_row \<Rightarrow> trace_row option" where
  "joined_trace db d = find (\<lambda>t. tr_trace t = dr_trace d \<and> tr_exec t = dr_exec d) (db_traces db)"

definition session_diff_of :: "diff_row \<Rightarrow> trace_row option \<Rightarrow> session_diff" where
  "session_diff_of d t =
     (let col = (\<lambda>f. case t of None \<Rightarrow> [] | Some r \<Rightarrow> f r)
      in \<lparr>sx_trace = dr_trace d, sx_session = (case dr_session d of None \<Rightarrow> [] | Some s \<Rightarrow> s), sx_execution = dr_exec d,
          sx_signature = dr_signature d, sx_source_type = dr_source_type d, sx_method = col tr_method, sx_path = col tr_path,
          sx_status_a = col tr_status_a, sx_status_b = col tr_status_b, sx_status_candidate = col tr_status_candidate,
          sx_control_a = null_raw (dr_control_a d), sx_control_b = null_raw (dr_control_b d),
          sx_candidate = null_raw (dr_candidate d), sx_noise = null_raw (dr_noise d),
          sx_regression = null_raw (dr_regression d), sx_verdict = dr_verdict d\<rparr>)"

definition get_session_diffs ::
  "(tusk_query \<Rightarrow> bool) \<Rightarrow> (string \<times> string \<Rightarrow> instant) \<Rightarrow> (diff_row \<Rightarrow> trace_row option \<Rightarrow> instant) \<Rightarrow> string \<Rightarrow> string \<Rightarrow> db \<Rightarrow>
   session_diff list tusk_read" where
  "get_session_diffs answers created shown_at sid execID db =
     (case resolve_execution_id answers created sid execID db of
        Inl q \<Rightarrow> Inl q
      | Inr [] \<Rightarrow> Inr []
      | Inr exec \<Rightarrow>
          ask answers (QDiffs sid exec)
            (map (\<lambda>d. session_diff_of d (joined_trace db d))
              (sort_key (\<lambda>d. - shown_at d (joined_trace db d)) (sort_key dr_signature
                (filter (\<lambda>d. dr_session d = Some sid \<and> dr_exec d = exec) (db_diffs db))))))"

definition summary_of :: "string \<Rightarrow> string \<Rightarrow> db \<Rightarrow> session_summary" where
  "summary_of sid exec db =
     (let ts = filter (\<lambda>t. tr_session t = Some sid \<and> tr_exec t = exec) (db_traces db);
          count = (\<lambda>v. length (filter (\<lambda>t. tr_verdict t = v) ts))
      in \<lparr>sm_session = sid, sm_execution = exec, sm_total = length ts, sm_match = count ''MATCH'',
          sm_mismatch = count ''MISMATCH'', sm_voided = count ''VOIDED_BASELINE_DIVERGENCE''\<rparr>)"

definition get_session_summary ::
  "(tusk_query \<Rightarrow> bool) \<Rightarrow> (string \<times> string \<Rightarrow> instant) \<Rightarrow> string \<Rightarrow> string \<Rightarrow> db \<Rightarrow> session_summary tusk_read" where
  "get_session_summary answers created sid execID db =
     (case resolve_execution_id answers created sid execID db of
        Inl q \<Rightarrow> Inl q
      | Inr [] \<Rightarrow>
          Inr \<lparr>sm_session = sid, sm_execution = [], sm_total = 0, sm_match = 0, sm_mismatch = 0, sm_voided = 0\<rparr>
      | Inr exec \<Rightarrow> ask answers (QSummary sid exec) (summary_of sid exec db))"

section \<open>Occurrences of a signature (occurrences.go)\<close>

definition maxOccurrences :: nat where "maxOccurrences = 50"

record signature_occurrence =
  oc_index :: nat
  oc_control_a :: "string option"
  oc_control_b :: "string option"
  oc_candidate :: "string option"

text \<open>\<^verbatim>\<open>decodePayloadBytes\<close>: the text itself when it is JSON, else wrapped in an object.\<close>

definition decode_payload_bytes :: "bytes \<Rightarrow> string option" where
  "decode_payload_bytes b =
     (if b = [] then None
      else if json_valid b then Some b
      else Some (json_marshal (JObj [(''_raw'', JStr b)])))"

definition at_or_nil :: "string option list \<Rightarrow> nat \<Rightarrow> string option" where
  "at_or_nil xs i = (if length xs \<le> i then None else xs ! i)"

definition role_payloads :: "string \<Rightarrow> (string \<times> bytes) list \<Rightarrow> string option list" where
  "role_payloads role rows = map (\<lambda>(r, b). decode_payload_bytes b) (filter (\<lambda>(r, b). r = role) rows)"

definition align_occurrences :: "(string \<times> bytes) list \<Rightarrow> nat \<Rightarrow> signature_occurrence list \<times> bool" where
  "align_occurrences rows limit =
     (let a = role_payloads ''control-a'' rows; b = role_payloads ''control-b'' rows; c = role_payloads ''candidate'' rows;
          n = max (length a) (max (length b) (length c));
          truncated = (0 < limit \<and> limit < n);
          m = (if truncated then limit else n)
      in (map (\<lambda>i. \<lparr>oc_index = i, oc_control_a = at_or_nil a i, oc_control_b = at_or_nil b i, oc_candidate = at_or_nil c i\<rparr>) [0..<m],
          truncated))"

definition latest_execution_for_trace :: "(tusk_query \<Rightarrow> bool) \<Rightarrow> string \<Rightarrow> db \<Rightarrow> string tusk_read" where
  "latest_execution_for_trace answers traceID db =
     ask answers (QLatestForTrace traceID)
       (case rev (sort_key (\<lambda>x. r_captured_at (rr_report x)) (filter (\<lambda>x. r_trace_id (rr_report x) = traceID) (db_reports db))) of
          [] \<Rightarrow> []
        | x # _ \<Rightarrow> rr_exec x)"

definition occurrence_rows :: "string \<Rightarrow> string \<Rightarrow> string \<Rightarrow> db \<Rightarrow> (string \<times> bytes) list" where
  "occurrence_rows exec traceID signature db =
     map (\<lambda>x. (r_shadow_role (rr_report x), r_payload (rr_report x)))
       (sort_key (\<lambda>x. r_captured_at (rr_report x))
         (filter (\<lambda>x. rr_exec x = exec \<and> r_trace_id (rr_report x) = traceID \<and> r_signature (rr_report x) = signature)
           (db_reports db)))"

definition get_signature_occurrences ::
  "(tusk_query \<Rightarrow> bool) \<Rightarrow> string \<Rightarrow> string \<Rightarrow> string \<Rightarrow> db \<Rightarrow> (string \<times> signature_occurrence list \<times> bool) tusk_read" where
  "get_signature_occurrences answers traceID signature execID db =
     (case (if execID = [] then latest_execution_for_trace answers traceID db else Inr execID) of
        Inl q \<Rightarrow> Inl q
      | Inr [] \<Rightarrow> Inr ([], [], False)
      | Inr exec \<Rightarrow>
          ask answers (QOccurrences exec traceID signature)
            (exec, align_occurrences (occurrence_rows exec traceID signature db) maxOccurrences))"

section \<open>Notifications (listener.go)\<close>

definition listenMinBackoff :: duration where "listenMinBackoff = second"
definition listenMaxBackoff :: duration where "listenMaxBackoff = 30 * second"

definition next_listen_backoff :: "duration \<Rightarrow> duration" where
  "next_listen_backoff backoff = min (backoff * 2) listenMaxBackoff"

definition notice_zero :: verdict_notice where
  "notice_zero = \<lparr>vn_session = [], vn_execution = [], vn_trace = [], vn_verdict = []\<rparr>"

definition decode_notice :: "verdict_notice decoder" where
  "decode_notice = decode_struct
     [(''session_id'', in_field vn_session (\<lambda>x. vn_session_update (\<lambda>_. x)) decode_string),
      (''replay_execution_id'', in_field vn_execution (\<lambda>x. vn_execution_update (\<lambda>_. x)) decode_string),
      (''trace_id'', in_field vn_trace (\<lambda>x. vn_trace_update (\<lambda>_. x)) decode_string),
      (''verdict'', in_field vn_verdict (\<lambda>x. vn_verdict_update (\<lambda>_. x)) decode_string)]"

definition unmarshal_notice :: "string \<Rightarrow> verdict_notice option" where
  "unmarshal_notice payload =
     (case json_parse payload of
        None \<Rightarrow> None
      | Some v \<Rightarrow> (case decode_notice v notice_zero of (n, ok) \<Rightarrow> if ok then Some n else None))"

text \<open>The loop of \<^verbatim>\<open>listenOnce\<close> over the payloads of a connection: malformed ones are skipped.\<close>

fun listen_payloads :: "(verdict_notice \<Rightarrow> 's \<Rightarrow> 's option) \<Rightarrow> string list \<Rightarrow> 's \<Rightarrow> 's option" where
  "listen_payloads handler [] s = Some s"
| "listen_payloads handler (p # ps) s =
     (case unmarshal_notice p of
        None \<Rightarrow> listen_payloads handler ps s
      | Some ev \<Rightarrow> (case handler ev s of None \<Rightarrow> None | Some s' \<Rightarrow> listen_payloads handler ps s'))"

section \<open>Handlers (diffs.go, websocket.go)\<close>

datatype 'a tusk_reply = HttpError nat string | JsonBody 'a

definition query_truthy :: "string \<Rightarrow> bool" where
  "query_truthy v \<longleftrightarrow> v \<in> {''1'', ''true'', ''TRUE'', ''yes'', ''on''}"

definition body_or :: "string \<Rightarrow> 'a tusk_read \<Rightarrow> 'a tusk_reply" where
  "body_or message r = (case r of Inl q \<Rightarrow> HttpError 500 message | Inr x \<Rightarrow> JsonBody x)"

text \<open>A store that is not configured is \<^const>\<open>None\<close>; an absent query parameter is empty.\<close>

definition handle_list_sessions ::
  "(bool \<Rightarrow> 'a tusk_read) option \<Rightarrow> (string \<Rightarrow> string) \<Rightarrow> 'a tusk_reply" where
  "handle_list_sessions store query =
     (case store of
        None \<Rightarrow> HttpError 503 ''postgres not configured''
      | Some list \<Rightarrow> body_or ''list sessions failed'' (list (query_truthy (query ''with_diffs''))))"

definition handle_list_executions :: "(string \<Rightarrow> 'a tusk_read) option \<Rightarrow> string \<Rightarrow> 'a tusk_reply" where
  "handle_list_executions store sid =
     (case store of
        None \<Rightarrow> HttpError 503 ''postgres not configured''
      | Some list \<Rightarrow>
          (if sid = [] then HttpError 400 ''session_id is required''
           else body_or ''list executions failed'' (list sid)))"

definition handle_get_diffs :: "(string \<Rightarrow> string \<Rightarrow> 'a tusk_read) option \<Rightarrow> (string \<Rightarrow> string) \<Rightarrow> 'a tusk_reply" where
  "handle_get_diffs store query =
     (case store of
        None \<Rightarrow> HttpError 503 ''postgres not configured''
      | Some get \<Rightarrow>
          (if query ''session_id'' = [] then HttpError 400 ''session_id is required''
           else body_or ''get diffs failed'' (get (query ''session_id'') (query ''replay_execution_id''))))"

definition handle_get_occurrences ::
  "(string \<Rightarrow> string \<Rightarrow> string \<Rightarrow> 'a tusk_read) option \<Rightarrow> (string \<Rightarrow> string) \<Rightarrow> 'a tusk_reply" where
  "handle_get_occurrences store query =
     (case store of
        None \<Rightarrow> HttpError 503 ''postgres not configured''
      | Some get \<Rightarrow>
          (if query ''trace_id'' = [] \<or> query ''signature'' = [] then HttpError 400 ''trace_id and signature are required''
           else body_or ''get occurrences failed'' (get (query ''trace_id'') (query ''signature'') (query ''replay_execution_id''))))"

text \<open>
  \<^verbatim>\<open>handleDiffsWS\<close> up to the stream: the execution is resolved, a fresh summary is cached when it can be read, and
  the browser subscribes.
\<close>

definition handle_diffs_ws ::
  "(tusk_query \<Rightarrow> bool) \<Rightarrow> (string \<times> string \<Rightarrow> instant) \<Rightarrow> (diff_frame list \<Rightarrow> diff_frame list) \<Rightarrow> db option \<Rightarrow>
   (string \<Rightarrow> string) \<Rightarrow> diff_hub \<Rightarrow> (nat \<times> diff_frame list \<times> diff_hub) tusk_reply" where
  "handle_diffs_ws answers created io store query h =
     (case store of
        None \<Rightarrow> HttpError 503 ''postgres not configured''
      | Some db \<Rightarrow>
          (let sid = query ''session_id''
           in if sid = [] then HttpError 400 ''session_id is required''
              else case resolve_execution_id answers created sid (query ''replay_execution_id'') db of
                Inl q \<Rightarrow> HttpError 500 ''resolve execution failed''
              | Inr resolved \<Rightarrow>
                  JsonBody (open_diff_stream
                    (\<lambda>s e. case get_session_summary answers created s e db of Inl q \<Rightarrow> None | Inr smry \<Rightarrow> Some smry)
                    io sid resolved h)))"

definition defaultCORSOrigin :: string where "defaultCORSOrigin = ''http://localhost:3000''"

definition allowed_origin :: "(string \<Rightarrow> bool) \<Rightarrow> string \<Rightarrow> bool" where
  "allowed_origin ip6 origin =
     (case url_parse ip6 origin of
        None \<Rightarrow> False
      | Some u \<Rightarrow>
          pu_scheme u \<noteq> [] \<and> pu_host u \<noteq> [] \<and> pu_scheme u \<in> {''http'', ''https''} \<and>
          to_lower (url_hostname u) \<in> {''localhost'', ''127.0.0.1''})"

definition check_origin :: "(string \<Rightarrow> bool) \<Rightarrow> string \<Rightarrow> bool" where
  "check_origin ip6 origin \<longleftrightarrow> origin = [] \<or> allowed_origin ip6 origin"

text \<open>The allowed origin of the answer, and the status when the request goes no further.\<close>

definition with_cors :: "(string \<Rightarrow> bool) \<Rightarrow> string \<Rightarrow> string \<Rightarrow> string \<times> nat option" where
  "with_cors ip6 http_method origin =
     (if origin \<noteq> [] \<and> allowed_origin ip6 origin then origin else defaultCORSOrigin,
      if http_method = ''OPTIONS'' then Some 204 else None)"

end
