(* ===== verification/TuskStoreProps.thy ===== *)
theory TuskStoreProps
  imports TuskStore BeruStoreProps BeruDiffSpec
begin

text \<open>
  What the dashboard shows is what Beru decided: the occurrences of a signature are the buckets the verdict was
  computed from, and a flush that stored a verdict is announced and shown with it.
\<close>

section \<open>Occurrences are buckets\<close>

lemma map_insort: "map f (insort_key (\<lambda>x. g (f x)) x xs) = insort_key g (f x) (map f xs)"
  by (induction xs) auto

lemma map_sort_key: "map f (sort_key (\<lambda>x. g (f x)) xs) = sort_key g (map f xs)"
  by (induction xs) (simp_all add: map_insort)

lemma occurrence_rows_select:
  "occurrence_rows (replayExecutionID p) t sig db =
     map (\<lambda>r. (r_shadow_role r, r_payload r)) (filter (\<lambda>r. r_signature r = sig) (select_reports p t [] db))"
proof -
  let ?P = "\<lambda>x. rr_exec x = replayExecutionID p \<and> r_trace_id (rr_report x) = t"
  let ?S = "sort_key (\<lambda>x. r_captured_at (rr_report x)) (filter ?P (db_reports db))"
  have "occurrence_rows (replayExecutionID p) t sig db =
      map (\<lambda>x. (r_shadow_role (rr_report x), r_payload (rr_report x)))
        (sort_key (\<lambda>x. r_captured_at (rr_report x)) (filter (\<lambda>x. r_signature (rr_report x) = sig) (filter ?P (db_reports db))))"
    by (simp add: occurrence_rows_def conj_ac)
  also have "\<dots> = map (\<lambda>x. (r_shadow_role (rr_report x), r_payload (rr_report x)))
        (filter (\<lambda>x. r_signature (rr_report x) = sig) ?S)"
    by (simp only: filter_sort)
  also have "\<dots> = map (\<lambda>r. (r_shadow_role r, r_payload r)) (filter (\<lambda>r. r_signature r = sig) (map rr_report ?S))"
    by (simp add: filter_map comp_def)
  also have "map rr_report ?S = sort_key r_captured_at (map rr_report (filter ?P (db_reports db)))"
    by (rule map_sort_key)
  finally show ?thesis
    by (simp add: select_reports_def filter_map comp_def)
qed

text \<open>All reports under a signature have one protocol, as the signatures of the program do.\<close>

definition one_protocol :: "string \<Rightarrow> string \<Rightarrow> raw_report list \<Rightarrow> bool" where
  "one_protocol proto sig h \<longleftrightarrow> list_all (\<lambda>r. r_signature r = sig \<longrightarrow> r_protocol r = proto) h"

lemma role_payloads_bucket:
  fixes h :: "raw_report list"
  assumes "one_protocol proto sig h"
  shows "role_payloads role (map (\<lambda>r. (r_shadow_role r, r_payload r)) (filter (\<lambda>r. r_signature r = sig) h)) =
    map (decode_payload_bytes \<circ> r_payload) (bucket_of h proto role sig)"
proof -
  have "filter (\<lambda>r. r_signature r = sig \<and> r_shadow_role r = role) h = bucket_of h proto role sig"
    unfolding bucket_of_def by (rule filter_cong) (use assms in \<open>auto simp: one_protocol_def list_all_iff\<close>)
  then show ?thesis
    by (simp add: role_payloads_def filter_map comp_def conj_ac)
qed

lemma occurrences_eq:
  assumes "answers (QOccurrences (replayExecutionID p) t sig)" "replayExecutionID p \<noteq> []"
    "one_protocol proto sig (select_reports p t [] db)"
  defines "bucket \<equiv> \<lambda>role. map (decode_payload_bytes \<circ> r_payload) (bucket_of (select_reports p t [] db) proto role sig)"
  defines "n \<equiv> max (length (bucket ControlA)) (max (length (bucket ControlB)) (length (bucket Candidate)))"
  shows "get_signature_occurrences answers t sig (replayExecutionID p) db =
    Inr (replayExecutionID p,
      map (\<lambda>i. \<lparr>oc_index = i, oc_control_a = at_or_nil (bucket ControlA) i, oc_control_b = at_or_nil (bucket ControlB) i,
                oc_candidate = at_or_nil (bucket Candidate) i\<rparr>) [0..<min maxOccurrences n],
      maxOccurrences < n)"
proof -
  obtain c s where e: "replayExecutionID p = c # s" using assms(2) by (cases "replayExecutionID p") auto
  have roles: "ControlA = ''control-a''" "ControlB = ''control-b''" "Candidate = ''candidate''"
    by (simp_all add: ControlA_def ControlB_def Candidate_def)
  have rows: "role_payloads role (occurrence_rows (replayExecutionID p) t sig db) = bucket role" for role
    unfolding bucket_def occurrence_rows_select by (rule role_payloads_bucket [OF assms(3)])
  have cap: "min maxOccurrences n = (if 0 < maxOccurrences \<and> maxOccurrences < n then maxOccurrences else n)"
      "(0 < maxOccurrences \<and> maxOccurrences < n) = (maxOccurrences < n)"
    by (auto simp: maxOccurrences_def)
  show ?thesis
    using assms(1) unfolding get_signature_occurrences_def align_occurrences_def rows [unfolded e] cap(1)
    by (simp add: e ask_def Let_def rows [unfolded e] cap(2) n_def maxOccurrences_def flip: roles)
qed

text \<open>The index of a step names the pair of payloads that differ.\<close>

lemma compare_pairs_index:
  assumes "s \<in> set (fst (compare_pairs proto sig noise k as bs cs flags))"
  shows "\<exists>j. s_index s = Some (int (k + j)) \<and> j < length as \<and> j < length cs \<and>
    \<not> payloads_equal proto (r_payload (as ! j)) (r_payload (cs ! j))"
  using assms
proof (induction proto sig noise k as bs cs flags rule: compare_pairs.induct)
  case (1 proto sig noise k a as bs c cs flags)
  let ?rest = "\<lambda>f. compare_pairs proto sig noise (Suc k) as (tl bs) cs f"
  obtain labels regressed where r: "payload_regressions (r_payload a) (head_payload bs) (r_payload c) noise = (labels, regressed)"
    by (cases "payload_regressions (r_payload a) (head_payload bs) (r_payload c) noise")
  have shift: "\<exists>j. s_index s = Some (int (k + j)) \<and> j < length (a # as) \<and> j < length (c # cs) \<and>
      \<not> payloads_equal proto (r_payload ((a # as) ! j)) (r_payload ((c # cs) ! j))"
    if "\<exists>j. s_index s = Some (int (Suc k + j)) \<and> j < length as \<and> j < length cs \<and>
      \<not> payloads_equal proto (r_payload (as ! j)) (r_payload (cs ! j))"
    using that by (metis Suc_less_eq add_Suc_shift length_Cons nth_Cons_Suc)
  show ?case
  proof (cases "payloads_equal proto (r_payload a) (r_payload c)")
    case True
    then show ?thesis using "1.IH"(1) [OF True] "1.prems" shift by simp
  next
    case False
    show ?thesis
    proof (cases "s \<in> set (payload_steps proto sig k labels)")
      case True
      then have "s_index s = Some (int k)" by (auto simp: payload_steps_def split: if_splits)
      then show ?thesis using False by (intro exI [of _ 0]) simp
    next
      case outside: False
      show ?thesis
      proof (cases regressed)
        case True
        then have "s \<in> set (fst (?rest (List.insert FlagMismatchPayload flags)))"
          using "1.prems" False outside r by (auto simp: Let_def split: prod.splits)
        then show ?thesis
          using "1.IH"(3) [OF False r [symmetric] refl] True shift by simp
      next
        case not: False
        then have "s \<in> set (fst (?rest flags))"
          using "1.prems" False r by (simp add: Let_def)
        then show ?thesis
          using "1.IH"(2) [OF False r [symmetric] refl] not shift by simp
      qed
    qed
  qed
qed simp_all

lemma compare_signature_index:
  assumes "s \<in> set (fst (compare_signature proto sig as bs cs flags noise))" "s_index s = Some i"
  shows "0 \<le> i \<and> nat i < length as \<and> nat i < length cs \<and>
    \<not> payloads_equal proto (r_payload (as ! nat i)) (r_payload (cs ! nat i))"
proof -
  obtain f where f: "s \<in> set (fst (compare_pairs proto sig noise 0 as bs cs f))"
    using assms by (auto simp: compare_signature_def count_step_def Let_def case_prod_unfold split: if_splits)
  show ?thesis
    using compare_pairs_index [OF f] assms(2) by auto
qed

text \<open>C12: A step of a verdict opens on its own evidence: when a comparison of the buckets of a signature reports a
  payload mismatch at an index below the cap, the occurrence the dashboard shows at that index holds exactly the
  payloads that were compared there, and the payloads of control-a and candidate do differ.\<close>

theorem step_opens_its_occurrence:
  assumes "answers (QOccurrences (replayExecutionID p) t sig)" "replayExecutionID p \<noteq> []"
    "one_protocol proto sig (select_reports p t [] db)"
    "s \<in> set (fst (compare_signature proto sig (bucket_of (select_reports p t [] db) proto ControlA sig)
        (bucket_of (select_reports p t [] db) proto ControlB sig) (bucket_of (select_reports p t [] db) proto Candidate sig)
        flags noise))"
    "s_index s = Some i" "i < int maxOccurrences"
  shows "case get_signature_occurrences answers t sig (replayExecutionID p) db of
      Inl q \<Rightarrow> False
    | Inr (exec, occs, truncated) \<Rightarrow>
        (let h = select_reports p t [] db; a = bucket_of h proto ControlA sig; c = bucket_of h proto Candidate sig
         in nat i < length occs \<and> nat i < length a \<and> nat i < length c \<and>
            oc_index (occs ! nat i) = nat i \<and>
            oc_control_a (occs ! nat i) = decode_payload_bytes (r_payload (a ! nat i)) \<and>
            oc_candidate (occs ! nat i) = decode_payload_bytes (r_payload (c ! nat i)) \<and>
            \<not> payloads_equal proto (r_payload (a ! nat i)) (r_payload (c ! nat i)))"
proof -
  have at: "at_or_nil (map f xs) j = f (xs ! j)" if "j < length xs" for f :: "raw_report \<Rightarrow> string option" and xs j
    using that by (simp add: at_or_nil_def)
  obtain j where j: "i = int j"
    using compare_signature_index [OF assms(4,5)] by (cases i) auto
  show ?thesis
    using compare_signature_index [OF assms(4,5)] assms(6)
    unfolding occurrences_eq [of answers p t sig proto db, OF assms(1-3)] j
    by (simp add: Let_def at less_max_iff_disj)
qed

definition diverged_row :: "string \<Rightarrow> 64 word \<Rightarrow> string \<Rightarrow> report_row" where
  "diverged_row role i body =
     \<lparr>rr_session = ''s1'', rr_exec = ''e1'',
      rr_report = \<lparr>r_trace_id = ''t1'', r_shadow_role = role, r_shadow_test_name = ''shop'', r_protocol = ''redis'',
        r_direction = DirectionEgress, r_signature = ''redis:GET'', r_status_code = [], r_payload = body,
        r_captured_at = 1000, r_ingest_id = i\<rparr>\<rparr>"

definition diverged_db :: db where
  "diverged_db = empty_db\<lparr>db_reports :=
     [diverged_row ControlA 1 ''1'', diverged_row ControlB 2 ''1'', diverged_row Candidate 3 ''2'']\<rparr>"

theorem step_opens_its_occurrence_witness:
  "case get_signature_occurrences (\<lambda>_. True) ''t1'' ''redis:GET'' ''e1'' diverged_db of
     Inl q \<Rightarrow> False
   | Inr (exec, occs, truncated) \<Rightarrow>
       oc_control_a (occs ! 0) = decode_payload_bytes ''1'' \<and> oc_candidate (occs ! 0) = decode_payload_bytes ''2''"
proof -
  let ?h = "select_reports sample_store ''t1'' [] diverged_db"
  let ?steps = "fst (compare_signature ''redis'' ''redis:GET'' (bucket_of ?h ''redis'' ControlA ''redis:GET'')
      (bucket_of ?h ''redis'' ControlB ''redis:GET'') (bucket_of ?h ''redis'' Candidate ''redis:GET'') [] [])"
  have facts: "?steps \<noteq> []" "s_index (hd ?steps) = Some 0" "one_protocol ''redis'' ''redis:GET'' ?h"
    "replayExecutionID sample_store = ''e1''" "0 < int maxOccurrences"
    "r_payload (bucket_of ?h ''redis'' ControlA ''redis:GET'' ! 0) = ''1''"
    "r_payload (bucket_of ?h ''redis'' Candidate ''redis:GET'' ! 0) = ''2''"
    by code_simp+
  show ?thesis
    using step_opens_its_occurrence [of "\<lambda>_. True" sample_store "''t1''" "''redis:GET''" "''redis''" diverged_db "hd ?steps" "[]" "[]" 0]
      facts by (auto simp: Let_def split: sum.splits)
qed

section \<open>A stored verdict is announced and shown\<close>

lemma notice_read:
  assumes "utf8_ok s" "utf8_ok e" "utf8_ok t" "utf8_ok v"
  shows "unmarshal_notice (json_marshal (JObj
       [(''replay_execution_id'', JStr e), (''session_id'', JStr s), (''trace_id'', JStr t), (''verdict'', JStr v)])) =
    Some \<lparr>vn_session = s, vn_execution = e, vn_trace = t, vn_verdict = v\<rparr>"
proof -
  let ?v = "JObj [(''replay_execution_id'', JStr e), (''session_id'', JStr s), (''trace_id'', JStr t), (''verdict'', JStr v)]"
  have names: "utf8_ok ''replay_execution_id''" "utf8_ok ''session_id''" "utf8_ok ''trace_id''" "utf8_ok ''verdict''"
    by (simp_all add: utf8_ok_ascii)
  have "json_parse (json_marshal ?v) = Some ?v"
    by (rule json_parse_marshal) (use assms names in \<open>simp_all add: max_nesting_depth_def\<close>)
  then show ?thesis
    by (simp add: unmarshal_notice_def decode_notice_def notice_zero_def in_field_def field_of_def)
qed

text \<open>Rows with distinct keys: exactly one of them has a given key.\<close>

lemma one_row:
  assumes "unique_keys key t" "find_row key k t = Some r"
  shows "filter (\<lambda>x. key x = k) t = [r]"
  using assms
proof (induction t)
  case (Cons x t)
  then show ?case
    by (auto simp: unique_keys_def filter_empty_conv image_iff split: if_splits)
qed simp

lemma save_effect_events:
  "h \<noteq> [] \<Longrightarrow> db_events (save_effect pg p t v h db) = db_events db @ [notify_payload p t v]"
  by (simp add: save_effect_def project_effect_def)


text \<open>C11: What a flush decides is what the dashboard shows: after an accepted flush that evaluated the trace, the last
  notification reads back as the session, execution, trace and verdict that were stored, and among the differences
  the dashboard lists for the execution there is, for every signature of the history, exactly one entry of the
  trace, with that verdict.\<close>

theorem flush_reaches_dashboard:
  assumes "flush_reports_and_evaluate pg p env (r # rs) noise timeout db = (Inr u, db')"
    "evaluate_history env (select_reports p (r_trace_id r) [] db') noise timeout = Some v"
    "select_reports p (r_trace_id r) [] db' \<noteq> []" "db_ok db" "sessionID p \<noteq> []" "replayExecutionID p \<noteq> []"
    "utf8_ok (sessionID p)" "utf8_ok (replayExecutionID p)" "utf8_ok (r_trace_id r)" "utf8_ok (v_status v)"
    "answers (QDiffs (sessionID p) (replayExecutionID p))"
  shows "unmarshal_notice (last (db_events db')) =
      Some \<lparr>vn_session = sessionID p, vn_execution = replayExecutionID p, vn_trace = r_trace_id r, vn_verdict = v_status v\<rparr> \<and>
    (case get_session_diffs answers created shown_at (sessionID p) (replayExecutionID p) db' of
       Inl q \<Rightarrow> False
     | Inr rows \<Rightarrow>
         list_all (\<lambda>sig. map sx_verdict (filter (\<lambda>x. sx_trace x = r_trace_id r \<and> sx_signature x = sig) rows) = [v_status v])
           (signature_order (select_reports p (r_trace_id r) [] db')))"
proof -
  let ?t = "r_trace_id r" and ?e = "replayExecutionID p"
  let ?h = "select_reports p ?t [] db'"
  have eq: "db' = save_effect pg p ?t v ?h (insert_all p (r # rs) db)"
    using flush_evaluates(2) [OF assms(1) list.distinct(2)] assms(2) by simp
  then have "db_events db' = db_events (insert_all p (r # rs) db) @ [notify_payload p ?t v]"
    using arg_cong [OF eq, of db_events, unfolded save_effect_events [OF assms(3)]] by simp
  then have notice: "last (db_events db') = notify_payload p ?t v" by simp
  have "db_diffs db' = diffs.puts (diff_rows pg p ?t v ?h) (db_diffs db)"
    using arg_cong [OF eq, of db_diffs] assms(3) by simp
  then have ok: "unique_keys diff_key (db_diffs db')"
    using assms(4) by (simp add: diffs.unique_puts db_ok_def)
  have row: "find_row diff_key (?e, ?t, sig) (db_diffs db') = Some (diff_row_of pg p ?t v (verdict_details_of v) ?h sig)"
    if "sig \<in> set (signature_order ?h)" for sig
    using current_rows [where db' = db' and ev = "Some v" and p = p and rs = "r # rs" and db = db and pg = pg and t = ?t and h = ?h, simplified, OF eq]
      that assms(3) by auto
  obtain c s where e: "?e = c # s" using assms(6) by (cases ?e) auto
  let ?P = "\<lambda>d. dr_session d = Some (sessionID p) \<and> dr_exec d = ?e"
  obtain rows where rows: "get_session_diffs answers created shown_at (sessionID p) ?e db' =
      Inr (map (\<lambda>d. session_diff_of d (joined_trace db' d)) rows)" "mset rows = mset (filter ?P (db_diffs db'))"
    using assms(11) by (auto simp: get_session_diffs_def resolve_execution_id_def ask_def e)
  have shown: "map sx_verdict (filter (\<lambda>x. sx_trace x = ?t \<and> sx_signature x = sig)
      (map (\<lambda>d. session_diff_of d (joined_trace db' d)) rows)) = [v_status v]"
    if "sig \<in> set (signature_order ?h)" for sig
  proof -
    let ?row = "diff_row_of pg p ?t v (verdict_details_of v) ?h sig"
    have mine: "dr_session ?row = Some (sessionID p)" "dr_exec ?row = ?e" "dr_verdict ?row = v_status v"
      using assms(5) by (simp_all add: diff_row_of_def Let_def null_string_def)
    have "mset (filter (\<lambda>d. dr_trace d = ?t \<and> dr_signature d = sig) rows) =
        mset (filter ?P (filter (\<lambda>d. diff_key d = (?e, ?t, sig)) (db_diffs db')))"
      unfolding mset_filter rows(2) by (simp add: filter_mset_eq_conv diff_key_def filter_filter_mset conj_ac)
    also have "\<dots> = {#?row#}"
      using one_row [OF ok row [OF that]] mine by simp
    finally have "filter (\<lambda>d. dr_trace d = ?t \<and> dr_signature d = sig) rows = [?row]"
      by (simp only: mset_single_iff)
    then show ?thesis
      using mine(3) by (simp add: filter_map comp_def session_diff_of_def Let_def)
  qed
  have "notify_payload p ?t v = json_marshal (JObj [(''replay_execution_id'', JStr ?e), (''session_id'', JStr (sessionID p)),
      (''trace_id'', JStr ?t), (''verdict'', JStr (v_status v))])"
    by (simp add: notify_payload_def)
  then show ?thesis
    using notice_read [OF assms(7-10)] shown by (simp add: notice rows(1) list_all_iff del: set_signature_order)
qed

theorem flush_reaches_dashboard_witness:
  "\<exists>v. evaluate_history sample_env (select_reports sample_store ''t1'' [] sample_db) [] 0 = Some v \<and>
     unmarshal_notice (last (db_events sample_db)) =
       Some \<lparr>vn_session = ''s1'', vn_execution = ''e1'', vn_trace = ''t1'', vn_verdict = v_status v\<rparr>"
proof -
  have batch: "sample_batch1 @ sample_batch2 =
      sample_report ControlB 2 2000 # [sample_report ControlA 1 1000, sample_report Candidate 3 3500]"
    by (simp add: sample_batch1_def sample_batch2_def)
  let ?h = "select_reports sample_store ''t1'' [] sample_db"
  have there: "?h \<noteq> []" and ok: "db_ok empty_db"
    and status: "case evaluate_history sample_env ?h [] 0 of None \<Rightarrow> False | Some v \<Rightarrow> utf8_ok (v_status v)"
    by code_simp+
  then obtain v where v: "evaluate_history sample_env ?h [] 0 = Some v" "utf8_ok (v_status v)"
    by (cases "evaluate_history sample_env ?h [] 0") auto
  have ids: "r_trace_id (sample_report ControlB 2 2000) = ''t1''" "sessionID sample_store = ''s1''"
      "replayExecutionID sample_store = ''e1''"
    by (simp_all add: sample_report_def sample_store_def)
  have texts: "utf8_ok ''s1''" "utf8_ok ''e1''" "utf8_ok ''t1''" "''s1'' \<noteq> []" "''e1'' \<noteq> []"
    by (simp_all add: utf8_ok_ascii)
  show ?thesis
    using flush_reaches_dashboard [OF sample_flushes(3) [unfolded sample_flush_def batch], unfolded ids,
        OF v(1) there ok texts(4,5,1-3) v(2), of "\<lambda>_. True"] v(1) by simp
qed

end
