(* ===== verification/Spec2Isabelle.thy ===== *)
theory Spec2Isabelle
  imports BeruDiffProps BeruReportProps BeruWalProps BeruIngestProps KaiselCaptureProps KaiselRulesProps
    KaiselDecodeProps S3StoreProps ShopProps RecordReplay IgrisHttpProps SoldierProxyProps AmqpProps StatusFeedProps
    MonarchProps TuskStoreProps
begin

text \<open>
  Verification library of Shadow-Diff, the pipeline under \<^verbatim>\<open>pipeline\<close>: two control copies and one candidate copy of
  a service run on captured traffic, and the candidate is compared with the controls.  Paths below are relative to
  \<^verbatim>\<open>src/pipeline\<close>.

  \<^bold>\<open>The program.\<close>  Monarch, a Kubernetes operator, reads a ShadowTest and builds its namespace: the three copies with
  their sidecars and dependencies, and the recorders and stores around them; when the stack is up it starts the
  capture of traffic or the replay of a recorded session.  Kaisel captures packets in the kernel, reassembles them,
  pairs requests with responses and exports them: ingress to Igris, which records it or replays it against the
  copies; egress to Shop, which records it and later answers the copies' own outgoing calls.  Envoy, the sidecar
  shadow-soldier (for databases) and the RabbitMQ relay report what each copy answered and called to Beru.  Beru
  stores every report through a write-ahead log in PostgreSQL, groups the reports of a trace and computes a verdict.
  Monarch streams the state of the tests to Tusk, whose hubs pass it on to browsers.

  \<^bold>\<open>Theories and code.\<close>  Each theory names the files it translates; operations keep the names of the source in lower
  case with underscores, constants keep theirs.

  \<^item> Language and library.  Prelude, GoStrings, GoReader, GoTime, GoHash, GoBase64, GoUrl, GoJson, GoJsonTrip, GoDecode,
    GoDecodeRaw, GoRecord: what the code uses of Go and its standard library.  A map is an association list with
    distinct keys and the order it is iterated in is an argument; JSON is parsed, printed and decoded into structs;
    SHA-256 and FNV are computed on words; time is nanoseconds.  \<^verbatim>\<open>%q\<close> is written as a JSON string, with which it
    agrees on printable ASCII; it occurs in messages only.
  \<^item> Contracts.  KeyedTable (tables with a unique key: \<^verbatim>\<open>keyed_table\<close>, \<^verbatim>\<open>upserting\<close>, \<^verbatim>\<open>first_wins\<close>), SessionCodec (what
    is recorded as lines and loaded back), FanOut (the hubs of Tusk), and the locales of the components below; all
    are interpreted on the definitions of the components.
  \<^item> Tracing: \<^verbatim>\<open>pkg/trace\<close>, \<^verbatim>\<open>pkg/sample\<close>.
  \<^item> BeruModel, BeruDiff, BeruDiffSpec, BeruDiffProps: \<^verbatim>\<open>beru/internal/model\<close>, \<^verbatim>\<open>roles\<close>, \<^verbatim>\<open>diff\<close>; BeruDiffSpec says what
    a verdict means without the data structures of the program.  BeruReport, BeruReportProps: \<^verbatim>\<open>report\<close>, \<^verbatim>\<open>payload\<close>.
    BeruStore, BeruStoreProps: \<^verbatim>\<open>storage\<close> without the log; a database is the record of its tables, a statement is an
    operation on it that the server may refuse, a transaction restores the tables when a statement fails.
    BeruWal, BeruWalProps: \<^verbatim>\<open>wal.go\<close>; appenders, dispatcher and workers are the steps of \<^verbatim>\<open>wal_step\<close>, in any order.
    BeruRouter, BeruIngest, BeruExtProc, BeruIngestProps: \<^verbatim>\<open>engine\<close>, \<^verbatim>\<open>api\<close>, \<^verbatim>\<open>server\<close>, \<^verbatim>\<open>envoyextproc\<close>.
  \<^item> KaiselCapture, KaiselCaptureProps: \<^verbatim>\<open>chunk.go\<close>, \<^verbatim>\<open>perf_source.go\<close> and the chunking loop of \<^verbatim>\<open>bpf/capture.c\<close>.
    KaiselRules, KaiselRulesProps: the rule controller, the writes into the kernel maps, the exporter.
    KaiselDecode, KaiselDecodeProps: \<^verbatim>\<open>kaisel/internal/decode\<close>.
  \<^item> S3Store, S3StoreProps: \<^verbatim>\<open>pkg/s3utils\<close>.  Shop, ShopProps: \<^verbatim>\<open>shop\<close>, \<^verbatim>\<open>pkg/beruclient\<close>.  RecordReplay: the record
    Kaisel exports and the key Shop looks up.
  \<^item> IgrisHttp, IgrisHttpProps: \<^verbatim>\<open>igrises/igris-http\<close> and the shared replay engine.  IgrisRabbit, Amqp, AmqpProps:
    \<^verbatim>\<open>igrises/igris-rabbitmq\<close> and \<^verbatim>\<open>egress-relay-rabbitmq\<close>.
  \<^item> SoldierParse, SoldierWire, SoldierProps, SoldierSqlProps: the protocol parsers of \<^verbatim>\<open>shadow-soldier\<close>; SoldierProxy,
    SoldierProxyProps: its tap, its reporter and its configuration.
  \<^item> MonarchTypes: \<^verbatim>\<open>monarch/api/v1alpha1\<close>.  StatusHub: \<^verbatim>\<open>monarch/pkg/grpc\<close>.  TuskTopology, TuskHub, StatusFeedProps:
    \<^verbatim>\<open>tusk/pkg/topology\<close>, \<^verbatim>\<open>tusk/pkg/server\<close>, and the way of a status from Monarch to a browser.
  \<^item> The operator, \<^verbatim>\<open>monarch/internal/controller\<close>.  MonarchSpec and MonarchDeps: what is computed from a test alone
    (names, ports, inputs, validation, dependencies, routes, images).  MonarchObjects and MonarchEnvoy: the edits of
    Deployments, Services and ConfigMaps, and the text of the Envoy configuration.  MonarchCluster: the cluster as a
    record of what the operator reads and writes, with the outcomes of an operation (it goes on, the pass ends, the
    pass fails) and a list of the faults of the next calls.  MonarchWorkloads, MonarchStack, MonarchReconcile: the
    steps, each a function of the cluster, up to \<^verbatim>\<open>reconcile_test\<close>, one pass of \<^verbatim>\<open>Reconcile\<close>, and which
    events wake a test.
  \<^item> Proofs about a pass.  MonarchLogic: triples over steps, with a postcondition for steps that go on and one for
    passes that end.  MonarchFrame: what each step leaves alone.  MonarchQuiet, MonarchPass, MonarchReady,
    MonarchOutcome: what a pass may have started and what readiness means.  MonarchOwned: where it writes.
    MonarchLive: progress.  MonarchTeardown: deletion and failure.  MonarchSamples, MonarchProps: small clusters and
    the properties.  MonarchSidecar: the configuration the operator writes and the sidecar reads.

  \<^bold>\<open>What the lemmas show.\<close>
  \<^item> Verdicts (C1 to C4): the verdict refines its specification for every iteration order of the maps, a trace waits
    for roles exactly until the timeout, and user filters never turn a match into an alarm.
  \<^item> Storage (C5 to C13): no acknowledged report is lost between log, dead letters and store; a trace has one batch
    on its way; failing batches end in a dead letter; a flush is atomic, batches compose, the unique keys hold, and
    the stored verdict is that of the stored history; the reaper decides every overdue trace; an acknowledgement of
    an ingest endpoint means a durable report.
  \<^item> The operator (C14 to C22): whatever calls fail, a test becomes ready only when its stack is up, production is
    tapped only when there is something to receive the traffic, a replay starts at most once and only when the
    Deployments have rolled out, and nothing is written into the namespace of another test; a healthy pass reaches
    readiness; failure is for good, over any number of passes; deletion completes; the teardown of a failed test
    takes the namespace under its name, whoever owns it; the sidecar accepts the routes the operator computed.
  \<^item> Capture (C23 to C26): reassembly never mixes packets, routes belong to the least rule, controller and kernel maps
    stay in step while updates are delivered, transactions pair requests and responses in order.
  \<^item> Recording and replay (C27 to C29): what is recorded is what a replay answers, nothing accepted is lost by the
    uploader, and a replayed call finds its record exactly when its trace id was written in lower case.
  \<^item> Database sidecar (C30 to C33): the parsers return on every stream, decode what clients send, and the tap passes
    every byte on and reports a prefix.
  \<^item> Igris and RabbitMQ (C34 to C37): the concurrency limit, the duplicate filter, and the way of recorded messages
    and requests to the copies.
  \<^item> The status feed (C38 to C40): browsers converge on the state of the tests, and graphs are well formed.

  \<^bold>\<open>Bounds and fuel.\<close>  The JSON parser takes twice the length of its input plus two as fuel, which is more than the
  calls it can make; nesting is limited to the 10000 levels of the package; the round trips of GoJsonTrip show that
  the fuel is enough for everything the program prints.  The remaining loops recurse on their data or have a
  termination proof.  Integers of a fixed width are words where they wrap (hashes, packet offsets, counters, log
  sequence numbers); \<^verbatim>\<open>int\<close> values are bounded where they are read from text.

  \<^bold>\<open>Parameters.\<close>  PostgreSQL, Bolt, files, S3, the clock, random bytes, the kernel's maps, gopacket's decoder, the HTTP
  parsers, BSON documents and the decoder of PostgreSQL messages, the AMQP client, the recogniser of IPv6 literals and
  the JSON path deletion are arguments.  What a theorem needs of them is among its hypotheses.

  \<^bold>\<open>The cluster of the operator.\<close>  During a pass the operator is the only writer of what the model holds; the state of
  the workloads (\<^verbatim>\<open>cl_observed\<close>), the faults of the calls, new identifiers and the replies of the replay endpoint are
  given by the cluster.  A call fails, or a read of the cache misses an object that is there, as the list of faults
  says.  Objects are kept by name; a write of the status sends the fields that changed, and the answer is decoded
  into the object in memory, which keeps the fields the answer leaves out.  The identity of a namespace is the label
  the operator writes on it.

  \<^bold>\<open>Not modelled.\<close>  Program wiring, flags and environment of the binaries; listening sockets and sessions of clients;
  the retention ticker and the SQL text of migrations; the rest of the kernel program and its loading; the workers
  that post Kaisel's records; resource quantities, security contexts and pull policies of the containers, which are
  constants; the registration of the operator with its manager; the read-only queries of the dashboard; generated
  code.
\<close>

end
